(* ===== verification/StepRuns.thy ===== *)
theory StepRuns
  imports Main
begin

text \<open>
  Stores whose handlers interleave are step relations on a world. The interface between such a store and what is proved of it is
  one invariant that every step keeps; here are the facts about runs that follow, shared by the stores.
\<close>

locale invariant_run =
  fixes step :: "'w \<Rightarrow> 'w \<Rightarrow> bool" and inv :: "'w \<Rightarrow> bool"
  assumes inv_step: "step w v \<Longrightarrow> inv w \<Longrightarrow> inv v"
begin

lemma inv_run: "step\<^sup>*\<^sup>* w v \<Longrightarrow> inv w \<Longrightarrow> inv v"
  by (induction rule: rtranclp_induct) (auto intro: inv_step)

text \<open>Short runs, for examples.\<close>

lemma run_two: "step a b \<Longrightarrow> step b c \<Longrightarrow> step\<^sup>*\<^sup>* a c"
  by (meson converse_rtranclp_into_rtranclp rtranclp.rtrancl_refl)

lemma run_four: "step a b \<Longrightarrow> step b c \<Longrightarrow> step c d \<Longrightarrow> step d e \<Longrightarrow> step\<^sup>*\<^sup>* a e"
  using run_two [of a b c] run_two [of c d e] by (rule rtranclp_trans)

end

end
