(* ===== verification/TpPrelude.thy ===== *)
theory TpPrelude
  imports Main
begin

text \<open>
  The prelude of the TrackPal development: the collections of simplification rules the
  component theories add to, the error monad in which a throwing TypeScript function is
  written, and the list operations of the JavaScript library that the sources use
  (indexing that yields \<open>undefined\<close> out of range, \<open>slice\<close>, \<open>join\<close>,
  \<open>Math.ceil\<close> of a quotient, replacing and removing the entries with a given key).
\<close>

named_theorems js_simps "unfolding rules for the JavaScript library operations"
named_theorems chat_simps "how the chat machines rewrite their logs"
named_theorems repo_simps "how the workspace repository reads and writes its storage"
named_theorems state_simps "how the demo data operations rewrite the workspace state"

section \<open>Throwing functions\<close>

text \<open>A function that throws \<open>'e\<close> or returns \<open>'a\<close> is a value of \<open>'e + 'a\<close>.\<close>

definition ebind :: "'e + 'a \<Rightarrow> ('a \<Rightarrow> 'e + 'b) \<Rightarrow> 'e + 'b" where
  "ebind m f = (case m of Inl e \<Rightarrow> Inl e | Inr a \<Rightarrow> f a)"

lemma ebind_Inl [simp]: "ebind (Inl e) f = Inl e"
  by (simp add: ebind_def)

lemma ebind_Inr [simp]: "ebind (Inr a) f = f a"
  by (simp add: ebind_def)

lemma ebind_eq_Inr: "ebind m f = Inr b \<longleftrightarrow> (\<exists>a. m = Inr a \<and> f a = Inr b)"
  by (cases m) simp_all

lemma ebind_eq_Inl: "ebind m f = Inl e \<longleftrightarrow> m = Inl e \<or> (\<exists>a. m = Inr a \<and> f a = Inl e)"
  by (cases m) simp_all

lemma ebind_assoc: "ebind (ebind m f) g = ebind m (\<lambda>x. ebind (f x) g)"
  by (cases m) simp_all

text \<open>A guard: \<open>if (bad) throw e\<close>.\<close>

definition throw_if :: "bool \<Rightarrow> 'e \<Rightarrow> 'e + unit" where
  "throw_if b e = (if b then Inl e else Inr ())"

lemma throw_if_eq_Inr [simp]: "throw_if b e = Inr u \<longleftrightarrow> \<not> b"
  by (simp add: throw_if_def)

lemma throw_if_eq_Inl [simp]: "throw_if b e = Inl e' \<longleftrightarrow> b \<and> e' = e"
  by (auto simp: throw_if_def)

lemma throw_if_False [simp]: "throw_if False e = Inr ()"
  by (simp add: throw_if_def)

lemma throw_if_True [simp]: "throw_if True e = Inl e"
  by (simp add: throw_if_def)

text \<open>\<open>if (!value) throw err\<close> on the result of a lookup.\<close>

definition not_found :: "'a option \<Rightarrow> 'e \<Rightarrow> 'e + 'a" where
  "not_found v err = (case v of None \<Rightarrow> Inl err | Some x \<Rightarrow> Inr x)"

lemma not_found_eq [simp]: "not_found v e = Inr x \<longleftrightarrow> v = Some x"
  by (cases v) (simp_all add: not_found_def)

section \<open>Throwing functions with effects\<close>

text \<open>
  A method that reads and writes a state \<open>'s\<close> and may throw: what happened before the throw
  stays done.
\<close>

type_synonym ('s, 'e, 'a) act = "'s \<Rightarrow> ('e + 'a) \<times> 's"

definition areturn :: "'a \<Rightarrow> ('s, 'e, 'a) act" where
  "areturn a s = (Inr a, s)"

definition athrow :: "'e \<Rightarrow> ('s, 'e, 'a) act" where
  "athrow e s = (Inl e, s)"

definition abind :: "('s, 'e, 'a) act \<Rightarrow> ('a \<Rightarrow> ('s, 'e, 'b) act) \<Rightarrow> ('s, 'e, 'b) act" where
  "abind m f s = (case m s of (Inl e, s') \<Rightarrow> (Inl e, s') | (Inr a, s') \<Rightarrow> f a s')"

definition alift :: "'e + 'a \<Rightarrow> ('s, 'e, 'a) act" where
  "alift r s = (r, s)"

definition athen :: "('s, 'e, unit) act \<Rightarrow> ('s, 'e, 'b) act \<Rightarrow> ('s, 'e, 'b) act" where
  "athen m n = abind m (\<lambda>_. n)"

definition aget :: "('s, 'e, 's) act" where
  "aget s = (Inr s, s)"

lemma abind_simps [simp]:
  "abind (areturn a) f = f a"
  "abind (athrow e) f = athrow e"
  "abind (alift (Inr a)) f = f a"
  "abind (alift (Inl e)) f = athrow e"
  by (simp_all add: abind_def areturn_def athrow_def alift_def fun_eq_iff)

lemma athen_simps [simp]:
  "athen (areturn ()) n = n"
  "athen (athrow e) n = athrow e"
  by (simp_all add: athen_def)

lemma abind_eq_Inr:
  "abind m f s = (Inr b, t) \<longleftrightarrow> (\<exists>a u. m s = (Inr a, u) \<and> f a u = (Inr b, t))"
  by (auto simp: abind_def split: prod.splits sum.splits)

lemma abind_eq_Inl:
  "abind m f s = (Inl e, t) \<longleftrightarrow>
     m s = (Inl e, t) \<or> (\<exists>a u. m s = (Inr a, u) \<and> f a u = (Inl e, t))"
  by (auto simp: abind_def split: prod.splits sum.splits)

lemma abind_run: "m s = (Inr a, u) \<Longrightarrow> abind m f s = f a u"
  by (simp add: abind_def)

lemma abind_fail: "m s = (Inl e, u) \<Longrightarrow> abind m f s = (Inl e, u)"
  by (simp add: abind_def)

lemma areturn_eq [simp]: "areturn a s = (r, t) \<longleftrightarrow> r = Inr a \<and> t = s"
  by (auto simp: areturn_def)

lemma athrow_eq [simp]: "athrow e s = (r, t) \<longleftrightarrow> r = Inl e \<and> t = s"
  by (auto simp: athrow_def)

lemma alift_eq [simp]: "alift r s = (r', t) \<longleftrightarrow> r' = r \<and> t = s"
  by (auto simp: alift_def)

text \<open>
  The specification of an action: from a state with the invariant \<open>I\<close> it keeps the invariant
  and relates the states before and after by \<open>R\<close>, whether it returns or throws, and what it
  returns satisfies \<open>Q\<close>. Actions compose by the rules below.
\<close>

definition act_spec :: "('s \<Rightarrow> bool) \<Rightarrow> ('s \<Rightarrow> 's \<Rightarrow> bool) \<Rightarrow> ('a \<Rightarrow> bool) \<Rightarrow> ('s, 'e, 'a) act \<Rightarrow> bool" where
  "act_spec I R Q m \<longleftrightarrow>
     (\<forall>s r t. I s \<longrightarrow> m s = (r, t) \<longrightarrow> I t \<and> R s t \<and> (\<forall>a. r = Inr a \<longrightarrow> Q a))"

lemma act_specI:
  "(\<And>s r t. I s \<Longrightarrow> m s = (r, t) \<Longrightarrow> I t \<and> R s t \<and> (\<forall>a. r = Inr a \<longrightarrow> Q a)) \<Longrightarrow> act_spec I R Q m"
  unfolding act_spec_def by blast

lemma act_specD:
  assumes "act_spec I R Q m" and "I s" and "m s = (r, t)"
  shows "I t" and "R s t" and "r = Inr a \<Longrightarrow> Q a"
  using assms unfolding act_spec_def by blast+

lemma act_spec_bind:
  assumes R: "transp R" and m: "act_spec I R P m" and f: "\<And>a. P a \<Longrightarrow> act_spec I R Q (f a)"
  shows "act_spec I R Q (abind m f)"
proof (rule act_specI)
  fix s r t
  assume I: "I s" and run: "abind m f s = (r, t)"
  obtain x u where mx: "m s = (x, u)" by fastforce
  note mu = act_specD [OF m I mx]
  show "I t \<and> R s t \<and> (\<forall>a. r = Inr a \<longrightarrow> Q a)"
  proof (cases x)
    case (Inl e)
    with run mx mu show ?thesis by (auto simp: abind_def)
  next
    case (Inr a)
    with run mx have fa: "f a u = (r, t)" by (simp add: abind_def)
    from act_specD [OF f [OF mu(3) [OF Inr]] mu(1) fa] mu(2) R show ?thesis
      by (auto dest: transpD)
  qed
qed

lemma act_spec_then:
  "transp R \<Longrightarrow> act_spec I R (\<lambda>_. True) m \<Longrightarrow> act_spec I R Q n \<Longrightarrow> act_spec I R Q (athen m n)"
  unfolding athen_def by (rule act_spec_bind)

lemma act_spec_get:
  assumes "transp R" and "\<And>s. I s \<Longrightarrow> act_spec I R Q (f s)"
  shows "act_spec I R Q (abind aget f)"
proof (rule act_specI)
  fix s r t
  assume "I s" and "abind aget f s = (r, t)"
  then show "I t \<and> R s t \<and> (\<forall>a. r = Inr a \<longrightarrow> Q a)"
    using assms(2) [of s] unfolding act_spec_def abind_def aget_def by simp
qed

lemma act_spec_return: "reflp R \<Longrightarrow> Q a \<Longrightarrow> act_spec I R Q (areturn a)"
  by (rule act_specI) (auto dest: reflpD)

lemma act_spec_throw: "reflp R \<Longrightarrow> act_spec I R Q (athrow e)"
  by (rule act_specI) (auto dest: reflpD)

lemma act_spec_lift: "reflp R \<Longrightarrow> (\<And>a. r = Inr a \<Longrightarrow> Q a) \<Longrightarrow> act_spec I R Q (alift r)"
  by (rule act_specI) (auto dest: reflpD)

lemma act_spec_weaken: "act_spec I R P m \<Longrightarrow> (\<And>a. P a \<Longrightarrow> Q a) \<Longrightarrow> act_spec I R Q m"
  unfolding act_spec_def by blast

section \<open>Optional values\<close>

text \<open>\<open>a ?? b\<close> on a nullable operand.\<close>

definition nullish :: "'a option \<Rightarrow> 'a \<Rightarrow> 'a" where
  "nullish a b = (case a of None \<Rightarrow> b | Some x \<Rightarrow> x)"

lemma nullish_simps [simp]: "nullish None b = b" "nullish (Some x) b = x"
  by (simp_all add: nullish_def)

text \<open>A nullable string is falsy when it is \<open>null\<close> or empty.\<close>

definition falsy :: "'a list option \<Rightarrow> bool" where
  "falsy a = (case a of None \<Rightarrow> True | Some x \<Rightarrow> x = [])"

lemma falsy_simps [simp]: "falsy None" "falsy (Some x) \<longleftrightarrow> x = []"
  by (simp_all add: falsy_def)

lemma not_falsy_iff: "\<not> falsy a \<longleftrightarrow> (\<exists>x. a = Some x \<and> x \<noteq> [])"
  by (cases a) simp_all

text \<open>\<open>s || null\<close> on a string.\<close>

definition or_null :: "'a list \<Rightarrow> 'a list option" where
  "or_null s = (if s = [] then None else Some s)"

lemma or_null_Nil [simp]: "or_null [] = None"
  by (simp add: or_null_def)

lemma or_null_eq_Some [simp]: "or_null s = Some x \<longleftrightarrow> x = s \<and> s \<noteq> []"
  by (auto simp: or_null_def)

lemma or_null_eq_None [simp]: "or_null s = None \<longleftrightarrow> s = []"
  by (simp add: or_null_def)

section \<open>Arrays\<close>

text \<open>\<open>xs[i]\<close>: \<open>undefined\<close> (here \<open>None\<close>) out of range.\<close>

definition js_at :: "'a list \<Rightarrow> nat \<Rightarrow> 'a option" where
  "js_at xs i = (if i < length xs then Some (xs ! i) else None)"

lemma js_at_SomeD: "js_at xs i = Some x \<Longrightarrow> i < length xs \<and> x \<in> set xs \<and> xs ! i = x"
  by (auto simp: js_at_def split: if_splits)

lemma js_at_eq_None [simp]: "js_at xs i = None \<longleftrightarrow> length xs \<le> i"
  by (simp add: js_at_def)

lemma js_at_Some [simp]: "i < length xs \<Longrightarrow> js_at xs i = Some (xs ! i)"
  by (simp add: js_at_def)

text \<open>\<open>xs.slice(a, b)\<close> with \<open>0 \<le> a \<le> b\<close>.\<close>

definition slice :: "nat \<Rightarrow> nat \<Rightarrow> 'a list \<Rightarrow> 'a list" where
  "slice a b xs = take (b - a) (drop a xs)"

lemma length_slice: "length (slice a b xs) = min (b - a) (length xs - a)"
  by (simp add: slice_def)

lemma set_slice_subset: "set (slice a b xs) \<subseteq> set xs"
  by (auto simp: slice_def dest: in_set_takeD in_set_dropD)

lemma slice_nth: "i < length (slice a b xs) \<Longrightarrow> slice a b xs ! i = xs ! (a + i)"
  by (simp add: slice_def) (rule nth_drop, linarith)

lemma slice_bound: "i < length (slice a b xs) \<Longrightarrow> a + i < length xs \<and> i < b - a"
  by (simp add: slice_def) linarith

text \<open>\<open>xs.join(sep)\<close>.\<close>

fun join :: "'a list \<Rightarrow> 'a list list \<Rightarrow> 'a list" where
  "join sep [] = []"
| "join sep [x] = x"
| "join sep (x # y # ys) = x @ sep @ join sep (y # ys)"

text \<open>\<open>xs.map((x, index) => f(index + 1, x))\<close>.\<close>

definition map_numbered :: "(nat \<Rightarrow> 'a \<Rightarrow> 'b) \<Rightarrow> 'a list \<Rightarrow> 'b list" where
  "map_numbered f xs = map (\<lambda>(i, x). f (i + 1) x) (enumerate 0 xs)"

lemma length_map_numbered [simp]: "length (map_numbered f xs) = length xs"
  by (simp add: map_numbered_def)

text \<open>\<open>Math.max(1, Math.ceil(n / sz))\<close> for \<open>sz > 0\<close>.\<close>

definition page_count :: "nat \<Rightarrow> nat \<Rightarrow> nat" where
  "page_count n sz = max 1 ((n + sz - 1) div sz)"

lemma page_count_pos [simp]: "0 < page_count n sz"
  by (simp add: page_count_def)

lemma page_count_ge_1: "Suc 0 \<le> page_count n sz"
  by (simp add: page_count_def)

lemma ceil_div_le_iff:
  assumes "0 < sz"
  shows "(n + sz - 1) div sz \<le> k \<longleftrightarrow> n \<le> k * (sz::nat)"
proof -
  have "(n + sz - 1) div sz \<le> k \<longleftrightarrow> (n + sz - 1) div sz < Suc k"
    by (simp add: less_Suc_eq_le)
  also have "\<dots> \<longleftrightarrow> n + sz - 1 < Suc k * sz"
    using assms by (rule div_less_iff_less_mult)
  also have "\<dots> \<longleftrightarrow> n \<le> k * sz"
    using assms by auto
  finally show ?thesis .
qed

text \<open>Every page below the count shows at least one entry, and the pages cover the list.\<close>

lemma page_count_covers: "0 < sz \<Longrightarrow> n \<le> page_count n sz * sz"
proof -
  assume s: "0 < sz"
  have "(n + sz - 1) div sz \<le> page_count n sz"
    by (simp add: page_count_def)
  with ceil_div_le_iff [OF s] show ?thesis by blast
qed

lemma page_start_less:
  assumes "0 < sz" and "0 < n" and "p < page_count n sz"
  shows "p * sz < n"
proof (rule ccontr)
  assume "\<not> p * sz < n"
  then have "(n + sz - 1) div sz \<le> p"
    using ceil_div_le_iff [OF assms(1)] by simp
  with assms(3) have "page_count n sz = 1" and "p = 0"
    by (auto simp: page_count_def max_def split: if_splits)
  with \<open>\<not> p * sz < n\<close> assms(2) show False by simp
qed

lemma page_nonempty:
  assumes "0 < sz" and "xs \<noteq> []" and "p < page_count (length xs) sz"
  shows "slice (p * sz) ((p + 1) * sz) xs \<noteq> []"
  using page_start_less [of sz "length xs" p] assms by (simp add: slice_def)

text \<open>Walking through the pages shows every entry once, in order.\<close>

lemma concat_pages: "concat (map (\<lambda>p. slice (p * sz) (p * sz + sz) xs) [0..<k]) = take (k * sz) xs"
proof (induction k)
  case (Suc k)
  have "take (k * sz) xs @ take sz (drop (k * sz) xs) = take (k * sz + sz) xs"
    by (simp add: take_add)
  with Suc show ?case by (simp add: slice_def add.commute)
qed simp

lemma pages_cover:
  "0 < sz \<Longrightarrow>
     concat (map (\<lambda>p. slice (p * sz) (p * sz + sz) xs) [0..<page_count (length xs) sz]) = xs"
  by (simp add: concat_pages page_count_covers)

section \<open>Collections addressed by a key\<close>

text \<open>
  The demo data operations change a collection with \<open>xs.map((x) => x.id === id ? y : x)\<close>
  and \<open>xs.filter((x) => x.id !== id)\<close>, and look it up with \<open>xs.find\<close>.
\<close>

definition replace_by :: "('a \<Rightarrow> 'k) \<Rightarrow> 'k \<Rightarrow> 'a \<Rightarrow> 'a list \<Rightarrow> 'a list" where
  "replace_by key k y xs = map (\<lambda>x. if key x = k then y else x) xs"

definition remove_by :: "('a \<Rightarrow> 'k) \<Rightarrow> 'k \<Rightarrow> 'a list \<Rightarrow> 'a list" where
  "remove_by key k xs = filter (\<lambda>x. key x \<noteq> k) xs"

definition find_by :: "('a \<Rightarrow> 'k) \<Rightarrow> 'k \<Rightarrow> 'a list \<Rightarrow> 'a option" where
  "find_by key k xs = find (\<lambda>x. key x = k) xs"

lemma find_SomeD: "find P xs = Some x \<Longrightarrow> x \<in> set xs \<and> P x"
  by (induction xs) (auto split: if_splits)

lemma find_None_iff_all: "find P xs = None \<longleftrightarrow> (\<forall>x \<in> set xs. \<not> P x)"
  by (induction xs) auto

lemma find_by_SomeD: "find_by key k xs = Some x \<Longrightarrow> x \<in> set xs \<and> key x = k"
  unfolding find_by_def by (rule find_SomeD)

lemma find_by_eq_None: "find_by key k xs = None \<longleftrightarrow> k \<notin> key ` set xs"
  by (auto simp: find_by_def find_None_iff_all)

lemma find_by_unique:
  "distinct (map key xs) \<Longrightarrow> x \<in> set xs \<Longrightarrow> find_by key (key x) xs = Some x"
  by (induction xs) (auto simp: find_by_def)

lemma replace_by_Nil [simp]: "replace_by key k y [] = []"
  by (simp add: replace_by_def)

lemma length_replace_by [simp]: "length (replace_by key k y xs) = length xs"
  by (simp add: replace_by_def)

lemma map_key_replace_by: "key y = k \<Longrightarrow> map key (replace_by key k y xs) = map key xs"
  by (induction xs) (auto simp: replace_by_def)

lemma set_replace_by:
  "set (replace_by key k y xs) =
     {x \<in> set xs. key x \<noteq> k} \<union> (if k \<in> key ` set xs then {y} else {})"
  by (auto simp: replace_by_def)

lemma in_set_replace_byD:
  "x \<in> set (replace_by key k y xs) \<Longrightarrow> x = y \<or> (x \<in> set xs \<and> key x \<noteq> k)"
  by (auto simp: replace_by_def split: if_splits)

lemma find_by_replace_by:
  assumes "key y = k"
  shows "find_by key j (replace_by key k y xs) =
     (if j = k \<and> k \<in> key ` set xs then Some y else find_by key j xs)"
  using assms by (induction xs) (auto simp: replace_by_def find_by_def)

lemma set_remove_by [simp]: "set (remove_by key k xs) = {x \<in> set xs. key x \<noteq> k}"
  by (auto simp: remove_by_def)

lemma distinct_remove_by: "distinct (map key xs) \<Longrightarrow> distinct (map key (remove_by key k xs))"
  unfolding remove_by_def by (rule distinct_map_filter)

lemma find_by_remove_by:
  "find_by key j (remove_by key k xs) = (if j = k then None else find_by key j xs)"
  by (induction xs) (auto simp: remove_by_def find_by_def)

text \<open>Entries related by \<open>R\<close> have one key: the uniqueness checks of the services keep this.\<close>

definition uniq_by :: "('a \<Rightarrow> 'k) \<Rightarrow> ('a \<Rightarrow> 'a \<Rightarrow> bool) \<Rightarrow> 'a list \<Rightarrow> bool" where
  "uniq_by key R xs \<longleftrightarrow> (\<forall>x \<in> set xs. \<forall>y \<in> set xs. R x y \<longrightarrow> key x = key y)"

lemma uniq_byD: "uniq_by key R xs \<Longrightarrow> x \<in> set xs \<Longrightarrow> y \<in> set xs \<Longrightarrow> R x y \<Longrightarrow> key x = key y"
  by (simp add: uniq_by_def)

lemma uniq_by_subset: "uniq_by key R xs \<Longrightarrow> set ys \<subseteq> set xs \<Longrightarrow> uniq_by key R ys"
  by (auto simp: uniq_by_def)

lemma uniq_by_add: "uniq_by key R xs \<Longrightarrow> symp R \<Longrightarrow> \<forall>y \<in> set xs. \<not> R y x \<Longrightarrow> uniq_by key R (xs @ [x])"
  by (auto simp: uniq_by_def dest: sympD)

lemma uniq_by_replace:
  assumes "uniq_by key R xs" and "symp R" and "key c = k" and "\<forall>d \<in> set xs. key d \<noteq> k \<longrightarrow> \<not> R d c"
  shows "uniq_by key R (replace_by key k c xs)"
  unfolding uniq_by_def
proof (intro ballI impI)
  fix x y
  assume "x \<in> set (replace_by key k c xs)" "y \<in> set (replace_by key k c xs)" "R x y"
  then show "key x = key y"
    using in_set_replace_byD [of x key k c xs] in_set_replace_byD [of y key k c xs] assms
    by (metis sympD uniq_by_def)
qed

lemma uniq_by_add_eq:
  "uniq_by key R xs \<Longrightarrow> symp R \<Longrightarrow> (\<And>y. y \<in> set xs \<Longrightarrow> R y x \<Longrightarrow> key y = key x) \<Longrightarrow> uniq_by key R (xs @ [x])"
  unfolding uniq_by_def by (metis UnE set_append set_ConsD sympD empty_iff empty_set)

lemma uniq_by_replace_eq:
  assumes "uniq_by key R xs" and "symp R" and "\<And>d. d \<in> set xs \<Longrightarrow> idf d \<noteq> k \<Longrightarrow> R d c \<Longrightarrow> key d = key c"
  shows "uniq_by key R (replace_by idf k c xs)"
  unfolding uniq_by_def
proof (intro ballI impI)
  fix x y
  assume "x \<in> set (replace_by idf k c xs)" "y \<in> set (replace_by idf k c xs)" "R x y"
  then show "key x = key y"
    using in_set_replace_byD [of x idf k c xs] in_set_replace_byD [of y idf k c xs] assms
    by (metis sympD uniq_by_def)
qed

lemma uniq_by_distinct:
  assumes "distinct (map f xs)" and "\<And>x y. R x y \<Longrightarrow> f x = f y"
  shows "uniq_by key R xs"
  unfolding uniq_by_def
proof (intro ballI impI)
  fix x y
  assume "x \<in> set xs" "y \<in> set xs" "R x y"
  then have "x = y" using assms by (simp add: distinct_map inj_on_def)
  then show "key x = key y" by simp
qed

lemma length_filter_conj_le: "length (filter (\<lambda>x. P x \<and> Q x) xs) \<le> length (filter P xs)"
  by (induction xs) auto

lemma length_filter_compl_eq: "length (filter P xs) = length xs - length (filter (\<lambda>x. \<not> P x) xs)"
  using sum_length_filter_compl [of P xs] by linarith

end
