(* ===== verification/JsText.thy ===== *)
theory JsText
  imports TpPrelude "HOL-Library.Code_Target_Nat"
begin

text \<open>
  The string operations of the JavaScript library that the sources use. A JavaScript string
  is a sequence of UTF-16 code units; the model is a list of \<open>char\<close>, one code unit below
  256 each, so \<open>length\<close> is \<open>.length\<close> and the Latin-1 letters of the program's own
  texts are single characters, as they are in JavaScript. Characters outside Latin-1 are not
  represented. Case mapping is that of a locale without special casing rules.
\<close>

section \<open>Character classes\<close>

abbreviation code :: "char \<Rightarrow> nat" where
  "code c \<equiv> of_char c"

text \<open>White space and line terminators, as \<open>trim\<close> and the class \<open>\s\<close> see them.\<close>

definition is_space :: "char \<Rightarrow> bool" where
  "is_space c \<longleftrightarrow> (9 \<le> code c \<and> code c \<le> 13) \<or> code c = 32 \<or> code c = 160"

definition is_digit :: "char \<Rightarrow> bool" where
  "is_digit c \<longleftrightarrow> 48 \<le> code c \<and> code c \<le> 57"

definition is_lower_az :: "char \<Rightarrow> bool" where
  "is_lower_az c \<longleftrightarrow> 97 \<le> code c \<and> code c \<le> 122"

definition is_upper_az :: "char \<Rightarrow> bool" where
  "is_upper_az c \<longleftrightarrow> 65 \<le> code c \<and> code c \<le> 90"

text \<open>The classes \<open>\p{L}\<close> and \<open>\p{N}\<close> within Latin-1.\<close>

definition is_letter :: "char \<Rightarrow> bool" where
  "is_letter c \<longleftrightarrow> is_lower_az c \<or> is_upper_az c \<or> code c \<in> {170, 181, 186} \<or>
     (192 \<le> code c \<and> code c \<noteq> 215 \<and> code c \<noteq> 247)"

definition is_number_char :: "char \<Rightarrow> bool" where
  "is_number_char c \<longleftrightarrow> is_digit c \<or> code c \<in> {178, 179, 185, 188, 189, 190}"

lemmas char_class_defs =
  is_space_def is_digit_def is_lower_az_def is_upper_az_def is_letter_def is_number_char_def

section \<open>Trimming and case\<close>

definition trim :: "string \<Rightarrow> string" where
  "trim s = rev (dropWhile is_space (rev (dropWhile is_space s)))"

definition trimmed :: "string \<Rightarrow> bool" where
  "trimmed s \<longleftrightarrow> s = [] \<or> (\<not> is_space (hd s) \<and> \<not> is_space (last s))"

definition lower_char :: "char \<Rightarrow> char" where
  "lower_char c = (if is_upper_az c \<or> (192 \<le> code c \<and> code c \<le> 222 \<and> code c \<noteq> 215)
     then char_of (code c + 32) else c)"

definition toLowerCase :: "string \<Rightarrow> string" where
  "toLowerCase s = map lower_char s"

text \<open>
  \<open>toUpperCase\<close>: the sharp s becomes two letters; the two Latin-1 letters whose upper case
  lies outside Latin-1 are left as they are.
\<close>

definition upper_char :: "char \<Rightarrow> string" where
  "upper_char c = (if code c = 223 then ''SS''
     else if is_lower_az c \<or> (224 \<le> code c \<and> code c \<le> 254 \<and> code c \<noteq> 247)
     then [char_of (code c - 32)] else [c])"

definition toUpperCase :: "string \<Rightarrow> string" where
  "toUpperCase s = concat (map upper_char s)"

text \<open>
  \<open>s.normalize("NFD").replace(/[\u0300-\u036f]/g, "")\<close> on lower-case Latin-1 text: every
  accented letter is replaced by its base letter.
\<close>

definition strip_accent :: "char \<Rightarrow> char" where
  "strip_accent c = (let n = code c in
     if 224 \<le> n \<and> n \<le> 229 then CHR ''a''
     else if n = 231 then CHR ''c''
     else if 232 \<le> n \<and> n \<le> 235 then CHR ''e''
     else if 236 \<le> n \<and> n \<le> 239 then CHR ''i''
     else if n = 241 then CHR ''n''
     else if 242 \<le> n \<and> n \<le> 246 then CHR ''o''
     else if 249 \<le> n \<and> n \<le> 252 then CHR ''u''
     else if n = 253 \<or> n = 255 then CHR ''y''
     else c)"

lemma length_toLowerCase [simp]: "length (toLowerCase s) = length s"
  by (simp add: toLowerCase_def)

lemma toLowerCase_eq_Nil [simp]: "toLowerCase s = [] \<longleftrightarrow> s = []"
  by (simp add: toLowerCase_def)

lemma code_lower_char:
  "code (lower_char c) = (if is_upper_az c \<or> (192 \<le> code c \<and> code c \<le> 222 \<and> code c \<noteq> 215)
     then code c + 32 else code c)"
  by (auto simp: lower_char_def is_upper_az_def of_char_of)

lemma lower_char_idem [simp]: "lower_char (lower_char c) = lower_char c"
proof -
  have "\<not> (is_upper_az (lower_char c) \<or>
      (192 \<le> code (lower_char c) \<and> code (lower_char c) \<le> 222 \<and> code (lower_char c) \<noteq> 215))"
    by (auto simp: is_upper_az_def code_lower_char split: if_splits)
  then show ?thesis unfolding lower_char_def [of "lower_char c"] by (simp only: if_False)
qed

lemma toLowerCase_idem [simp]: "toLowerCase (toLowerCase s) = toLowerCase s"
  by (simp add: toLowerCase_def)

lemma lower_char_eq_iff_plain:
  assumes "\<not> is_letter d"
  shows "lower_char c = d \<longleftrightarrow> c = d"
proof
  assume l: "lower_char c = d"
  show "c = d"
  proof (cases "is_upper_az c \<or> (192 \<le> code c \<and> code c \<le> 222 \<and> code c \<noteq> 215)")
    case True
    then have "is_letter (lower_char c)"
      by (auto simp: is_letter_def is_lower_az_def is_upper_az_def code_lower_char)
    with l assms show ?thesis by simp
  next
    case False
    with l show ?thesis by (simp add: lower_char_def)
  qed
next
  assume "c = d"
  with assms show "lower_char c = d"
    by (auto simp: lower_char_def is_letter_def)
qed

lemma is_space_lower_char [simp]: "is_space (lower_char c) = is_space c"
  by (auto simp: is_space_def is_upper_az_def code_lower_char)

lemma trim_Nil [simp]: "trim [] = []"
  by (simp add: trim_def)

lemma trim_conv: "trimmed s \<Longrightarrow> trim s = s"
proof (cases "s = []")
  case False
  assume "trimmed s"
  with False have h: "\<not> is_space (hd s)" and l: "\<not> is_space (last s)"
    by (auto simp: trimmed_def)
  from False h have "dropWhile is_space s = s"
    by (cases s) auto
  moreover from False l have "dropWhile is_space (rev s) = rev s"
    by (cases "rev s") (auto simp: last_rev hd_rev [symmetric])
  ultimately show ?thesis by (simp add: trim_def)
qed simp

lemma trimmed_trim [simp]: "trimmed (trim s)"
proof (cases "trim s = []")
  case False
  let ?a = "dropWhile is_space s"
  have ne: "dropWhile is_space (rev ?a) \<noteq> []"
    using False by (simp add: trim_def)
  have "\<not> is_space (hd (dropWhile is_space (rev ?a)))"
    using ne by (rule hd_dropWhile)
  then have l: "\<not> is_space (last (trim s))"
    using ne by (simp add: trim_def last_rev)
  obtain zs where zs: "?a = trim s @ zs"
    unfolding trim_def
    by (metis rev_append rev_rev_ident takeWhile_dropWhile_id)
  have "?a \<noteq> []" using False zs by auto
  then have "\<not> is_space (hd ?a)" by (rule hd_dropWhile)
  with zs False have "\<not> is_space (hd (trim s))" by simp
  with l show ?thesis by (simp add: trimmed_def)
qed (simp add: trimmed_def)

lemma trim_idem [simp]: "trim (trim s) = trim s"
  by (simp add: trim_conv)

lemma dropWhile_toLowerCase:
  "dropWhile is_space (map lower_char s) = map lower_char (dropWhile is_space s)"
  by (induction s) auto

lemma trim_toLowerCase [simp]: "trim (toLowerCase s) = toLowerCase (trim s)"
  by (simp add: trim_def toLowerCase_def dropWhile_toLowerCase rev_map)

lemma set_trim_subset: "set (trim s) \<subseteq> set s"
proof -
  have "set (trim s) \<subseteq> set (dropWhile is_space s)"
    unfolding trim_def set_rev
    using set_dropWhileD [of _ is_space "rev (dropWhile is_space s)"] by auto
  also have "\<dots> \<subseteq> set s"
    by (auto dest: set_dropWhileD)
  finally show ?thesis .
qed

section \<open>Decimal numbers\<close>

definition digit_char :: "nat \<Rightarrow> char" where
  "digit_char d = char_of (48 + d)"

text \<open>\<open>String(n)\<close> for a natural number.\<close>

fun nat_to_string :: "nat \<Rightarrow> string" where
  "nat_to_string n =
     (if n < 10 then [digit_char n] else nat_to_string (n div 10) @ [digit_char (n mod 10)])"

declare nat_to_string.simps [simp del]

definition int_to_string :: "int \<Rightarrow> string" where
  "int_to_string i = (if i < 0 then ''-'' @ nat_to_string (nat (- i)) else nat_to_string (nat i))"

text \<open>The value of a string of digits, most significant first.\<close>

definition digits_value :: "string \<Rightarrow> nat" where
  "digits_value s = foldl (\<lambda>n c. 10 * n + (code c - 48)) 0 s"

text \<open>
  \<open>Number.parseInt(s, 10)\<close>: leading white space is skipped, then an optional sign and the
  longest run of digits are read; \<open>None\<close> is \<open>NaN\<close>.
\<close>

definition parseInt :: "string \<Rightarrow> int option" where
  "parseInt s = (let t = dropWhile is_space s;
       neg = (t \<noteq> [] \<and> hd t = CHR ''-'');
       u = (if t \<noteq> [] \<and> (hd t = CHR ''-'' \<or> hd t = CHR ''+'') then tl t else t);
       ds = takeWhile is_digit u
     in if ds = [] then None
        else Some (if neg then - int (digits_value ds) else int (digits_value ds)))"

text \<open>\<open>s.padStart(n, "0")\<close>.\<close>

definition padStart0 :: "nat \<Rightarrow> string \<Rightarrow> string" where
  "padStart0 n s = replicate (n - length s) (CHR ''0'') @ s"

lemma code_digit_char: "d < 10 \<Longrightarrow> code (digit_char d) = 48 + d"
  by (simp add: digit_char_def of_char_of)

lemma is_digit_digit_char [simp]: "d < 10 \<Longrightarrow> is_digit (digit_char d)"
  by (simp add: is_digit_def code_digit_char)

lemma nat_to_string_digits: "list_all is_digit (nat_to_string n)"
proof (induction n rule: nat_to_string.induct)
  case (1 n)
  then show ?case
    by (subst nat_to_string.simps) (simp add: list_all_iff)
qed

lemma nat_to_string_nonempty [simp]: "nat_to_string n \<noteq> []"
  by (subst nat_to_string.simps) simp

lemma digits_value_append:
  "digits_value (xs @ [c]) = 10 * digits_value xs + (code c - 48)"
  by (simp add: digits_value_def)

lemma digits_value_bound: "list_all is_digit s \<Longrightarrow> digits_value s < 10 ^ length s"
proof (induction s rule: rev_induct)
  case (snoc c s)
  then have "digits_value s < 10 ^ length s" "code c - 48 < 10" by (auto simp: is_digit_def)
  then show ?case by (simp add: digits_value_def)
qed (simp add: digits_value_def)

lemma digits_value_nat_to_string [simp]: "digits_value (nat_to_string n) = n"
proof (induction n rule: nat_to_string.induct)
  case (1 n)
  show ?case
  proof (cases "n < 10")
    case True
    then show ?thesis
      by (subst nat_to_string.simps) (simp add: digits_value_def code_digit_char)
  next
    case False
    with 1 show ?thesis
      by (subst nat_to_string.simps) (simp add: digits_value_append code_digit_char)
  qed
qed

lemma nat_to_string_inject [simp]: "nat_to_string m = nat_to_string n \<longleftrightarrow> m = n"
  by (metis digits_value_nat_to_string)

lemma length_nat_to_string_less: "0 < k \<Longrightarrow> n < 10 ^ k \<Longrightarrow> length (nat_to_string n) \<le> k"
proof (induction n arbitrary: k rule: nat_to_string.induct)
  case (1 n)
  show ?case
  proof (cases "n < 10")
    case True
    with 1 show ?thesis by (subst nat_to_string.simps) simp
  next
    case False
    with "1.prems" obtain j where k: "k = Suc j" and j: "0 < j"
      by (cases k; cases "k - 1") auto
    with "1.prems" have "n div 10 < 10 ^ j" by auto
    with "1.IH" False j have "length (nat_to_string (n div 10)) \<le> j" by simp
    with False k show ?thesis by (subst nat_to_string.simps) simp
  qed
qed

lemma digit_not_space: "is_digit c \<Longrightarrow> \<not> is_space c"
  by (auto simp: is_digit_def is_space_def)

lemma digit_not_sign: "is_digit c \<Longrightarrow> c \<noteq> CHR ''-'' \<and> c \<noteq> CHR ''+''"
  by (auto simp: is_digit_def)

lemma takeWhile_digits [simp]: "list_all is_digit ds \<Longrightarrow> takeWhile is_digit ds = ds"
  by (simp add: list_all_iff takeWhile_eq_all_conv)

lemma parseInt_digits:
  assumes "ds \<noteq> []" and "list_all is_digit ds"
  shows "parseInt ds = Some (int (digits_value ds))"
proof -
  from assms obtain d es where ds: "ds = d # es" by (cases ds) auto
  with assms have d: "is_digit d" by simp
  then have "dropWhile is_space ds = ds" by (simp add: ds digit_not_space)
  moreover have "d \<noteq> CHR ''-''" "d \<noteq> CHR ''+''" using digit_not_sign [OF d] by auto
  ultimately show ?thesis using assms by (simp add: parseInt_def Let_def ds)
qed

lemma parseInt_nat_to_string [simp]: "parseInt (nat_to_string n) = Some (int n)"
  using parseInt_digits [of "nat_to_string n"] nat_to_string_digits by simp

lemma digit_string_trim [simp]: "list_all is_digit s \<Longrightarrow> trim s = s"
  by (rule trim_conv) (auto simp: trimmed_def list_all_iff digit_not_space)

lemma trim_nat_to_string [simp]: "trim (nat_to_string n) = nat_to_string n"
  by (simp add: nat_to_string_digits)

lemma nat_to_string_digit: "n < 10 \<Longrightarrow> nat_to_string n = [digit_char n]"
  by (subst nat_to_string.simps) simp

lemma digit_char_table [simp]:
  "digit_char 0 = CHR ''0''" "digit_char 1 = CHR ''1''" "digit_char 2 = CHR ''2''"
  "digit_char 3 = CHR ''3''" "digit_char 4 = CHR ''4''" "digit_char 5 = CHR ''5''"
  "digit_char 6 = CHR ''6''" "digit_char 7 = CHR ''7''" "digit_char 8 = CHR ''8''"
  "digit_char 9 = CHR ''9''" "digit_char (Suc 0) = CHR ''1''"
  by code_simp+

lemma nat_to_string_eq_0: "nat_to_string n = ''0'' \<longleftrightarrow> n = 0"
  using nat_to_string_inject [of n 0] by (simp add: nat_to_string_digit)

lemma nat_to_string_eq_8: "nat_to_string n = ''8'' \<longleftrightarrow> n = 8"
  using nat_to_string_inject [of n 8] by (simp add: nat_to_string_digit)

lemma nat_to_string_eq_9: "nat_to_string n = ''9'' \<longleftrightarrow> n = 9"
  using nat_to_string_inject [of n 9] by (simp add: nat_to_string_digit)

lemma length_padStart0: "length (padStart0 n s) = max n (length s)"
  by (simp add: padStart0_def)

lemma padStart0_digits: "list_all is_digit s \<Longrightarrow> list_all is_digit (padStart0 n s)"
  by (auto simp: padStart0_def list_all_iff is_digit_def)

lemma digits_value_replicate0: "digits_value (replicate n (CHR ''0'') @ s) = digits_value s"
proof -
  have "foldl (\<lambda>n c. 10 * n + (code c - 48)) 0 (replicate n (CHR ''0'')) = (0::nat)"
    by (induction n) simp_all
  then show ?thesis by (simp add: digits_value_def)
qed

lemma digits_value_padStart0 [simp]: "digits_value (padStart0 n s) = digits_value s"
  by (simp add: padStart0_def digits_value_replicate0)

section \<open>Addresses of the form accepted by the mail patterns\<close>

text \<open>
  The pattern \<^verbatim>\<open>/^[^\s@]+@[^\s@]+\.[^\s@]+$/\<close>: the text up to the first at sign is the
  local part; the rest holds no space and no at sign, and a dot that is neither its first
  nor its last character.
\<close>

definition email_pattern :: "string \<Rightarrow> bool" where
  "email_pattern s = (let l = takeWhile (\<lambda>c. c \<noteq> CHR ''@'') s;
       r = dropWhile (\<lambda>c. c \<noteq> CHR ''@'') s; d = tl r
     in r \<noteq> [] \<and> l \<noteq> [] \<and> list_all (\<lambda>c. \<not> is_space c) l \<and>
        list_all (\<lambda>c. \<not> is_space c \<and> c \<noteq> CHR ''@'') d \<and> CHR ''.'' \<in> set (butlast (tl d)))"

abbreviation plain :: "char \<Rightarrow> bool" where
  "plain c \<equiv> \<not> is_space c \<and> c \<noteq> CHR ''@''"

lemma inner_member_iff:
  "c \<in> set (butlast (tl d)) \<longleftrightarrow> (\<exists>a b. d = a @ [c] @ b \<and> a \<noteq> [] \<and> b \<noteq> [])"
proof
  assume "c \<in> set (butlast (tl d))"
  then obtain u v where uv: "butlast (tl d) = u @ c # v" by (meson split_list)
  then have ne: "tl d \<noteq> []" and d: "d \<noteq> []" by auto
  have "d = hd d # (butlast (tl d) @ [last (tl d)])"
    using ne d by simp
  with uv have "d = (hd d # u) @ [c] @ (v @ [last (tl d)])" by simp
  then show "\<exists>a b. d = a @ [c] @ b \<and> a \<noteq> [] \<and> b \<noteq> []" by blast
next
  assume "\<exists>a b. d = a @ [c] @ b \<and> a \<noteq> [] \<and> b \<noteq> []"
  then obtain a b where "d = a @ [c] @ b" "a \<noteq> []" "b \<noteq> []" by blast
  then show "c \<in> set (butlast (tl d))"
    by (cases a) (auto simp: butlast_append)
qed

text \<open>The scanner accepts exactly the language of the regular expression.\<close>

lemma email_pattern_iff:
  "email_pattern s \<longleftrightarrow>
     (\<exists>l a b. s = l @ ''@'' @ a @ ''.'' @ b \<and> l \<noteq> [] \<and> a \<noteq> [] \<and> b \<noteq> [] \<and>
        list_all plain l \<and> list_all plain a \<and> list_all plain b)" (is "_ \<longleftrightarrow> ?R")
proof
  assume e: "email_pattern s"
  let ?l = "takeWhile (\<lambda>c. c \<noteq> CHR ''@'') s" and ?r = "dropWhile (\<lambda>c. c \<noteq> CHR ''@'') s"
  from e have r: "?r \<noteq> []" and l: "?l \<noteq> []" "list_all (\<lambda>c. \<not> is_space c) ?l"
    and d: "list_all plain (tl ?r)" and dot: "CHR ''.'' \<in> set (butlast (tl (tl ?r)))"
    by (simp_all add: email_pattern_def Let_def)
  from dot obtain a b where ab: "tl ?r = a @ ''.'' @ b" "a \<noteq> []" "b \<noteq> []"
    unfolding inner_member_iff by auto
  from r have "hd ?r = CHR ''@''" using hd_dropWhile by blast
  with r have "?r = ''@'' @ tl ?r" by (metis append_Cons append_Nil list.collapse)
  then have "s = ?l @ ''@'' @ a @ ''.'' @ b"
    using ab(1) by (metis takeWhile_dropWhile_id)
  moreover have "list_all plain ?l"
    using l(2) by (auto simp: list_all_iff dest: set_takeWhileD)
  moreover have "list_all plain a" "list_all plain b"
    using d ab(1) by simp_all
  ultimately show ?R using l(1) ab(2,3) by blast
next
  assume ?R
  then obtain l a b where s: "s = l @ ''@'' @ a @ ''.'' @ b" and ne: "l \<noteq> []" "a \<noteq> []" "b \<noteq> []"
    and p: "list_all plain l" "list_all plain a" "list_all plain b" by blast
  have tw: "takeWhile (\<lambda>c. c \<noteq> CHR ''@'') s = l"
    using p(1) by (simp add: s list_all_iff takeWhile_tail)
  have dw: "dropWhile (\<lambda>c. c \<noteq> CHR ''@'') s = ''@'' @ a @ ''.'' @ b"
    using p(1) by (simp add: s list_all_iff dropWhile_append)
  have "CHR ''.'' \<in> set (butlast (tl (tl (''@'' @ a @ ''.'' @ b))))"
    using inner_member_iff [of "CHR ''.''" "a @ ''.'' @ b"] ne by force
  with tw dw ne p show "email_pattern s"
    by (auto simp: email_pattern_def Let_def list_all_iff is_space_def)
qed

lemma email_patternI:
  assumes "l \<noteq> []" "a \<noteq> []" "b \<noteq> []" "list_all plain l" "list_all plain a" "list_all plain b"
  shows "email_pattern (l @ ''@'' @ a @ ''.'' @ b)"
  unfolding email_pattern_iff using assms by blast

lemma lower_char_eq_at [simp]: "lower_char c = CHR ''@'' \<longleftrightarrow> c = CHR ''@''"
  by (rule lower_char_eq_iff_plain) (simp add: char_class_defs)

lemma list_all_plain_toLowerCase [simp]: "list_all plain (toLowerCase s) = list_all plain s"
  by (simp add: toLowerCase_def list_all_iff)

lemma email_pattern_toLowerCase:
  assumes "email_pattern s"
  shows "email_pattern (toLowerCase s)"
proof -
  from assms obtain l a b where s: "s = l @ ''@'' @ a @ ''.'' @ b" and ne: "l \<noteq> []" "a \<noteq> []" "b \<noteq> []"
    and p: "list_all plain l" "list_all plain a" "list_all plain b"
    using email_pattern_iff by blast
  have eq: "toLowerCase s = toLowerCase l @ ''@'' @ toLowerCase a @ ''.'' @ toLowerCase b"
    by (simp add: s toLowerCase_def lower_char_def is_upper_az_def)
  from ne p show ?thesis
    unfolding eq by (intro email_patternI) simp_all
qed

section \<open>Searching and splitting\<close>

text \<open>\<open>s.startsWith(p)\<close> and \<open>s.includes(p)\<close>.\<close>

fun js_startsWith :: "string \<Rightarrow> string \<Rightarrow> bool" where
  "js_startsWith [] s = True"
| "js_startsWith (c # p) [] = False"
| "js_startsWith (c # p) (d # s) = (c = d \<and> js_startsWith p s)"

fun js_includes :: "string \<Rightarrow> string \<Rightarrow> bool" where
  "js_includes p [] = (p = [])"
| "js_includes p (c # s) = (js_startsWith p (c # s) \<or> js_includes p s)"

text \<open>\<open>s.split(c)\<close> for a one-character separator.\<close>

fun split_on :: "char \<Rightarrow> string \<Rightarrow> string list" where
  "split_on c [] = [[]]"
| "split_on c (x # xs) = (if x = c then [] # split_on c xs
     else (case split_on c xs of [] \<Rightarrow> [[x]] | y # ys \<Rightarrow> (x # y) # ys))"

lemma js_startsWith_iff: "js_startsWith p s \<longleftrightarrow> (\<exists>b. s = p @ b)"
  by (induction p s rule: js_startsWith.induct) auto

lemma js_includes_iff: "js_includes p s \<longleftrightarrow> (\<exists>a b. s = a @ p @ b)"
proof (induction s)
  case (Cons c s)
  have "(\<exists>a b. c # s = a @ p @ b) \<longleftrightarrow> (\<exists>b. c # s = p @ b) \<or> (\<exists>a b. s = a @ p @ b)"
    by (metis append_Cons append_Nil list.inject neq_Nil_conv)
  with Cons show ?case by (simp add: js_startsWith_iff)
qed auto

lemma split_on_nonempty [simp]: "split_on c s \<noteq> []"
  by (induction s) (auto split: list.splits)

lemma join_Cons: "ys \<noteq> [] \<Longrightarrow> join sep (x # ys) = x @ sep @ join sep ys"
  by (cases ys) simp_all

lemma join_split_on: "join [c] (split_on c s) = s"
proof (induction s)
  case (Cons x xs)
  obtain y ys where s: "split_on c xs = y # ys" by (cases "split_on c xs") simp_all
  with Cons show ?case by (cases ys) (auto simp: join_Cons)
qed simp

lemma split_on_free: "c \<notin> set s \<Longrightarrow> split_on c s = [s]"
  by (induction s) auto

lemma split_on_append: "c \<notin> set s \<Longrightarrow> split_on c (s @ c # t) = s # split_on c t"
  by (induction s) auto

lemma split_on_glue: "split_on c (s @ c # t) = split_on c s @ split_on c t"
proof (induction s)
  case (Cons x s)
  then show ?case by (cases "split_on c s") auto
qed simp

lemma last_split_on_glue: "last (split_on c (s @ c # t)) = last (split_on c t)"
  by (simp add: split_on_glue)

lemma split_on_members_free: "y \<in> set (split_on c s) \<Longrightarrow> c \<notin> set y"
  by (induction s arbitrary: y) (auto split: list.splits if_splits)

lemma split_on_join:
  "ys \<noteq> [] \<Longrightarrow> \<forall>y \<in> set ys. c \<notin> set y \<Longrightarrow> split_on c (join [c] ys) = ys"
  by (induction "[c]" ys rule: join.induct) (auto simp: split_on_free split_on_append)

end
