(* ===== verification/Json.thy ===== *)
theory Json
  imports JsText
begin

text \<open>
  JavaScript values as the sources handle them when the type is \<open>unknown\<close>, and JSON. An object
  is a list of members with distinct keys, in insertion order; a missing property is \<open>None\<close>
  (\<open>undefined\<close>). Numbers are integers (\<open>JNum\<close>) or decimal fractions (\<open>JDec m k\<close> is
  \<open>m / 10^k\<close>, in lowest terms); the rounding of literals with more digits than a double holds
  is not modelled. \<open>JSON_parse\<close> accepts the JSON grammar, with escapes below 256.
  The main results: \<open>JSON_parse\<close> inverts \<open>JSON_stringify\<close>, and its fuel, the length of the
  text, is always enough.
\<close>

datatype js =
    JNull
  | JBool bool
  | JNum int
  | JDec int nat
  | JStr string
  | JArr "js list"
  | JObj "(string \<times> js) list"

section \<open>Property access\<close>

text \<open>\<open>v[k]\<close> on an object; reading a property of any other value is \<open>undefined\<close> here.\<close>

fun jget :: "js \<Rightarrow> string \<Rightarrow> js option" where
  "jget (JObj kvs) k = map_of kvs k"
| "jget _ k = None"

text \<open>\<open>{ ...o, [k]: v }\<close>: an existing key keeps its place.\<close>

fun obj_set :: "string \<Rightarrow> 'v \<Rightarrow> (string \<times> 'v) list \<Rightarrow> (string \<times> 'v) list" where
  "obj_set k v [] = [(k, v)]"
| "obj_set k v ((k', v') # kvs) = (if k = k' then (k, v) # kvs else (k', v') # obj_set k v kvs)"

text \<open>\<open>{ ...o, ...p }\<close>.\<close>

definition obj_merge :: "(string \<times> 'v) list \<Rightarrow> (string \<times> 'v) list \<Rightarrow> (string \<times> 'v) list" where
  "obj_merge a b = foldl (\<lambda>acc (k, v). obj_set k v acc) a b"

lemma map_of_obj_set [simp]: "map_of (obj_set k v kvs) = (map_of kvs)(k \<mapsto> v)"
  by (induction k v kvs rule: obj_set.induct) (auto simp: fun_eq_iff)

lemma dom_keys_obj_set [simp]: "fst ` set (obj_set k v kvs) = insert k (fst ` set kvs)"
  by (induction k v kvs rule: obj_set.induct) auto

lemma distinct_obj_set [simp]: "distinct (map fst kvs) \<Longrightarrow> distinct (map fst (obj_set k v kvs))"
  by (induction k v kvs rule: obj_set.induct) auto

lemma obj_set_fresh: "k \<notin> fst ` set kvs \<Longrightarrow> obj_set k v kvs = kvs @ [(k, v)]"
  by (induction k v kvs rule: obj_set.induct) auto

lemma in_set_obj_setD: "x \<in> set (obj_set k v kvs) \<Longrightarrow> x = (k, v) \<or> x \<in> set kvs"
  by (induction k v kvs rule: obj_set.induct) (auto split: if_splits)

section \<open>Printing\<close>

definition hex_digit :: "nat \<Rightarrow> char" where
  "hex_digit d = (if d < 10 then digit_char d else char_of (87 + d))"

definition escape_char :: "char \<Rightarrow> string" where
  "escape_char c = (let n = code c in
     if n = 34 then [CHR 0x5C, CHR 0x22]
     else if n = 92 then [CHR 0x5C, CHR 0x5C]
     else if n = 8 then [CHR 0x5C, CHR ''b'']
     else if n = 9 then [CHR 0x5C, CHR ''t'']
     else if n = 10 then [CHR 0x5C, CHR ''n'']
     else if n = 12 then [CHR 0x5C, CHR ''f'']
     else if n = 13 then [CHR 0x5C, CHR ''r'']
     else if n < 32 then [CHR 0x5C, CHR ''u'', CHR ''0'', CHR ''0'', hex_digit (n div 16), hex_digit (n mod 16)]
     else [c])"

definition quote :: "string \<Rightarrow> string" where
  "quote s = CHR 0x22 # concat (map escape_char s) @ [CHR 0x22]"

text \<open>\<open>m / 10^k\<close> in positional notation.\<close>

definition decimal_to_string :: "int \<Rightarrow> nat \<Rightarrow> string" where
  "decimal_to_string m k = (if m < 0 then ''-'' else []) @ nat_to_string (nat \<bar>m\<bar> div 10 ^ k) @ ''.'' @
     padStart0 k (nat_to_string (nat \<bar>m\<bar> mod 10 ^ k))"

fun stringify :: "js \<Rightarrow> string"
  and stringify_elems :: "js list \<Rightarrow> string"
  and stringify_members :: "(string \<times> js) list \<Rightarrow> string" where
  "stringify JNull = ''null''"
| "stringify (JBool b) = (if b then ''true'' else ''false'')"
| "stringify (JNum i) = int_to_string i"
| "stringify (JDec m k) = decimal_to_string m k"
| "stringify (JStr s) = quote s"
| "stringify (JArr xs) = CHR ''['' # stringify_elems xs @ '']''"
| "stringify (JObj kvs) = CHR ''{'' # stringify_members kvs @ ''}''"
| "stringify_elems [] = []"
| "stringify_elems (x # xs) = stringify x @ (if xs = [] then [] else '','' @ stringify_elems xs)"
| "stringify_members [] = []"
| "stringify_members ((k, v) # kvs) =
     quote k @ '':'' @ stringify v @ (if kvs = [] then [] else '','' @ stringify_members kvs)"

section \<open>Parsing\<close>

definition is_ws :: "char \<Rightarrow> bool" where
  "is_ws c = (code c \<in> {9, 10, 13, 32})"

definition skip_ws :: "string \<Rightarrow> string" where
  "skip_ws s = dropWhile is_ws s"

text \<open>Skips blanks, then requires the character \<open>c\<close>.\<close>

definition eat :: "char \<Rightarrow> string \<Rightarrow> string option" where
  "eat c s = (case skip_ws s of [] \<Rightarrow> None | d # t \<Rightarrow> if d = c then Some t else None)"

definition hex_value :: "char \<Rightarrow> nat option" where
  "hex_value c = (if is_digit c then Some (code c - 48)
     else if 97 \<le> code c \<and> code c \<le> 102 then Some (code c - 87)
     else if 65 \<le> code c \<and> code c \<le> 70 then Some (code c - 55) else None)"

definition hex4 :: "string \<Rightarrow> nat option" where
  "hex4 s = (if length s \<noteq> 4 then None
     else foldl (\<lambda>acc c. case acc of None \<Rightarrow> None | Some n \<Rightarrow>
            (case hex_value c of None \<Rightarrow> None | Some d \<Rightarrow> Some (16 * n + d))) (Some 0) s)"

text \<open>The character an escape stands for, and the rest of the text; the backslash is already read.\<close>

definition unescape :: "string \<Rightarrow> (char \<times> string) option" where
  "unescape s = (case s of [] \<Rightarrow> None | c # t \<Rightarrow>
     if c \<in> {CHR 0x22, CHR 0x5C, CHR ''/''} then Some (c, t)
     else if c = CHR ''b'' then Some (char_of (8 :: nat), t)
     else if c = CHR ''t'' then Some (char_of (9 :: nat), t)
     else if c = CHR ''n'' then Some (char_of (10 :: nat), t)
     else if c = CHR ''f'' then Some (char_of (12 :: nat), t)
     else if c = CHR ''r'' then Some (char_of (13 :: nat), t)
     else if c = CHR ''u'' then
       (case hex4 (take 4 t) of None \<Rightarrow> None
        | Some n \<Rightarrow> if n < 256 then Some (char_of n, drop 4 t) else None)
     else None)"

lemma unescape_shorter: "unescape s = Some (d, t) \<Longrightarrow> length t < length s"
  by (auto simp: unescape_def split: list.splits if_splits option.splits)

text \<open>The characters of a string literal, up to the closing quote.\<close>

function parse_str :: "string \<Rightarrow> (string \<times> string) option" where
  "parse_str [] = None"
| "parse_str (c # s) =
     (if code c = 34 then Some ([], s)
      else if code c = 92 then
        (case unescape s of None \<Rightarrow> None
         | Some (d, t) \<Rightarrow> map_option (\<lambda>(x, r). (d # x, r)) (parse_str t))
      else if code c < 32 then None
      else map_option (\<lambda>(x, r). (c # x, r)) (parse_str s))"
  by pat_completeness auto
termination
  by (relation "measure length") (auto dest: unescape_shorter)

text \<open>\<open>m / 10^k\<close> in lowest terms.\<close>

fun norm_dec :: "int \<Rightarrow> nat \<Rightarrow> js" where
  "norm_dec m 0 = JNum m"
| "norm_dec m (Suc k) = (if m mod 10 = 0 then norm_dec (m div 10) k else JDec m (Suc k))"

definition read_sign :: "string \<Rightarrow> bool \<times> string" where
  "read_sign s = (case s of [] \<Rightarrow> (False, []) | c # t \<Rightarrow> if c = CHR ''-'' then (True, t) else (False, s))"

definition read_fraction :: "string \<Rightarrow> (string \<times> string) option" where
  "read_fraction s = (case s of [] \<Rightarrow> Some ([], [])
     | c # t \<Rightarrow> if c \<noteq> CHR ''.'' then Some ([], s)
         else if takeWhile is_digit t = [] then None
         else Some (takeWhile is_digit t, dropWhile is_digit t))"

definition read_exponent :: "string \<Rightarrow> (int \<times> string) option" where
  "read_exponent s = (case s of [] \<Rightarrow> Some (0, [])
     | c # t \<Rightarrow> if c \<noteq> CHR ''e'' \<and> c \<noteq> CHR ''E'' then Some (0, s)
         else (let (neg, u) = read_sign t;
                   u = (if \<not> neg \<and> u \<noteq> [] \<and> hd u = CHR ''+'' then tl u else u);
                   ds = takeWhile is_digit u
               in if ds = [] then None
                  else Some ((if neg then - 1 else 1) * int (digits_value ds), dropWhile is_digit u)))"

definition scale10 :: "int \<Rightarrow> int \<Rightarrow> js" where
  "scale10 m e = (if 0 \<le> e then JNum (m * 10 ^ nat e) else norm_dec m (nat (- e)))"

definition parse_num :: "string \<Rightarrow> (js \<times> string) option" where
  "parse_num s = (let (neg, s1) = read_sign s; ip = takeWhile is_digit s1; s2 = dropWhile is_digit s1 in
     if ip = [] \<or> (length ip > 1 \<and> hd ip = CHR ''0'') then None
     else (case read_fraction s2 of None \<Rightarrow> None | Some (fd, s3) \<Rightarrow>
           (case read_exponent s3 of None \<Rightarrow> None | Some (e, s4) \<Rightarrow>
             Some (scale10 ((if neg then - 1 else 1) * int (digits_value (ip @ fd))) (e - int (length fd)), s4))))"

definition read_word :: "string \<Rightarrow> js \<Rightarrow> string \<Rightarrow> (js \<times> string) option" where
  "read_word w v s = (if take (length w) s = w then Some (v, drop (length w) s) else None)"

fun parse_val :: "nat \<Rightarrow> string \<Rightarrow> (js \<times> string) option"
  and parse_elems :: "nat \<Rightarrow> string \<Rightarrow> (js list \<times> string) option"
  and parse_members :: "nat \<Rightarrow> (string \<times> js) list \<Rightarrow> string \<Rightarrow> ((string \<times> js) list \<times> string) option" where
  "parse_val 0 s = None"
| "parse_val (Suc n) s = (case skip_ws s of [] \<Rightarrow> None | c # t \<Rightarrow>
     if c = CHR 0x22 then map_option (\<lambda>(x, r). (JStr x, r)) (parse_str t)
     else if c = CHR ''['' then
       (case eat (CHR '']'') t of Some r \<Rightarrow> Some (JArr [], r)
        | None \<Rightarrow> map_option (\<lambda>(xs, r). (JArr xs, r)) (parse_elems n t))
     else if c = CHR ''{'' then
       (case eat (CHR ''}'') t of Some r \<Rightarrow> Some (JObj [], r)
        | None \<Rightarrow> map_option (\<lambda>(kvs, r). (JObj kvs, r)) (parse_members n [] t))
     else if c = CHR ''n'' then read_word ''null'' JNull (c # t)
     else if c = CHR ''t'' then read_word ''true'' (JBool True) (c # t)
     else if c = CHR ''f'' then read_word ''false'' (JBool False) (c # t)
     else parse_num (c # t))"
| "parse_elems 0 s = None"
| "parse_elems (Suc n) s = (case parse_val n s of None \<Rightarrow> None | Some (v, r) \<Rightarrow>
     (case eat (CHR '','') r of Some r' \<Rightarrow> map_option (\<lambda>(xs, u). (v # xs, u)) (parse_elems n r')
      | None \<Rightarrow> (case eat (CHR '']'') r of Some r' \<Rightarrow> Some ([v], r') | None \<Rightarrow> None)))"
| "parse_members 0 acc s = None"
| "parse_members (Suc n) acc s = (case eat (CHR 0x22) s of None \<Rightarrow> None | Some s1 \<Rightarrow>
     (case parse_str s1 of None \<Rightarrow> None | Some (k, s2) \<Rightarrow>
     (case eat (CHR '':'') s2 of None \<Rightarrow> None | Some s3 \<Rightarrow>
     (case parse_val n s3 of None \<Rightarrow> None | Some (v, r) \<Rightarrow>
     (case eat (CHR '','') r of Some r' \<Rightarrow> parse_members n (obj_set k v acc) r'
      | None \<Rightarrow> (case eat (CHR ''}'') r of Some r' \<Rightarrow> Some (obj_set k v acc, r') | None \<Rightarrow> None))))))"

definition JSON_stringify :: "js \<Rightarrow> string" where
  "JSON_stringify v = stringify v"

text \<open>\<open>None\<close> is a \<open>SyntaxError\<close>.\<close>

definition JSON_parse :: "string \<Rightarrow> js option" where
  "JSON_parse s = (case parse_val (2 * length s + 1) s of None \<Rightarrow> None
     | Some (v, r) \<Rightarrow> if skip_ws r = [] then Some v else None)"

section \<open>The parser reads back what the printer writes\<close>

lemma hex_value_hex_digit: "d < 16 \<Longrightarrow> hex_value (hex_digit d) = Some d"
  by (auto simp: hex_value_def hex_digit_def is_digit_def code_digit_char)

lemma hex4_hex_digits: "n < 256 \<Longrightarrow> hex4 [CHR ''0'', CHR ''0'', hex_digit (n div 16), hex_digit (n mod 16)] = Some n"
  by (simp add: hex4_def hex_value_hex_digit hex_value_hex_digit [of 0, unfolded hex_digit_def, simplified])

lemma unescape_short:
  "unescape (CHR 0x22 # s) = Some (CHR 0x22, s)"
  "unescape (CHR 0x5C # s) = Some (CHR 0x5C, s)"
  "unescape (CHR ''b'' # s) = Some (char_of (8 :: nat), s)"
  "unescape (CHR ''t'' # s) = Some (char_of (9 :: nat), s)"
  "unescape (CHR ''n'' # s) = Some (char_of (10 :: nat), s)"
  "unescape (CHR ''f'' # s) = Some (char_of (12 :: nat), s)"
  "unescape (CHR ''r'' # s) = Some (char_of (13 :: nat), s)"
  by (simp_all add: unescape_def)

lemma unescape_hex:
  "n < 256 \<Longrightarrow> unescape (CHR ''u'' # CHR ''0'' # CHR ''0'' # hex_digit (n div 16) # hex_digit (n mod 16) # s) =
     Some (char_of n, s)"
  by (simp add: unescape_def hex4_hex_digits)

lemma parse_str_escape:
  "parse_str (escape_char c @ s) = map_option (\<lambda>(x, r). (c # x, r)) (parse_str s)"
proof -
  define n where "n = code c"
  have c: "c = char_of n" and n: "n < 256" by (simp_all add: n_def)
  have esc: "parse_str (CHR 0x5C # t) = (case unescape t of None \<Rightarrow> None
      | Some (d, u) \<Rightarrow> map_option (\<lambda>(x, r). (d # x, r)) (parse_str u))" for t
    by simp
  have quotes: "n = 34 \<Longrightarrow> c = CHR 0x22" "n = 92 \<Longrightarrow> c = CHR 0x5C"
    using of_char_eq_iff [of c "CHR 0x22", where 'a = nat] of_char_eq_iff [of c "CHR 0x5C", where 'a = nat]
    by (simp_all add: n_def)
  consider "n = 34" | "n = 92" | "n = 8" | "n = 9" | "n = 10" | "n = 12" | "n = 13"
    | "n < 32" "n \<notin> {8, 9, 10, 12, 13}" | "32 \<le> n" "n \<noteq> 34" "n \<noteq> 92"
    by fastforce
  then show ?thesis
  proof cases
    case 8
    then have "escape_char c = [CHR 0x5C, CHR ''u'', CHR ''0'', CHR ''0'', hex_digit (n div 16), hex_digit (n mod 16)]"
      by (simp add: escape_char_def n_def Let_def)
    with n show ?thesis by (simp only: esc append.simps unescape_hex) (simp add: c)
  next
    case 9
    then show ?thesis by (simp add: escape_char_def n_def)
  next
    case 1
    with quotes show ?thesis by (simp add: escape_char_def esc unescape_short del: parse_str.simps(2))
  next
    case 2
    with quotes show ?thesis by (simp add: escape_char_def esc unescape_short del: parse_str.simps(2))
  qed (simp_all only: escape_char_def n_def [symmetric] Let_def,
       simp_all add: esc unescape_short c del: parse_str.simps(2))
qed

lemma parse_str_quoted: "parse_str (concat (map escape_char x) @ CHR 0x22 # r) = Some (x, r)"
  by (induction x) (simp_all add: parse_str_escape)

text \<open>What may follow a number in a JSON text without being read as part of it.\<close>

definition number_end :: "string \<Rightarrow> bool" where
  "number_end r = (case r of [] \<Rightarrow> True | c # _ \<Rightarrow>
     \<not> is_digit c \<and> c \<noteq> CHR ''.'' \<and> c \<noteq> CHR ''e'' \<and> c \<noteq> CHR ''E'')"

lemma takeWhile_digits_then:
  assumes "list_all is_digit ds" and "r = [] \<or> \<not> is_digit (hd r)"
  shows "takeWhile is_digit (ds @ r) = ds" and "dropWhile is_digit (ds @ r) = r"
  using assms by (induction ds) (cases r; simp)+

lemma number_end_reads:
  assumes "number_end r"
  shows "read_fraction r = Some ([], r)" and "read_exponent r = Some (0, r)"
    and "r = [] \<or> \<not> is_digit (hd r)"
  using assms by (cases r; simp add: number_end_def read_fraction_def read_exponent_def)+

lemma hd_nat_to_string: "0 < n \<Longrightarrow> hd (nat_to_string n) \<noteq> CHR ''0''"
proof (induction n rule: nat_to_string.induct)
  case (1 n)
  show ?case
  proof (cases "n < 10")
    case True
    with 1(2) show ?thesis
      using code_digit_char [of n] by (auto simp: nat_to_string_digit)
  next
    case False
    then have "hd (nat_to_string (n div 10)) \<noteq> CHR ''0''"
      using 1 by simp
    with False show ?thesis by (subst nat_to_string.simps) simp
  qed
qed

lemma nat_to_string_no_leading_zero:
  "length (nat_to_string n) > 1 \<Longrightarrow> hd (nat_to_string n) \<noteq> CHR ''0''"
  by (cases "n = 0") (simp_all add: hd_nat_to_string nat_to_string_digit)

lemma read_sign_digits: "list_all is_digit ds \<Longrightarrow> ds \<noteq> [] \<Longrightarrow> read_sign (ds @ r) = (False, ds @ r)"
  by (cases ds) (auto simp: read_sign_def is_digit_def)

lemma parse_num_unsigned:
  assumes "read_sign s = (neg, nat_to_string n @ r)" and "r = [] \<or> \<not> is_digit (hd r)"
  shows "parse_num s =
     (case read_fraction r of None \<Rightarrow> None | Some (fd, s3) \<Rightarrow>
      (case read_exponent s3 of None \<Rightarrow> None | Some (e, s4) \<Rightarrow>
        Some (scale10 ((if neg then - 1 else 1) * int (digits_value (nat_to_string n @ fd)))
               (e - int (length fd)), s4)))"
  using nat_to_string_no_leading_zero [of n]
  unfolding parse_num_def assms(1) Let_def prod.case takeWhile_digits_then [OF nat_to_string_digits assms(2)]
  by auto

lemma read_sign_signed:
  "read_sign ((if neg then ''-'' else []) @ nat_to_string n @ r) = (neg, nat_to_string n @ r)"
  by (simp add: read_sign_digits nat_to_string_digits) (simp add: read_sign_def)

lemma int_to_string_signed:
  "int_to_string i = (if i < 0 then ''-'' else []) @ nat_to_string (nat \<bar>i\<bar>)"
  by (auto simp: int_to_string_def)

lemma parse_num_int:
  assumes "number_end r"
  shows "parse_num (int_to_string i @ r) = Some (JNum i, r)"
proof -
  have "read_sign (int_to_string i @ r) = (i < 0, nat_to_string (nat \<bar>i\<bar>) @ r)"
    using read_sign_signed [of "i < 0"] by (simp only: int_to_string_signed append_assoc)
  from parse_num_unsigned [OF this] number_end_reads [OF assms] show ?thesis
    by (simp add: scale10_def)
qed

lemma norm_dec_lowest: "m mod 10 \<noteq> 0 \<Longrightarrow> 0 < k \<Longrightarrow> norm_dec m k = JDec m k"
  by (cases k) simp_all

lemma length_fraction: "0 < k \<Longrightarrow> length (padStart0 k (nat_to_string (n mod 10 ^ k))) = k"
  using length_nat_to_string_less [of k "n mod 10 ^ k"] by (simp add: length_padStart0 max_def)

lemma digits_value_concat: "digits_value (xs @ ys) = digits_value xs * 10 ^ length ys + digits_value ys"
proof (induction ys rule: rev_induct)
  case (snoc y ys)
  then show ?case
    by (simp add: digits_value_append flip: append_assoc)
qed (simp add: digits_value_def)

lemma parse_num_decimal:
  assumes "number_end r" and "0 < k" and "m mod 10 \<noteq> 0"
  shows "parse_num (decimal_to_string m k @ r) = Some (JDec m k, r)"
proof -
  define a where "a = nat \<bar>m\<bar>"
  define fd where "fd = padStart0 k (nat_to_string (a mod 10 ^ k))"
  have len: "length fd = k" and ds: "list_all is_digit fd"
    unfolding fd_def by (simp_all add: length_fraction assms(2) padStart0_digits nat_to_string_digits)
  have dv: "digits_value (nat_to_string (a div 10 ^ k) @ fd) = a"
    unfolding digits_value_concat len
    by (simp only: fd_def digits_value_padStart0 digits_value_nat_to_string div_mult_mod_eq)
  have s: "read_sign (decimal_to_string m k @ r) = (m < 0, nat_to_string (a div 10 ^ k) @ CHR ''.'' # fd @ r)"
    using read_sign_signed [of "m < 0" "a div 10 ^ k" "CHR ''.'' # fd @ r"]
    by (simp add: decimal_to_string_def a_def fd_def)
  have fr: "read_fraction (CHR ''.'' # fd @ r) = Some (fd, r)"
    using takeWhile_digits_then [OF ds number_end_reads(3) [OF assms(1)]] len assms(2)
    by (auto simp: read_fraction_def)
  have "(if m < 0 then - 1 else 1) * int a = m"
    by (simp add: a_def)
  then show ?thesis
    using parse_num_unsigned [OF s] number_end_reads [OF assms(1)] len assms(2)
    by (simp add: fr dv is_digit_def scale10_def norm_dec_lowest [OF assms(3,2)])
qed

text \<open>Values that \<open>JSON.parse\<close> can yield: reduced fractions, and one member per key.\<close>

fun wf_js :: "js \<Rightarrow> bool" where
  "wf_js (JDec m k) = (0 < k \<and> m mod 10 \<noteq> 0)"
| "wf_js (JArr xs) = list_all wf_js xs"
| "wf_js (JObj kvs) = (distinct (map fst kvs) \<and> list_all (\<lambda>p. wf_js (snd p)) kvs)"
| "wf_js _ = True"

lemma skip_ws_Cons: "\<not> is_ws c \<Longrightarrow> skip_ws (c # s) = c # s"
  by (simp add: skip_ws_def)

lemma eat_self: "\<not> is_ws c \<Longrightarrow> eat c (c # s) = Some s"
  by (simp add: eat_def skip_ws_Cons)

lemma eat_other: "\<not> is_ws d \<Longrightarrow> c \<noteq> d \<Longrightarrow> eat c (d # s) = None"
  by (simp add: eat_def skip_ws_Cons)

text \<open>The first character of a printed value decides how it is read.\<close>

definition value_start :: "char \<Rightarrow> bool" where
  "value_start c = (\<not> is_ws c \<and> c \<noteq> CHR '']'' \<and> c \<noteq> CHR ''}'' \<and> c \<noteq> CHR '','')"

definition number_start :: "char \<Rightarrow> bool" where
  "number_start c = (is_digit c \<or> c = CHR ''-'')"

lemma number_start_facts:
  assumes "number_start c"
  shows "value_start c" and "c \<notin> {CHR 0x22, CHR ''['', CHR ''{'', CHR ''n'', CHR ''t'', CHR ''f''}"
  using assms by (auto simp: number_start_def value_start_def is_ws_def is_digit_def)

lemma number_strings_start:
  "\<exists>c t. int_to_string i = c # t \<and> number_start c"
  "\<exists>c t. decimal_to_string m k = c # t \<and> number_start c"
proof -
  have *: "\<exists>c t. (if neg then ''-'' else []) @ nat_to_string n @ r = c # t \<and> number_start c" for neg n r
    using nat_to_string_digits [of n] by (cases "nat_to_string n") (auto simp: number_start_def)
  show "\<exists>c t. int_to_string i = c # t \<and> number_start c"
    using * [of "i < 0" _ "[]"] by (simp add: int_to_string_signed)
  show "\<exists>c t. decimal_to_string m k = c # t \<and> number_start c"
    unfolding decimal_to_string_def by (rule *)
qed

lemma stringify_start: "\<exists>c t. stringify v = c # t \<and> value_start c"
proof (cases v)
  case (JNum i)
  then show ?thesis using number_strings_start(1) [of i] number_start_facts(1) by auto
next
  case (JDec m k)
  then show ?thesis using number_strings_start(2) [of m k] number_start_facts(1) by auto
qed (auto simp: value_start_def is_ws_def quote_def)

lemma parse_val_number:
  assumes "s = c # t" and "number_start c"
  shows "parse_val (Suc n) (s @ r) = parse_num (s @ r)"
  using number_start_facts [OF assms(2)] assms(1) by (simp add: skip_ws_Cons value_start_def)

lemma number_end_separators [simp]:
  "number_end []" "number_end (CHR '','' # r)" "number_end (CHR '']'' # r)" "number_end (CHR ''}'' # r)"
  by (simp_all add: number_end_def is_digit_def)

lemma not_ws_punctuation [simp]:
  "\<not> is_ws (CHR '','')" "\<not> is_ws (CHR '']'')" "\<not> is_ws (CHR ''}'')" "\<not> is_ws (CHR '':'')"
  "\<not> is_ws (CHR 0x22)" "\<not> is_ws (CHR ''['')" "\<not> is_ws (CHR ''{'')"
  "\<not> is_ws (CHR ''n'')" "\<not> is_ws (CHR ''t'')" "\<not> is_ws (CHR ''f'')"
  by (simp_all add: is_ws_def)

lemma eat_close_stringify: "eat (CHR '']'') (stringify v @ r) = None" "eat (CHR ''}'') (stringify v @ r) = None"
  using stringify_start [of v] by (auto simp: value_start_def eat_other)

lemma length_stringify_pos: "0 < length (stringify v)"
  using stringify_start [of v] by auto

lemma parse_quoted:
  "parse_val (Suc n) (quote x @ r) = Some (JStr x, r)"
  "eat (CHR 0x22) (quote x @ r) = Some (concat (map escape_char x) @ CHR 0x22 # r)"
  by (simp_all add: quote_def skip_ws_Cons parse_str_quoted eat_self)

text \<open>Reading a printed value, a printed list of elements and a printed list of members.\<close>

lemma parse_stringify:
  "wf_js v \<Longrightarrow> number_end r \<Longrightarrow> length (stringify v) \<le> n \<Longrightarrow>
     parse_val n (stringify v @ r) = Some (v, r)"
  "list_all wf_js xs \<Longrightarrow> xs \<noteq> [] \<Longrightarrow> length (stringify_elems xs) < n \<Longrightarrow>
     parse_elems n (stringify_elems xs @ CHR '']'' # r) = Some (xs, r)"
  "list_all (\<lambda>p. wf_js (snd p)) kvs \<Longrightarrow> kvs \<noteq> [] \<Longrightarrow> length (stringify_members kvs) < n \<Longrightarrow>
     distinct (map fst acc @ map fst kvs) \<Longrightarrow>
     parse_members n acc (stringify_members kvs @ CHR ''}'' # r) = Some (acc @ kvs, r)"
proof (induction v and xs and kvs arbitrary: n r and n r and n r acc
    rule: stringify_stringify_elems_stringify_members.induct)
  case 1
  then show ?case by (cases n) (simp_all add: skip_ws_Cons read_word_def)
next
  case (2 b)
  then show ?case by (cases n; cases b) (simp_all add: skip_ws_Cons read_word_def)
next
  case (3 i)
  then obtain m where n: "n = Suc m" using length_stringify_pos [of "JNum i"] by (cases n) auto
  obtain c t where "int_to_string i = c # t" "number_start c" using number_strings_start(1) by blast
  from parse_val_number [OF this] 3 show ?case by (simp add: n parse_num_int)
next
  case (4 m k)
  then obtain j where n: "n = Suc j" using length_stringify_pos [of "JDec m k"] by (cases n) auto
  obtain c t where "decimal_to_string m k = c # t" "number_start c" using number_strings_start(2) by blast
  from parse_val_number [OF this] 4 show ?case by (simp add: n parse_num_decimal)
next
  case (5 s)
  then show ?case by (cases n) (simp_all add: parse_quoted quote_def del: parse_val.simps(2), simp add: parse_quoted(1) [unfolded quote_def, simplified])
next
  case (6 xs)
  then obtain m where n: "n = Suc m" by (cases n) auto
  show ?case
  proof (cases xs)
    case Nil
    then show ?thesis by (simp add: n skip_ws_Cons eat_self)
  next
    case (Cons y ys)
    then have "eat (CHR '']'') (stringify_elems xs @ CHR '']'' # r) = None"
      by (simp add: eat_close_stringify)
    with 6 Cons show ?thesis by (simp add: n skip_ws_Cons)
  qed
next
  case (7 kvs)
  then obtain m where n: "n = Suc m" by (cases n) auto
  show ?case
  proof (cases kvs)
    case Nil
    then show ?thesis by (simp add: n skip_ws_Cons eat_self)
  next
    case (Cons y ys)
    then have "eat (CHR ''}'') (stringify_members kvs @ CHR ''}'' # r) = None"
      by (cases y) (simp add: quote_def eat_other)
    with 7 Cons show ?thesis by (simp add: n skip_ws_Cons)
  qed
next
  case (9 x xs)
  then obtain m where n: "n = Suc m" by (cases n) auto
  show ?case
  proof (cases "xs = []")
    case True
    with 9 show ?thesis by (simp add: n eat_self eat_other)
  next
    case False
    with 9 show ?thesis by (simp add: n eat_self)
  qed
next
  case (11 k v kvs)
  then obtain m where n: "n = Suc m" by (cases n) auto
  have fresh: "obj_set k v acc = acc @ [(k, v)]"
    using 11 by (intro obj_set_fresh) auto
  show ?case
  proof (cases "kvs = []")
    case True
    with 11 show ?thesis by (simp add: n parse_quoted parse_str_quoted eat_self eat_other fresh)
  next
    case False
    with 11 show ?thesis by (simp add: n parse_quoted parse_str_quoted eat_self fresh)
  qed
qed simp_all

theorem JSON_parse_stringify: "wf_js v \<Longrightarrow> JSON_parse (JSON_stringify v) = Some v"
  using parse_stringify(1) [of v "[]" "2 * length (stringify v) + 1"]
  by (simp add: JSON_parse_def JSON_stringify_def skip_ws_def)

section \<open>Reading consumes the text, so the fuel is enough\<close>

lemma length_skip_ws: "length (skip_ws s) \<le> length s"
  by (simp add: skip_ws_def length_dropWhile_le)

lemma eat_shorter: "eat c s = Some t \<Longrightarrow> length t < length s"
  using length_skip_ws [of s] by (auto simp: eat_def split: list.splits if_splits)

lemma parse_str_shorter: "parse_str s = Some (x, r) \<Longrightarrow> length r < length s"
proof (induction s arbitrary: x r rule: parse_str.induct)
  case (2 c s)
  then show ?case
    by (fastforce split: if_splits option.splits dest: unescape_shorter)
qed simp

lemma read_exponent_no_longer: "read_exponent s = Some (e, r) \<Longrightarrow> length r \<le> length s"
  using length_dropWhile_le [of is_digit "tl (tl s)"] length_dropWhile_le [of is_digit "tl s"]
  by (auto simp: read_exponent_def read_sign_def Let_def split: list.splits if_splits)

lemma read_fraction_no_longer: "read_fraction s = Some (fd, r) \<Longrightarrow> length r \<le> length s"
  using length_dropWhile_le [of is_digit "tl s"]
  by (auto simp: read_fraction_def split: list.splits if_splits)

lemma dropWhile_shorter: "takeWhile P s \<noteq> [] \<Longrightarrow> length (dropWhile P s) < length s"
  by (cases s) (auto simp: length_dropWhile_le less_Suc_eq_le split: if_splits)

lemma length_read_sign: "length (snd (read_sign s)) \<le> length s"
  by (auto simp: read_sign_def split: list.splits)

lemma parse_num_shorter: "parse_num s = Some (v, r) \<Longrightarrow> length r < length s"
  using length_read_sign [of s]
  by (fastforce simp: parse_num_def Let_def split: prod.splits if_splits option.splits
      dest: read_exponent_no_longer read_fraction_no_longer dropWhile_shorter)

lemma read_word_shorter: "w \<noteq> [] \<Longrightarrow> read_word w v s = Some (v', r) \<Longrightarrow> length r < length s"
  by (cases w; cases s) (auto simp: read_word_def split: if_splits)

lemmas shorter = eat_shorter parse_str_shorter parse_num_shorter

lemma parse_shorter:
  "parse_val n s = Some (v, r) \<Longrightarrow> length r < length s"
  "parse_elems n s = Some (xs, r) \<Longrightarrow> length r < length s"
  "parse_members n acc s = Some (kvs, r) \<Longrightarrow> length r < length s"
proof (induction n s and n s and n acc s arbitrary: v r and xs r and kvs r
    rule: parse_val_parse_elems_parse_members.induct)
  case (2 n s)
  show ?case
  proof (cases "skip_ws s")
    case Nil
    with 2 show ?thesis by simp
  next
    case (Cons c t)
    have "length r < length (c # t)"
      using 2 Cons
      by (auto split: if_splits option.splits dest: shorter less_SucI
          dest!: read_word_shorter [rotated])
    with Cons length_skip_ws [of s] show ?thesis by simp
  qed
next
  case (4 n s)
  then show ?case
    by (fastforce split: option.splits prod.splits dest: shorter)
next
  case (6 n acc s)
  then show ?case
    by (fastforce split: option.splits prod.splits dest: shorter)
qed simp_all

text \<open>More fuel than twice the length of the text changes nothing: the parser never runs out of it.\<close>

lemma parse_fuel:
  "2 * length s < n \<Longrightarrow> 2 * length s < m \<Longrightarrow> parse_val n s = parse_val m s"
  "2 * length s + 1 < n \<Longrightarrow> 2 * length s + 1 < m \<Longrightarrow> parse_elems n s = parse_elems m s"
  "2 * length s + 1 < n \<Longrightarrow> 2 * length s + 1 < m \<Longrightarrow> parse_members n acc s = parse_members m acc s"
proof (induction n s and n s and n acc s arbitrary: m and m and m
    rule: parse_val_parse_elems_parse_members.induct)
  case (2 n s)
  obtain k where m: "m = Suc k" using 2(4) by (cases m) auto
  show ?case
  proof (cases "skip_ws s")
    case Nil
    then show ?thesis by (simp add: m)
  next
    case (Cons c t)
    with length_skip_ws [of s] have len: "Suc (length t) \<le> length s" by simp
    have "parse_elems n t = parse_elems k t" if "c = CHR ''[''" "eat (CHR '']'') t = None"
      using that 2(3,4) Cons len m by (intro 2(1) [OF Cons]) auto
    moreover have "parse_members n [] t = parse_members k [] t" if "c = CHR ''{''" "eat (CHR ''}'') t = None"
      using that 2(3,4) Cons len m by (intro 2(2) [OF Cons]) auto
    ultimately show ?thesis by (auto simp: m Cons split: option.splits)
  qed
next
  case (4 n s)
  obtain k where m: "m = Suc k" using 4(4) by (cases m) auto
  have v: "parse_val n s = parse_val k s"
    using 4(3,4) m by (intro 4(1)) auto
  have "parse_elems n r' = parse_elems k r'"
    if "parse_val n s = Some (v, r)" "eat (CHR '','') r = Some r'" for v r r'
    using 4(3,4) m parse_shorter(1) [OF that(1)] eat_shorter [OF that(2)]
    by (intro 4(2) [OF that(1) refl that(2)]) auto
  then show ?case by (auto simp: m v [symmetric] split: option.splits)
next
  case (6 n acc s)
  obtain k where m: "m = Suc k" using 6(4) by (cases m) auto
  have v: "parse_val n s3 = parse_val k s3"
    if "eat (CHR 0x22) s = Some s1" "parse_str s1 = Some (x, s2)" "eat (CHR '':'') s2 = Some s3" for s1 x s2 s3
    using 6(3,4) m eat_shorter [OF that(1)] parse_str_shorter [OF that(2)] eat_shorter [OF that(3)]
    by (intro 6(1) [OF that(1) that(2) refl that(3)]) auto
  have "parse_members n (obj_set x v acc) r' = parse_members k (obj_set x v acc) r'"
    if "eat (CHR 0x22) s = Some s1" "parse_str s1 = Some (x, s2)" "eat (CHR '':'') s2 = Some s3"
      "parse_val n s3 = Some (v, r)" "eat (CHR '','') r = Some r'" for s1 x s2 s3 v r r'
    using 6(3,4) m eat_shorter [OF that(1)] parse_str_shorter [OF that(2)] eat_shorter [OF that(3)]
      parse_shorter(1) [OF that(4)] eat_shorter [OF that(5)]
    by (intro 6(2) [OF that(1) that(2) refl that(3) that(4) refl that(5)]) auto
  with v show ?case
    unfolding m parse_members.simps
    by (intro option.case_cong refl) (auto intro!: option.case_cong)
qed simp_all

lemma JSON_parse_fuel:
  "2 * length s < n \<Longrightarrow>
     JSON_parse s = (case parse_val n s of None \<Rightarrow> None | Some (v, r) \<Rightarrow> if skip_ws r = [] then Some v else None)"
  unfolding JSON_parse_def by (subst parse_fuel(1) [of s _ n]) simp_all

text \<open>Whatever the parser returns is well formed, so it can be printed and read back.\<close>

lemma wf_norm_dec: "wf_js (norm_dec m k)"
  by (induction m k rule: norm_dec.induct) simp_all

lemma wf_parse_num: "parse_num s = Some (v, r) \<Longrightarrow> wf_js v"
  by (auto simp: parse_num_def scale10_def wf_norm_dec Let_def split: prod.splits if_splits option.splits)

lemma list_all_obj_set: "list_all P kvs \<Longrightarrow> P (k, v) \<Longrightarrow> list_all P (obj_set k v kvs)"
  by (induction k v kvs rule: obj_set.induct) auto

lemma wf_parse:
  "parse_val n s = Some (v, r) \<Longrightarrow> wf_js v"
  "parse_elems n s = Some (xs, r) \<Longrightarrow> list_all wf_js xs"
  "parse_members n acc s = Some (kvs, r) \<Longrightarrow> wf_js (JObj acc) \<Longrightarrow> wf_js (JObj kvs)"
proof (induction n s and n s and n acc s arbitrary: v r and xs r and kvs r
    rule: parse_val_parse_elems_parse_members.induct)
  case (2 n s)
  then show ?case
    by (auto simp: read_word_def split: list.splits if_splits option.splits dest: wf_parse_num)
next
  case (4 n s)
  then show ?case
    by (fastforce split: option.splits)
next
  case (6 n acc s)
  then show ?case
    by (fastforce intro!: list_all_obj_set split: option.splits)
qed simp_all

lemma wf_JSON_parse: "JSON_parse s = Some v \<Longrightarrow> wf_js v"
  by (auto simp: JSON_parse_def simp del: parse_val.simps split: option.splits if_splits dest: wf_parse)

end
