(* ===== verification/JsDate.thy ===== *)
theory JsDate
  imports JsText
begin

text \<open>
  The part of the JavaScript \<open>Date\<close> that the sources use: \<open>Date.parse\<close> (also through
  \<open>new Date(text).getTime()\<close>) and \<open>toISOString\<close>. A time value is an integer number of
  milliseconds since 1970-01-01 UTC; \<open>None\<close> is \<open>NaN\<close>. \<open>Date_parse\<close> reads the date-time
  string format of ECMAScript (calendar dates, optional time, optional offset, any number of
  fraction digits, expanded years); what an engine accepts beyond that format is not modelled, and
  a date-time without offset is read in UTC. The main result is that \<open>Date_parse\<close> inverts
  \<open>toISOString\<close> on the whole range of time values.
\<close>

section \<open>Calendar\<close>

definition ms_per_day :: int where
  "ms_per_day = 86400000"

definition max_time :: int where
  "max_time = 8640000000000000"

definition leap_year :: "int \<Rightarrow> bool" where
  "leap_year y \<longleftrightarrow> y mod 4 = 0 \<and> (y mod 100 \<noteq> 0 \<or> y mod 400 = 0)"

text \<open>The day number of the first of January of a year (ECMAScript's \<open>DayFromYear\<close>).\<close>

definition day_from_year :: "int \<Rightarrow> int" where
  "day_from_year y = 365 * (y - 1970) + (y - 1969) div 4 - (y - 1901) div 100 + (y - 1601) div 400"

definition month_lengths :: "bool \<Rightarrow> int list" where
  "month_lengths leap = [31, if leap then 29 else 28, 31, 30, 31, 30, 31, 31, 30, 31, 30, 31]"

text \<open>The month (from 1) and the day of the month of a day of the year (from 0).\<close>

fun split_months :: "int list \<Rightarrow> int \<Rightarrow> int \<Rightarrow> int \<times> int" where
  "split_months [] m doy = (m, doy + 1)"
| "split_months (l # ls) m doy = (if doy < l \<or> ls = [] then (m, doy + 1) else split_months ls (m + 1) (doy - l))"

definition days_before_month :: "bool \<Rightarrow> int \<Rightarrow> int" where
  "days_before_month leap m = sum_list (take (nat (m - 1)) (month_lengths leap))"

definition day_number :: "int \<Rightarrow> int \<Rightarrow> int \<Rightarrow> int" where
  "day_number y m d = day_from_year y + days_before_month (leap_year y) m + d - 1"

text \<open>Year and day of the year of a day number, by cycles of 400, 100 and 4 years.\<close>

definition year_day :: "int \<Rightarrow> int \<times> int" where
  "year_day day = (let n = day + 719162; q = n div 146097; r = n mod 146097;
       c = min 3 (r div 36524); r1 = r - 36524 * c; a = r1 div 1461; r2 = r1 mod 1461;
       b = min 3 (r2 div 365)
     in (400 * q + 100 * c + 4 * a + b + 1, r2 - 365 * b))"

definition civil :: "int \<Rightarrow> int \<times> int \<times> int" where
  "civil day = (let (y, doy) = year_day day; (m, d) = split_months (month_lengths (leap_year y)) 1 doy
     in (y, m, d))"

lemma day_from_year_split:
  assumes "0 \<le> c" "c \<le> 3" "0 \<le> a" "a \<le> 24" "0 \<le> b" "b \<le> 3"
  shows "day_from_year (400 * q + 100 * c + 4 * a + b + 1) =
     146097 * q + 36524 * c + 1461 * a + 365 * b - 719162"
proof -
  have "(400 * q + 100 * c + 4 * a + b + 1 - 1969) div 4 = 100 * q + 25 * c + a - 492"
    by (rule int_div_pos_eq [where r = b]) (use assms in simp_all)
  moreover have "(400 * q + 100 * c + 4 * a + b + 1 - 1901) div 100 = 4 * q + c - 19"
    by (rule int_div_pos_eq [where r = "4 * a + b"]) (use assms in simp_all)
  moreover have "(400 * q + 100 * c + 4 * a + b + 1 - 1601) div 400 = q - 4"
    by (rule int_div_pos_eq [where r = "100 * c + 4 * a + b"]) (use assms in simp_all)
  ultimately show ?thesis by (simp add: day_from_year_def)
qed

text \<open>What the cycle decomposition computes: bounds of each part.\<close>

lemma year_day_parts:
  fixes r :: int
  assumes "0 \<le> r" "r < 146097" and "c = min 3 (r div 36524)" and "r1 = r - 36524 * c"
    and "a = r1 div 1461" and "r2 = r1 mod 1461" and "b = min 3 (r2 div 365)"
  shows "0 \<le> c" "c \<le> 3" "0 \<le> a" "a \<le> 24" "0 \<le> b" "b \<le> 3" "0 \<le> r2 - 365 * b" "r2 - 365 * b \<le> 365"
    "r2 - 365 * b = 365 \<longrightarrow> b = 3 \<and> (a = 24 \<longrightarrow> c = 3)"
proof -
  have c: "0 \<le> c" "c \<le> 3" "0 \<le> r1" "r1 \<le> 36524" "r1 = 36524 \<longrightarrow> c = 3"
    using assms(1-4) by (auto simp: min_def split: if_splits)
  then show "0 \<le> c" "c \<le> 3" by simp_all
  show a: "0 \<le> a" "a \<le> 24" using c assms(5) by simp_all
  have r2: "0 \<le> r2" "r2 \<le> 1460" "r1 = 1461 * a + r2" using assms(5,6) by (auto simp: )
  show "0 \<le> b" "b \<le> 3" "0 \<le> r2 - 365 * b" "r2 - 365 * b \<le> 365"
    using r2 assms(7) by (auto simp: min_def split: if_splits)
  show "r2 - 365 * b = 365 \<longrightarrow> b = 3 \<and> (a = 24 \<longrightarrow> c = 3)"
    using r2 c assms(7) by (auto simp: min_def split: if_splits)
qed

lemma year_day_correct:
  assumes "year_day day = (y, doy)"
  shows "day_from_year y + doy = day" "0 \<le> doy" "doy < 365 + (if leap_year y then 1 else 0)"
proof -
  define n where "n = day + 719162"
  define q where "q = n div 146097"
  define r where "r = n mod 146097"
  define c where "c = min 3 (r div 36524)"
  define r1 where "r1 = r - 36524 * c"
  define a where "a = r1 div 1461"
  define r2 where "r2 = r1 mod 1461"
  define b where "b = min 3 (r2 div 365)"
  have y: "y = 400 * q + 100 * c + 4 * a + b + 1" and doy: "doy = r2 - 365 * b"
    using assms
    unfolding year_day_def Let_def n_def [symmetric] q_def [symmetric] r_def [symmetric]
      c_def [symmetric] r1_def [symmetric] a_def [symmetric] r2_def [symmetric] b_def [symmetric]
    by simp_all
  have r: "0 \<le> r" "r < 146097" by (simp_all add: r_def)
  note parts = year_day_parts [OF r c_def r1_def a_def r2_def b_def]
  have "day_from_year y = 146097 * q + 36524 * c + 1461 * a + 365 * b - 719162"
    unfolding y by (rule day_from_year_split) (use parts in simp_all)
  moreover have "r1 = 1461 * a + r2" by (simp add: a_def r2_def)
  moreover have "n = 146097 * q + r" by (simp add: q_def r_def)
  ultimately show "day_from_year y + doy = day" using r1_def n_def doy by simp
  show "0 \<le> doy" using parts doy by simp
  show "doy < 365 + (if leap_year y then 1 else 0)"
  proof (cases "doy = 365")
    case True
    with parts doy have b: "b = 3" and ac: "a = 24 \<longrightarrow> c = 3" by auto
    have "leap_year y"
    proof -
      have "y = 4 * (100 * q + 25 * c + a + 1)" using y b by simp
      then have "y mod 4 = 0" by simp
      moreover have "y mod 100 = 0 \<longrightarrow> y mod 400 = 0"
      proof
        assume y0: "y mod 100 = 0"
        have ye: "y = (4 * q + c) * 100 + (4 * a + 4)" using y b by simp
        have "(4 * a + 4) mod 100 = 0" using y0 unfolding ye mod_mult_self3 .
        have "a = 24"
        proof (rule ccontr)
          assume "a \<noteq> 24"
          with parts(3,4) have "(4 * a + 4) mod 100 = 4 * a + 4"
            by (intro mod_pos_pos_trivial) simp_all
          with \<open>(4 * a + 4) mod 100 = 0\<close> parts(3) show False by simp
        qed
        with ac have "c = 3" by simp
        with \<open>a = 24\<close> y b have "y = (q + 1) * 400" by simp
        then show "y mod 400 = 0" by simp
      qed
      ultimately show ?thesis by (auto simp: leap_year_def)
    qed
    with True show ?thesis by simp
  next
    case False
    with parts doy show ?thesis by auto
  qed
qed

lemma split_months_correct:
  assumes "split_months (month_lengths leap) 1 doy = (m, d)" and "0 \<le> doy"
    and "doy < 365 + (if leap then 1 else 0)"
  shows "1 \<le> m" "m \<le> 12" "1 \<le> d" "d \<le> month_lengths leap ! nat (m - 1)"
    "days_before_month leap m + d - 1 = doy"
  using assms
  by (auto simp: month_lengths_def days_before_month_def split: if_splits)

lemma civil_correct:
  assumes "civil day = (y, m, d)"
  shows "1 \<le> m" "m \<le> 12" "1 \<le> d" "d \<le> month_lengths (leap_year y) ! nat (m - 1)"
    "day_number y m d = day"
proof -
  obtain doy where yd: "year_day day = (y, doy)"
      and sm: "split_months (month_lengths (leap_year y)) 1 doy = (m, d)"
    using assms by (auto simp: civil_def Let_def split: prod.splits)
  note yc = year_day_correct [OF yd] and mc = split_months_correct [OF sm year_day_correct(2,3) [OF yd]]
  show "1 \<le> m" "m \<le> 12" "1 \<le> d" "d \<le> month_lengths (leap_year y) ! nat (m - 1)"
    using mc by simp_all
  show "day_number y m d = day"
    using mc(5) yc(1) by (simp add: day_number_def)
qed

lemma year_bound:
  assumes "civil day = (y, m, d)" and "- 100000000 \<le> day" "day \<le> 100000000"
  shows "- 1000000 < y" "y < 1000000"
proof -
  obtain doy where yd: "year_day day = (y, doy)"
    using assms by (auto simp: civil_def Let_def split: prod.splits)
  define q where "q = (day + 719162) div 146097"
  define r where "r = (day + 719162) mod 146097"
  define c where "c = min 3 (r div 36524)"
  define r1 where "r1 = r - 36524 * c"
  define a where "a = r1 div 1461"
  define r2 where "r2 = r1 mod 1461"
  define b where "b = min 3 (r2 div 365)"
  have y: "y = 400 * q + 100 * c + 4 * a + b + 1"
    using yd unfolding year_day_def Let_def q_def [symmetric] r_def [symmetric]
      c_def [symmetric] r1_def [symmetric] a_def [symmetric] r2_def [symmetric] b_def [symmetric]
    by simp
  have r: "0 \<le> r" "r < 146097" by (simp_all add: r_def)
  note parts = year_day_parts [OF r c_def r1_def a_def r2_def b_def]
  have "day + 719162 = 146097 * q + r" by (simp add: q_def r_def)
  with r assms(2,3) have "- 1000 < q" "q < 1000" by simp_all
  with y parts show "- 1000000 < y" "y < 1000000" by simp_all
qed

section \<open>Printing\<close>

definition pad_int :: "nat \<Rightarrow> int \<Rightarrow> string" where
  "pad_int n i = padStart0 n (nat_to_string (nat i))"

definition iso_year :: "int \<Rightarrow> string" where
  "iso_year y = (if 0 \<le> y \<and> y \<le> 9999 then pad_int 4 y
     else if y < 0 then ''-'' @ pad_int 6 (- y) else ''+'' @ pad_int 6 y)"

text \<open>\<open>toISOString\<close>; \<open>None\<close> is the \<open>RangeError\<close> outside the range of time values.\<close>

definition toISOString :: "int \<Rightarrow> string option" where
  "toISOString t = (if \<bar>t\<bar> > max_time then None
     else let (y, m, d) = civil (t div ms_per_day); ms = t mod ms_per_day in
       Some (iso_year y @ ''-'' @ pad_int 2 m @ ''-'' @ pad_int 2 d @ ''T'' @
         pad_int 2 (ms div 3600000) @ '':'' @ pad_int 2 (ms div 60000 mod 60) @ '':'' @
         pad_int 2 (ms div 1000 mod 60) @ ''.'' @ pad_int 3 (ms mod 1000) @ ''Z''))"

section \<open>Parsing\<close>

text \<open>Exactly \<open>n\<close> digits.\<close>

definition take_digits :: "nat \<Rightarrow> string \<Rightarrow> (int \<times> string) option" where
  "take_digits n s = (if n \<le> length s \<and> list_all is_digit (take n s)
     then Some (int (digits_value (take n s)), drop n s) else None)"

definition expect :: "char \<Rightarrow> string \<Rightarrow> string option" where
  "expect c s = (case s of [] \<Rightarrow> None | x # xs \<Rightarrow> if x = c then Some xs else None)"

definition parse_year :: "string \<Rightarrow> (int \<times> string) option" where
  "parse_year s = (case s of
       [] \<Rightarrow> None
     | x # xs \<Rightarrow>
         if x = CHR ''+'' then take_digits 6 xs
         else if x = CHR ''-'' then
           (case take_digits 6 xs of None \<Rightarrow> None | Some (y, r) \<Rightarrow> if y = 0 then None else Some (- y, r))
         else take_digits 4 s)"

text \<open>An optional field introduced by a separator; absent fields take the default.\<close>

definition optional_field :: "char \<Rightarrow> int \<Rightarrow> string \<Rightarrow> (int \<times> string) option" where
  "optional_field sep dflt s = (case expect sep s of
       None \<Rightarrow> Some (dflt, s)
     | Some r \<Rightarrow> take_digits 2 r)"

text \<open>The fraction: one or more digits, of which the first three count.\<close>

definition parse_fraction :: "string \<Rightarrow> (int \<times> string) option" where
  "parse_fraction s = (case expect (CHR ''.'') s of
       None \<Rightarrow> Some (0, s)
     | Some r \<Rightarrow> (let ds = takeWhile is_digit r in
         if ds = [] then None
         else Some (int (digits_value (take 3 (ds @ ''00''))), dropWhile is_digit r)))"

text \<open>The offset in minutes: \<open>Z\<close>, a signed \<open>HH:mm\<close>, or nothing.\<close>

definition parse_offset :: "string \<Rightarrow> int option" where
  "parse_offset s = (case s of
       [] \<Rightarrow> Some 0
     | x # xs \<Rightarrow>
         if x = CHR ''Z'' then (if xs = [] then Some 0 else None)
         else if x = CHR ''+'' \<or> x = CHR ''-'' then
           (case take_digits 2 xs of None \<Rightarrow> None
            | Some (h, r) \<Rightarrow> (case expect (CHR '':'') r of None \<Rightarrow> None
              | Some r' \<Rightarrow> (case take_digits 2 r' of None \<Rightarrow> None
                | Some (m, r'') \<Rightarrow>
                    if r'' = [] \<and> h \<le> 23 \<and> m \<le> 59
                    then Some (if x = CHR ''-'' then - (60 * h + m) else 60 * h + m) else None)))
         else None)"

text \<open>Hours, minutes, seconds and milliseconds as one number; 24:00 is the end of the day.\<close>

definition parse_time :: "string \<Rightarrow> int option" where
  "parse_time s = (case take_digits 2 s of None \<Rightarrow> None
     | Some (h, r1) \<Rightarrow> (case expect (CHR '':'') r1 of None \<Rightarrow> None
     | Some r2 \<Rightarrow> (case take_digits 2 r2 of None \<Rightarrow> None
     | Some (mi, r3) \<Rightarrow> (case optional_field (CHR '':'') 0 r3 of None \<Rightarrow> None
     | Some (sec, r4) \<Rightarrow> (case (if expect (CHR '':'') r3 = None then Some (0, r4) else parse_fraction r4) of
         None \<Rightarrow> None
     | Some (frac, r5) \<Rightarrow> (case parse_offset r5 of None \<Rightarrow> None
     | Some off \<Rightarrow>
         if mi \<le> 59 \<and> sec \<le> 59 \<and> (h \<le> 23 \<or> (h = 24 \<and> mi = 0 \<and> sec = 0 \<and> frac = 0))
         then Some (3600000 * h + 60000 * mi + 1000 * sec + frac - 60000 * off) else None))))))"

definition time_clip :: "int \<Rightarrow> int option" where
  "time_clip t = (if \<bar>t\<bar> > max_time then None else Some t)"

definition Date_parse :: "string \<Rightarrow> int option" where
  "Date_parse s = (case parse_year s of None \<Rightarrow> None
     | Some (y, r1) \<Rightarrow> (case optional_field (CHR ''-'') 1 r1 of None \<Rightarrow> None
     | Some (m, r2) \<Rightarrow> (case (if expect (CHR ''-'') r1 = None then Some (1, r2) else optional_field (CHR ''-'') 1 r2) of
         None \<Rightarrow> None
     | Some (d, r3) \<Rightarrow>
         if 1 \<le> m \<and> m \<le> 12 \<and> 1 \<le> d \<and> d \<le> month_lengths (leap_year y) ! nat (m - 1) then
           (case r3 of
              [] \<Rightarrow> time_clip (ms_per_day * day_number y m d)
            | x # xs \<Rightarrow>
                if x = CHR ''T'' then
                  (case parse_time xs of None \<Rightarrow> None
                   | Some ms \<Rightarrow> time_clip (ms_per_day * day_number y m d + ms))
                else None)
         else None)))"

section \<open>Printing and parsing invert each other\<close>

lemma pad_int_length: "0 < n \<Longrightarrow> 0 \<le> i \<Longrightarrow> i < 10 ^ n \<Longrightarrow> length (pad_int n i) = n"
proof -
  assume n: "0 < n" and i: "0 \<le> i" "i < 10 ^ n"
  have "nat i < 10 ^ n" using i by (simp add: nat_less_iff)
  with n have "length (nat_to_string (nat i)) \<le> n" by (rule length_nat_to_string_less)
  then show ?thesis by (simp add: pad_int_def length_padStart0)
qed

lemma pad_int_digits: "list_all is_digit (pad_int n i)"
  by (simp add: pad_int_def padStart0_digits nat_to_string_digits)

lemma take_digits_pad_int:
  assumes "0 < n" "0 \<le> i" "i < 10 ^ n"
  shows "take_digits n (pad_int n i @ r) = Some (i, r)"
  using assms pad_int_length [OF assms] pad_int_digits [of n i]
  by (simp add: take_digits_def) (simp add: pad_int_def)

lemma pad_int_hd:
  assumes "0 < n" "0 \<le> i" "i < 10 ^ n"
  obtains c cs where "pad_int n i = c # cs" "is_digit c"
  using pad_int_length [OF assms] pad_int_digits [of n i] assms(1)
  by (cases "pad_int n i") auto

lemma parse_year_iso_year:
  assumes "- 1000000 < y" "y < 1000000"
  shows "parse_year (iso_year y @ r) = Some (y, r)"
proof (cases "0 \<le> y \<and> y \<le> 9999")
  case True
  then have y: "0 \<le> y" "y < 10 ^ 4" by simp_all
  obtain c cs where c: "pad_int 4 y = c # cs" "is_digit c"
    using pad_int_hd [of 4 y] y by auto
  then have "c \<noteq> CHR ''+''" "c \<noteq> CHR ''-''" using digit_not_sign [OF c(2)] by simp_all
  with True c(1) take_digits_pad_int [of 4 y r] y show ?thesis
    by (simp add: iso_year_def parse_year_def)
next
  case False
  then show ?thesis
    using assms take_digits_pad_int [of 6 "- y" r] take_digits_pad_int [of 6 y r]
    by (auto simp: iso_year_def parse_year_def)
qed

lemma expect_Cons [simp]: "expect c (c # s) = Some s"
  by (simp add: expect_def)

lemma two_digit_field:
  assumes "0 \<le> i" "i < 100"
  shows "take_digits 2 (pad_int 2 i @ r) = Some (i, r)"
  using take_digits_pad_int [of 2 i r] assms by simp

lemma fraction_field:
  assumes "0 \<le> i" "i < 1000"
  shows "parse_fraction (''.'' @ pad_int 3 i @ ''Z'') = Some (i, ''Z'')"
proof -
  have l: "length (pad_int 3 i) = 3" using pad_int_length [of 3 i] assms by simp
  have tw: "takeWhile is_digit (pad_int 3 i @ ''Z'') = pad_int 3 i"
    using pad_int_digits [of 3 i] by (simp add: list_all_iff takeWhile_append2 is_digit_def)
  have dw: "dropWhile is_digit (pad_int 3 i @ ''Z'') = ''Z''"
    using pad_int_digits [of 3 i] by (simp add: list_all_iff dropWhile_append2 is_digit_def)
  have ne: "pad_int 3 i \<noteq> []" using l by auto
  have v: "int (digits_value (pad_int 3 i)) = i" using assms by (simp add: pad_int_def)
  show ?thesis using l ne v by (simp add: parse_fraction_def Let_def tw dw)
qed

lemma parse_time_iso:
  assumes "0 \<le> ms" "ms < ms_per_day"
  shows "parse_time (pad_int 2 (ms div 3600000) @ '':'' @ pad_int 2 (ms div 60000 mod 60) @ '':'' @
     pad_int 2 (ms div 1000 mod 60) @ ''.'' @ pad_int 3 (ms mod 1000) @ ''Z'') = Some ms"
proof -
  define h mi sec frac where "h = ms div 3600000" and "mi = ms div 60000 mod 60"
    and "sec = ms div 1000 mod 60" and "frac = ms mod 1000"
  note defs = h_def mi_def sec_def frac_def
  have b: "0 \<le> h" "h \<le> 23" "0 \<le> mi" "mi \<le> 59" "0 \<le> sec" "sec \<le> 59" "0 \<le> frac" "frac < 1000"
    using assms by (simp_all add: defs ms_per_day_def)
  have sum: "3600000 * h + 60000 * mi + 1000 * sec + frac = ms"
  proof -
    obtain A where A: "A = ms div 1000" by simp
    obtain B where B: "B = A div 60" by simp
    have "h = B div 60" "mi = B mod 60" "sec = A mod 60"
      by (simp_all add: defs A B zdiv_zmult2_eq [symmetric])
    then have "60 * h + mi = B" "60 * B + sec = A" "1000 * A + frac = ms"
      using mult_div_mod_eq [of 60 B] mult_div_mod_eq [of 60 A] mult_div_mod_eq [of 1000 ms]
      by (simp_all only: A B defs)
    then show ?thesis by simp
  qed
  have sec_rest: "optional_field (CHR '':'') 0
      ('':'' @ pad_int 2 sec @ ''.'' @ pad_int 3 frac @ ''Z'') = Some (sec, ''.'' @ pad_int 3 frac @ ''Z'')"
    using two_digit_field [of sec "''.'' @ pad_int 3 frac @ ''Z''"] b by (simp add: optional_field_def)
  show ?thesis
    unfolding defs [symmetric] parse_time_def
    using two_digit_field [of h "'':'' @ pad_int 2 mi @ '':'' @ pad_int 2 sec @ ''.'' @ pad_int 3 frac @ ''Z''"]
      two_digit_field [of mi "'':'' @ pad_int 2 sec @ ''.'' @ pad_int 3 frac @ ''Z''"]
      fraction_field [of frac] sec_rest b sum
    by (simp add: parse_offset_def)
qed

lemma Date_parse_toISOString:
  assumes "toISOString t = Some s"
  shows "Date_parse s = Some t"
proof -
  obtain y m d where c: "civil (t div ms_per_day) = (y, m, d)"
    by (cases "civil (t div ms_per_day)") auto
  define ms where "ms = t mod ms_per_day"
  define time where "time = pad_int 2 (ms div 3600000) @ '':'' @ pad_int 2 (ms div 60000 mod 60) @ '':'' @
     pad_int 2 (ms div 1000 mod 60) @ ''.'' @ pad_int 3 (ms mod 1000) @ ''Z''"
  from assms have t: "\<bar>t\<bar> \<le> max_time"
    and s: "s = iso_year y @ ''-'' @ pad_int 2 m @ ''-'' @ pad_int 2 d @ ''T'' @ time"
    by (simp_all add: toISOString_def Let_def c ms_def time_def split: if_splits)
  have ms: "0 \<le> ms" "ms < ms_per_day" by (simp_all add: ms_def ms_per_day_def)
  have day: "- 100000000 \<le> t div ms_per_day" "t div ms_per_day \<le> 100000000"
    using t by (simp_all add: max_time_def ms_per_day_def)
  note cc = civil_correct [OF c] and yb = year_bound [OF c day]
  have ml: "month_lengths (leap_year y) ! nat (m - 1) \<le> 31"
  proof -
    have "month_lengths (leap_year y) ! nat (m - 1) \<in> set (month_lengths (leap_year y))"
      using cc(1,2) by (intro nth_mem) (simp add: month_lengths_def)
    then show ?thesis by (auto simp: month_lengths_def split: if_splits)
  qed
  have f1: "optional_field (CHR ''-'') 1 (''-'' @ pad_int 2 m @ ''-'' @ pad_int 2 d @ ''T'' @ time) =
      Some (m, ''-'' @ pad_int 2 d @ ''T'' @ time)"
    using two_digit_field [of m "''-'' @ pad_int 2 d @ ''T'' @ time"] cc by (simp add: optional_field_def)
  have f2: "optional_field (CHR ''-'') 1 (''-'' @ pad_int 2 d @ ''T'' @ time) = Some (d, ''T'' @ time)"
    using two_digit_field [of d "''T'' @ time"] cc ml by (simp add: optional_field_def)
  have pt: "parse_time time = Some ms"
    unfolding time_def by (rule parse_time_iso [OF ms])
  have "ms_per_day * day_number y m d + ms = t"
    by (simp add: cc(5) ms_def)
  with t have clip: "time_clip (ms_per_day * day_number y m d + ms) = Some t"
    by (simp add: time_clip_def)
  show ?thesis
    unfolding s Date_parse_def
    using parse_year_iso_year [OF yb, of "''-'' @ pad_int 2 m @ ''-'' @ pad_int 2 d @ ''T'' @ time"]
      f1 f2 pt clip cc(1-4)
    by simp
qed

lemma toISOString_range: "(\<exists>s. toISOString t = Some s) \<longleftrightarrow> \<bar>t\<bar> \<le> max_time"
  by (auto simp: toISOString_def Let_def split: prod.splits)

lemma Date_parse_range: "Date_parse s = Some t \<Longrightarrow> \<bar>t\<bar> \<le> max_time"
  by (auto simp: Date_parse_def time_clip_def split: option.splits prod.splits if_splits list.splits)

lemma toISOString_inject: "toISOString t = Some s \<Longrightarrow> toISOString u = Some s \<Longrightarrow> t = u"
  by (metis Date_parse_toISOString option.inject)

section \<open>Comparing time values\<close>

text \<open>Comparisons with \<open>NaN\<close> are false.\<close>

definition time_gt :: "int option \<Rightarrow> int option \<Rightarrow> bool" where
  "time_gt a b = (case a of None \<Rightarrow> False | Some x \<Rightarrow> (case b of None \<Rightarrow> False | Some y \<Rightarrow> x > y))"

definition time_le :: "int option \<Rightarrow> int option \<Rightarrow> bool" where
  "time_le a b = (case a of None \<Rightarrow> False | Some x \<Rightarrow> (case b of None \<Rightarrow> False | Some y \<Rightarrow> x \<le> y))"

lemma time_gt_iff: "time_gt a b \<longleftrightarrow> (\<exists>x y. a = Some x \<and> b = Some y \<and> x > y)"
  by (auto simp: time_gt_def split: option.splits)

lemma time_le_iff: "time_le a b \<longleftrightarrow> (\<exists>x y. a = Some x \<and> b = Some y \<and> x \<le> y)"
  by (auto simp: time_le_def split: option.splits)

end
