(* ===== verification/IconReference.thy ===== *)
theory IconReference
  imports JsText
begin

text \<open>
  Icon references (\<open>features/catalog/services/icon-reference.ts\<close>): \<open>prefix:name\<close> in
  kebab case. The regular expression is decided by splitting, and shown to accept exactly the
  strings the pattern describes.
\<close>

definition icon_char :: "char \<Rightarrow> bool" where
  "icon_char c = (is_lower_az c \<or> is_digit c)"

text \<open>\<open>[a-z0-9]+\<close> and \<open>[a-z0-9]+(?:-[a-z0-9]+)*\<close>.\<close>

definition icon_segment :: "string \<Rightarrow> bool" where
  "icon_segment s = (s \<noteq> [] \<and> list_all icon_char s)"

definition icon_kebab :: "string \<Rightarrow> bool" where
  "icon_kebab s = list_all icon_segment (split_on (CHR ''-'') s)"

definition ICON_REFERENCE_PATTERN :: "string \<Rightarrow> bool" where
  "ICON_REFERENCE_PATTERN s = (case split_on (CHR '':'') s of
     [p, n] \<Rightarrow> icon_kebab p \<and> icon_kebab n | _ \<Rightarrow> False)"

definition parseIconReference :: "string option \<Rightarrow> (string \<times> string) option" where
  "parseIconReference value = (case value of None \<Rightarrow> None | Some s \<Rightarrow>
     if s = [] \<or> length s > 255 \<or> \<not> ICON_REFERENCE_PATTERN s then None
     else Some (takeWhile (\<lambda>c. c \<noteq> CHR '':'') s, tl (dropWhile (\<lambda>c. c \<noteq> CHR '':'') s)))"

lemma segment_free: "icon_segment s \<Longrightarrow> c \<in> {CHR ''-'', CHR '':''} \<Longrightarrow> c \<notin> set s"
  by (auto simp: icon_segment_def list_all_iff icon_char_def is_lower_az_def is_digit_def)

lemma icon_kebab_iff:
  "icon_kebab s \<longleftrightarrow> (\<exists>segs. segs \<noteq> [] \<and> list_all icon_segment segs \<and> s = join ''-'' segs)"
proof
  assume "icon_kebab s"
  then show "\<exists>segs. segs \<noteq> [] \<and> list_all icon_segment segs \<and> s = join ''-'' segs"
    by (intro exI [of _ "split_on (CHR ''-'') s"]) (simp add: icon_kebab_def join_split_on)
next
  assume "\<exists>segs. segs \<noteq> [] \<and> list_all icon_segment segs \<and> s = join ''-'' segs"
  then show "icon_kebab s"
    by (auto simp: icon_kebab_def split_on_join list_all_iff segment_free)
qed

lemma set_join_subset: "set (join sep segs) \<subseteq> set sep \<union> \<Union> (set ` set segs)"
  by (induction sep segs rule: join.induct) auto

lemma kebab_free: "icon_kebab s \<Longrightarrow> CHR '':'' \<notin> set s"
  using set_join_subset [of "''-''"] segment_free
  by (fastforce simp: icon_kebab_iff list_all_iff)

lemma icon_pattern_iff:
  "ICON_REFERENCE_PATTERN s \<longleftrightarrow> (\<exists>p n. icon_kebab p \<and> icon_kebab n \<and> s = p @ '':'' @ n)"
proof
  assume "ICON_REFERENCE_PATTERN s"
  then obtain p n where pn: "split_on (CHR '':'') s = [p, n]" "icon_kebab p" "icon_kebab n"
    by (auto simp: ICON_REFERENCE_PATTERN_def split: list.splits)
  then have "s = p @ '':'' @ n"
    using join_split_on [of "CHR '':''" s] by simp
  with pn show "\<exists>p n. icon_kebab p \<and> icon_kebab n \<and> s = p @ '':'' @ n" by blast
next
  assume "\<exists>p n. icon_kebab p \<and> icon_kebab n \<and> s = p @ '':'' @ n"
  then show "ICON_REFERENCE_PATTERN s"
    by (auto simp: ICON_REFERENCE_PATTERN_def split_on_append split_on_free kebab_free)
qed

lemma parseIconReference_parts:
  assumes "parseIconReference (Some s) = Some (p, n)"
  shows "s = p @ '':'' @ n" and "icon_kebab p" and "icon_kebab n"
proof -
  obtain a b where ab: "icon_kebab a" "icon_kebab b" "s = a @ '':'' @ b"
    using assms by (auto simp: parseIconReference_def icon_pattern_iff split: if_splits)
  have stop: "takeWhile (\<lambda>c. c \<noteq> CHR '':'') s = a" "dropWhile (\<lambda>c. c \<noteq> CHR '':'') s = '':'' @ b"
    using kebab_free [OF ab(1)] ab(3)
    by (auto simp: takeWhile_append dropWhile_append)
  then have "p = a" "n = b"
    using assms by (auto simp: parseIconReference_def split: if_splits)
  with ab show "s = p @ '':'' @ n" and "icon_kebab p" and "icon_kebab n" by simp_all
qed

end
