(* ===== verification/DemoWorkspace.thy ===== *)
theory DemoWorkspace
  imports Storage JsDate IconReference
begin

text \<open>
  The demo workspace (\<open>features/demo/services/demo-workspace.ts\<close>): one envelope per tenant,
  kept as JSON text under one storage key. The envelope is a JavaScript value, since what is
  read back from the storage can be anything; the validators decide what is accepted. Each
  method of the repository is a function on the repository's state (its storage, the state of
  the storage it reports, and the pending recovery notice) that returns or throws; \<open>now\<close> is the
  reading of the clock during the call.
\<close>

section \<open>Metadata and errors\<close>

datatype TenantPlan = Starter | Pro

datatype DemoTenantStatus = Pending | Active | Expired

record DemoAuthMetadata =
  md_tenantId :: string
  md_name :: string
  md_plan :: TenantPlan
  md_status :: DemoTenantStatus
  md_activatedAt :: "string option"
  md_expiresAt :: "string option"
  md_credentialVersion :: js
  md_locale :: "string option"
  md_serverTime :: string

definition plan_string :: "TenantPlan \<Rightarrow> string" where
  "plan_string p = (case p of Starter \<Rightarrow> ''starter'' | Pro \<Rightarrow> ''pro'')"

datatype DemoWorkspaceStorageState = Available | Unavailable | Quota_exceeded

text \<open>
  What the demo services throw: \<open>DemoWorkspaceStorageError\<close> with its code, a plain
  \<open>Error\<close> with its message, an error class of a data service with code and message, the
  \<open>RangeError\<close> of \<open>toISOString\<close> on an invalid date, and \<open>OffType\<close> for stored data that
  passes the checks of the code but does not have its TypeScript type (what the code then does is
  not modelled).
\<close>

datatype demo_error =
    StorageError DemoWorkspaceStorageState
  | PlainError string
  | DomainError string string string
  | RangeError
  | OffType
  | RawError Thrown

section \<open>Validation\<close>

definition DEMO_WORKSPACE_SCHEMA_VERSION :: int where
  "DEMO_WORKSPACE_SCHEMA_VERSION = 3"

definition DEMO_WORKSPACE_KEY_PREFIX :: string where
  "DEMO_WORKSPACE_KEY_PREFIX = ''trackpal:demo-workspace:''"

definition workspaceKey :: "string \<Rightarrow> string" where
  "workspaceKey tenantId = DEMO_WORKSPACE_KEY_PREFIX @ tenantId"

text \<open>A property that may be missing is \<open>js option\<close>; \<open>None\<close> is \<open>undefined\<close>.\<close>

definition isRecord :: "js option \<Rightarrow> bool" where
  "isRecord v = (case v of Some (JObj kvs) \<Rightarrow> True | _ \<Rightarrow> False)"

definition isString :: "js option \<Rightarrow> bool" where
  "isString v = (case v of Some (JStr s) \<Rightarrow> True | _ \<Rightarrow> False)"

definition isTimestamp :: "js option \<Rightarrow> bool" where
  "isTimestamp v = (case v of Some (JStr s) \<Rightarrow> Date_parse s \<noteq> None | _ \<Rightarrow> False)"

definition parse_js_date :: "js option \<Rightarrow> int option" where
  "parse_js_date v = (case v of Some (JStr s) \<Rightarrow> Date_parse s | _ \<Rightarrow> None)"

definition isLifecyclePair :: "js option \<Rightarrow> js option \<Rightarrow> bool" where
  "isLifecyclePair activatedAt expiresAt =
     (if activatedAt = Some JNull \<and> expiresAt = Some JNull then True
      else if \<not> isTimestamp activatedAt \<or> \<not> isTimestamp expiresAt then False
      else time_gt (parse_js_date expiresAt) (parse_js_date activatedAt))"

definition forbidden_name :: "string \<Rightarrow> bool" where
  "forbidden_name key = (let normalized = toLowerCase key in
     js_includes ''password'' normalized \<or>
     js_includes ''access_token'' normalized \<or>
     js_includes ''refresh_token'' normalized \<or>
     js_includes ''session'' normalized \<or>
     js_includes ''chat'' normalized \<or>
     js_includes ''credential'' normalized)"

fun hasForbiddenKey :: "js \<Rightarrow> bool" where
  "hasForbiddenKey (JArr xs) = list_ex hasForbiddenKey xs"
| "hasForbiddenKey (JObj kvs) = list_ex (\<lambda>p. forbidden_name (fst p) \<or> hasForbiddenKey (snd p)) kvs"
| "hasForbiddenKey _ = False"

definition isRecordArray :: "js option \<Rightarrow> string list \<Rightarrow> bool" where
  "isRecordArray value requiredKeys = (case value of
     Some (JArr xs) \<Rightarrow> list_all (\<lambda>item. isRecord (Some item) \<and>
       list_all (\<lambda>key. isString (jget item key)) requiredKeys) xs
   | _ \<Rightarrow> False)"

definition isValidIcon :: "js option \<Rightarrow> bool" where
  "isValidIcon value = (case value of
     Some JNull \<Rightarrow> True
   | Some (JStr s) \<Rightarrow> parseIconReference (Some s) \<noteq> None
   | _ \<Rightarrow> False)"

definition isServiceIconValid :: "js \<Rightarrow> bool" where
  "isServiceIconValid service = (isRecord (Some service) \<and> isValidIcon (jget service ''icon''))"

text \<open>\<open>{ ...v, [k]: x }\<close> on a record.\<close>

fun spread_set :: "string \<Rightarrow> js \<Rightarrow> js \<Rightarrow> js" where
  "spread_set k x (JObj kvs) = JObj (obj_set k x kvs)"
| "spread_set k x _ = JObj [(k, x)]"

definition migrate_icon :: "js \<Rightarrow> js" where
  "migrate_icon service = (if isRecord (Some service) \<and> jget service ''icon'' = None
     then spread_set ''icon'' JNull service else service)"

definition migrateServiceIcons :: "js \<Rightarrow> js" where
  "migrateServiceIcons planSpecific = (case jget planSpecific ''services'' of
     Some (JArr services) \<Rightarrow> spread_set ''services'' (JArr (map migrate_icon services)) planSpecific
   | _ \<Rightarrow> planSpecific)"

definition isArray :: "js option \<Rightarrow> bool" where
  "isArray v = (case v of Some (JArr xs) \<Rightarrow> True | _ \<Rightarrow> False)"

definition connected_integration :: "js option \<Rightarrow> bool" where
  "connected_integration i = (case i of
     Some (JObj kvs) \<Rightarrow> map_of kvs ''status'' = Some (JStr ''connected'') \<and>
       map_of kvs ''simulated'' = Some (JBool True)
   | _ \<Rightarrow> False)"

definition valid_profile_part :: "js \<Rightarrow> bool" where
  "valid_profile_part value = (case jget value ''profile'' of
     None \<Rightarrow> True
   | Some profile \<Rightarrow>
       isRecord (Some profile) \<and> isString (jget profile ''business_name'') \<and>
       (jget profile ''locale'' = Some (JStr ''en'') \<or> jget profile ''locale'' = Some (JStr ''es'')) \<and>
       (case jget value ''integrations'' of None \<Rightarrow> False | Some integrations \<Rightarrow>
          isRecord (Some integrations) \<and>
          connected_integration (jget integrations ''mailbox'') \<and>
          connected_integration (jget integrations ''whatsapp'')) \<and>
       isRecordArray (jget value ''code_services'') [''id'', ''name''] \<and>
       isRecordArray (jget value ''blocked_identities'') [''id'', ''phone''])"

definition proKeys :: "string list" where
  "proKeys = [''clients'', ''services'', ''plans'', ''subscriptions'']"

definition isPlanSpecificState :: "js option \<Rightarrow> TenantPlan \<Rightarrow> bool" where
  "isPlanSpecificState v plan = (case v of
     Some (JObj kvs) \<Rightarrow>
       (let value = JObj kvs; hasProKey = list_ex (\<lambda>key. jget value key \<noteq> None) proKeys in
        if hasForbiddenKey value then False
        else if \<not> valid_profile_part value then False
        else if plan = Starter \<and> hasProKey then False
        else if \<not> hasProKey then True
        else if \<not> list_all (\<lambda>key. isArray (jget value key)) proKeys then False
        else isRecordArray (jget value ''clients'') [''id'', ''tenant_id'', ''full_name''] \<and>
          isRecordArray (jget value ''services'') [''id'', ''tenant_id'', ''name''] \<and>
          (case jget value ''services'' of Some (JArr ss) \<Rightarrow> list_all isServiceIconValid ss | _ \<Rightarrow> False) \<and>
          isRecordArray (jget value ''plans'') [''id'', ''tenant_id'', ''service_id'', ''name''] \<and>
          isRecordArray (jget value ''subscriptions'')
            [''id'', ''tenant_id'', ''client_id'', ''service_id'', ''plan_id''])
   | _ \<Rightarrow> False)"

definition plan_of_js :: "js option \<Rightarrow> TenantPlan option" where
  "plan_of_js v = (if v = Some (JStr ''starter'') then Some Starter
     else if v = Some (JStr ''pro'') then Some Pro else None)"

definition positive_integer :: "js option \<Rightarrow> bool" where
  "positive_integer v = (case v of Some (JNum i) \<Rightarrow> i \<ge> 1 | _ \<Rightarrow> False)"

definition isWorkspaceEnvelope :: "js \<Rightarrow> string \<Rightarrow> bool" where
  "isWorkspaceEnvelope value tenantId =
     (if \<not> isRecord (Some value) then False
      else if jget value ''schema_version'' \<noteq> Some (JNum DEMO_WORKSPACE_SCHEMA_VERSION) then False
      else if jget value ''tenant_id'' \<noteq> Some (JStr tenantId) \<or>
        \<not> isString (jget value ''source_name'') \<or> jget value ''source_name'' = Some (JStr []) then False
      else (case plan_of_js (jget value ''plan'') of None \<Rightarrow> False | Some plan \<Rightarrow>
        if \<not> isLifecyclePair (jget value ''activated_at'') (jget value ''expires_at'') then False
        else if \<not> positive_integer (jget value ''baseline_version'') then False
        else if \<not> isPlanSpecificState (jget value ''plan_specific'') plan then False
        else isRecord (jget value ''tour_state'') \<and> isTimestamp (jget value ''saved_at'')))"

text \<open>A missing \<open>plan_specific\<close> stays missing; the spread below then adds \<open>undefined\<close>, which fails validation.\<close>

definition migrateKnownEnvelope :: "js \<Rightarrow> string \<Rightarrow> js option" where
  "migrateKnownEnvelope value tenantId =
     (if \<not> isRecord (Some value) \<or> jget value ''tenant_id'' \<noteq> Some (JStr tenantId) then None
      else if jget value ''schema_version'' = Some (JNum DEMO_WORKSPACE_SCHEMA_VERSION) then
        (if isWorkspaceEnvelope value tenantId then Some value else None)
      else if jget value ''schema_version'' \<noteq> Some (JNum 1) \<and> jget value ''schema_version'' \<noteq> Some (JNum 2)
      then None
      else (case jget value ''plan_specific'' of None \<Rightarrow> None | Some ps \<Rightarrow>
        let version = (if positive_integer (jget value ''baseline_version'')
              then the (jget value ''baseline_version'') else JNum 1);
            migrated = spread_set ''baseline_version'' version
              (spread_set ''schema_version'' (JNum DEMO_WORKSPACE_SCHEMA_VERSION)
                (spread_set ''plan_specific'' (migrateServiceIcons ps) value))
        in if isWorkspaceEnvelope migrated tenantId then Some migrated else None))"

definition isQuotaError :: "Thrown \<Rightarrow> bool" where
  "isQuotaError e = (if \<not> is_object e then False
     else err_name e = Some ''QuotaExceededError'' \<or> err_code e = Some 22 \<or> err_code e = Some 1014)"

definition timestampOrNull :: "string option \<Rightarrow> js" where
  "timestampOrNull value = (case value of None \<Rightarrow> JNull
     | Some s \<Rightarrow> if isTimestamp (Some (JStr s)) then JStr s else JNull)"

text \<open>\<open>new Date().toISOString()\<close>.\<close>

definition iso_now :: "int \<Rightarrow> demo_error + string" where
  "iso_now now = (case toISOString now of None \<Rightarrow> Inl RangeError | Some s \<Rightarrow> Inr s)"

text \<open>What a baseline factory yields: \<open>plan_specific\<close>, \<open>tour_state\<close>, \<open>baseline_version\<close>.\<close>

type_synonym PlanBaselineFactory = "TenantPlan \<Rightarrow> DemoAuthMetadata \<Rightarrow> demo_error + js \<times> js \<times> int"

definition createEnvelope :: "DemoAuthMetadata \<Rightarrow> PlanBaselineFactory option \<Rightarrow> int \<Rightarrow> demo_error + js" where
  "createEnvelope metadata baseline now =
     ebind (case baseline of Some b \<Rightarrow> b (md_plan metadata) metadata | None \<Rightarrow> Inr (JObj [], JObj [], 1))
       (\<lambda>(plan_specific, tour_state, baseline_version).
     ebind (iso_now now) (\<lambda>saved_at. Inr (JObj [
       (''schema_version'', JNum DEMO_WORKSPACE_SCHEMA_VERSION),
       (''tenant_id'', JStr (md_tenantId metadata)),
       (''source_name'', JStr (md_name metadata)),
       (''plan'', JStr (plan_string (md_plan metadata))),
       (''activated_at'', timestampOrNull (md_activatedAt metadata)),
       (''expires_at'', timestampOrNull (md_expiresAt metadata)),
       (''baseline_version'', JNum baseline_version),
       (''plan_specific'', plan_specific),
       (''tour_state'', tour_state),
       (''saved_at'', JStr saved_at)])))"

section \<open>The repository\<close>

record DemoWorkspaceRepository =
  tenantId :: string
  storage :: StorageLike
  storageState :: DemoWorkspaceStorageState
  recoveryNotice :: bool

type_synonym 'a repo_act = "(DemoWorkspaceRepository, demo_error, 'a) act"

abbreviation repo_key :: "DemoWorkspaceRepository \<Rightarrow> string" where
  "repo_key r \<equiv> workspaceKey (tenantId r)"

definition fault_state :: "Thrown \<Rightarrow> DemoWorkspaceStorageState" where
  "fault_state e = (if isQuotaError e then Quota_exceeded else Unavailable)"

definition createDemoWorkspaceRepository :: "string \<Rightarrow> StorageLike \<Rightarrow> DemoWorkspaceRepository" where
  "createDemoWorkspaceRepository tid st =
     (if absent st then \<lparr> tenantId = tid, storage = st, storageState = Unavailable, recoveryNotice = False \<rparr>
      else (case getItem (workspaceKey tid) st of
        (Inl e, st') \<Rightarrow> \<lparr> tenantId = tid, storage = st', storageState = fault_state e, recoveryNotice = False \<rparr>
      | (Inr _, st') \<Rightarrow> \<lparr> tenantId = tid, storage = st', storageState = Available, recoveryNotice = False \<rparr>))"

text \<open>\<open>try { ... } catch (error) { throw storageError(error) }\<close> around storage calls.\<close>

definition storageError :: "(StorageLike, Thrown, 'a) act \<Rightarrow> 'a repo_act" where
  "storageError m r = (case m (storage r) of
     (Inl e, st) \<Rightarrow> (Inl (StorageError (fault_state e)), r\<lparr>storage := st, storageState := fault_state e\<rparr>)
   | (Inr a, st) \<Rightarrow> (Inr a, r\<lparr>storage := st\<rparr>))"

definition readRaw :: "string option repo_act" where
  "readRaw r = storageError (getItem (repo_key r)) r"

definition write_envelope :: "js \<Rightarrow> unit repo_act" where
  "write_envelope envelope r = storageError (setItem (repo_key r) (JSON_stringify envelope)) r"

definition remove :: "unit repo_act" where
  "remove r = storageError (removeItem (repo_key r)) r"

definition parseEnvelope :: "string \<Rightarrow> string \<Rightarrow> js option \<times> bool" where
  "parseEnvelope tid raw = (case JSON_parse raw of None \<Rightarrow> (None, False)
     | Some parsed \<Rightarrow> (case migrateKnownEnvelope parsed tid of None \<Rightarrow> (None, False)
        | Some envelope \<Rightarrow> (Some envelope, isRecord (Some parsed) \<and>
            jget parsed ''schema_version'' \<noteq> Some (JNum DEMO_WORKSPACE_SCHEMA_VERSION))))"

definition readInternal :: "js option repo_act" where
  "readInternal = abind aget (\<lambda>r. abind readRaw (\<lambda>raw.
     if falsy raw then areturn None
     else (case parseEnvelope (tenantId r) (the raw) of
       (None, migrated) \<Rightarrow> areturn None
     | (Some envelope, migrated) \<Rightarrow>
         athen (if migrated then write_envelope envelope else areturn ()) (areturn (Some envelope)))))"

definition save :: "DemoAuthMetadata \<Rightarrow> PlanBaselineFactory option \<Rightarrow> int \<Rightarrow> js repo_act" where
  "save metadata baseline now = abind aget (\<lambda>r.
     abind (alift (createEnvelope metadata baseline now)) (\<lambda>envelope.
       if \<not> isWorkspaceEnvelope envelope (tenantId r)
       then athrow (PlainError ''invalid_demo_workspace_baseline'')
       else athen (write_envelope envelope) (areturn envelope)))"

definition isExpiredOrphan :: "js \<Rightarrow> DemoAuthMetadata \<Rightarrow> bool" where
  "isExpiredOrphan envelope metadata =
     time_le (parse_js_date (jget envelope ''expires_at'')) (Date_parse (md_serverTime metadata))"

text \<open>The text of an expired workspace, as \<open>cleanupExpiredOrphans\<close> recognises it.\<close>

definition expired_text :: "int \<Rightarrow> string \<Rightarrow> bool" where
  "expired_text reference raw = (case JSON_parse raw of None \<Rightarrow> False
     | Some parsed \<Rightarrow> isRecord (Some parsed) \<and> isString (jget parsed ''expires_at'') \<and>
         isTimestamp (jget parsed ''expires_at'') \<and>
         time_le (parse_js_date (jget parsed ''expires_at'')) (Some reference))"

fun cleanup_keys :: "int \<Rightarrow> string list \<Rightarrow> (StorageLike, Thrown, unit) act" where
  "cleanup_keys reference [] = areturn ()"
| "cleanup_keys reference (candidateKey # keys) =
     (if \<not> js_startsWith DEMO_WORKSPACE_KEY_PREFIX candidateKey then cleanup_keys reference keys
      else abind (getItem candidateKey) (\<lambda>raw.
        if falsy raw then cleanup_keys reference keys
        else if expired_text reference (the raw)
        then athen (removeItem candidateKey) (cleanup_keys reference keys)
        else cleanup_keys reference keys))"

text \<open>
  The reads of \<open>storage.length\<close> and \<open>storage.key(index)\<close>, each of which may throw. The first read
  of the length is outside the \<open>try\<close> block, so what it throws is passed on as it is.
\<close>

definition storage_length :: "(StorageLike, Thrown, nat) act" where
  "storage_length = abind storage_call (\<lambda>_ s. (Inr (length (items s)), s))"

definition storage_key :: "nat \<Rightarrow> (StorageLike, Thrown, string option) act" where
  "storage_key index = abind storage_call (\<lambda>_ s.
     (Inr (if index < length (items s) then Some (fst (items s ! index)) else None), s))"

fun storage_keys :: "nat list \<Rightarrow> (StorageLike, Thrown, string list) act" where
  "storage_keys [] = areturn []"
| "storage_keys (index # rest) = abind (storage_key index) (\<lambda>candidateKey.
     abind (storage_keys rest) (\<lambda>keys. areturn (case candidateKey of None \<Rightarrow> keys | Some k \<Rightarrow> k # keys)))"

definition length_check :: "nat repo_act" where
  "length_check r = (case storage_length (storage r) of
     (Inl e, st) \<Rightarrow> (Inl (RawError e), r\<lparr>storage := st\<rparr>)
   | (Inr n, st) \<Rightarrow> (Inr n, r\<lparr>storage := st\<rparr>))"

definition cleanupExpiredOrphans :: "string \<Rightarrow> unit repo_act" where
  "cleanupExpiredOrphans referenceTimestamp = abind aget (\<lambda>r.
     case Date_parse referenceTimestamp of None \<Rightarrow> areturn ()
     | Some reference \<Rightarrow> if \<not> enumerable (storage r) then areturn ()
         else abind length_check (\<lambda>_. storageError
           (abind storage_length (\<lambda>n. abind (storage_keys [0..<n]) (cleanup_keys reference)))))"

definition read :: "js option repo_act" where
  "read = readInternal"

definition note_reset :: "unit repo_act" where
  "note_reset r = (Inr (), r\<lparr>recoveryNotice := True\<rparr>)"

definition matches :: "js \<Rightarrow> DemoAuthMetadata \<Rightarrow> bool" where
  "matches envelope metadata =
     (jget envelope ''plan'' = Some (JStr (plan_string (md_plan metadata))) \<and>
      jget envelope ''source_name'' = Some (JStr (md_name metadata)) \<and>
      jget envelope ''tenant_id'' = Some (JStr (md_tenantId metadata)))"

definition ensure :: "DemoAuthMetadata \<Rightarrow> PlanBaselineFactory option \<Rightarrow> int \<Rightarrow> js repo_act" where
  "ensure metadata baseline now = abind aget (\<lambda>r.
     if md_tenantId metadata \<noteq> tenantId r then athrow (PlainError ''demo_workspace_identity_mismatch'')
     else if md_status metadata = Expired
     then athen remove (athrow (PlainError ''demo_workspace_ended''))
     else athen (cleanupExpiredOrphans (md_serverTime metadata))
       (abind readRaw (\<lambda>raw.
         if falsy raw then save metadata baseline now
         else (case parseEnvelope (tenantId r) (the raw) of
           (None, migrated) \<Rightarrow> athen note_reset (save metadata baseline now)
         | (Some envelope, migrated) \<Rightarrow>
             if \<not> isExpiredOrphan envelope metadata then
               (if matches envelope metadata
                then athen (if migrated then write_envelope envelope else areturn ()) (areturn envelope)
                else athen note_reset (save metadata baseline now))
             else athen remove (save metadata baseline now)))))"

definition updatePlanSpecific :: "(js \<Rightarrow> demo_error + js) \<Rightarrow> int \<Rightarrow> js option repo_act" where
  "updatePlanSpecific updater now = abind readInternal (\<lambda>existing.
     case existing of None \<Rightarrow> areturn None
     | Some envelope \<Rightarrow>
         abind (alift (updater (the (jget envelope ''plan_specific'')))) (\<lambda>plan_specific.
         abind (alift (iso_now now)) (\<lambda>saved_at.
           let updated = spread_set ''saved_at'' (JStr saved_at)
                 (spread_set ''plan_specific'' plan_specific envelope) in
           if \<not> isRecord (Some plan_specific) \<or> hasForbiddenKey plan_specific
           then athrow (PlainError ''invalid_demo_workspace_state'')
           else athen (write_envelope updated) (areturn (Some updated)))))"

definition saveTourState :: "(string \<times> js) list \<Rightarrow> int \<Rightarrow> unit repo_act" where
  "saveTourState patch now = abind readInternal (\<lambda>existing.
     case existing of None \<Rightarrow> areturn ()
     | Some envelope \<Rightarrow> abind (alift (iso_now now)) (\<lambda>saved_at.
         let tour = (case jget envelope ''tour_state'' of Some (JObj kvs) \<Rightarrow> kvs | _ \<Rightarrow> []) in
         write_envelope (spread_set ''saved_at'' (JStr saved_at)
           (spread_set ''tour_state'' (JObj (obj_merge tour patch)) envelope))))"

definition reset :: "DemoAuthMetadata \<Rightarrow> PlanBaselineFactory option \<Rightarrow> int \<Rightarrow> js repo_act" where
  "reset metadata baseline now = abind aget (\<lambda>r. abind readInternal (\<lambda>existing.
     abind (alift (createEnvelope metadata baseline now)) (\<lambda>created.
       let tour = (case existing of None \<Rightarrow> JObj []
             | Some e \<Rightarrow> (case jget e ''tour_state'' of None \<Rightarrow> JObj [] | Some t \<Rightarrow> t));
           envelope = spread_set ''tour_state'' tour created in
       if \<not> isWorkspaceEnvelope envelope (tenantId r)
       then athrow (PlainError ''invalid_demo_workspace_baseline'')
       else athen (write_envelope envelope) (areturn envelope))))"

definition consumeRecoveryNotice :: "bool repo_act" where
  "consumeRecoveryNotice r = (Inr (recoveryNotice r), r\<lparr>recoveryNotice := False\<rparr>)"

definition clear :: "unit repo_act" where
  "clear = remove"

definition clearDemoWorkspace :: "string \<Rightarrow> StorageLike \<Rightarrow> DemoWorkspaceStorageState \<times> StorageLike" where
  "clearDemoWorkspace tid st = (case removeItem (workspaceKey tid) st of
     (Inl e, st') \<Rightarrow> (fault_state e, st') | (Inr _, st') \<Rightarrow> (Available, st'))"

section \<open>What the validators guarantee\<close>

lemma isRecord_iff: "isRecord v \<longleftrightarrow> (\<exists>kvs. v = Some (JObj kvs))"
  by (auto simp: isRecord_def split: option.splits js.splits)

lemma isString_iff: "isString v \<longleftrightarrow> (\<exists>s. v = Some (JStr s))"
  by (auto simp: isString_def split: option.splits js.splits)

lemma isTimestamp_iff: "isTimestamp v \<longleftrightarrow> (\<exists>s t. v = Some (JStr s) \<and> Date_parse s = Some t)"
  by (auto simp: isTimestamp_def split: option.splits js.splits)

lemma jget_spread_set [simp]:
  "isRecord (Some v) \<Longrightarrow> jget (spread_set k x v) j = (if j = k then Some x else jget v j)"
  by (auto simp: isRecord_iff)

lemma isRecord_spread_set [simp]: "isRecord (Some (spread_set k x v))"
  by (cases v) (simp_all add: isRecord_def)

lemma wf_spread_set: "wf_js v \<Longrightarrow> wf_js x \<Longrightarrow> wf_js (spread_set k x v)"
  by (cases v) (auto intro: list_all_obj_set)

lemma wf_jget: "wf_js v \<Longrightarrow> jget v k = Some x \<Longrightarrow> wf_js x"
  by (cases v) (auto simp: list_all_iff dest: map_of_SomeD)

lemma wf_obj_merge:
  "wf_js (JObj a) \<Longrightarrow> list_all (\<lambda>p. wf_js (snd p)) b \<Longrightarrow> wf_js (JObj (obj_merge a b))"
  unfolding obj_merge_def
proof (induction b arbitrary: a)
  case (Cons p b)
  then have "wf_js (JObj (obj_set (fst p) (snd p) a))"
    using wf_spread_set [of "JObj a" "snd p" "fst p"] by simp
  with Cons show ?case by (simp only: foldl_Cons case_prod_beta list.pred_inject)
qed simp

lemma planSpecific_record:
  assumes "isPlanSpecificState v plan"
  shows "\<exists>kvs. v = Some (JObj kvs) \<and> \<not> hasForbiddenKey (JObj kvs)"
proof -
  obtain kvs where v: "v = Some (JObj kvs)"
    using assms by (cases v) (auto simp: isPlanSpecificState_def split: js.split_asm)
  with assms have "\<not> hasForbiddenKey (JObj kvs)"
    unfolding isPlanSpecificState_def Let_def by (simp del: hasForbiddenKey.simps split: if_split_asm)
  with v show ?thesis by blast
qed

lemma service_icons:
  assumes "isPlanSpecificState (Some ps) plan" and "jget ps ''services'' = Some (JArr ss)" and "s \<in> set ss"
  shows "jget s ''icon'' \<noteq> None"
proof -
  obtain kvs where ps: "ps = JObj kvs" using planSpecific_record [OF assms(1)] by auto
  have "list_all isServiceIconValid ss"
    using assms(1,2) unfolding ps isPlanSpecificState_def Let_def proKeys_def
    by (simp del: hasForbiddenKey.simps jget.simps split: if_split_asm)
  with assms(3) show ?thesis
    by (auto simp: list_all_iff isServiceIconValid_def isValidIcon_def split: option.splits)
qed

lemma plan_of_js_Some: "plan_of_js v = Some p \<longleftrightarrow> v = Some (JStr (plan_string p))"
  by (cases p) (auto simp: plan_of_js_def plan_string_def)

lemma plan_of_js_string: "plan_of_js (Some (JStr (plan_string p))) = Some p"
  by (simp add: plan_of_js_Some)

lemma envelope_fields:
  "isWorkspaceEnvelope v tid \<longleftrightarrow>
     isRecord (Some v) \<and> jget v ''schema_version'' = Some (JNum 3) \<and>
     jget v ''tenant_id'' = Some (JStr tid) \<and>
     (\<exists>n. n \<noteq> [] \<and> jget v ''source_name'' = Some (JStr n)) \<and>
     (\<exists>p. jget v ''plan'' = Some (JStr (plan_string p)) \<and> isPlanSpecificState (jget v ''plan_specific'') p) \<and>
     isLifecyclePair (jget v ''activated_at'') (jget v ''expires_at'') \<and>
     positive_integer (jget v ''baseline_version'') \<and>
     isRecord (jget v ''tour_state'') \<and> isTimestamp (jget v ''saved_at'')"
proof -
  have "plan_string p = plan_string q \<longleftrightarrow> p = q" for p q
    by (cases p; cases q) (simp_all add: plan_string_def)
  then show ?thesis
    unfolding isWorkspaceEnvelope_def DEMO_WORKSPACE_SCHEMA_VERSION_def
    by (auto simp: isString_iff plan_of_js_Some plan_of_js_string split: option.split_asm)
qed

lemma migrate_valid: "migrateKnownEnvelope v tid = Some e \<Longrightarrow> isWorkspaceEnvelope e tid"
  by (auto simp: migrateKnownEnvelope_def Let_def split: if_splits option.splits)

text \<open>A valid envelope of the current version is accepted as it is.\<close>

lemma migrate_current: "isWorkspaceEnvelope v tid \<Longrightarrow> migrateKnownEnvelope v tid = Some v"
  by (auto simp: migrateKnownEnvelope_def envelope_fields DEMO_WORKSPACE_SCHEMA_VERSION_def)

lemma parseEnvelope_valid: "parseEnvelope tid raw = (Some e, m) \<Longrightarrow> isWorkspaceEnvelope e tid"
  by (auto simp: parseEnvelope_def split: option.splits dest: migrate_valid)

lemma parseEnvelope_written:
  "isWorkspaceEnvelope e tid \<Longrightarrow> wf_js e \<Longrightarrow> parseEnvelope tid (JSON_stringify e) = (Some e, False)"
  by (auto simp: parseEnvelope_def JSON_parse_stringify migrate_current envelope_fields
      DEMO_WORKSPACE_SCHEMA_VERSION_def)

text \<open>
  The fields of a migrated envelope; and its services, when they are valid: each old one, in its
  order, with all its fields and a \<open>null\<close> icon where it had none.
\<close>

lemma migrate_fields:
  assumes "migrateKnownEnvelope v tid = Some e"
  obtains old new where "jget v ''plan_specific'' = Some old" "jget e ''plan_specific'' = Some new"
    "new = old \<or> new = migrateServiceIcons old"
    "\<forall>k. k \<notin> {''plan_specific'', ''schema_version'', ''baseline_version''} \<longrightarrow> jget e k = jget v k"
    "jget e ''baseline_version'' =
      (if positive_integer (jget v ''baseline_version'') then jget v ''baseline_version'' else Some (JNum 1))"
proof (cases "jget v ''schema_version'' = Some (JNum DEMO_WORKSPACE_SCHEMA_VERSION)")
  case True
  with assms have "e = v" and valid: "isWorkspaceEnvelope v tid"
    by (auto simp: migrateKnownEnvelope_def split: if_splits)
  moreover from valid obtain old where "jget v ''plan_specific'' = Some old"
    by (auto simp: envelope_fields dest: planSpecific_record)
  ultimately show ?thesis
    using that [of old old] by (simp add: envelope_fields)
next
  case False
  with assms obtain ps where ps: "jget v ''plan_specific'' = Some ps" and v: "isRecord (Some v)"
    and e: "e = spread_set ''baseline_version'' (if positive_integer (jget v ''baseline_version'')
              then the (jget v ''baseline_version'') else JNum 1)
              (spread_set ''schema_version'' (JNum DEMO_WORKSPACE_SCHEMA_VERSION)
                (spread_set ''plan_specific'' (migrateServiceIcons ps) v))"
    by (auto simp: migrateKnownEnvelope_def Let_def split: if_split_asm option.split_asm)
  have "positive_integer (jget v ''baseline_version'') \<Longrightarrow>
      Some (the (jget v ''baseline_version'')) = jget v ''baseline_version''"
    by (auto simp: positive_integer_def split: option.splits)
  with ps v show ?thesis
    by (intro that [of ps "migrateServiceIcons ps"]) (auto simp: e)
qed

definition icon_added :: "js \<Rightarrow> js \<Rightarrow> bool" where
  "icon_added s t \<longleftrightarrow> (\<forall>k. jget t k = (if k = ''icon'' \<and> jget s k = None then Some JNull else jget s k))"

lemma icon_added_kept: "jget s ''icon'' \<noteq> None \<Longrightarrow> icon_added s s"
  by (simp add: icon_added_def)

lemma icon_added_migrate: "jget (migrate_icon s) ''icon'' \<noteq> None \<Longrightarrow> icon_added s (migrate_icon s)"
  by (auto simp: icon_added_def migrate_icon_def split: if_splits)

lemma migrated_parts:
  assumes "new = old \<or> new = migrateServiceIcons old" and "isPlanSpecificState (Some new) plan"
  shows "\<forall>k. k \<noteq> ''services'' \<longrightarrow> jget new k = jget old k"
    and "jget old ''services'' = Some (JArr ss) \<Longrightarrow>
      \<exists>ts. jget new ''services'' = Some (JArr ts) \<and> list_all2 icon_added ss ts"
proof -
  note icons = service_icons [OF assms(2)]
  have is_rec: "jget old k = Some x \<Longrightarrow> isRecord (Some old)" for k x
    by (cases old) (auto simp: isRecord_def)
  show "\<forall>k. k \<noteq> ''services'' \<longrightarrow> jget new k = jget old k"
    using assms(1) is_rec by (auto simp: migrateServiceIcons_def split: option.split js.split)
  assume ss: "jget old ''services'' = Some (JArr ss)"
  from assms(1) show "\<exists>ts. jget new ''services'' = Some (JArr ts) \<and> list_all2 icon_added ss ts"
  proof
    assume "new = old"
    with ss icons show ?thesis by (auto simp: list_all2_same intro: icon_added_kept)
  next
    assume new: "new = migrateServiceIcons old"
    with ss have "jget new ''services'' = Some (JArr (map migrate_icon ss))"
      by (simp add: migrateServiceIcons_def is_rec)
    moreover from icons [OF this] have "list_all2 icon_added ss (map migrate_icon ss)"
      by (auto simp: list_all2_map2 list_all2_same intro!: icon_added_migrate)
    ultimately show ?thesis by blast
  qed
qed

lemma wf_migrate_icon: "wf_js s \<Longrightarrow> wf_js (migrate_icon s)"
  by (simp add: migrate_icon_def wf_spread_set)

lemma wf_migrateServiceIcons:
  assumes "wf_js v"
  shows "wf_js (migrateServiceIcons v)"
proof (cases "isArray (jget v ''services'')")
  case True
  then obtain xs where xs: "jget v ''services'' = Some (JArr xs)"
    by (auto simp: isArray_def split: option.splits js.splits)
  with wf_jget [OF assms xs] show ?thesis
    by (simp add: migrateServiceIcons_def) (auto intro!: wf_spread_set assms simp: list_all_iff wf_migrate_icon)
next
  case False
  then have "migrateServiceIcons v = v"
    by (cases "jget v ''services''") (auto simp: migrateServiceIcons_def isArray_def split: js.splits)
  with assms show ?thesis by simp
qed

lemma wf_migrateKnownEnvelope:
  assumes "migrateKnownEnvelope v tid = Some e" and "wf_js v"
  shows "wf_js e"
proof (cases "jget v ''schema_version'' = Some (JNum DEMO_WORKSPACE_SCHEMA_VERSION)")
  case True
  with assms show ?thesis by (auto simp: migrateKnownEnvelope_def split: if_splits)
next
  case False
  with assms(1) obtain ps where ps: "jget v ''plan_specific'' = Some ps"
    and e: "e = spread_set ''baseline_version'' (if positive_integer (jget v ''baseline_version'')
              then the (jget v ''baseline_version'') else JNum 1)
              (spread_set ''schema_version'' (JNum DEMO_WORKSPACE_SCHEMA_VERSION)
                (spread_set ''plan_specific'' (migrateServiceIcons ps) v))"
    by (auto simp: migrateKnownEnvelope_def Let_def split: if_split_asm option.split_asm)
  have "positive_integer (jget v ''baseline_version'') \<Longrightarrow> wf_js (the (jget v ''baseline_version''))"
    by (auto simp: positive_integer_def split: option.splits js.splits)
  with wf_jget [OF assms(2) ps] assms(2) show ?thesis
    unfolding e by (auto intro!: wf_spread_set wf_migrateServiceIcons)
qed

lemma wf_parseEnvelope: "parseEnvelope tid raw = (Some e, m) \<Longrightarrow> wf_js e"
  by (auto simp: parseEnvelope_def split: option.split_asm dest: wf_JSON_parse wf_migrateKnownEnvelope)

lemma JSON_stringify_nonempty [simp]: "JSON_stringify e \<noteq> []"
  using length_stringify_pos [of e] by (auto simp: JSON_stringify_def)

section \<open>What the repository may do to the storage\<close>

text \<open>
  The text of a workspace that carries nothing secret: an envelope of the tenant whose
  \<open>plan_specific\<close> has no forbidden key.
\<close>

definition safe_envelope :: "string \<Rightarrow> js \<Rightarrow> bool" where
  "safe_envelope tid env \<longleftrightarrow> jget env ''tenant_id'' = Some (JStr tid) \<and>
     (\<exists>kvs. jget env ''plan_specific'' = Some (JObj kvs) \<and> \<not> hasForbiddenKey (JObj kvs))"

definition safe_text :: "string \<Rightarrow> string \<Rightarrow> bool" where
  "safe_text tid raw \<longleftrightarrow> (\<exists>env. raw = JSON_stringify env \<and> safe_envelope tid env)"

text \<open>
  Between two moments, the items of other keys are unchanged or were workspaces that are now
  gone and had expired at one of the times \<open>T\<close>, and the item of the tenant is unchanged, gone or safe.
\<close>

definition cleaned :: "int set \<Rightarrow> string \<Rightarrow> string option \<Rightarrow> string option \<Rightarrow> bool" where
  "cleaned T k a b \<longleftrightarrow> b = a \<or> js_startsWith DEMO_WORKSPACE_KEY_PREFIX k \<and> b = None \<and>
     (\<exists>raw reference. a = Some raw \<and> reference \<in> T \<and> expired_text reference raw)"

definition kept_safe :: "string \<Rightarrow> string option \<Rightarrow> string option \<Rightarrow> bool" where
  "kept_safe tid a b \<longleftrightarrow> b = a \<or> b = None \<or> (\<exists>raw. b = Some raw \<and> safe_text tid raw)"

abbreviation item :: "DemoWorkspaceRepository \<Rightarrow> string \<Rightarrow> string option" where
  "item r k \<equiv> map_of (items (storage r)) k"

definition repo_frame :: "int set \<Rightarrow> DemoWorkspaceRepository \<Rightarrow> DemoWorkspaceRepository \<Rightarrow> bool" where
  "repo_frame T r t \<longleftrightarrow> tenantId t = tenantId r \<and>
     (\<forall>k. k \<noteq> repo_key r \<longrightarrow> cleaned T k (item r k) (item t k)) \<and>
     kept_safe (tenantId r) (item r (repo_key r)) (item t (repo_key r))"

lemma cleaned_refl [simp]: "cleaned T k a a"
  by (simp add: cleaned_def)

lemma kept_safe_refl [simp]: "kept_safe tid a a"
  by (simp add: kept_safe_def)

lemma cleaned_kept_safe: "cleaned T k a b \<Longrightarrow> kept_safe tid a b"
  by (auto simp: cleaned_def kept_safe_def)

lemma cleaned_trans: "cleaned T k a b \<Longrightarrow> cleaned T k b c \<Longrightarrow> cleaned T k a c"
  by (auto simp: cleaned_def)

lemma kept_safe_trans: "kept_safe tid a b \<Longrightarrow> kept_safe tid b c \<Longrightarrow> kept_safe tid a c"
  by (auto simp: kept_safe_def)

lemma repo_frame_refl: "reflp (repo_frame T)"
  by (simp add: reflp_def repo_frame_def)

lemma repo_frame_trans: "transp (repo_frame T)"
  unfolding transp_def repo_frame_def by (fastforce intro: cleaned_trans kept_safe_trans)

lemma same_items_frame:
  "tenantId t = tenantId r \<Longrightarrow> items (storage t) = items (storage r) \<Longrightarrow> repo_frame T r t"
  by (simp add: repo_frame_def)

lemma repo_frame_step: "repo_frame T r s \<Longrightarrow> repo_frame T s t \<Longrightarrow> repo_frame T r t"
  using repo_frame_trans by (rule transpD)

abbreviation repo_spec :: "int set \<Rightarrow> string \<Rightarrow> ('a \<Rightarrow> bool) \<Rightarrow> 'a repo_act \<Rightarrow> bool" where
  "repo_spec T tid \<equiv> act_spec (\<lambda>r. tenantId r = tid) (repo_frame T)"

lemmas spec_rules =
  act_spec_bind [OF repo_frame_trans] act_spec_then [OF repo_frame_trans]
  act_spec_get [OF repo_frame_trans] act_spec_return [OF repo_frame_refl]
  act_spec_throw [OF repo_frame_refl] act_spec_lift [OF repo_frame_refl]

lemma storageError_cases:
  assumes "storageError m r = (x, t)"
  obtains e st where "m (storage r) = (Inl e, st)" "x = Inl (StorageError (fault_state e))"
      "t = r\<lparr>storage := st, storageState := fault_state e\<rparr>"
  | a st where "m (storage r) = (Inr a, st)" "x = Inr a" "t = r\<lparr>storage := st\<rparr>"
  using assms by (auto simp: storageError_def split: prod.split_asm sum.split_asm)

lemma readRaw_spec: "repo_spec T tid (\<lambda>_. True) readRaw"
proof (rule act_specI)
  fix r x t
  assume tid: "tenantId r = tid" and run: "readRaw r = (x, t)"
  from run [unfolded readRaw_def] show "tenantId t = tid \<and> repo_frame T r t \<and> (\<forall>a. x = Inr a \<longrightarrow> True)"
    by (cases rule: storageError_cases) (auto simp: tid intro!: same_items_frame dest: getItem_effect)
qed

lemma write_spec:
  assumes "safe_envelope tid env"
  shows "repo_spec T tid (\<lambda>_. True) (write_envelope env)"
proof (rule act_specI)
  fix r x t
  assume tid: "tenantId r = tid" and run: "write_envelope env r = (x, t)"
  from run [unfolded write_envelope_def] show "tenantId t = tid \<and> repo_frame T r t \<and> (\<forall>a. x = Inr a \<longrightarrow> True)"
    using assms
    by (cases rule: storageError_cases)
      (auto simp: tid repo_frame_def kept_safe_def safe_text_def dest!: setItem_effect)
qed

lemma remove_spec: "repo_spec T tid (\<lambda>_. True) remove"
proof (rule act_specI)
  fix r x t
  assume tid: "tenantId r = tid" and run: "remove r = (x, t)"
  from run [unfolded remove_def] show "tenantId t = tid \<and> repo_frame T r t \<and> (\<forall>a. x = Inr a \<longrightarrow> True)"
    by (cases rule: storageError_cases)
      (auto simp: tid repo_frame_def kept_safe_def dest!: removeItem_effect)
qed

lemma expired_text_iff:
  "expired_text reference raw \<longleftrightarrow> (\<exists>parsed expires t. JSON_parse raw = Some parsed \<and>
     jget parsed ''expires_at'' = Some (JStr expires) \<and> Date_parse expires = Some t \<and> t \<le> reference)"
  by (auto simp: expired_text_def isRecord_def isString_iff isTimestamp_iff parse_js_date_def time_le_def
      split: option.splits js.splits elim!: jget.elims)

lemma cleanup_keys_effect:
  assumes "reference \<in> T"
  shows "cleanup_keys reference ks s = (x, t) \<Longrightarrow> cleaned T k (map_of (items s) k) (map_of (items t) k)"
proof (induction ks arbitrary: s)
  case (Cons c ks)
  show ?case
  proof (cases "js_startsWith DEMO_WORKSPACE_KEY_PREFIX c")
    case False
    with Cons show ?thesis by simp
  next
    case True
    obtain y u where g: "getItem c s = (y, u)" by fastforce
    note gu = getItem_effect [OF g]
    show ?thesis
    proof (cases "\<exists>raw. y = Inr (Some raw) \<and> raw \<noteq> [] \<and> expired_text reference raw")
      case False
      with Cons.prems True g have "t = u \<or> cleanup_keys reference ks u = (x, t)"
        by (cases y) (auto simp: abind_def not_falsy_iff split: if_split_asm)
      with gu Cons.IH [of u] show ?thesis by auto
    next
      case hit: True
      then obtain raw where raw: "y = Inr (Some raw)" "raw \<noteq> []" "expired_text reference raw" by blast
      with gu have at: "map_of (items s) c = Some raw" by auto
      obtain z w where rm: "removeItem c u = (z, w)" by fastforce
      have w: "cleaned T k (map_of (items s) k) (map_of (items w) k)"
        using removeItem_effect [OF rm] gu raw(3) at True assms by (cases z) (auto simp: cleaned_def)
      have "t = w \<or> cleanup_keys reference ks w = (x, t)"
        using Cons.prems True g raw rm by (cases z) (auto simp: abind_def athen_def)
      with w Cons.IH [of w] show ?thesis by (auto intro: cleaned_trans)
    qed
  qed
qed simp

lemma storage_length_effect: "storage_length s = (x, t) \<Longrightarrow> items t = items s"
  by (auto simp: storage_length_def abind_def split: prod.splits sum.splits dest: storage_call_items)

lemma storage_key_effect: "storage_key i s = (x, t) \<Longrightarrow> items t = items s"
  by (auto simp: storage_key_def abind_def split: prod.splits sum.splits dest: storage_call_items)

lemma storage_keys_effect: "storage_keys is s = (x, t) \<Longrightarrow> items t = items s"
proof (induction "is" arbitrary: s x)
  case (Cons i "is")
  then show ?case
    by (auto simp: abind_def split: prod.splits sum.splits dest!: storage_key_effect)
qed simp

lemma clean_up_effect:
  assumes "reference \<in> T"
    and "abind storage_length (\<lambda>n. abind (storage_keys [0..<n]) (cleanup_keys reference)) s = (x, t)"
  shows "cleaned T k (map_of (items s) k) (map_of (items t) k)"
  using assms cleanup_keys_effect [OF assms(1)]
  by (fastforce simp: abind_def split: prod.splits sum.splits dest!: storage_length_effect storage_keys_effect)

lemma length_check_spec: "repo_spec T tid (\<lambda>_. True) length_check"
  by (rule act_specI)
    (auto simp: length_check_def split: prod.splits sum.splits dest: storage_length_effect intro!: same_items_frame)

lemma cleanup_spec:
  assumes "\<And>reference. Date_parse time = Some reference \<Longrightarrow> reference \<in> T"
  shows "repo_spec T tid (\<lambda>_. True) (cleanupExpiredOrphans time)"
proof -
  have "repo_spec T tid (\<lambda>_. True) (storageError
      (abind storage_length (\<lambda>n. abind (storage_keys [0..<n]) (cleanup_keys reference))))"
    if "reference \<in> T" for reference
  proof (rule act_specI)
    fix r x t
    assume tid: "tenantId r = tid" and run: "storageError
      (abind storage_length (\<lambda>n. abind (storage_keys [0..<n]) (cleanup_keys reference))) r = (x, t)"
    from run show "tenantId t = tid \<and> repo_frame T r t \<and> (\<forall>a. x = Inr a \<longrightarrow> True)"
      by (cases rule: storageError_cases)
        (auto simp: tid repo_frame_def intro: clean_up_effect [OF that] cleaned_kept_safe)
  qed
  with assms show ?thesis
    unfolding cleanupExpiredOrphans_def by (auto intro!: spec_rules length_check_spec split: option.splits)
qed

lemma valid_envelope_safe: "isWorkspaceEnvelope e tid \<Longrightarrow> safe_envelope tid e"
  by (auto simp: envelope_fields safe_envelope_def dest: planSpecific_record)

lemma note_reset_spec: "repo_spec T tid (\<lambda>_. True) note_reset"
  by (rule act_specI) (auto simp: note_reset_def intro: same_items_frame)

lemma readInternal_spec: "repo_spec T tid (\<lambda>v. \<forall>e. v = Some e \<longrightarrow> isWorkspaceEnvelope e tid \<and> wf_js e) readInternal"
  unfolding readInternal_def
  by (auto intro!: spec_rules readRaw_spec write_spec valid_envelope_safe
      split: prod.splits option.splits dest: parseEnvelope_valid wf_parseEnvelope)

lemma save_spec: "repo_spec T tid (\<lambda>e. isWorkspaceEnvelope e tid) (save metadata baseline now)"
  unfolding save_def by (auto intro!: spec_rules write_spec valid_envelope_safe intro: spec_rules(6))

lemma ensure_spec:
  assumes "\<And>reference. md_tenantId metadata = tid \<Longrightarrow> Date_parse (md_serverTime metadata) = Some reference \<Longrightarrow>
      reference \<in> T"
  shows "repo_spec T tid (\<lambda>e. isWorkspaceEnvelope e tid) (ensure metadata baseline now)"
  unfolding ensure_def using assms
  by (auto intro!: spec_rules(2-6) act_spec_bind [OF repo_frame_trans readRaw_spec]
      remove_spec cleanup_spec note_reset_spec save_spec write_spec valid_envelope_safe split: prod.splits option.splits
      dest!: parseEnvelope_valid)

lemma update_safe:
  assumes "isWorkspaceEnvelope e tid" and "isRecord (Some ps)" and "\<not> hasForbiddenKey ps"
  shows "safe_envelope tid (spread_set ''saved_at'' x (spread_set ''plan_specific'' ps e))"
  using assms unfolding envelope_fields safe_envelope_def isRecord_iff [of "Some ps"]
  by (auto simp del: hasForbiddenKey.simps)

lemma tour_safe:
  assumes "isWorkspaceEnvelope e tid"
  shows "safe_envelope tid (spread_set ''saved_at'' x (spread_set ''tour_state'' y e))"
  using valid_envelope_safe [OF assms] assms
  by (simp add: safe_envelope_def envelope_fields del: hasForbiddenKey.simps)

lemma updatePlanSpecific_spec:
  "repo_spec T tid (\<lambda>v. \<forall>e. v = Some e \<longrightarrow> safe_envelope tid e) (updatePlanSpecific updater now)"
  unfolding updatePlanSpecific_def Let_def
proof (rule act_spec_bind [OF repo_frame_trans readInternal_spec])
  fix v :: "js option"
  assume "\<forall>e. v = Some e \<longrightarrow> isWorkspaceEnvelope e tid \<and> wf_js e"
  then show "repo_spec T tid (\<lambda>v. \<forall>e. v = Some e \<longrightarrow> safe_envelope tid e)
    (case v of None \<Rightarrow> areturn None
     | Some envelope \<Rightarrow>
         abind (alift (updater (the (jget envelope ''plan_specific'')))) (\<lambda>plan_specific.
         abind (alift (iso_now now)) (\<lambda>saved_at.
           if \<not> isRecord (Some plan_specific) \<or> hasForbiddenKey plan_specific
           then athrow (PlainError ''invalid_demo_workspace_state'')
           else athen (write_envelope (spread_set ''saved_at'' (JStr saved_at)
                 (spread_set ''plan_specific'' plan_specific envelope)))
             (areturn (Some (spread_set ''saved_at'' (JStr saved_at)
                 (spread_set ''plan_specific'' plan_specific envelope)))))))"
    by (cases v) (auto intro!: spec_rules write_spec update_safe)
qed

lemma saveTourState_spec: "repo_spec T tid (\<lambda>_. True) (saveTourState patch now)"
  unfolding saveTourState_def Let_def
  by (rule act_spec_bind [OF repo_frame_trans readInternal_spec])
    (auto intro!: spec_rules write_spec tour_safe split: option.split)

lemma reset_spec: "repo_spec T tid (\<lambda>e. isWorkspaceEnvelope e tid) (reset metadata baseline now)"
  unfolding reset_def Let_def
  by (rule spec_rules, rule act_spec_bind [OF repo_frame_trans readInternal_spec])
    (auto intro!: spec_rules write_spec valid_envelope_safe)

lemma consumeRecoveryNotice_spec: "repo_spec T tid (\<lambda>_. True) consumeRecoveryNotice"
  by (rule act_specI) (auto simp: consumeRecoveryNotice_def intro: same_items_frame)

text \<open>One call of a method of the repository.\<close>

inductive repo_step :: "DemoWorkspaceRepository \<Rightarrow> DemoWorkspaceRepository \<Rightarrow> bool" where
  step_read: "read r = (x, t) \<Longrightarrow> repo_step r t"
| step_ensure: "ensure metadata baseline now r = (x, t) \<Longrightarrow> repo_step r t"
| step_update: "updatePlanSpecific updater now r = (x, t) \<Longrightarrow> repo_step r t"
| step_tour: "saveTourState patch now r = (x, t) \<Longrightarrow> repo_step r t"
| step_reset: "reset metadata baseline now r = (x, t) \<Longrightarrow> repo_step r t"
| step_consume: "consumeRecoveryNotice r = (x, t) \<Longrightarrow> repo_step r t"
| step_clear: "clear r = (x, t) \<Longrightarrow> repo_step r t"

lemma method_frames:
  "readInternal r = (x1, t) \<Longrightarrow> repo_frame T r t"
  "updatePlanSpecific updater now r = (x2, t) \<Longrightarrow> repo_frame T r t"
  "saveTourState patch now r = (x3, t) \<Longrightarrow> repo_frame T r t"
  "reset metadata baseline now r = (x4, t) \<Longrightarrow> repo_frame T r t"
  "consumeRecoveryNotice r = (x5, t) \<Longrightarrow> repo_frame T r t"
  "remove r = (x6, t) \<Longrightarrow> repo_frame T r t"
  by (fact act_specD(2) [OF readInternal_spec refl] act_specD(2) [OF updatePlanSpecific_spec refl]
      act_specD(2) [OF saveTourState_spec refl] act_specD(2) [OF reset_spec refl]
      act_specD(2) [OF consumeRecoveryNotice_spec refl] act_specD(2) [OF remove_spec refl])+

lemma ensure_frame:
  assumes "ensure metadata baseline now r = (x, t)"
    and "\<And>reference. md_tenantId metadata = tenantId r \<Longrightarrow> Date_parse (md_serverTime metadata) = Some reference \<Longrightarrow>
      reference \<in> T"
  shows "repo_frame T r t"
  using act_specD(2) [OF ensure_spec refl assms(1)] assms(2) by blast

lemma ensure_valid:
  assumes "ensure metadata baseline now r = (Inr e, t)"
  shows "isWorkspaceEnvelope e (tenantId r)"
proof -
  have "repo_spec UNIV (tenantId r) (\<lambda>e. isWorkspaceEnvelope e (tenantId r)) (ensure metadata baseline now)"
    by (rule ensure_spec) simp
  from act_specD(3) [OF this refl assms refl] show ?thesis .
qed

lemma repo_step_frame: "repo_step r t \<Longrightarrow> repo_frame UNIV r t"
  by (cases rule: repo_step.cases)
    (auto simp: read_def clear_def intro: ensure_frame [where T = UNIV] method_frames)

text \<open>
  A run of calls, with the metadata of its calls of \<open>ensure\<close> in order: only these bring a
  server time to the clean-up.
\<close>

inductive plain_call :: "DemoWorkspaceRepository \<Rightarrow> DemoWorkspaceRepository \<Rightarrow> bool" where
  plain_read: "read r = (x, t) \<Longrightarrow> plain_call r t"
| plain_update: "updatePlanSpecific updater now r = (x, t) \<Longrightarrow> plain_call r t"
| plain_tour: "saveTourState patch now r = (x, t) \<Longrightarrow> plain_call r t"
| plain_reset: "reset metadata baseline now r = (x, t) \<Longrightarrow> plain_call r t"
| plain_consume: "consumeRecoveryNotice r = (x, t) \<Longrightarrow> plain_call r t"
| plain_clear: "clear r = (x, t) \<Longrightarrow> plain_call r t"

inductive repo_run :: "DemoAuthMetadata list \<Rightarrow> DemoWorkspaceRepository \<Rightarrow> DemoWorkspaceRepository \<Rightarrow> bool" where
  run_start: "repo_run [] r r"
| run_ensure: "repo_run ms r s \<Longrightarrow> ensure metadata baseline now s = (x, t) \<Longrightarrow> repo_run (ms @ [metadata]) r t"
| run_plain: "repo_run ms r s \<Longrightarrow> plain_call s t \<Longrightarrow> repo_run ms r t"

lemma plain_call_frame: "plain_call r t \<Longrightarrow> repo_frame T r t"
  by (cases rule: plain_call.cases) (auto simp: read_def clear_def intro: method_frames)

lemma repo_frame_tenant: "repo_frame T r t \<Longrightarrow> tenantId t = tenantId r"
  by (simp add: repo_frame_def)

lemma repo_run_frame:
  assumes "repo_run ms r t"
    and "\<And>m reference. m \<in> set ms \<Longrightarrow> md_tenantId m = tenantId r \<Longrightarrow>
      Date_parse (md_serverTime m) = Some reference \<Longrightarrow> reference \<in> T"
  shows "repo_frame T r t"
  using assms
proof (induction rule: repo_run.induct)
  case (run_start r)
  show ?case using repo_frame_refl by (rule reflpD)
next
  case (run_ensure ms r s metadata baseline now x t)
  have "repo_frame T r s" by (rule run_ensure.IH) (auto intro: run_ensure.prems)
  moreover from this have "repo_frame T s t"
    using run_ensure.prems by (intro ensure_frame [OF run_ensure.hyps(2)]) (auto simp: repo_frame_tenant)
  ultimately show ?case by (rule repo_frame_step)
next
  case (run_plain ms r s t)
  then show ?case using plain_call_frame repo_frame_step by blast
qed

lemma created_repo:
  "tenantId (createDemoWorkspaceRepository tid st) = tid"
  "items (storage (createDemoWorkspaceRepository tid st)) = items st"
  by (auto simp: createDemoWorkspaceRepository_def split: prod.splits sum.splits dest: getItem_effect)

lemma repo_steps_frame: "repo_step\<^sup>*\<^sup>* r t \<Longrightarrow> repo_frame UNIV r t"
proof (induction rule: rtranclp_induct)
  case base
  show ?case using repo_frame_refl by (rule reflpD)
next
  case (step y z)
  then show ?case using repo_step_frame repo_frame_step by blast
qed

section \<open>The methods on a storage that works\<close>

abbreviation repo_ready :: "DemoWorkspaceRepository \<Rightarrow> bool" where
  "repo_ready r \<equiv> working (storage r) \<and> distinct (map fst (items (storage r)))"

definition put_item :: "string \<Rightarrow> string \<Rightarrow> DemoWorkspaceRepository \<Rightarrow> DemoWorkspaceRepository" where
  "put_item k v r = r\<lparr>storage := (storage r)\<lparr>items := obj_set k v (items (storage r))\<rparr>\<rparr>"

definition drop_item :: "string \<Rightarrow> DemoWorkspaceRepository \<Rightarrow> DemoWorkspaceRepository" where
  "drop_item k r = r\<lparr>storage := (storage r)\<lparr>items := del_item k (items (storage r))\<rparr>\<rparr>"

lemma put_item_facts [simp]:
  "tenantId (put_item k v r) = tenantId r" "item (put_item k v r) j = (if j = k then Some v else item r j)"
  "working (storage (put_item k v r)) = working (storage r)"
  "enumerable (storage (put_item k v r)) = enumerable (storage r)"
  "distinct (map fst (items (storage r))) \<Longrightarrow> distinct (map fst (items (storage (put_item k v r))))"
  by (simp_all add: put_item_def)

lemma drop_item_facts [simp]:
  "tenantId (drop_item k r) = tenantId r" "item (drop_item k r) j = (if j = k then None else item r j)"
  "working (storage (drop_item k r)) = working (storage r)"
  "enumerable (storage (drop_item k r)) = enumerable (storage r)"
  "distinct (map fst (items (storage r))) \<Longrightarrow> distinct (map fst (items (storage (drop_item k r))))"
  by (simp_all add: drop_item_def)

lemma working_repo [repo_simps]:
  assumes "working (storage r)"
  shows "readRaw r = (Inr (item r (repo_key r)), r)"
    and "write_envelope e r = (Inr (), put_item (repo_key r) (JSON_stringify e) r)"
    and "remove r = (Inr (), drop_item (repo_key r) r)"
  using assms
  by (simp_all add: readRaw_def write_envelope_def remove_def storageError_def repo_simps
      put_item_def drop_item_def)

lemma abind_aget [repo_simps]: "abind aget f r = f r r"
  by (simp add: abind_def aget_def)

lemma note_reset_eq [repo_simps]: "athen note_reset m r = m (r\<lparr>recoveryNotice := True\<rparr>)"
  by (simp add: athen_def abind_def note_reset_def)

text \<open>An expired workspace item, and the storage without those among the given keys.\<close>

definition dead_item :: "int \<Rightarrow> string \<times> string \<Rightarrow> bool" where
  "dead_item reference p \<longleftrightarrow> js_startsWith DEMO_WORKSPACE_KEY_PREFIX (fst p) \<and> snd p \<noteq> [] \<and>
     expired_text reference (snd p)"

definition without_dead :: "int \<Rightarrow> string list \<Rightarrow> StorageLike \<Rightarrow> StorageLike" where
  "without_dead reference ks s =
     s\<lparr>items := filter (\<lambda>p. \<not> (fst p \<in> set ks \<and> dead_item reference p)) (items s)\<rparr>"

lemma map_of_filter_distinct:
  "distinct (map fst kvs) \<Longrightarrow>
     map_of (filter P kvs) k = (case map_of kvs k of None \<Rightarrow> None | Some v \<Rightarrow> if P (k, v) then Some v else None)"
  by (induction kvs) (auto simp: map_of_eq_None_iff image_iff split: option.splits)

lemma del_item_dead:
  assumes "distinct (map fst kvs)" and "map_of kvs c = Some raw" and "dead_item reference (c, raw)"
  shows "del_item c kvs = filter (\<lambda>p. \<not> (fst p = c \<and> dead_item reference p)) kvs"
proof -
  have "p \<in> set kvs \<Longrightarrow> fst p = c \<Longrightarrow> p = (c, raw)" for p
    using assms(1,2) by (metis map_of_eq_Some_iff option.inject prod.collapse)
  with assms(3) show ?thesis
    unfolding del_item_def by (intro filter_cong) auto
qed

lemma items_filter_cong:
  "(\<And>p. p \<in> set (items s) \<Longrightarrow> P p = Q p) \<Longrightarrow> s\<lparr>items := filter P (items s)\<rparr> = s\<lparr>items := filter Q (items s)\<rparr>"
  by (simp cong: filter_cong)

lemma without_dead_Cons:
  assumes "distinct (map fst (items s))"
  shows "without_dead reference (c # ks) s =
    without_dead reference ks
      (case map_of (items s) c of None \<Rightarrow> s
       | Some raw \<Rightarrow> if dead_item reference (c, raw) then s\<lparr>items := del_item c (items s)\<rparr> else s)"
proof (cases "\<exists>raw. map_of (items s) c = Some raw \<and> dead_item reference (c, raw)")
  case True
  then show ?thesis
    using del_item_dead [OF assms] by (auto simp: without_dead_def filter_filter intro!: items_filter_cong)
next
  case False
  have keep: "p \<in> set (items s) \<Longrightarrow> fst p = c \<Longrightarrow> \<not> dead_item reference p" for p
    using assms False by (cases p) (auto simp: map_of_eq_Some_iff)
  have "(case map_of (items s) c of None \<Rightarrow> s
       | Some raw \<Rightarrow> if dead_item reference (c, raw) then s\<lparr>items := del_item c (items s)\<rparr> else s) = s"
    using False by (auto split: option.splits)
  with keep show ?thesis
    unfolding without_dead_def by (auto intro!: items_filter_cong)
qed

lemma cleanup_keys_working:
  assumes "working s" and "distinct (map fst (items s))"
  shows "cleanup_keys reference ks s = (Inr (), without_dead reference ks s)"
  using assms
proof (induction ks arbitrary: s)
  case Nil
  then show ?case by (simp add: areturn_def without_dead_def)
next
  case (Cons c ks)
  show ?case
  proof (cases "map_of (items s) c")
    case None
    with Cons show ?thesis
      by (auto simp: without_dead_Cons abind_def repo_simps)
  next
    case (Some raw)
    with Cons show ?thesis
      by (auto simp: without_dead_Cons abind_def athen_def repo_simps dead_item_def)
  qed
qed

lemma storage_keys_working:
  "working s \<Longrightarrow> \<forall>i \<in> set is. i < length (items s) \<Longrightarrow>
     storage_keys is s = (Inr (map (\<lambda>i. fst (items s ! i)) is), s)"
  by (induction "is")
    (auto simp: storage_key_def storage_call_def abind_def areturn_def working_def)

lemma clean_up_working:
  assumes "working s" and "distinct (map fst (items s))"
  shows "abind storage_length (\<lambda>n. abind (storage_keys [0..<n]) (cleanup_keys reference)) s =
    (Inr (), without_dead reference (map fst (items s)) s)"
proof -
  have "map (\<lambda>i. fst (items s ! i)) [0..<length (items s)] = map fst (items s)"
    by (rule nth_equalityI) auto
  with assms(1) have "storage_keys [0..<length (items s)] s = (Inr (map fst (items s)), s)"
    by (simp add: storage_keys_working)
  then show ?thesis
    using assms by (simp add: abind_def storage_length_def storage_call_def working_def cleanup_keys_working)
qed

lemma length_check_working: "working (storage r) \<Longrightarrow> length_check r = (Inr (length (items (storage r))), r)"
  by (simp add: length_check_def storage_length_def storage_call_def abind_def working_def)

lemma cleanup_working [repo_simps]:
  assumes "repo_ready r"
  shows "cleanupExpiredOrphans time r = (Inr (),
    case Date_parse time of None \<Rightarrow> r
    | Some reference \<Rightarrow> if enumerable (storage r)
        then r\<lparr>storage := (storage r)\<lparr>items := filter (\<lambda>p. \<not> dead_item reference p) (items (storage r))\<rparr>\<rparr>
        else r)"
proof -
  have "without_dead reference (map fst (items s)) s =
      s\<lparr>items := filter (\<lambda>p. \<not> dead_item reference p) (items s)\<rparr>" for reference s
    by (auto simp: without_dead_def intro!: items_filter_cong)
  with assms show ?thesis
    by (auto simp: cleanupExpiredOrphans_def repo_simps storageError_def clean_up_working areturn_def
        abind_run [where m = length_check, OF length_check_working] split: option.splits)
qed

section \<open>Ensuring a workspace\<close>

text \<open>A factory whose values are JavaScript values: no object has a key twice.\<close>

definition wf_baseline :: "PlanBaselineFactory option \<Rightarrow> bool" where
  "wf_baseline baseline \<longleftrightarrow> (\<forall>b p m x y n. baseline = Some b \<longrightarrow> b p m = Inr (x, y, n) \<longrightarrow> wf_js x \<and> wf_js y)"

lemma wf_baselineD: "wf_baseline baseline \<Longrightarrow> baseline = Some b \<Longrightarrow> b p m = Inr (x, y, n) \<Longrightarrow> wf_js x \<and> wf_js y"
  unfolding wf_baseline_def by blast

text \<open>The storage holds the envelope \<open>e\<close> in its current form.\<close>

definition holds_envelope :: "js \<Rightarrow> DemoWorkspaceRepository \<Rightarrow> bool" where
  "holds_envelope e r \<longleftrightarrow> (\<exists>raw. item r (repo_key r) = Some raw \<and> raw \<noteq> [] \<and>
     parseEnvelope (tenantId r) raw = (Some e, False))"

lemma holds_written:
  "isWorkspaceEnvelope e (tenantId r) \<Longrightarrow> wf_js e \<Longrightarrow>
     holds_envelope e (put_item (repo_key r) (JSON_stringify e) r)"
  by (simp add: holds_envelope_def parseEnvelope_written)

lemma createEnvelope_fields:
  assumes "createEnvelope metadata baseline now = Inr e"
  shows "isRecord (Some e)" and "matches e metadata" and "wf_baseline baseline \<Longrightarrow> wf_js e"
    and "jget e ''expires_at'' = Some (timestampOrNull (md_expiresAt metadata))"
proof -
  obtain ps ts v sa where d: "(case baseline of Some b \<Rightarrow> b (md_plan metadata) metadata
        | None \<Rightarrow> Inr (JObj [], JObj [], 1)) = Inr (ps, ts, v)"
    and e: "e = JObj [(''schema_version'', JNum DEMO_WORKSPACE_SCHEMA_VERSION),
       (''tenant_id'', JStr (md_tenantId metadata)), (''source_name'', JStr (md_name metadata)),
       (''plan'', JStr (plan_string (md_plan metadata))),
       (''activated_at'', timestampOrNull (md_activatedAt metadata)),
       (''expires_at'', timestampOrNull (md_expiresAt metadata)),
       (''baseline_version'', JNum v), (''plan_specific'', ps), (''tour_state'', ts), (''saved_at'', JStr sa)]"
    using assms by (auto simp: createEnvelope_def ebind_eq_Inr)
  have wf_time: "wf_js (timestampOrNull x)" for x
    by (simp add: timestampOrNull_def split: option.split)
  show "wf_js e" if "wf_baseline baseline"
  proof -
    have "wf_js ps" and "wf_js ts"
      using d wf_baselineD [OF that, of _ "md_plan metadata" metadata ps ts v] by (cases baseline; auto)+
    then show ?thesis by (simp add: e wf_time)
  qed
  show "isRecord (Some e)" and "matches e metadata"
    and "jget e ''expires_at'' = Some (timestampOrNull (md_expiresAt metadata))"
    by (simp_all add: e isRecord_def matches_def)
qed

lemma save_result:
  assumes "working (storage r)" and "save metadata baseline now r = (Inr e, t)"
  shows "isWorkspaceEnvelope e (tenantId r)" and "createEnvelope metadata baseline now = Inr e"
    and "t = put_item (repo_key r) (JSON_stringify e) r"
  using assms
  by (auto simp: save_def repo_simps athen_def abind_eq_Inr split: if_split_asm)

lemma save_holds:
  assumes "working (storage r)" and "wf_baseline baseline" and "save metadata baseline now r = (Inr e, t)"
  shows "holds_envelope e t" and "matches e metadata"
  using save_result [OF assms(1,3)] createEnvelope_fields [of metadata baseline now e] assms(2)
  by (simp_all add: holds_written)

lemma parse_current:
  assumes "parseEnvelope tid raw = (Some e, False)"
  shows "JSON_parse raw = Some e"
  using assms
  by (auto simp: parseEnvelope_def migrateKnownEnvelope_def split: option.split_asm if_split_asm)

text \<open>After the clean-up, a workspace of the tenant that is still there has not expired.\<close>

lemma current_not_dead:
  assumes "parseEnvelope tid raw = (Some e, False)" and "\<not> isExpiredOrphan e metadata"
    and "Date_parse (md_serverTime metadata) = Some reference"
  shows "\<not> dead_item reference (k, raw)"
  using parse_current [OF assms(1)] assms(2,3)
  by (auto simp: dead_item_def expired_text_def isExpiredOrphan_def)

definition cleaned_up :: "DemoAuthMetadata \<Rightarrow> DemoWorkspaceRepository \<Rightarrow> DemoWorkspaceRepository" where
  "cleaned_up metadata r = (case Date_parse (md_serverTime metadata) of None \<Rightarrow> r
    | Some reference \<Rightarrow> if enumerable (storage r)
        then r\<lparr>storage := (storage r)\<lparr>items := filter (\<lambda>p. \<not> dead_item reference p) (items (storage r))\<rparr>\<rparr>
        else r)"

lemma cleaned_up_facts [simp]:
  "tenantId (cleaned_up metadata r) = tenantId r" "repo_ready r \<Longrightarrow> repo_ready (cleaned_up metadata r)"
  "enumerable (storage (cleaned_up metadata r)) = enumerable (storage r)"
  by (auto simp: cleaned_up_def distinct_map_filter split: option.split)

definition ensure_after :: "DemoAuthMetadata \<Rightarrow> PlanBaselineFactory option \<Rightarrow> int \<Rightarrow> js repo_act" where
  "ensure_after metadata baseline now r = (let raw = item r (repo_key r) in
     if falsy raw then save metadata baseline now r
     else (case parseEnvelope (tenantId r) (the raw) of
         (None, migrated) \<Rightarrow> save metadata baseline now (r\<lparr>recoveryNotice := True\<rparr>)
       | (Some envelope, migrated) \<Rightarrow>
           if \<not> isExpiredOrphan envelope metadata then
             (if matches envelope metadata
              then (Inr envelope, if migrated then put_item (repo_key r) (JSON_stringify envelope) r else r)
              else save metadata baseline now (r\<lparr>recoveryNotice := True\<rparr>))
           else save metadata baseline now (drop_item (repo_key r) r)))"

lemma ensure_working:
  assumes "repo_ready r" and "md_tenantId metadata = tenantId r" and "md_status metadata \<noteq> Expired"
  shows "ensure metadata baseline now r = ensure_after metadata baseline now (cleaned_up metadata r)"
proof -
  define r' where "r' = cleaned_up metadata r"
  have r': "working (storage r')" "tenantId r' = tenantId r"
    using assms(1) by (simp_all add: r'_def)
  have "cleanupExpiredOrphans (md_serverTime metadata) r = (Inr (), r')"
    unfolding r'_def cleaned_up_def by (rule cleanup_working [OF assms(1)])
  then have "ensure metadata baseline now r = abind readRaw (\<lambda>raw.
         if falsy raw then save metadata baseline now
         else (case parseEnvelope (tenantId r) (the raw) of
           (None, migrated) \<Rightarrow> athen note_reset (save metadata baseline now)
         | (Some envelope, migrated) \<Rightarrow>
             if \<not> isExpiredOrphan envelope metadata then
               (if matches envelope metadata
                then athen (if migrated then write_envelope envelope else areturn ()) (areturn envelope)
                else athen note_reset (save metadata baseline now))
             else athen remove (save metadata baseline now))) r'"
    using assms(2,3) unfolding ensure_def abind_aget athen_def [of "cleanupExpiredOrphans (md_serverTime metadata)"]
    by (simp add: abind_run)
  also have "\<dots> = ensure_after metadata baseline now r'"
    unfolding abind_run [where m = readRaw, OF working_repo(1) [OF r'(1)]] ensure_after_def Let_def r'(2) [symmetric]
    by (cases "parseEnvelope (tenantId r') (the (item r' (repo_key r')))"; cases "fst (parseEnvelope (tenantId r') (the (item r' (repo_key r'))))")
      (simp_all add: note_reset_def athen_def abind_def working_repo [OF r'(1)] areturn_def)
  finally have "ensure metadata baseline now r = ensure_after metadata baseline now r'" .
  then show ?thesis by (simp add: r'_def)
qed

lemma ensure_guards:
  assumes "ensure metadata baseline now r = (Inr e, t)"
  shows "md_tenantId metadata = tenantId r" and "md_status metadata \<noteq> Expired"
proof -
  show "md_tenantId metadata = tenantId r"
    using assms by (auto simp: ensure_def repo_simps split: if_split_asm)
  then show "md_status metadata \<noteq> Expired"
    using assms by (auto simp: ensure_def repo_simps athen_def abind_eq_Inr)
qed

text \<open>How the items of two repositories compare apart from the tenant's own.\<close>

definition same_others :: "DemoWorkspaceRepository \<Rightarrow> DemoWorkspaceRepository \<Rightarrow> bool" where
  "same_others r t \<longleftrightarrow> tenantId t = tenantId r \<and> enumerable (storage t) = enumerable (storage r) \<and>
     (repo_ready r \<longrightarrow> repo_ready t) \<and>
     (\<forall>p \<in> set (items (storage t)). fst p \<noteq> repo_key r \<longrightarrow> p \<in> set (items (storage r)))"

lemma same_others_refl [simp]: "same_others r r"
  by (simp add: same_others_def)

lemma same_others_put: "same_others r t \<Longrightarrow> same_others r (put_item (repo_key t) v t)"
  by (auto simp: same_others_def put_item_def dest: in_set_obj_setD)

lemma same_others_edit:
  "same_others r (drop_item (repo_key r) r)" "same_others r (r\<lparr>recoveryNotice := b\<rparr>)"
  by (simp_all add: same_others_def drop_item_def)

lemma save_from:
  assumes "same_others r r'" and "repo_ready r" and "wf_baseline baseline"
    and "save metadata baseline now r' = (Inr e, t)"
  shows "same_others r t \<and> holds_envelope e t \<and> matches e metadata"
proof -
  have "working (storage r')" using assms(1,2) by (simp add: same_others_def)
  from save_holds [OF this assms(3,4)] save_result(3) [OF this assms(4)] assms(1) show ?thesis
    by (simp add: same_others_put)
qed

lemma ensure_after_result:
  assumes "repo_ready r" and "wf_baseline baseline"
    and "ensure_after metadata baseline now r = (Inr e, t)"
  shows "same_others r t \<and> holds_envelope e t \<and> matches e metadata"
proof (cases "falsy (item r (repo_key r))")
  case True
  with assms have "save metadata baseline now r = (Inr e, t)" by (simp add: ensure_after_def)
  with save_from [OF same_others_refl assms(1,2)] show ?thesis by blast
next
  case False
  then obtain raw where raw: "item r (repo_key r) = Some raw" "raw \<noteq> []" by (auto simp: not_falsy_iff)
  obtain env m where pe: "parseEnvelope (tenantId r) raw = (env, m)" by fastforce
  have saved: "save metadata baseline now r' = (Inr e, t) \<Longrightarrow> same_others r r' \<Longrightarrow> ?thesis" for r'
    using save_from assms(1,2) by blast
  show ?thesis
  proof (cases "\<exists>x. env = Some x \<and> \<not> isExpiredOrphan x metadata \<and> matches x metadata")
    case True
    then obtain x where x: "env = Some x" "\<not> isExpiredOrphan x metadata" "matches x metadata" by blast
    with assms(3) raw pe have e: "e = x" and t: "t = (if m then put_item (repo_key r) (JSON_stringify x) r else r)"
      by (auto simp: ensure_after_def)
    have "isWorkspaceEnvelope x (tenantId r)" and "wf_js x"
      using pe x(1) by (auto dest: parseEnvelope_valid wf_parseEnvelope)
    then show ?thesis
      using raw pe x t e by (auto simp: holds_written same_others_put) (simp add: holds_envelope_def)
  next
    case False
    then obtain r' where "save metadata baseline now r' = (Inr e, t)" and "same_others r r'"
      using assms(3) raw pe
      by (cases env) (auto simp: ensure_after_def same_others_edit split: if_split_asm)
    then show ?thesis by (rule saved)
  qed
qed

lemma ensure_result:
  assumes "repo_ready r" and "wf_baseline baseline" and "ensure metadata baseline now r = (Inr e, t)"
  shows "same_others (cleaned_up metadata r) t \<and> holds_envelope e t \<and> matches e metadata"
  using ensure_after_result [of "cleaned_up metadata r" baseline metadata now e t] assms
    ensure_guards [OF assms(3)] ensure_working [OF assms(1)]
  by simp

text \<open>Nothing is left to clean up once the tenant's own item is current.\<close>

lemma cleaned_up_settled:
  assumes "same_others (cleaned_up metadata r) t" and "holds_envelope e t" and "repo_ready t"
    and "\<not> isExpiredOrphan e metadata"
  shows "cleaned_up metadata t = t"
proof (cases "Date_parse (md_serverTime metadata)")
  case (Some reference)
  obtain raw where raw: "item t (repo_key t) = Some raw" "parseEnvelope (tenantId t) raw = (Some e, False)"
    using assms(2) by (auto simp: holds_envelope_def)
  have alive: "\<not> dead_item reference p" if "p \<in> set (items (storage t))" "enumerable (storage t)" for p
  proof (cases "fst p = repo_key t")
    case True
    with that(1) raw(1) assms(3) have "snd p = raw"
      by (metis map_of_eq_Some_iff option.inject prod.collapse)
    with current_not_dead [OF raw(2) assms(4) Some, of "fst p"] show ?thesis by (simp add: dead_item_def)
  next
    case False
    with assms(1) that have "p \<in> set (items (storage (cleaned_up metadata r)))" "enumerable (storage r)"
      by (auto simp: same_others_def)
    then show ?thesis by (simp add: cleaned_up_def Some)
  qed
  then show ?thesis by (auto simp: cleaned_up_def Some cong: filter_cong)
qed (simp add: cleaned_up_def)

section \<open>Reading back, and storage failures\<close>

lemma readInternal_holds:
  assumes "working (storage r)" and "holds_envelope e r"
  shows "readInternal r = (Inr (Some e), r)"
proof -
  obtain raw where raw: "item r (repo_key r) = Some raw" "raw \<noteq> []" "parseEnvelope (tenantId r) raw = (Some e, False)"
    using assms(2) by (auto simp: holds_envelope_def)
  show ?thesis
    unfolding readInternal_def abind_aget abind_run [where m = readRaw, OF working_repo(1) [OF assms(1)]]
    by (simp add: raw areturn_def)
qed

lemma iso_now_timestamp: "iso_now now = Inr s \<Longrightarrow> isTimestamp (Some (JStr s))"
  by (auto simp: iso_now_def isTimestamp_def Date_parse_toISOString split: option.splits)

lemma holds_valid: "holds_envelope e r \<Longrightarrow> isWorkspaceEnvelope e (tenantId r) \<and> wf_js e"
  by (auto simp: holds_envelope_def dest: parseEnvelope_valid wf_parseEnvelope)

lemma update_valid:
  assumes "isWorkspaceEnvelope e tid" and "jget e ''plan'' = Some (JStr (plan_string plan))"
    and "isPlanSpecificState (Some ps) plan" and "isTimestamp (Some (JStr sa))"
  shows "isWorkspaceEnvelope (spread_set ''saved_at'' (JStr sa) (spread_set ''plan_specific'' ps e)) tid"
  using assms unfolding envelope_fields by auto

text \<open>The state of the storage that is reported agrees with the storage error thrown.\<close>

definition faithful_errors :: "'a repo_act \<Rightarrow> bool" where
  "faithful_errors m \<longleftrightarrow> (\<forall>r s t. m r = (Inl (StorageError s), t) \<longrightarrow> storageState t = s \<and> s \<noteq> Available)"

lemma faithful_errorsD: "faithful_errors m \<Longrightarrow> m r = (Inl (StorageError s), t) \<Longrightarrow> storageState t = s \<and> s \<noteq> Available"
  unfolding faithful_errors_def by blast

lemma faithful_bind: "faithful_errors m \<Longrightarrow> (\<And>a. faithful_errors (f a)) \<Longrightarrow> faithful_errors (abind m f)"
  unfolding faithful_errors_def abind_eq_Inl by blast

lemma faithful_then: "faithful_errors m \<Longrightarrow> faithful_errors n \<Longrightarrow> faithful_errors (athen m n)"
  unfolding athen_def by (rule faithful_bind)

lemma faithful_storageError: "faithful_errors (storageError m)"
  unfolding faithful_errors_def
  by (auto simp: fault_state_def elim!: storageError_cases split: if_split_asm)

lemma faithful_basic:
  "faithful_errors (areturn a)" "faithful_errors (athrow (PlainError x))" "faithful_errors aget"
  "(\<And>s. v \<noteq> Inl (StorageError s)) \<Longrightarrow> faithful_errors (alift v)"
  "faithful_errors note_reset" "faithful_errors readRaw" "faithful_errors (write_envelope env)"
  "faithful_errors remove"
  using faithful_storageError
  by (auto simp: faithful_errors_def aget_def note_reset_def readRaw_def write_envelope_def remove_def)

lemma faithful_length_check: "faithful_errors length_check"
  by (auto simp: faithful_errors_def length_check_def split: prod.splits sum.splits)

lemma faithful_cleanup: "faithful_errors (cleanupExpiredOrphans time)"
  unfolding cleanupExpiredOrphans_def
  by (auto intro!: faithful_bind faithful_basic faithful_storageError faithful_length_check split: option.split)

lemma faithful_readInternal: "faithful_errors readInternal"
  unfolding readInternal_def
  by (auto intro!: faithful_bind faithful_then faithful_basic split: prod.split option.split)

text \<open>A factory or updater that does not itself throw a storage error.\<close>

definition quiet_baseline :: "PlanBaselineFactory option \<Rightarrow> bool" where
  "quiet_baseline baseline \<longleftrightarrow> (\<forall>b p m s. baseline = Some b \<longrightarrow> b p m \<noteq> Inl (StorageError s))"

definition quiet_updater :: "(js \<Rightarrow> demo_error + js) \<Rightarrow> bool" where
  "quiet_updater updater \<longleftrightarrow> (\<forall>ps s. updater ps \<noteq> Inl (StorageError s))"

lemma iso_now_error: "iso_now now \<noteq> Inl (StorageError s)"
  by (auto simp: iso_now_def split: option.split)

lemma createEnvelope_error:
  "quiet_baseline baseline \<Longrightarrow> createEnvelope metadata baseline now \<noteq> Inl (StorageError s)"
  by (cases baseline) (auto simp: createEnvelope_def ebind_eq_Inl iso_now_error quiet_baseline_def)

lemma faithful_save:
  "quiet_baseline baseline \<Longrightarrow> faithful_errors (save metadata baseline now)"
  unfolding save_def
  by (auto intro!: faithful_bind faithful_then faithful_basic dest: createEnvelope_error)

lemma faithful_ensure:
  assumes "quiet_baseline baseline"
  shows "faithful_errors (ensure metadata baseline now)"
  unfolding ensure_def
  by (auto intro!: faithful_bind faithful_then faithful_basic faithful_cleanup faithful_save assms
      split: prod.split option.split)

lemma faithful_update:
  assumes "quiet_updater updater"
  shows "faithful_errors (updatePlanSpecific updater now)"
  using assms unfolding updatePlanSpecific_def Let_def quiet_updater_def
  by (auto intro!: faithful_bind faithful_then faithful_basic faithful_readInternal iso_now_error split: option.split)

lemma faithful_saveTourState: "faithful_errors (saveTourState patch now)"
  unfolding saveTourState_def Let_def
  by (auto intro!: faithful_bind faithful_basic faithful_readInternal iso_now_error split: option.split)

lemma faithful_reset:
  assumes "quiet_baseline baseline"
  shows "faithful_errors (reset metadata baseline now)"
  unfolding reset_def Let_def
  by (auto intro!: faithful_bind faithful_then faithful_basic faithful_readInternal createEnvelope_error assms)

lemma update_works:
  assumes "repo_ready r" and "holds_envelope e r"
    and "jget e ''plan'' = Some (JStr (plan_string plan))"
    and "updater (the (jget e ''plan_specific'')) = Inr ps" and "isPlanSpecificState (Some ps) plan" and "wf_js ps"
    and "\<bar>now\<bar> \<le> max_time"
  obtains e' t where "updatePlanSpecific updater now r = (Inr (Some e'), t)" and "holds_envelope e' t"
    and "t = put_item (repo_key r) (JSON_stringify e') r" and "jget e' ''plan_specific'' = Some ps"
    and "\<forall>k. k \<notin> {''plan_specific'', ''saved_at''} \<longrightarrow> jget e' k = jget e k"
proof -
  obtain sa where sa: "iso_now now = Inr sa"
    using assms(7) toISOString_range [of now] by (auto simp: iso_now_def)
  define e' where "e' = spread_set ''saved_at'' (JStr sa) (spread_set ''plan_specific'' ps e)"
  have valid: "isWorkspaceEnvelope e' (tenantId r)" and wf: "wf_js e'"
    using holds_valid [OF assms(2)] update_valid [OF _ assms(3,5) iso_now_timestamp [OF sa]] assms(6)
    by (auto simp: e'_def intro!: wf_spread_set)
  define t where "t = put_item (repo_key r) (JSON_stringify e') r"
  have "isRecord (Some ps) \<and> \<not> hasForbiddenKey ps"
    using planSpecific_record [OF assms(5)] by (auto simp: isRecord_def)
  then have run: "updatePlanSpecific updater now r = (Inr (Some e'), t)"
    using assms(1) unfolding updatePlanSpecific_def
    by (simp add: abind_run [where m = readInternal, OF readInternal_holds [OF _ assms(2)]] assms(4) sa
        e'_def [symmetric] athen_def abind_run [where m = "write_envelope _", OF working_repo(2)] areturn_def t_def)
  have held: "holds_envelope e' t"
    unfolding t_def by (rule holds_written [OF valid wf])
  have "isRecord (Some e)" using holds_valid [OF assms(2)] by (simp add: envelope_fields)
  then have "jget e' ''plan_specific'' = Some ps"
    and "\<forall>k. k \<notin> {''plan_specific'', ''saved_at''} \<longrightarrow> jget e' k = jget e k"
    by (simp_all add: e'_def)
  then show thesis by (rule that [OF run held t_def])
qed

section \<open>A sample workspace for the witnesses\<close>

definition sample_metadata :: DemoAuthMetadata where
  "sample_metadata = \<lparr> md_tenantId = ''t1'', md_name = ''Acme'', md_plan = Pro, md_status = Active,
     md_activatedAt = Some ''2026-01-01T00:00:00.000Z'', md_expiresAt = Some ''2026-02-01T00:00:00.000Z'',
     md_credentialVersion = JNum 1, md_locale = None, md_serverTime = ''2026-01-10T00:00:00.000Z'' \<rparr>"

definition sample_storage :: StorageLike where
  "sample_storage = \<lparr> items = [(''trackpal:demo-workspace:old'',
       JSON_stringify (JObj [(''expires_at'', JStr ''2025-01-01'')])), (''theme'', ''dark'')],
     faults = [], enumerable = True, absent = False \<rparr>"

definition sample_repo :: DemoWorkspaceRepository where
  "sample_repo = createDemoWorkspaceRepository ''t1'' sample_storage"

definition sample_run :: "(demo_error + js) \<times> DemoWorkspaceRepository" where
  "sample_run = ensure sample_metadata None 1768003200000 sample_repo"

definition sample_old_envelope :: js where
  "sample_old_envelope = JObj [(''schema_version'', JNum 1), (''tenant_id'', JStr ''t1''), (''source_name'', JStr ''Acme''),
     (''plan'', JStr ''pro''), (''activated_at'', JNull), (''expires_at'', JNull),
     (''plan_specific'', JObj [(''clients'', JArr []),
        (''services'', JArr [JObj [(''id'', JStr ''s1''), (''tenant_id'', JStr ''t1''), (''name'', JStr ''Netflix'')]]),
        (''plans'', JArr []), (''subscriptions'', JArr [])]),
     (''tour_state'', JObj []), (''saved_at'', JStr ''2026-01-01T00:00:00.000Z'')]"

lemma sample_repo_ready: "repo_ready sample_repo"
  unfolding working_def by code_simp

lemma sample_run_result:
  obtains e r where "ensure sample_metadata None 1768003200000 sample_repo = (Inr e, r)" "sample_run = (Inr e, r)"
proof -
  have "\<not> isl (fst sample_run)" by code_simp
  then obtain e where "fst sample_run = Inr e" by (cases "fst sample_run") auto
  with that [of e "snd sample_run"] show thesis by (simp add: sample_run_def prod_eq_iff)
qed

lemma sample_run_envelope:
  assumes "sample_run = (Inr e, r)"
  shows "\<not> isExpiredOrphan e sample_metadata" and "jget e ''plan'' = Some (JStr (plan_string Pro))"
    and "jget e ''plan_specific'' = Some (JObj [])"
proof -
  have "\<not> isExpiredOrphan (projr (fst sample_run)) sample_metadata"
    and "jget (projr (fst sample_run)) ''plan'' = Some (JStr (plan_string Pro))"
    and "jget (projr (fst sample_run)) ''plan_specific'' = Some (JObj [])" by code_simp+
  then show "\<not> isExpiredOrphan e sample_metadata" and "jget e ''plan'' = Some (JStr (plan_string Pro))"
    and "jget e ''plan_specific'' = Some (JObj [])" unfolding assms fst_conv sum.sel by simp_all
qed

lemma wf_baseline_None: "wf_baseline None" and quiet_baseline_None: "quiet_baseline None"
  by (simp_all add: wf_baseline_def quiet_baseline_def)

section \<open>Properties\<close>

text \<open>
  C11. Isolation: whatever sequence of repository calls runs, with whatever storage failures, an
  item of another key is unchanged, or it was the text of a demo workspace whose
  \<open>expires_at\<close> lies at or before the server time of some call of \<open>ensure\<close> of the sequence, made
  for the repository's tenant, and it has been removed. So without such a call no other item changes.
\<close>

theorem workspace_isolation:
  assumes "repo_run ms (createDemoWorkspaceRepository tid st) r" and "k \<noteq> workspaceKey tid"
  shows "item r k = map_of (items st) k \<or>
    js_startsWith ''trackpal:demo-workspace:'' k \<and> item r k = None \<and>
    (\<exists>raw parsed expires t metadata reference. map_of (items st) k = Some raw \<and> JSON_parse raw = Some parsed \<and>
       jget parsed ''expires_at'' = Some (JStr expires) \<and> Date_parse expires = Some t \<and>
       metadata \<in> set ms \<and> md_tenantId metadata = tid \<and>
       Date_parse (md_serverTime metadata) = Some reference \<and> t \<le> reference)"
proof -
  let ?T = "{reference. \<exists>m \<in> set ms. md_tenantId m = tid \<and> Date_parse (md_serverTime m) = Some reference}"
  have "repo_frame ?T (createDemoWorkspaceRepository tid st) r"
    by (rule repo_run_frame [OF assms(1)]) (auto simp: created_repo)
  then have "cleaned ?T k (map_of (items st) k) (item r k)"
    using assms(2) unfolding repo_frame_def created_repo by blast
  then show ?thesis
    unfolding cleaned_def expired_text_iff DEMO_WORKSPACE_KEY_PREFIX_def by blast
qed

theorem workspace_isolation_witness:
  "\<exists>r. repo_run [sample_metadata] (createDemoWorkspaceRepository ''t1'' sample_storage) r \<and>
     item r ''theme'' = Some ''dark'' \<and>
     (item r ''trackpal:demo-workspace:old'' \<noteq> map_of (items sample_storage) ''trackpal:demo-workspace:old'' \<longrightarrow>
        item r ''trackpal:demo-workspace:old'' = None)"
proof -
  obtain e r where run: "ensure sample_metadata None 1768003200000 sample_repo = (Inr e, r)" by (rule sample_run_result)
  from run_ensure [OF run_start this]
  have steps: "repo_run [sample_metadata] (createDemoWorkspaceRepository ''t1'' sample_storage) r"
    unfolding sample_repo_def by simp
  have "''theme'' \<noteq> workspaceKey ''t1''" and "\<not> js_startsWith ''trackpal:demo-workspace:'' ''theme''"
    and "map_of (items sample_storage) ''theme'' = Some ''dark''"
    and "''trackpal:demo-workspace:old'' \<noteq> workspaceKey ''t1''" by code_simp+
  with steps workspace_isolation [OF steps, of "''theme''"]
    workspace_isolation [OF steps, of "''trackpal:demo-workspace:old''"]
  show ?thesis by (intro exI [of _ r]) auto
qed

text \<open>
  C12. No secrets: a repository that starts without a workspace of its tenant never stores one
  whose plan data has a key naming a password, token, session, chat or credential, and the item
  is always the text of an envelope of that tenant.
\<close>

theorem workspace_no_secrets:
  assumes "repo_step\<^sup>*\<^sup>* (createDemoWorkspaceRepository tid st) r"
    and "map_of (items st) (workspaceKey tid) = None" and "item r (workspaceKey tid) = Some raw"
  shows "safe_text tid raw"
  using repo_steps_frame [OF assms(1)] assms(2,3)
  unfolding repo_frame_def created_repo by (auto simp: kept_safe_def)

theorem workspace_no_secrets_witness:
  "\<exists>r raw. repo_step\<^sup>*\<^sup>* (createDemoWorkspaceRepository ''t1'' sample_storage) r \<and>
     item r (workspaceKey ''t1'') = Some raw \<and> safe_text ''t1'' raw"
proof -
  obtain e r where run: "ensure sample_metadata None 1768003200000 sample_repo = (Inr e, r)" "sample_run = (Inr e, r)"
    by (rule sample_run_result)
  then have steps: "repo_step\<^sup>*\<^sup>* (createDemoWorkspaceRepository ''t1'' sample_storage) r"
    unfolding sample_repo_def by (blast intro: step_ensure)
  have "item (snd sample_run) (workspaceKey ''t1'') \<noteq> None" by code_simp
  then obtain raw where raw: "item r (workspaceKey ''t1'') = Some raw" unfolding run(2) snd_conv by blast
  have "map_of (items sample_storage) (workspaceKey ''t1'') = None" by code_simp
  from workspace_no_secrets [OF steps this raw] steps raw show ?thesis by blast
qed

text \<open>
  C13. Validation: every envelope that \<open>read\<close>, \<open>ensure\<close> or \<open>reset\<close> hands out, for any
  stored text and any storage failures, passes \<open>isWorkspaceEnvelope\<close>.
\<close>

theorem workspace_hands_out_valid:
  "(read r = (Inr (Some e), t) \<longrightarrow> isWorkspaceEnvelope e (tenantId r)) \<and>
   (ensure metadata baseline now r = (Inr e, t) \<longrightarrow> isWorkspaceEnvelope e (tenantId r)) \<and>
   (reset metadata baseline now r = (Inr e, t) \<longrightarrow> isWorkspaceEnvelope e (tenantId r))"
  unfolding read_def
  using act_specD(3) [OF readInternal_spec refl, of r _ t] ensure_valid
    act_specD(3) [OF reset_spec refl, of _ _ _ r _ t] by blast

theorem workspace_hands_out_valid_witness: "\<exists>e r. sample_run = (Inr e, r) \<and> isWorkspaceEnvelope e ''t1''"
proof -
  obtain e r where run: "ensure sample_metadata None 1768003200000 sample_repo = (Inr e, r)" "sample_run = (Inr e, r)"
    by (rule sample_run_result)
  moreover have "tenantId sample_repo = ''t1''" by (simp add: sample_repo_def created_repo)
  ultimately show ?thesis
    using workspace_hands_out_valid [of sample_repo e r sample_metadata None 1768003200000] by auto
qed

text \<open>
  \<open>ensure\<close> is idempotent: on a storage that works, a second call with the same metadata
  returns the same envelope and changes nothing, unless the envelope has expired at the server time.
\<close>

theorem ensure_idempotent:
  assumes "repo_ready r" and "wf_baseline baseline" and "ensure metadata baseline now r = (Inr e, t)"
    and "\<not> isExpiredOrphan e metadata"
  shows "ensure metadata baseline' now' t = (Inr e, t)"
proof -
  note e = ensure_result [OF assms(1-3)]
  have t: "repo_ready t" "tenantId t = tenantId r"
    using e assms(1) cleaned_up_facts(2) [OF assms(1), of metadata] by (auto simp: same_others_def)
  have "cleaned_up metadata t = t"
    using e t(1) assms(4) by (blast intro: cleaned_up_settled)
  then have "ensure metadata baseline' now' t = ensure_after metadata baseline' now' t"
    using ensure_working [OF t(1)] ensure_guards [OF assms(3)] t(2) by simp
  then show ?thesis
    using e assms(4) by (auto simp: ensure_after_def holds_envelope_def)
qed

theorem ensure_idempotent_witness: "ensure sample_metadata None 5 (snd sample_run) = sample_run"
proof -
  obtain e r where run: "ensure sample_metadata None 1768003200000 sample_repo = (Inr e, r)" "sample_run = (Inr e, r)"
    by (rule sample_run_result)
  from ensure_idempotent [OF sample_repo_ready wf_baseline_None run(1) sample_run_envelope(1) [OF run(2)], of None 5]
  show ?thesis by (simp add: run(2))
qed

text \<open>
  C15. An update is read back: on a storage that works and holds an envelope, updating the plan
  data with a valid value succeeds, the next \<open>read\<close> returns the envelope the update returned, its
  plan data is the value given and every field but \<open>plan_specific\<close> and \<open>saved_at\<close> is kept.
\<close>

theorem update_read_back:
  assumes "repo_ready r" and "holds_envelope e r"
    and "jget e ''plan'' = Some (JStr (plan_string plan))"
    and "updater (the (jget e ''plan_specific'')) = Inr ps" and "isPlanSpecificState (Some ps) plan" and "wf_js ps"
    and "\<bar>now\<bar> \<le> max_time"
  shows "\<exists>e' t. updatePlanSpecific updater now r = (Inr (Some e'), t) \<and> read t = (Inr (Some e'), t) \<and>
     jget e' ''plan_specific'' = Some ps \<and>
     (\<forall>k. k \<notin> {''plan_specific'', ''saved_at''} \<longrightarrow> jget e' k = jget e k)"
proof -
  obtain e' t where up: "updatePlanSpecific updater now r = (Inr (Some e'), t)" and held: "holds_envelope e' t"
    and t: "t = put_item (repo_key r) (JSON_stringify e') r"
    and fields: "jget e' ''plan_specific'' = Some ps" "\<forall>k. k \<notin> {''plan_specific'', ''saved_at''} \<longrightarrow> jget e' k = jget e k"
    by (rule update_works [where updater = updater, OF assms])
  have "read t = (Inr (Some e'), t)"
    unfolding read_def using assms(1) held by (intro readInternal_holds) (simp_all add: t)
  with up fields show ?thesis by blast
qed

theorem update_read_back_witness:
  "\<exists>e t. updatePlanSpecific (\<lambda>_. Inr (JObj [(''note'', JStr ''x'')])) 0 (snd sample_run) = (Inr (Some e), t) \<and>
     read t = (Inr (Some e), t) \<and> jget e ''plan_specific'' = Some (JObj [(''note'', JStr ''x'')])"
proof -
  obtain e r where run: "ensure sample_metadata None 1768003200000 sample_repo = (Inr e, r)" "sample_run = (Inr e, r)"
    by (rule sample_run_result)
  note res = ensure_result [OF sample_repo_ready wf_baseline_None run(1)]
  have "repo_ready (snd sample_run)" unfolding working_def by code_simp
  then have "repo_ready r" unfolding run(2) snd_conv .
  moreover have "holds_envelope e r" using res by blast
  moreover have "isPlanSpecificState (Some (JObj [(''note'', JStr ''x'')])) Pro" by code_simp
  moreover have "\<bar>0\<bar> \<le> max_time" by (simp add: max_time_def)
  ultimately have "\<exists>e' t. updatePlanSpecific (\<lambda>_. Inr (JObj [(''note'', JStr ''x'')])) 0 r = (Inr (Some e'), t) \<and>
     read t = (Inr (Some e'), t) \<and> jget e' ''plan_specific'' = Some (JObj [(''note'', JStr ''x'')]) \<and>
     (\<forall>k. k \<notin> {''plan_specific'', ''saved_at''} \<longrightarrow> jget e' k = jget e k)"
    by (intro update_read_back [OF _ _ sample_run_envelope(2) [OF run(2)]]) simp_all
  then show ?thesis unfolding run(2) snd_conv by blast
qed

text \<open>
  C16. Refusals: metadata of another tenant is refused without touching the storage; an expired
  tenant loses its workspace and is refused.
\<close>

theorem ensure_refuses:
  "(md_tenantId metadata \<noteq> tenantId r \<longrightarrow>
      ensure metadata baseline now r = (Inl (PlainError ''demo_workspace_identity_mismatch''), r)) \<and>
   (md_tenantId metadata = tenantId r \<and> md_status metadata = Expired \<and> working (storage r) \<longrightarrow>
      (\<exists>t. ensure metadata baseline now r = (Inl (PlainError ''demo_workspace_ended''), t) \<and>
         item t (repo_key r) = None \<and> (\<forall>k. k \<noteq> repo_key r \<longrightarrow> item t k = item r k)))"
  by (auto simp: ensure_def repo_simps athrow_def athen_def abind_run [where m = remove, OF working_repo(3)])

theorem ensure_refuses_witness:
  "ensure sample_metadata None 0 (createDemoWorkspaceRepository ''t2'' sample_storage) =
     (Inl (PlainError ''demo_workspace_identity_mismatch''), createDemoWorkspaceRepository ''t2'' sample_storage)"
  using ensure_refuses [of sample_metadata "createDemoWorkspaceRepository ''t2'' sample_storage" None 0]
  by (simp add: created_repo sample_metadata_def)

text \<open>
  The clean-up is exact: on a storage that works and can be enumerated, it removes the
  workspaces whose \<open>expires_at\<close> is at or before the reference time, and no other item.
\<close>

theorem cleanup_exact:
  assumes "repo_ready r" and "enumerable (storage r)" and "Date_parse time = Some reference"
  shows "\<exists>t. cleanupExpiredOrphans time r = (Inr (), t) \<and>
    (\<forall>k. item t k = (case item r k of None \<Rightarrow> None
       | Some raw \<Rightarrow> if js_startsWith DEMO_WORKSPACE_KEY_PREFIX k \<and> raw \<noteq> [] \<and> expired_text reference raw
           then None else Some raw))"
  using assms by (auto simp: repo_simps map_of_filter_distinct dead_item_def split: option.split)

theorem cleanup_exact_witness:
  "\<exists>t. cleanupExpiredOrphans ''2026-01-10T00:00:00.000Z'' sample_repo = (Inr (), t) \<and>
     item t ''trackpal:demo-workspace:old'' = None \<and> item t ''theme'' = Some ''dark''"
proof -
  have "enumerable (storage sample_repo)" and time: "Date_parse ''2026-01-10T00:00:00.000Z'' = Some 1768003200000" by code_simp+
  from cleanup_exact [OF sample_repo_ready this] obtain t
    where t: "cleanupExpiredOrphans ''2026-01-10T00:00:00.000Z'' sample_repo = (Inr (), t)"
      "\<forall>k. item t k = (case item sample_repo k of None \<Rightarrow> None
       | Some raw \<Rightarrow> if js_startsWith DEMO_WORKSPACE_KEY_PREFIX k \<and> raw \<noteq> [] \<and> expired_text 1768003200000 raw
           then None else Some raw)" by blast
  have "(case item sample_repo ''trackpal:demo-workspace:old'' of None \<Rightarrow> None
       | Some raw \<Rightarrow> if js_startsWith DEMO_WORKSPACE_KEY_PREFIX ''trackpal:demo-workspace:old'' \<and> raw \<noteq> [] \<and>
           expired_text 1768003200000 raw then None else Some raw) = None"
    and "(case item sample_repo ''theme'' of None \<Rightarrow> None
       | Some raw \<Rightarrow> if js_startsWith DEMO_WORKSPACE_KEY_PREFIX ''theme'' \<and> raw \<noteq> [] \<and>
           expired_text 1768003200000 raw then None else Some raw) = Some ''dark''" by code_simp+
  then show ?thesis using t(1) by (intro exI [of _ t]) (simp only: t(2) simp_thms)
qed

text \<open>
  Storage errors are reported: when a method throws a storage error, the repository's
  \<open>storageState\<close> says which one, and it is no longer \<open>available\<close>.
\<close>

theorem storage_errors_reported:
  assumes "quiet_baseline baseline" and "quiet_updater updater"
    and "read r = (Inl (StorageError s), t) \<or> ensure metadata baseline now r = (Inl (StorageError s), t) \<or>
      updatePlanSpecific updater now r = (Inl (StorageError s), t) \<or>
      saveTourState patch now r = (Inl (StorageError s), t) \<or>
      reset metadata baseline now r = (Inl (StorageError s), t) \<or> clear r = (Inl (StorageError s), t)"
  shows "storageState t = s \<and> s \<noteq> Available"
  using assms(3) unfolding read_def clear_def
  by (blast dest: faithful_errorsD [OF faithful_readInternal] faithful_errorsD [OF faithful_ensure [OF assms(1)]]
      faithful_errorsD [OF faithful_update [OF assms(2)]] faithful_errorsD [OF faithful_saveTourState]
      faithful_errorsD [OF faithful_reset [OF assms(1)]] faithful_errorsD [OF faithful_basic(8)])

theorem storage_errors_reported_witness:
  "\<exists>r t. read r = (Inl (StorageError Quota_exceeded), t) \<and> storageState t = Quota_exceeded"
proof -
  define r where "r = createDemoWorkspaceRepository ''t1'' (sample_storage\<lparr>faults :=
    [None, Some \<lparr> is_object = True, err_name = Some ''QuotaExceededError'', err_code = None \<rparr>]\<rparr>)"
  have "fst (read r) = Inl (StorageError Quota_exceeded)" unfolding r_def by code_simp
  then have run: "read r = (Inl (StorageError Quota_exceeded), snd (read r))" by (simp add: prod_eq_iff)
  moreover have "quiet_updater Inr" by (simp add: quiet_updater_def)
  ultimately show ?thesis
    using storage_errors_reported [OF quiet_baseline_None, of Inr r Quota_exceeded "snd (read r)"] by blast
qed

text \<open>
  C19. Migration: what an older envelope (version 1 or 2) becomes is a valid envelope of version 3. Its
  services are the old ones, in their order, each with every field kept and a \<open>null\<close> icon added where
  it had none; every other entry of the plan data is kept, and so is every field other than the plan
  data, the schema version and the baseline version, which is kept where it was a positive integer and
  is 1 otherwise. Migrating the result again changes nothing.
\<close>

theorem migration_upgrades:
  assumes "migrateKnownEnvelope v tid = Some e"
  shows "isWorkspaceEnvelope e tid \<and> migrateKnownEnvelope e tid = Some e \<and>
    (\<forall>k. k \<notin> {''plan_specific'', ''schema_version'', ''baseline_version''} \<longrightarrow> jget e k = jget v k) \<and>
    jget e ''schema_version'' = Some (JNum 3) \<and>
    jget e ''baseline_version'' =
      (if positive_integer (jget v ''baseline_version'') then jget v ''baseline_version'' else Some (JNum 1)) \<and>
    (\<exists>old new. jget v ''plan_specific'' = Some old \<and> jget e ''plan_specific'' = Some new \<and>
       (\<forall>k. k \<noteq> ''services'' \<longrightarrow> jget new k = jget old k) \<and>
       (\<forall>ss. jget old ''services'' = Some (JArr ss) \<longrightarrow> (\<exists>ts. jget new ''services'' = Some (JArr ts) \<and>
          length ts = length ss \<and> (\<forall>i < length ss. \<forall>k. jget (ts ! i) k =
            (if k = ''icon'' \<and> jget (ss ! i) k = None then Some JNull else jget (ss ! i) k)))))"
proof -
  note valid = migrate_valid [OF assms]
  obtain old new where parts: "jget v ''plan_specific'' = Some old" "jget e ''plan_specific'' = Some new"
    "new = old \<or> new = migrateServiceIcons old"
    "\<forall>k. k \<notin> {''plan_specific'', ''schema_version'', ''baseline_version''} \<longrightarrow> jget e k = jget v k"
    "jget e ''baseline_version'' =
      (if positive_integer (jget v ''baseline_version'') then jget v ''baseline_version'' else Some (JNum 1))"
    by (rule migrate_fields [OF assms])
  obtain plan where plan: "isPlanSpecificState (Some new) plan"
    using valid parts(2) by (auto simp: envelope_fields)
  have "jget e ''schema_version'' = Some (JNum 3)"
    using valid by (simp add: envelope_fields)
  moreover have "\<exists>ts. jget new ''services'' = Some (JArr ts) \<and> length ts = length ss \<and>
      (\<forall>i < length ss. \<forall>k. jget (ts ! i) k =
        (if k = ''icon'' \<and> jget (ss ! i) k = None then Some JNull else jget (ss ! i) k))"
    if "jget old ''services'' = Some (JArr ss)" for ss
  proof -
    from migrated_parts(2) [OF parts(3) plan that] obtain ts
      where "jget new ''services'' = Some (JArr ts)" and "list_all2 icon_added ss ts" by blast
    then show ?thesis
      by (intro exI [of _ ts]) (simp add: list_all2_conv_all_nth icon_added_def)
  qed
  ultimately show ?thesis
    using valid parts(1,2,4,5) migrate_current [OF valid] migrated_parts(1) [OF parts(3) plan]
    by (intro conjI exI [of _ old] exI [of _ new] allI impI) simp_all
qed

theorem migration_upgrades_witness:
  "\<exists>e new ts. migrateKnownEnvelope sample_old_envelope ''t1'' = Some e \<and> isWorkspaceEnvelope e ''t1'' \<and>
     jget e ''plan_specific'' = Some new \<and> jget new ''services'' = Some (JArr ts) \<and> length ts = 1 \<and>
     jget (ts ! 0) ''name'' = Some (JStr ''Netflix'') \<and> jget (ts ! 0) ''icon'' = Some JNull"
proof -
  have "migrateKnownEnvelope sample_old_envelope ''t1'' \<noteq> None" by code_simp
  then obtain e where e: "migrateKnownEnvelope sample_old_envelope ''t1'' = Some e" by blast
  define s where "s = JObj [(''id'', JStr ''s1''), (''tenant_id'', JStr ''t1''), (''name'', JStr ''Netflix'')]"
  define old where "old = JObj [(''clients'', JArr []), (''services'', JArr [s]), (''plans'', JArr []), (''subscriptions'', JArr [])]"
  have old: "jget sample_old_envelope ''plan_specific'' = Some old" "jget old ''services'' = Some (JArr [s])"
    and s: "jget s ''name'' = Some (JStr ''Netflix'')" "jget s ''icon'' = None"
    by (simp_all add: sample_old_envelope_def old_def s_def)
  from migration_upgrades [OF e] obtain old' new where parts: "jget sample_old_envelope ''plan_specific'' = Some old'"
      "isWorkspaceEnvelope e ''t1''" "jget e ''plan_specific'' = Some new"
    and each: "\<forall>ss. jget old' ''services'' = Some (JArr ss) \<longrightarrow> (\<exists>ts. jget new ''services'' = Some (JArr ts) \<and>
         length ts = length ss \<and> (\<forall>i < length ss. \<forall>k. jget (ts ! i) k =
            (if k = ''icon'' \<and> jget (ss ! i) k = None then Some JNull else jget (ss ! i) k)))"
    by (elim conjE exE) (rule that)
  have "jget old' ''services'' = Some (JArr [s])" using old parts(1) by simp
  from each [THEN spec, THEN mp, OF this] obtain ts where ts: "jget new ''services'' = Some (JArr ts)" "length ts = 1"
    and t: "\<forall>k. jget (ts ! 0) k = (if k = ''icon'' \<and> jget s k = None then Some JNull else jget s k)"
    by (fastforce simp: nth_Cons')
  have "jget (ts ! 0) ''name'' = Some (JStr ''Netflix'')" "jget (ts ! 0) ''icon'' = Some JNull"
    using t s by simp_all
  with e parts(2,3) ts show ?thesis by (intro exI conjI)
qed

end
