(* ===== verification/DemoBaseline.thy ===== *)
theory DemoBaseline
  imports DemoWorkspace
begin

text \<open>
  The demo data of a workspace and its baseline (\<open>features/demo/services/demo-baseline.ts\<close>,
  with the interfaces of \<open>features/admin/services\<close>). The TypeScript interfaces are records; each
  is written to and read from a JavaScript value by a pair of functions. The code casts what it
  has read from the storage to these types after checking part of it; here the cast is a strict
  decoding, and \<open>OffType\<close> is thrown for data that passes the checks without having the type.
  The members of the decoded objects are in the order in which the program writes them.
  The main results: the codecs are inverse, the baseline is always a valid state whose subscriptions
  refer to its clients, services and plans, and no key of the state is forbidden.
\<close>

section \<open>Data\<close>

record Client =
  cl_id :: string
  cl_tenant_id :: string
  cl_owner_user_id :: string
  cl_full_name :: string
  cl_username :: string
  cl_phone :: "string option"
  cl_is_active :: bool
  cl_created_at :: string
  cl_updated_at :: string

record Service =
  sv_id :: string
  sv_tenant_id :: string
  sv_name :: string
  sv_icon :: "string option"
  sv_created_at :: string
  sv_updated_at :: string

record Plan =
  pl_id :: string
  pl_tenant_id :: string
  pl_service_id :: string
  pl_name :: string
  pl_price :: "string option"
  pl_created_at :: string
  pl_updated_at :: string

text \<open>A property \<open>p?: string | null\<close> is a \<open>string option option\<close>: absent, \<open>null\<close>, or a string.\<close>

record DemoSubscriptionRelation =
  su_id :: string
  su_tenant_id :: string
  su_client_id :: string
  su_service_id :: string
  su_plan_id :: string
  su_streaming_email :: string
  su_streaming_secret :: "string option option"
  su_profile_name :: "string option"
  su_pin_secret :: "string option option"
  su_duration_type :: string
  su_starts_at :: string
  su_expires_at :: string
  su_cancelled_at :: "string option"
  su_status :: string
  su_created_at :: string
  su_updated_at :: string

record DemoCodeService =
  cs_id :: string
  cs_name :: string
  cs_enabled :: bool

record DemoBlockedIdentity =
  bi_id :: string
  bi_phone :: string

record ReminderSettings =
  rs_id :: string
  rs_tenant_id :: string
  rs_warning_days :: "int list"
  rs_reminder_time :: string
  rs_recipient_mode :: string
  rs_reminders_enabled :: bool
  rs_custom_message_tenant :: "string option"
  rs_custom_message_client :: "string option"
  rs_created_at :: string
  rs_updated_at :: string

record TenantSettings =
  ts_tenant_id :: string
  ts_locale :: string
  ts_timezone :: "string option"
  ts_country :: "string option"
  ts_currency :: "string option"
  ts_created_at :: string
  ts_updated_at :: string

record DemoProfile =
  pf_business_name :: string
  pf_locale :: string
  pf_phone :: "string option option"

text \<open>The four collections of the Pro plan; \<open>isPlanSpecificState\<close> admits all of them or none.\<close>

record ProLists =
  clients :: "Client list"
  services :: "Service list"
  plans :: "Plan list"
  subscriptions :: "DemoSubscriptionRelation list"

record DemoWorkspaceState =
  ds_profile :: DemoProfile
  ds_code_services :: "DemoCodeService list"
  ds_blocked_identities :: "DemoBlockedIdentity list"
  ds_reminder_settings :: "ReminderSettings option"
  ds_tenant_settings :: "TenantSettings option"
  ds_pro :: "ProLists option"

section \<open>The data as JavaScript values\<close>

definition js_nullable :: "string option \<Rightarrow> js" where
  "js_nullable v = (case v of None \<Rightarrow> JNull | Some s \<Rightarrow> JStr s)"

definition js_member :: "string \<Rightarrow> ('a \<Rightarrow> js) \<Rightarrow> 'a option \<Rightarrow> (string \<times> js) list" where
  "js_member k enc v = (case v of None \<Rightarrow> [] | Some x \<Rightarrow> [(k, enc x)])"

definition str_at :: "string \<Rightarrow> js \<Rightarrow> string" where
  "str_at k v = (case jget v k of Some (JStr s) \<Rightarrow> s | _ \<Rightarrow> [])"

definition nullable_at :: "string \<Rightarrow> js \<Rightarrow> string option" where
  "nullable_at k v = (case jget v k of Some (JStr s) \<Rightarrow> Some s | _ \<Rightarrow> None)"

definition optional_at :: "string \<Rightarrow> js \<Rightarrow> string option option" where
  "optional_at k v = (case jget v k of None \<Rightarrow> None | Some (JStr s) \<Rightarrow> Some (Some s) | Some _ \<Rightarrow> Some None)"

definition bool_at :: "string \<Rightarrow> js \<Rightarrow> bool" where
  "bool_at k v = (jget v k = Some (JBool True))"

definition list_at :: "(js \<Rightarrow> 'a) \<Rightarrow> string \<Rightarrow> js \<Rightarrow> 'a list" where
  "list_at f k v = (case jget v k of Some (JArr xs) \<Rightarrow> map f xs | _ \<Rightarrow> [])"

definition js_int :: "js \<Rightarrow> int" where
  "js_int v = (case v of JNum i \<Rightarrow> i | _ \<Rightarrow> 0)"

definition client_js :: "Client \<Rightarrow> js" where
  "client_js c = JObj [(''id'', JStr (cl_id c)), (''tenant_id'', JStr (cl_tenant_id c)),
     (''owner_user_id'', JStr (cl_owner_user_id c)), (''full_name'', JStr (cl_full_name c)),
     (''username'', JStr (cl_username c)), (''phone'', js_nullable (cl_phone c)),
     (''is_active'', JBool (cl_is_active c)), (''created_at'', JStr (cl_created_at c)),
     (''updated_at'', JStr (cl_updated_at c))]"

definition js_client :: "js \<Rightarrow> Client" where
  "js_client v = \<lparr> cl_id = str_at ''id'' v, cl_tenant_id = str_at ''tenant_id'' v,
     cl_owner_user_id = str_at ''owner_user_id'' v, cl_full_name = str_at ''full_name'' v,
     cl_username = str_at ''username'' v, cl_phone = nullable_at ''phone'' v,
     cl_is_active = bool_at ''is_active'' v, cl_created_at = str_at ''created_at'' v,
     cl_updated_at = str_at ''updated_at'' v \<rparr>"

definition service_js :: "Service \<Rightarrow> js" where
  "service_js s = JObj [(''id'', JStr (sv_id s)), (''tenant_id'', JStr (sv_tenant_id s)),
     (''name'', JStr (sv_name s)), (''icon'', js_nullable (sv_icon s)),
     (''created_at'', JStr (sv_created_at s)), (''updated_at'', JStr (sv_updated_at s))]"

definition js_service :: "js \<Rightarrow> Service" where
  "js_service v = \<lparr> sv_id = str_at ''id'' v, sv_tenant_id = str_at ''tenant_id'' v,
     sv_name = str_at ''name'' v, sv_icon = nullable_at ''icon'' v,
     sv_created_at = str_at ''created_at'' v, sv_updated_at = str_at ''updated_at'' v \<rparr>"

definition plan_js :: "Plan \<Rightarrow> js" where
  "plan_js p = JObj [(''id'', JStr (pl_id p)), (''tenant_id'', JStr (pl_tenant_id p)),
     (''service_id'', JStr (pl_service_id p)), (''name'', JStr (pl_name p)),
     (''price'', js_nullable (pl_price p)), (''created_at'', JStr (pl_created_at p)),
     (''updated_at'', JStr (pl_updated_at p))]"

definition js_plan :: "js \<Rightarrow> Plan" where
  "js_plan v = \<lparr> pl_id = str_at ''id'' v, pl_tenant_id = str_at ''tenant_id'' v,
     pl_service_id = str_at ''service_id'' v, pl_name = str_at ''name'' v,
     pl_price = nullable_at ''price'' v, pl_created_at = str_at ''created_at'' v,
     pl_updated_at = str_at ''updated_at'' v \<rparr>"

definition subscription_js :: "DemoSubscriptionRelation \<Rightarrow> js" where
  "subscription_js s = JObj ([(''id'', JStr (su_id s)), (''tenant_id'', JStr (su_tenant_id s)),
     (''client_id'', JStr (su_client_id s)), (''service_id'', JStr (su_service_id s)),
     (''plan_id'', JStr (su_plan_id s)), (''streaming_email'', JStr (su_streaming_email s))] @
     js_member ''streaming_secret'' js_nullable (su_streaming_secret s) @
     [(''profile_name'', js_nullable (su_profile_name s))] @
     js_member ''pin_secret'' js_nullable (su_pin_secret s) @
     [(''duration_type'', JStr (su_duration_type s)), (''starts_at'', JStr (su_starts_at s)),
     (''expires_at'', JStr (su_expires_at s)), (''cancelled_at'', js_nullable (su_cancelled_at s)),
     (''status'', JStr (su_status s)), (''created_at'', JStr (su_created_at s)),
     (''updated_at'', JStr (su_updated_at s))])"

definition js_subscription :: "js \<Rightarrow> DemoSubscriptionRelation" where
  "js_subscription v = \<lparr> su_id = str_at ''id'' v, su_tenant_id = str_at ''tenant_id'' v,
     su_client_id = str_at ''client_id'' v, su_service_id = str_at ''service_id'' v,
     su_plan_id = str_at ''plan_id'' v, su_streaming_email = str_at ''streaming_email'' v,
     su_streaming_secret = optional_at ''streaming_secret'' v,
     su_profile_name = nullable_at ''profile_name'' v, su_pin_secret = optional_at ''pin_secret'' v,
     su_duration_type = str_at ''duration_type'' v, su_starts_at = str_at ''starts_at'' v,
     su_expires_at = str_at ''expires_at'' v, su_cancelled_at = nullable_at ''cancelled_at'' v,
     su_status = str_at ''status'' v, su_created_at = str_at ''created_at'' v,
     su_updated_at = str_at ''updated_at'' v \<rparr>"

definition code_service_js :: "DemoCodeService \<Rightarrow> js" where
  "code_service_js s = JObj [(''id'', JStr (cs_id s)), (''name'', JStr (cs_name s)), (''enabled'', JBool (cs_enabled s))]"

definition js_code_service :: "js \<Rightarrow> DemoCodeService" where
  "js_code_service v = \<lparr> cs_id = str_at ''id'' v, cs_name = str_at ''name'' v, cs_enabled = bool_at ''enabled'' v \<rparr>"

definition blocked_js :: "DemoBlockedIdentity \<Rightarrow> js" where
  "blocked_js b = JObj [(''id'', JStr (bi_id b)), (''phone'', JStr (bi_phone b))]"

definition js_blocked :: "js \<Rightarrow> DemoBlockedIdentity" where
  "js_blocked v = \<lparr> bi_id = str_at ''id'' v, bi_phone = str_at ''phone'' v \<rparr>"

definition reminder_js :: "ReminderSettings \<Rightarrow> js" where
  "reminder_js r = JObj [(''id'', JStr (rs_id r)), (''tenant_id'', JStr (rs_tenant_id r)),
     (''warning_days'', JArr (map JNum (rs_warning_days r))), (''reminder_time'', JStr (rs_reminder_time r)),
     (''recipient_mode'', JStr (rs_recipient_mode r)), (''reminders_enabled'', JBool (rs_reminders_enabled r)),
     (''custom_message_tenant'', js_nullable (rs_custom_message_tenant r)),
     (''custom_message_client'', js_nullable (rs_custom_message_client r)),
     (''created_at'', JStr (rs_created_at r)), (''updated_at'', JStr (rs_updated_at r))]"

definition js_reminder :: "js \<Rightarrow> ReminderSettings" where
  "js_reminder v = \<lparr> rs_id = str_at ''id'' v, rs_tenant_id = str_at ''tenant_id'' v,
     rs_warning_days = list_at js_int ''warning_days'' v, rs_reminder_time = str_at ''reminder_time'' v,
     rs_recipient_mode = str_at ''recipient_mode'' v, rs_reminders_enabled = bool_at ''reminders_enabled'' v,
     rs_custom_message_tenant = nullable_at ''custom_message_tenant'' v,
     rs_custom_message_client = nullable_at ''custom_message_client'' v,
     rs_created_at = str_at ''created_at'' v, rs_updated_at = str_at ''updated_at'' v \<rparr>"

definition tenant_js :: "TenantSettings \<Rightarrow> js" where
  "tenant_js t = JObj [(''tenant_id'', JStr (ts_tenant_id t)), (''locale'', JStr (ts_locale t)),
     (''timezone'', js_nullable (ts_timezone t)), (''country'', js_nullable (ts_country t)),
     (''currency'', js_nullable (ts_currency t)), (''created_at'', JStr (ts_created_at t)),
     (''updated_at'', JStr (ts_updated_at t))]"

definition js_tenant :: "js \<Rightarrow> TenantSettings" where
  "js_tenant v = \<lparr> ts_tenant_id = str_at ''tenant_id'' v, ts_locale = str_at ''locale'' v,
     ts_timezone = nullable_at ''timezone'' v, ts_country = nullable_at ''country'' v,
     ts_currency = nullable_at ''currency'' v, ts_created_at = str_at ''created_at'' v,
     ts_updated_at = str_at ''updated_at'' v \<rparr>"

definition profile_js :: "DemoProfile \<Rightarrow> js" where
  "profile_js p = JObj ([(''business_name'', JStr (pf_business_name p)), (''locale'', JStr (pf_locale p))] @
     js_member ''phone'' js_nullable (pf_phone p))"

definition js_profile :: "js \<Rightarrow> DemoProfile" where
  "js_profile v = \<lparr> pf_business_name = str_at ''business_name'' v, pf_locale = str_at ''locale'' v,
     pf_phone = optional_at ''phone'' v \<rparr>"

definition integrations_js :: js where
  "integrations_js = JObj [
     (''mailbox'', JObj [(''status'', JStr ''connected''), (''simulated'', JBool True)]),
     (''whatsapp'', JObj [(''status'', JStr ''connected''), (''simulated'', JBool True)])]"

definition pro_members :: "ProLists \<Rightarrow> (string \<times> js) list" where
  "pro_members p = [(''clients'', JArr (map client_js (clients p))), (''services'', JArr (map service_js (services p))),
     (''plans'', JArr (map plan_js (plans p))), (''subscriptions'', JArr (map subscription_js (subscriptions p)))]"

definition state_js :: "DemoWorkspaceState \<Rightarrow> js" where
  "state_js s = JObj ([(''profile'', profile_js (ds_profile s)), (''integrations'', integrations_js),
     (''code_services'', JArr (map code_service_js (ds_code_services s))),
     (''blocked_identities'', JArr (map blocked_js (ds_blocked_identities s)))] @
     js_member ''reminder_settings'' reminder_js (ds_reminder_settings s) @
     js_member ''tenant_settings'' tenant_js (ds_tenant_settings s) @
     (case ds_pro s of None \<Rightarrow> [] | Some p \<Rightarrow> pro_members p))"

definition js_pro :: "js \<Rightarrow> ProLists" where
  "js_pro v = \<lparr> clients = list_at js_client ''clients'' v, services = list_at js_service ''services'' v,
     plans = list_at js_plan ''plans'' v, subscriptions = list_at js_subscription ''subscriptions'' v \<rparr>"

definition js_state :: "js \<Rightarrow> DemoWorkspaceState" where
  "js_state v = \<lparr> ds_profile = (case jget v ''profile'' of Some p \<Rightarrow> js_profile p | None \<Rightarrow> js_profile JNull),
     ds_code_services = list_at js_code_service ''code_services'' v,
     ds_blocked_identities = list_at js_blocked ''blocked_identities'' v,
     ds_reminder_settings = map_option js_reminder (jget v ''reminder_settings''),
     ds_tenant_settings = map_option js_tenant (jget v ''tenant_settings''),
     ds_pro = (if jget v ''clients'' = None then None else Some (js_pro v)) \<rparr>"

text \<open>The cast to \<open>DemoWorkspaceState\<close>.\<close>

definition state_of_js :: "js \<Rightarrow> DemoWorkspaceState option" where
  "state_of_js v = (if state_js (js_state v) = v then Some (js_state v) else None)"

section \<open>Codec laws\<close>

lemmas codec_defs = str_at_def nullable_at_def optional_at_def bool_at_def list_at_def js_nullable_def js_member_def

lemma nullable_codec [simp]:
  "jget v k = Some (js_nullable x) \<Longrightarrow> nullable_at k v = x"
  by (cases x) (simp_all add: nullable_at_def js_nullable_def)

lemma js_client_js [simp]: "js_client (client_js c) = c"
  by (simp add: js_client_def client_js_def str_at_def bool_at_def)

lemma js_service_js [simp]: "js_service (service_js c) = c"
  by (simp add: js_service_def service_js_def str_at_def bool_at_def)

lemma js_plan_js [simp]: "js_plan (plan_js c) = c"
  by (simp add: js_plan_def plan_js_def str_at_def bool_at_def)

lemma js_subscription_js [simp]: "js_subscription (subscription_js c) = c"
  by (cases "su_streaming_secret c"; cases "su_pin_secret c")
    (auto simp: js_subscription_def subscription_js_def str_at_def optional_at_def js_member_def js_nullable_def
      nullable_at_def split: option.splits)

lemma js_code_service_js [simp]: "js_code_service (code_service_js c) = c"
  by (simp add: js_code_service_def code_service_js_def str_at_def bool_at_def)

lemma js_blocked_js [simp]: "js_blocked (blocked_js c) = c"
  by (simp add: js_blocked_def blocked_js_def str_at_def)

lemma js_reminder_js [simp]: "js_reminder (reminder_js c) = c"
  by (simp add: js_reminder_def reminder_js_def str_at_def bool_at_def list_at_def js_int_def comp_def)

lemma js_tenant_js [simp]: "js_tenant (tenant_js c) = c"
  by (simp add: js_tenant_def tenant_js_def str_at_def)

lemma js_profile_js [simp]: "js_profile (profile_js c) = c"
  by (cases "pf_phone c")
    (auto simp: js_profile_def profile_js_def str_at_def optional_at_def js_member_def js_nullable_def
      split: option.splits)

lemma map_decoder [simp]:
  "map (js_client \<circ> client_js) xs = xs" "map (js_service \<circ> service_js) ys = ys"
  "map (js_plan \<circ> plan_js) zs = zs" "map (js_subscription \<circ> subscription_js) us = us"
  "map (js_code_service \<circ> code_service_js) vs = vs" "map (js_blocked \<circ> blocked_js) ws = ws"
  by (simp_all add: comp_def)

lemma js_state_js [simp]: "js_state (state_js s) = s"
  by (cases "ds_reminder_settings s"; cases "ds_tenant_settings s"; cases "ds_pro s")
    (simp_all add: js_state_def state_js_def list_at_def js_member_def pro_members_def js_pro_def)

text \<open>The cast accepts exactly the values the program writes.\<close>

lemma state_of_js_iff: "state_of_js v = Some s \<longleftrightarrow> v = state_js s"
  by (auto simp: state_of_js_def)

section \<open>The state as the repository sees it\<close>

text \<open>None of the keys the program writes is forbidden.\<close>

lemma model_keys_allowed:
  "list_all (\<lambda>k. \<not> forbidden_name k) [''id'', ''tenant_id'', ''owner_user_id'', ''full_name'', ''username'', ''phone'',
     ''is_active'', ''created_at'', ''updated_at'', ''name'', ''icon'', ''service_id'', ''price'', ''client_id'', ''plan_id'',
     ''streaming_email'', ''streaming_secret'', ''profile_name'', ''pin_secret'', ''duration_type'', ''starts_at'',
     ''expires_at'', ''cancelled_at'', ''status'']"
  "list_all (\<lambda>k. \<not> forbidden_name k) [''enabled'', ''warning_days'', ''reminder_time'', ''recipient_mode'', ''reminders_enabled'',
     ''custom_message_tenant'', ''custom_message_client'', ''locale'', ''timezone'', ''country'', ''currency'', ''business_name'',
     ''mailbox'', ''whatsapp'', ''simulated'', ''profile'', ''integrations'', ''code_services'', ''blocked_identities'',
     ''reminder_settings'', ''tenant_settings'', ''clients'', ''services'', ''plans'', ''subscriptions'']"
  by code_simp+

lemmas allowed_keys = model_keys_allowed [simplified list.pred_inject simp_thms]

lemma js_nullable_plain [simp]: "\<not> hasForbiddenKey (js_nullable v)" "wf_js (js_nullable v)"
  by (simp_all add: js_nullable_def split: option.split)

lemmas encoders = client_js_def service_js_def plan_js_def subscription_js_def code_service_js_def blocked_js_def
  reminder_js_def tenant_js_def profile_js_def integrations_js_def

lemma records_plain [simp]:
  "\<not> hasForbiddenKey (client_js c)" "\<not> hasForbiddenKey (service_js s)" "\<not> hasForbiddenKey (plan_js p)"
  "\<not> hasForbiddenKey (subscription_js u)" "\<not> hasForbiddenKey (code_service_js cs)" "\<not> hasForbiddenKey (blocked_js b)"
  "\<not> hasForbiddenKey (reminder_js r)" "\<not> hasForbiddenKey (tenant_js t)" "\<not> hasForbiddenKey (profile_js f)"
  "\<not> hasForbiddenKey integrations_js"
  by (auto simp: encoders allowed_keys js_member_def list_ex_iff split: option.splits)

lemma records_wf [simp]:
  "wf_js (client_js c)" "wf_js (service_js s)" "wf_js (plan_js p)" "wf_js (subscription_js u)"
  "wf_js (code_service_js cs)" "wf_js (blocked_js b)" "wf_js (reminder_js r)" "wf_js (tenant_js t)"
  "wf_js (profile_js f)" "wf_js integrations_js"
  by (auto simp: encoders js_member_def list_all_iff split: option.splits)

lemma state_js_plain: "\<not> hasForbiddenKey (state_js s)"
  by (auto simp: state_js_def js_member_def pro_members_def allowed_keys list_ex_iff split: option.splits)

lemma state_js_wf: "wf_js (state_js s)"
  by (auto simp: state_js_def js_member_def pro_members_def list_all_iff split: option.splits)

text \<open>What \<open>isPlanSpecificState\<close> checks beyond the types.\<close>

definition icon_ok :: "Service \<Rightarrow> bool" where
  "icon_ok s = (case sv_icon s of None \<Rightarrow> True | Some i \<Rightarrow> parseIconReference (Some i) \<noteq> None)"

definition state_ok :: "TenantPlan \<Rightarrow> DemoWorkspaceState \<Rightarrow> bool" where
  "state_ok plan s \<longleftrightarrow> pf_locale (ds_profile s) \<in> {''en'', ''es''} \<and>
     (case ds_pro s of None \<Rightarrow> True | Some p \<Rightarrow> plan = Pro \<and> list_all icon_ok (services p))"

lemma service_icon_js [simp]: "isServiceIconValid (service_js s) = icon_ok s"
  by (auto simp: isServiceIconValid_def service_js_def isRecord_def isValidIcon_def icon_ok_def js_nullable_def
      split: option.splits)

lemma record_arrays [simp]:
  "isRecordArray (Some (JArr (map client_js cs))) [''id'', ''tenant_id'', ''full_name'']"
  "isRecordArray (Some (JArr (map service_js ss))) [''id'', ''tenant_id'', ''name'']"
  "isRecordArray (Some (JArr (map plan_js ps))) [''id'', ''tenant_id'', ''service_id'', ''name'']"
  "isRecordArray (Some (JArr (map subscription_js us))) [''id'', ''tenant_id'', ''client_id'', ''service_id'', ''plan_id'']"
  "isRecordArray (Some (JArr (map code_service_js vs))) [''id'', ''name'']"
  "isRecordArray (Some (JArr (map blocked_js bs))) [''id'', ''phone'']"
  by (simp_all add: isRecordArray_def list_all_iff encoders isRecord_def isString_def)

lemma jget_state_js [simp]:
  "jget (state_js s) ''profile'' = Some (profile_js (ds_profile s))"
  "jget (state_js s) ''integrations'' = Some integrations_js"
  "jget (state_js s) ''code_services'' = Some (JArr (map code_service_js (ds_code_services s)))"
  "jget (state_js s) ''blocked_identities'' = Some (JArr (map blocked_js (ds_blocked_identities s)))"
  "jget (state_js s) ''clients'' = map_option (\<lambda>p. JArr (map client_js (clients p))) (ds_pro s)"
  "jget (state_js s) ''services'' = map_option (\<lambda>p. JArr (map service_js (services p))) (ds_pro s)"
  "jget (state_js s) ''plans'' = map_option (\<lambda>p. JArr (map plan_js (plans p))) (ds_pro s)"
  "jget (state_js s) ''subscriptions'' = map_option (\<lambda>p. JArr (map subscription_js (subscriptions p))) (ds_pro s)"
  by (simp_all add: state_js_def js_member_def pro_members_def split: option.split)

lemma jget_profile_js [simp]:
  "jget (profile_js p) ''business_name'' = Some (JStr (pf_business_name p))"
  "jget (profile_js p) ''locale'' = Some (JStr (pf_locale p))"
  by (simp_all add: profile_js_def)

lemma isRecord_models [simp]: "isRecord (Some (profile_js p))" "isRecord (Some integrations_js)" "isRecord (Some (state_js s))"
  by (simp_all add: profile_js_def integrations_js_def state_js_def isRecord_def)

lemma integrations_ok [simp]:
  "connected_integration (jget integrations_js ''mailbox'')" "connected_integration (jget integrations_js ''whatsapp'')"
  by (simp_all add: integrations_js_def connected_integration_def)

lemma valid_profile_state_js:
  "valid_profile_part (state_js s) \<longleftrightarrow> pf_locale (ds_profile s) \<in> {''en'', ''es''}"
  by (auto simp: valid_profile_part_def isString_def)

lemma isPlanSpecificState_js: "isPlanSpecificState (Some (state_js s)) plan \<longleftrightarrow> state_ok plan s"
proof -
  have "isPlanSpecificState (Some v) plan =
     (let hasProKey = list_ex (\<lambda>key. jget v key \<noteq> None) proKeys in
        if hasForbiddenKey v then False
        else if \<not> valid_profile_part v then False
        else if plan = Starter \<and> hasProKey then False
        else if \<not> hasProKey then True
        else if \<not> list_all (\<lambda>key. isArray (jget v key)) proKeys then False
        else isRecordArray (jget v ''clients'') [''id'', ''tenant_id'', ''full_name''] \<and>
          isRecordArray (jget v ''services'') [''id'', ''tenant_id'', ''name''] \<and>
          (case jget v ''services'' of Some (JArr ss) \<Rightarrow> list_all isServiceIconValid ss | _ \<Rightarrow> False) \<and>
          isRecordArray (jget v ''plans'') [''id'', ''tenant_id'', ''service_id'', ''name''] \<and>
          isRecordArray (jget v ''subscriptions'')
            [''id'', ''tenant_id'', ''client_id'', ''service_id'', ''plan_id''])"
    if "isRecord (Some v)" for v
    using that by (auto simp: isRecord_iff isPlanSpecificState_def Let_def simp del: hasForbiddenKey.simps jget.simps)
  then have "isPlanSpecificState (Some (state_js s)) plan \<longleftrightarrow>
     pf_locale (ds_profile s) \<in> {''en'', ''es''} \<and>
     (case ds_pro s of None \<Rightarrow> True | Some p \<Rightarrow> plan \<noteq> Starter \<and> list_all icon_ok (services p))"
    by (cases "ds_pro s")
      (auto simp: state_js_plain valid_profile_state_js proKeys_def isArray_def list_all_iff)
  then show ?thesis by (cases plan) (auto simp: state_ok_def split: option.splits)
qed

section \<open>Reading the state\<close>

definition js_truthy :: "js option \<Rightarrow> bool" where
  "js_truthy v = (case v of None \<Rightarrow> False | Some JNull \<Rightarrow> False | Some (JBool b) \<Rightarrow> b
     | Some (JNum i) \<Rightarrow> i \<noteq> 0 | Some (JStr s) \<Rightarrow> s \<noteq> [] | Some _ \<Rightarrow> True)"

definition starter_checks :: "js \<Rightarrow> bool" where
  "starter_checks ps = (js_truthy (jget ps ''profile'') \<and>
     (let profile = the (jget ps ''profile'') in
       isString (jget profile ''business_name'') \<and>
       (jget profile ''locale'' = Some (JStr ''en'') \<or> jget profile ''locale'' = Some (JStr ''es''))) \<and>
     js_truthy (jget ps ''integrations'') \<and>
     isArray (jget ps ''code_services'') \<and> isArray (jget ps ''blocked_identities''))"

definition readStarterDemoState :: "js \<Rightarrow> demo_error + DemoWorkspaceState option" where
  "readStarterDemoState planSpecific =
     (if \<not> starter_checks planSpecific then Inr None
      else case state_of_js planSpecific of None \<Rightarrow> Inl OffType | Some s \<Rightarrow> Inr (Some s))"

definition readProDemoState :: "js \<Rightarrow> demo_error + DemoWorkspaceState option" where
  "readProDemoState planSpecific =
     (if \<not> starter_checks planSpecific \<or> \<not> list_all (\<lambda>key. isArray (jget planSpecific key)) proKeys then Inr None
      else readStarterDemoState planSpecific)"

lemma js_truthy_records [simp]: "js_truthy (Some (profile_js p))" "js_truthy (Some integrations_js)"
  by (simp_all add: js_truthy_def profile_js_def integrations_js_def)

lemma starter_checks_js: "starter_checks (state_js s) \<longleftrightarrow> pf_locale (ds_profile s) \<in> {''en'', ''es''}"
  by (auto simp: starter_checks_def isString_def isArray_def)

lemma readStarter_js:
  "readStarterDemoState (state_js s) = Inr (if pf_locale (ds_profile s) \<in> {''en'', ''es''} then Some s else None)"
  by (simp add: readStarterDemoState_def starter_checks_js state_of_js_def)

lemma readPro_js:
  "readProDemoState (state_js s) =
     Inr (if pf_locale (ds_profile s) \<in> {''en'', ''es''} \<and> ds_pro s \<noteq> None then Some s else None)"
  by (cases "ds_pro s") (simp_all add: readProDemoState_def starter_checks_js readStarter_js proKeys_def isArray_def)

lemma readStarter_Some: "readStarterDemoState ps = Inr (Some s) \<Longrightarrow> ps = state_js s \<and> pf_locale (ds_profile s) \<in> {''en'', ''es''}"
  by (auto simp: readStarterDemoState_def state_of_js_iff starter_checks_js split: if_splits option.splits)

lemma readPro_Some:
  "readProDemoState ps = Inr (Some s) \<Longrightarrow>
     ps = state_js s \<and> pf_locale (ds_profile s) \<in> {''en'', ''es''} \<and> (\<exists>p. ds_pro s = Some p)"
  by (auto simp: readProDemoState_def proKeys_def isArray_def split: if_splits option.splits dest: readStarter_Some)
     (use readStarter_Some in fastforce)+

section \<open>The baseline\<close>

definition DEMO_BASELINE_VERSION :: int where
  "DEMO_BASELINE_VERSION = 4"

text \<open>\<open>new Date(new Date(origin).getTime() + days * 86_400_000).toISOString()\<close>.\<close>

definition shift_days :: "string \<Rightarrow> int \<Rightarrow> demo_error + string" where
  "shift_days origin days = (case Date_parse origin of None \<Rightarrow> Inl RangeError
     | Some t \<Rightarrow> iso_now (t + days * ms_per_day))"

definition dateAtOffset :: "DemoAuthMetadata \<Rightarrow> int \<Rightarrow> demo_error + string" where
  "dateAtOffset metadata days = shift_days (nullish (md_activatedAt metadata) (md_serverTime metadata)) days"

definition createStarterState :: "DemoAuthMetadata \<Rightarrow> DemoWorkspaceState" where
  "createStarterState metadata = (let locale = nullish (md_locale metadata) ''en'' in \<lparr>
     ds_profile = \<lparr> pf_business_name = md_name metadata, pf_locale = locale, pf_phone = Some None \<rparr>,
     ds_code_services = [
       \<lparr> cs_id = ''disney'', cs_name = ''Disney+'', cs_enabled = True \<rparr>,
       \<lparr> cs_id = ''hbo_max'', cs_name = ''HBO Max'', cs_enabled = True \<rparr>,
       \<lparr> cs_id = ''netflix'', cs_name = ''Netflix'', cs_enabled = True \<rparr>,
       \<lparr> cs_id = ''prime_video'', cs_name = ''Prime Video'', cs_enabled = True \<rparr>,
       \<lparr> cs_id = ''spotify'', cs_name = ''Spotify'', cs_enabled = True \<rparr>,
       \<lparr> cs_id = ''universal_plus'', cs_name = ''Universal+'', cs_enabled = True \<rparr>],
     ds_blocked_identities = [
       \<lparr> bi_id = ''blocked-1'', bi_phone = ''12025550101'' \<rparr>,
       \<lparr> bi_id = ''blocked-2'', bi_phone = ''12025550102'' \<rparr>],
     ds_reminder_settings = Some \<lparr>
       rs_id = ''reminders-'' @ md_tenantId metadata,
       rs_tenant_id = md_tenantId metadata,
       rs_warning_days = [7, 3, 1],
       rs_reminder_time = ''09:00'',
       rs_recipient_mode = ''tenant_only'',
       rs_reminders_enabled = False,
       rs_custom_message_tenant = None,
       rs_custom_message_client = None,
       rs_created_at = md_serverTime metadata,
       rs_updated_at = md_serverTime metadata \<rparr>,
     ds_tenant_settings = Some \<lparr>
       ts_tenant_id = md_tenantId metadata,
       ts_locale = locale,
       ts_timezone = Some ''UTC'',
       ts_country = Some ''US'',
       ts_currency = None,
       ts_created_at = md_serverTime metadata,
       ts_updated_at = md_serverTime metadata \<rparr>,
     ds_pro = None \<rparr>)"

definition client_records :: "(string \<times> string \<times> string \<times> bool \<times> int) list" where
  "client_records = [
     (''Avery Stone'', ''avery_stone'', ''14155552671'', True, -10),
     (''Mina Duarte'', ''mina_duarte'', ''14155552672'', True, -7),
     (''Leo Chen'', ''leo_chen'', ''14155552673'', True, -4),
     (''Priya Nair'', ''priya_nair'', ''14155552674'', False, -2),
     (''Jon Bell'', ''jon_bell'', ''14155552675'', False, -1)]"

text \<open>\<open>xs.map((x, index) => f(x, index))\<close> for a callback that may throw.\<close>

fun map_index_throws :: "nat \<Rightarrow> (nat \<Rightarrow> 'a \<Rightarrow> 'e + 'b) \<Rightarrow> 'a list \<Rightarrow> 'e + 'b list" where
  "map_index_throws i f [] = Inr []"
| "map_index_throws i f (x # xs) = ebind (f i x) (\<lambda>y. ebind (map_index_throws (Suc i) f xs) (\<lambda>ys. Inr (y # ys)))"

definition createProClients :: "DemoAuthMetadata \<Rightarrow> demo_error + Client list" where
  "createProClients metadata = map_index_throws 0 (\<lambda>index (fullName, username, phone, isActive, offset).
     ebind (dateAtOffset metadata offset) (\<lambda>timestamp. Inr \<lparr>
       cl_id = ''client-'' @ md_tenantId metadata @ ''-'' @ nat_to_string (index + 1),
       cl_tenant_id = md_tenantId metadata,
       cl_owner_user_id = ''local-owner-'' @ md_tenantId metadata @ ''-'' @ nat_to_string (index + 1),
       cl_full_name = fullName,
       cl_username = ''demo_'' @ username,
       cl_phone = Some phone,
       cl_is_active = isActive,
       cl_created_at = timestamp,
       cl_updated_at = timestamp \<rparr>)) client_records"

text \<open>A \<open>Map\<close> built from a list of entries keeps the last entry of a key.\<close>

definition js_map :: "('k \<times> 'v) list \<Rightarrow> 'k \<Rightarrow> 'v option" where
  "js_map kvs = map_of (rev kvs)"

text \<open>Using \<open>undefined\<close> as an object throws.\<close>

definition defined :: "'a option \<Rightarrow> demo_error + 'a" where
  "defined v = (case v of None \<Rightarrow> Inl (PlainError ''TypeError'') | Some x \<Rightarrow> Inr x)"

definition service_by_key :: "Service list \<Rightarrow> string \<Rightarrow> demo_error + Service" where
  "service_by_key ss key = defined (js_map (map (\<lambda>s. (last (split_on (CHR ''-'') (sv_id s)), s)) ss) key)"

definition plan_by_name :: "Service list \<Rightarrow> Plan list \<Rightarrow> string \<Rightarrow> string \<Rightarrow> demo_error + Plan" where
  "plan_by_name ss ps name serviceKey = ebind (service_by_key ss serviceKey) (\<lambda>service.
     case find (\<lambda>item. pl_service_id item = sv_id service \<and> toLowerCase (pl_name item) = toLowerCase name) ps of
       Some selected \<Rightarrow> Inr selected
     | None \<Rightarrow> defined (js_map (map (\<lambda>p. (toLowerCase (pl_name p), p)) ps) (toLowerCase name)))"

text \<open>The arguments of \<open>build\<close>: an omitted argument is \<open>None\<close>.\<close>

record subscription_row =
  row_id :: string
  row_client :: nat
  row_service :: string
  row_plan :: string
  row_email :: string
  row_starts :: int
  row_expires :: int
  row_duration :: string
  row_status :: string
  row_secret :: string
  row_profile :: "(string \<times> string) option"
  row_cancelled :: "int option"

definition basico :: string where
  "basico = ''B'' @ [CHR 0xE1] @ ''sico''"

definition subscription_rows :: "subscription_row list" where
  "subscription_rows = [
     \<lparr> row_id = ''subscription-active'', row_client = 0, row_service = ''netflix'', row_plan = basico,
       row_email = ''demo.active@example.test'', row_starts = -14, row_expires = 16, row_duration = ''1_month'',
       row_status = ''active'', row_secret = ''demo-active-secret'', row_profile = None, row_cancelled = None \<rparr>,
     \<lparr> row_id = ''subscription-expiring-7'', row_client = 1, row_service = ''disney'', row_plan = ''Premium'',
       row_email = ''demo.expiring.7@example.test'', row_starts = -23, row_expires = 7, row_duration = ''1_month'',
       row_status = ''active'', row_secret = ''demo-expiring-7-secret'', row_profile = Some (''Perfil Demo 7'', ''7007''), row_cancelled = None \<rparr>,
     \<lparr> row_id = ''subscription-expiring-3'', row_client = 2, row_service = ''hbo_max'', row_plan = basico,
       row_email = ''demo.expiring.3@example.test'', row_starts = -27, row_expires = 3, row_duration = ''1_month'',
       row_status = ''active'', row_secret = ''demo-expiring-3-secret'', row_profile = None, row_cancelled = None \<rparr>,
     \<lparr> row_id = ''subscription-expiring-1'', row_client = 3, row_service = ''prime_video'', row_plan = ''Premium'',
       row_email = ''demo.expiring.1@example.test'', row_starts = -29, row_expires = 1, row_duration = ''1_month'',
       row_status = ''active'', row_secret = ''demo-expiring-1-secret'', row_profile = Some (''Perfil Demo 1'', ''1001''), row_cancelled = None \<rparr>,
     \<lparr> row_id = ''subscription-renewed'', row_client = 0, row_service = ''spotify'', row_plan = ''Individual'',
       row_email = ''demo.renewed@example.test'', row_starts = -5, row_expires = 25, row_duration = ''3_months'',
       row_status = ''active'', row_secret = ''demo-renewed-secret'', row_profile = None, row_cancelled = None \<rparr>,
     \<lparr> row_id = ''subscription-expired'', row_client = 0, row_service = ''universal_plus'', row_plan = basico,
       row_email = ''demo.expired@example.test'', row_starts = -45, row_expires = -15, row_duration = ''1_month'',
       row_status = ''expired'', row_secret = ''demo-expired-secret'', row_profile = None, row_cancelled = None \<rparr>,
     \<lparr> row_id = ''subscription-cancelled'', row_client = 1, row_service = ''netflix'', row_plan = basico,
       row_email = ''demo.cancelled@example.test'', row_starts = -20, row_expires = 10, row_duration = ''1_month'',
       row_status = ''cancelled'', row_secret = ''demo-cancelled-secret'', row_profile = None, row_cancelled = Some (-10) \<rparr>,
     \<lparr> row_id = ''subscription-reactivated'', row_client = 2, row_service = ''disney'', row_plan = basico,
       row_email = ''demo.reactivated@example.test'', row_starts = -8, row_expires = 22, row_duration = ''1_month'',
       row_status = ''cancelled'', row_secret = ''demo-reactivated-secret'', row_profile = Some (''Perfil Reactivado'', ''2222''), row_cancelled = Some (-2) \<rparr>]"

definition build_subscription ::
  "DemoAuthMetadata \<Rightarrow> Client list \<Rightarrow> Service list \<Rightarrow> Plan list \<Rightarrow> subscription_row \<Rightarrow> demo_error + DemoSubscriptionRelation" where
  "build_subscription metadata cs ss ps row = (let at = dateAtOffset metadata in
     ebind (at 0) (\<lambda>now.
     ebind (defined (js_at cs (row_client row))) (\<lambda>client.
     ebind (service_by_key ss (row_service row)) (\<lambda>service.
     ebind (plan_by_name ss ps (row_plan row) (row_service row)) (\<lambda>plan.
     ebind (at (row_starts row)) (\<lambda>startsAt.
     ebind (at (row_expires row)) (\<lambda>expiresAt.
     ebind (case row_cancelled row of None \<Rightarrow> Inr None | Some d \<Rightarrow> ebind (at d) (\<lambda>c. Inr (Some c))) (\<lambda>cancelledAt.
     Inr \<lparr> su_id = md_tenantId metadata @ ''-'' @ row_id row,
       su_tenant_id = md_tenantId metadata,
       su_client_id = cl_id client,
       su_service_id = sv_id service,
       su_plan_id = pl_id plan,
       su_streaming_email = row_email row,
       su_streaming_secret = Some (Some (row_secret row)),
       su_profile_name = map_option fst (row_profile row),
       su_pin_secret = Some (map_option snd (row_profile row)),
       su_duration_type = row_duration row,
       su_starts_at = startsAt,
       su_expires_at = expiresAt,
       su_cancelled_at = cancelledAt,
       su_status = row_status row,
       su_created_at = now,
       su_updated_at = now \<rparr>))))))))"

definition createProSubscriptions ::
  "DemoAuthMetadata \<Rightarrow> Client list \<Rightarrow> Service list \<Rightarrow> Plan list \<Rightarrow> demo_error + DemoSubscriptionRelation list" where
  "createProSubscriptions metadata cs ss ps = map_index_throws 0 (\<lambda>_. build_subscription metadata cs ss ps) subscription_rows"

definition serviceDefinitions :: "(string \<times> string \<times> string) list" where
  "serviceDefinitions = [
     (''service-disney'', ''Disney+'', ''tabler:brand-disney''),
     (''service-hbo_max'', ''HBO Max'', ''simple-icons:max''),
     (''service-netflix'', ''Netflix'', ''simple-icons:netflix''),
     (''service-prime_video'', ''Prime Video'', ''simple-icons:primevideo''),
     (''service-spotify'', ''Spotify'', ''simple-icons:spotify''),
     (''service-universal_plus'', ''Universal+'', ''mdi:television-play'')]"

definition planDefinitions :: "(string \<times> string \<times> string \<times> string option) list" where
  "planDefinitions = [
     (''service-disney'', ''disney-basic'', basico, None),
     (''service-disney'', ''disney-premium'', ''Premium'', Some ''25.00''),
     (''service-hbo_max'', ''hbo-basic'', basico, None),
     (''service-hbo_max'', ''hbo-premium'', ''Premium'', Some ''22.00''),
     (''service-netflix'', ''netflix-basic'', basico, Some ''8.50''),
     (''service-netflix'', ''netflix-premium'', ''Premium HD'', Some ''18.00''),
     (''service-prime_video'', ''prime-basic'', basico, None),
     (''service-prime_video'', ''prime-premium'', ''Premium'', Some ''15.00''),
     (''service-spotify'', ''spotify-individual'', ''Individual'', Some ''9.99''),
     (''service-spotify'', ''spotify-family'', ''Familiar'', Some ''16.99''),
     (''service-universal_plus'', ''universal-basic'', basico, None),
     (''service-universal_plus'', ''universal-premium'', ''Premium'', Some ''12.00'')]"

definition baseline_services :: "DemoAuthMetadata \<Rightarrow> Service list" where
  "baseline_services metadata = map (\<lambda>(id, name, icon). \<lparr>
     sv_id = md_tenantId metadata @ ''-'' @ id, sv_tenant_id = md_tenantId metadata,
     sv_name = name, sv_icon = Some icon,
     sv_created_at = md_serverTime metadata, sv_updated_at = md_serverTime metadata \<rparr>) serviceDefinitions"

definition baseline_plans :: "DemoAuthMetadata \<Rightarrow> Plan list" where
  "baseline_plans metadata = map (\<lambda>(serviceKey, planKey, name, price). \<lparr>
     pl_id = md_tenantId metadata @ ''-'' @ planKey, pl_tenant_id = md_tenantId metadata,
     pl_service_id = md_tenantId metadata @ ''-'' @ serviceKey, pl_name = name, pl_price = price,
     pl_created_at = md_serverTime metadata, pl_updated_at = md_serverTime metadata \<rparr>) planDefinitions"

definition baseline_state :: "TenantPlan \<Rightarrow> DemoAuthMetadata \<Rightarrow> demo_error + DemoWorkspaceState" where
  "baseline_state plan metadata = (let starter = createStarterState metadata in
     if plan = Starter then Inr starter
     else (let ss = baseline_services metadata; ps = baseline_plans metadata in
       ebind (createProClients metadata) (\<lambda>cs.
       ebind (createProSubscriptions metadata cs ss ps) (\<lambda>subs.
         Inr (starter\<lparr>
           ds_tenant_settings := map_option (\<lambda>t. t\<lparr>ts_currency := Some ''USD''\<rparr>) (ds_tenant_settings starter),
           ds_pro := Some \<lparr> clients = cs, services = ss, plans = ps, subscriptions = subs \<rparr>\<rparr>)))))"

definition createDemoBaseline :: PlanBaselineFactory where
  "createDemoBaseline plan metadata =
     ebind (baseline_state plan metadata) (\<lambda>s. Inr (state_js s, JObj [], DEMO_BASELINE_VERSION))"

section \<open>The baseline is a valid state\<close>

text \<open>The dates of the baseline are within 45 days of the origin, all of them representable.\<close>

definition baseline_dates :: "DemoAuthMetadata \<Rightarrow> bool" where
  "baseline_dates metadata = (case Date_parse (nullish (md_activatedAt metadata) (md_serverTime metadata)) of
     None \<Rightarrow> False | Some t \<Rightarrow> \<bar>t\<bar> + 45 * ms_per_day \<le> max_time)"

definition offset_text :: "DemoAuthMetadata \<Rightarrow> int \<Rightarrow> string" where
  "offset_text metadata days = (case dateAtOffset metadata days of Inl e \<Rightarrow> [] | Inr s \<Rightarrow> s)"

lemma ms_per_day_pos: "0 < ms_per_day"
  by (simp add: ms_per_day_def)

lemma dateAtOffset_works:
  assumes "baseline_dates metadata" and "\<bar>days\<bar> \<le> 45"
  shows "dateAtOffset metadata days = Inr (offset_text metadata days)"
proof -
  obtain t where t: "Date_parse (nullish (md_activatedAt metadata) (md_serverTime metadata)) = Some t"
    and range: "\<bar>t\<bar> + 45 * ms_per_day \<le> max_time"
    using assms(1) by (auto simp: baseline_dates_def split: option.splits)
  have "\<bar>days * ms_per_day\<bar> \<le> 45 * ms_per_day"
    using assms(2) ms_per_day_pos by (simp add: abs_mult)
  then have "\<bar>t + days * ms_per_day\<bar> \<le> max_time"
    using range by linarith
  then obtain s where "toISOString (t + days * ms_per_day) = Some s"
    using toISOString_range by blast
  then show ?thesis
    by (simp add: offset_text_def dateAtOffset_def shift_days_def t iso_now_def)
qed

definition baseline_clients :: "DemoAuthMetadata \<Rightarrow> Client list" where
  "baseline_clients metadata = map (\<lambda>(index, fullName, username, phone, isActive, offset). \<lparr>
     cl_id = ''client-'' @ md_tenantId metadata @ ''-'' @ nat_to_string (index + 1),
     cl_tenant_id = md_tenantId metadata,
     cl_owner_user_id = ''local-owner-'' @ md_tenantId metadata @ ''-'' @ nat_to_string (index + 1),
     cl_full_name = fullName, cl_username = ''demo_'' @ username, cl_phone = Some phone, cl_is_active = isActive,
     cl_created_at = offset_text metadata offset, cl_updated_at = offset_text metadata offset \<rparr>)
     (enumerate 0 client_records)"

lemma createProClients_works:
  "baseline_dates metadata \<Longrightarrow> createProClients metadata = Inr (baseline_clients metadata)"
  by (simp add: createProClients_def baseline_clients_def client_records_def dateAtOffset_works)

lemma lower_plan_names:
  "toLowerCase ''Premium'' = ''premium''" "toLowerCase ''Individual'' = ''individual''"
  "toLowerCase ''Premium HD'' = ''premium hd''" "toLowerCase ''Familiar'' = ''familiar''"
  by code_simp+

lemma basico_names: "toLowerCase basico \<noteq> ''premium''" "toLowerCase basico \<noteq> ''individual''"
  "toLowerCase basico \<noteq> ''premium hd''" "toLowerCase basico \<noteq> ''familiar''"
  unfolding basico_def by code_simp+

lemma service_key_tails:
  "last (split_on (CHR ''-'') ''service-disney'') = ''disney''"
  "last (split_on (CHR ''-'') ''service-hbo_max'') = ''hbo_max''"
  "last (split_on (CHR ''-'') ''service-netflix'') = ''netflix''"
  "last (split_on (CHR ''-'') ''service-prime_video'') = ''prime_video''"
  "last (split_on (CHR ''-'') ''service-spotify'') = ''spotify''"
  "last (split_on (CHR ''-'') ''service-universal_plus'') = ''universal_plus''"
  by simp_all

lemma baseline_service_keys:
  "map (\<lambda>s. (last (split_on (CHR ''-'') (sv_id s)), s)) (baseline_services metadata) =
     zip [''disney'', ''hbo_max'', ''netflix'', ''prime_video'', ''spotify'', ''universal_plus'']
       (baseline_services metadata)"
  using last_split_on_glue [of "CHR ''-''" "md_tenantId metadata"] service_key_tails
  by (simp add: baseline_services_def serviceDefinitions_def)

definition baseline_service :: "DemoAuthMetadata \<Rightarrow> nat \<Rightarrow> Service" where
  "baseline_service metadata i = baseline_services metadata ! i"

lemma service_by_key_baseline:
  "service_by_key (baseline_services metadata) ''disney'' = Inr (baseline_service metadata 0)"
  "service_by_key (baseline_services metadata) ''hbo_max'' = Inr (baseline_service metadata 1)"
  "service_by_key (baseline_services metadata) ''netflix'' = Inr (baseline_service metadata 2)"
  "service_by_key (baseline_services metadata) ''prime_video'' = Inr (baseline_service metadata 3)"
  "service_by_key (baseline_services metadata) ''spotify'' = Inr (baseline_service metadata 4)"
  "service_by_key (baseline_services metadata) ''universal_plus'' = Inr (baseline_service metadata 5)"
  unfolding service_by_key_def baseline_service_keys
  by (simp_all add: js_map_def defined_def baseline_services_def serviceDefinitions_def baseline_service_def)

lemma sv_id_baseline_service:
  "sv_id (baseline_service metadata 0) = md_tenantId metadata @ ''-service-disney''"
  "sv_id (baseline_service metadata 1) = md_tenantId metadata @ ''-service-hbo_max''"
  "sv_id (baseline_service metadata 2) = md_tenantId metadata @ ''-service-netflix''"
  "sv_id (baseline_service metadata 3) = md_tenantId metadata @ ''-service-prime_video''"
  "sv_id (baseline_service metadata 4) = md_tenantId metadata @ ''-service-spotify''"
  "sv_id (baseline_service metadata 5) = md_tenantId metadata @ ''-service-universal_plus''"
  by (simp_all add: baseline_service_def baseline_services_def serviceDefinitions_def)

definition baseline_plan :: "DemoAuthMetadata \<Rightarrow> nat \<Rightarrow> Plan" where
  "baseline_plan metadata i = baseline_plans metadata ! i"

lemma plan_by_name_baseline:
  "plan_by_name (baseline_services metadata) (baseline_plans metadata) basico ''netflix'' = Inr (baseline_plan metadata 4)"
  "plan_by_name (baseline_services metadata) (baseline_plans metadata) ''Premium'' ''disney'' = Inr (baseline_plan metadata 1)"
  "plan_by_name (baseline_services metadata) (baseline_plans metadata) basico ''hbo_max'' = Inr (baseline_plan metadata 2)"
  "plan_by_name (baseline_services metadata) (baseline_plans metadata) ''Premium'' ''prime_video'' = Inr (baseline_plan metadata 7)"
  "plan_by_name (baseline_services metadata) (baseline_plans metadata) ''Individual'' ''spotify'' = Inr (baseline_plan metadata 8)"
  "plan_by_name (baseline_services metadata) (baseline_plans metadata) basico ''universal_plus'' = Inr (baseline_plan metadata 10)"
  "plan_by_name (baseline_services metadata) (baseline_plans metadata) basico ''disney'' = Inr (baseline_plan metadata 0)"
  unfolding plan_by_name_def service_by_key_baseline ebind_Inr sv_id_baseline_service
  by (simp_all add: baseline_plan_def baseline_plans_def planDefinitions_def lower_plan_names basico_names)

text \<open>The subscription that a row of the table becomes.\<close>

definition baseline_subscription ::
  "DemoAuthMetadata \<Rightarrow> subscription_row \<Rightarrow> Service \<Rightarrow> Plan \<Rightarrow> DemoSubscriptionRelation" where
  "baseline_subscription metadata row service plan = \<lparr> su_id = md_tenantId metadata @ ''-'' @ row_id row,
       su_tenant_id = md_tenantId metadata, su_client_id = cl_id (baseline_clients metadata ! row_client row),
       su_service_id = sv_id service, su_plan_id = pl_id plan, su_streaming_email = row_email row,
       su_streaming_secret = Some (Some (row_secret row)), su_profile_name = map_option fst (row_profile row),
       su_pin_secret = Some (map_option snd (row_profile row)), su_duration_type = row_duration row,
       su_starts_at = offset_text metadata (row_starts row), su_expires_at = offset_text metadata (row_expires row),
       su_cancelled_at = map_option (offset_text metadata) (row_cancelled row), su_status = row_status row,
       su_created_at = offset_text metadata 0, su_updated_at = offset_text metadata 0 \<rparr>"

lemma length_baseline [simp]:
  "length (baseline_clients metadata) = 5" "length (baseline_services metadata) = 6" "length (baseline_plans metadata) = 12"
  by (simp_all add: baseline_clients_def client_records_def baseline_services_def serviceDefinitions_def
      baseline_plans_def planDefinitions_def)

lemma build_subscription_works:
  assumes "baseline_dates metadata" and "row_client row < 5"
    and "service_by_key ss (row_service row) = Inr service"
    and "plan_by_name ss ps (row_plan row) (row_service row) = Inr plan"
    and "\<bar>row_starts row\<bar> \<le> 45" "\<bar>row_expires row\<bar> \<le> 45" "\<forall>d. row_cancelled row = Some d \<longrightarrow> \<bar>d\<bar> \<le> 45"
  shows "build_subscription metadata (baseline_clients metadata) ss ps row =
    Inr (baseline_subscription metadata row service plan)"
  using assms
  by (simp add: build_subscription_def dateAtOffset_works [OF assms(1)] defined_def baseline_subscription_def
      split: option.split)

definition baseline_subscriptions :: "DemoAuthMetadata \<Rightarrow> DemoSubscriptionRelation list" where
  "baseline_subscriptions metadata = map (\<lambda>(row, i, j). baseline_subscription metadata row
       (baseline_service metadata i) (baseline_plan metadata j))
     (zip subscription_rows [(2, 4), (0, 1), (1, 2), (3, 7), (4, 8), (5, 10), (2, 4), (0, 0)])"

lemma map_index_throws_const:
  "(\<And>x. x \<in> set xs \<Longrightarrow> f x = Inr (g x)) \<Longrightarrow> map_index_throws i (\<lambda>_. f) xs = Inr (map g xs)"
  by (induction xs arbitrary: i) simp_all

lemma createProSubscriptions_works:
  assumes "baseline_dates metadata"
  shows "createProSubscriptions metadata (baseline_clients metadata) (baseline_services metadata) (baseline_plans metadata) =
    Inr (baseline_subscriptions metadata)"
  unfolding createProSubscriptions_def subscription_rows_def baseline_subscriptions_def
  by (simp add: build_subscription_works [OF assms] service_by_key_baseline plan_by_name_baseline)

definition baseline_lists :: "DemoAuthMetadata \<Rightarrow> ProLists" where
  "baseline_lists metadata = \<lparr> clients = baseline_clients metadata, services = baseline_services metadata,
     plans = baseline_plans metadata, subscriptions = baseline_subscriptions metadata \<rparr>"

lemma baseline_state_works:
  assumes "plan = Pro \<Longrightarrow> baseline_dates metadata"
  obtains s where "baseline_state plan metadata = Inr s"
    and "ds_pro s = (if plan = Starter then None else Some (baseline_lists metadata))"
    and "pf_locale (ds_profile s) = nullish (md_locale metadata) ''en''"
proof (cases plan)
  case Starter
  then show thesis
    by (intro that [of "createStarterState metadata"]) (simp_all add: baseline_state_def createStarterState_def Let_def)
next
  case Pro
  with assms have d: "baseline_dates metadata" by simp
  let ?starter = "createStarterState metadata"
  show thesis
    by (rule that [of "?starter\<lparr>ds_tenant_settings := map_option (\<lambda>t. t\<lparr>ts_currency := Some ''USD''\<rparr>) (ds_tenant_settings ?starter),
           ds_pro := Some (baseline_lists metadata)\<rparr>"])
      (simp_all add: baseline_state_def Pro createProClients_works [OF d]
        createProSubscriptions_works [OF d] baseline_lists_def createStarterState_def Let_def)
qed

section \<open>Integrity of the collections\<close>

text \<open>
  Every plan belongs to a service; every subscription refers to a client, a service and a plan of
  that service. No two entries of a collection share an identifier.
\<close>

definition plan_refs :: "ProLists \<Rightarrow> bool" where
  "plan_refs p \<longleftrightarrow> (\<forall>q \<in> set (plans p). pl_service_id q \<in> sv_id ` set (services p))"

definition subscription_refs :: "ProLists \<Rightarrow> DemoSubscriptionRelation \<Rightarrow> bool" where
  "subscription_refs p u \<longleftrightarrow> su_client_id u \<in> cl_id ` set (clients p) \<and> su_service_id u \<in> sv_id ` set (services p) \<and>
     (\<exists>q \<in> set (plans p). pl_id q = su_plan_id u \<and> pl_service_id q = su_service_id u)"

definition refs_ok :: "ProLists \<Rightarrow> bool" where
  "refs_ok p \<longleftrightarrow> plan_refs p \<and> (\<forall>u \<in> set (subscriptions p). subscription_refs p u)"

definition ids_distinct :: "ProLists \<Rightarrow> bool" where
  "ids_distinct p \<longleftrightarrow> distinct (map cl_id (clients p)) \<and> distinct (map sv_id (services p)) \<and>
     distinct (map pl_id (plans p)) \<and> distinct (map su_id (subscriptions p))"

lemma baseline_ids_distinct: "ids_distinct (baseline_lists metadata)"
  by (simp add: ids_distinct_def baseline_lists_def baseline_clients_def client_records_def baseline_services_def
      serviceDefinitions_def baseline_plans_def planDefinitions_def baseline_subscriptions_def subscription_rows_def
      baseline_subscription_def)

lemma baseline_plan_refs: "plan_refs (baseline_lists metadata)"
  by (simp add: plan_refs_def baseline_lists_def baseline_services_def serviceDefinitions_def baseline_plans_def planDefinitions_def)

lemma baseline_subscription_refs:
  assumes "row_client row < 5" and "i < 6" and "j < 12"
    and "pl_service_id (baseline_plan metadata j) = sv_id (baseline_service metadata i)"
  shows "subscription_refs (baseline_lists metadata)
    (baseline_subscription metadata row (baseline_service metadata i) (baseline_plan metadata j))"
  using assms
  by (auto simp: subscription_refs_def baseline_lists_def baseline_subscription_def baseline_service_def baseline_plan_def
      intro!: imageI nth_mem bexI [of _ "baseline_plans metadata ! j"])

lemma baseline_refs_ok: "refs_ok (baseline_lists metadata)"
proof -
  have "list_all (\<lambda>(row, i, j). row_client row < 5 \<and> i < 6 \<and> j < 12 \<and>
      pl_service_id (baseline_plan metadata j) = sv_id (baseline_service metadata i))
    (zip subscription_rows [(2, 4), (0, 1), (1, 2), (3, 7), (4, 8), (5, 10), (2, 4), (0, 0)])"
    by (simp add: subscription_rows_def baseline_plan_def baseline_plans_def planDefinitions_def
        sv_id_baseline_service sv_id_baseline_service(2) [unfolded One_nat_def])
  then have "\<forall>u \<in> set (baseline_subscriptions metadata). subscription_refs (baseline_lists metadata) u"
    by (auto simp: baseline_subscriptions_def list_all_iff intro: baseline_subscription_refs)
  then show ?thesis by (simp add: refs_ok_def baseline_plan_refs) (simp add: baseline_lists_def)
qed

lemma baseline_icons: "list_all icon_ok (baseline_services metadata)"
proof -
  have "list_all (\<lambda>(id, name, icon). parseIconReference (Some icon) \<noteq> None) serviceDefinitions" by code_simp
  then show ?thesis by (auto simp: baseline_services_def icon_ok_def list_all_iff)
qed

lemma baseline_state_ok:
  assumes "baseline_state plan metadata = Inr s" and "plan = Pro \<Longrightarrow> baseline_dates metadata"
    and "md_locale metadata \<in> {None, Some ''en'', Some ''es''}"
  shows "state_ok plan s"
proof -
  obtain s' where "baseline_state plan metadata = Inr s'"
    "ds_pro s' = (if plan = Starter then None else Some (baseline_lists metadata))"
    "pf_locale (ds_profile s') = nullish (md_locale metadata) ''en''"
    using baseline_state_works assms(2) by blast
  with assms(1,3) show ?thesis
    by (cases plan) (auto simp: state_ok_def baseline_lists_def baseline_icons)
qed

lemma wf_createDemoBaseline: "wf_baseline (Some createDemoBaseline)"
  by (auto simp: wf_baseline_def createDemoBaseline_def ebind_eq_Inr state_js_wf)

lemma quiet_createDemoBaseline: "quiet_baseline (Some createDemoBaseline)"
proof -
  have quiet_time: "dateAtOffset m d \<noteq> Inl (StorageError x)" for m d x
    by (auto simp: dateAtOffset_def shift_days_def iso_now_def split: option.split)
  have quiet_defined: "defined v \<noteq> Inl (StorageError x)" for v :: "'a option" and x
    by (simp add: defined_def split: option.split)
  have quiet_map: "map_index_throws i f xs \<noteq> Inl (StorageError x)"
    if "\<And>i y. f i y \<noteq> Inl (StorageError x)" for i xs x and f :: "nat \<Rightarrow> 'a \<Rightarrow> demo_error + 'b"
    using that by (induction xs arbitrary: i) (auto simp: ebind_eq_Inl)
  have "service_by_key ss k \<noteq> Inl (StorageError x)" "plan_by_name ss ps n k \<noteq> Inl (StorageError x)" for ss ps n k x
    by (auto simp: service_by_key_def plan_by_name_def quiet_defined ebind_eq_Inl split: option.split)
  then have "build_subscription m cs ss ps row \<noteq> Inl (StorageError x)" for m cs ss ps row x
    by (auto simp: build_subscription_def Let_def ebind_eq_Inl quiet_time quiet_defined split: option.splits)
  then have "createProSubscriptions m cs ss ps \<noteq> Inl (StorageError x)" and "createProClients m \<noteq> Inl (StorageError x)" for m cs ss ps x
    unfolding createProSubscriptions_def createProClients_def
    by (auto intro!: quiet_map simp: ebind_eq_Inl quiet_time)
  then show ?thesis
    by (auto simp: quiet_baseline_def createDemoBaseline_def baseline_state_def Let_def ebind_eq_Inl)
qed

section \<open>The envelope of the baseline\<close>

text \<open>Metadata for which a workspace can be created.\<close>

definition metadata_ok :: "DemoAuthMetadata \<Rightarrow> bool" where
  "metadata_ok metadata \<longleftrightarrow> md_name metadata \<noteq> [] \<and> md_locale metadata \<in> {None, Some ''en'', Some ''es''} \<and>
     isLifecyclePair (Some (timestampOrNull (md_activatedAt metadata))) (Some (timestampOrNull (md_expiresAt metadata))) \<and>
     (md_plan metadata = Pro \<longrightarrow> baseline_dates metadata)"

lemma createEnvelope_baseline:
  assumes "metadata_ok metadata" and "\<bar>now\<bar> \<le> max_time"
  obtains e s where "createEnvelope metadata (Some createDemoBaseline) now = Inr e"
    and "baseline_state (md_plan metadata) metadata = Inr s" and "jget e ''plan_specific'' = Some (state_js s)"
    and "isWorkspaceEnvelope e (md_tenantId metadata)"
    and "ds_pro s = (if md_plan metadata = Starter then None else Some (baseline_lists metadata))"
proof -
  obtain s where s: "baseline_state (md_plan metadata) metadata = Inr s"
    "ds_pro s = (if md_plan metadata = Starter then None else Some (baseline_lists metadata))"
    "pf_locale (ds_profile s) = nullish (md_locale metadata) ''en''"
  proof (rule baseline_state_works [of "md_plan metadata" metadata])
    show "baseline_dates metadata" if "md_plan metadata = Pro" using that assms(1) by (simp add: metadata_ok_def)
  qed
  obtain sa where sa: "iso_now now = Inr sa"
    using assms(2) toISOString_range [of now] by (auto simp: iso_now_def)
  have ok: "isPlanSpecificState (Some (state_js s)) (md_plan metadata)"
    using baseline_state_ok [OF s(1)] assms(1) by (simp add: isPlanSpecificState_js metadata_ok_def)
  obtain e where e: "createEnvelope metadata (Some createDemoBaseline) now = Inr e"
    "jget e ''plan_specific'' = Some (state_js s)" "isWorkspaceEnvelope e (md_tenantId metadata)"
  proof
    show "createEnvelope metadata (Some createDemoBaseline) now = Inr (JObj [
       (''schema_version'', JNum DEMO_WORKSPACE_SCHEMA_VERSION), (''tenant_id'', JStr (md_tenantId metadata)),
       (''source_name'', JStr (md_name metadata)), (''plan'', JStr (plan_string (md_plan metadata))),
       (''activated_at'', timestampOrNull (md_activatedAt metadata)), (''expires_at'', timestampOrNull (md_expiresAt metadata)),
       (''baseline_version'', JNum DEMO_BASELINE_VERSION), (''plan_specific'', state_js s), (''tour_state'', JObj []),
       (''saved_at'', JStr sa)])" (is "_ = Inr ?e")
      by (simp add: createEnvelope_def createDemoBaseline_def s(1) sa)
    show "jget ?e ''plan_specific'' = Some (state_js s)" by simp
    show "isWorkspaceEnvelope ?e (md_tenantId metadata)"
      unfolding envelope_fields using assms(1) ok iso_now_timestamp [OF sa]
      by (auto simp: metadata_ok_def isRecord_def positive_integer_def DEMO_WORKSPACE_SCHEMA_VERSION_def DEMO_BASELINE_VERSION_def)
  qed
  with s that show thesis by blast
qed

end
