(* ===== verification/DemoStore.thy ===== *)
theory DemoStore
  imports DemoBaseline
begin

text \<open>
  The data services of the demo share one way to work with the workspace: read the state
  (\<open>requireState\<close>), check, and write an updated state (\<open>updateState\<close>). Each service file has
  its own copy of the two helpers, with its own errors; they are instances of \<open>require_state\<close>
  and \<open>update_state\<close> below. The interface of the store is the locale \<open>demo_store\<close>: a store has
  a view, reading returns the view, and an update applies its function to it. A service operation is
  a transaction, and the locale proves once that a transaction is the pure function on the view it
  looks like: on a failed check nothing changes, otherwise the update is applied. The
  interpretations discharge the laws for the repository of \<open>DemoWorkspace\<close>.
\<close>

section \<open>Reading and updating the state\<close>

text \<open>\<open>if (!state) throw err\<close> around one of the readers of \<open>demo-baseline.ts\<close>.\<close>

definition checked :: "(js \<Rightarrow> demo_error + 's option) \<Rightarrow> demo_error \<Rightarrow> js \<Rightarrow> demo_error + 's" where
  "checked rd err ps = ebind (rd ps) (\<lambda>v. case v of None \<Rightarrow> Inl err | Some s \<Rightarrow> Inr s)"

definition require_state ::
  "(js \<Rightarrow> demo_error + DemoWorkspaceState option) \<Rightarrow> demo_error \<Rightarrow> DemoAuthMetadata \<Rightarrow> int \<Rightarrow> DemoWorkspaceState repo_act" where
  "require_state rd err metadata now =
     abind (ensure metadata (Some createDemoBaseline) now) (\<lambda>envelope.
       alift (checked rd err (the (jget envelope ''plan_specific''))))"

definition update_state ::
  "(js \<Rightarrow> demo_error + DemoWorkspaceState option) \<Rightarrow> demo_error \<Rightarrow> demo_error \<Rightarrow> int \<Rightarrow>
   (DemoWorkspaceState \<Rightarrow> DemoWorkspaceState) \<Rightarrow> DemoWorkspaceState repo_act" where
  "update_state rd err missing now updater =
     abind (updatePlanSpecific (\<lambda>ps. ebind (checked rd err ps) (\<lambda>s. Inr (state_js (updater s)))) now) (\<lambda>updated.
       case updated of None \<Rightarrow> athrow missing
       | Some envelope \<Rightarrow> alift (checked rd err (the (jget envelope ''plan_specific''))))"

text \<open>The Pro services work on the four collections; \<open>{ ...state, clients: ... }\<close> keeps the rest.\<close>

definition map_pro :: "(ProLists \<Rightarrow> ProLists) \<Rightarrow> DemoWorkspaceState \<Rightarrow> DemoWorkspaceState" where
  "map_pro f s = s\<lparr>ds_pro := map_option f (ds_pro s)\<rparr>"

definition require_pro :: "demo_error \<Rightarrow> DemoAuthMetadata \<Rightarrow> int \<Rightarrow> ProLists repo_act" where
  "require_pro err metadata now =
     abind (require_state readProDemoState err metadata now) (\<lambda>s. areturn (the (ds_pro s)))"

definition update_pro :: "demo_error \<Rightarrow> demo_error \<Rightarrow> int \<Rightarrow> (ProLists \<Rightarrow> ProLists) \<Rightarrow> ProLists repo_act" where
  "update_pro err missing now updater =
     abind (update_state readProDemoState err missing now (map_pro updater)) (\<lambda>s. areturn (the (ds_pro s)))"

text \<open>
  The shape of a service operation: read the current state, check it and compute what to write,
  write it with an updater that sees the state as it is then, return the computed value.
\<close>

definition transact ::
  "('r, 'e, 's) act \<Rightarrow> (('s \<Rightarrow> 's) \<Rightarrow> ('r, 'e, 's) act) \<Rightarrow> ('s \<Rightarrow> 'e + 'x) \<Rightarrow> ('x \<Rightarrow> 's \<Rightarrow> 's) \<Rightarrow> ('r, 'e, 'x) act" where
  "transact require update check updater =
     abind require (\<lambda>current. abind (alift (check current)) (\<lambda>x. abind (update (updater x)) (\<lambda>_. areturn x)))"

definition query :: "('r, 'e, 's) act \<Rightarrow> ('s \<Rightarrow> 'e + 'x) \<Rightarrow> ('r, 'e, 'x) act" where
  "query require check = abind require (\<lambda>current. alift (check current))"

section \<open>The interface\<close>

locale demo_store =
  fixes ok :: "'r \<Rightarrow> bool"
    and valid :: "'s \<Rightarrow> bool"
    and view :: "'r \<Rightarrow> 's option"
    and require :: "('r, 'e, 's) act"
    and update :: "('s \<Rightarrow> 's) \<Rightarrow> ('r, 'e, 's) act"
  assumes require_law: "ok r \<Longrightarrow> view r = Some s \<Longrightarrow> \<exists>r'. require r = (Inr s, r') \<and> ok r' \<and> view r' = Some s"
    and update_law: "ok r \<Longrightarrow> view r = Some s \<Longrightarrow> valid (f s) \<Longrightarrow>
      \<exists>r'. update f r = (Inr (f s), r') \<and> ok r' \<and> view r' = Some (f s)"
begin

text \<open>A query returns what the pure function says and leaves the view alone.\<close>

lemma query_refines:
  assumes "ok r" and "view r = Some s"
  shows "\<exists>r'. query require q r = (q s, r') \<and> ok r' \<and> view r' = Some s"
proof -
  obtain r' where "require r = (Inr s, r')" "ok r'" "view r' = Some s"
    using require_law [OF assms] by blast
  then show ?thesis by (auto simp: query_def abind_def alift_def)
qed

text \<open>
  A transaction refines the pure step: a failed check is thrown and leaves the view alone, otherwise
  the computed value is returned and the view is updated.
\<close>

lemma transact_refines:
  assumes "ok r" and "view r = Some s" and "\<And>x. check s = Inr x \<Longrightarrow> valid (updater x s)"
  shows "\<exists>r'. transact require update check updater r = (check s, r') \<and> ok r' \<and>
    view r' = Some (case check s of Inl e \<Rightarrow> s | Inr x \<Rightarrow> updater x s)"
proof -
  obtain r1 where r1: "require r = (Inr s, r1)" "ok r1" "view r1 = Some s"
    using require_law [OF assms(1,2)] by blast
  show ?thesis
  proof (cases "check s")
    case (Inl e)
    with r1 show ?thesis by (auto simp: transact_def abind_def alift_def)
  next
    case (Inr x)
    obtain r2 where "update (updater x) r1 = (Inr (updater x s), r2)" "ok r2" "view r2 = Some (updater x s)"
      using update_law [where f = "updater x", OF r1(2,3) assms(3) [OF Inr]] by blast
    with r1 Inr show ?thesis by (auto simp: transact_def abind_def alift_def areturn_def)
  qed
qed

text \<open>The same, read from a run.\<close>

lemma query_result:
  "query require q r = (x, t) \<Longrightarrow> ok r \<Longrightarrow> view r = Some s \<Longrightarrow> x = q s \<and> ok t \<and> view t = Some s"
  using query_refines [of r s q] by auto

lemma transact_result:
  assumes "transact require update check updater r = (x, t)" and "ok r" and "view r = Some s"
    and "\<And>x. check s = Inr x \<Longrightarrow> valid (updater x s)"
  shows "x = check s \<and> ok t \<and> view t = Some (case check s of Inl e \<Rightarrow> s | Inr x \<Rightarrow> updater x s)"
  using transact_refines [of r s check updater] assms by auto

text \<open>Reading or updating, followed by something else.\<close>

lemma query_then:
  assumes "abind (query require q) g r = (x, t)" and "ok r" and "view r = Some s" and "q s = Inr y"
  shows "\<exists>u. g y u = (x, t) \<and> ok u \<and> view u = Some s"
  using query_refines [OF assms(2,3), of q] assms(1,4) by (auto simp: abind_def)

lemma update_then:
  assumes "abind (update f) g r = (x, t)" and "ok r" and "view r = Some s" and "valid (f s)"
  shows "\<exists>u. g (f s) u = (x, t) \<and> ok u \<and> view u = Some (f s)"
proof -
  obtain u where "update f r = (Inr (f s), u)" "ok u" "view u = Some (f s)"
    using update_law [where f = f, OF assms(2-4)] by blast
  with assms(1) show ?thesis by (auto simp: abind_def)
qed

text \<open>An invariant of the views that the pure step keeps is kept by the transaction.\<close>

lemma transact_invariant:
  assumes "ok r" and "view r = Some s" and "I s"
    and "\<And>x. check s = Inr x \<Longrightarrow> valid (updater x s) \<and> I (updater x s)"
  shows "\<exists>s' r'. snd (transact require update check updater r) = r' \<and> ok r' \<and> view r' = Some s' \<and> I s'"
  using transact_refines [of r s check updater] assms by (auto split: sum.splits)

end

section \<open>The repository is such a store\<close>

text \<open>A session: the repository belongs to the tenant of the metadata and its storage works.\<close>

definition session :: "DemoAuthMetadata \<Rightarrow> int \<Rightarrow> DemoWorkspaceRepository \<Rightarrow> bool" where
  "session metadata now r \<longleftrightarrow> repo_ready r \<and> md_tenantId metadata = tenantId r \<and> md_status metadata \<noteq> Expired \<and>
     \<bar>now\<bar> \<le> max_time"

text \<open>The state that the storage holds for the session, if any.\<close>

definition state_view :: "DemoAuthMetadata \<Rightarrow> DemoWorkspaceRepository \<Rightarrow> DemoWorkspaceState option" where
  "state_view metadata r = (case item r (repo_key r) of None \<Rightarrow> None | Some raw \<Rightarrow>
     if raw = [] then None
     else (case parseEnvelope (tenantId r) raw of
       (Some e, migrated) \<Rightarrow>
         if \<not> migrated \<and> matches e metadata \<and> \<not> isExpiredOrphan e metadata
         then state_of_js (the (jget e ''plan_specific'')) else None
     | (None, migrated) \<Rightarrow> None))"

definition pro_view :: "DemoAuthMetadata \<Rightarrow> DemoWorkspaceRepository \<Rightarrow> ProLists option" where
  "pro_view metadata r = (case state_view metadata r of None \<Rightarrow> None | Some s \<Rightarrow> ds_pro s)"

lemma state_view_iff:
  "state_view metadata r = Some s \<longleftrightarrow>
     (\<exists>e. holds_envelope e r \<and> matches e metadata \<and> \<not> isExpiredOrphan e metadata \<and>
        jget e ''plan_specific'' = Some (state_js s))"
proof
  assume "state_view metadata r = Some s"
  then obtain raw e where e: "item r (repo_key r) = Some raw" "raw \<noteq> []" "parseEnvelope (tenantId r) raw = (Some e, False)"
    "matches e metadata" "\<not> isExpiredOrphan e metadata" "the (jget e ''plan_specific'') = state_js s"
    by (auto simp: state_view_def state_of_js_iff split: option.split_asm if_split_asm prod.split_asm)
  moreover obtain kvs where "jget e ''plan_specific'' = Some (JObj kvs)"
    using parseEnvelope_valid [OF e(3)] by (auto simp: envelope_fields dest!: planSpecific_record)
  ultimately show "\<exists>e. holds_envelope e r \<and> matches e metadata \<and> \<not> isExpiredOrphan e metadata \<and>
        jget e ''plan_specific'' = Some (state_js s)"
    by (auto simp: holds_envelope_def)
next
  assume "\<exists>e. holds_envelope e r \<and> matches e metadata \<and> \<not> isExpiredOrphan e metadata \<and>
        jget e ''plan_specific'' = Some (state_js s)"
  then show "state_view metadata r = Some s"
    by (auto simp: holds_envelope_def state_view_def state_of_js_iff)
qed

lemma view_state_ok:
  assumes "state_view metadata r = Some s"
  shows "state_ok (md_plan metadata) s"
proof -
  obtain e where e: "holds_envelope e r" "matches e metadata" "jget e ''plan_specific'' = Some (state_js s)"
    using assms by (auto simp: state_view_iff)
  obtain p where p: "jget e ''plan'' = Some (JStr (plan_string p))" "isPlanSpecificState (jget e ''plan_specific'') p"
    using holds_valid [OF e(1)] by (auto simp: envelope_fields)
  have "p = md_plan metadata"
    using p(1) e(2) by (cases p; cases "md_plan metadata") (auto simp: matches_def plan_string_def)
  with p(2) e(3) show ?thesis by (simp add: isPlanSpecificState_js)
qed

lemma cleaned_up_holds:
  assumes "repo_ready r" and "holds_envelope e r" and "\<not> isExpiredOrphan e metadata"
  shows "holds_envelope e (cleaned_up metadata r)"
proof -
  obtain raw where raw: "item r (repo_key r) = Some raw" "raw \<noteq> []" "parseEnvelope (tenantId r) raw = (Some e, False)"
    using assms(2) by (auto simp: holds_envelope_def)
  have "item (cleaned_up metadata r) (repo_key r) = Some raw"
    using assms(1) raw current_not_dead [OF raw(3) assms(3)]
    by (auto simp: cleaned_up_def map_of_filter_distinct split: option.split)
  with raw show ?thesis by (auto simp: holds_envelope_def)
qed

lemma ensure_view:
  assumes "session metadata now r" and "state_view metadata r = Some s"
  shows "\<exists>e. ensure metadata baseline now r = (Inr e, cleaned_up metadata r) \<and>
    jget e ''plan_specific'' = Some (state_js s) \<and> session metadata now (cleaned_up metadata r) \<and>
    state_view metadata (cleaned_up metadata r) = Some s"
proof -
  obtain e where e: "holds_envelope e r" "matches e metadata" "\<not> isExpiredOrphan e metadata"
    "jget e ''plan_specific'' = Some (state_js s)"
    using assms(2) by (auto simp: state_view_iff)
  have held: "holds_envelope e (cleaned_up metadata r)"
    using assms(1) e by (auto simp: session_def intro: cleaned_up_holds)
  then have "ensure metadata baseline now r = (Inr e, cleaned_up metadata r)"
    using assms(1) ensure_working [of r metadata baseline now] e
    by (auto simp: session_def ensure_after_def holds_envelope_def)
  with held e assms(1) show ?thesis
    by (auto simp: session_def state_view_iff)
qed

text \<open>A reader that accepts the states satisfying \<open>P\<close>.\<close>

definition reads :: "(js \<Rightarrow> demo_error + DemoWorkspaceState option) \<Rightarrow> (DemoWorkspaceState \<Rightarrow> bool) \<Rightarrow> bool" where
  "reads rd P \<longleftrightarrow> (\<forall>s. pf_locale (ds_profile s) \<in> {''en'', ''es''} \<longrightarrow> P s \<longrightarrow> rd (state_js s) = Inr (Some s))"

lemma readers:
  "reads readStarterDemoState (\<lambda>_. True)" "reads readProDemoState (\<lambda>s. ds_pro s \<noteq> None)"
  by (simp_all add: reads_def readStarter_js readPro_js)

lemma checked_reads: "reads rd P \<Longrightarrow> state_ok plan s \<Longrightarrow> P s \<Longrightarrow> checked rd err (state_js s) = Inr s"
  by (auto simp: reads_def checked_def state_ok_def)

lemma require_state_law:
  assumes "reads rd P" and "session metadata now r" and "state_view metadata r = Some s" and "P s"
  shows "\<exists>r'. require_state rd err metadata now r = (Inr s, r') \<and> session metadata now r' \<and> state_view metadata r' = Some s"
proof -
  obtain e where e: "ensure metadata (Some createDemoBaseline) now r = (Inr e, cleaned_up metadata r)"
    "jget e ''plan_specific'' = Some (state_js s)" "session metadata now (cleaned_up metadata r)"
    "state_view metadata (cleaned_up metadata r) = Some s"
    using ensure_view [OF assms(2,3)] by blast
  then show ?thesis
    using checked_reads [OF assms(1) view_state_ok [OF assms(3)] assms(4)]
    by (simp add: require_state_def abind_def alift_def)
qed

lemma same_expiry:
  assumes "jget e' ''expires_at'' = jget e ''expires_at''"
  shows "isExpiredOrphan e' metadata = isExpiredOrphan e metadata"
  using assms by (simp add: isExpiredOrphan_def)

lemma update_state_law:
  assumes "reads rd P" and "session metadata now r" and "state_view metadata r = Some s" and "P s"
    and "state_ok (md_plan metadata) (f s)" and "P (f s)"
  shows "\<exists>r'. update_state rd err missing now f r = (Inr (f s), r') \<and> session metadata now r' \<and>
    state_view metadata r' = Some (f s)"
proof -
  obtain e where e: "holds_envelope e r" "matches e metadata" "\<not> isExpiredOrphan e metadata"
    "jget e ''plan_specific'' = Some (state_js s)"
    using assms(3) by (auto simp: state_view_iff)
  let ?upd = "\<lambda>ps. ebind (checked rd err ps) (\<lambda>s. Inr (state_js (f s)))"
  have upd: "?upd (the (jget e ''plan_specific'')) = Inr (state_js (f s))"
    using checked_reads [OF assms(1) view_state_ok [OF assms(3)] assms(4)] e(4) by simp
  have plan: "jget e ''plan'' = Some (JStr (plan_string (md_plan metadata)))"
    using e(2) by (simp add: matches_def)
  have ready: "repo_ready r" and now: "\<bar>now\<bar> \<le> max_time" using assms(2) by (simp_all add: session_def)
  obtain e' t where t: "updatePlanSpecific ?upd now r = (Inr (Some e'), t)" "holds_envelope e' t"
    "t = put_item (repo_key r) (JSON_stringify e') r" "jget e' ''plan_specific'' = Some (state_js (f s))"
    "\<forall>k. k \<notin> {''plan_specific'', ''saved_at''} \<longrightarrow> jget e' k = jget e k"
    by (rule update_works [where updater = ?upd, OF ready e(1) plan upd _ state_js_wf now])
      (simp add: isPlanSpecificState_js assms(5))
  have kept: "jget e' ''plan'' = jget e ''plan''" "jget e' ''source_name'' = jget e ''source_name''"
    "jget e' ''tenant_id'' = jget e ''tenant_id''" "jget e' ''expires_at'' = jget e ''expires_at''"
    by (rule t(5) [rule_format], simp)+
  then have "matches e' metadata" using e(2) unfolding matches_def kept by simp
  moreover note same_expiry [OF kept(4)]
  ultimately have "state_view metadata t = Some (f s)"
    unfolding state_view_iff using t(2,4) e(3) by blast
  moreover have "session metadata now t"
    using assms(2) t(3) by (simp add: session_def)
  ultimately show ?thesis
    using t(1,4) checked_reads [OF assms(1,5,6)]
    by (simp add: update_state_def abind_def alift_def)
qed

text \<open>The settings services see the whole state, the Pro services the four collections.\<close>

interpretation starter: demo_store "session metadata now" "state_ok (md_plan metadata)" "state_view metadata"
  "require_state readStarterDemoState err metadata now" "update_state readStarterDemoState err' missing now"
  for metadata now err err' missing
  by unfold_locales (auto intro: require_state_law update_state_law readers)

definition pro_valid :: "ProLists \<Rightarrow> bool" where
  "pro_valid p \<longleftrightarrow> list_all icon_ok (services p)"

lemma pro_view_iff: "pro_view metadata r = Some p \<longleftrightarrow> (\<exists>s. state_view metadata r = Some s \<and> ds_pro s = Some p)"
  by (auto simp: pro_view_def split: option.split)

lemma pro_view_valid: "pro_view metadata r = Some p \<Longrightarrow> pro_valid p"
  by (auto simp: pro_view_iff pro_valid_def state_ok_def dest: view_state_ok)

lemma require_pro_law:
  assumes "session metadata now r" and "pro_view metadata r = Some p"
  shows "\<exists>r'. require_pro err metadata now r = (Inr p, r') \<and> session metadata now r' \<and>
    state_view metadata r' = state_view metadata r \<and> pro_view metadata r' = Some p"
proof -
  obtain s where s: "state_view metadata r = Some s" "ds_pro s = Some p"
    using assms(2) by (auto simp: pro_view_iff)
  obtain r' where r': "require_state readProDemoState err metadata now r = (Inr s, r')" "session metadata now r'"
    "state_view metadata r' = Some s"
    using require_state_law [OF readers(2) assms(1) s(1)] s(2) by auto
  then have "require_pro err metadata now r = (Inr p, r')"
    by (simp add: require_pro_def abind_def areturn_def s(2))
  with r' s show ?thesis by (auto simp: pro_view_iff)
qed

lemma update_pro_law:
  assumes "session metadata now r" and "pro_view metadata r = Some p" and "pro_valid (f p)"
  shows "\<exists>r'. update_pro err missing now f r = (Inr (f p), r') \<and> session metadata now r' \<and>
    state_view metadata r' = map_option (map_pro f) (state_view metadata r) \<and> pro_view metadata r' = Some (f p)"
proof -
  obtain s where s: "state_view metadata r = Some s" "ds_pro s = Some p"
    using assms(2) by (auto simp: pro_view_iff)
  have "state_ok (md_plan metadata) (map_pro f s)"
    using view_state_ok [OF s(1)] s(2) assms(3) by (simp add: state_ok_def map_pro_def pro_valid_def)
  then obtain r' where r': "update_state readProDemoState err missing now (map_pro f) r = (Inr (map_pro f s), r')"
    "session metadata now r'" "state_view metadata r' = Some (map_pro f s)"
    using update_state_law [OF readers(2) assms(1) s(1), of "map_pro f"] s(2) by (auto simp: map_pro_def)
  then have "update_pro err missing now f r = (Inr (f p), r')"
    by (simp add: update_pro_def abind_def areturn_def s(2) map_pro_def)
  with r' s show ?thesis by (auto simp: pro_view_iff map_pro_def)
qed

text \<open>
  A session in which everything but the collections is \<open>rest\<close>: the Pro services keep it.
\<close>

definition rest_view :: "DemoAuthMetadata \<Rightarrow> DemoWorkspaceRepository \<Rightarrow> DemoWorkspaceState option" where
  "rest_view metadata r = map_option (\<lambda>s. s\<lparr>ds_pro := None\<rparr>) (state_view metadata r)"

definition session_at :: "DemoWorkspaceState option \<Rightarrow> DemoAuthMetadata \<Rightarrow> int \<Rightarrow> DemoWorkspaceRepository \<Rightarrow> bool" where
  "session_at rest metadata now r \<longleftrightarrow> session metadata now r \<and> rest_view metadata r = rest"

lemma session_now: "session metadata now r \<Longrightarrow> \<bar>now'\<bar> \<le> max_time \<Longrightarrow> session metadata now' r"
  by (simp add: session_def)

lemma session_at_now: "session_at rest metadata now r \<Longrightarrow> \<bar>now'\<bar> \<le> max_time \<Longrightarrow> session_at rest metadata now' r"
  by (auto simp: session_at_def intro: session_now)

lemma rest_map_pro: "map_option (\<lambda>s. s\<lparr>ds_pro := None\<rparr>) (map_option (map_pro f) v) = map_option (\<lambda>s. s\<lparr>ds_pro := None\<rparr>) v"
  by (cases v) (simp_all add: map_pro_def)

lemma require_pro_at:
  assumes "session_at rest metadata now r" and "pro_view metadata r = Some p"
  shows "\<exists>r'. require_pro err metadata now r = (Inr p, r') \<and> session_at rest metadata now r' \<and> pro_view metadata r' = Some p"
  using require_pro_law [OF _ assms(2), of now err] assms(1) by (auto simp: session_at_def rest_view_def)

lemma update_pro_at:
  assumes "session_at rest metadata now r" and "pro_view metadata r = Some p" and "pro_valid (f p)"
  shows "\<exists>r'. update_pro err missing now f r = (Inr (f p), r') \<and> session_at rest metadata now r' \<and> pro_view metadata r' = Some (f p)"
  using update_pro_law [where f = f, OF _ assms(2,3), of now err missing] assms(1)
  by (auto simp: session_at_def rest_view_def rest_map_pro)

interpretation pro: demo_store "session_at rest metadata now" pro_valid "pro_view metadata"
  "require_pro err metadata now" "update_pro err' missing now"
  for rest metadata now err err' missing
  by unfold_locales (auto intro: require_pro_at update_pro_at)

section \<open>Previews of a deletion\<close>

text \<open>What the deletion of a client, a service or a plan would take with it (\<open>catalog-api.ts\<close>).\<close>

record DeleteSubscriptionRow =
  dr_id :: string
  dr_streaming_email :: string
  dr_client_name :: "string option"
  dr_client_phone :: "string option"
  dr_service_name :: string
  dr_plan_name :: string
  dr_expires_at :: string

record DeletePreview =
  dp_target_type :: string
  dp_target_id :: string
  dp_target_name :: string
  dp_affected_plan_count :: nat
  dp_active_subscription_count :: nat
  dp_historical_subscription_count :: nat
  dp_total_subscription_count :: nat
  dp_active_subscriptions :: "DeleteSubscriptionRow list"
  dp_page :: nat
  dp_page_size :: nat
  dp_total_items :: nat
  dp_total_pages :: nat
  dp_has_next :: bool
  dp_note :: string

section \<open>Starting a session\<close>

text \<open>Without a stored workspace, the first read creates the baseline.\<close>

lemma require_fresh:
  assumes "session metadata now r" and "metadata_ok metadata" and "md_plan metadata = Pro"
    and "item r (repo_key r) = None"
    and "\<not> time_le (parse_js_date (Some (timestampOrNull (md_expiresAt metadata)))) (Date_parse (md_serverTime metadata))"
  shows "\<exists>r' s. require_pro err metadata now r = (Inr (baseline_lists metadata), r') \<and> session metadata now r' \<and>
    baseline_state Pro metadata = Inr s \<and> state_view metadata r' = Some s \<and>
    pro_view metadata r' = Some (baseline_lists metadata)"
proof -
  let ?r = "cleaned_up metadata r"
  have ready: "repo_ready r" "md_tenantId metadata = tenantId r" "md_status metadata \<noteq> Expired" "\<bar>now\<bar> \<le> max_time"
    using assms(1) by (simp_all add: session_def)
  obtain e s where e: "createEnvelope metadata (Some createDemoBaseline) now = Inr e"
    "baseline_state (md_plan metadata) metadata = Inr s" "jget e ''plan_specific'' = Some (state_js s)"
    "isWorkspaceEnvelope e (md_tenantId metadata)"
    "ds_pro s = (if md_plan metadata = Starter then None else Some (baseline_lists metadata))"
    by (rule createEnvelope_baseline [OF assms(2) ready(4)])
  note f = createEnvelope_fields [OF e(1)]
  define t where "t = put_item (repo_key ?r) (JSON_stringify e) ?r"
  have "item ?r (repo_key ?r) = None"
    using assms(4) ready(1) by (auto simp: cleaned_up_def map_of_filter_distinct split: option.split)
  then have "ensure metadata (Some createDemoBaseline) now r = (Inr e, t)"
    using ensure_working [OF ready(1-3), of "Some createDemoBaseline" now] ready e(1,4)
    by (simp add: ensure_after_def save_def abind_aget athen_def t_def areturn_def
        abind_run [where m = "write_envelope _", OF working_repo(2)])
  moreover have "holds_envelope e t"
    unfolding t_def using e(4) f(3) [OF wf_createDemoBaseline] ready(2) by (intro holds_written) simp_all
  then have view: "state_view metadata t = Some s"
    using f(2,4) e(3) assms(5) by (auto simp: state_view_iff isExpiredOrphan_def)
  moreover have "session metadata now t"
    using ready by (simp add: session_def t_def)
  moreover have "checked readProDemoState err (state_js s) = Inr s"
    using checked_reads [OF readers(2) view_state_ok [OF view]] e(5) assms(3) by simp
  ultimately show ?thesis
    using e(2,3,5) assms(3)
    by (auto simp: require_pro_def require_state_def abind_def alift_def areturn_def pro_view_iff)
qed

text \<open>A session on the baseline, for witnesses.\<close>

lemma sample_state:
  "\<exists>r s. session sample_metadata 0 r \<and> baseline_state Pro sample_metadata = Inr s \<and> state_view sample_metadata r = Some s \<and>
     pro_view sample_metadata r = Some (baseline_lists sample_metadata)"
proof -
  have "session sample_metadata 0 sample_repo"
    unfolding session_def using sample_repo_ready
    by (simp add: sample_repo_def created_repo) (simp add: sample_metadata_def max_time_def)
  moreover have "metadata_ok sample_metadata" unfolding metadata_ok_def by code_simp
  moreover have "md_plan sample_metadata = Pro" by (simp add: sample_metadata_def)
  moreover have "item sample_repo (repo_key sample_repo) = None" by code_simp
  moreover have "\<not> time_le (parse_js_date (Some (timestampOrNull (md_expiresAt sample_metadata)))) (Date_parse (md_serverTime sample_metadata))"
    by code_simp
  ultimately show ?thesis using require_fresh by blast
qed

lemma sample_session:
  "\<exists>r rest. session_at rest sample_metadata 0 r \<and> pro_view sample_metadata r = Some (baseline_lists sample_metadata)"
  using sample_state by (auto simp: session_at_def)

end
