(* ===== verification/FreshIds.thy ===== *)
theory FreshIds
  imports DemoStore
begin

text \<open>
  The services of the demo make the identifier of a new row from the clock, so two creations within one
  millisecond can give two rows the same one. Here are the steps in which that does not happen, and what
  follows for the collections: a uniqueness check that skips the row with the identifier being changed
  then keeps the rows themselves apart, not only their identifiers. The main results: \<open>fresh_run\<close>, an
  invariant of such steps holds along a run, and \<open>distinct_iff_uniq\<close>.
\<close>

section \<open>Steps that make new identifiers\<close>

definition new_id :: "('a \<Rightarrow> 'k) \<Rightarrow> 'a list \<Rightarrow> 'a list \<Rightarrow> bool" where
  "new_id key xs ys \<longleftrightarrow> (\<forall>y. ys = xs @ [y] \<longrightarrow> key y \<notin> key ` set xs)"

definition fresh_rows :: "ProLists \<Rightarrow> ProLists \<Rightarrow> bool" where
  "fresh_rows p p' \<longleftrightarrow> new_id cl_id (clients p) (clients p') \<and> new_id sv_id (services p) (services p') \<and>
     new_id pl_id (plans p) (plans p') \<and> new_id su_id (subscriptions p) (subscriptions p')"

definition with_fresh_ids ::
  "DemoAuthMetadata \<Rightarrow> (DemoWorkspaceRepository \<Rightarrow> DemoWorkspaceRepository \<Rightarrow> bool) \<Rightarrow>
   DemoWorkspaceRepository \<Rightarrow> DemoWorkspaceRepository \<Rightarrow> bool" where
  "with_fresh_ids metadata step r t \<longleftrightarrow> step r t \<and>
     (\<forall>p p'. pro_view metadata r = Some p \<longrightarrow> pro_view metadata t = Some p' \<longrightarrow> fresh_rows p p')"

lemma new_id_add [simp]: "new_id key xs (xs @ [y]) \<longleftrightarrow> key y \<notin> key ` set xs"
  by (simp add: new_id_def)

lemma new_id_length: "length ys \<noteq> Suc (length xs) \<Longrightarrow> new_id key xs ys"
  by (auto simp: new_id_def)

lemma new_id_same [simp]: "new_id key xs xs"
  by (simp add: new_id_length)

lemma with_fresh_ids_length:
  assumes "step r t"
    and "\<And>p p'. pro_view metadata r = Some p \<Longrightarrow> pro_view metadata t = Some p' \<Longrightarrow>
      length (clients p') \<le> length (clients p) \<and> length (services p') \<le> length (services p) \<and>
      length (plans p') \<le> length (plans p) \<and> length (subscriptions p') \<le> length (subscriptions p)"
  shows "with_fresh_ids metadata step r t"
  using assms by (fastforce simp: with_fresh_ids_def fresh_rows_def intro!: new_id_length)

section \<open>Runs\<close>

lemma fresh_run:
  assumes "(with_fresh_ids metadata step)\<^sup>*\<^sup>* r t" and "session_at rest metadata now r" and "pro_view metadata r = Some p"
    and "good p"
    and step: "\<And>r t p. step r t \<Longrightarrow> session_at rest metadata now r \<Longrightarrow> pro_view metadata r = Some p \<Longrightarrow>
      \<exists>p'. change p p' \<and> session_at rest metadata now t \<and> pro_view metadata t = Some p'"
    and keep: "\<And>p p'. change p p' \<Longrightarrow> fresh_rows p p' \<Longrightarrow> good p \<Longrightarrow> good p'"
  shows "\<exists>p'. session_at rest metadata now t \<and> pro_view metadata t = Some p' \<and> good p'"
  using assms(1-4)
proof (induction rule: rtranclp_induct)
  case (step y z)
  then obtain q where q: "session_at rest metadata now y" "pro_view metadata y = Some q" "good q" by blast
  from step(2) have z: "step y z" unfolding with_fresh_ids_def by blast
  from assms(5) [OF z q(1,2)] obtain q' where q': "change q q'" "session_at rest metadata now z" "pro_view metadata z = Some q'"
    by blast
  with step(2) q(2) have "fresh_rows q q'" by (simp add: with_fresh_ids_def)
  with q'(1) have "good q'" using q(3) by (rule keep)
  with q'(2,3) show ?case by blast
qed blast

section \<open>Distinct rows\<close>

lemma distinct_iff_uniq:
  assumes "distinct (map key xs)" and "\<And>x y. R x y \<longleftrightarrow> P x \<and> P y \<and> f x = f y"
  shows "distinct (map f (filter P xs)) \<longleftrightarrow> uniq_by key R xs"
proof
  assume "distinct (map f (filter P xs))"
  then show "uniq_by key R xs"
    by (auto simp: uniq_by_def assms(2) distinct_map inj_on_def)
next
  assume u: "uniq_by key R xs"
  have "x = y" if "x \<in> set xs" "y \<in> set xs" "P x" "P y" "f x = f y" for x y
    using uniq_byD [OF u that(1,2)] that assms by (auto simp: distinct_map inj_on_def)
  then show "distinct (map f (filter P xs))"
    using assms(1) by (auto simp: distinct_map inj_on_def)
qed

lemma distinct_iff_uniq_all:
  assumes "distinct (map key xs)" and "\<And>x y. R x y \<longleftrightarrow> f x = f y"
  shows "distinct (map f xs) \<longleftrightarrow> uniq_by key R xs"
  using distinct_iff_uniq [OF assms(1), of R "\<lambda>_. True" f] assms(2) by simp

lemma distinct_map_filter_id: "distinct (map key xs) \<Longrightarrow> distinct (map key (filter P xs))"
  by (rule distinct_map_filter)

end
