(* ===== verification/DemoClients.thy ===== *)
theory DemoClients
  imports FreshIds
begin

text \<open>
  The clients of the demo (\<open>features/demo/services/demo-client-crud.ts\<close>): validation, the
  operations \<open>list\<close>, \<open>create\<close>, \<open>update\<close>, \<open>activate\<close>, \<open>deactivate\<close>, \<open>delete\<close> and the preview of
  a deletion. The main results: user names and phone numbers stay well formed, and
  unique while identifiers are new, a deletion takes the client's subscriptions with it and nothing else, and the preview announces
  what the deletion removes.
\<close>

section \<open>Payloads and previews\<close>

record ClientCreate =
  ccr_full_name :: string
  ccr_local_username :: string
  ccr_phone :: "string option"
  ccr_password :: string

record ClientUpdate =
  cup_full_name :: "string option"
  cup_local_username :: "string option"
  cup_phone :: "string option"

section \<open>Validation\<close>

definition DemoClientError :: "string \<Rightarrow> string \<Rightarrow> demo_error" where
  "DemoClientError kind message = DomainError ''DemoClientError'' kind message"

text \<open>\<open>value.replace(/ {2,}/g, " ")\<close>.\<close>

fun collapse_spaces :: "string \<Rightarrow> string" where
  "collapse_spaces [] = []"
| "collapse_spaces [c] = [c]"
| "collapse_spaces (c # d # s) =
     (if c = CHR '' '' \<and> d = CHR '' '' then collapse_spaces (d # s) else c # collapse_spaces (d # s))"

definition name_char :: "char \<Rightarrow> bool" where
  "name_char c = (is_letter c \<or> is_number_char c \<or> c = CHR '' '')"

definition validateFullName :: "string \<Rightarrow> demo_error + string" where
  "validateFullName value =
     (if value = [] \<or> trim value \<noteq> value \<or> trim value = []
      then Inl (DemoClientError ''client_validation_failed'' ''full_name_required'')
      else if \<not> list_all name_char value
      then Inl (DemoClientError ''client_validation_failed'' ''full_name_invalid_chars'')
      else Inr (collapse_spaces value))"

text \<open>\<open>/^[a-z][a-z0-9_]*$/\<close>.\<close>

definition local_username_pattern :: "string \<Rightarrow> bool" where
  "local_username_pattern s = (case s of [] \<Rightarrow> False
     | c # t \<Rightarrow> is_lower_az c \<and> list_all (\<lambda>d. is_lower_az d \<or> is_digit d \<or> d = CHR ''_'') t)"

definition validateLocalUsername :: "string \<Rightarrow> demo_error + string" where
  "validateLocalUsername value =
     (if value = [] \<or> trim value \<noteq> value \<or> \<not> local_username_pattern value
      then Inl (DemoClientError ''client_validation_failed'' ''local_username_invalid'')
      else if length value > 94
      then Inl (DemoClientError ''client_validation_failed'' ''local_username_too_long'')
      else Inr value)"

text \<open>\<open>[\d\s+().-]\<close>.\<close>

definition phone_char :: "char \<Rightarrow> bool" where
  "phone_char c = (is_digit c \<or> is_space c \<or> c \<in> {CHR ''+'', CHR ''('', CHR '')'', CHR ''.'', CHR ''-''})"

definition normalizePhone :: "string option \<Rightarrow> demo_error + string option" where
  "normalizePhone value = (case value of None \<Rightarrow> Inr None | Some v \<Rightarrow>
     if trim v = [] then Inr None
     else (let raw = trim v; digits = filter is_digit raw in
       if js_includes ''@lid'' raw \<or> \<not> list_all phone_char raw
       then Inl (DemoClientError ''client_validation_failed'' ''phone_invalid'')
       else if length digits < 7 \<or> length digits > 15
       then Inl (DemoClientError ''client_validation_failed'' ''phone_invalid'')
       else Inr (Some digits)))"

definition localUsername :: "Client \<Rightarrow> string" where
  "localUsername client = (if js_startsWith ''demo_'' (cl_username client)
     then drop (length ''demo_'') (cl_username client) else cl_username client)"

definition canonicalUsername :: "string \<Rightarrow> string" where
  "canonicalUsername local = ''demo_'' @ local"

definition client_requireState :: "DemoAuthMetadata \<Rightarrow> int \<Rightarrow> ProLists repo_act" where
  "client_requireState metadata now =
     require_pro (DemoClientError ''client_update_failed'' ''invalid_demo_workspace'') metadata now"

definition client_updateState :: "DemoAuthMetadata \<Rightarrow> int \<Rightarrow> (ProLists \<Rightarrow> ProLists) \<Rightarrow> ProLists repo_act" where
  "client_updateState metadata now updater =
     abind (client_requireState metadata now) (\<lambda>_.
       update_pro (DemoClientError ''client_update_failed'' ''invalid_demo_workspace'')
         (DemoClientError ''client_update_failed'' ''workspace_unavailable'') now updater)"

definition clientDeletePreview :: "ProLists \<Rightarrow> Client \<Rightarrow> DeletePreview" where
  "clientDeletePreview state client =
    (let servicesMap = js_map (map (\<lambda>s. (sv_id s, s)) (services state));
         plansMap = js_map (map (\<lambda>p. (pl_id p, p)) (plans state));
         related = filter (\<lambda>u. su_client_id u = cl_id client) (subscriptions state);
         active = filter (\<lambda>u. su_status u = ''active'') related
     in \<lparr> dp_target_type = ''client'',
       dp_target_id = cl_id client,
       dp_target_name = cl_full_name client,
       dp_affected_plan_count = 0,
       dp_active_subscription_count = length active,
       dp_historical_subscription_count = length related - length active,
       dp_total_subscription_count = length related,
       dp_active_subscriptions = map (\<lambda>u. \<lparr>
         dr_id = su_id u,
         dr_streaming_email = su_streaming_email u,
         dr_client_name = Some (cl_full_name client),
         dr_client_phone = cl_phone client,
         dr_service_name = nullish (map_option sv_name (servicesMap (su_service_id u))) [],
         dr_plan_name = nullish (map_option pl_name (plansMap (su_plan_id u))) [],
         dr_expires_at = su_expires_at u \<rparr>) active,
       dp_page = 1,
       dp_page_size = 10,
       dp_total_items = length active,
       dp_total_pages = page_count (length active) 10,
       dp_has_next = False,
       dp_note = ''frontend.catalog.delete_preview_note'' \<rparr>)"

definition assertUnique :: "Client list \<Rightarrow> string \<Rightarrow> string option \<Rightarrow> string option \<Rightarrow> demo_error + unit" where
  "assertUnique cs local phone exceptId =
     ebind (throw_if (list_ex (\<lambda>c. Some (cl_id c) \<noteq> exceptId \<and> localUsername c = local) cs)
       (DemoClientError ''client_local_username_exists'' ''client_local_username_exists'')) (\<lambda>_.
     throw_if (\<not> falsy phone \<and> list_ex (\<lambda>c. Some (cl_id c) \<noteq> exceptId \<and> cl_phone c = phone) cs)
       (DemoClientError ''phone_already_registered'' ''phone_already_registered''))"

section \<open>Operations\<close>

abbreviation client_not_found :: demo_error where
  "client_not_found \<equiv> DemoClientError ''client_not_found'' ''client_not_found''"

definition active_check :: "string \<Rightarrow> bool \<Rightarrow> int \<Rightarrow> ProLists \<Rightarrow> demo_error + Client" where
  "active_check cid isActive now current =
     ebind (not_found (find_by cl_id cid (clients current)) client_not_found) (\<lambda>existing.
     ebind (iso_now now) (\<lambda>timestamp.
       Inr (existing\<lparr>cl_is_active := isActive, cl_updated_at := timestamp\<rparr>)))"

definition replace_client :: "string \<Rightarrow> Client \<Rightarrow> ProLists \<Rightarrow> ProLists" where
  "replace_client cid updated state = state\<lparr>clients := replace_by cl_id cid updated (clients state)\<rparr>"

definition client_setActive :: "DemoAuthMetadata \<Rightarrow> int \<Rightarrow> string \<Rightarrow> bool \<Rightarrow> Client repo_act" where
  "client_setActive metadata now cid isActive =
     transact (client_requireState metadata now) (client_updateState metadata now)
       (active_check cid isActive now) (replace_client cid)"

definition client_list :: "DemoAuthMetadata \<Rightarrow> int \<Rightarrow> Client list repo_act" where
  "client_list metadata now = query (client_requireState metadata now) (\<lambda>state. Inr (clients state))"

definition create_payload :: "ClientCreate \<Rightarrow> demo_error + string \<times> string \<times> string option" where
  "create_payload payload =
     ebind (validateFullName (ccr_full_name payload)) (\<lambda>fullName.
     ebind (validateLocalUsername (ccr_local_username payload)) (\<lambda>local.
     ebind (normalizePhone (ccr_phone payload)) (\<lambda>phone.
     ebind (throw_if (ccr_password payload = [] \<or> length (ccr_password payload) < 6)
       (DemoClientError ''client_validation_failed'' ''password_too_short'')) (\<lambda>_.
     Inr (fullName, local, phone)))))"

definition create_check ::
  "DemoAuthMetadata \<Rightarrow> int \<Rightarrow> string \<times> string \<times> string option \<Rightarrow> ProLists \<Rightarrow> demo_error + Client" where
  "create_check metadata now parts current = (case parts of (fullName, local, phone) \<Rightarrow>
     ebind (assertUnique (clients current) local phone None) (\<lambda>_.
     let nextIndex = length (clients current) + 1 in
     ebind (iso_now now) (\<lambda>timestamp. Inr \<lparr>
       cl_id = ''client-'' @ md_tenantId metadata @ ''-'' @ nat_to_string nextIndex @ ''-'' @ int_to_string now,
       cl_tenant_id = md_tenantId metadata,
       cl_owner_user_id = ''local-owner-'' @ md_tenantId metadata @ ''-'' @ nat_to_string nextIndex,
       cl_full_name = fullName,
       cl_username = canonicalUsername local,
       cl_phone = phone,
       cl_is_active = True,
       cl_created_at = timestamp,
       cl_updated_at = timestamp \<rparr>)))"

definition add_client :: "Client \<Rightarrow> ProLists \<Rightarrow> ProLists" where
  "add_client client state = state\<lparr>clients := clients state @ [client]\<rparr>"

definition client_create :: "DemoAuthMetadata \<Rightarrow> int \<Rightarrow> ClientCreate \<Rightarrow> Client repo_act" where
  "client_create metadata now payload =
     abind (alift (create_payload payload)) (\<lambda>parts.
       transact (client_requireState metadata now) (client_updateState metadata now)
         (create_check metadata now parts) add_client)"

definition update_check :: "int \<Rightarrow> string \<Rightarrow> ClientUpdate \<Rightarrow> ProLists \<Rightarrow> demo_error + Client" where
  "update_check now cid payload current =
     ebind (not_found (find_by cl_id cid (clients current)) client_not_found) (\<lambda>existing.
     ebind (case cup_full_name payload of None \<Rightarrow> Inr (cl_full_name existing) | Some v \<Rightarrow> validateFullName v) (\<lambda>fullName.
     ebind (case cup_local_username payload of None \<Rightarrow> Inr (localUsername existing)
       | Some v \<Rightarrow> validateLocalUsername v) (\<lambda>local.
     ebind (case cup_phone payload of None \<Rightarrow> Inr (cl_phone existing) | Some v \<Rightarrow> normalizePhone (Some v)) (\<lambda>phone.
     ebind (assertUnique (clients current) local phone (Some cid)) (\<lambda>_.
     ebind (iso_now now) (\<lambda>timestamp.
       Inr (existing\<lparr>cl_full_name := fullName, cl_username := canonicalUsername local, cl_phone := phone,
         cl_updated_at := timestamp\<rparr>)))))))"

definition client_update :: "DemoAuthMetadata \<Rightarrow> int \<Rightarrow> string \<Rightarrow> ClientUpdate \<Rightarrow> Client repo_act" where
  "client_update metadata now cid payload =
     transact (client_requireState metadata now) (client_updateState metadata now)
       (update_check now cid payload) (replace_client cid)"

definition client_deactivate :: "DemoAuthMetadata \<Rightarrow> int \<Rightarrow> string \<Rightarrow> Client repo_act" where
  "client_deactivate metadata now cid = client_setActive metadata now cid False"

definition client_activate :: "DemoAuthMetadata \<Rightarrow> int \<Rightarrow> string \<Rightarrow> Client repo_act" where
  "client_activate metadata now cid = client_setActive metadata now cid True"

definition client_getDeletePreview :: "DemoAuthMetadata \<Rightarrow> int \<Rightarrow> string \<Rightarrow> DeletePreview repo_act" where
  "client_getDeletePreview metadata now cid = query (client_requireState metadata now) (\<lambda>state.
     ebind (not_found (find_by cl_id cid (clients state)) client_not_found) (\<lambda>client.
       Inr (clientDeletePreview state client)))"

definition delete_check :: "string \<Rightarrow> ProLists \<Rightarrow> demo_error + unit" where
  "delete_check cid current =
     ebind (not_found (find_by cl_id cid (clients current)) client_not_found) (\<lambda>client.
       throw_if (cl_is_active client) (DemoClientError ''client_delete_active'' ''client_delete_active''))"

definition delete_client :: "string \<Rightarrow> ProLists \<Rightarrow> ProLists" where
  "delete_client cid state = state\<lparr>clients := remove_by cl_id cid (clients state),
     subscriptions := remove_by su_client_id cid (subscriptions state)\<rparr>"

definition client_delete :: "DemoAuthMetadata \<Rightarrow> int \<Rightarrow> string \<Rightarrow> unit repo_act" where
  "client_delete metadata now cid =
     transact (client_requireState metadata now) (client_updateState metadata now)
       (delete_check cid) (\<lambda>_. delete_client cid)"

section \<open>The service is a client of the store\<close>

lemma client_update_law:
  assumes "session_at rest metadata now r" and "pro_view metadata r = Some p" and "pro_valid (f p)"
  shows "\<exists>r'. client_updateState metadata now f r = (Inr (f p), r') \<and> session_at rest metadata now r' \<and> pro_view metadata r' = Some (f p)"
proof -
  obtain r1 where "client_requireState metadata now r = (Inr p, r1)" "session_at rest metadata now r1" "pro_view metadata r1 = Some p"
    using require_pro_at [OF assms(1,2)] unfolding client_requireState_def by blast
  with update_pro_at [of rest metadata now r1 p f] assms(3) show ?thesis
    unfolding client_updateState_def by (simp add: abind_def)
qed

interpretation cl: demo_store "session_at rest metadata now" pro_valid "pro_view metadata"
  "client_requireState metadata now" "client_updateState metadata now" for rest metadata now
  by unfold_locales (auto simp: client_requireState_def intro: require_pro_at client_update_law)

section \<open>What validation guarantees\<close>

lemma iso_now_works: "\<bar>t\<bar> \<le> max_time \<Longrightarrow> \<exists>s. iso_now t = Inr s"
  using toISOString_range [of t] by (auto simp: iso_now_def)

definition full_name_ok :: "string \<Rightarrow> bool" where
  "full_name_ok s \<longleftrightarrow> s \<noteq> [] \<and> list_all name_char s \<and> \<not> js_includes ''  '' s"

definition phone_ok :: "string option \<Rightarrow> bool" where
  "phone_ok v \<longleftrightarrow> (case v of None \<Rightarrow> True | Some d \<Rightarrow> list_all is_digit d \<and> 7 \<le> length d \<and> length d \<le> 15)"

definition client_wf :: "Client \<Rightarrow> bool" where
  "client_wf c \<longleftrightarrow> full_name_ok (cl_full_name c) \<and> phone_ok (cl_phone c) \<and>
     (let local = localUsername c in
       cl_username c = canonicalUsername local \<and> local_username_pattern local \<and> length local \<le> 94)"

lemma collapse_spaces_nonempty [simp]: "collapse_spaces s = [] \<longleftrightarrow> s = []"
  by (induction s rule: collapse_spaces.induct) auto

lemma set_collapse_spaces: "set (collapse_spaces s) \<subseteq> set s"
  by (induction s rule: collapse_spaces.induct) auto

lemma hd_collapse_spaces: "s \<noteq> [] \<Longrightarrow> hd (collapse_spaces s) = hd s"
  by (induction s rule: collapse_spaces.induct) auto

lemma collapse_spaces_single: "\<not> js_includes ''  '' (collapse_spaces s)"
proof (induction s rule: collapse_spaces.induct)
  case (3 c d s)
  have "hd (collapse_spaces (d # s)) = d" "collapse_spaces (d # s) \<noteq> []"
    by (simp_all add: hd_collapse_spaces del: collapse_spaces.simps)
  then obtain t where "collapse_spaces (d # s) = d # t" by (cases "collapse_spaces (d # s)") auto
  with 3 show ?case by auto
qed auto

lemma validateFullName_ok: "validateFullName v = Inr n \<Longrightarrow> full_name_ok n"
  using set_collapse_spaces [of v] collapse_spaces_single [of v]
  by (auto simp: validateFullName_def full_name_ok_def list_all_iff split: if_splits)

lemma validateLocalUsername_ok: "validateLocalUsername v = Inr n \<Longrightarrow> n = v \<and> local_username_pattern n \<and> length n \<le> 94"
  by (auto simp: validateLocalUsername_def split: if_splits)

lemma normalizePhone_ok: "normalizePhone v = Inr n \<Longrightarrow> phone_ok n"
  by (auto simp: normalizePhone_def phone_ok_def Let_def list_all_iff split: option.splits if_splits)

lemma localUsername_canonical: "cl_username c = canonicalUsername local \<Longrightarrow> localUsername c = local"
  by (simp add: localUsername_def canonicalUsername_def)

lemma assertUnique_ok:
  assumes "assertUnique cs local phone exceptId = Inr u" and "c \<in> set cs" and "Some (cl_id c) \<noteq> exceptId"
  shows "localUsername c \<noteq> local" and "\<not> falsy phone \<Longrightarrow> cl_phone c \<noteq> phone"
  using assms by (auto simp: assertUnique_def ebind_eq_Inr list_ex_iff)

lemma phone_ok_falsy: "phone_ok v \<Longrightarrow> falsy v \<longleftrightarrow> v = None"
  by (cases v) (auto simp: phone_ok_def)

section \<open>The abstract service\<close>

text \<open>Well-formed clients, no two of which share a user name or a phone number.\<close>

definition same_local :: "Client \<Rightarrow> Client \<Rightarrow> bool" where
  "same_local c d \<longleftrightarrow> localUsername c = localUsername d"

definition same_phone :: "Client \<Rightarrow> Client \<Rightarrow> bool" where
  "same_phone c d \<longleftrightarrow> cl_phone c = cl_phone d \<and> cl_phone d \<noteq> None"

abbreviation uniq :: "(Client \<Rightarrow> Client \<Rightarrow> bool) \<Rightarrow> Client list \<Rightarrow> bool" where
  "uniq \<equiv> uniq_by cl_id"

definition clients_inv :: "ProLists \<Rightarrow> bool" where
  "clients_inv p \<longleftrightarrow> list_all client_wf (clients p) \<and> uniq same_local (clients p) \<and> uniq same_phone (clients p)"

text \<open>What the service may do to the collections.\<close>

inductive client_change :: "ProLists \<Rightarrow> ProLists \<Rightarrow> bool" where
  change_none: "client_change p p"
| change_add: "create_payload payload = Inr parts \<Longrightarrow> create_check metadata now parts p = Inr c \<Longrightarrow>
    client_change p (add_client c p)"
| change_update: "update_check now cid payload p = Inr c \<Longrightarrow> client_change p (replace_client cid c p)"
| change_active: "active_check cid b now p = Inr c \<Longrightarrow> client_change p (replace_client cid c p)"
| change_delete: "delete_check cid p = Inr () \<Longrightarrow> client_change p (delete_client cid p)"

text \<open>A call of one of the operations.\<close>

inductive client_step :: "DemoAuthMetadata \<Rightarrow> DemoWorkspaceRepository \<Rightarrow> DemoWorkspaceRepository \<Rightarrow> bool"
  for metadata where
  "client_list metadata now r = (x, t) \<Longrightarrow> \<bar>now\<bar> \<le> max_time \<Longrightarrow> client_step metadata r t"
| "client_create metadata now payload r = (y, t) \<Longrightarrow> \<bar>now\<bar> \<le> max_time \<Longrightarrow> client_step metadata r t"
| "client_update metadata now cid changes r = (y, t) \<Longrightarrow> \<bar>now\<bar> \<le> max_time \<Longrightarrow> client_step metadata r t"
| "client_activate metadata now cid r = (y, t) \<Longrightarrow> \<bar>now\<bar> \<le> max_time \<Longrightarrow> client_step metadata r t"
| "client_deactivate metadata now cid r = (y, t) \<Longrightarrow> \<bar>now\<bar> \<le> max_time \<Longrightarrow> client_step metadata r t"
| "client_getDeletePreview metadata now cid r = (z, t) \<Longrightarrow> \<bar>now\<bar> \<le> max_time \<Longrightarrow> client_step metadata r t"
| "client_delete metadata now cid r = (w, t) \<Longrightarrow> \<bar>now\<bar> \<le> max_time \<Longrightarrow> client_step metadata r t"

lemma lists_kept [simp]:
  "services (add_client c p) = services p" "services (replace_client cid c p) = services p" "services (delete_client cid p) = services p"
  "plans (add_client c p) = plans p" "plans (replace_client cid c p) = plans p" "plans (delete_client cid p) = plans p"
  "subscriptions (add_client c p) = subscriptions p" "subscriptions (replace_client cid c p) = subscriptions p"
  by (simp_all add: add_client_def replace_client_def delete_client_def)

lemma pro_valid_kept [simp]:
  "pro_valid (add_client c p) = pro_valid p" "pro_valid (replace_client cid c p) = pro_valid p"
  "pro_valid (delete_client cid p) = pro_valid p"
  by (simp_all add: pro_valid_def)

text \<open>How the operations run on a session with a view.\<close>

lemma client_transact_result:
  assumes "transact (client_requireState metadata now) (client_updateState metadata now) check updater r = (x, t)"
    and "session_at rest metadata now r" and "pro_view metadata r = Some p" and "\<And>x. pro_valid (updater x p) = pro_valid p"
  shows "x = check p \<and> session_at rest metadata now t \<and>
    pro_view metadata t = Some (case check p of Inl e \<Rightarrow> p | Inr x \<Rightarrow> updater x p)"
  by (rule cl.transact_result [OF assms(1-3)]) (simp add: assms(4) pro_view_valid [OF assms(3)])

lemma client_create_result:
  assumes "client_create metadata now payload r = (x, t)" and "session_at rest metadata now r" and "pro_view metadata r = Some p"
  shows "x = ebind (create_payload payload) (\<lambda>parts. create_check metadata now parts p) \<and> session_at rest metadata now t \<and>
    pro_view metadata t = Some (case x of Inl e \<Rightarrow> p | Inr c \<Rightarrow> add_client c p)"
proof (cases "create_payload payload")
  case (Inl e)
  with assms show ?thesis by (auto simp: client_create_def)
next
  case (Inr parts)
  with assms client_transact_result [of metadata now "create_check metadata now parts" add_client r x t rest p] show ?thesis
    by (auto simp: client_create_def)
qed

lemma client_update_result:
  assumes "client_update metadata now cid changes r = (x, t)" and "session_at rest metadata now r" and "pro_view metadata r = Some p"
  shows "x = update_check now cid changes p \<and> session_at rest metadata now t \<and>
    pro_view metadata t = Some (case x of Inl e \<Rightarrow> p | Inr c \<Rightarrow> replace_client cid c p)"
  using client_transact_result [OF assms(1) [unfolded client_update_def] assms(2,3)] by auto

lemma client_setActive_result:
  assumes "client_setActive metadata now cid b r = (x, t)" and "session_at rest metadata now r" and "pro_view metadata r = Some p"
  shows "x = active_check cid b now p \<and> session_at rest metadata now t \<and>
    pro_view metadata t = Some (case x of Inl e \<Rightarrow> p | Inr c \<Rightarrow> replace_client cid c p)"
  using client_transact_result [OF assms(1) [unfolded client_setActive_def] assms(2,3)] by auto

lemma client_delete_result:
  assumes "client_delete metadata now cid r = (x, t)" and "session_at rest metadata now r" and "pro_view metadata r = Some p"
  shows "x = delete_check cid p \<and> session_at rest metadata now t \<and>
    pro_view metadata t = Some (case x of Inl e \<Rightarrow> p | Inr _ \<Rightarrow> delete_client cid p)"
  using client_transact_result [OF assms(1) [unfolded client_delete_def] assms(2,3)] by auto

lemma client_step_refines:
  assumes "client_step metadata r t" and "session_at rest metadata now0 r" and "pro_view metadata r = Some p"
  shows "\<exists>p'. client_change p p' \<and> session_at rest metadata now0 t \<and> pro_view metadata t = Some p'"
proof -
  have s: "\<bar>now\<bar> \<le> max_time \<Longrightarrow> session_at rest metadata now r" for now
    using assms(2) by (rule session_at_now)
  have same: "session_at rest metadata now t \<Longrightarrow> session_at rest metadata now0 t" for now
    using assms(2) by (simp add: session_at_def session_def)
  from assms(1) show ?thesis
  proof cases
    case (1 now x)
    from cl.query_result [OF 1(1) [unfolded client_list_def] s [OF 1(2)] assms(3)] show ?thesis
      by (auto intro: change_none same)
  next
    case (2 now payload y)
    from client_create_result [OF 2(1) s [OF 2(2)] assms(3)] show ?thesis
      by (cases y) (auto simp: ebind_eq_Inr eq_commute [of "Inr _"] intro: change_none change_add same)
  next
    case (3 now cid changes y)
    from client_update_result [OF 3(1) s [OF 3(2)] assms(3)] show ?thesis
      by (cases y) (auto intro: change_none change_update same dest: sym)
  next
    case (4 now cid y)
    from client_setActive_result [OF 4(1) [unfolded client_activate_def] s [OF 4(2)] assms(3)] show ?thesis
      by (cases y) (auto intro: change_none change_active same dest: sym)
  next
    case (5 now cid y)
    from client_setActive_result [OF 5(1) [unfolded client_deactivate_def] s [OF 5(2)] assms(3)] show ?thesis
      by (cases y) (auto intro: change_none change_active same dest: sym)
  next
    case (6 now cid z)
    from cl.query_result [OF 6(1) [unfolded client_getDeletePreview_def] s [OF 6(2)] assms(3)] show ?thesis
      by (auto intro: change_none same)
  next
    case (7 now cid w)
    from client_delete_result [OF 7(1) s [OF 7(2)] assms(3)] show ?thesis
      by (cases w) (auto intro: change_none change_delete same dest: sym)
  qed
qed

section \<open>Invariants\<close>

lemma create_check_client:
  assumes "create_payload payload = Inr parts" and "create_check metadata now parts p = Inr c"
  shows "client_wf c" and "d \<in> set (clients p) \<Longrightarrow> localUsername d \<noteq> localUsername c"
    and "d \<in> set (clients p) \<Longrightarrow> cl_phone c \<noteq> None \<Longrightarrow> cl_phone d \<noteq> cl_phone c"
proof -
  obtain n l ph where parts: "parts = (n, l, ph)" by (cases parts)
  with assms(1) have ok: "full_name_ok n" "local_username_pattern l" "length l \<le> 94" "phone_ok ph"
    by (auto simp: create_payload_def ebind_eq_Inr dest: validateFullName_ok validateLocalUsername_ok normalizePhone_ok)
  from assms(2) have c: "cl_full_name c = n" "cl_username c = canonicalUsername l" "cl_phone c = ph"
    and u: "\<exists>v. assertUnique (clients p) l ph None = Inr v"
    by (auto simp: create_check_def parts ebind_eq_Inr Let_def)
  have local: "localUsername c = l" using c(2) by (rule localUsername_canonical)
  show "client_wf c" using ok c by (simp add: client_wf_def local)
  show "d \<in> set (clients p) \<Longrightarrow> localUsername d \<noteq> localUsername c"
    using u assertUnique_ok(1) local by fastforce
  show "d \<in> set (clients p) \<Longrightarrow> cl_phone c \<noteq> None \<Longrightarrow> cl_phone d \<noteq> cl_phone c"
    using u assertUnique_ok(2) c ok(4) phone_ok_falsy by fastforce
qed

lemma update_check_client:
  assumes "update_check now cid payload p = Inr c" and "\<forall>d \<in> set (clients p). client_wf d"
  shows "client_wf c" and "cl_id c = cid"
    and "d \<in> set (clients p) \<Longrightarrow> cl_id d \<noteq> cid \<Longrightarrow> localUsername d \<noteq> localUsername c"
    and "d \<in> set (clients p) \<Longrightarrow> cl_id d \<noteq> cid \<Longrightarrow> cl_phone c \<noteq> None \<Longrightarrow> cl_phone d \<noteq> cl_phone c"
proof -
  obtain existing n l ph ts v where ex: "find_by cl_id cid (clients p) = Some existing"
    and n: "(case cup_full_name payload of None \<Rightarrow> Inr (cl_full_name existing) | Some v \<Rightarrow> validateFullName v) = Inr n"
    and l: "(case cup_local_username payload of None \<Rightarrow> Inr (localUsername existing) | Some v \<Rightarrow> validateLocalUsername v) = Inr l"
    and ph: "(case cup_phone payload of None \<Rightarrow> Inr (cl_phone existing) | Some v \<Rightarrow> normalizePhone (Some v)) = Inr ph"
    and u: "assertUnique (clients p) l ph (Some cid) = Inr v"
    and c: "c = existing\<lparr>cl_full_name := n, cl_username := canonicalUsername l, cl_phone := ph, cl_updated_at := ts\<rparr>"
    using assms(1) unfolding update_check_def ebind_eq_Inr not_found_eq by blast
  have ew: "client_wf existing" and eid: "cl_id existing = cid"
    using find_by_SomeD [OF ex] assms(2) by auto
  have ok: "full_name_ok n" "local_username_pattern l" "length l \<le> 94" "phone_ok ph"
  proof -
    show "full_name_ok n"
      using n ew by (cases "cup_full_name payload") (simp_all add: client_wf_def validateFullName_ok)
    show "local_username_pattern l" "length l \<le> 94"
      using l ew validateLocalUsername_ok by (cases "cup_local_username payload"; force simp: client_wf_def Let_def)+
    show "phone_ok ph"
      using ph ew by (cases "cup_phone payload") (simp_all add: client_wf_def normalizePhone_ok)
  qed
  have local: "localUsername c = l" by (rule localUsername_canonical) (simp add: c)
  show "client_wf c" "cl_id c = cid" using ok eid by (simp_all add: client_wf_def local) (simp_all add: c)
  show "d \<in> set (clients p) \<Longrightarrow> cl_id d \<noteq> cid \<Longrightarrow> localUsername d \<noteq> localUsername c"
    using assertUnique_ok(1) [OF u, of d] by (simp add: local)
  show "d \<in> set (clients p) \<Longrightarrow> cl_id d \<noteq> cid \<Longrightarrow> cl_phone c \<noteq> None \<Longrightarrow> cl_phone d \<noteq> cl_phone c"
    using assertUnique_ok(2) [OF u, of d] phone_ok_falsy [OF ok(4)] by (simp add: c)
qed

lemma active_check_client:
  assumes "active_check cid b now p = Inr c"
  shows "\<exists>e \<in> set (clients p). cl_id e = cid \<and> cl_id c = cid \<and> cl_full_name c = cl_full_name e \<and>
    cl_username c = cl_username e \<and> cl_phone c = cl_phone e"
  using assms by (auto simp: active_check_def ebind_eq_Inr dest!: find_by_SomeD)

lemma same_sym: "symp same_local" "symp same_phone"
  by (rule sympI, simp add: same_local_def same_phone_def)+

lemma clients_inv_add:
  assumes "create_payload payload = Inr parts" and "create_check metadata now parts p = Inr c" and "clients_inv p"
  shows "clients_inv (add_client c p)"
proof -
  note c = create_check_client [OF assms(1,2)]
  have "\<forall>d \<in> set (clients p). \<not> same_local d c" "\<forall>d \<in> set (clients p). \<not> same_phone d c"
    using c by (auto simp: same_local_def same_phone_def simp del: not_None_eq)
  then show ?thesis
    using assms(3) c(1) by (simp add: clients_inv_def add_client_def uniq_by_add same_sym)
qed

lemma clients_inv_replace:
  assumes "clients_inv p" and "client_wf c" and "cl_id c = cid"
    and "\<And>d. d \<in> set (clients p) \<Longrightarrow> cl_id d \<noteq> cid \<Longrightarrow> localUsername d \<noteq> localUsername c"
    and "\<And>d. d \<in> set (clients p) \<Longrightarrow> cl_id d \<noteq> cid \<Longrightarrow> cl_phone c \<noteq> None \<Longrightarrow> cl_phone d \<noteq> cl_phone c"
  shows "clients_inv (replace_client cid c p)"
proof -
  have "\<forall>d \<in> set (clients p). cl_id d \<noteq> cid \<longrightarrow> \<not> same_local d c" "\<forall>d \<in> set (clients p). cl_id d \<noteq> cid \<longrightarrow> \<not> same_phone d c"
    using assms(4,5) by (auto simp: same_local_def same_phone_def simp del: not_None_eq)
  then have "uniq same_local (replace_by cl_id cid c (clients p))" "uniq same_phone (replace_by cl_id cid c (clients p))"
    using assms(1,3) by (auto simp: clients_inv_def intro: uniq_by_replace same_sym)
  moreover have "\<forall>d \<in> set (replace_by cl_id cid c (clients p)). client_wf d"
    using assms(1,2) by (auto simp: clients_inv_def list_all_iff dest: in_set_replace_byD)
  ultimately show ?thesis by (simp add: clients_inv_def list_all_iff replace_client_def)
qed

lemma clients_inv_active:
  assumes "active_check cid b now p = Inr c" and "clients_inv p"
  shows "clients_inv (replace_client cid c p)"
proof -
  obtain e where e: "e \<in> set (clients p)" "cl_id e = cid" "cl_id c = cid" "cl_full_name c = cl_full_name e"
    "cl_username c = cl_username e" "cl_phone c = cl_phone e"
    using active_check_client [OF assms(1)] by blast
  have l: "localUsername c = localUsername e" "client_wf c = client_wf e"
    using e by (simp_all add: localUsername_def client_wf_def)
  show ?thesis
  proof (rule clients_inv_replace [OF assms(2)])
    show "client_wf c" "cl_id c = cid" using assms(2) e l by (simp_all add: clients_inv_def list_all_iff)
    show "localUsername d \<noteq> localUsername c" if "d \<in> set (clients p)" "cl_id d \<noteq> cid" for d
      using assms(2) e(1,2) that l(1) uniq_byD [of cl_id same_local "clients p" d e] by (auto simp: clients_inv_def same_local_def)
    show "cl_phone d \<noteq> cl_phone c" if "d \<in> set (clients p)" "cl_id d \<noteq> cid" "cl_phone c \<noteq> None" for d
      using assms(2) e(1,2,6) that uniq_byD [of cl_id same_phone "clients p" d e] by (auto simp: clients_inv_def same_phone_def)
  qed
qed

lemma clients_inv_change: "client_change p p' \<Longrightarrow> clients_inv p \<Longrightarrow> clients_inv p'"
proof (induction rule: client_change.induct)
  case (change_add payload parts metadata now p c)
  then show ?case by (rule clients_inv_add)
next
  case (change_update now cid payload p c)
  then have w: "\<forall>d \<in> set (clients p). client_wf d" by (simp add: clients_inv_def list_all_iff)
  note c = update_check_client [OF change_update(1) w]
  show ?case by (rule clients_inv_replace [OF change_update(2) c])
next
  case (change_active cid b now p c)
  then show ?case by (rule clients_inv_active)
next
  case (change_delete cid p)
  then show ?case by (auto simp: clients_inv_def list_all_iff delete_client_def uniq_by_def)
qed

lemma refs_ok_change: "client_change p p' \<Longrightarrow> refs_ok p \<Longrightarrow> refs_ok p'"
proof (induction rule: client_change.induct)
  case (change_update now cid payload p c)
  have "cl_id c = cid"
    using change_update(1) by (auto simp: update_check_def ebind_eq_Inr dest: find_by_SomeD)
  then have "cl_id ` set (replace_by cl_id cid c (clients p)) = cl_id ` set (clients p)"
    by (metis list.set_map map_key_replace_by)
  with change_update(2) show ?case
    by (simp add: refs_ok_def plan_refs_def subscription_refs_def) (simp add: replace_client_def)
next
  case (change_active cid b now p c)
  then have "cl_id c = cid" using active_check_client by blast
  then have "cl_id ` set (replace_by cl_id cid c (clients p)) = cl_id ` set (clients p)"
    by (metis list.set_map map_key_replace_by)
  with change_active(2) show ?case
    by (simp add: refs_ok_def plan_refs_def subscription_refs_def) (simp add: replace_client_def)
qed (auto simp: refs_ok_def plan_refs_def subscription_refs_def add_client_def delete_client_def)

text \<open>The services, plans and subscriptions a client operation leaves are the ones it found.\<close>

lemma client_change_others:
  "client_change p p' \<Longrightarrow> services p' = services p \<and> plans p' = plans p \<and> set (subscriptions p') \<subseteq> set (subscriptions p)"
  by (induction rule: client_change.induct) (auto simp: delete_client_def)

lemma client_records_ok:
  "list_all (\<lambda>(fullName, username, phone, isActive, offset). full_name_ok fullName \<and> local_username_pattern username \<and>
     length username \<le> 94 \<and> phone_ok (Some phone)) client_records"
  unfolding full_name_ok_def phone_ok_def by code_simp

lemma clients_inv_baseline: "clients_inv (baseline_lists metadata)"
proof -
  have "list_all client_wf (baseline_clients metadata)"
    using client_records_ok
    by (simp add: baseline_clients_def client_records_def client_wf_def localUsername_def canonicalUsername_def)
  moreover have "uniq same_local (baseline_clients metadata)" "uniq same_phone (baseline_clients metadata)"
    by (simp_all add: uniq_by_def baseline_clients_def client_records_def same_local_def same_phone_def localUsername_def)
  ultimately show ?thesis by (simp add: clients_inv_def baseline_lists_def)
qed

text \<open>With distinct identifiers, no two rows share a user name or a phone number.\<close>

definition clients_ok :: "ProLists \<Rightarrow> bool" where
  "clients_ok p \<longleftrightarrow> list_all client_wf (clients p) \<and> distinct (map cl_id (clients p)) \<and>
     distinct (map localUsername (clients p)) \<and>
     distinct (map cl_phone (filter (\<lambda>c. cl_phone c \<noteq> None) (clients p)))"

lemma clients_ok_iff: "clients_ok p \<longleftrightarrow> clients_inv p \<and> distinct (map cl_id (clients p))"
proof -
  have "distinct (map localUsername (clients p)) \<longleftrightarrow> uniq same_local (clients p)"
    and "distinct (map cl_phone (filter (\<lambda>c. cl_phone c \<noteq> None) (clients p))) \<longleftrightarrow> uniq same_phone (clients p)"
    if "distinct (map cl_id (clients p))"
    by (rule distinct_iff_uniq_all [OF that], simp add: same_local_def)
      (rule distinct_iff_uniq [OF that], auto simp: same_phone_def simp del: not_None_eq)
  then show ?thesis by (auto simp: clients_ok_def clients_inv_def)
qed

lemma clients_ok_change:
  assumes "client_change p p'" and "fresh_rows p p'" and "clients_ok p"
  shows "clients_ok p'"
proof -
  have "distinct (map cl_id (clients p'))"
    using assms
  proof (induction rule: client_change.induct)
    case (change_update now cid payload p c)
    then have "cl_id c = cid" using update_check_client(2) by (simp add: clients_ok_def list_all_iff)
    with change_update.prems show ?case by (simp add: clients_ok_def replace_client_def map_key_replace_by)
  next
    case (change_active cid b now p c)
    then have "cl_id c = cid" using active_check_client by blast
    with change_active.prems show ?case by (simp add: clients_ok_def replace_client_def map_key_replace_by)
  qed (auto simp: clients_ok_def fresh_rows_def add_client_def delete_client_def distinct_remove_by)
  with assms clients_inv_change show ?thesis by (simp add: clients_ok_iff)
qed

lemma clients_ok_baseline: "clients_ok (baseline_lists metadata)"
  using baseline_ids_distinct [of metadata] by (simp add: clients_ok_iff clients_inv_baseline ids_distinct_def)

section \<open>Properties\<close>

text \<open>
  C20. Clients stay well formed and unique. Start from a session whose clients are well formed and in which no
  identifier, no user name and no phone number is used twice, and run any sequence of client operations, each created
  client getting an identifier that no client has (the code makes it from the number of clients and the millisecond).
  Then no two rows have the same identifier, user name or phone number, and all are well formed.
  Without new identifiers this fails: see \<open>twin_clients_share_username\<close>.
\<close>

theorem clients_stay_unique:
  assumes "(with_fresh_ids metadata (client_step metadata))\<^sup>*\<^sup>* r t"
    and "session_at rest metadata now r" and "pro_view metadata r = Some p" and "clients_ok p"
  shows "\<exists>p'. session_at rest metadata now t \<and> pro_view metadata t = Some p' \<and>
     list_all client_wf (clients p') \<and> distinct (map cl_id (clients p')) \<and>
     distinct (map localUsername (clients p')) \<and>
     distinct (map cl_phone (filter (\<lambda>c. cl_phone c \<noteq> None) (clients p')))"
proof -
  have "\<exists>p'. session_at rest metadata now t \<and> pro_view metadata t = Some p' \<and> clients_ok p'"
    by (rule fresh_run [where change = client_change and good = clients_ok, OF assms]) (blast intro: client_step_refines clients_ok_change)+
  then show ?thesis unfolding clients_ok_def .
qed

theorem clients_stay_unique_witness:
  "\<exists>r t p. client_step sample_metadata r t \<and> pro_view sample_metadata t = Some p \<and> distinct (map localUsername (clients p)) \<and>
     map cl_id (filter (\<lambda>c. \<not> cl_is_active c) (clients p)) = [''client-t1-1'', ''client-t1-4'', ''client-t1-5'']"
proof -
  obtain r rest where r: "session_at rest sample_metadata 0 r" "pro_view sample_metadata r = Some (baseline_lists sample_metadata)"
    using sample_session by blast
  obtain x t where run: "client_deactivate sample_metadata 0 ''client-t1-1'' r = (x, t)" by fastforce
  then have step: "client_step sample_metadata r t"
    by (rule client_step.intros(5)) (simp add: max_time_def)
  note res = client_setActive_result [OF run [unfolded client_deactivate_def] r]
  have "with_fresh_ids sample_metadata (client_step sample_metadata) r t"
    by (rule with_fresh_ids_length [where step = "client_step sample_metadata", OF step]) (use r(2) res in \<open>auto split: sum.splits simp: replace_client_def\<close>)
  from clients_stay_unique [OF r_into_rtranclp [where r = "with_fresh_ids sample_metadata (client_step sample_metadata)", OF this] r clients_ok_baseline]
  obtain p where p: "pro_view sample_metadata t = Some p" "distinct (map localUsername (clients p))" by blast
  have "case active_check ''client-t1-1'' False 0 (baseline_lists sample_metadata) of Inl e \<Rightarrow> False
    | Inr c \<Rightarrow> map cl_id (filter (\<lambda>c. \<not> cl_is_active c) (clients (replace_client ''client-t1-1'' c (baseline_lists sample_metadata)))) =
        [''client-t1-1'', ''client-t1-4'', ''client-t1-5'']" by code_simp
  with res p(1) have "map cl_id (filter (\<lambda>c. \<not> cl_is_active c) (clients p)) = [''client-t1-1'', ''client-t1-4'', ''client-t1-5'']"
    by (auto split: sum.splits)
  with p step show ?thesis by (intro exI conjI)
qed

text \<open>
  What happens within one millisecond: a client created after another was deleted gets the identifier of the one
  created before it, and deactivating it replaces both rows by one, so two rows have one user name.
\<close>

definition twin_clients :: "demo_error + ProLists" where
  "twin_clients =
    (let p = \<lparr> clients = [], services = [], plans = [], subscriptions = [] \<rparr>;
         create = (\<lambda>name p. ebind (create_check sample_metadata 0 (''Ana'', name, None) p) (\<lambda>c. Inr (add_client c p)));
         stop = (\<lambda>cid t p. ebind (active_check cid False t p) (\<lambda>c. Inr (replace_client cid c p)));
         drop = (\<lambda>cid p. ebind (delete_check cid p) (\<lambda>_. Inr (delete_client cid p))) in
     ebind (create ''first'' p) (\<lambda>p. ebind (create ''second'' p) (\<lambda>p. ebind (stop ''client-t1-1-0'' 0 p) (\<lambda>p.
     ebind (drop ''client-t1-1-0'' p) (\<lambda>p. ebind (create ''third'' p) (\<lambda>p. stop ''client-t1-2-0'' 0 p))))))"

lemma twin_clients_share_username:
  "case twin_clients of Inl e \<Rightarrow> False | Inr p \<Rightarrow> map localUsername (clients p) = [''second'', ''second'']"
  by code_simp

text \<open>
  C21. Deletion cascades: deleting an unknown client or an active one is refused and changes
  nothing; deleting an inactive client removes it and its subscriptions, and keeps everything else.
\<close>

theorem client_delete_cascades:
  assumes "session_at rest metadata now r" and "pro_view metadata r = Some p" and "client_delete metadata now cid r = (x, t)"
  shows "case find_by cl_id cid (clients p) of
      None \<Rightarrow> x = Inl client_not_found \<and> pro_view metadata t = Some p
    | Some c \<Rightarrow> if cl_is_active c
        then x = Inl (DemoClientError ''client_delete_active'' ''client_delete_active'') \<and> pro_view metadata t = Some p
        else x = Inr () \<and> pro_view metadata t = Some \<lparr>
          clients = filter (\<lambda>d. cl_id d \<noteq> cid) (clients p), services = services p, plans = plans p,
          subscriptions = filter (\<lambda>u. su_client_id u \<noteq> cid) (subscriptions p) \<rparr>"
  using client_delete_result [OF assms(3,1,2)]
  by (auto simp: delete_check_def not_found_def throw_if_def delete_client_def remove_by_def split: option.split)

theorem client_delete_cascades_witness:
  "\<exists>r t. pro_view sample_metadata r = Some (baseline_lists sample_metadata) \<and>
     client_delete sample_metadata 0 ''nobody'' r = (Inl client_not_found, t) \<and>
     pro_view sample_metadata t = Some (baseline_lists sample_metadata)"
proof -
  obtain r rest where r: "session_at rest sample_metadata 0 r" "pro_view sample_metadata r = Some (baseline_lists sample_metadata)"
    using sample_session by blast
  obtain x t where run: "client_delete sample_metadata 0 ''nobody'' r = (x, t)" by fastforce
  have "find_by cl_id ''nobody'' (clients (baseline_lists sample_metadata)) = None"
    by (simp add: baseline_lists_def baseline_clients_def client_records_def find_by_def)
  with client_delete_cascades [OF r run] r(2) run show ?thesis by auto
qed

text \<open>
  The preview is exact: the subscriptions it counts are the ones the deletion removes, it
  splits them into active and historical, and it lists exactly the active ones.
\<close>

theorem client_preview_exact:
  assumes "session_at rest metadata now r" and "pro_view metadata r = Some p"
    and "client_getDeletePreview metadata now cid r = (Inr preview, t)"
    and "client_delete metadata now' cid t = (Inr (), u)" and "\<bar>now'\<bar> \<le> max_time"
  shows "\<exists>p'. pro_view metadata u = Some p' \<and>
    dp_total_subscription_count preview = length (subscriptions p) - length (subscriptions p') \<and>
    dp_active_subscription_count preview + dp_historical_subscription_count preview = dp_total_subscription_count preview \<and>
    map dr_id (dp_active_subscriptions preview) =
      map su_id (filter (\<lambda>v. su_client_id v = cid \<and> su_status v = ''active'') (subscriptions p))"
proof -
  obtain c where c: "find_by cl_id cid (clients p) = Some c" "preview = clientDeletePreview p c"
    and t: "session_at rest metadata now t" "pro_view metadata t = Some p"
    using cl.query_result [OF assms(3) [unfolded client_getDeletePreview_def] assms(1,2)] by (auto dest!: sym [of "Inr _"] simp: ebind_eq_Inr)
  have cid: "cl_id c = cid" using find_by_SomeD [OF c(1)] by simp
  have u: "pro_view metadata u = Some (delete_client cid p)"
    using client_delete_result [OF assms(4) session_at_now [OF t(1) assms(5)] t(2)] by simp
  have split: "length (filter P xs) + length (filter (\<lambda>x. \<not> P x) xs) = length xs" for P and xs :: "DemoSubscriptionRelation list"
    by (rule sum_length_filter_compl)
  have "length (filter (\<lambda>v. su_client_id v = cid) (subscriptions p)) =
      length (subscriptions p) - length (remove_by su_client_id cid (subscriptions p))"
    using split [of "\<lambda>v. su_client_id v = cid" "subscriptions p"] by (simp add: remove_by_def)
  moreover have "length (filter (\<lambda>v. su_client_id v = cid \<and> su_status v = ''active'') (subscriptions p)) \<le>
      length (filter (\<lambda>v. su_client_id v = cid) (subscriptions p))"
    by (rule length_filter_conj_le)
  ultimately show ?thesis
    using u by (simp add: c(2) clientDeletePreview_def Let_def cid delete_client_def comp_def conj_commute)
qed

theorem client_preview_exact_witness:
  "\<exists>r t u preview. client_getDeletePreview sample_metadata 0 ''client-t1-4'' r = (Inr preview, t) \<and>
     client_delete sample_metadata 0 ''client-t1-4'' t = (Inr (), u) \<and>
     dp_active_subscription_count preview + dp_historical_subscription_count preview = dp_total_subscription_count preview"
proof -
  obtain r rest where r: "session_at rest sample_metadata 0 r" "pro_view sample_metadata r = Some (baseline_lists sample_metadata)"
    using sample_session by blast
  obtain x t where run: "client_getDeletePreview sample_metadata 0 ''client-t1-4'' r = (x, t)" by fastforce
  have "case find_by cl_id ''client-t1-4'' (clients (baseline_lists sample_metadata)) of None \<Rightarrow> False | Some c \<Rightarrow> \<not> cl_is_active c"
    by code_simp
  then obtain c where c: "find_by cl_id ''client-t1-4'' (clients (baseline_lists sample_metadata)) = Some c" "\<not> cl_is_active c"
    by (auto split: option.splits)
  have x: "x = Inr (clientDeletePreview (baseline_lists sample_metadata) c)" and t: "session_at rest sample_metadata 0 t"
    "pro_view sample_metadata t = Some (baseline_lists sample_metadata)"
    using cl.query_result [OF run [unfolded client_getDeletePreview_def] r] by (simp_all add: c not_found_def)
  obtain y u where del: "client_delete sample_metadata 0 ''client-t1-4'' t = (y, u)" by fastforce
  have y: "y = Inr ()"
    using client_delete_result [OF del t] c by (simp add: delete_check_def not_found_def)
  have "\<bar>0\<bar> \<le> max_time" by (simp add: max_time_def)
  from client_preview_exact [OF r run [unfolded x] del [unfolded y] this] run del show ?thesis
    unfolding x y by blast
qed

end
