(* ===== verification/JsNumber.thy ===== *)
theory JsNumber
  imports JsText
begin

text \<open>
  \<open>Number(text)\<close> on a trimmed string, as far as the sources use it: whether the result is a
  finite number and whether it is negative. A decimal literal is kept exactly, as a sign, a mantissa
  and a decimal exponent; \<open>Number.isFinite\<close> and the comparison with zero take the rounding to a
  double into account (a literal of at least \<open>2 ^ 1024 - 2 ^ 970\<close> rounds to infinity, one of at most
  \<open>2 ^ -1075\<close> to zero).
\<close>

datatype js_number =
    NaN
  | Infinite bool
  | Finite bool nat int

text \<open>\<open>m\<close> times ten to the \<open>e\<close> as a quotient of naturals.\<close>

definition decimal_num :: "nat \<Rightarrow> int \<Rightarrow> nat" where
  "decimal_num m e = m * 10 ^ nat e"

definition decimal_den :: "int \<Rightarrow> nat" where
  "decimal_den e = 10 ^ nat (- e)"

definition Number_isFinite :: "js_number \<Rightarrow> bool" where
  "Number_isFinite v = (case v of NaN \<Rightarrow> False | Infinite b \<Rightarrow> False
     | Finite b m e \<Rightarrow> decimal_num m e < (2 ^ 1024 - 2 ^ 970) * decimal_den e)"

definition Number_less_zero :: "js_number \<Rightarrow> bool" where
  "Number_less_zero v = (case v of NaN \<Rightarrow> False | Infinite b \<Rightarrow> b
     | Finite b m e \<Rightarrow> b \<and> decimal_den e < decimal_num m e * 2 ^ 1075)"

text \<open>The exponent part: nothing, or \<open>e\<close> with an optional sign and digits.\<close>

definition parse_exponent :: "string \<Rightarrow> int option" where
  "parse_exponent s = (case s of [] \<Rightarrow> Some 0
     | c # t \<Rightarrow> if c \<noteq> CHR ''e'' \<and> c \<noteq> CHR ''E'' then None
        else (let negative = (t \<noteq> [] \<and> hd t = CHR ''-'');
                  ds = (if t \<noteq> [] \<and> (hd t = CHR ''-'' \<or> hd t = CHR ''+'') then tl t else t) in
          if ds = [] \<or> \<not> list_all is_digit ds then None
          else Some (if negative then - int (digits_value ds) else int (digits_value ds))))"

definition parse_decimal :: "bool \<Rightarrow> string \<Rightarrow> js_number" where
  "parse_decimal negative s =
    (if s = ''Infinity'' then Infinite negative
     else (let whole = takeWhile is_digit s; rest = dropWhile is_digit s;
               dotted = (rest \<noteq> [] \<and> hd rest = CHR ''.'');
               frac = (if dotted then takeWhile is_digit (tl rest) else []);
               end_part = (if dotted then dropWhile is_digit (tl rest) else rest) in
       if whole = [] \<and> frac = [] then NaN
       else (case parse_exponent end_part of None \<Rightarrow> NaN
         | Some e \<Rightarrow> Finite negative (digits_value (whole @ frac)) (e - int (length frac)))))"

text \<open>Literals with a base prefix have no sign.\<close>

definition radix_digit :: "char \<Rightarrow> nat option" where
  "radix_digit c = (if is_digit c then Some (code c - 48)
     else if is_lower_az c then Some (code c - 87) else if is_upper_az c then Some (code c - 55) else None)"

definition parse_radix :: "nat \<Rightarrow> string \<Rightarrow> js_number" where
  "parse_radix b s =
    (if s \<noteq> [] \<and> list_all (\<lambda>c. case radix_digit c of None \<Rightarrow> False | Some d \<Rightarrow> d < b) s
     then Finite False (foldl (\<lambda>n c. n * b + (case radix_digit c of None \<Rightarrow> 0 | Some d \<Rightarrow> d)) 0 s) 0
     else NaN)"

definition Number_of :: "string \<Rightarrow> js_number" where
  "Number_of text =
    (let s = trim text in
     if s = [] then Finite False 0 0
     else if take 2 s \<in> {''0x'', ''0X''} then parse_radix 16 (drop 2 s)
     else if take 2 s \<in> {''0o'', ''0O''} then parse_radix 8 (drop 2 s)
     else if take 2 s \<in> {''0b'', ''0B''} then parse_radix 2 (drop 2 s)
     else if hd s = CHR ''-'' then parse_decimal True (tl s)
     else if hd s = CHR ''+'' then parse_decimal False (tl s)
     else parse_decimal False s)"

text \<open>Amounts: digits, possibly with a point and more digits.\<close>

lemma decimal_small: "m < 2 ^ 1000 \<Longrightarrow> e \<le> 0 \<Longrightarrow> Number_isFinite (Finite b m e)"
proof -
  assume m: "m < 2 ^ 1000" and e: "e \<le> 0"
  have "(2::nat) ^ 1000 \<le> 2 ^ 1024 - 2 ^ 970" by simp
  also have "\<dots> \<le> (2 ^ 1024 - 2 ^ 970) * decimal_den e" by (simp add: decimal_den_def)
  finally show ?thesis using m e by (simp add: Number_isFinite_def decimal_num_def)
qed

lemma digits_first:
  assumes "list_all is_digit ds" and "ds \<noteq> []"
  shows "hd (ds @ s) \<noteq> CHR ''-'' \<and> hd (ds @ s) \<noteq> CHR ''+'' \<and> hd (ds @ s) \<noteq> CHR ''I''"
  using assms by (cases ds) (auto simp: is_digit_def)

lemma takeWhile_digits_append:
  "list_all is_digit ds \<Longrightarrow> s = [] \<or> \<not> is_digit (hd s) \<Longrightarrow> takeWhile is_digit (ds @ s) = ds \<and> dropWhile is_digit (ds @ s) = s"
  by (induction ds; cases s) auto

lemma parse_decimal_amount:
  assumes "list_all is_digit ds" and "ds \<noteq> []" and "list_all is_digit fs"
  shows "parse_decimal b (ds @ CHR ''.'' # fs) = Finite b (digits_value (ds @ fs)) (- int (length fs))"
    and "parse_decimal b ds = Finite b (digits_value ds) 0"
proof -
  have dot: "\<not> is_digit (CHR ''.'')" by (simp add: is_digit_def)
  have inf: "ds @ s \<noteq> ''Infinity''" for s
    using digits_first [OF assms(1,2), of s] by auto
  have ds: "takeWhile is_digit ds = ds" "dropWhile is_digit ds = []"
    using takeWhile_digits_append [OF assms(1), of "[]"] by simp_all
  have fs: "takeWhile is_digit fs = fs" "dropWhile is_digit fs = []"
    using takeWhile_digits_append [OF assms(3), of "[]"] by simp_all
  show "parse_decimal b (ds @ CHR ''.'' # fs) = Finite b (digits_value (ds @ fs)) (- int (length fs))"
    using takeWhile_digits_append [OF assms(1), of "CHR ''.'' # fs"] inf [of "CHR ''.'' # fs"] assms(2) dot
    by (simp add: parse_decimal_def Let_def parse_exponent_def fs)
  show "parse_decimal b ds = Finite b (digits_value ds) 0"
    using inf [of "[]"] assms(2) by (simp add: parse_decimal_def Let_def parse_exponent_def ds)
qed

lemma Number_of_amount:
  assumes "list_all is_digit ds" and "ds \<noteq> []" and "list_all is_digit fs"
  shows "Number_of (ds @ CHR ''.'' # fs) = Finite False (digits_value (ds @ fs)) (- int (length fs))"
    and "Number_of ds = Finite False (digits_value ds) 0"
proof -
  have dot: "\<not> is_digit (CHR ''.'')" "\<not> is_space (CHR ''.'')" by (simp_all add: is_digit_def is_space_def)
  have tr: "trim (ds @ CHR ''.'' # fs) = ds @ CHR ''.'' # fs"
    using assms dot digit_not_space
    by (intro trim_conv) (auto simp: trimmed_def list_all_iff last_append)
  have two: "take 2 (ds @ CHR ''.'' # fs) \<notin> {''0x'', ''0X'', ''0o'', ''0O'', ''0b'', ''0B''}"
    "take 2 ds \<notin> {''0x'', ''0X'', ''0o'', ''0O'', ''0b'', ''0B''}"
    using assms(1,2) by (cases ds; cases "tl ds"; auto simp: is_digit_def)+
  show "Number_of (ds @ CHR ''.'' # fs) = Finite False (digits_value (ds @ fs)) (- int (length fs))"
    unfolding Number_of_def tr Let_def
    using two(1) digits_first [OF assms(1,2), of "CHR ''.'' # fs"] parse_decimal_amount(1) [OF assms] by simp
  show "Number_of ds = Finite False (digits_value ds) 0"
    unfolding Number_of_def digit_string_trim [OF assms(1)] Let_def
    using two(2) digits_first [OF assms(1,2), of "[]"] parse_decimal_amount(2) [OF assms] assms(2) by simp
qed

end
