(* ===== verification/JsSort.thy ===== *)
theory JsSort
  imports TpPrelude "HOL-Library.Multiset"
begin

text \<open>
  \<open>[...xs].sort(compare)\<close>. The language fixes the result when the comparison function is
  consistent: the stable rearrangement in ascending order. The definition is a stable insertion sort;
  its lemmas give order, content and stability, which together determine the result.
\<close>

type_synonym 'a comparison = "'a \<Rightarrow> 'a \<Rightarrow> int"

fun sort_insert :: "'a comparison \<Rightarrow> 'a \<Rightarrow> 'a list \<Rightarrow> 'a list" where
  "sort_insert cmp x [] = [x]"
| "sort_insert cmp x (y # ys) = (if cmp x y \<le> 0 then x # y # ys else y # sort_insert cmp x ys)"

definition js_sort :: "'a comparison \<Rightarrow> 'a list \<Rightarrow> 'a list" where
  "js_sort cmp xs = foldr (sort_insert cmp) xs []"

text \<open>A consistent comparison function: reflexive, antisymmetric in sign, transitive.\<close>

definition consistent :: "'a comparison \<Rightarrow> bool" where
  "consistent cmp \<longleftrightarrow> (\<forall>x. cmp x x = 0) \<and> (\<forall>x y. cmp x y \<le> 0 \<longleftrightarrow> 0 \<le> cmp y x) \<and>
     (\<forall>x y z. cmp x y \<le> 0 \<longrightarrow> cmp y z \<le> 0 \<longrightarrow> cmp x z \<le> 0)"

abbreviation in_order :: "'a comparison \<Rightarrow> 'a list \<Rightarrow> bool" where
  "in_order cmp \<equiv> sorted_wrt (\<lambda>x y. cmp x y \<le> 0)"

lemma js_sort_simps [simp]: "js_sort cmp [] = []" "js_sort cmp (x # xs) = sort_insert cmp x (js_sort cmp xs)"
  by (simp_all add: js_sort_def)

lemma mset_sort_insert: "mset (sort_insert cmp x ys) = add_mset x (mset ys)"
  by (induction ys) auto

lemma mset_js_sort [simp]: "mset (js_sort cmp xs) = mset xs"
  by (induction xs) (simp_all add: mset_sort_insert)

lemma set_sort_insert [simp]: "set (sort_insert cmp x ys) = insert x (set ys)"
  by (induction ys) auto

lemma set_js_sort [simp]: "set (js_sort cmp xs) = set xs"
  by (induction xs) simp_all

lemma length_js_sort [simp]: "length (js_sort cmp xs) = length xs"
  by (metis mset_js_sort size_mset)

lemma consistentD:
  assumes "consistent cmp"
  shows "cmp x x = 0" and "cmp x y \<le> 0 \<longleftrightarrow> 0 \<le> cmp y x" and "cmp x y \<le> 0 \<Longrightarrow> cmp y z \<le> 0 \<Longrightarrow> cmp x z \<le> 0"
  using assms unfolding consistent_def by blast+

lemma in_order_insert: "consistent cmp \<Longrightarrow> in_order cmp ys \<Longrightarrow> in_order cmp (sort_insert cmp x ys)"
proof (induction ys)
  case (Cons y ys)
  show ?case
  proof (cases "cmp x y \<le> 0")
    case True
    with Cons.prems show ?thesis by (auto intro: consistentD(3))
  next
    case False
    then have "cmp y x \<le> 0" using consistentD(2) [OF Cons.prems(1), of y x] by simp
    with False Cons show ?thesis by auto
  qed
qed simp

lemma in_order_js_sort: "consistent cmp \<Longrightarrow> in_order cmp (js_sort cmp xs)"
  by (induction xs) (simp_all add: in_order_insert)

text \<open>Stability: the entries that compare equal to \<open>k\<close> keep their order.\<close>

lemma filter_sort_insert:
  assumes "consistent cmp" and "in_order cmp ys"
  shows "filter (\<lambda>y. cmp k y = 0) (sort_insert cmp x ys) = filter (\<lambda>y. cmp k y = 0) (x # ys)"
  using assms(2)
proof (induction ys)
  case (Cons y ys)
  show ?case
  proof (cases "cmp x y \<le> 0")
    case False
    have "cmp k x \<noteq> 0 \<or> cmp k y \<noteq> 0"
    proof (rule ccontr)
      assume "\<not> ?thesis"
      then have "cmp x k \<le> 0" "cmp k y \<le> 0" using consistentD(2) [OF assms(1), of x k] by simp_all
      with False consistentD(3) [OF assms(1)] show False by blast
    qed
    with False Cons show ?thesis by auto
  qed simp
qed simp

lemma js_sort_stable: "consistent cmp \<Longrightarrow> filter (\<lambda>y. cmp k y = 0) (js_sort cmp xs) = filter (\<lambda>y. cmp k y = 0) xs"
  by (induction xs) (simp_all add: filter_sort_insert in_order_js_sort)

text \<open>A list in order is left alone, so sorting twice is sorting once.\<close>

lemma js_sort_in_order: "in_order cmp xs \<Longrightarrow> js_sort cmp xs = xs"
proof (induction xs)
  case (Cons x xs)
  then have "js_sort cmp xs = xs" by simp
  with Cons.prems show ?case by (cases xs) auto
qed simp

text \<open>Comparing by one key, then by another: \<open>a || b\<close> on the results.\<close>

definition then_by :: "'a comparison \<Rightarrow> 'a comparison \<Rightarrow> 'a comparison" where
  "then_by f g x y = (if f x y \<noteq> 0 then f x y else g x y)"

lemma consistent_then_by:
  assumes f: "consistent f" and g: "consistent g"
  shows "consistent (then_by f g)"
  unfolding consistent_def
proof (intro conjI allI impI)
  fix x y z
  have f2: "f a b \<le> 0 \<longleftrightarrow> 0 \<le> f b a" and f3: "f a b \<le> 0 \<Longrightarrow> f b c \<le> 0 \<Longrightarrow> f a c \<le> 0"
    and g2: "g a b \<le> 0 \<longleftrightarrow> 0 \<le> g b a" and g3: "g a b \<le> 0 \<Longrightarrow> g b c \<le> 0 \<Longrightarrow> g a c \<le> 0" for a b c
    using consistentD [OF f] consistentD [OF g] by blast+
  show "then_by f g x x = 0" using consistentD(1) [OF f] consistentD(1) [OF g] by (simp add: then_by_def)
  show "then_by f g x y \<le> 0 \<longleftrightarrow> 0 \<le> then_by f g y x"
    using f2 [of x y] f2 [of y x] g2 [of x y] by (auto simp: then_by_def)
  assume xy: "then_by f g x y \<le> 0" and yz: "then_by f g y z \<le> 0"
  then have le: "f x y \<le> 0" "f y z \<le> 0" by (auto simp: then_by_def split: if_splits)
  note le = le f3 [OF le]
  show "then_by f g x z \<le> 0"
  proof (cases "f x z = 0")
    case True
    with le have "f y x \<le> 0" "f z y \<le> 0" using f2 [of z x] f3 [of y z x] f3 [of z x y] by auto
    with le have "f x y = 0" "f y z = 0" using f2 [of x y] f2 [of y x] f2 [of y z] f2 [of z y] by auto
    with xy yz True show ?thesis by (auto simp: then_by_def intro: g3)
  qed (use le in \<open>simp add: then_by_def\<close>)
qed

lemma consistent_on: "consistent cmp \<Longrightarrow> consistent (\<lambda>x y. cmp (key x) (key y))"
  unfolding consistent_def by blast

end
