(* ===== verification/DemoCatalog.thy ===== *)
theory DemoCatalog
  imports DemoClients JsNumber JsSort
begin

text \<open>
  The catalog of the demo (\<open>features/demo/services/demo-catalog.ts\<close>): services and their plans.
  Validation of names, icons and prices, the listings, and the operations that create, change and
  delete. \<open>localeCompare\<close> depends on the collation tables of the browser: the two uses are the
  parameters \<open>collate_base\<close> (names, sensitivity \<open>base\<close>) and \<open>collate\<close> (timestamps).
  \<open>toLocaleLowerCase\<close> is \<open>toLowerCase\<close> (a host locale without special casing). The main results:
  names stay unique up to case while identifiers are new (a service name in the catalog, a plan name in its service), icons and
  prices stay valid, deletions cascade to plans and subscriptions, and the listing is the collection in order.
\<close>

section \<open>Payloads\<close>

text \<open>An optional nullable property is absent, \<open>null\<close> or \<open>undefined\<close>, or a string.\<close>

record ServiceCreate =
  scr_name :: string
  scr_icon :: "string option option"

record ServiceUpdate =
  sup_name :: "string option"
  sup_icon :: "string option option"

record PlanCreate =
  pcr_name :: string
  pcr_price :: "string option option"

record PlanUpdate =
  pup_name :: "string option"
  pup_price :: "string option option"

section \<open>Validation\<close>

definition DemoCatalogError :: "string \<Rightarrow> demo_error" where
  "DemoCatalogError kind = DomainError ''DemoCatalogError'' kind kind"

definition cleanName :: "string \<Rightarrow> demo_error + string" where
  "cleanName value =
    (let name = trim value in
     if name = [] then Inl (DemoCatalogError ''catalog_name_required'')
     else if length name > 200 then Inl (DemoCatalogError ''catalog_name_too_long'')
     else Inr name)"

definition validateIcon :: "string option \<Rightarrow> demo_error + string option" where
  "validateIcon value = (case value of None \<Rightarrow> Inr None | Some v \<Rightarrow>
    (let trimmed = trim v in
     if trimmed = [] then Inr None
     else if parseIconReference (Some trimmed) = None then Inl (DemoCatalogError ''catalog_icon_invalid'')
     else Inr (Some trimmed)))"

definition validatePrice :: "string option \<Rightarrow> demo_error + string option" where
  "validatePrice value = (case value of None \<Rightarrow> Inr None | Some v \<Rightarrow>
    (let trimmed = trim v in
     if trimmed = [] then Inr None
     else (let numeric = Number_of trimmed in
       if \<not> Number_isFinite numeric \<or> Number_less_zero numeric then Inl (DemoCatalogError ''plan_price_invalid'')
       else (let parts = split_on (CHR ''.'') trimmed in
         if length parts = 2 \<and> length (parts ! 1) > 2 then Inl (DemoCatalogError ''plan_price_invalid'')
         else Inr (Some trimmed)))))"

definition sortByName ::
  "string comparison \<Rightarrow> string comparison \<Rightarrow> ('a \<Rightarrow> string) \<Rightarrow> ('a \<Rightarrow> string) \<Rightarrow> 'a list \<Rightarrow> 'a list" where
  "sortByName collate_base collate name created_at entries =
     js_sort (then_by (\<lambda>a b. collate_base (name a) (name b)) (\<lambda>a b. collate (created_at a) (created_at b))) entries"

definition subscriptionRows :: "ProLists \<Rightarrow> (DemoSubscriptionRelation \<Rightarrow> bool) \<Rightarrow> DeleteSubscriptionRow list" where
  "subscriptionRows state predicate =
    (let servicesMap = js_map (map (\<lambda>s. (sv_id s, s)) (services state));
         plansMap = js_map (map (\<lambda>p. (pl_id p, p)) (plans state));
         clientsMap = js_map (map (\<lambda>c. (cl_id c, c)) (clients state))
     in map (\<lambda>u. \<lparr>
          dr_id = su_id u,
          dr_streaming_email = su_streaming_email u,
          dr_client_name = map_option cl_full_name (clientsMap (su_client_id u)),
          dr_client_phone = Option.bind (clientsMap (su_client_id u)) cl_phone,
          dr_service_name = nullish (map_option sv_name (servicesMap (su_service_id u))) [],
          dr_plan_name = nullish (map_option pl_name (plansMap (su_plan_id u))) [],
          dr_expires_at = su_expires_at u \<rparr>)
        (filter (\<lambda>u. su_status u = ''active'') (filter predicate (subscriptions state))))"

definition targets :: "string \<Rightarrow> string \<Rightarrow> DemoSubscriptionRelation \<Rightarrow> bool" where
  "targets targetType targetId u =
     (if targetType = ''service'' then su_service_id u = targetId else su_plan_id u = targetId)"

definition preview :: "ProLists \<Rightarrow> string \<Rightarrow> string \<Rightarrow> string \<Rightarrow> DeletePreview" where
  "preview state targetType targetId targetName =
    (let predicate = targets targetType targetId;
         related = filter predicate (subscriptions state);
         activeSubscriptions = subscriptionRows state predicate;
         affectedPlanCount = (if targetType = ''service''
           then length (filter (\<lambda>p. pl_service_id p = targetId) (plans state)) else 0)
     in \<lparr> dp_target_type = targetType,
       dp_target_id = targetId,
       dp_target_name = targetName,
       dp_affected_plan_count = affectedPlanCount,
       dp_active_subscription_count = length activeSubscriptions,
       dp_historical_subscription_count = length related - length activeSubscriptions,
       dp_total_subscription_count = length related,
       dp_active_subscriptions = activeSubscriptions,
       dp_page = 1,
       dp_page_size = 10,
       dp_total_items = length activeSubscriptions,
       dp_total_pages = page_count (length activeSubscriptions) 10,
       dp_has_next = False,
       dp_note = ''frontend.catalog.delete_preview_note'' \<rparr>)"

definition catalog_requireState :: "DemoAuthMetadata \<Rightarrow> int \<Rightarrow> ProLists repo_act" where
  "catalog_requireState metadata now = require_pro (DemoCatalogError ''invalid_demo_workspace'') metadata now"

definition catalog_updateState :: "int \<Rightarrow> (ProLists \<Rightarrow> ProLists) \<Rightarrow> ProLists repo_act" where
  "catalog_updateState now updater =
     update_pro (DemoCatalogError ''invalid_demo_workspace'') (DemoCatalogError ''invalid_demo_workspace'') now updater"

section \<open>Services\<close>

abbreviation service_not_found :: demo_error where
  "service_not_found \<equiv> DemoCatalogError ''service_not_found''"

abbreviation service_name_exists :: demo_error where
  "service_name_exists \<equiv> DemoCatalogError ''service_name_already_exists''"

definition listServices ::
  "string comparison \<Rightarrow> string comparison \<Rightarrow> DemoAuthMetadata \<Rightarrow> int \<Rightarrow> Service list repo_act" where
  "listServices collate_base collate metadata now = query (catalog_requireState metadata now)
     (\<lambda>state. Inr (sortByName collate_base collate sv_name sv_created_at (services state)))"

definition service_payload :: "ServiceCreate \<Rightarrow> demo_error + string \<times> string option" where
  "service_payload payload =
     ebind (cleanName (scr_name payload)) (\<lambda>name.
     ebind (validateIcon (Option.bind (scr_icon payload) (\<lambda>v. v))) (\<lambda>icon. Inr (name, icon)))"

definition create_service_check ::
  "DemoAuthMetadata \<Rightarrow> int \<Rightarrow> string \<times> string option \<Rightarrow> ProLists \<Rightarrow> demo_error + Service" where
  "create_service_check metadata now parts current = (case parts of (name, icon) \<Rightarrow>
     ebind (throw_if (list_ex (\<lambda>s. toLowerCase (sv_name s) = toLowerCase name) (services current)) service_name_exists) (\<lambda>_.
     ebind (iso_now now) (\<lambda>timestamp. Inr \<lparr>
       sv_id = ''service-'' @ md_tenantId metadata @ ''-'' @ int_to_string now,
       sv_tenant_id = md_tenantId metadata,
       sv_name = name,
       sv_icon = icon,
       sv_created_at = timestamp,
       sv_updated_at = timestamp \<rparr>)))"

definition add_service :: "Service \<Rightarrow> ProLists \<Rightarrow> ProLists" where
  "add_service service state = state\<lparr>services := services state @ [service]\<rparr>"

definition createService :: "DemoAuthMetadata \<Rightarrow> int \<Rightarrow> ServiceCreate \<Rightarrow> Service repo_act" where
  "createService metadata now payload =
     abind (alift (service_payload payload)) (\<lambda>parts.
       transact (catalog_requireState metadata now) (catalog_updateState now)
         (create_service_check metadata now parts) add_service)"

definition update_service_check :: "int \<Rightarrow> string \<Rightarrow> ServiceUpdate \<Rightarrow> ProLists \<Rightarrow> demo_error + Service" where
  "update_service_check now sid payload current =
     ebind (not_found (find_by sv_id sid (services current)) service_not_found) (\<lambda>existing.
     ebind (case sup_name payload of None \<Rightarrow> Inr (sv_name existing) | Some v \<Rightarrow> cleanName v) (\<lambda>name.
     ebind (throw_if (list_ex (\<lambda>s. sv_id s \<noteq> sid \<and> toLowerCase (sv_name s) = toLowerCase name) (services current))
       service_name_exists) (\<lambda>_.
     ebind (case sup_icon payload of None \<Rightarrow> Inr (sv_icon existing) | Some v \<Rightarrow> validateIcon v) (\<lambda>icon.
     ebind (iso_now now) (\<lambda>timestamp.
       Inr (existing\<lparr>sv_name := name, sv_icon := icon, sv_updated_at := timestamp\<rparr>))))))"

definition replace_service :: "string \<Rightarrow> Service \<Rightarrow> ProLists \<Rightarrow> ProLists" where
  "replace_service sid updated state = state\<lparr>services := replace_by sv_id sid updated (services state)\<rparr>"

definition updateService :: "DemoAuthMetadata \<Rightarrow> int \<Rightarrow> string \<Rightarrow> ServiceUpdate \<Rightarrow> Service repo_act" where
  "updateService metadata now sid payload =
     transact (catalog_requireState metadata now) (catalog_updateState now)
       (update_service_check now sid payload) (replace_service sid)"

definition getServiceDeletePreview :: "DemoAuthMetadata \<Rightarrow> int \<Rightarrow> string \<Rightarrow> DeletePreview repo_act" where
  "getServiceDeletePreview metadata now sid = query (catalog_requireState metadata now) (\<lambda>state.
     ebind (not_found (find_by sv_id sid (services state)) service_not_found) (\<lambda>service.
       Inr (preview state ''service'' sid (sv_name service))))"

text \<open>The identifiers of the plans come from the state read first, the filters see the state at the update.\<close>

definition delete_service_check :: "string \<Rightarrow> ProLists \<Rightarrow> demo_error + string list" where
  "delete_service_check sid state =
     ebind (throw_if (\<not> list_ex (\<lambda>s. sv_id s = sid) (services state)) service_not_found) (\<lambda>_.
       Inr (map pl_id (filter (\<lambda>p. pl_service_id p = sid) (plans state))))"

definition delete_service :: "string \<Rightarrow> string list \<Rightarrow> ProLists \<Rightarrow> ProLists" where
  "delete_service sid planIds current = current\<lparr>
     services := filter (\<lambda>s. sv_id s \<noteq> sid) (services current),
     plans := filter (\<lambda>p. pl_service_id p \<noteq> sid) (plans current),
     subscriptions := filter (\<lambda>u. su_service_id u \<noteq> sid \<and> su_plan_id u \<notin> set planIds) (subscriptions current)\<rparr>"

definition deleteService :: "DemoAuthMetadata \<Rightarrow> int \<Rightarrow> string \<Rightarrow> unit repo_act" where
  "deleteService metadata now sid =
     abind (transact (catalog_requireState metadata now) (catalog_updateState now)
       (delete_service_check sid) (delete_service sid)) (\<lambda>_. areturn ())"

section \<open>Plans\<close>

abbreviation plan_not_found :: demo_error where
  "plan_not_found \<equiv> DemoCatalogError ''plan_not_found''"

abbreviation plan_name_exists :: demo_error where
  "plan_name_exists \<equiv> DemoCatalogError ''plan_name_already_exists''"

definition listPlans ::
  "string comparison \<Rightarrow> string comparison \<Rightarrow> DemoAuthMetadata \<Rightarrow> int \<Rightarrow> string \<Rightarrow> Plan list repo_act" where
  "listPlans collate_base collate metadata now serviceId = query (catalog_requireState metadata now) (\<lambda>state.
     ebind (throw_if (\<not> list_ex (\<lambda>s. sv_id s = serviceId) (services state)) service_not_found) (\<lambda>_.
       Inr (sortByName collate_base collate pl_name pl_created_at
         (filter (\<lambda>p. pl_service_id p = serviceId) (plans state)))))"

definition plan_payload :: "PlanCreate \<Rightarrow> demo_error + string \<times> string option" where
  "plan_payload payload =
     ebind (cleanName (pcr_name payload)) (\<lambda>name.
     ebind (validatePrice (Option.bind (pcr_price payload) (\<lambda>v. v))) (\<lambda>price. Inr (name, price)))"

definition create_plan_check ::
  "DemoAuthMetadata \<Rightarrow> int \<Rightarrow> string \<Rightarrow> string \<times> string option \<Rightarrow> ProLists \<Rightarrow> demo_error + Plan" where
  "create_plan_check metadata now serviceId parts current = (case parts of (name, price) \<Rightarrow>
     ebind (throw_if (\<not> list_ex (\<lambda>s. sv_id s = serviceId) (services current)) service_not_found) (\<lambda>_.
     ebind (throw_if (list_ex (\<lambda>p. pl_service_id p = serviceId \<and> toLowerCase (pl_name p) = toLowerCase name) (plans current))
       plan_name_exists) (\<lambda>_.
     ebind (iso_now now) (\<lambda>timestamp. Inr \<lparr>
       pl_id = ''plan-'' @ md_tenantId metadata @ ''-'' @ int_to_string now,
       pl_tenant_id = md_tenantId metadata,
       pl_service_id = serviceId,
       pl_name = name,
       pl_price = price,
       pl_created_at = timestamp,
       pl_updated_at = timestamp \<rparr>))))"

definition add_plan :: "Plan \<Rightarrow> ProLists \<Rightarrow> ProLists" where
  "add_plan plan state = state\<lparr>plans := plans state @ [plan]\<rparr>"

definition createPlan :: "DemoAuthMetadata \<Rightarrow> int \<Rightarrow> string \<Rightarrow> PlanCreate \<Rightarrow> Plan repo_act" where
  "createPlan metadata now serviceId payload =
     abind (alift (plan_payload payload)) (\<lambda>parts.
       transact (catalog_requireState metadata now) (catalog_updateState now)
         (create_plan_check metadata now serviceId parts) add_plan)"

definition find_plan :: "string \<Rightarrow> string \<Rightarrow> ProLists \<Rightarrow> Plan option" where
  "find_plan serviceId planId state = find (\<lambda>p. pl_id p = planId \<and> pl_service_id p = serviceId) (plans state)"

definition update_plan_check :: "int \<Rightarrow> string \<Rightarrow> string \<Rightarrow> PlanUpdate \<Rightarrow> ProLists \<Rightarrow> demo_error + Plan" where
  "update_plan_check now serviceId planId payload current =
     ebind (not_found (find_plan serviceId planId current) plan_not_found) (\<lambda>existing.
     ebind (cleanName (nullish (pup_name payload) (pl_name existing))) (\<lambda>name.
     ebind (throw_if (list_ex (\<lambda>p. pl_id p \<noteq> planId \<and> pl_service_id p = serviceId \<and>
         toLowerCase (pl_name p) = toLowerCase name) (plans current)) plan_name_exists) (\<lambda>_.
     ebind (case pup_price payload of None \<Rightarrow> Inr (pl_price existing) | Some v \<Rightarrow> validatePrice v) (\<lambda>price.
     ebind (iso_now now) (\<lambda>timestamp.
       Inr (existing\<lparr>pl_name := name, pl_price := price, pl_updated_at := timestamp\<rparr>))))))"

definition replace_plan :: "string \<Rightarrow> Plan \<Rightarrow> ProLists \<Rightarrow> ProLists" where
  "replace_plan planId updated state = state\<lparr>plans := replace_by pl_id planId updated (plans state)\<rparr>"

definition updatePlan :: "DemoAuthMetadata \<Rightarrow> int \<Rightarrow> string \<Rightarrow> string \<Rightarrow> PlanUpdate \<Rightarrow> Plan repo_act" where
  "updatePlan metadata now serviceId planId payload =
     transact (catalog_requireState metadata now) (catalog_updateState now)
       (update_plan_check now serviceId planId payload) (replace_plan planId)"

definition getPlanDeletePreview :: "DemoAuthMetadata \<Rightarrow> int \<Rightarrow> string \<Rightarrow> string \<Rightarrow> DeletePreview repo_act" where
  "getPlanDeletePreview metadata now serviceId planId = query (catalog_requireState metadata now) (\<lambda>state.
     ebind (not_found (find_plan serviceId planId state) plan_not_found) (\<lambda>plan.
       Inr (preview state ''plan'' planId (pl_name plan))))"

definition delete_plan_check :: "string \<Rightarrow> string \<Rightarrow> ProLists \<Rightarrow> demo_error + unit" where
  "delete_plan_check serviceId planId state =
     throw_if (\<not> list_ex (\<lambda>p. pl_id p = planId \<and> pl_service_id p = serviceId) (plans state)) plan_not_found"

definition delete_plan :: "string \<Rightarrow> ProLists \<Rightarrow> ProLists" where
  "delete_plan planId current = current\<lparr>plans := remove_by pl_id planId (plans current),
     subscriptions := remove_by su_plan_id planId (subscriptions current)\<rparr>"

definition deletePlan :: "DemoAuthMetadata \<Rightarrow> int \<Rightarrow> string \<Rightarrow> string \<Rightarrow> unit repo_act" where
  "deletePlan metadata now serviceId planId =
     transact (catalog_requireState metadata now) (catalog_updateState now)
       (delete_plan_check serviceId planId) (\<lambda>_. delete_plan planId)"

section \<open>The service is a client of the store\<close>

interpretation cat: demo_store "session_at rest metadata now" pro_valid "pro_view metadata"
  "catalog_requireState metadata now" "catalog_updateState now" for rest metadata now
  by unfold_locales
    (auto simp: catalog_requireState_def catalog_updateState_def intro: require_pro_at update_pro_at)

section \<open>What validation guarantees\<close>

definition name_ok :: "string \<Rightarrow> bool" where
  "name_ok n \<longleftrightarrow> n \<noteq> [] \<and> length n \<le> 200 \<and> trim n = n"

text \<open>A price is a finite amount that is not negative, with at most two digits after a point.\<close>

definition price_ok :: "string option \<Rightarrow> bool" where
  "price_ok v \<longleftrightarrow> (case v of None \<Rightarrow> True | Some t \<Rightarrow> t \<noteq> [] \<and> trim t = t \<and> Number_isFinite (Number_of t) \<and>
     \<not> Number_less_zero (Number_of t) \<and> \<not> (\<exists>a b. split_on (CHR ''.'') t = [a, b] \<and> 2 < length b))"

definition plan_wf :: "Plan \<Rightarrow> bool" where
  "plan_wf p \<longleftrightarrow> name_ok (pl_name p) \<and> price_ok (pl_price p)"

lemma cleanName_ok: "cleanName v = Inr n \<Longrightarrow> name_ok n"
  by (auto simp: cleanName_def Let_def name_ok_def split: if_splits)

lemma validateIcon_ok: "validateIcon v = Inr (sv_icon s) \<Longrightarrow> icon_ok s"
  by (auto simp: validateIcon_def icon_ok_def Let_def split: option.splits if_splits)

lemma two_parts: "length xs = 2 \<longleftrightarrow> (\<exists>a b. xs = [a, b])"
  by (auto simp: numeral_2_eq_2 length_Suc_conv)

lemma validatePrice_ok: "validatePrice v = Inr q \<Longrightarrow> price_ok q"
  by (auto simp: validatePrice_def price_ok_def Let_def two_parts split: option.splits if_splits)

text \<open>Validation is idempotent, and keeps an amount with up to two decimals as it is.\<close>

lemma validatePrice_idem: "price_ok q \<Longrightarrow> validatePrice q = Inr q"
  by (auto simp: validatePrice_def price_ok_def Let_def two_parts split: option.splits)

lemma price_ok_amount:
  assumes "list_all is_digit ds" and "ds \<noteq> []" and "list_all is_digit fs" and "length fs \<le> 2" and "digits_value (ds @ fs) < 2 ^ 1000"
  shows "price_ok (Some (ds @ CHR ''.'' # fs))"
proof -
  have dot: "CHR ''.'' \<notin> set ds" "CHR ''.'' \<notin> set fs" "\<not> is_space (CHR ''.'')"
    using assms(1,3) by (auto simp: list_all_iff is_digit_def is_space_def)
  have tr: "trim (ds @ CHR ''.'' # fs) = ds @ CHR ''.'' # fs"
    using assms dot digit_not_space
    by (intro trim_conv) (auto simp: trimmed_def list_all_iff last_append)
  have "split_on (CHR ''.'') (ds @ CHR ''.'' # fs) = [ds, fs]"
    using dot by (simp add: split_on_append split_on_free)
  then show ?thesis
    using assms tr decimal_small [of "digits_value (ds @ fs)" "- int (length fs)" False]
    by (simp add: price_ok_def Number_of_amount [OF assms(1-3)] Number_less_zero_def)
qed

section \<open>The abstract catalog\<close>

definition same_service_name :: "Service \<Rightarrow> Service \<Rightarrow> bool" where
  "same_service_name s t \<longleftrightarrow> toLowerCase (sv_name s) = toLowerCase (sv_name t)"

definition same_plan_name :: "Plan \<Rightarrow> Plan \<Rightarrow> bool" where
  "same_plan_name p q \<longleftrightarrow> pl_service_id p = pl_service_id q \<and> toLowerCase (pl_name p) = toLowerCase (pl_name q)"

definition catalog_inv :: "ProLists \<Rightarrow> bool" where
  "catalog_inv p \<longleftrightarrow> list_all (\<lambda>s. name_ok (sv_name s)) (services p) \<and> list_all icon_ok (services p) \<and>
     list_all plan_wf (plans p) \<and>
     uniq_by sv_id same_service_name (services p) \<and> uniq_by pl_id same_plan_name (plans p)"

text \<open>What the service may do to the collections.\<close>

inductive catalog_change :: "ProLists \<Rightarrow> ProLists \<Rightarrow> bool" where
  no_change: "catalog_change p p"
| add_service: "service_payload payload = Inr parts \<Longrightarrow> create_service_check metadata now parts p = Inr s \<Longrightarrow>
    catalog_change p (add_service s p)"
| update_service: "update_service_check now sid changes p = Inr s \<Longrightarrow> catalog_change p (replace_service sid s p)"
| delete_service: "delete_service_check sid p = Inr planIds \<Longrightarrow> catalog_change p (delete_service sid planIds p)"
| add_plan: "plan_payload load = Inr parts \<Longrightarrow> create_plan_check metadata now sid parts p = Inr q \<Longrightarrow>
    catalog_change p (add_plan q p)"
| update_plan: "update_plan_check now sid pid alter p = Inr q \<Longrightarrow> catalog_change p (replace_plan pid q p)"
| delete_plan: "delete_plan_check sid pid p = Inr () \<Longrightarrow> catalog_change p (delete_plan pid p)"

lemma catalog_kept [simp]:
  "clients (add_service s p) = clients p" "plans (add_service s p) = plans p" "subscriptions (add_service s p) = subscriptions p"
  "clients (replace_service sid s p) = clients p" "plans (replace_service sid s p) = plans p"
  "subscriptions (replace_service sid s p) = subscriptions p" "clients (delete_service sid ids p) = clients p"
  "clients (add_plan q p) = clients p" "services (add_plan q p) = services p" "subscriptions (add_plan q p) = subscriptions p"
  "clients (replace_plan pid q p) = clients p" "services (replace_plan pid q p) = services p"
  "subscriptions (replace_plan pid q p) = subscriptions p"
  "clients (delete_plan pid p) = clients p" "services (delete_plan pid p) = services p"
  by (simp_all add: add_service_def replace_service_def delete_service_def add_plan_def replace_plan_def delete_plan_def)

lemma catalog_changed [simp]:
  "services (add_service s p) = services p @ [s]" "plans (add_plan q p) = plans p @ [q]"
  "services (replace_service sid s p) = replace_by sv_id sid s (services p)"
  "plans (replace_plan pid q p) = replace_by pl_id pid q (plans p)"
  "services (delete_service sid ids p) = filter (\<lambda>s. sv_id s \<noteq> sid) (services p)"
  "plans (delete_service sid ids p) = filter (\<lambda>p. pl_service_id p \<noteq> sid) (plans p)"
  "subscriptions (delete_service sid ids p) =
     filter (\<lambda>u. su_service_id u \<noteq> sid \<and> su_plan_id u \<notin> set ids) (subscriptions p)"
  "plans (delete_plan pid p) = remove_by pl_id pid (plans p)"
  "subscriptions (delete_plan pid p) = remove_by su_plan_id pid (subscriptions p)"
  by (simp_all add: add_service_def replace_service_def delete_service_def add_plan_def replace_plan_def delete_plan_def)

lemma create_service_ok:
  assumes "service_payload payload = Inr parts" and "create_service_check metadata now parts p = Inr s"
  shows "name_ok (sv_name s)" and "icon_ok s" and "t \<in> set (services p) \<Longrightarrow> \<not> same_service_name t s"
proof -
  have "parts = (sv_name s, sv_icon s)" "\<not> list_ex (\<lambda>t. same_service_name t s) (services p)"
    using assms(2) by (auto simp: create_service_check_def ebind_eq_Inr list_ex_iff same_service_name_def split: prod.splits)
  then show "name_ok (sv_name s)" "icon_ok s" "t \<in> set (services p) \<Longrightarrow> \<not> same_service_name t s"
    using assms(1) by (auto simp: service_payload_def ebind_eq_Inr list_ex_iff intro: cleanName_ok validateIcon_ok)
qed

lemma update_service_ok:
  assumes "update_service_check now sid changes p = Inr s" and "\<forall>t \<in> set (services p). icon_ok t"
  shows "sv_id s = sid" and "icon_ok s" and "\<forall>t \<in> set (services p). name_ok (sv_name t) \<Longrightarrow> name_ok (sv_name s)"
    and "t \<in> set (services p) \<Longrightarrow> sv_id t \<noteq> sid \<Longrightarrow> \<not> same_service_name t s"
proof -
  obtain existing n i ts where ex: "find_by sv_id sid (services p) = Some existing"
    and n: "(case sup_name changes of None \<Rightarrow> Inr (sv_name existing) | Some v \<Rightarrow> cleanName v) = Inr n"
    and u: "\<not> list_ex (\<lambda>s. sv_id s \<noteq> sid \<and> toLowerCase (sv_name s) = toLowerCase n) (services p)"
    and i: "(case sup_icon changes of None \<Rightarrow> Inr (sv_icon existing) | Some v \<Rightarrow> validateIcon v) = Inr i"
    and s: "s = existing\<lparr>sv_name := n, sv_icon := i, sv_updated_at := ts\<rparr>"
    using assms(1) unfolding update_service_check_def ebind_eq_Inr not_found_eq throw_if_eq_Inr by blast
  note e = find_by_SomeD [OF ex]
  show "sv_id s = sid" using s e by simp
  have "icon_ok existing" using e assms(2) by blast
  moreover have "sv_icon s = i" using s by simp
  ultimately show "icon_ok s"
    using i by (cases "sup_icon changes") (auto simp: icon_ok_def [of s] icon_ok_def [of existing]
        dest!: validateIcon_ok [of _ s, unfolded icon_ok_def])
  show "\<forall>t \<in> set (services p). name_ok (sv_name t) \<Longrightarrow> name_ok (sv_name s)"
    using n s e by (cases "sup_name changes") (auto dest: cleanName_ok)
  show "t \<in> set (services p) \<Longrightarrow> sv_id t \<noteq> sid \<Longrightarrow> \<not> same_service_name t s"
    using u s by (auto simp: list_ex_iff same_service_name_def)
qed

lemma create_plan_ok:
  assumes "plan_payload load = Inr parts" and "create_plan_check metadata now sid parts p = Inr q"
  shows "plan_wf q" and "pl_service_id q = sid" and "sid \<in> sv_id ` set (services p)"
    and "r \<in> set (plans p) \<Longrightarrow> \<not> same_plan_name r q"
proof -
  have q: "parts = (pl_name q, pl_price q)" "pl_service_id q = sid" "list_ex (\<lambda>s. sv_id s = sid) (services p)"
    "\<not> list_ex (\<lambda>r. same_plan_name r q) (plans p)"
    using assms(2) by (auto simp: create_plan_check_def ebind_eq_Inr list_ex_iff same_plan_name_def split: prod.splits)
  then show "pl_service_id q = sid" "sid \<in> sv_id ` set (services p)" "r \<in> set (plans p) \<Longrightarrow> \<not> same_plan_name r q"
    by (auto simp: list_ex_iff dest: sym)
  show "plan_wf q"
    using q(1) assms(1) by (auto simp: plan_payload_def ebind_eq_Inr plan_wf_def intro: cleanName_ok validatePrice_ok)
qed

lemma update_plan_ok:
  assumes "update_plan_check now sid pid alter p = Inr q" and "\<forall>r \<in> set (plans p). plan_wf r"
  shows "pl_id q = pid" and "pl_service_id q = sid" and "\<exists>r \<in> set (plans p). pl_id r = pid \<and> pl_service_id r = sid"
    and "plan_wf q" and "r \<in> set (plans p) \<Longrightarrow> pl_id r \<noteq> pid \<Longrightarrow> \<not> same_plan_name r q"
proof -
  obtain existing n price ts where ex: "find_plan sid pid p = Some existing"
    and n: "cleanName (nullish (pup_name alter) (pl_name existing)) = Inr n"
    and u: "\<not> list_ex (\<lambda>r. pl_id r \<noteq> pid \<and> pl_service_id r = sid \<and> toLowerCase (pl_name r) = toLowerCase n) (plans p)"
    and i: "(case pup_price alter of None \<Rightarrow> Inr (pl_price existing) | Some v \<Rightarrow> validatePrice v) = Inr price"
    and q: "q = existing\<lparr>pl_name := n, pl_price := price, pl_updated_at := ts\<rparr>"
    using assms(1) unfolding update_plan_check_def ebind_eq_Inr not_found_eq throw_if_eq_Inr by blast
  note e = find_SomeD [OF ex [unfolded find_plan_def]]
  show "pl_id q = pid" "pl_service_id q = sid" "\<exists>r \<in> set (plans p). pl_id r = pid \<and> pl_service_id r = sid"
    using q e by auto
  have "plan_wf existing" using e assms(2) by blast
  then have "price_ok price" using i by (cases "pup_price alter") (auto simp: plan_wf_def dest: validatePrice_ok)
  then show "plan_wf q" using cleanName_ok [OF n] q by (simp add: plan_wf_def)
  show "r \<in> set (plans p) \<Longrightarrow> pl_id r \<noteq> pid \<Longrightarrow> \<not> same_plan_name r q"
    using u q e by (auto simp: list_ex_iff same_plan_name_def)
qed

lemma same_name_sym: "symp same_service_name" "symp same_plan_name"
  by (rule sympI, simp add: same_service_name_def same_plan_name_def)+

lemma catalog_inv_change: "catalog_change p p' \<Longrightarrow> catalog_inv p \<Longrightarrow> catalog_inv p'"
proof (induction rule: catalog_change.induct)
  case (add_service payload parts metadata now p s)
  with create_service_ok [OF add_service(1,2)] show ?case
    by (simp add: catalog_inv_def uniq_by_add same_name_sym)
next
  case (update_service now sid changes p s)
  then have w: "\<forall>t \<in> set (services p). icon_ok t" "\<forall>t \<in> set (services p). name_ok (sv_name t)"
    by (simp_all add: catalog_inv_def list_all_iff)
  note s = update_service_ok [OF update_service(1) w(1)]
  have "uniq_by sv_id same_service_name (replace_by sv_id sid s (services p))"
    using update_service(2) s by (intro uniq_by_replace same_name_sym) (simp_all add: catalog_inv_def)
  moreover have "\<forall>t \<in> set (replace_by sv_id sid s (services p)). icon_ok t \<and> name_ok (sv_name t)"
    using w s(2) s(3) [OF w(2)] by (auto dest: in_set_replace_byD)
  ultimately show ?case using update_service(2) by (simp add: catalog_inv_def list_all_iff)
next
  case (add_plan load parts metadata now sid p q)
  with create_plan_ok [OF add_plan(1,2)] show ?case
    by (simp add: catalog_inv_def uniq_by_add same_name_sym)
next
  case (update_plan now sid pid alter p q)
  then have w: "\<forall>r \<in> set (plans p). plan_wf r" by (simp add: catalog_inv_def list_all_iff)
  note q = update_plan_ok [OF update_plan(1) w]
  have "uniq_by pl_id same_plan_name (replace_by pl_id pid q (plans p))"
    using update_plan(2) q by (intro uniq_by_replace same_name_sym) (simp_all add: catalog_inv_def)
  moreover have "\<forall>r \<in> set (replace_by pl_id pid q (plans p)). plan_wf r"
    using w q(4) by (auto dest: in_set_replace_byD)
  ultimately show ?case using update_plan(2) by (simp add: catalog_inv_def list_all_iff)
qed (auto simp: catalog_inv_def list_all_iff elim!: uniq_by_subset)

text \<open>
  References survive every change when a plan identifier names the plans of one service. A creation
  keeps that when its identifier, made from the clock, is new.
\<close>

definition same_plan_id :: "Plan \<Rightarrow> Plan \<Rightarrow> bool" where
  "same_plan_id q r \<longleftrightarrow> pl_id q = pl_id r"

definition plan_ids_ok :: "ProLists \<Rightarrow> bool" where
  "plan_ids_ok p \<longleftrightarrow> uniq_by pl_service_id same_plan_id (plans p)"

definition new_plans_fresh :: "ProLists \<Rightarrow> ProLists \<Rightarrow> bool" where
  "new_plans_fresh p p' \<longleftrightarrow> (\<forall>q \<in> set (plans p'). pl_id q \<in> pl_id ` set (plans p) \<longrightarrow>
     pl_service_id q \<in> pl_service_id ` {r \<in> set (plans p). pl_id r = pl_id q})"

lemma same_plan_id_sym: "symp same_plan_id"
  by (rule sympI) (simp add: same_plan_id_def)

lemma catalog_refs_change:
  assumes "catalog_change p p'" and "refs_ok p" and "plan_ids_ok p" and "catalog_inv p" and "new_plans_fresh p p'"
  shows "refs_ok p' \<and> plan_ids_ok p'"
  using assms
proof (induction rule: catalog_change.induct)
  case (update_service now sid changes p s)
  then have "sv_id s = sid"
    using update_service_ok(1) by (simp add: catalog_inv_def list_all_iff)
  then have "sv_id ` set (replace_by sv_id sid s (services p)) = sv_id ` set (services p)"
    by (metis list.set_map map_key_replace_by)
  with update_service.prems show ?case
    by (simp add: refs_ok_def plan_refs_def subscription_refs_def plan_ids_ok_def)
next
  case (add_plan load parts metadata now sid p q)
  note q = create_plan_ok [OF add_plan(1,2)]
  have "pl_service_id r = pl_service_id q" if r: "r \<in> set (plans p)" "same_plan_id r q" for r
  proof -
    have "pl_id q \<in> pl_id ` set (plans p)" using r by (metis imageI same_plan_id_def)
    then obtain t where "t \<in> set (plans p)" "pl_id t = pl_id q" "pl_service_id t = pl_service_id q"
      using add_plan.prems(4) by (fastforce simp: new_plans_fresh_def)
    with r uniq_byD [OF add_plan.prems(2) [unfolded plan_ids_ok_def], of r t] show ?thesis
      by (simp add: same_plan_id_def)
  qed
  then have "plan_ids_ok (add_plan q p)"
    using add_plan.prems(2) by (simp add: plan_ids_ok_def uniq_by_add_eq same_plan_id_sym)
  moreover have "refs_ok (add_plan q p)"
    using add_plan.prems(1) q(2,3) by (auto simp: refs_ok_def plan_refs_def subscription_refs_def)
  ultimately show ?case by blast
next
  case (update_plan now sid pid alter p q)
  then have w: "\<forall>r \<in> set (plans p). plan_wf r" by (simp add: catalog_inv_def list_all_iff)
  note q = update_plan_ok(1-3) [OF update_plan(1) w]
  obtain e where e: "e \<in> set (plans p)" "pl_id e = pid" "pl_service_id e = sid" using q(3) by blast
  have one: "pl_service_id r = sid" if "r \<in> set (plans p)" "pl_id r = pid" for r
    using that e uniq_byD [OF update_plan.prems(2) [unfolded plan_ids_ok_def] that(1) e(1)] by (simp add: same_plan_id_def)
  have q_in: "q \<in> set (replace_by pl_id pid q (plans p))"
    using e by (auto simp: replace_by_def image_iff)
  have ex: "\<exists>r \<in> set (replace_by pl_id pid q (plans p)). pl_id r = a \<and> pl_service_id r = b"
    if known: "\<exists>r \<in> set (plans p). pl_id r = a \<and> pl_service_id r = b" for a b
  proof -
    obtain r where r: "r \<in> set (plans p)" "pl_id r = a" "pl_service_id r = b" using known by blast
    show ?thesis
    proof (cases "a = pid")
      case True
      with r one [OF r(1)] q q_in show ?thesis by blast
    next
      case False
      with r have "r \<in> set (replace_by pl_id pid q (plans p))" by (simp add: set_replace_by)
      with r show ?thesis by blast
    qed
  qed
  have "plan_ids_ok (replace_plan pid q p)"
    using update_plan.prems(2) q(1) by (auto simp: plan_ids_ok_def same_plan_id_def intro!: uniq_by_replace_eq same_plan_id_sym)
  moreover have "plan_refs (replace_plan pid q p)"
    using update_plan.prems(1) q(2) e by (force simp: refs_ok_def plan_refs_def dest!: in_set_replace_byD)
  moreover have "\<forall>u \<in> set (subscriptions p). subscription_refs (replace_plan pid q p) u"
    using update_plan.prems(1) ex by (simp add: refs_ok_def subscription_refs_def)
  ultimately show ?case by (simp add: refs_ok_def)
next
  case (delete_service sid p planIds)
  then have "plan_ids_ok (delete_service sid planIds p)" by (auto simp: plan_ids_ok_def elim!: uniq_by_subset)
  moreover have "plan_refs (delete_service sid planIds p)"
    using delete_service.prems(1) by (auto simp: refs_ok_def plan_refs_def)
  moreover have "subscription_refs (delete_service sid planIds p) u"
    if "subscription_refs p u" "su_service_id u \<noteq> sid" for u
    using that by (auto simp: subscription_refs_def)
  ultimately show ?case using delete_service.prems(1) by (simp add: refs_ok_def)
next
  case (delete_plan sid pid p)
  then have "plan_ids_ok (delete_plan pid p)" by (auto simp: plan_ids_ok_def elim!: uniq_by_subset)
  moreover have "plan_refs (delete_plan pid p)"
    using delete_plan.prems(1) by (auto simp: refs_ok_def plan_refs_def)
  moreover have "subscription_refs (delete_plan pid p) u" if "subscription_refs p u" "su_plan_id u \<noteq> pid" for u
    using that by (auto simp: subscription_refs_def)
  ultimately show ?case using delete_plan.prems(1) by (simp add: refs_ok_def)
qed (auto simp: refs_ok_def plan_refs_def subscription_refs_def plan_ids_ok_def)

section \<open>The operations implement the abstract catalog\<close>

text \<open>A call of one of the operations, with any consistent or inconsistent collation.\<close>

inductive catalog_step :: "DemoAuthMetadata \<Rightarrow> DemoWorkspaceRepository \<Rightarrow> DemoWorkspaceRepository \<Rightarrow> bool"
  for metadata where
  "listServices cb c metadata now r = (x1, t) \<Longrightarrow> \<bar>now\<bar> \<le> max_time \<Longrightarrow> catalog_step metadata r t"
| "createService metadata now payload r = (x2, t) \<Longrightarrow> \<bar>now\<bar> \<le> max_time \<Longrightarrow> catalog_step metadata r t"
| "updateService metadata now sid changes r = (x2, t) \<Longrightarrow> \<bar>now\<bar> \<le> max_time \<Longrightarrow> catalog_step metadata r t"
| "getServiceDeletePreview metadata now sid r = (x3, t) \<Longrightarrow> \<bar>now\<bar> \<le> max_time \<Longrightarrow> catalog_step metadata r t"
| "deleteService metadata now sid r = (x4, t) \<Longrightarrow> \<bar>now\<bar> \<le> max_time \<Longrightarrow> catalog_step metadata r t"
| "listPlans cb c metadata now sid r = (x5, t) \<Longrightarrow> \<bar>now\<bar> \<le> max_time \<Longrightarrow> catalog_step metadata r t"
| "createPlan metadata now sid load r = (x6, t) \<Longrightarrow> \<bar>now\<bar> \<le> max_time \<Longrightarrow> catalog_step metadata r t"
| "updatePlan metadata now sid pid alter r = (x6, t) \<Longrightarrow> \<bar>now\<bar> \<le> max_time \<Longrightarrow> catalog_step metadata r t"
| "getPlanDeletePreview metadata now sid pid r = (x3, t) \<Longrightarrow> \<bar>now\<bar> \<le> max_time \<Longrightarrow> catalog_step metadata r t"
| "deletePlan metadata now sid pid r = (x4, t) \<Longrightarrow> \<bar>now\<bar> \<le> max_time \<Longrightarrow> catalog_step metadata r t"

lemma pro_valid_catalog:
  "pro_valid p \<Longrightarrow> icon_ok s \<Longrightarrow> pro_valid (add_service s p)"
  "pro_valid p \<Longrightarrow> icon_ok s \<Longrightarrow> pro_valid (replace_service sid s p)"
  "pro_valid p \<Longrightarrow> pro_valid (delete_service sid ids p)"
  "pro_valid (add_plan q p) = pro_valid p" "pro_valid (replace_plan pid q p) = pro_valid p"
  "pro_valid (delete_plan pid p) = pro_valid p"
  by (auto simp: pro_valid_def list_all_iff dest!: in_set_replace_byD)

lemma createService_result:
  assumes "createService metadata now payload r = (x, t)" and "session_at rest metadata now r" and "pro_view metadata r = Some p"
  shows "x = ebind (service_payload payload) (\<lambda>parts. create_service_check metadata now parts p) \<and> session_at rest metadata now t \<and>
    pro_view metadata t = Some (case x of Inl e \<Rightarrow> p | Inr s \<Rightarrow> add_service s p)"
proof (cases "service_payload payload")
  case (Inl e)
  with assms show ?thesis by (auto simp: createService_def)
next
  case (Inr parts)
  have "pro_valid (add_service s p)" if "create_service_check metadata now parts p = Inr s" for s
    by (rule pro_valid_catalog(1) [OF pro_view_valid [OF assms(3)] create_service_ok(2) [OF Inr that]])
  from cat.transact_result [OF assms(1) [unfolded createService_def Inr abind_simps] assms(2,3) this] Inr show ?thesis by auto
qed

lemma updateService_result:
  assumes "updateService metadata now sid changes r = (x, t)" and "session_at rest metadata now r" and "pro_view metadata r = Some p"
  shows "x = update_service_check now sid changes p \<and> session_at rest metadata now t \<and>
    pro_view metadata t = Some (case x of Inl e \<Rightarrow> p | Inr s \<Rightarrow> replace_service sid s p)"
proof -
  have v: "pro_valid p" by (rule pro_view_valid [OF assms(3)])
  have "pro_valid (replace_service sid s p)" if "update_service_check now sid changes p = Inr s" for s
    using update_service_ok(2) [OF that] v by (intro pro_valid_catalog) (simp_all add: pro_valid_def list_all_iff)
  from cat.transact_result [OF assms(1) [unfolded updateService_def] assms(2,3) this] show ?thesis by auto
qed

lemma deleteService_result:
  assumes "deleteService metadata now sid r = (x, t)" and "session_at rest metadata now r" and "pro_view metadata r = Some p"
  shows "session_at rest metadata now t \<and> (case delete_service_check sid p of
      Inl e \<Rightarrow> x = Inl e \<and> pro_view metadata t = Some p
    | Inr ids \<Rightarrow> x = Inr () \<and> pro_view metadata t = Some (delete_service sid ids p))"
proof -
  have v: "pro_valid p" by (rule pro_view_valid [OF assms(3)])
  obtain y u where run: "transact (catalog_requireState metadata now) (catalog_updateState now)
       (delete_service_check sid) (delete_service sid) r = (y, u)" by fastforce
  from cat.transact_result [OF run assms(2,3) pro_valid_catalog(3) [OF v]] assms(1) run show ?thesis
    by (cases y) (auto simp: deleteService_def abind_def areturn_def split: sum.splits)
qed

lemma catalog_plain_result:
  assumes "transact (catalog_requireState metadata now) (catalog_updateState now) check updater r = (x, t)"
    and "session_at rest metadata now r" and "pro_view metadata r = Some p" and "\<And>x. pro_valid (updater x p) = pro_valid p"
  shows "x = check p \<and> session_at rest metadata now t \<and>
    pro_view metadata t = Some (case check p of Inl e \<Rightarrow> p | Inr x \<Rightarrow> updater x p)"
  by (rule cat.transact_result [OF assms(1-3)]) (simp add: assms(4) pro_view_valid [OF assms(3)])

lemma createPlan_result:
  assumes "createPlan metadata now sid load r = (x, t)" and "session_at rest metadata now r" and "pro_view metadata r = Some p"
  shows "x = ebind (plan_payload load) (\<lambda>parts. create_plan_check metadata now sid parts p) \<and> session_at rest metadata now t \<and>
    pro_view metadata t = Some (case x of Inl e \<Rightarrow> p | Inr q \<Rightarrow> add_plan q p)"
proof (cases "plan_payload load")
  case (Inl e)
  with assms show ?thesis by (auto simp: createPlan_def)
next
  case (Inr parts)
  from catalog_plain_result [OF assms(1) [unfolded createPlan_def Inr abind_simps] assms(2,3) pro_valid_catalog(4)] Inr
  show ?thesis by auto
qed

lemma updatePlan_result:
  assumes "updatePlan metadata now sid pid alter r = (x, t)" and "session_at rest metadata now r" and "pro_view metadata r = Some p"
  shows "x = update_plan_check now sid pid alter p \<and> session_at rest metadata now t \<and>
    pro_view metadata t = Some (case x of Inl e \<Rightarrow> p | Inr q \<Rightarrow> replace_plan pid q p)"
  using catalog_plain_result [OF assms(1) [unfolded updatePlan_def] assms(2,3) pro_valid_catalog(5)] by auto

lemma deletePlan_result:
  assumes "deletePlan metadata now sid pid r = (x, t)" and "session_at rest metadata now r" and "pro_view metadata r = Some p"
  shows "x = delete_plan_check sid pid p \<and> session_at rest metadata now t \<and>
    pro_view metadata t = Some (case x of Inl e \<Rightarrow> p | Inr _ \<Rightarrow> delete_plan pid p)"
  using catalog_plain_result [OF assms(1) [unfolded deletePlan_def] assms(2,3) pro_valid_catalog(6)] by auto

lemma catalog_step_refines:
  assumes "catalog_step metadata r t" and "session_at rest metadata now0 r" and "pro_view metadata r = Some p"
  shows "\<exists>p'. catalog_change p p' \<and> session_at rest metadata now0 t \<and> pro_view metadata t = Some p'"
proof -
  have s: "\<bar>now\<bar> \<le> max_time \<Longrightarrow> session_at rest metadata now r" for now
    using assms(2) by (rule session_at_now)
  have same: "session_at rest metadata now t \<Longrightarrow> session_at rest metadata now0 t" for now
    using assms(2) by (simp add: session_at_def session_def)
  note rules = catalog_change.intros same
  from assms(1) show ?thesis
  proof cases
    case (1 cb c now x1)
    from cat.query_result [OF 1(1) [unfolded listServices_def] s [OF 1(2)] assms(3)] show ?thesis by (auto intro: rules)
  next
    case (2 now payload x2)
    from createService_result [OF 2(1) s [OF 2(2)] assms(3)] show ?thesis
      by (cases x2) (auto dest!: sym [of "Inr _"] simp: ebind_eq_Inr intro: rules)
  next
    case (3 now sid changes x2)
    from updateService_result [OF 3(1) s [OF 3(2)] assms(3)] show ?thesis
      by (cases x2) (auto dest!: sym [of "Inr _"] intro: rules)
  next
    case (4 now sid x3)
    from cat.query_result [OF 4(1) [unfolded getServiceDeletePreview_def] s [OF 4(2)] assms(3)] show ?thesis by (auto intro: rules)
  next
    case (5 now sid x4)
    from deleteService_result [OF 5(1) s [OF 5(2)] assms(3)] show ?thesis
      by (auto split: sum.splits intro: rules)
  next
    case (6 cb c now sid x5)
    from cat.query_result [OF 6(1) [unfolded listPlans_def] s [OF 6(2)] assms(3)] show ?thesis by (auto intro: rules)
  next
    case (7 now sid load x6)
    from createPlan_result [OF 7(1) s [OF 7(2)] assms(3)] show ?thesis
      by (cases x6) (auto dest!: sym [of "Inr _"] simp: ebind_eq_Inr intro: rules)
  next
    case (8 now sid pid alter x6)
    from updatePlan_result [OF 8(1) s [OF 8(2)] assms(3)] show ?thesis
      by (cases x6) (auto dest!: sym [of "Inr _"] intro: rules)
  next
    case (9 now sid pid x3)
    from cat.query_result [OF 9(1) [unfolded getPlanDeletePreview_def] s [OF 9(2)] assms(3)] show ?thesis by (auto intro: rules)
  next
    case (10 now sid pid x4)
    from deletePlan_result [OF 10(1) s [OF 10(2)] assms(3)] show ?thesis
      by (cases x4) (auto dest!: sym [of "Inr _"] intro: rules)
  qed
qed

lemma service_definitions_ok:
  "list_all (\<lambda>(sid, name, icon). name_ok name) serviceDefinitions" "distinct (map (\<lambda>(sid, name, icon). toLowerCase name) serviceDefinitions)"
  unfolding name_ok_def by code_simp+

text \<open>Amounts written with two decimals, such as those of the baseline.\<close>

definition plain_amount :: "string \<Rightarrow> bool" where
  "plain_amount t = (case split_on (CHR ''.'') t of
     [ds, fs] \<Rightarrow> list_all is_digit ds \<and> ds \<noteq> [] \<and> list_all is_digit fs \<and> length fs = 2 \<and> length ds \<le> 9
   | _ \<Rightarrow> False)"

lemma plain_amount_ok: "plain_amount t \<Longrightarrow> price_ok (Some t)"
proof -
  assume "plain_amount t"
  then obtain ds fs where split: "split_on (CHR ''.'') t = [ds, fs]" and ds: "list_all is_digit ds" "ds \<noteq> []" "length ds \<le> 9"
    and fs: "list_all is_digit fs" "length fs = 2"
    by (auto simp: plain_amount_def split: list.splits)
  have t: "t = ds @ CHR ''.'' # fs" using split join_split_on [of "CHR ''.''" t] by simp
  have "digits_value (ds @ fs) < 10 ^ length (ds @ fs)" by (rule digits_value_bound) (simp add: ds fs)
  also have "\<dots> \<le> 10 ^ 11" using ds(3) fs(2) by (intro power_increasing) simp_all
  also have "\<dots> < (2::nat) ^ 1000" by simp
  finally show ?thesis unfolding t using ds fs by (intro price_ok_amount) simp_all
qed

lemma plan_definitions_ok:
  "list_all (\<lambda>(sid, pid, name, price). name_ok name \<and> price_ok price) planDefinitions"
  "distinct (map (\<lambda>(sid, pid, name, price). (sid, toLowerCase name)) planDefinitions)"
proof -
  have "list_all (\<lambda>(sid, pid, name, price). name_ok name \<and> (case price of None \<Rightarrow> True | Some t \<Rightarrow> plain_amount t)) planDefinitions"
    unfolding name_ok_def by code_simp
  moreover have "price_ok price" if "case price of None \<Rightarrow> True | Some t \<Rightarrow> plain_amount t" for price
    using that by (cases price) (simp_all add: plain_amount_ok price_ok_def [of None])
  ultimately show "list_all (\<lambda>(sid, pid, name, price). name_ok name \<and> price_ok price) planDefinitions"
    by (auto simp: list_all_iff)
  show "distinct (map (\<lambda>(sid, pid, name, price). (sid, toLowerCase name)) planDefinitions)" by code_simp
qed

lemma catalog_inv_baseline: "catalog_inv (baseline_lists metadata)"
proof -
  have "list_all (\<lambda>s. name_ok (sv_name s)) (baseline_services metadata)"
    using service_definitions_ok(1) by (auto simp: baseline_services_def list_all_iff)
  moreover have "list_all plan_wf (baseline_plans metadata)"
    using plan_definitions_ok(1) by (auto simp: baseline_plans_def list_all_iff plan_wf_def)
  moreover have "distinct (map (\<lambda>s. toLowerCase (sv_name s)) (baseline_services metadata))"
    using service_definitions_ok(2) by (simp add: baseline_services_def comp_def case_prod_unfold)
  then have "uniq_by sv_id same_service_name (baseline_services metadata)"
    by (rule uniq_by_distinct) (simp add: same_service_name_def)
  moreover have "map (\<lambda>q. (pl_service_id q, toLowerCase (pl_name q))) (baseline_plans metadata) =
      map (\<lambda>(sid, n). (md_tenantId metadata @ ''-'' @ sid, n)) (map (\<lambda>(sid, pid, name, price). (sid, toLowerCase name)) planDefinitions)"
    by (simp add: baseline_plans_def comp_def case_prod_beta)
  then have "distinct (map (\<lambda>q. (pl_service_id q, toLowerCase (pl_name q))) (baseline_plans metadata))"
    using plan_definitions_ok(2) by (simp only: distinct_map [of "\<lambda>(sid, n). (md_tenantId metadata @ ''-'' @ sid, n)"]) (auto simp: inj_on_def)
  then have "uniq_by pl_id same_plan_name (baseline_plans metadata)"
    by (rule uniq_by_distinct) (simp add: same_plan_name_def)
  ultimately show ?thesis
    by (simp add: catalog_inv_def baseline_icons baseline_lists_def)
qed

lemma plan_ids_baseline: "plan_ids_ok (baseline_lists metadata)"
proof -
  have "distinct (map pl_id (baseline_plans metadata))"
    using baseline_ids_distinct [of metadata] by (simp add: ids_distinct_def baseline_lists_def)
  then have "uniq_by pl_service_id same_plan_id (baseline_plans metadata)"
    by (rule uniq_by_distinct) (simp add: same_plan_id_def)
  then show ?thesis by (simp add: plan_ids_ok_def baseline_lists_def)
qed

text \<open>With distinct identifiers, the rows themselves have distinct names.\<close>

definition catalog_ok :: "ProLists \<Rightarrow> bool" where
  "catalog_ok p \<longleftrightarrow> list_all (\<lambda>s. name_ok (sv_name s) \<and> icon_ok s) (services p) \<and> list_all plan_wf (plans p) \<and>
     distinct (map sv_id (services p)) \<and> distinct (map pl_id (plans p)) \<and>
     distinct (map (\<lambda>s. toLowerCase (sv_name s)) (services p)) \<and>
     distinct (map (\<lambda>q. (pl_service_id q, toLowerCase (pl_name q))) (plans p))"

lemma catalog_ok_iff:
  "catalog_ok p \<longleftrightarrow> catalog_inv p \<and> distinct (map sv_id (services p)) \<and> distinct (map pl_id (plans p))"
proof -
  have "distinct (map (\<lambda>s. toLowerCase (sv_name s)) (services p)) \<longleftrightarrow> uniq_by sv_id same_service_name (services p)"
    if "distinct (map sv_id (services p))"
    by (rule distinct_iff_uniq_all [OF that]) (simp add: same_service_name_def)
  moreover have "distinct (map (\<lambda>q. (pl_service_id q, toLowerCase (pl_name q))) (plans p)) \<longleftrightarrow>
      uniq_by pl_id same_plan_name (plans p)" if "distinct (map pl_id (plans p))"
    by (rule distinct_iff_uniq_all [OF that]) (simp add: same_plan_name_def)
  ultimately show ?thesis
    by (auto simp: catalog_ok_def catalog_inv_def list_all_iff)
qed

lemma catalog_ok_change:
  assumes "catalog_change p p'" and "fresh_rows p p'" and "catalog_ok p"
  shows "catalog_ok p'"
proof -
  have "distinct (map sv_id (services p')) \<and> distinct (map pl_id (plans p'))"
    using assms
  proof (induction rule: catalog_change.induct)
    case (update_service now sid changes p s)
    then have "sv_id s = sid" using update_service_ok(1) by (simp add: catalog_ok_def list_all_iff)
    with update_service.prems show ?case by (simp add: catalog_ok_def map_key_replace_by)
  next
    case (update_plan now sid pid alter p q)
    then have "pl_id q = pid" using update_plan_ok(1) by (simp add: catalog_ok_def list_all_iff)
    with update_plan.prems show ?case by (simp add: catalog_ok_def map_key_replace_by)
  qed (auto simp: catalog_ok_def fresh_rows_def distinct_remove_by distinct_map_filter)
  with assms catalog_inv_change show ?thesis by (simp add: catalog_ok_iff)
qed

lemma catalog_ok_baseline: "catalog_ok (baseline_lists metadata)"
  using baseline_ids_distinct [of metadata] by (simp add: catalog_ok_iff catalog_inv_baseline ids_distinct_def)

section \<open>Properties\<close>

text \<open>
  C23. The catalog stays valid. Start from a valid catalog without repeated identifiers and run any sequence of
  catalog operations, each created service or plan getting an identifier that none has (the code makes it from the
  millisecond). Then names stay trimmed, non-empty and at most 200 characters long, icons and prices stay valid, no
  two rows have the same identifier, no two services share a name up to case, and no two plans of one
  service do. Without new identifiers this fails: see \<open>twin_services_share_name\<close>.
\<close>

theorem catalog_stays_valid:
  assumes "(with_fresh_ids metadata (catalog_step metadata))\<^sup>*\<^sup>* r t"
    and "session_at rest metadata now r" and "pro_view metadata r = Some p" and "catalog_ok p"
  shows "\<exists>p'. session_at rest metadata now t \<and> pro_view metadata t = Some p' \<and>
     list_all (\<lambda>s. name_ok (sv_name s) \<and> icon_ok s) (services p') \<and> list_all plan_wf (plans p') \<and>
     distinct (map sv_id (services p')) \<and> distinct (map pl_id (plans p')) \<and>
     distinct (map (\<lambda>s. toLowerCase (sv_name s)) (services p')) \<and>
     distinct (map (\<lambda>q. (pl_service_id q, toLowerCase (pl_name q))) (plans p'))"
proof -
  have "\<exists>p'. session_at rest metadata now t \<and> pro_view metadata t = Some p' \<and> catalog_ok p'"
    by (rule fresh_run [where change = catalog_change and good = catalog_ok, OF assms])
      (blast intro: catalog_step_refines catalog_ok_change)+
  then show ?thesis unfolding catalog_ok_def .
qed

theorem catalog_stays_valid_witness:
  "\<exists>r t p. catalog_step sample_metadata r t \<and> pro_view sample_metadata t = Some p \<and>
     length (services p) = 7 \<and> distinct (map (\<lambda>s. toLowerCase (sv_name s)) (services p))"
proof -
  obtain r rest where r: "session_at rest sample_metadata 0 r" "pro_view sample_metadata r = Some (baseline_lists sample_metadata)"
    using sample_session by blast
  let ?payload = "\<lparr>scr_name = ''Max'', scr_icon = None\<rparr>"
  obtain x t where run: "createService sample_metadata 0 ?payload r = (x, t)" by fastforce
  then have step: "catalog_step sample_metadata r t"
    by (rule catalog_step.intros(2)) (simp add: max_time_def)
  have made: "case ebind (service_payload ?payload) (\<lambda>parts. create_service_check sample_metadata 0 parts (baseline_lists sample_metadata)) of
      Inl e \<Rightarrow> False | Inr s \<Rightarrow> list_all (\<lambda>k. sv_id s \<noteq> k) (map sv_id (services (baseline_lists sample_metadata)))"
    by code_simp
  with createService_result [OF run r] obtain s where s: "pro_view sample_metadata t = Some (add_service s (baseline_lists sample_metadata))"
    "sv_id s \<notin> sv_id ` set (services (baseline_lists sample_metadata))"
    by (auto simp: list_all_iff split: sum.splits)
  have "with_fresh_ids sample_metadata (catalog_step sample_metadata) r t"
    using step s r(2) by (simp add: with_fresh_ids_def fresh_rows_def)
  from catalog_stays_valid [OF r_into_rtranclp [where r = "with_fresh_ids sample_metadata (catalog_step sample_metadata)", OF this] r catalog_ok_baseline]
  obtain p where p: "pro_view sample_metadata t = Some p" "distinct (map (\<lambda>s. toLowerCase (sv_name s)) (services p))" by blast
  moreover have "length (services p) = 7"
    using p(1) s(1) by (auto simp: baseline_lists_def baseline_services_def serviceDefinitions_def)
  ultimately show ?thesis using step by (intro exI conjI)
qed

text \<open>
  What happens within one millisecond: two services created get one identifier, and renaming it replaces both rows by one,
  so two rows have one name.
\<close>

definition twin_services :: "demo_error + ProLists" where
  "twin_services =
    (let p = \<lparr> clients = [], services = [], plans = [], subscriptions = [] \<rparr>;
         create = (\<lambda>name p. ebind (create_service_check sample_metadata 0 (name, None) p) (\<lambda>s. Inr (add_service s p)));
         rename = (\<lambda>sid name p. ebind (update_service_check 0 sid \<lparr>sup_name = Some name, sup_icon = None\<rparr> p)
           (\<lambda>s. Inr (replace_service sid s p))) in
     ebind (create ''one'' p) (\<lambda>p. ebind (create ''two'' p) (\<lambda>p. rename (sv_id (services p ! 0)) ''three'' p)))"

lemma twin_services_share_name:
  "case twin_services of Inl e \<Rightarrow> False | Inr p \<Rightarrow> map sv_name (services p) = [''three'', ''three'']"
  by code_simp

lemma length_subscriptionRows: "length (subscriptionRows p P) = length (filter (\<lambda>u. P u \<and> su_status u = ''active'') (subscriptions p))"
  by (simp add: subscriptionRows_def Let_def conj_commute)

lemma service_subscription:
  assumes "refs_ok p" and "plan_ids_ok p" and "u \<in> set (subscriptions p)"
    and "su_plan_id u \<in> pl_id ` {q \<in> set (plans p). pl_service_id q = sid}"
  shows "su_service_id u = sid"
proof -
  obtain q where q: "q \<in> set (plans p)" "pl_id q = su_plan_id u" "pl_service_id q = su_service_id u"
    using assms(1,3) by (auto simp: refs_ok_def subscription_refs_def)
  obtain r where r: "r \<in> set (plans p)" "pl_id r = su_plan_id u" "pl_service_id r = sid" using assms(4) by auto
  from uniq_byD [OF assms(2) [unfolded plan_ids_ok_def] q(1) r(1)] q r show ?thesis by (simp add: same_plan_id_def)
qed

text \<open>
  C24. The preview of a service is exact: when the references are in order, deleting the service
  after the preview removes as many plans and subscriptions as the preview announced, and exactly
  those of the service; the clients and the other services stay.
\<close>

theorem service_preview_exact:
  assumes "session_at rest metadata now r" and "pro_view metadata r = Some p" and "refs_ok p" and "plan_ids_ok p"
    and "getServiceDeletePreview metadata now sid r = (Inr pv, t)"
    and "deleteService metadata now' sid t = (x, u)" and "\<bar>now'\<bar> \<le> max_time"
  shows "x = Inr () \<and> (\<exists>p'. pro_view metadata u = Some p' \<and>
    dp_affected_plan_count pv = length (plans p) - length (plans p') \<and>
    dp_total_subscription_count pv = length (subscriptions p) - length (subscriptions p') \<and>
    subscriptions p' = filter (\<lambda>v. su_service_id v \<noteq> sid) (subscriptions p) \<and>
    plans p' = filter (\<lambda>q. pl_service_id q \<noteq> sid) (plans p) \<and>
    services p' = filter (\<lambda>s. sv_id s \<noteq> sid) (services p) \<and> clients p' = clients p)"
proof -
  obtain s where s: "find_by sv_id sid (services p) = Some s" "pv = preview p ''service'' sid (sv_name s)"
    and t: "session_at rest metadata now t" "pro_view metadata t = Some p"
    using cat.query_result [OF assms(5) [unfolded getServiceDeletePreview_def] assms(1,2)] by (auto dest!: sym [of "Inr _"] simp: ebind_eq_Inr)
  let ?ids = "map pl_id (filter (\<lambda>q. pl_service_id q = sid) (plans p))"
  have "delete_service_check sid p = Inr ?ids"
    using find_by_SomeD [OF s(1)] by (auto simp: delete_service_check_def list_ex_iff throw_if_def)
  then have x: "x = Inr ()" and u: "pro_view metadata u = Some (delete_service sid ?ids p)"
    using deleteService_result [OF assms(6) session_at_now [OF t(1) assms(7)] t(2)] by simp_all
  have same: "filter (\<lambda>v. su_service_id v \<noteq> sid \<and> su_plan_id v \<notin> set ?ids) (subscriptions p) =
      filter (\<lambda>v. su_service_id v \<noteq> sid) (subscriptions p)"
    using service_subscription [OF assms(3,4)] by (intro filter_cong refl) auto
  have "targets ''service'' sid = (\<lambda>v. su_service_id v = sid)" by (simp add: targets_def fun_eq_iff)
  then show ?thesis
    using x u length_filter_compl_eq [of "\<lambda>q. pl_service_id q = sid" "plans p"]
      length_filter_compl_eq [of "\<lambda>v. su_service_id v = sid" "subscriptions p"]
    by (simp add: same [unfolded set_map set_filter] s(2) preview_def Let_def same)
qed

theorem service_preview_exact_witness:
  "\<exists>r pv t u. getServiceDeletePreview sample_metadata 0 ''t1-service-netflix'' r = (Inr pv, t) \<and>
     deleteService sample_metadata 0 ''t1-service-netflix'' t = (Inr (), u)"
proof -
  obtain r rest where r: "session_at rest sample_metadata 0 r" "pro_view sample_metadata r = Some (baseline_lists sample_metadata)"
    using sample_session by blast
  obtain x t where run: "getServiceDeletePreview sample_metadata 0 ''t1-service-netflix'' r = (x, t)" by fastforce
  obtain s where s: "find_by sv_id ''t1-service-netflix'' (services (baseline_lists sample_metadata)) = Some s"
    by (simp add: baseline_lists_def baseline_services_def serviceDefinitions_def sample_metadata_def find_by_def)
  have x: "x = Inr (preview (baseline_lists sample_metadata) ''service'' ''t1-service-netflix'' (sv_name s))" (is "x = Inr ?pv")
    using cat.query_result [OF run [unfolded getServiceDeletePreview_def] r] by (simp add: not_found_def s)
  obtain y u where del: "deleteService sample_metadata 0 ''t1-service-netflix'' t = (y, u)" by fastforce
  have "\<bar>0\<bar> \<le> max_time" by (simp add: max_time_def)
  from service_preview_exact [OF r baseline_refs_ok plan_ids_baseline run [unfolded x] del this] have "y = Inr ()" by (rule conjunct1)
  with run del show ?thesis unfolding x by blast
qed

text \<open>
  With a consistent collation, the listing of the services is the collection rearranged into
  ascending order by name, then by creation time, and services that compare equal keep their order;
  listing changes nothing.
\<close>

theorem listServices_sorted:
  assumes "session_at rest metadata now r" and "pro_view metadata r = Some p" and "consistent cb" and "consistent cc"
    and "listServices cb cc metadata now r = (x, t)"
  shows "pro_view metadata t = Some p \<and> (\<exists>xs. x = Inr xs \<and> mset xs = mset (services p) \<and>
    sorted_wrt (\<lambda>a b. cb (sv_name a) (sv_name b) < 0 \<or>
      cb (sv_name a) (sv_name b) = 0 \<and> cc (sv_created_at a) (sv_created_at b) \<le> 0) xs \<and>
    (\<forall>k :: Service. filter (\<lambda>s. cb (sv_name k) (sv_name s) = 0 \<and> cc (sv_created_at k) (sv_created_at s) = 0) xs =
      filter (\<lambda>s. cb (sv_name k) (sv_name s) = 0 \<and> cc (sv_created_at k) (sv_created_at s) = 0) (services p)))"
proof -
  let ?cmp = "then_by (\<lambda>a b. cb (sv_name a) (sv_name b)) (\<lambda>a b. cc (sv_created_at a) (sv_created_at b)) :: Service comparison"
  let ?xs = "js_sort ?cmp (services p)"
  have x: "x = Inr ?xs" and t: "pro_view metadata t = Some p"
    using cat.query_result [OF assms(5) [unfolded listServices_def] assms(1,2)] by (simp_all add: sortByName_def)
  have cmp: "consistent ?cmp" by (rule consistent_then_by [OF consistent_on [OF assms(3)] consistent_on [OF assms(4)]])
  have "sorted_wrt (\<lambda>a b. cb (sv_name a) (sv_name b) < 0 \<or>
      cb (sv_name a) (sv_name b) = 0 \<and> cc (sv_created_at a) (sv_created_at b) \<le> 0) ?xs"
    by (rule sorted_wrt_mono_rel [OF _ in_order_js_sort [OF cmp]]) (auto simp: then_by_def split: if_splits)
  moreover have "(\<lambda>s. ?cmp k s = 0) = (\<lambda>s. cb (sv_name k) (sv_name s) = 0 \<and> cc (sv_created_at k) (sv_created_at s) = 0)" for k :: Service
    by (auto simp: then_by_def)
  then have "filter (\<lambda>s. cb (sv_name k) (sv_name s) = 0 \<and> cc (sv_created_at k) (sv_created_at s) = 0) ?xs =
      filter (\<lambda>s. cb (sv_name k) (sv_name s) = 0 \<and> cc (sv_created_at k) (sv_created_at s) = 0) (services p)" for k :: Service
    using js_sort_stable [OF cmp, of k "services p"] by simp
  ultimately show ?thesis using x t by (simp add: mset_js_sort)
qed

text \<open>A collation for the witness: comparison of lengths.\<close>

theorem listServices_sorted_witness:
  "\<exists>r xs t. listServices (\<lambda>a b. int (length a) - int (length b)) (\<lambda>a b. int (length a) - int (length b)) sample_metadata 0 r = (Inr xs, t) \<and>
     mset xs = mset (services (baseline_lists sample_metadata))"
proof -
  obtain r rest where r: "session_at rest sample_metadata 0 r" "pro_view sample_metadata r = Some (baseline_lists sample_metadata)"
    using sample_session by blast
  have c: "consistent (\<lambda>a b. int (length a) - int (length b) :: int)" for dummy :: "'a itself"
    by (auto simp: consistent_def)
  obtain x t where run: "listServices (\<lambda>a b. int (length a) - int (length b)) (\<lambda>a b. int (length a) - int (length b)) sample_metadata 0 r = (x, t)"
    by fastforce
  from listServices_sorted [OF r c c run] run show ?thesis by blast
qed

end
