(* ===== verification/DemoSubscriptions.thy ===== *)
theory DemoSubscriptions
  imports DemoCatalog
begin

text \<open>
  The subscriptions of the demo (\<open>features/demo/services/demo-subscriptions.ts\<close>): validation,
  listing with filters, creation, change, the life cycle (cancel, renew, reactivate) and the reveal
  of the stored credentials. \<open>localeCompare\<close> on the expiry dates is the parameter \<open>collate\<close>. A call
  reads the clock once. The main results: subscriptions keep valid dates, addresses, durations and
  references, a PIN always has a profile, creating and changing never make two active subscriptions of one
  client to one service with one address while identifiers are new, renewing moves the expiry by exactly the days of
  the duration, and what was stored is what \<open>reveal\<close> returns.
\<close>

section \<open>Data\<close>

record Subscription =
  sb_id :: string
  sb_tenant_id :: string
  sb_client_id :: string
  sb_service_id :: string
  sb_plan_id :: string
  sb_streaming_email :: string
  sb_profile_name :: "string option"
  sb_duration_type :: string
  sb_starts_at :: string
  sb_expires_at :: string
  sb_cancelled_at :: "string option"
  sb_status :: string
  sb_created_at :: string
  sb_updated_at :: string
  sb_has_password :: bool
  sb_has_pin :: bool

record SubscriptionCreate =
  sc_client_id :: string
  sc_service_id :: string
  sc_plan_id :: string
  sc_streaming_email :: string
  sc_streaming_password :: "string option"
  sc_profile_name :: "string option"
  sc_profile_pin :: "string option"
  sc_duration_type :: string
  sc_starts_at :: string
  sc_expires_at :: "string option"

record SubscriptionUpdate =
  sx_client_id :: "string option"
  sx_service_id :: "string option"
  sx_plan_id :: "string option"
  sx_streaming_email :: "string option"
  sx_streaming_password :: "string option"
  sx_profile_name :: "string option"
  sx_profile_pin :: "string option"
  sx_duration_type :: "string option"
  sx_starts_at :: "string option"
  sx_expires_at :: "string option"

record RevealCredentials =
  rc_streaming_password :: "string option"
  rc_profile_pin :: "string option"

record SubscriptionFilters =
  sf_status :: "string option"
  sf_client_id :: "string option"
  sf_service_id :: "string option"
  sf_quick_filter :: "string option"

definition DemoSubscriptionError :: "string \<Rightarrow> string \<Rightarrow> demo_error" where
  "DemoSubscriptionError kind message = DomainError ''DemoSubscriptionError'' kind message"

abbreviation subscription_error :: "string \<Rightarrow> demo_error" where
  "subscription_error kind \<equiv> DemoSubscriptionError kind kind"

section \<open>Durations and dates\<close>

text \<open>
  \<open>DURATION_DAYS[key]\<close>: the table, or a member that every object inherits (a truthy value that
  is not a number), or \<open>undefined\<close>.
\<close>

datatype duration_entry = Days int | Inherited | Undefined

definition inherited_members :: "string list" where
  "inherited_members = [''constructor'', ''__defineGetter__'', ''__defineSetter__'', ''hasOwnProperty'',
     ''__lookupGetter__'', ''__lookupSetter__'', ''isPrototypeOf'', ''propertyIsEnumerable'', ''toString'',
     ''valueOf'', ''__proto__'', ''toLocaleString'']"

definition DURATION_DAYS :: "string \<Rightarrow> duration_entry" where
  "DURATION_DAYS key = (case map_of [(''1_month'', 30), (''3_months'', 90), (''6_months'', 180), (''9_months'', 270), (''1_year'', 365)] key of
     Some d \<Rightarrow> Days d
   | None \<Rightarrow> if key \<in> set inherited_members then Inherited else Undefined)"

definition parseDate :: "string \<Rightarrow> demo_error + int" where
  "parseDate value = not_found (Date_parse value) (subscription_error ''subscription_invalid_dates'')"

definition isoDate :: "string \<Rightarrow> demo_error + string" where
  "isoDate value = ebind (parseDate value) iso_now"

definition calculateExpiration :: "string \<Rightarrow> string \<Rightarrow> string option \<Rightarrow> demo_error + string" where
  "calculateExpiration startsAt durationType customExpiresAt =
    (if durationType = ''custom'' then
       (if falsy customExpiresAt
        then Inl (DemoSubscriptionError ''subscription_validation_failed'' ''custom_duration_requires_expiry'')
        else isoDate (the customExpiresAt))
     else (case DURATION_DAYS durationType of
       Undefined \<Rightarrow> Inl (subscription_error ''subscription_invalid_duration'')
     | Inherited \<Rightarrow> ebind (parseDate startsAt) (\<lambda>_. Inl RangeError)
     | Days days \<Rightarrow> ebind (parseDate startsAt) (\<lambda>t. iso_now (t + days * 86400000))))"

definition validateDateRange :: "string \<Rightarrow> string \<Rightarrow> demo_error + unit" where
  "validateDateRange startsAt expiresAt =
     ebind (parseDate expiresAt) (\<lambda>e. ebind (parseDate startsAt) (\<lambda>s.
       throw_if (e \<le> s) (subscription_error ''subscription_invalid_dates'')))"

definition validateEmail :: "string \<Rightarrow> demo_error + string" where
  "validateEmail value =
    (let email = trim value in
     if email = [] \<or> \<not> email_pattern email
     then Inl (DemoSubscriptionError ''subscription_validation_failed'' ''email_invalid'') else Inr email)"

definition validateDuration :: "string \<Rightarrow> demo_error + unit" where
  "validateDuration value = throw_if (value \<noteq> ''custom'' \<and> DURATION_DAYS value = Undefined)
     (subscription_error ''subscription_invalid_duration'')"

section \<open>Helpers\<close>

text \<open>\<open>Boolean(v)\<close> and truthiness of an optional nullable string.\<close>

definition has_text :: "string option option \<Rightarrow> bool" where
  "has_text v \<longleftrightarrow> \<not> falsy (Option.bind v (\<lambda>w. w))"

definition publicSubscription :: "DemoSubscriptionRelation \<Rightarrow> Subscription" where
  "publicSubscription relation = \<lparr>
     sb_id = su_id relation,
     sb_tenant_id = su_tenant_id relation,
     sb_client_id = su_client_id relation,
     sb_service_id = su_service_id relation,
     sb_plan_id = su_plan_id relation,
     sb_streaming_email = su_streaming_email relation,
     sb_profile_name = su_profile_name relation,
     sb_duration_type = su_duration_type relation,
     sb_starts_at = su_starts_at relation,
     sb_expires_at = su_expires_at relation,
     sb_cancelled_at = su_cancelled_at relation,
     sb_status = su_status relation,
     sb_created_at = su_created_at relation,
     sb_updated_at = su_updated_at relation,
     sb_has_password = has_text (su_streaming_secret relation),
     sb_has_pin = has_text (su_pin_secret relation) \<rparr>"

definition sub_requireState :: "DemoAuthMetadata \<Rightarrow> int \<Rightarrow> ProLists repo_act" where
  "sub_requireState metadata now = require_pro (subscription_error ''invalid_demo_workspace'') metadata now"

definition sub_updateState :: "int \<Rightarrow> (ProLists \<Rightarrow> ProLists) \<Rightarrow> ProLists repo_act" where
  "sub_updateState now updater =
     update_pro (subscription_error ''invalid_demo_workspace'') (subscription_error ''invalid_demo_workspace'') now updater"

definition validateRelationships :: "ProLists \<Rightarrow> string \<Rightarrow> string \<Rightarrow> string \<Rightarrow> demo_error + unit" where
  "validateRelationships state clientId serviceId planId =
     ebind (throw_if (\<not> list_ex (\<lambda>c. cl_id c = clientId) (clients state))
       (DemoSubscriptionError ''subscription_invalid_relationship'' ''client_not_found'')) (\<lambda>_.
     ebind (throw_if (\<not> list_ex (\<lambda>s. sv_id s = serviceId) (services state))
       (DemoSubscriptionError ''subscription_invalid_relationship'' ''service_not_found'')) (\<lambda>_.
     throw_if (case find_by pl_id planId (plans state) of None \<Rightarrow> True | Some plan \<Rightarrow> pl_service_id plan \<noteq> serviceId)
       (DemoSubscriptionError ''subscription_invalid_relationship'' ''plan_not_found'')))"

definition findSubscription :: "ProLists \<Rightarrow> string \<Rightarrow> demo_error + DemoSubscriptionRelation" where
  "findSubscription state sid = not_found (find_by su_id sid (subscriptions state)) (subscription_error ''subscription_not_found'')"

definition validateDuplicate :: "ProLists \<Rightarrow> string \<Rightarrow> string \<Rightarrow> string \<Rightarrow> string option \<Rightarrow> demo_error + unit" where
  "validateDuplicate state clientId serviceId streamingEmail exceptId =
     throw_if (list_ex (\<lambda>u. Some (su_id u) \<noteq> exceptId \<and> su_status u = ''active'' \<and> su_client_id u = clientId \<and>
       su_service_id u = serviceId \<and> toLowerCase (su_streaming_email u) = toLowerCase streamingEmail) (subscriptions state))
       (subscription_error ''subscription_duplicate'')"

text \<open>The quick filters, for a subscription that expires at \<open>e\<close>.\<close>

definition quick_match :: "string \<Rightarrow> int \<Rightarrow> int \<Rightarrow> string \<Rightarrow> bool" where
  "quick_match quick reference e status =
    (let week = reference + 7 * 86400000; month = reference + 30 * 86400000 in
     if quick = ''expiring'' then status = ''active'' \<and> e \<ge> reference \<and> e \<le> week
     else if quick = ''expired'' then status = ''expired'' \<or> e < reference
     else if quick = ''this_week'' then e \<ge> reference \<and> e \<le> week
     else if quick = ''this_month'' then e \<ge> reference \<and> e \<le> month
     else True)"

text \<open>A filter function that may throw.\<close>

fun filter_throws :: "('a \<Rightarrow> 'e + bool) \<Rightarrow> 'a list \<Rightarrow> 'e + 'a list" where
  "filter_throws f [] = Inr []"
| "filter_throws f (x # xs) = ebind (f x) (\<lambda>b. ebind (filter_throws f xs) (\<lambda>ys. Inr (if b then x # ys else ys)))"

definition filtered ::
  "string comparison \<Rightarrow> DemoSubscriptionRelation list \<Rightarrow> SubscriptionFilters \<Rightarrow> string \<Rightarrow> demo_error + Subscription list" where
  "filtered collate us filters referenceTime =
     ebind (parseDate referenceTime) (\<lambda>reference.
     let by_status = filter (\<lambda>u. falsy (sf_status filters) \<or> Some (su_status u) = sf_status filters) us;
         by_client = filter (\<lambda>u. falsy (sf_client_id filters) \<or> Some (su_client_id u) = sf_client_id filters) by_status;
         by_service = filter (\<lambda>u. falsy (sf_service_id filters) \<or> Some (su_service_id u) = sf_service_id filters) by_client in
     ebind (filter_throws (\<lambda>u. if falsy (sf_quick_filter filters) then Inr True
         else ebind (parseDate (su_expires_at u)) (\<lambda>e. Inr (quick_match (the (sf_quick_filter filters)) reference e (su_status u))))
       by_service) (\<lambda>chosen.
     Inr (js_sort (\<lambda>a b. collate (sb_expires_at a) (sb_expires_at b)) (map publicSubscription chosen))))"

section \<open>Operations\<close>

definition sub_list :: "string comparison \<Rightarrow> DemoAuthMetadata \<Rightarrow> int \<Rightarrow> SubscriptionFilters \<Rightarrow> Subscription list repo_act" where
  "sub_list collate metadata now filters = query (sub_requireState metadata now)
     (\<lambda>state. filtered collate (subscriptions state) filters (md_serverTime metadata))"

definition sub_get :: "DemoAuthMetadata \<Rightarrow> int \<Rightarrow> string \<Rightarrow> Subscription repo_act" where
  "sub_get metadata now sid = query (sub_requireState metadata now)
     (\<lambda>state. ebind (findSubscription state sid) (\<lambda>u. Inr (publicSubscription u)))"

definition sub_create_check ::
  "DemoAuthMetadata \<Rightarrow> int \<Rightarrow> SubscriptionCreate \<Rightarrow> ProLists \<Rightarrow> demo_error + DemoSubscriptionRelation" where
  "sub_create_check metadata now payload state =
     ebind (validateRelationships state (sc_client_id payload) (sc_service_id payload) (sc_plan_id payload)) (\<lambda>_.
     ebind (validateDuration (sc_duration_type payload)) (\<lambda>_.
     ebind (validateEmail (sc_streaming_email payload)) (\<lambda>streamingEmail.
     ebind (validateDuplicate state (sc_client_id payload) (sc_service_id payload) streamingEmail None) (\<lambda>_.
     ebind (isoDate (sc_starts_at payload)) (\<lambda>startsAt.
     ebind (calculateExpiration startsAt (sc_duration_type payload) (sc_expires_at payload)) (\<lambda>expiresAt.
     ebind (validateDateRange startsAt expiresAt) (\<lambda>_.
     ebind (throw_if (\<not> falsy (sc_profile_pin payload) \<and> falsy (map_option trim (sc_profile_name payload)))
       (subscription_error ''subscription_pin_requires_profile'')) (\<lambda>_.
     ebind (iso_now now) (\<lambda>timestamp.
     Inr \<lparr> su_id = ''subscription-'' @ md_tenantId metadata @ ''-'' @ int_to_string now,
       su_tenant_id = md_tenantId metadata,
       su_client_id = sc_client_id payload,
       su_service_id = sc_service_id payload,
       su_plan_id = sc_plan_id payload,
       su_streaming_email = streamingEmail,
       su_streaming_secret = Some (Option.bind (sc_streaming_password payload) or_null),
       su_profile_name = Option.bind (sc_profile_name payload) (\<lambda>v. or_null (trim v)),
       su_pin_secret = Some (Option.bind (sc_profile_pin payload) or_null),
       su_duration_type = sc_duration_type payload,
       su_starts_at = startsAt,
       su_expires_at = expiresAt,
       su_cancelled_at = None,
       su_status = ''active'',
       su_created_at = timestamp,
       su_updated_at = timestamp \<rparr>)))))))))"

definition add_subscription :: "DemoSubscriptionRelation \<Rightarrow> ProLists \<Rightarrow> ProLists" where
  "add_subscription relation current = current\<lparr>subscriptions := subscriptions current @ [relation]\<rparr>"

definition replace_subscription :: "string \<Rightarrow> DemoSubscriptionRelation \<Rightarrow> ProLists \<Rightarrow> ProLists" where
  "replace_subscription sid updated current =
     current\<lparr>subscriptions := replace_by su_id sid updated (subscriptions current)\<rparr>"

text \<open>A transaction that returns the public form of what it wrote.\<close>

definition sub_transact ::
  "DemoAuthMetadata \<Rightarrow> int \<Rightarrow> (ProLists \<Rightarrow> demo_error + DemoSubscriptionRelation) \<Rightarrow>
   (DemoSubscriptionRelation \<Rightarrow> ProLists \<Rightarrow> ProLists) \<Rightarrow> Subscription repo_act" where
  "sub_transact metadata now check updater =
     abind (transact (sub_requireState metadata now) (sub_updateState now) check updater) (\<lambda>u. areturn (publicSubscription u))"

definition sub_create :: "DemoAuthMetadata \<Rightarrow> int \<Rightarrow> SubscriptionCreate \<Rightarrow> Subscription repo_act" where
  "sub_create metadata now payload = sub_transact metadata now (sub_create_check metadata now payload) add_subscription"

definition sub_update_check ::
  "int \<Rightarrow> string \<Rightarrow> SubscriptionUpdate \<Rightarrow> ProLists \<Rightarrow> demo_error + DemoSubscriptionRelation" where
  "sub_update_check now sid payload state =
     ebind (findSubscription state sid) (\<lambda>existing.
     let clientId = nullish (sx_client_id payload) (su_client_id existing);
         serviceId = nullish (sx_service_id payload) (su_service_id existing);
         planId = nullish (sx_plan_id payload) (su_plan_id existing);
         durationType = nullish (sx_duration_type payload) (su_duration_type existing) in
     ebind (validateRelationships state clientId serviceId planId) (\<lambda>_.
     ebind (validateDuration durationType) (\<lambda>_.
     ebind (if falsy (sx_starts_at payload) then Inr (su_starts_at existing) else isoDate (the (sx_starts_at payload))) (\<lambda>startsAt.
     ebind (if \<not> falsy (sx_expires_at payload) then isoDate (the (sx_expires_at payload))
       else if \<not> falsy (sx_duration_type payload) \<or> \<not> falsy (sx_starts_at payload)
       then calculateExpiration startsAt durationType None
       else Inr (su_expires_at existing)) (\<lambda>expiresAt.
     ebind (validateDateRange startsAt expiresAt) (\<lambda>_.
     let profileName = (case sx_profile_name payload of None \<Rightarrow> su_profile_name existing | Some v \<Rightarrow> or_null (trim v));
         profilePin = (case sx_profile_pin payload of None \<Rightarrow> su_pin_secret existing | Some v \<Rightarrow> Some (or_null v)) in
     ebind (throw_if (has_text profilePin \<and> falsy profileName) (subscription_error ''subscription_pin_requires_profile'')) (\<lambda>_.
     ebind (case sx_streaming_email payload of None \<Rightarrow> Inr (su_streaming_email existing) | Some v \<Rightarrow> validateEmail v) (\<lambda>streamingEmail.
     ebind (validateDuplicate state clientId serviceId streamingEmail (Some sid)) (\<lambda>_.
     ebind (iso_now now) (\<lambda>timestamp.
     Inr (existing\<lparr>su_client_id := clientId,
       su_service_id := serviceId,
       su_plan_id := planId,
       su_streaming_email := streamingEmail,
       su_streaming_secret := (case sx_streaming_password payload of None \<Rightarrow> su_streaming_secret existing
         | Some v \<Rightarrow> Some (or_null v)),
       su_profile_name := profileName,
       su_pin_secret := profilePin,
       su_duration_type := durationType,
       su_starts_at := startsAt,
       su_expires_at := expiresAt,
       su_updated_at := timestamp\<rparr>)))))))))))"

definition sub_update :: "DemoAuthMetadata \<Rightarrow> int \<Rightarrow> string \<Rightarrow> SubscriptionUpdate \<Rightarrow> Subscription repo_act" where
  "sub_update metadata now sid payload =
     sub_transact metadata now (sub_update_check now sid payload) (replace_subscription sid)"

definition reveal_of :: "DemoSubscriptionRelation \<Rightarrow> RevealCredentials" where
  "reveal_of relation = \<lparr> rc_streaming_password = Option.bind (su_streaming_secret relation) (\<lambda>v. v),
     rc_profile_pin = Option.bind (su_pin_secret relation) (\<lambda>v. v) \<rparr>"

definition sub_reveal :: "DemoAuthMetadata \<Rightarrow> int \<Rightarrow> string \<Rightarrow> RevealCredentials repo_act" where
  "sub_reveal metadata now sid = query (sub_requireState metadata now)
     (\<lambda>state. ebind (findSubscription state sid) (\<lambda>relation. Inr (reveal_of relation)))"

definition sub_cancel_check :: "int \<Rightarrow> string \<Rightarrow> ProLists \<Rightarrow> demo_error + DemoSubscriptionRelation" where
  "sub_cancel_check now sid state =
     ebind (findSubscription state sid) (\<lambda>existing.
     ebind (iso_now now) (\<lambda>timestamp.
     Inr (existing\<lparr>su_status := ''cancelled'', su_cancelled_at := Some timestamp, su_updated_at := timestamp\<rparr>)))"

definition sub_cancel :: "DemoAuthMetadata \<Rightarrow> int \<Rightarrow> string \<Rightarrow> Subscription repo_act" where
  "sub_cancel metadata now sid = sub_transact metadata now (sub_cancel_check now sid) (replace_subscription sid)"

definition sub_renew_check ::
  "int \<Rightarrow> string \<Rightarrow> string \<Rightarrow> string option \<Rightarrow> ProLists \<Rightarrow> demo_error + DemoSubscriptionRelation" where
  "sub_renew_check now sid durationType expiresAt state =
     ebind (findSubscription state sid) (\<lambda>existing.
     ebind (validateDuration durationType) (\<lambda>_.
     ebind (calculateExpiration (su_expires_at existing) durationType expiresAt) (\<lambda>nextExpiresAt.
     ebind (validateDateRange (su_starts_at existing) nextExpiresAt) (\<lambda>_.
     ebind (iso_now now) (\<lambda>timestamp.
     Inr (existing\<lparr>su_duration_type := durationType, su_expires_at := nextExpiresAt, su_cancelled_at := None,
       su_status := ''active'', su_updated_at := timestamp\<rparr>))))))"

definition sub_renew :: "DemoAuthMetadata \<Rightarrow> int \<Rightarrow> string \<Rightarrow> string \<Rightarrow> string option \<Rightarrow> Subscription repo_act" where
  "sub_renew metadata now sid durationType expiresAt =
     sub_transact metadata now (sub_renew_check now sid durationType expiresAt) (replace_subscription sid)"

definition sub_reactivate_check ::
  "int \<Rightarrow> string \<Rightarrow> string \<Rightarrow> string \<Rightarrow> string option \<Rightarrow> ProLists \<Rightarrow> demo_error + DemoSubscriptionRelation" where
  "sub_reactivate_check now sid durationType startsAt expiresAt state =
     ebind (findSubscription state sid) (\<lambda>existing.
     ebind (validateDuration durationType) (\<lambda>_.
     ebind (isoDate startsAt) (\<lambda>nextStartsAt.
     ebind (calculateExpiration nextStartsAt durationType expiresAt) (\<lambda>nextExpiresAt.
     ebind (validateDateRange nextStartsAt nextExpiresAt) (\<lambda>_.
     ebind (iso_now now) (\<lambda>timestamp.
     Inr (existing\<lparr>su_duration_type := durationType, su_starts_at := nextStartsAt, su_expires_at := nextExpiresAt,
       su_cancelled_at := None, su_status := ''active'', su_updated_at := timestamp\<rparr>)))))))"

text \<open>The duration defaults to a month, the start to the present.\<close>

definition sub_reactivate ::
  "DemoAuthMetadata \<Rightarrow> int \<Rightarrow> string \<Rightarrow> string option \<Rightarrow> string option \<Rightarrow> string option \<Rightarrow> Subscription repo_act" where
  "sub_reactivate metadata now sid durationType startsAt expiresAt =
     abind (alift (case startsAt of None \<Rightarrow> iso_now now | Some v \<Rightarrow> Inr v)) (\<lambda>start.
       sub_transact metadata now (sub_reactivate_check now sid (nullish durationType ''1_month'') start expiresAt)
         (replace_subscription sid))"

section \<open>The service is a client of the store\<close>

interpretation sub: demo_store "session_at rest metadata now" pro_valid "pro_view metadata"
  "sub_requireState metadata now" "sub_updateState now" for rest metadata now
  by unfold_locales (auto simp: sub_requireState_def sub_updateState_def intro: require_pro_at update_pro_at)

section \<open>What validation guarantees\<close>

definition sub_dates :: "DemoSubscriptionRelation \<Rightarrow> bool" where
  "sub_dates u \<longleftrightarrow> (case (Date_parse (su_starts_at u), Date_parse (su_expires_at u)) of
     (Some s, Some e) \<Rightarrow> s < e | _ \<Rightarrow> False)"

definition sub_wf :: "DemoSubscriptionRelation \<Rightarrow> bool" where
  "sub_wf u \<longleftrightarrow> sub_dates u \<and> email_pattern (su_streaming_email u) \<and>
     (has_text (su_pin_secret u) \<longrightarrow> \<not> falsy (su_profile_name u)) \<and>
     (su_duration_type u = ''custom'' \<or> DURATION_DAYS (su_duration_type u) \<noteq> Undefined) \<and>
     su_status u \<in> {''active'', ''cancelled'', ''expired''} \<and>
     (su_status u = ''cancelled'' \<longleftrightarrow> su_cancelled_at u \<noteq> None)"

lemma parseDate_eq [simp]: "parseDate v = Inr t \<longleftrightarrow> Date_parse v = Some t"
  by (simp add: parseDate_def)

lemma validateDateRange_ok:
  "validateDateRange s e = Inr x \<longleftrightarrow> (\<exists>a b. Date_parse s = Some a \<and> Date_parse e = Some b \<and> a < b)"
  by (auto simp: validateDateRange_def ebind_eq_Inr)

lemma iso_now_parse: "iso_now t = Inr s \<Longrightarrow> Date_parse s = Some t"
  by (auto simp: iso_now_def Date_parse_toISOString split: option.splits)

lemma isoDate_parse: "isoDate v = Inr s \<Longrightarrow> Date_parse s = Date_parse v"
  by (auto simp: isoDate_def ebind_eq_Inr dest: iso_now_parse)

lemma validateEmail_ok: "validateEmail v = Inr m \<Longrightarrow> email_pattern m \<and> m = trim v"
  by (auto simp: validateEmail_def Let_def split: if_splits)

lemma validateDuration_ok [simp]: "validateDuration v = Inr u \<longleftrightarrow> v = ''custom'' \<or> DURATION_DAYS v \<noteq> Undefined"
  by (auto simp: validateDuration_def)

lemma has_text_simps [simp]: "has_text None = False" "has_text (Some v) = (\<not> falsy v)"
  by (simp_all add: has_text_def)

lemma falsy_or_null [simp]: "falsy (or_null v) = (v = [])"
  by (simp add: or_null_def)

lemma falsy_bind_or_null [simp]: "falsy (Option.bind v or_null) = falsy v"
  by (cases v) simp_all

text \<open>A fixed duration ends exactly so many days after its start.\<close>

lemma calculateExpiration_days:
  assumes "calculateExpiration s d c = Inr e" and "DURATION_DAYS d = Days n" and "d \<noteq> ''custom''"
  shows "\<exists>t. Date_parse s = Some t \<and> Date_parse e = Some (t + n * ms_per_day)"
  using assms by (auto simp: calculateExpiration_def ebind_eq_Inr ms_per_day_def dest!: iso_now_parse)

lemma validateRelationships_ok:
  assumes "validateRelationships p c s q = Inr x" and "su_client_id u = c" and "su_service_id u = s" and "su_plan_id u = q"
  shows "subscription_refs p u"
proof -
  obtain plan where "find_by pl_id q (plans p) = Some plan" "pl_service_id plan = s"
    using assms(1) by (auto simp: validateRelationships_def ebind_eq_Inr split: option.splits)
  with find_by_SomeD [OF this(1)] assms show ?thesis
    by (auto simp: subscription_refs_def validateRelationships_def ebind_eq_Inr list_ex_iff image_iff dest: sym)
qed

definition same_subscription :: "DemoSubscriptionRelation \<Rightarrow> DemoSubscriptionRelation \<Rightarrow> bool" where
  "same_subscription u v \<longleftrightarrow> su_status u = ''active'' \<and> su_status v = ''active'' \<and> su_client_id u = su_client_id v \<and>
     su_service_id u = su_service_id v \<and> toLowerCase (su_streaming_email u) = toLowerCase (su_streaming_email v)"

lemma same_subscription_sym: "symp same_subscription"
  by (rule sympI) (simp add: same_subscription_def)

lemma validateDuplicate_ok:
  assumes "validateDuplicate p (su_client_id u) (su_service_id u) (su_streaming_email u) exceptId = Inr x"
    and "v \<in> set (subscriptions p)" and "Some (su_id v) \<noteq> exceptId"
  shows "\<not> same_subscription v u"
  using assms by (auto simp: validateDuplicate_def same_subscription_def list_ex_iff)

section \<open>The abstract service\<close>

definition subs_inv :: "ProLists \<Rightarrow> bool" where
  "subs_inv p \<longleftrightarrow> list_all sub_wf (subscriptions p)"

definition no_duplicates :: "ProLists \<Rightarrow> bool" where
  "no_duplicates p \<longleftrightarrow> uniq_by su_id same_subscription (subscriptions p)"

text \<open>What the service may do to the collections; \<open>restores\<close> marks the changes that activate a subscription again.\<close>

inductive sub_change :: "bool \<Rightarrow> ProLists \<Rightarrow> ProLists \<Rightarrow> bool" where
  sub_same: "sub_change restores p p"
| sub_added: "sub_create_check metadata now payload p = Inr u \<Longrightarrow> sub_change restores p (add_subscription u p)"
| sub_updated: "sub_update_check now sid changes p = Inr u \<Longrightarrow> sub_change restores p (replace_subscription sid u p)"
| sub_cancelled: "sub_cancel_check now sid p = Inr u \<Longrightarrow> sub_change restores p (replace_subscription sid u p)"
| sub_renewed: "sub_renew_check now sid d e p = Inr u \<Longrightarrow> sub_change True p (replace_subscription sid u p)"
| sub_reactivated: "sub_reactivate_check now sid d s e p = Inr u \<Longrightarrow> sub_change True p (replace_subscription sid u p)"

lemma sub_kept [simp]:
  "clients (add_subscription u p) = clients p" "services (add_subscription u p) = services p" "plans (add_subscription u p) = plans p"
  "clients (replace_subscription sid u p) = clients p" "services (replace_subscription sid u p) = services p"
  "plans (replace_subscription sid u p) = plans p"
  "subscriptions (add_subscription u p) = subscriptions p @ [u]"
  "subscriptions (replace_subscription sid u p) = replace_by su_id sid u (subscriptions p)"
  by (simp_all add: add_subscription_def replace_subscription_def)

lemma findSubscription_ok: "findSubscription p sid = Inr u \<longleftrightarrow> find_by su_id sid (subscriptions p) = Some u"
  by (simp add: findSubscription_def)

lemma sub_create_ok:
  assumes "sub_create_check metadata now payload p = Inr u"
  shows "sub_wf u" and "subscription_refs p u" and "v \<in> set (subscriptions p) \<Longrightarrow> \<not> same_subscription v u"
proof -
  obtain m s e ts x1 x2 x3 x4 where rel: "validateRelationships p (sc_client_id payload) (sc_service_id payload) (sc_plan_id payload) = Inr x1"
    and dur: "validateDuration (sc_duration_type payload) = Inr x2" and mail: "validateEmail (sc_streaming_email payload) = Inr m"
    and dup: "validateDuplicate p (sc_client_id payload) (sc_service_id payload) m None = Inr x3"
    and range: "validateDateRange s e = Inr x4"
    and pin: "\<not> (\<not> falsy (sc_profile_pin payload) \<and> falsy (map_option trim (sc_profile_name payload)))"
    and u: "u = \<lparr> su_id = ''subscription-'' @ md_tenantId metadata @ ''-'' @ int_to_string now,
       su_tenant_id = md_tenantId metadata, su_client_id = sc_client_id payload, su_service_id = sc_service_id payload,
       su_plan_id = sc_plan_id payload, su_streaming_email = m,
       su_streaming_secret = Some (Option.bind (sc_streaming_password payload) or_null),
       su_profile_name = Option.bind (sc_profile_name payload) (\<lambda>v. or_null (trim v)),
       su_pin_secret = Some (Option.bind (sc_profile_pin payload) or_null),
       su_duration_type = sc_duration_type payload, su_starts_at = s, su_expires_at = e, su_cancelled_at = None,
       su_status = ''active'', su_created_at = ts, su_updated_at = ts \<rparr>"
    using assms unfolding sub_create_check_def ebind_eq_Inr throw_if_eq_Inr by blast
  have "\<not> falsy (sc_profile_pin payload) \<Longrightarrow> \<not> falsy (Option.bind (sc_profile_name payload) (\<lambda>v. or_null (trim v)))"
    using pin by (cases "sc_profile_name payload") auto
  then show "sub_wf u"
    using validateEmail_ok [OF mail] dur range by (auto simp: u sub_wf_def sub_dates_def validateDateRange_ok)
  show "subscription_refs p u" by (rule validateRelationships_ok [OF rel]) (simp_all add: u)
  show "v \<in> set (subscriptions p) \<Longrightarrow> \<not> same_subscription v u"
    by (rule validateDuplicate_ok [of p u None x3]) (use dup in \<open>simp_all add: u\<close>)
qed

lemma sub_update_ok:
  assumes "sub_update_check now sid changes p = Inr u" and "subs_inv p"
  shows "su_id u = sid" and "sub_wf u" and "subscription_refs p u"
    and "v \<in> set (subscriptions p) \<Longrightarrow> su_id v \<noteq> sid \<Longrightarrow> \<not> same_subscription v u"
proof -
  let ?dur = "\<lambda>x. nullish (sx_duration_type changes) (su_duration_type x)"
  let ?name = "\<lambda>x. case sx_profile_name changes of None \<Rightarrow> su_profile_name x | Some v \<Rightarrow> or_null (trim v)"
  let ?pin = "\<lambda>x. case sx_profile_pin changes of None \<Rightarrow> su_pin_secret x | Some v \<Rightarrow> Some (or_null v)"
  obtain x s e m ts y1 y2 y3 y4 where ex: "findSubscription p sid = Inr x"
    and rel: "validateRelationships p (nullish (sx_client_id changes) (su_client_id x))
      (nullish (sx_service_id changes) (su_service_id x)) (nullish (sx_plan_id changes) (su_plan_id x)) = Inr y1"
    and dur: "validateDuration (?dur x) = Inr y2" and range: "validateDateRange s e = Inr y3"
    and pin: "\<not> (has_text (?pin x) \<and> falsy (?name x))"
    and mail: "(case sx_streaming_email changes of None \<Rightarrow> Inr (su_streaming_email x) | Some v \<Rightarrow> validateEmail v) = Inr m"
    and dup: "validateDuplicate p (nullish (sx_client_id changes) (su_client_id x))
      (nullish (sx_service_id changes) (su_service_id x)) m (Some sid) = Inr y4"
    and u: "u = x\<lparr>su_client_id := nullish (sx_client_id changes) (su_client_id x),
       su_service_id := nullish (sx_service_id changes) (su_service_id x),
       su_plan_id := nullish (sx_plan_id changes) (su_plan_id x), su_streaming_email := m,
       su_streaming_secret := (case sx_streaming_password changes of None \<Rightarrow> su_streaming_secret x | Some v \<Rightarrow> Some (or_null v)),
       su_profile_name := ?name x, su_pin_secret := ?pin x, su_duration_type := ?dur x, su_starts_at := s, su_expires_at := e,
       su_updated_at := ts\<rparr>"
    using assms(1) unfolding sub_update_check_def ebind_eq_Inr throw_if_eq_Inr Let_def by blast
  note x = find_by_SomeD [OF ex [unfolded findSubscription_ok]]
  have wf: "sub_wf x" using x assms(2) by (auto simp: subs_inv_def list_all_iff)
  show "su_id u = sid" using x u by simp
  have "email_pattern m"
    using mail wf by (cases "sx_streaming_email changes") (auto simp: sub_wf_def dest: validateEmail_ok)
  then show "sub_wf u"
    using wf dur range pin by (auto simp: u sub_wf_def sub_dates_def validateDateRange_ok)
  show "subscription_refs p u" by (rule validateRelationships_ok [OF rel]) (simp_all add: u)
  show "v \<in> set (subscriptions p) \<Longrightarrow> su_id v \<noteq> sid \<Longrightarrow> \<not> same_subscription v u"
    by (rule validateDuplicate_ok [of p u "Some sid" y4]) (use dup in \<open>simp_all add: u\<close>)
qed

text \<open>Cancelling, renewing and reactivating keep what the subscription refers to.\<close>

definition same_target :: "DemoSubscriptionRelation \<Rightarrow> DemoSubscriptionRelation \<Rightarrow> bool" where
  "same_target u x \<longleftrightarrow> su_id u = su_id x \<and> su_client_id u = su_client_id x \<and> su_service_id u = su_service_id x \<and>
     su_plan_id u = su_plan_id x \<and> su_streaming_email u = su_streaming_email x \<and> su_profile_name u = su_profile_name x \<and>
     su_pin_secret u = su_pin_secret x \<and> su_streaming_secret u = su_streaming_secret x"

lemma life_cycle_ok:
  assumes "sub_cancel_check now sid p = Inr u \<or> sub_renew_check now sid d e p = Inr u \<or> sub_reactivate_check now sid d s e p = Inr u"
    and "subs_inv p"
  shows "\<exists>x \<in> set (subscriptions p). su_id x = sid \<and> same_target u x \<and> sub_wf u"
proof -
  obtain x where ex: "findSubscription p sid = Inr x" and t: "same_target u x" and w: "sub_wf x \<longrightarrow> sub_wf u"
  proof -
    from assms(1) consider "sub_cancel_check now sid p = Inr u" | "sub_renew_check now sid d e p = Inr u"
      | "sub_reactivate_check now sid d s e p = Inr u" by blast
    then show thesis
    proof cases
      case 1
      then show thesis
        by (auto simp: sub_cancel_check_def ebind_eq_Inr same_target_def sub_wf_def sub_dates_def intro!: that)
    next
      case 2
      then show thesis
        by (auto simp: sub_renew_check_def ebind_eq_Inr same_target_def sub_wf_def sub_dates_def validateDateRange_ok intro!: that)
    next
      case 3
      then show thesis
        by (auto simp: sub_reactivate_check_def ebind_eq_Inr same_target_def sub_wf_def sub_dates_def validateDateRange_ok intro!: that)
    qed
  qed
  note x = find_by_SomeD [OF ex [unfolded findSubscription_ok]]
  with assms(2) t w show ?thesis by (auto simp: subs_inv_def list_all_iff)
qed

lemma subs_inv_replace: "subs_inv p \<Longrightarrow> sub_wf u \<Longrightarrow> subs_inv (replace_subscription sid u p)"
  by (auto simp: subs_inv_def list_all_iff dest!: in_set_replace_byD)

lemma subs_inv_change: "sub_change b p p' \<Longrightarrow> subs_inv p \<Longrightarrow> subs_inv p'"
proof (induction rule: sub_change.induct)
  case (sub_added metadata now payload p u restores)
  then show ?case using sub_create_ok(1) by (simp add: subs_inv_def)
next
  case (sub_updated now sid changes p u restores)
  then show ?case using sub_update_ok(2) by (blast intro: subs_inv_replace)
next
  case (sub_cancelled now sid p u restores)
  then show ?case using life_cycle_ok [of now sid p u] by (blast intro: subs_inv_replace)
next
  case (sub_renewed now sid d e p u)
  then show ?case using life_cycle_ok [of now sid p u d e] by (blast intro: subs_inv_replace)
next
  case (sub_reactivated now sid d s e p u)
  then show ?case using life_cycle_ok [of now sid p u d e s] by (blast intro: subs_inv_replace)
qed simp

lemma refs_ok_replace_subscription:
  "refs_ok p \<Longrightarrow> subscription_refs p u \<Longrightarrow> refs_ok (replace_subscription sid u p)"
  by (auto simp: refs_ok_def plan_refs_def subscription_refs_def dest!: in_set_replace_byD)

lemma refs_ok_same_target:
  assumes "refs_ok p" and "x \<in> set (subscriptions p)" and "same_target u x"
  shows "refs_ok (replace_subscription sid u p)"
proof (rule refs_ok_replace_subscription [OF assms(1)])
  have "subscription_refs p x" using assms(1,2) by (simp add: refs_ok_def)
  with assms(3) show "subscription_refs p u" by (simp add: subscription_refs_def same_target_def)
qed

lemma sub_refs_change: "sub_change b p p' \<Longrightarrow> refs_ok p \<Longrightarrow> subs_inv p \<Longrightarrow> refs_ok p'"
proof (induction rule: sub_change.induct)
  case (sub_added metadata now payload p u restores)
  with sub_create_ok(2) show ?case by (simp add: refs_ok_def plan_refs_def subscription_refs_def)
next
  case (sub_updated now sid changes p u restores)
  then show ?case using sub_update_ok(3) by (blast intro: refs_ok_replace_subscription)
next
  case (sub_cancelled now sid p u restores)
  then show ?case using life_cycle_ok [of now sid p u] by (blast intro: refs_ok_same_target)
next
  case (sub_renewed now sid d e p u)
  then show ?case using life_cycle_ok [of now sid p u d e] by (blast intro: refs_ok_same_target)
next
  case (sub_reactivated now sid d s e p u)
  then show ?case using life_cycle_ok [of now sid p u d e s] by (blast intro: refs_ok_same_target)
qed

lemma no_duplicates_change: "sub_change b p p' \<Longrightarrow> \<not> b \<Longrightarrow> no_duplicates p \<Longrightarrow> subs_inv p \<Longrightarrow> no_duplicates p'"
proof (induction rule: sub_change.induct)
  case (sub_added metadata now payload p u restores)
  with sub_create_ok(3) show ?case
    by (auto simp: no_duplicates_def intro!: uniq_by_add same_subscription_sym)
next
  case (sub_updated now sid changes p u restores)
  with sub_update_ok(1,4) show ?case
    by (auto simp: no_duplicates_def intro!: uniq_by_replace same_subscription_sym)
next
  case (sub_cancelled now sid p u restores)
  then have "su_status u = ''cancelled''" by (auto simp: sub_cancel_check_def ebind_eq_Inr)
  moreover have "su_id u = sid"
    using sub_cancelled life_cycle_ok [of now sid p u] by (auto simp: same_target_def)
  ultimately show ?case
    using sub_cancelled.prems by (auto simp: no_duplicates_def same_subscription_def intro!: uniq_by_replace same_subscription_sym)
qed simp_all

section \<open>The operations implement the abstract service\<close>

lemma sub_transact_result:
  assumes "sub_transact metadata now check updater r = (x, t)" and "session_at rest metadata now r" and "pro_view metadata r = Some p"
    and "\<And>u. services (updater u p) = services p"
  shows "session_at rest metadata now t \<and> (case check p of
      Inl e \<Rightarrow> x = Inl e \<and> pro_view metadata t = Some p
    | Inr u \<Rightarrow> x = Inr (publicSubscription u) \<and> pro_view metadata t = Some (updater u p))"
proof -
  obtain y s where run: "transact (sub_requireState metadata now) (sub_updateState now) check updater r = (y, s)" by fastforce
  have "pro_valid (updater u p)" for u
    using pro_view_valid [OF assms(3)] assms(4) by (simp add: pro_valid_def)
  from sub.transact_result [OF run assms(2,3) this] assms(1) run show ?thesis
    by (cases y) (auto simp: sub_transact_def abind_def areturn_def split: sum.splits)
qed

text \<open>A call of one of the operations; \<open>restores\<close> admits renewals and reactivations.\<close>

inductive sub_step :: "DemoAuthMetadata \<Rightarrow> bool \<Rightarrow> DemoWorkspaceRepository \<Rightarrow> DemoWorkspaceRepository \<Rightarrow> bool"
  for metadata restores where
  "sub_list c metadata now filters r = (x1, t) \<Longrightarrow> \<bar>now\<bar> \<le> max_time \<Longrightarrow> sub_step metadata restores r t"
| "sub_get metadata now sid r = (x2, t) \<Longrightarrow> \<bar>now\<bar> \<le> max_time \<Longrightarrow> sub_step metadata restores r t"
| "sub_create metadata now payload r = (x2, t) \<Longrightarrow> \<bar>now\<bar> \<le> max_time \<Longrightarrow> sub_step metadata restores r t"
| "sub_update metadata now sid changes r = (x2, t) \<Longrightarrow> \<bar>now\<bar> \<le> max_time \<Longrightarrow> sub_step metadata restores r t"
| "sub_reveal metadata now sid r = (x3, t) \<Longrightarrow> \<bar>now\<bar> \<le> max_time \<Longrightarrow> sub_step metadata restores r t"
| "sub_cancel metadata now sid r = (x2, t) \<Longrightarrow> \<bar>now\<bar> \<le> max_time \<Longrightarrow> sub_step metadata restores r t"
| "restores \<Longrightarrow> sub_renew metadata now sid d e r = (x2, t) \<Longrightarrow> \<bar>now\<bar> \<le> max_time \<Longrightarrow> sub_step metadata restores r t"
| "restores \<Longrightarrow> sub_reactivate metadata now sid d' s e r = (x2, t) \<Longrightarrow> \<bar>now\<bar> \<le> max_time \<Longrightarrow> sub_step metadata restores r t"

lemma sub_transact_change:
  assumes "sub_transact metadata now check updater r = (x, t)" and "session_at rest metadata now r" and "pro_view metadata r = Some p"
    and "\<And>u. services (updater u p) = services p" and "\<And>u. check p = Inr u \<Longrightarrow> sub_change b p (updater u p)"
  shows "\<exists>p'. sub_change b p p' \<and> session_at rest metadata now t \<and> pro_view metadata t = Some p'"
proof (cases "check p")
  case (Inl e)
  with sub_transact_result [OF assms(1-4)] show ?thesis by (auto intro: sub_same)
next
  case (Inr u)
  with sub_transact_result [OF assms(1-4)] assms(5) show ?thesis by auto
qed

lemma sub_step_refines:
  assumes "sub_step metadata b r t" and "session_at rest metadata now0 r" and "pro_view metadata r = Some p"
  shows "\<exists>p'. sub_change b p p' \<and> session_at rest metadata now0 t \<and> pro_view metadata t = Some p'"
proof -
  have s: "\<bar>now\<bar> \<le> max_time \<Longrightarrow> session_at rest metadata now r" for now
    using assms(2) by (rule session_at_now)
  have same: "session_at rest metadata now t \<Longrightarrow> session_at rest metadata now0 t" for now
    using assms(2) by (simp add: session_at_def session_def)
  have change: ?thesis
    if "sub_transact metadata now check updater r = (x, t)" "\<bar>now\<bar> \<le> max_time" "\<And>u. services (updater u p) = services p"
      "\<And>u. check p = Inr u \<Longrightarrow> sub_change b p (updater u p)" for now check updater x
    using sub_transact_change [OF that(1) s [OF that(2)] assms(3) that(3,4)] same by blast
  from assms(1) show ?thesis
  proof cases
    case (1 c now filters x1)
    show ?thesis using 1(1) [unfolded sub_list_def] sub.query_result [OF _ s [OF 1(2)] assms(3)] by (blast intro: sub_same same)
  next
    case (2 now sid x2)
    show ?thesis using 2(1) [unfolded sub_get_def] sub.query_result [OF _ s [OF 2(2)] assms(3)] by (blast intro: sub_same same)
  next
    case (3 now payload x2)
    show ?thesis by (rule change [OF 3(1) [unfolded sub_create_def] 3(2)]) (auto intro: sub_added)
  next
    case (4 now sid changes x2)
    show ?thesis by (rule change [OF 4(1) [unfolded sub_update_def] 4(2)]) (auto intro: sub_updated)
  next
    case (5 now sid x3)
    show ?thesis using 5(1) [unfolded sub_reveal_def] sub.query_result [OF _ s [OF 5(2)] assms(3)] by (blast intro: sub_same same)
  next
    case (6 now sid x2)
    show ?thesis by (rule change [OF 6(1) [unfolded sub_cancel_def] 6(2)]) (auto intro: sub_cancelled)
  next
    case (7 now sid d e x2)
    show ?thesis by (rule change [OF 7(2) [unfolded sub_renew_def] 7(3)]) (use 7(1) in \<open>auto intro: sub_renewed\<close>)
  next
    case (8 now sid d' st e x2)
    show ?thesis
    proof (cases "case st of None \<Rightarrow> iso_now now | Some v \<Rightarrow> Inr v")
      case (Inl err)
      with 8(2) have "t = r" by (simp add: sub_reactivate_def)
      with assms show ?thesis by (auto intro: sub_same)
    next
      case (Inr v)
      show ?thesis
        by (rule change [OF 8(2) [unfolded sub_reactivate_def Inr abind_simps] 8(3)]) (use 8(1) in \<open>auto intro: sub_reactivated\<close>)
    qed
  qed
qed

lemma offset_text_parse:
  assumes "baseline_dates metadata" and "\<bar>d\<bar> \<le> 45"
  shows "\<exists>t. Date_parse (nullish (md_activatedAt metadata) (md_serverTime metadata)) = Some t \<and>
    Date_parse (offset_text metadata d) = Some (t + d * ms_per_day) \<and> \<bar>t\<bar> + 45 * ms_per_day \<le> max_time"
proof -
  obtain t where t: "Date_parse (nullish (md_activatedAt metadata) (md_serverTime metadata)) = Some t"
    "\<bar>t\<bar> + 45 * ms_per_day \<le> max_time"
    using assms(1) by (auto simp: baseline_dates_def split: option.splits)
  with dateAtOffset_works [OF assms] show ?thesis by (auto simp: dateAtOffset_def shift_days_def dest: iso_now_parse)
qed

lemma subs_inv_baseline:
  assumes "baseline_dates metadata"
  shows "subs_inv (baseline_lists metadata)"
proof -
  obtain t where t: "Date_parse (nullish (md_activatedAt metadata) (md_serverTime metadata)) = Some t"
    using assms by (auto simp: baseline_dates_def split: option.splits)
  have at: "Date_parse (offset_text metadata d) = Some (t + d * ms_per_day)" if "\<bar>d\<bar> \<le> 45" for d
    using offset_text_parse [OF assms that] t by auto
  have "list_all (\<lambda>row. \<bar>row_starts row\<bar> \<le> 45 \<and> \<bar>row_expires row\<bar> \<le> 45 \<and> row_starts row < row_expires row \<and>
      email_pattern (row_email row) \<and> (falsy (map_option snd (row_profile row)) \<or> \<not> falsy (map_option fst (row_profile row))) \<and>
      DURATION_DAYS (row_duration row) \<noteq> Undefined \<and> row_status row \<in> {''active'', ''cancelled'', ''expired''} \<and>
      (row_status row = ''cancelled'' \<longleftrightarrow> row_cancelled row \<noteq> None)) subscription_rows"
    by code_simp
  then have "sub_wf (baseline_subscription metadata row s q)" if "row \<in> set subscription_rows" for row s q
    using that ms_per_day_pos
    by (auto simp: sub_wf_def sub_dates_def baseline_subscription_def list_all_iff at)
  then show ?thesis
    by (auto simp: subs_inv_def baseline_lists_def baseline_subscriptions_def list_all_iff dest: set_zip_leftD)
qed

lemma find_by_added: "key x \<notin> key ` set xs \<Longrightarrow> find_by key (key x) (xs @ [x]) = Some x"
  by (induction xs) (auto simp: find_by_def)

text \<open>With distinct identifiers, the active rows themselves are distinct.\<close>

definition subs_ok :: "ProLists \<Rightarrow> bool" where
  "subs_ok p \<longleftrightarrow> list_all sub_wf (subscriptions p) \<and> distinct (map su_id (subscriptions p)) \<and>
     distinct (map (\<lambda>u. (su_client_id u, su_service_id u, toLowerCase (su_streaming_email u)))
       (filter (\<lambda>u. su_status u = ''active'') (subscriptions p)))"

lemma subs_ok_iff: "subs_ok p \<longleftrightarrow> subs_inv p \<and> no_duplicates p \<and> distinct (map su_id (subscriptions p))"
proof -
  have "distinct (map (\<lambda>u. (su_client_id u, su_service_id u, toLowerCase (su_streaming_email u)))
       (filter (\<lambda>u. su_status u = ''active'') (subscriptions p))) \<longleftrightarrow> no_duplicates p" if "distinct (map su_id (subscriptions p))"
    unfolding no_duplicates_def by (rule distinct_iff_uniq [OF that]) (auto simp: same_subscription_def)
  then show ?thesis by (auto simp: subs_ok_def subs_inv_def)
qed

lemma sub_ids_change:
  assumes "sub_change b p p'" and "fresh_rows p p'" and "subs_inv p" and "distinct (map su_id (subscriptions p))"
  shows "distinct (map su_id (subscriptions p'))"
  using assms
proof (induction rule: sub_change.induct)
  case (sub_updated now sid changes p u restores)
  with sub_update_ok(1) show ?case by (simp add: map_key_replace_by)
next
  case (sub_cancelled now sid p u restores)
  then have "su_id u = sid" using life_cycle_ok [of now sid p u] by (auto simp: same_target_def)
  with sub_cancelled show ?case by (simp add: map_key_replace_by)
next
  case (sub_renewed now sid d e p u)
  then have "su_id u = sid" using life_cycle_ok [of now sid p u d e] by (auto simp: same_target_def)
  with sub_renewed show ?case by (simp add: map_key_replace_by)
next
  case (sub_reactivated now sid d s e p u)
  then have "su_id u = sid" using life_cycle_ok [of now sid p u d e s] by (auto simp: same_target_def)
  with sub_reactivated show ?case by (simp add: map_key_replace_by)
qed (simp_all add: fresh_rows_def)

lemma subs_ok_change: "sub_change False p p' \<Longrightarrow> fresh_rows p p' \<Longrightarrow> subs_ok p \<Longrightarrow> subs_ok p'"
  using subs_inv_change [of False p p'] no_duplicates_change [of False p p'] sub_ids_change [of False p p']
  by (simp add: subs_ok_iff)

lemma no_duplicates_baseline: "no_duplicates (baseline_lists metadata)"
proof -
  have "distinct (map (\<lambda>row. toLowerCase (row_email row)) subscription_rows)" by code_simp
  moreover have "map (\<lambda>u. toLowerCase (su_streaming_email u)) (baseline_subscriptions metadata) =
      map (\<lambda>row. toLowerCase (row_email row)) subscription_rows"
    by (simp add: baseline_subscriptions_def baseline_subscription_def subscription_rows_def)
  ultimately have "distinct (map (\<lambda>u. toLowerCase (su_streaming_email u)) (baseline_subscriptions metadata))" by simp
  then have "uniq_by su_id same_subscription (baseline_subscriptions metadata)"
    by (rule uniq_by_distinct) (simp add: same_subscription_def)
  then show ?thesis by (simp add: no_duplicates_def baseline_lists_def)
qed

lemma subs_ok_baseline: "baseline_dates metadata \<Longrightarrow> subs_ok (baseline_lists metadata)"
  using baseline_ids_distinct [of metadata] by (simp add: subs_ok_iff subs_inv_baseline no_duplicates_baseline ids_distinct_def)

lemma sample_dates: "baseline_dates sample_metadata"
  by code_simp

definition sample_payload :: SubscriptionCreate where
  "sample_payload = \<lparr> sc_client_id = ''client-t1-1'', sc_service_id = ''t1-service-netflix'', sc_plan_id = ''t1-netflix-basic'',
     sc_streaming_email = ''new@example.test'', sc_streaming_password = Some ''secret'', sc_profile_name = None,
     sc_profile_pin = None, sc_duration_type = ''1_month'', sc_starts_at = ''2026-01-10'', sc_expires_at = None \<rparr>"

lemma sample_dates_of_payload:
  "case isoDate ''2026-01-10'' of Inl e \<Rightarrow> False | Inr s \<Rightarrow>
     (case calculateExpiration s ''1_month'' None of Inl e \<Rightarrow> False | Inr e \<Rightarrow>
       (case validateDateRange s e of Inl e \<Rightarrow> False | Inr x \<Rightarrow> True))"
  by code_simp

lemma sample_create:
  "\<exists>u. sub_create_check sample_metadata 0 sample_payload (baseline_lists sample_metadata) = Inr u"
proof -
  obtain s e where d: "isoDate ''2026-01-10'' = Inr s" "calculateExpiration s ''1_month'' None = Inr e" "validateDateRange s e = Inr ()"
    using sample_dates_of_payload by (auto split: sum.splits)
  have "validateEmail ''new@example.test'' = Inr ''new@example.test''" by code_simp
  moreover obtain ts where "iso_now 0 = Inr ts" using iso_now_works [of 0] by (auto simp: max_time_def)
  moreover have "\<forall>row \<in> set subscription_rows. toLowerCase (row_email row) \<noteq> toLowerCase ''new@example.test''"
    unfolding list_all_iff [symmetric] by code_simp
  then have "validateDuplicate (baseline_lists sample_metadata) c sid ''new@example.test'' None = Inr ()" for c sid
    by (auto simp: validateDuplicate_def list_ex_iff baseline_lists_def baseline_subscriptions_def baseline_subscription_def
        throw_if_def dest!: set_zip_leftD)
  moreover have "validateRelationships (baseline_lists sample_metadata) ''client-t1-1'' ''t1-service-netflix'' ''t1-netflix-basic'' = Inr ()"
    by (simp add: validateRelationships_def baseline_lists_def baseline_clients_def client_records_def baseline_services_def
        serviceDefinitions_def baseline_plans_def planDefinitions_def sample_metadata_def find_by_def nat_to_string_digit throw_if_def)
  moreover have "DURATION_DAYS ''1_month'' = Days 30" by (simp add: DURATION_DAYS_def)
  ultimately show ?thesis
    using d by (simp add: sub_create_check_def sample_payload_def validateDuration_def)
qed

lemma sample_new_id:
  assumes "sub_create_check sample_metadata 0 sample_payload (baseline_lists sample_metadata) = Inr v"
  shows "su_id v = ''subscription-t1-0''" and "su_id v \<notin> su_id ` set (subscriptions (baseline_lists sample_metadata))"
proof -
  show vid: "su_id v = ''subscription-t1-0''"
    using assms by (auto simp: sub_create_check_def ebind_eq_Inr sample_metadata_def int_to_string_def nat_to_string_digit)
  show "su_id v \<notin> su_id ` set (subscriptions (baseline_lists sample_metadata))"
    by (auto simp: vid baseline_lists_def baseline_subscriptions_def baseline_subscription_def sample_metadata_def)
qed

section \<open>Properties\<close>

text \<open>
  C26. Subscriptions stay valid: along every sequence of subscription operations each of them
  starts before it expires, has a well-formed address and a known duration, has a profile whenever it has a PIN,
  has one of the three states with a cancellation date exactly when it is cancelled, and refers
  to an existing client, service and plan of that service.
\<close>

theorem subscriptions_stay_valid:
  assumes "(sub_step metadata True)\<^sup>*\<^sup>* r t" and "session_at rest metadata now r" and "pro_view metadata r = Some p"
    and "subs_inv p" and "refs_ok p"
  shows "\<exists>p'. session_at rest metadata now t \<and> pro_view metadata t = Some p' \<and> subs_inv p' \<and> refs_ok p'"
  using assms
proof (induction rule: rtranclp_induct)
  case (step y z)
  then obtain q where q: "session_at rest metadata now y" "pro_view metadata y = Some q" "subs_inv q" "refs_ok q" by blast
  from sub_step_refines [OF step(2) q(1,2)] subs_inv_change [OF _ q(3)] sub_refs_change [OF _ q(4,3)] show ?case by blast
qed blast

theorem subscriptions_stay_valid_witness:
  "\<exists>r t p. sub_step sample_metadata True r t \<and> pro_view sample_metadata t = Some p \<and> subs_inv p \<and> refs_ok p"
proof -
  obtain r rest where r: "session_at rest sample_metadata 0 r" "pro_view sample_metadata r = Some (baseline_lists sample_metadata)"
    using sample_session by blast
  obtain x t where run: "sub_cancel sample_metadata 0 ''t1-subscription-active'' r = (x, t)" by fastforce
  then have step: "sub_step sample_metadata True r t"
    by (rule sub_step.intros(6)) (simp add: max_time_def)
  from subscriptions_stay_valid [OF r_into_rtranclp [where r = "sub_step sample_metadata True", OF step] r
      subs_inv_baseline [OF sample_dates] baseline_refs_ok] step
  show ?thesis by blast
qed

text \<open>
  C27. Creating, changing and cancelling never make a duplicate. Start from valid subscriptions without repeated
  identifiers in which no two active rows of one client to one service share an address up to case, and
  run any sequence of subscription operations other than renewals and reactivations, each created subscription getting an identifier
  that none has (the code makes it from the millisecond). Then the rows that are active still have distinct
  combinations of client, service and address up to case. Renewals can break this (\<open>renew_can_duplicate\<close>), and so can two
  creations within one millisecond (\<open>twin_creations_duplicate\<close>).
\<close>

theorem no_active_duplicates:
  assumes "(with_fresh_ids metadata (sub_step metadata False))\<^sup>*\<^sup>* r t"
    and "session_at rest metadata now r" and "pro_view metadata r = Some p" and "subs_ok p"
  shows "\<exists>p'. session_at rest metadata now t \<and> pro_view metadata t = Some p' \<and>
     list_all sub_wf (subscriptions p') \<and> distinct (map su_id (subscriptions p')) \<and>
     distinct (map (\<lambda>u. (su_client_id u, su_service_id u, toLowerCase (su_streaming_email u)))
       (filter (\<lambda>u. su_status u = ''active'') (subscriptions p')))"
proof -
  have "\<exists>p'. session_at rest metadata now t \<and> pro_view metadata t = Some p' \<and> subs_ok p'"
    by (rule fresh_run [where change = "sub_change False" and good = subs_ok, OF assms])
      (blast intro: sub_step_refines subs_ok_change)+
  then show ?thesis unfolding subs_ok_def .
qed

theorem no_active_duplicates_witness:
  "\<exists>r x t p. sub_create sample_metadata 0 sample_payload r = (Inr x, t) \<and> pro_view sample_metadata t = Some p \<and>
     length (subscriptions p) = 9 \<and>
     distinct (map (\<lambda>u. (su_client_id u, su_service_id u, toLowerCase (su_streaming_email u)))
       (filter (\<lambda>u. su_status u = ''active'') (subscriptions p)))"
proof -
  obtain r rest where r: "session_at rest sample_metadata 0 r" "pro_view sample_metadata r = Some (baseline_lists sample_metadata)"
    using sample_session by blast
  obtain v where v: "sub_create_check sample_metadata 0 sample_payload (baseline_lists sample_metadata) = Inr v"
    using sample_create by blast
  obtain y t where run: "sub_create sample_metadata 0 sample_payload r = (y, t)" by fastforce
  then have step: "sub_step sample_metadata False r t"
    by (rule sub_step.intros(3)) (simp add: max_time_def)
  from sub_transact_result [OF run [unfolded sub_create_def] r] v have y: "y = Inr (publicSubscription v)"
    and t: "pro_view sample_metadata t = Some (add_subscription v (baseline_lists sample_metadata))" by simp_all
  have "with_fresh_ids sample_metadata (sub_step sample_metadata False) r t"
    using step t r(2) sample_new_id [OF v] by (simp add: with_fresh_ids_def fresh_rows_def)
  from no_active_duplicates [OF r_into_rtranclp [where r = "with_fresh_ids sample_metadata (sub_step sample_metadata False)", OF this] r
      subs_ok_baseline [OF sample_dates]]
  obtain p where p: "pro_view sample_metadata t = Some p" "distinct (map (\<lambda>u. (su_client_id u, su_service_id u, toLowerCase (su_streaming_email u)))
       (filter (\<lambda>u. su_status u = ''active'') (subscriptions p)))" by blast
  moreover have "length (subscriptions p) = 9"
    using p(1) t by (auto simp: baseline_lists_def baseline_subscriptions_def subscription_rows_def)
  ultimately show ?thesis using run [unfolded y] by (intro exI conjI)
qed

lemma DURATION_DAYS_pos: "DURATION_DAYS d = Days n \<Longrightarrow> 0 < n \<and> n \<le> 365 \<and> d \<noteq> ''custom''"
  by (auto simp: DURATION_DAYS_def split: if_splits)

lemma sub_renew_works:
  assumes "find_by su_id sid (subscriptions p) = Some u" and "sub_dates u" and "DURATION_DAYS d = Days n"
    and "Date_parse (su_expires_at u) = Some b" and "b + n * ms_per_day \<le> max_time" and "\<bar>now\<bar> \<le> max_time"
  shows "\<exists>ne ts. sub_renew_check now sid d e p = Inr (u\<lparr>su_duration_type := d, su_expires_at := ne, su_cancelled_at := None,
      su_status := ''active'', su_updated_at := ts\<rparr>) \<and> Date_parse ne = Some (b + n * ms_per_day)"
proof -
  note n = DURATION_DAYS_pos [OF assms(3)]
  then have pos: "0 < n * ms_per_day" by (simp add: ms_per_day_def)
  obtain ts where ts: "iso_now now = Inr ts" using iso_now_works [OF assms(6)] by blast
  have "\<bar>b\<bar> \<le> max_time" by (rule Date_parse_range [OF assms(4)])
  then have "\<bar>b + n * ms_per_day\<bar> \<le> max_time"
    using assms(5) pos by linarith
  then obtain ne where ne: "iso_now (b + n * ms_per_day) = Inr ne" using iso_now_works by blast
  have parsed: "Date_parse ne = Some (b + n * ms_per_day)" by (rule iso_now_parse [OF ne])
  have "calculateExpiration (su_expires_at u) d e = Inr ne"
    using n ne assms(3,4) by (simp add: calculateExpiration_def parseDate_def not_found_def ms_per_day_def)
  moreover obtain a where a: "Date_parse (su_starts_at u) = Some a" "a < b"
    using assms(2,4) by (auto simp: sub_dates_def split: option.splits)
  then have "validateDateRange (su_starts_at u) ne = Inr ()"
    using parsed pos
    by (simp add: validateDateRange_def parseDate_def not_found_def throw_if_def)
  ultimately show ?thesis
    using parsed ts by (auto simp: sub_renew_check_def findSubscription_def not_found_def assms(1,3) validateDuration_def)
qed

text \<open>
  C28. Renewing a subscription with valid dates for one of the fixed durations succeeds, as long
  as the new expiry can be represented: it adds exactly the days of the duration to the expiry, keeps the
  start, the target and the credentials, and makes the subscription active again.
\<close>

theorem renew_extends:
  assumes "session_at rest metadata now r" and "pro_view metadata r = Some p" and "find_by su_id sid (subscriptions p) = Some u"
    and "sub_dates u" and "DURATION_DAYS d = Days n" and "Date_parse (su_expires_at u) = Some b" and "b + n * ms_per_day \<le> max_time"
    and "sub_renew metadata now sid d e r = (x, t)"
  shows "\<exists>v. x = Inr (publicSubscription v) \<and>
    Date_parse (su_expires_at v) = Some (b + n * ms_per_day) \<and> same_target v u \<and> su_starts_at v = su_starts_at u \<and>
    su_status v = ''active'' \<and> su_cancelled_at v = None \<and> su_duration_type v = d \<and>
    pro_view metadata t = Some (p\<lparr>subscriptions := map (\<lambda>y. if su_id y = sid then v else y) (subscriptions p)\<rparr>)"
proof -
  have now: "\<bar>now\<bar> \<le> max_time" using assms(1) by (simp add: session_at_def session_def)
  obtain v ne ts where v: "sub_renew_check now sid d e p = Inr v" "Date_parse ne = Some (b + n * ms_per_day)"
    "v = u\<lparr>su_duration_type := d, su_expires_at := ne, su_cancelled_at := None, su_status := ''active'', su_updated_at := ts\<rparr>"
    using sub_renew_works [OF assms(3-7) now, of e] by blast
  have r: "x = Inr (publicSubscription v)" "pro_view metadata t = Some (replace_subscription sid v p)"
    using sub_transact_result [OF assms(8) [unfolded sub_renew_def] assms(1,2)] v(1) by simp_all
  have "su_expires_at v = ne" "same_target v u" "su_starts_at v = su_starts_at u" "su_status v = ''active''"
    "su_cancelled_at v = None" "su_duration_type v = d" by (simp_all add: v(3) same_target_def)
  with v(2) r show ?thesis
    by (intro exI [of _ v]) (simp add: replace_subscription_def replace_by_def)
qed

lemma sample_subscription:
  "\<exists>u b. find_by su_id ''t1-subscription-active'' (subscriptions (baseline_lists sample_metadata)) = Some u \<and> sub_dates u \<and>
     Date_parse (su_expires_at u) = Some b \<and> b + 30 * ms_per_day \<le> max_time"
proof -
  let ?s = "baseline_subscription sample_metadata (hd subscription_rows) (baseline_service sample_metadata 2) (baseline_plan sample_metadata 4)"
  have find: "find_by su_id ''t1-subscription-active'' (subscriptions (baseline_lists sample_metadata)) = Some ?s"
    by (simp add: find_by_def baseline_lists_def baseline_subscriptions_def subscription_rows_def
        baseline_subscription_def sample_metadata_def)
  then have "?s \<in> set (subscriptions (baseline_lists sample_metadata))" by (rule find_by_SomeD [THEN conjunct1])
  then have dates: "sub_dates ?s"
    using subs_inv_baseline [OF sample_dates] by (auto simp: subs_inv_def list_all_iff sub_wf_def)
  obtain t where t: "Date_parse (nullish (md_activatedAt sample_metadata) (md_serverTime sample_metadata)) = Some t"
    "Date_parse (offset_text sample_metadata 16) = Some (t + 16 * ms_per_day)"
    using offset_text_parse [OF sample_dates, of 16] by auto
  have "Date_parse (nullish (md_activatedAt sample_metadata) (md_serverTime sample_metadata)) = Some 1767225600000"
    by code_simp
  with t(1) have "t = 1767225600000" by simp
  moreover have "su_expires_at ?s = offset_text sample_metadata 16"
    by (simp add: baseline_subscription_def subscription_rows_def)
  ultimately show ?thesis
    using find dates t(2) by (intro exI [of _ ?s] exI [of _ "t + 16 * ms_per_day"]) (simp add: ms_per_day_def max_time_def)
qed

theorem renew_extends_witness:
  "\<exists>r t v. sub_renew sample_metadata 0 ''t1-subscription-active'' ''1_month'' None r = (Inr (publicSubscription v), t) \<and>
     su_status v = ''active'' \<and> su_duration_type v = ''1_month''"
proof -
  obtain r rest where r: "session_at rest sample_metadata 0 r" "pro_view sample_metadata r = Some (baseline_lists sample_metadata)"
    using sample_session by blast
  have d: "DURATION_DAYS ''1_month'' = Days 30" by (simp add: DURATION_DAYS_def)
  obtain u b where u: "find_by su_id ''t1-subscription-active'' (subscriptions (baseline_lists sample_metadata)) = Some u"
    "sub_dates u" "Date_parse (su_expires_at u) = Some b" "b + 30 * ms_per_day \<le> max_time"
    using sample_subscription by blast
  obtain y t where run: "sub_renew sample_metadata 0 ''t1-subscription-active'' ''1_month'' None r = (y, t)" by fastforce
  from renew_extends [OF r u(1,2) d u(3,4) run] run show ?thesis by blast
qed

text \<open>
  C29. The credentials are kept: what a creation stored is what \<open>reveal\<close> returns for the identifier the creation
  returned, when that identifier was new; an empty password or PIN is stored as none.
\<close>

theorem create_reveal:
  assumes "session_at rest metadata now r" and "pro_view metadata r = Some p" and "sub_create metadata now payload r = (Inr x, t)"
    and "sb_id x \<notin> su_id ` set (subscriptions p)" and "\<bar>now'\<bar> \<le> max_time"
  shows "\<exists>u. sub_reveal metadata now' (sb_id x) t =
    (Inr \<lparr> rc_streaming_password = Option.bind (sc_streaming_password payload) or_null,
           rc_profile_pin = Option.bind (sc_profile_pin payload) or_null \<rparr>, u)"
proof -
  obtain v where v: "sub_create_check metadata now payload p = Inr v" "x = publicSubscription v" "session_at rest metadata now t"
    "pro_view metadata t = Some (add_subscription v p)"
    using sub_transact_result [OF assms(3) [unfolded sub_create_def] assms(1,2)] by (auto split: sum.splits)
  have secrets: "su_streaming_secret v = Some (Option.bind (sc_streaming_password payload) or_null)"
    "su_pin_secret v = Some (Option.bind (sc_profile_pin payload) or_null)"
    using v(1) by (auto simp: sub_create_check_def ebind_eq_Inr)
  have found: "find_by su_id (sb_id x) (subscriptions (add_subscription v p)) = Some v"
    using assms(4) by (simp add: v(2) publicSubscription_def find_by_added)
  obtain y u where run: "sub_reveal metadata now' (sb_id x) t = (y, u)" by fastforce
  have "findSubscription (add_subscription v p) (sb_id x) = Inr v" using found by (simp only: findSubscription_ok)
  then have "y = Inr (reveal_of v)"
    using sub.query_result [OF run [unfolded sub_reveal_def] session_at_now [OF v(3) assms(5)] v(4)] by simp
  with run show ?thesis by (simp add: reveal_of_def secrets)
qed

theorem create_reveal_witness:
  "\<exists>r x t u. sub_create sample_metadata 0 sample_payload r = (Inr x, t) \<and>
     sub_reveal sample_metadata 0 (sb_id x) t = (Inr \<lparr> rc_streaming_password = Some ''secret'', rc_profile_pin = None \<rparr>, u)"
proof -
  obtain r rest where r: "session_at rest sample_metadata 0 r" "pro_view sample_metadata r = Some (baseline_lists sample_metadata)"
    using sample_session by blast
  obtain v where v: "sub_create_check sample_metadata 0 sample_payload (baseline_lists sample_metadata) = Inr v"
    using sample_create by blast
  obtain y t where run: "sub_create sample_metadata 0 sample_payload r = (y, t)" by fastforce
  from sub_transact_result [OF run [unfolded sub_create_def] r] v have y: "y = Inr (publicSubscription v)" by simp
  have vid: "su_id v = ''subscription-t1-0''"
    using v by (auto simp: sub_create_check_def ebind_eq_Inr sample_metadata_def int_to_string_def nat_to_string_digit)
  have "sb_id (publicSubscription v) \<notin> su_id ` set (subscriptions (baseline_lists sample_metadata))"
    by (auto simp: publicSubscription_def vid baseline_lists_def baseline_subscriptions_def baseline_subscription_def sample_metadata_def)
  moreover have "\<bar>0\<bar> \<le> max_time" by (simp add: max_time_def)
  ultimately obtain u where "sub_reveal sample_metadata 0 (sb_id (publicSubscription v)) t =
    (Inr \<lparr> rc_streaming_password = Option.bind (sc_streaming_password sample_payload) or_null,
           rc_profile_pin = Option.bind (sc_profile_pin sample_payload) or_null \<rparr>, u)"
    using create_reveal [OF r run [unfolded y]] by blast
  moreover have "Option.bind (sc_streaming_password sample_payload) or_null = Some ''secret''"
    "Option.bind (sc_profile_pin sample_payload) or_null = None" by (simp_all add: sample_payload_def)
  ultimately show ?thesis using run [unfolded y] by metis
qed

text \<open>
  Renewing and reactivating do not look for duplicates: a cancelled subscription whose address was
  given to a new one becomes a second active one.
\<close>

definition twin :: "string \<Rightarrow> string \<Rightarrow> string option \<Rightarrow> DemoSubscriptionRelation" where
  "twin sid status cancelled = \<lparr> su_id = sid, su_tenant_id = ''t1'', su_client_id = ''c'', su_service_id = ''s'', su_plan_id = ''p'',
     su_streaming_email = ''a@b.c'', su_streaming_secret = None, su_profile_name = None, su_pin_secret = None,
     su_duration_type = ''1_month'', su_starts_at = ''2026-01-01T00:00:00.000Z'', su_expires_at = ''2026-01-31T00:00:00.000Z'',
     su_cancelled_at = cancelled, su_status = status, su_created_at = ''2026-01-01T00:00:00.000Z'', su_updated_at = ''2026-01-01T00:00:00.000Z'' \<rparr>"

definition twins :: ProLists where
  "twins = \<lparr> clients = [], services = [], plans = [],
     subscriptions = [twin ''u1'' ''cancelled'' (Some ''2026-01-02T00:00:00.000Z''), twin ''u2'' ''active'' None] \<rparr>"

theorem renew_can_duplicate:
  "subs_inv twins \<and> no_duplicates twins \<and>
   (\<exists>u. sub_renew_check 0 ''u1'' ''1_month'' None twins = Inr u \<and> \<not> no_duplicates (replace_subscription ''u1'' u twins))"
proof (intro conjI)
  show "subs_inv twins" unfolding subs_inv_def sub_wf_def sub_dates_def by code_simp
  show "no_duplicates twins"
    by (simp add: no_duplicates_def uniq_by_def twins_def twin_def same_subscription_def)
  have d: "DURATION_DAYS ''1_month'' = Days 30" by (simp add: DURATION_DAYS_def)
  have "sub_dates (twin ''u1'' ''cancelled'' (Some ''2026-01-02T00:00:00.000Z''))" unfolding sub_dates_def by code_simp
  moreover have "Date_parse (su_expires_at (twin ''u1'' ''cancelled'' (Some ''2026-01-02T00:00:00.000Z''))) = Some 1769817600000" by code_simp
  moreover have "find_by su_id ''u1'' (subscriptions twins) = Some (twin ''u1'' ''cancelled'' (Some ''2026-01-02T00:00:00.000Z''))"
    by (simp add: find_by_def twins_def twin_def)
  ultimately obtain u ne ts where u: "sub_renew_check 0 ''u1'' ''1_month'' None twins = Inr u"
    "u = (twin ''u1'' ''cancelled'' (Some ''2026-01-02T00:00:00.000Z''))\<lparr>su_duration_type := ''1_month'', su_expires_at := ne,
       su_cancelled_at := None, su_status := ''active'', su_updated_at := ts\<rparr>"
    using sub_renew_works [OF _ _ d, of "''u1''" twins _ 1769817600000 0 None] by (auto simp: ms_per_day_def max_time_def)
  have "\<not> no_duplicates (replace_subscription ''u1'' u twins)"
    by (simp add: no_duplicates_def uniq_by_def twins_def same_subscription_def replace_by_def u(2)) (simp add: twin_def)
  with u(1) show "\<exists>u. sub_renew_check 0 ''u1'' ''1_month'' None twins = Inr u \<and> \<not> no_duplicates (replace_subscription ''u1'' u twins)"
    by blast
qed

text \<open>
  Two creations within one millisecond get one identifier; changing it then replaces both rows by one, so two active rows
  have one client, service and address.
\<close>

definition twin_creations :: "demo_error + ProLists" where
  "twin_creations =
    (let c = \<lparr> cl_id = ''c'', cl_tenant_id = ''t1'', cl_owner_user_id = ''o'', cl_full_name = ''Ana'', cl_username = ''demo_ana'',
           cl_phone = None, cl_is_active = True, cl_created_at = [], cl_updated_at = [] \<rparr>;
         s = \<lparr> sv_id = ''s'', sv_tenant_id = ''t1'', sv_name = ''Max'', sv_icon = None, sv_created_at = [], sv_updated_at = [] \<rparr>;
         q = \<lparr> pl_id = ''p'', pl_tenant_id = ''t1'', pl_service_id = ''s'', pl_name = ''Basic'', pl_price = None, pl_created_at = [], pl_updated_at = [] \<rparr>;
         payload = (\<lambda>email. sample_payload\<lparr>sc_client_id := ''c'', sc_service_id := ''s'', sc_plan_id := ''p'', sc_streaming_email := email\<rparr>);
         create = (\<lambda>email p. ebind (sub_create_check sample_metadata 0 (payload email) p) (\<lambda>u. Inr (add_subscription u p)));
         change = \<lparr> sx_client_id = None, sx_service_id = None, sx_plan_id = None, sx_streaming_email = None, sx_streaming_password = None,
           sx_profile_name = None, sx_profile_pin = None, sx_duration_type = None, sx_starts_at = None, sx_expires_at = None \<rparr> in
     ebind (create ''a@b.cd'' \<lparr> clients = [c], services = [s], plans = [q], subscriptions = [] \<rparr>) (\<lambda>p.
     ebind (create ''e@f.gh'' p) (\<lambda>p.
     ebind (sub_update_check 0 ''subscription-t1-0'' change p) (\<lambda>u. Inr (replace_subscription ''subscription-t1-0'' u p)))))"

lemma twin_creations_duplicate:
  "case twin_creations of Inl e \<Rightarrow> False | Inr p \<Rightarrow>
     map (\<lambda>u. (su_client_id u, su_service_id u, su_streaming_email u, su_status u)) (subscriptions p) =
       [(''c'', ''s'', ''a@b.cd'', ''active''), (''c'', ''s'', ''a@b.cd'', ''active'')]"
  by code_simp

end
