(* ===== verification/DemoSettings.thy ===== *)
theory DemoSettings
  imports DemoStore JsSort
begin

text \<open>
  The settings of the demo (\<open>features/demo/services/demo-settings.ts\<close>): profile, reminder and
  tenant settings, code services and blocked identities. Parameters of the model: \<open>tr\<close> is the translation
  function \<open>t\<close> of the i18n package, \<open>valid_tz\<close> tells whether \<open>Intl.DateTimeFormat\<close> accepts a time zone,
  \<open>long_offset\<close> is the time-zone name \<open>Intl\<close> gives for it (none when it throws or has no such part),
  \<open>supported\<close> is \<open>Intl.supportedValuesOf\<close> (none when the browser lacks it), and \<open>catalog\<close> holds the country and
  currency data of \<open>lib/currency-catalog.json\<close>. A property of a payload is absent or a value. The main
  results: the locale of the profile and of the tenant settings stay equal and valid, reminder times and
  recipient modes stay valid, blocked phone numbers stay unique, and no settings operation touches the
  Pro collections.
\<close>

section \<open>Data\<close>

record ProfileUpdate =
  pu_full_name :: "string option"
  pu_email :: "string option"
  pu_phone :: "string option"
  pu_name :: "string option"

record Profile =
  pr_role :: string
  pr_username :: string
  pr_name :: "string option"
  pr_full_name :: "string option"
  pr_tenant_id :: "string option"
  pr_tenant_name :: "string option"
  pr_client_prefix :: "string option"
  pr_locale :: "string option"
  pr_timezone :: "string option"
  pr_email :: "string option"
  pr_phone :: "string option"
  pr_is_active :: "bool option"
  pr_created_at :: string
  pr_updated_at :: string

record TenantSettingsUpdate =
  tu_locale :: "string option"
  tu_timezone :: "string option"
  tu_country :: "string option"
  tu_currency :: "string option"

record ReminderSettingsUpdate =
  ru_warning_days :: "int list option"
  ru_reminder_time :: "string option"
  ru_recipient_mode :: "string option"
  ru_reminders_enabled :: "bool option"
  ru_custom_message_tenant :: "string option option"
  ru_custom_message_client :: "string option option"

record Mailbox =
  mb_id :: string
  mb_tenant_id :: string
  mb_mailbox_email :: string
  mb_status :: string
  mb_last_connection_test_at :: "string option"
  mb_last_connection_error :: "string option"
  mb_created_at :: string
  mb_updated_at :: string

record TenantCodeService =
  tc_service_key :: string
  tc_label :: string
  tc_is_selected :: bool
  tc_is_globally_active :: bool

record AccessControlBlock =
  ab_id :: string
  ab_tenant_id :: string
  ab_phone :: "string option"
  ab_whatsapp_lid :: "string option"
  ab_created_at :: string
  ab_updated_at :: string

record CountryOption =
  co_code :: string
  co_currency :: string

record CurrencyOption =
  cu_code :: string
  cu_symbol :: string
  cu_minor_units :: int

record currency_catalog =
  catalogCountries :: "CountryOption list"
  catalogCurrencies :: "CurrencyOption list"

record TimezoneOption =
  tz_value :: string
  tz_label :: string
  tz_group :: string

section \<open>Time zones\<close>

definition FALLBACK_TIMEZONES :: "string list" where
  "FALLBACK_TIMEZONES = [
     ''Africa/Cairo'', ''Africa/Casablanca'', ''Africa/Johannesburg'', ''Africa/Lagos'',
     ''America/Argentina/Buenos_Aires'', ''America/Bogota'', ''America/Caracas'', ''America/Chicago'', ''America/Denver'',
     ''America/Guatemala'', ''America/Halifax'', ''America/Lima'', ''America/Los_Angeles'', ''America/Mexico_City'',
     ''America/New_York'', ''America/Panama'', ''America/Santiago'', ''America/Sao_Paulo'', ''America/Toronto'',
     ''America/Vancouver'', ''Asia/Bangkok'', ''Asia/Dubai'', ''Asia/Hong_Kong'', ''Asia/Jakarta'', ''Asia/Kolkata'',
     ''Asia/Manila'', ''Asia/Seoul'', ''Asia/Shanghai'', ''Asia/Singapore'', ''Asia/Tokyo'', ''Australia/Melbourne'',
     ''Australia/Sydney'', ''Europe/Berlin'', ''Europe/Helsinki'', ''Europe/Lisbon'', ''Europe/London'', ''Europe/Madrid'',
     ''Europe/Moscow'', ''Europe/Paris'', ''Europe/Rome'', ''Europe/Stockholm'', ''Europe/Zurich'', ''Pacific/Auckland'',
     ''Pacific/Honolulu'', ''UTC'']"

definition timezoneLabel :: "(string \<Rightarrow> string option) \<Rightarrow> string \<Rightarrow> string" where
  "timezoneLabel long_offset value = (case long_offset value of None \<Rightarrow> value
     | Some name \<Rightarrow>
        (let offset = (if js_startsWith ''GMT'' name then ''UTC'' @ drop 3 name else name) in
         if offset \<noteq> [] \<and> offset \<noteq> ''UTC'' then value @ '' ('' @ offset @ '')'' else value))"

text \<open>The default order of \<open>sort()\<close>: by code units.\<close>

fun compare_units :: "string comparison" where
  "compare_units [] [] = 0"
| "compare_units [] (d # t) = -1"
| "compare_units (c # s) [] = 1"
| "compare_units (c # s) (d # t) = (if c = d then compare_units s t else if code c < code d then -1 else 1)"

definition demoTimezoneOptions :: "string list option \<Rightarrow> (string \<Rightarrow> string option) \<Rightarrow> TimezoneOption list" where
  "demoTimezoneOptions supported long_offset =
    (let supportedValues = (case supported of Some vs \<Rightarrow> vs | None \<Rightarrow> FALLBACK_TIMEZONES) in
     map (\<lambda>value. \<lparr> tz_value = value, tz_label = timezoneLabel long_offset value,
         tz_group = (if js_includes ''/'' value then hd (split_on (CHR ''/'') value) else ''UTC'') \<rparr>)
       (js_sort compare_units (rev (remdups (rev (''UTC'' # supportedValues))))))"

section \<open>Validation\<close>

definition VALID_COUNTRY_CODES :: "currency_catalog \<Rightarrow> string list" where
  "VALID_COUNTRY_CODES catalog = map co_code (catalogCountries catalog)"

definition VALID_CURRENCY_CODES :: "currency_catalog \<Rightarrow> string list" where
  "VALID_CURRENCY_CODES catalog = map cu_code (catalogCurrencies catalog)"

definition validateTenantSettings ::
  "(string \<Rightarrow> string) \<Rightarrow> (string \<Rightarrow> bool) \<Rightarrow> currency_catalog \<Rightarrow> TenantSettingsUpdate \<Rightarrow> demo_error + TenantSettingsUpdate" where
  "validateTenantSettings tr valid_tz catalog payload =
     ebind (case tu_locale payload of None \<Rightarrow> Inr None | Some v \<Rightarrow>
       (let locale = toLowerCase (trim v) in
        if locale \<noteq> ''en'' \<and> locale \<noteq> ''es'' then Inl (PlainError (tr ''frontend.profile.error_invalid_locale''))
        else Inr (Some locale))) (\<lambda>locale.
     ebind (throw_if (case tu_timezone payload of None \<Rightarrow> False | Some v \<Rightarrow> \<not> valid_tz v)
       (PlainError (tr ''frontend.subscriptions.error_invalid_timezone''))) (\<lambda>_.
     ebind (case tu_country payload of None \<Rightarrow> Inr None | Some v \<Rightarrow>
       (let country = toUpperCase (trim v) in
        if country \<notin> set (VALID_COUNTRY_CODES catalog) then Inl (PlainError (tr ''frontend.profile.error_invalid_country''))
        else Inr (Some country))) (\<lambda>country.
     ebind (case tu_currency payload of None \<Rightarrow> Inr None | Some v \<Rightarrow>
       (let currency = toUpperCase (trim v) in
        if currency \<notin> set (VALID_CURRENCY_CODES catalog) then Inl (PlainError (tr ''frontend.profile.error_invalid_currency''))
        else Inr (Some currency))) (\<lambda>currency.
     Inr \<lparr> tu_locale = locale, tu_timezone = tu_timezone payload, tu_country = country, tu_currency = currency \<rparr>))))"

text \<open>\<open>/^\d{2}:\d{2}$/\<close>.\<close>

definition time_pattern :: "string \<Rightarrow> bool" where
  "time_pattern s = (case s of [a, b, c, d, e] \<Rightarrow> is_digit a \<and> is_digit b \<and> c = CHR '':'' \<and> is_digit d \<and> is_digit e | _ \<Rightarrow> False)"

definition recipient_modes :: "string list" where
  "recipient_modes = [''tenant_only'', ''client_only'', ''tenant_client'', ''tenant_and_client'', ''both'']"

definition validateReminderSettings :: "(string \<Rightarrow> string) \<Rightarrow> ReminderSettingsUpdate \<Rightarrow> demo_error + unit" where
  "validateReminderSettings tr payload =
     ebind (case ru_reminder_time payload of None \<Rightarrow> Inr () | Some v \<Rightarrow>
       (if \<not> time_pattern v then Inl (PlainError (tr ''frontend.subscriptions.error_invalid_time''))
        else (let parts = map digits_value (split_on (CHR '':'') v) in
          throw_if (parts ! 0 > 23 \<or> parts ! 1 > 59) (PlainError (tr ''frontend.subscriptions.error_invalid_time''))))) (\<lambda>_.
     throw_if (case ru_recipient_mode payload of None \<Rightarrow> False | Some v \<Rightarrow> v \<notin> set recipient_modes)
       (PlainError (tr ''frontend.subscriptions.error_invalid_recipient_mode'')))"

definition demoPublicApiBlocked :: "'a repo_act" where
  "demoPublicApiBlocked = athrow (PlainError ''demo_public_api_blocked'')"

section \<open>State and defaults\<close>

definition set_requireState :: "DemoAuthMetadata \<Rightarrow> int \<Rightarrow> DemoWorkspaceState repo_act" where
  "set_requireState metadata now = require_state readStarterDemoState (PlainError ''invalid_demo_workspace'') metadata now"

definition set_updateState :: "int \<Rightarrow> (DemoWorkspaceState \<Rightarrow> DemoWorkspaceState) \<Rightarrow> DemoWorkspaceState repo_act" where
  "set_updateState now updater =
     update_state readStarterDemoState (PlainError ''invalid_demo_workspace'') (PlainError ''invalid_demo_workspace'') now updater"

definition defaultReminderSettings :: "DemoAuthMetadata \<Rightarrow> ReminderSettings" where
  "defaultReminderSettings metadata = \<lparr>
     rs_id = ''reminders-'' @ md_tenantId metadata,
     rs_tenant_id = md_tenantId metadata,
     rs_warning_days = [7, 3, 1],
     rs_reminder_time = ''09:00'',
     rs_recipient_mode = ''tenant_only'',
     rs_reminders_enabled = False,
     rs_custom_message_tenant = None,
     rs_custom_message_client = None,
     rs_created_at = md_serverTime metadata,
     rs_updated_at = md_serverTime metadata \<rparr>"

definition defaultTenantSettings :: "DemoAuthMetadata \<Rightarrow> TenantSettings" where
  "defaultTenantSettings metadata = \<lparr>
     ts_tenant_id = md_tenantId metadata,
     ts_locale = nullish (md_locale metadata) ''en'',
     ts_timezone = Some ''UTC'',
     ts_country = None,
     ts_currency = None,
     ts_created_at = md_serverTime metadata,
     ts_updated_at = md_serverTime metadata \<rparr>"

definition demoProfile :: "DemoAuthMetadata \<Rightarrow> DemoWorkspaceState \<Rightarrow> Profile" where
  "demoProfile metadata state = \<lparr>
     pr_role = ''tenant'',
     pr_username = ''demo_'' @ md_tenantId metadata,
     pr_name = Some (pf_business_name (ds_profile state)),
     pr_full_name = Some (pf_business_name (ds_profile state)),
     pr_tenant_id = Some (md_tenantId metadata),
     pr_tenant_name = Some (pf_business_name (ds_profile state)),
     pr_client_prefix = None,
     pr_locale = Some (pf_locale (ds_profile state)),
     pr_timezone = Some (nullish (Option.bind (ds_tenant_settings state) ts_timezone) ''UTC''),
     pr_email = None,
     pr_phone = Option.bind (pf_phone (ds_profile state)) (\<lambda>v. v),
     pr_is_active = Some True,
     pr_created_at = md_serverTime metadata,
     pr_updated_at = md_serverTime metadata \<rparr>"

definition fixedMailbox :: "DemoAuthMetadata \<Rightarrow> Mailbox" where
  "fixedMailbox metadata = \<lparr>
     mb_id = ''mailbox-'' @ md_tenantId metadata,
     mb_tenant_id = md_tenantId metadata,
     mb_mailbox_email = ''demo.mailbox@example.test'',
     mb_status = ''connected'',
     mb_last_connection_test_at = Some (md_serverTime metadata),
     mb_last_connection_error = None,
     mb_created_at = md_serverTime metadata,
     mb_updated_at = md_serverTime metadata \<rparr>"

section \<open>Operations\<close>

definition loadProfile :: "DemoAuthMetadata \<Rightarrow> int \<Rightarrow> Profile repo_act" where
  "loadProfile metadata now = query (set_requireState metadata now) (\<lambda>state. Inr (demoProfile metadata state))"

text \<open>\<open>payload.full_name?.trim() || existing\<close>.\<close>

definition trimmed_or :: "string option \<Rightarrow> 'a \<Rightarrow> (string \<Rightarrow> 'a) \<Rightarrow> 'a" where
  "trimmed_or v other f = (if falsy (map_option trim v) then other else f (trim (the v)))"

definition profile_updater :: "ProfileUpdate \<Rightarrow> DemoWorkspaceState \<Rightarrow> DemoWorkspaceState" where
  "profile_updater payload existing = existing\<lparr>ds_profile := (ds_profile existing)\<lparr>
     pf_business_name := trimmed_or (pu_full_name payload) (pf_business_name (ds_profile existing)) (\<lambda>v. v),
     pf_phone := Some (trimmed_or (pu_phone payload)
       (Option.bind (Option.bind (pf_phone (ds_profile existing)) (\<lambda>v. v)) or_null) Some)\<rparr>\<rparr>"

definition updateProfile :: "DemoAuthMetadata \<Rightarrow> int \<Rightarrow> ProfileUpdate \<Rightarrow> Profile repo_act" where
  "updateProfile metadata now payload =
     abind (set_updateState now (profile_updater payload)) (\<lambda>state. areturn (demoProfile metadata state))"

definition loadReminderSettings :: "DemoAuthMetadata \<Rightarrow> int \<Rightarrow> ReminderSettings repo_act" where
  "loadReminderSettings metadata now = query (set_requireState metadata now)
     (\<lambda>state. Inr (nullish (ds_reminder_settings state) (defaultReminderSettings metadata)))"

text \<open>\<open>{ ...current, ...payload, updated_at }\<close>.\<close>

definition merge_reminders :: "DemoAuthMetadata \<Rightarrow> ReminderSettings \<Rightarrow> ReminderSettingsUpdate \<Rightarrow> ReminderSettings" where
  "merge_reminders metadata current payload = current\<lparr>
     rs_warning_days := nullish (ru_warning_days payload) (rs_warning_days current),
     rs_reminder_time := nullish (ru_reminder_time payload) (rs_reminder_time current),
     rs_recipient_mode := nullish (ru_recipient_mode payload) (rs_recipient_mode current),
     rs_reminders_enabled := nullish (ru_reminders_enabled payload) (rs_reminders_enabled current),
     rs_custom_message_tenant := nullish (ru_custom_message_tenant payload) (rs_custom_message_tenant current),
     rs_custom_message_client := nullish (ru_custom_message_client payload) (rs_custom_message_client current),
     rs_updated_at := md_serverTime metadata\<rparr>"

definition updateReminderSettings ::
  "(string \<Rightarrow> string) \<Rightarrow> DemoAuthMetadata \<Rightarrow> int \<Rightarrow> ReminderSettingsUpdate \<Rightarrow> ReminderSettings repo_act" where
  "updateReminderSettings tr metadata now payload =
     abind (alift (validateReminderSettings tr payload)) (\<lambda>_.
     abind (loadReminderSettings metadata now) (\<lambda>current.
     let settings = merge_reminders metadata current payload in
     abind (set_updateState now (\<lambda>existing. existing\<lparr>ds_reminder_settings := Some settings\<rparr>)) (\<lambda>state.
     areturn (nullish (ds_reminder_settings state) settings))))"

definition loadTenantSettings :: "DemoAuthMetadata \<Rightarrow> int \<Rightarrow> TenantSettings repo_act" where
  "loadTenantSettings metadata now = query (set_requireState metadata now)
     (\<lambda>state. Inr (nullish (ds_tenant_settings state) (defaultTenantSettings metadata)))"

definition merge_tenant :: "DemoAuthMetadata \<Rightarrow> TenantSettings \<Rightarrow> TenantSettingsUpdate \<Rightarrow> TenantSettings" where
  "merge_tenant metadata current payload = current\<lparr>
     ts_locale := nullish (tu_locale payload) (ts_locale current),
     ts_timezone := (case tu_timezone payload of None \<Rightarrow> ts_timezone current | Some v \<Rightarrow> Some v),
     ts_country := (case tu_country payload of None \<Rightarrow> ts_country current | Some v \<Rightarrow> Some v),
     ts_currency := (case tu_currency payload of None \<Rightarrow> ts_currency current | Some v \<Rightarrow> Some v),
     ts_updated_at := md_serverTime metadata\<rparr>"

definition tenant_updater :: "TenantSettings \<Rightarrow> DemoWorkspaceState \<Rightarrow> DemoWorkspaceState" where
  "tenant_updater settings existing = existing\<lparr>
     ds_profile := (ds_profile existing)\<lparr>pf_locale := ts_locale settings\<rparr>,
     ds_tenant_settings := Some settings\<rparr>"

definition updateTenantSettings ::
  "(string \<Rightarrow> string) \<Rightarrow> (string \<Rightarrow> bool) \<Rightarrow> currency_catalog \<Rightarrow> DemoAuthMetadata \<Rightarrow> int \<Rightarrow> TenantSettingsUpdate \<Rightarrow> TenantSettings repo_act" where
  "updateTenantSettings tr valid_tz catalog metadata now payload =
     abind (alift (validateTenantSettings tr valid_tz catalog payload)) (\<lambda>normalizedPayload.
     abind (loadTenantSettings metadata now) (\<lambda>current.
     let settings = merge_tenant metadata current normalizedPayload in
     abind (set_updateState now (tenant_updater settings)) (\<lambda>state.
     areturn (nullish (ds_tenant_settings state) settings))))"

definition loadTimezoneOptions :: "string list option \<Rightarrow> (string \<Rightarrow> string option) \<Rightarrow> TimezoneOption list repo_act" where
  "loadTimezoneOptions supported long_offset = areturn (demoTimezoneOptions supported long_offset)"

definition loadCurrencyOptions :: "currency_catalog \<Rightarrow> (CountryOption list \<times> CurrencyOption list) repo_act" where
  "loadCurrencyOptions catalog = areturn (catalogCountries catalog, catalogCurrencies catalog)"

text \<open>The public API is not available in the demo: there is no key, and every change is refused.\<close>

definition loadPublicApiKey :: "string option repo_act" where
  "loadPublicApiKey = areturn None"

definition savePublicApiKeyOrigins :: "string repo_act" where
  "savePublicApiKeyOrigins = demoPublicApiBlocked"

definition regeneratePublicApiKey :: "string repo_act" where
  "regeneratePublicApiKey = demoPublicApiBlocked"

definition revokePublicApiKey :: "unit repo_act" where
  "revokePublicApiKey = demoPublicApiBlocked"

definition loadMailbox :: "DemoAuthMetadata \<Rightarrow> Mailbox repo_act" where
  "loadMailbox metadata = areturn (fixedMailbox metadata)"

definition code_service_view :: "DemoCodeService \<Rightarrow> TenantCodeService" where
  "code_service_view service = \<lparr> tc_service_key = cs_id service, tc_label = cs_name service,
     tc_is_selected = cs_enabled service, tc_is_globally_active = True \<rparr>"

definition loadCodeServices :: "DemoAuthMetadata \<Rightarrow> int \<Rightarrow> (string \<times> TenantCodeService list) repo_act" where
  "loadCodeServices metadata now = query (set_requireState metadata now)
     (\<lambda>state. Inr (md_tenantId metadata, map code_service_view (ds_code_services state)))"

definition code_services_updater :: "string list \<Rightarrow> DemoWorkspaceState \<Rightarrow> DemoWorkspaceState" where
  "code_services_updater serviceKeys existing = existing\<lparr>ds_code_services :=
     map (\<lambda>service. service\<lparr>cs_enabled := (cs_id service \<in> set serviceKeys)\<rparr>) (ds_code_services existing)\<rparr>"

definition updateCodeServices :: "DemoAuthMetadata \<Rightarrow> int \<Rightarrow> string list \<Rightarrow> (string \<times> TenantCodeService list) repo_act" where
  "updateCodeServices metadata now serviceKeys =
     abind (set_updateState now (code_services_updater serviceKeys)) (\<lambda>state.
       areturn (md_tenantId metadata, map code_service_view (ds_code_services state)))"

definition access_block :: "DemoAuthMetadata \<Rightarrow> DemoBlockedIdentity \<Rightarrow> AccessControlBlock" where
  "access_block metadata block = \<lparr> ab_id = bi_id block, ab_tenant_id = md_tenantId metadata, ab_phone = Some (bi_phone block),
     ab_whatsapp_lid = None, ab_created_at = md_serverTime metadata, ab_updated_at = md_serverTime metadata \<rparr>"

definition listAccessBlocks :: "DemoAuthMetadata \<Rightarrow> int \<Rightarrow> AccessControlBlock list repo_act" where
  "listAccessBlocks metadata now = query (set_requireState metadata now)
     (\<lambda>state. Inr (map (access_block metadata) (ds_blocked_identities state)))"

definition block_check :: "DemoAuthMetadata \<Rightarrow> int \<Rightarrow> string \<Rightarrow> DemoWorkspaceState \<Rightarrow> demo_error + DemoBlockedIdentity" where
  "block_check metadata now normalized state =
     ebind (throw_if (list_ex (\<lambda>b. bi_phone b = normalized) (ds_blocked_identities state)) (PlainError ''access_block_duplicate'')) (\<lambda>_.
       Inr \<lparr> bi_id = ''blocked-'' @ md_tenantId metadata @ ''-'' @ int_to_string now, bi_phone = normalized \<rparr>)"

definition add_block :: "DemoBlockedIdentity \<Rightarrow> DemoWorkspaceState \<Rightarrow> DemoWorkspaceState" where
  "add_block block existing = existing\<lparr>ds_blocked_identities := ds_blocked_identities existing @ [block]\<rparr>"

definition createAccessBlock :: "DemoAuthMetadata \<Rightarrow> int \<Rightarrow> string \<Rightarrow> AccessControlBlock repo_act" where
  "createAccessBlock metadata now phone =
    (let normalized = trim phone in
     abind (alift (throw_if (normalized = []) (PlainError ''phone_required''))) (\<lambda>_.
     abind (transact (set_requireState metadata now) (set_updateState now) (block_check metadata now normalized) add_block) (\<lambda>block.
     areturn (access_block metadata block))))"

definition remove_block :: "string \<Rightarrow> DemoWorkspaceState \<Rightarrow> DemoWorkspaceState" where
  "remove_block bid existing = existing\<lparr>ds_blocked_identities := remove_by bi_id bid (ds_blocked_identities existing)\<rparr>"

definition deleteAccessBlock :: "int \<Rightarrow> string \<Rightarrow> unit repo_act" where
  "deleteAccessBlock now bid = abind (set_updateState now (remove_block bid)) (\<lambda>_. areturn ())"

section \<open>The service is a client of the store\<close>

interpretation sets: demo_store "session metadata now" "state_ok (md_plan metadata)" "state_view metadata"
  "set_requireState metadata now" "set_updateState now" for metadata now
  by unfold_locales (auto simp: set_requireState_def set_updateState_def intro: require_state_law update_state_law readers)

section \<open>The abstract service\<close>

definition time_ok :: "string \<Rightarrow> bool" where
  "time_ok s \<longleftrightarrow> time_pattern s \<and> digits_value (take 2 s) \<le> 23 \<and> digits_value (drop 3 s) \<le> 59"

definition reminders_ok :: "ReminderSettings \<Rightarrow> bool" where
  "reminders_ok r \<longleftrightarrow> time_ok (rs_reminder_time r) \<and> rs_recipient_mode r \<in> set recipient_modes"

definition same_block :: "DemoBlockedIdentity \<Rightarrow> DemoBlockedIdentity \<Rightarrow> bool" where
  "same_block a b \<longleftrightarrow> bi_phone a = bi_phone b"

definition settings_inv :: "DemoWorkspaceState \<Rightarrow> bool" where
  "settings_inv s \<longleftrightarrow> pf_locale (ds_profile s) \<in> {''en'', ''es''} \<and>
     (\<forall>ts. ds_tenant_settings s = Some ts \<longrightarrow> ts_locale ts = pf_locale (ds_profile s)) \<and>
     (\<forall>rs. ds_reminder_settings s = Some rs \<longrightarrow> reminders_ok rs) \<and>
     list_all (\<lambda>b. bi_phone b \<noteq> [] \<and> trim (bi_phone b) = bi_phone b) (ds_blocked_identities s) \<and>
     uniq_by bi_id same_block (ds_blocked_identities s)"

inductive settings_change :: "DemoAuthMetadata \<Rightarrow> DemoWorkspaceState \<Rightarrow> DemoWorkspaceState \<Rightarrow> bool" for metadata where
  settings_same: "settings_change metadata s s"
| settings_profile: "settings_change metadata s (profile_updater payload s)"
| settings_reminders: "validateReminderSettings tr reminders = Inr () \<Longrightarrow>
    settings_change metadata s (s\<lparr>ds_reminder_settings :=
      Some (merge_reminders metadata (nullish (ds_reminder_settings s) (defaultReminderSettings metadata)) reminders)\<rparr>)"
| settings_tenant: "validateTenantSettings tr valid_tz catalog tenant = Inr normalized \<Longrightarrow>
    settings_change metadata s (tenant_updater
      (merge_tenant metadata (nullish (ds_tenant_settings s) (defaultTenantSettings metadata)) normalized) s)"
| settings_codes: "settings_change metadata s (code_services_updater keys s)"
| settings_block: "trim phone \<noteq> [] \<Longrightarrow> block_check metadata now (trim phone) s = Inr b \<Longrightarrow> settings_change metadata s (add_block b s)"
| settings_unblock: "settings_change metadata s (remove_block bid s)"

lemma time_parts:
  assumes "time_pattern v"
  shows "map digits_value (split_on (CHR '':'') v) = [digits_value (take 2 v), digits_value (drop 3 v)]"
proof -
  obtain a b d e where v: "v = [a, b, CHR '':'', d, e]" and ds: "is_digit a" "is_digit b" "is_digit d" "is_digit e"
    using assms by (auto simp: time_pattern_def split: list.splits)
  have "a \<noteq> CHR '':''" "b \<noteq> CHR '':''" "d \<noteq> CHR '':''" "e \<noteq> CHR '':''" using ds by (auto simp: is_digit_def)
  then show ?thesis by (simp add: v numeral_2_eq_2 numeral_3_eq_3)
qed

lemma validateReminderSettings_ok:
  assumes "validateReminderSettings tr payload = Inr ()" and "reminders_ok current"
  shows "reminders_ok (merge_reminders metadata current payload)"
proof -
  have "time_ok (nullish (ru_reminder_time payload) (rs_reminder_time current))"
    using assms by (cases "ru_reminder_time payload")
      (auto simp: validateReminderSettings_def reminders_ok_def ebind_eq_Inr Let_def time_ok_def time_parts split: if_splits)
  moreover have "nullish (ru_recipient_mode payload) (rs_recipient_mode current) \<in> set recipient_modes"
    using assms by (cases "ru_recipient_mode payload") (auto simp: validateReminderSettings_def reminders_ok_def ebind_eq_Inr)
  ultimately show ?thesis by (simp add: reminders_ok_def merge_reminders_def)
qed

lemma defaultReminders_ok: "reminders_ok (defaultReminderSettings metadata)"
proof -
  have "time_ok ''09:00''" unfolding time_ok_def by code_simp
  then show ?thesis by (simp add: reminders_ok_def defaultReminderSettings_def recipient_modes_def)
qed

lemma validateTenantSettings_locale:
  "validateTenantSettings tr valid_tz catalog payload = Inr n \<Longrightarrow> tu_locale n \<in> {None, Some ''en'', Some ''es''}"
  by (auto simp: validateTenantSettings_def ebind_eq_Inr Let_def split: option.splits if_splits)

lemma same_block_sym: "symp same_block"
  by (rule sympI) (simp add: same_block_def)

lemma merged_locale:
  assumes "settings_inv s" and "md_locale metadata \<in> {None, Some ''en'', Some ''es''}" and "tu_locale n \<in> {None, Some ''en'', Some ''es''}"
  shows "ts_locale (merge_tenant metadata (nullish (ds_tenant_settings s) (defaultTenantSettings metadata)) n) \<in> {''en'', ''es''}"
  using assms by (cases "tu_locale n"; cases "ds_tenant_settings s")
    (auto simp: merge_tenant_def settings_inv_def defaultTenantSettings_def)

lemma settings_inv_change:
  "settings_change metadata s s' \<Longrightarrow> settings_inv s \<Longrightarrow> md_locale metadata \<in> {None, Some ''en'', Some ''es''} \<Longrightarrow> settings_inv s'"
proof (induction rule: settings_change.induct)
  case (settings_reminders tr reminders s)
  have "reminders_ok (nullish (ds_reminder_settings s) (defaultReminderSettings metadata))"
    using settings_reminders(2) by (cases "ds_reminder_settings s") (simp_all add: settings_inv_def defaultReminders_ok)
  from validateReminderSettings_ok [OF settings_reminders(1) this] settings_reminders(2) show ?case
    by (simp add: settings_inv_def)
next
  case (settings_tenant tr valid_tz catalog tenant normalized s)
  from merged_locale [OF settings_tenant(2,3) validateTenantSettings_locale [OF settings_tenant(1)]] settings_tenant(2)
  show ?case by (simp add: settings_inv_def tenant_updater_def)
next
  case (settings_block phone now s b)
  then have b: "bi_phone b = trim phone" "\<forall>c \<in> set (ds_blocked_identities s). \<not> same_block c b"
    by (auto simp: block_check_def ebind_eq_Inr list_ex_iff same_block_def)
  with settings_block show ?case
    by (simp add: settings_inv_def add_block_def uniq_by_add same_block_sym)
next
  case (settings_unblock s bid)
  then show ?case by (auto simp: settings_inv_def remove_block_def list_all_iff elim!: uniq_by_subset)
qed (auto simp: settings_inv_def profile_updater_def code_services_updater_def)

text \<open>No settings operation touches the Pro collections.\<close>

lemma settings_change_pro: "settings_change metadata s s' \<Longrightarrow> ds_pro s' = ds_pro s"
  by (induction rule: settings_change.induct)
    (simp_all add: profile_updater_def tenant_updater_def code_services_updater_def add_block_def remove_block_def)

lemma settings_change_ok:
  assumes "settings_change metadata s s'" and "settings_inv s" and "md_locale metadata \<in> {None, Some ''en'', Some ''es''}"
    and "state_ok plan s"
  shows "state_ok plan s'"
  using settings_inv_change [OF assms(1-3)] settings_change_pro [OF assms(1)] assms(4)
  by (simp add: state_ok_def settings_inv_def)

section \<open>The operations implement the abstract service\<close>

inductive settings_step :: "DemoAuthMetadata \<Rightarrow> DemoWorkspaceRepository \<Rightarrow> DemoWorkspaceRepository \<Rightarrow> bool"
  for metadata where
  "loadProfile metadata now r = (x1, t) \<Longrightarrow> \<bar>now\<bar> \<le> max_time \<Longrightarrow> settings_step metadata r t"
| "updateProfile metadata now profile r = (x1, t) \<Longrightarrow> \<bar>now\<bar> \<le> max_time \<Longrightarrow> settings_step metadata r t"
| "loadReminderSettings metadata now r = (x2, t) \<Longrightarrow> \<bar>now\<bar> \<le> max_time \<Longrightarrow> settings_step metadata r t"
| "updateReminderSettings tr metadata now reminders r = (x2, t) \<Longrightarrow> \<bar>now\<bar> \<le> max_time \<Longrightarrow> settings_step metadata r t"
| "loadTenantSettings metadata now r = (x3, t) \<Longrightarrow> \<bar>now\<bar> \<le> max_time \<Longrightarrow> settings_step metadata r t"
| "updateTenantSettings tr valid_tz catalog metadata now tenant r = (x3, t) \<Longrightarrow> \<bar>now\<bar> \<le> max_time \<Longrightarrow> settings_step metadata r t"
| "loadCodeServices metadata now r = (x4, t) \<Longrightarrow> \<bar>now\<bar> \<le> max_time \<Longrightarrow> settings_step metadata r t"
| "updateCodeServices metadata now keys r = (x4, t) \<Longrightarrow> \<bar>now\<bar> \<le> max_time \<Longrightarrow> settings_step metadata r t"
| "listAccessBlocks metadata now r = (x5, t) \<Longrightarrow> \<bar>now\<bar> \<le> max_time \<Longrightarrow> settings_step metadata r t"
| "createAccessBlock metadata now phone r = (x6, t) \<Longrightarrow> \<bar>now\<bar> \<le> max_time \<Longrightarrow> settings_step metadata r t"
| "deleteAccessBlock now bid r = (x7, t) \<Longrightarrow> \<bar>now\<bar> \<le> max_time \<Longrightarrow> settings_step metadata r t"

text \<open>An update on its own, and an update of something read before.\<close>

lemma settings_update_run:
  assumes "abind (set_updateState now f) (\<lambda>state. areturn (g state)) r = (x, t)" and "session metadata now r"
    and "state_view metadata r = Some s" and "settings_change metadata s (f s)" and "settings_inv s"
    and "md_locale metadata \<in> {None, Some ''en'', Some ''es''}"
  shows "x = Inr (g (f s)) \<and> session metadata now t \<and> state_view metadata t = Some (f s)"
proof -
  have "state_ok (md_plan metadata) (f s)"
    by (rule settings_change_ok [OF assms(4-6) view_state_ok [OF assms(3)]])
  from sets.update_then [where f = f and g = "\<lambda>state. areturn (g state)", OF assms(1-3) this] show ?thesis by auto
qed

lemma updateReminderSettings_result:
  assumes "updateReminderSettings tr metadata now payload r = (x, t)" and "session metadata now r" and "state_view metadata r = Some s"
    and "settings_inv s" and "md_locale metadata \<in> {None, Some ''en'', Some ''es''}"
  shows "session metadata now t \<and> (case validateReminderSettings tr payload of
      Inl e \<Rightarrow> x = Inl e \<and> state_view metadata t = Some s
    | Inr _ \<Rightarrow> (let new = merge_reminders metadata (nullish (ds_reminder_settings s) (defaultReminderSettings metadata)) payload in
        x = Inr new \<and> state_view metadata t = Some (s\<lparr>ds_reminder_settings := Some new\<rparr>)))"
proof (cases "validateReminderSettings tr payload")
  case (Inl e)
  with assms(1-3) show ?thesis by (simp add: updateReminderSettings_def)
next
  case (Inr y)
  let ?new = "merge_reminders metadata (nullish (ds_reminder_settings s) (defaultReminderSettings metadata)) payload"
  obtain u where run: "abind (set_updateState now (\<lambda>existing. existing\<lparr>ds_reminder_settings := Some ?new\<rparr>))
      (\<lambda>state. areturn (nullish (ds_reminder_settings state) ?new)) u = (x, t)" "session metadata now u" "state_view metadata u = Some s"
    using sets.query_then [OF assms(1) [unfolded updateReminderSettings_def Inr abind_simps loadReminderSettings_def Let_def] assms(2,3) refl] by blast
  have "settings_change metadata s (s\<lparr>ds_reminder_settings := Some ?new\<rparr>)"
    using settings_reminders [of tr payload] Inr by simp
  from settings_update_run [OF run this assms(4,5)] Inr show ?thesis by (simp add: Let_def)
qed

lemma updateTenantSettings_result:
  assumes "updateTenantSettings tr valid_tz catalog metadata now payload r = (x, t)" and "session metadata now r" and "state_view metadata r = Some s"
    and "settings_inv s" and "md_locale metadata \<in> {None, Some ''en'', Some ''es''}"
  shows "session metadata now t \<and> (case validateTenantSettings tr valid_tz catalog payload of
      Inl e \<Rightarrow> x = Inl e \<and> state_view metadata t = Some s
    | Inr n \<Rightarrow> (let new = merge_tenant metadata (nullish (ds_tenant_settings s) (defaultTenantSettings metadata)) n in
        x = Inr new \<and> state_view metadata t = Some (tenant_updater new s)))"
proof (cases "validateTenantSettings tr valid_tz catalog payload")
  case (Inl e)
  with assms(1-3) show ?thesis by (simp add: updateTenantSettings_def)
next
  case (Inr n)
  let ?new = "merge_tenant metadata (nullish (ds_tenant_settings s) (defaultTenantSettings metadata)) n"
  obtain u where run: "abind (set_updateState now (tenant_updater ?new))
      (\<lambda>state. areturn (nullish (ds_tenant_settings state) ?new)) u = (x, t)" "session metadata now u" "state_view metadata u = Some s"
    using sets.query_then [OF assms(1) [unfolded updateTenantSettings_def Inr abind_simps loadTenantSettings_def Let_def] assms(2,3) refl] by blast
  have "settings_change metadata s (tenant_updater ?new s)"
    by (rule settings_tenant [OF Inr])
  from settings_update_run [OF run this assms(4,5)] Inr show ?thesis by (simp add: Let_def tenant_updater_def)
qed

lemma createAccessBlock_result:
  assumes "createAccessBlock metadata now phone r = (x, t)" and "session metadata now r" and "state_view metadata r = Some s"
    and "settings_inv s" and "md_locale metadata \<in> {None, Some ''en'', Some ''es''}"
  shows "session metadata now t \<and> (if trim phone = [] then x = Inl (PlainError ''phone_required'') \<and> state_view metadata t = Some s
    else (case block_check metadata now (trim phone) s of
      Inl e \<Rightarrow> x = Inl e \<and> state_view metadata t = Some s
    | Inr b \<Rightarrow> x = Inr (access_block metadata b) \<and> state_view metadata t = Some (add_block b s)))"
proof (cases "trim phone = []")
  case True
  with assms(1-3) show ?thesis by (simp add: createAccessBlock_def Let_def)
next
  case False
  obtain y u where run: "transact (set_requireState metadata now) (set_updateState now)
      (block_check metadata now (trim phone)) add_block r = (y, u)" by fastforce
  have "state_ok (md_plan metadata) (add_block b s)" if "block_check metadata now (trim phone) s = Inr b" for b
    by (rule settings_change_ok [OF settings_block [OF False that] assms(4,5) view_state_ok [OF assms(3)]])
  from sets.transact_result [OF run assms(2,3) this] run assms(1) False show ?thesis
    by (cases y) (auto simp: createAccessBlock_def Let_def abind_def areturn_def throw_if_def alift_def split: sum.splits)
qed

lemma settings_step_refines:
  assumes "settings_step metadata r t" and "session metadata now0 r" and "state_view metadata r = Some s"
    and "settings_inv s" and "md_locale metadata \<in> {None, Some ''en'', Some ''es''}"
  shows "\<exists>s'. settings_change metadata s s' \<and> session metadata now0 t \<and> state_view metadata t = Some s'"
proof -
  have ses: "\<bar>now\<bar> \<le> max_time \<Longrightarrow> session metadata now r" for now
    using assms(2) by (rule session_now)
  have same: "session metadata now t \<Longrightarrow> session metadata now0 t" for now
    using assms(2) by (simp add: session_def)
  note rules = settings_same same
  from assms(1) show ?thesis
  proof cases
    case (1 now x1)
    from sets.query_result [OF 1(1) [unfolded loadProfile_def] ses [OF 1(2)] assms(3)] show ?thesis by (blast intro: rules)
  next
    case (2 now profile x1)
    from settings_update_run [OF 2(1) [unfolded updateProfile_def] ses [OF 2(2)] assms(3) settings_profile assms(4,5)] show ?thesis
      by (blast intro: settings_profile same)
  next
    case (3 now x2)
    from sets.query_result [OF 3(1) [unfolded loadReminderSettings_def] ses [OF 3(2)] assms(3)] show ?thesis by (blast intro: rules)
  next
    case (4 tr now reminders x2)
    from updateReminderSettings_result [OF 4(1) ses [OF 4(2)] assms(3-5)] show ?thesis
      by (cases "validateReminderSettings tr reminders") (auto simp: Let_def intro: rules settings_reminders)
  next
    case (5 now x3)
    from sets.query_result [OF 5(1) [unfolded loadTenantSettings_def] ses [OF 5(2)] assms(3)] show ?thesis by (blast intro: rules)
  next
    case (6 tr valid_tz catalog now tenant x3)
    from updateTenantSettings_result [OF 6(1) ses [OF 6(2)] assms(3-5)] show ?thesis
      by (cases "validateTenantSettings tr valid_tz catalog tenant") (auto simp: Let_def intro: rules settings_tenant)
  next
    case (7 now x4)
    from sets.query_result [OF 7(1) [unfolded loadCodeServices_def] ses [OF 7(2)] assms(3)] show ?thesis by (blast intro: rules)
  next
    case (8 now keys x4)
    from settings_update_run [OF 8(1) [unfolded updateCodeServices_def] ses [OF 8(2)] assms(3) settings_codes assms(4,5)] show ?thesis
      by (blast intro: settings_codes same)
  next
    case (9 now x5)
    from sets.query_result [OF 9(1) [unfolded listAccessBlocks_def] ses [OF 9(2)] assms(3)] show ?thesis by (blast intro: rules)
  next
    case (10 now phone x6)
    from createAccessBlock_result [OF 10(1) ses [OF 10(2)] assms(3-5)] show ?thesis
      by (auto split: if_splits sum.splits intro: rules settings_block)
  next
    case (11 now bid x7)
    from settings_update_run [OF 11(1) [unfolded deleteAccessBlock_def] ses [OF 11(2)] assms(3) settings_unblock assms(4,5)] show ?thesis
      by (blast intro: settings_unblock same)
  qed
qed

section \<open>A session on the baseline\<close>

lemma settings_inv_baseline:
  assumes "baseline_state plan metadata = Inr s" and "md_locale metadata \<in> {None, Some ''en'', Some ''es''}"
  shows "settings_inv s"
proof -
  have "trim ''12025550101'' = ''12025550101''" "trim ''12025550102'' = ''12025550102''" by code_simp+
  then have "settings_inv (createStarterState metadata)"
    using assms(2) defaultReminders_ok [of metadata]
    by (auto simp: settings_inv_def createStarterState_def Let_def reminders_ok_def defaultReminderSettings_def
        uniq_by_def same_block_def)
  then show ?thesis
    using assms(1) by (auto simp: baseline_state_def Let_def ebind_eq_Inr settings_inv_def split: if_splits option.splits)
qed

section \<open>Properties\<close>

text \<open>
  C30. The settings stay valid: along every sequence of settings operations the locale is English
  or Spanish and the same in the profile and in the tenant settings, the reminder time is a time of day
  and the recipient mode a known one, blocked phone numbers are not blank and none is blocked under two identifiers;
  and the Pro collections are never touched.
\<close>

theorem settings_stay_valid:
  assumes "(settings_step metadata)\<^sup>*\<^sup>* r t" and "session metadata now r" and "state_view metadata r = Some s"
    and "settings_inv s" and "md_locale metadata \<in> {None, Some ''en'', Some ''es''}"
  shows "\<exists>s'. session metadata now t \<and> state_view metadata t = Some s' \<and> settings_inv s' \<and> ds_pro s' = ds_pro s"
  using assms
proof (induction rule: rtranclp_induct)
  case (step y z)
  then obtain q where q: "session metadata now y" "state_view metadata y = Some q" "settings_inv q" "ds_pro q = ds_pro s" by blast
  from settings_step_refines [OF step(2) q(1-3) assms(5)] settings_inv_change [OF _ q(3) assms(5)] settings_change_pro q(4)
  show ?case by metis
qed blast

theorem settings_stay_valid_witness:
  "\<exists>r t s. settings_step sample_metadata r t \<and> state_view sample_metadata t = Some s \<and> settings_inv s"
proof -
  have l: "md_locale sample_metadata \<in> {None, Some ''en'', Some ''es''}" by (simp add: sample_metadata_def)
  obtain r s where r: "session sample_metadata 0 r" "baseline_state Pro sample_metadata = Inr s" "state_view sample_metadata r = Some s"
    using sample_state by blast
  obtain x t where run: "createAccessBlock sample_metadata 0 ''12025550199'' r = (x, t)" by fastforce
  then have step: "settings_step sample_metadata r t"
    by (rule settings_step.intros(10)) (simp add: max_time_def)
  from settings_stay_valid [OF r_into_rtranclp [where r = "settings_step sample_metadata", OF step] r(1,3) settings_inv_baseline [OF r(2) l] l] step
  show ?thesis by blast
qed

text \<open>
  Tenant settings round trip: an accepted update returns the merged settings, the next load of the tenant settings
  returns the same, and the next load of the profile shows their locale and time zone; a
  refused update changes nothing.
\<close>

theorem tenant_settings_read_back:
  assumes "session metadata now r" and "state_view metadata r = Some s" and "settings_inv s"
    and "md_locale metadata \<in> {None, Some ''en'', Some ''es''}"
    and "updateTenantSettings tr valid_tz catalog metadata now payload r = (x, t)" and "\<bar>now'\<bar> \<le> max_time"
  shows "case x of
      Inl e \<Rightarrow> validateTenantSettings tr valid_tz catalog payload = Inl e \<and> state_view metadata t = Some s
    | Inr settings \<Rightarrow> (\<exists>n. validateTenantSettings tr valid_tz catalog payload = Inr n \<and>
        settings = merge_tenant metadata (nullish (ds_tenant_settings s) (defaultTenantSettings metadata)) n) \<and>
        fst (loadTenantSettings metadata now' t) = Inr settings \<and>
        (\<exists>p. fst (loadProfile metadata now' t) = Inr p \<and> pr_locale p = Some (ts_locale settings) \<and>
          pr_timezone p = Some (nullish (ts_timezone settings) ''UTC''))"
proof (cases "validateTenantSettings tr valid_tz catalog payload")
  case (Inl e)
  with updateTenantSettings_result [OF assms(5,1-4)] show ?thesis by simp
next
  case (Inr n)
  let ?new = "merge_tenant metadata (nullish (ds_tenant_settings s) (defaultTenantSettings metadata)) n"
  have x: "x = Inr ?new" and t: "session metadata now t" "state_view metadata t = Some (tenant_updater ?new s)"
    using updateTenantSettings_result [OF assms(5,1-4)] Inr by (simp_all add: Let_def)
  note t' = session_now [OF t(1) assms(6)] t(2)
  have "fst (loadTenantSettings metadata now' t) = Inr ?new"
    using sets.query_refines [OF t', of "\<lambda>state. Inr (nullish (ds_tenant_settings state) (defaultTenantSettings metadata))"]
    by (auto simp: loadTenantSettings_def tenant_updater_def)
  moreover have "fst (loadProfile metadata now' t) = Inr (demoProfile metadata (tenant_updater ?new s))"
    using sets.query_refines [OF t', of "\<lambda>state. Inr (demoProfile metadata state)"] by (auto simp: loadProfile_def)
  ultimately show ?thesis
    using x Inr by (simp add: demoProfile_def tenant_updater_def)
qed

theorem tenant_settings_read_back_witness:
  "\<exists>r t settings. updateTenantSettings (\<lambda>k. k) (\<lambda>z. True) \<lparr>catalogCountries = [], catalogCurrencies = []\<rparr> sample_metadata 0
       \<lparr>tu_locale = Some '' ES '', tu_timezone = None, tu_country = None, tu_currency = None\<rparr> r = (Inr settings, t) \<and>
     fst (loadTenantSettings sample_metadata 0 t) = Inr settings"
proof -
  let ?cat = "\<lparr>catalogCountries = [], catalogCurrencies = []\<rparr>" and ?pay = "\<lparr>tu_locale = Some '' ES '', tu_timezone = None, tu_country = None, tu_currency = None\<rparr>"
  have l: "md_locale sample_metadata \<in> {None, Some ''en'', Some ''es''}" by (simp add: sample_metadata_def)
  obtain r s where r: "session sample_metadata 0 r" "baseline_state Pro sample_metadata = Inr s" "state_view sample_metadata r = Some s"
    using sample_state by blast
  obtain x t where run: "updateTenantSettings (\<lambda>k. k) (\<lambda>z. True) ?cat sample_metadata 0 ?pay r = (x, t)" by fastforce
  have "toLowerCase (trim '' ES '') = ''es''" by code_simp
  then have v: "\<exists>n. validateTenantSettings (\<lambda>k. k) (\<lambda>z. True) ?cat ?pay = Inr n"
    by (simp add: validateTenantSettings_def Let_def)
  have "\<bar>0\<bar> \<le> max_time" by (simp add: max_time_def)
  from tenant_settings_read_back [OF r(1,3) settings_inv_baseline [OF r(2) l] l run this] v run show ?thesis
    by (cases x) auto
qed

end
