(* ===== verification/DemoSession.thy ===== *)
theory DemoSession
  imports DemoSubscriptions DemoSettings
begin

text \<open>
  The demo as a whole: the four data services share one workspace. A session is a sequence of calls
  of any of their operations; the results here compose the invariants of the services and start them
  from the baseline.
\<close>

section \<open>The shared state\<close>

definition pro_inv :: "ProLists \<Rightarrow> bool" where
  "pro_inv p \<longleftrightarrow> refs_ok p \<and> plan_ids_ok p \<and> clients_inv p \<and> catalog_inv p \<and> subs_inv p"

definition demo_inv :: "DemoWorkspaceState \<Rightarrow> bool" where
  "demo_inv s \<longleftrightarrow> settings_inv s \<and> (\<exists>p. ds_pro s = Some p \<and> pro_inv p)"

text \<open>
  A call of a service. Identifiers of new plans are made from the clock: the calls considered are those whose new
  plan does not get the identifier of a plan of another service (two creations within one millisecond).
\<close>

inductive demo_step :: "DemoAuthMetadata \<Rightarrow> DemoWorkspaceRepository \<Rightarrow> DemoWorkspaceRepository \<Rightarrow> bool" for metadata where
  demo_client: "client_step metadata r t \<Longrightarrow> demo_step metadata r t"
| demo_catalog: "catalog_step metadata r t \<Longrightarrow>
    (\<And>p p'. pro_view metadata r = Some p \<Longrightarrow> pro_view metadata t = Some p' \<Longrightarrow> new_plans_fresh p p') \<Longrightarrow> demo_step metadata r t"
| demo_subscription: "sub_step metadata True r t \<Longrightarrow> demo_step metadata r t"
| demo_settings: "settings_step metadata r t \<Longrightarrow> demo_step metadata r t"

section \<open>Services leave each other's data in order\<close>

lemma pro_inv_client: "client_change p p' \<Longrightarrow> pro_inv p \<Longrightarrow> pro_inv p'"
  using client_change_others [of p p'] refs_ok_change [of p p'] clients_inv_change [of p p']
  by (auto simp: pro_inv_def plan_ids_ok_def catalog_inv_def subs_inv_def list_all_iff)

lemma catalog_change_others:
  "catalog_change p p' \<Longrightarrow> clients p' = clients p \<and> set (subscriptions p') \<subseteq> set (subscriptions p)"
  by (induction rule: catalog_change.induct) auto

lemma pro_inv_catalog: "catalog_change p p' \<Longrightarrow> new_plans_fresh p p' \<Longrightarrow> pro_inv p \<Longrightarrow> pro_inv p'"
  using catalog_change_others [of p p'] catalog_inv_change [of p p'] catalog_refs_change [of p p']
  by (auto simp: pro_inv_def clients_inv_def subs_inv_def list_all_iff)

lemma sub_change_others: "sub_change b p p' \<Longrightarrow> clients p' = clients p \<and> services p' = services p \<and> plans p' = plans p"
  by (induction rule: sub_change.induct) auto

lemma pro_inv_subscription: "sub_change b p p' \<Longrightarrow> pro_inv p \<Longrightarrow> pro_inv p'"
  using sub_change_others [of b p p'] subs_inv_change [of b p p'] sub_refs_change [of b p p']
  by (auto simp: pro_inv_def clients_inv_def catalog_inv_def plan_ids_ok_def)

text \<open>What a Pro step does to the whole state.\<close>

lemma settings_inv_rest: "s'\<lparr>ds_pro := None\<rparr> = s\<lparr>ds_pro := None\<rparr> \<Longrightarrow> settings_inv s' = settings_inv s"
  by (cases s; cases s') (simp add: settings_inv_def)

lemma pro_step_state:
  assumes "session_at (rest_view metadata r) metadata now t" and "pro_view metadata t = Some p'" and "pro_inv p'"
    and "state_view metadata r = Some s" and "settings_inv s"
  shows "\<exists>s'. session metadata now t \<and> state_view metadata t = Some s' \<and> demo_inv s'"
proof -
  obtain s' where s': "state_view metadata t = Some s'" "ds_pro s' = Some p'"
    using assms(2) by (auto simp: pro_view_iff)
  then have "s'\<lparr>ds_pro := None\<rparr> = s\<lparr>ds_pro := None\<rparr>"
    using assms(1,4) by (simp add: session_at_def rest_view_def)
  then have "settings_inv s'" using assms(5) settings_inv_rest by blast
  with s' assms(1,3) show ?thesis by (auto simp: demo_inv_def session_at_def)
qed

lemma demo_step_keeps:
  assumes "demo_step metadata r t" and "session metadata now r" and "state_view metadata r = Some s" and "demo_inv s"
    and "md_locale metadata \<in> {None, Some ''en'', Some ''es''}"
  shows "\<exists>s'. session metadata now t \<and> state_view metadata t = Some s' \<and> demo_inv s'"
proof -
  obtain p where p: "ds_pro s = Some p" "pro_inv p" and set: "settings_inv s" using assms(4) by (auto simp: demo_inv_def)
  have at: "session_at (rest_view metadata r) metadata now r" and view: "pro_view metadata r = Some p"
    using assms(2,3) p(1) by (simp_all add: session_at_def pro_view_def)
  from assms(1) show ?thesis
  proof cases
    case demo_client
    from client_step_refines [OF demo_client at view] pro_inv_client p(2) obtain p' where
      "session_at (rest_view metadata r) metadata now t" "pro_view metadata t = Some p'" "pro_inv p'" by blast
    then show ?thesis using assms(3) set by (rule pro_step_state)
  next
    case demo_catalog
    from catalog_step_refines [OF demo_catalog(1) at view] obtain p' where p': "catalog_change p p'"
      "session_at (rest_view metadata r) metadata now t" "pro_view metadata t = Some p'" by blast
    then have "pro_inv p'" using demo_catalog(2) [OF view] p(2) pro_inv_catalog by blast
    with p'(2,3) show ?thesis using assms(3) set by (rule pro_step_state)
  next
    case demo_subscription
    from sub_step_refines [OF demo_subscription at view] pro_inv_subscription p(2) obtain p' where
      "session_at (rest_view metadata r) metadata now t" "pro_view metadata t = Some p'" "pro_inv p'" by blast
    then show ?thesis using assms(3) set by (rule pro_step_state)
  next
    case demo_settings
    from settings_step_refines [OF demo_settings assms(2,3) set assms(5)] obtain s' where s': "settings_change metadata s s'"
      "session metadata now t" "state_view metadata t = Some s'" by blast
    then show ?thesis
      using settings_inv_change [OF s'(1) set assms(5)] settings_change_pro [OF s'(1)] p by (auto simp: demo_inv_def)
  qed
qed

lemma pro_step_result:
  assumes "session_at (rest_view metadata r) metadata now t" and "pro_view metadata t = Some p'"
    and "state_view metadata r = Some s"
  shows "state_view metadata t = Some (s\<lparr>ds_pro := Some p'\<rparr>)"
proof -
  obtain s' where s': "state_view metadata t = Some s'" "ds_pro s' = Some p'"
    using assms(2) by (auto simp: pro_view_iff)
  then have "s'\<lparr>ds_pro := None\<rparr> = s\<lparr>ds_pro := None\<rparr>"
    using assms(1,3) by (simp add: session_at_def rest_view_def)
  with s' show ?thesis by (cases s; cases s') simp
qed

section \<open>Calls with new identifiers\<close>

text \<open>Any call of a service, and the state in which, besides, no two rows of a collection have one identifier.\<close>

inductive demo_call :: "DemoAuthMetadata \<Rightarrow> DemoWorkspaceRepository \<Rightarrow> DemoWorkspaceRepository \<Rightarrow> bool" for metadata where
  call_client: "client_step metadata r t \<Longrightarrow> demo_call metadata r t"
| call_catalog: "catalog_step metadata r t \<Longrightarrow> demo_call metadata r t"
| call_subscription: "sub_step metadata True r t \<Longrightarrow> demo_call metadata r t"
| call_settings: "settings_step metadata r t \<Longrightarrow> demo_call metadata r t"

definition demo_ok :: "DemoWorkspaceState \<Rightarrow> bool" where
  "demo_ok s \<longleftrightarrow> demo_inv s \<and> (\<exists>p. ds_pro s = Some p \<and> ids_distinct p)"

lemma fresh_if_fewer: "set (plans p') \<subseteq> set (plans p) \<Longrightarrow> new_plans_fresh p p'"
  by (auto simp: new_plans_fresh_def)

lemma fresh_replaced:
  assumes "update_plan_check now sid pid alter p = Inr q" and "catalog_inv p"
  shows "new_plans_fresh p (replace_plan pid q p)"
proof -
  have w: "\<forall>r \<in> set (plans p). plan_wf r" using assms(2) by (simp add: catalog_inv_def list_all_iff)
  note q = update_plan_ok(1-3) [OF assms(1) w]
  have "pl_service_id q \<in> pl_service_id ` {r \<in> set (plans p). pl_id r = pl_id q}" using q by (auto simp: image_iff)
  then show ?thesis by (auto simp: new_plans_fresh_def dest!: in_set_replace_byD)
qed

lemma fresh_rows_plans:
  assumes "catalog_change p p'" and "fresh_rows p p'" and "catalog_inv p"
  shows "new_plans_fresh p p'"
  using assms
proof (induction rule: catalog_change.induct)
  case (add_plan load parts metadata now sid p q)
  then show ?case by (auto simp: fresh_rows_def new_plans_fresh_def)
next
  case (update_plan now sid pid alter p q)
  then show ?case by (blast intro: fresh_replaced)
qed (auto intro!: fresh_if_fewer)

lemma ids_distinct_client: "client_change p p' \<Longrightarrow> fresh_rows p p' \<Longrightarrow> clients_inv p \<Longrightarrow> ids_distinct p \<Longrightarrow> ids_distinct p'"
proof -
  assume change: "client_change p p'" and fresh: "fresh_rows p p'" "clients_inv p" "ids_distinct p"
  have "distinct (map su_id (subscriptions p'))"
    using change fresh(3) by (induction rule: client_change.induct) (simp_all add: ids_distinct_def delete_client_def distinct_remove_by remove_by_def distinct_map_filter)
  moreover have "clients_ok p'" using clients_ok_change [OF change fresh(1)] fresh(2,3) by (simp add: clients_ok_iff ids_distinct_def)
  ultimately show "ids_distinct p'"
    using client_change_others [OF change] fresh(3) by (simp add: ids_distinct_def clients_ok_iff)
qed

lemma ids_distinct_catalog: "catalog_change p p' \<Longrightarrow> fresh_rows p p' \<Longrightarrow> catalog_inv p \<Longrightarrow> ids_distinct p \<Longrightarrow> ids_distinct p'"
proof -
  assume change: "catalog_change p p'" and fresh: "fresh_rows p p'" "catalog_inv p" "ids_distinct p"
  have "distinct (map su_id (subscriptions p'))"
    using change fresh(3) by (induction rule: catalog_change.induct) (simp_all add: ids_distinct_def remove_by_def distinct_map_filter)
  moreover have "catalog_ok p'" using catalog_ok_change [OF change fresh(1)] fresh(2,3) by (simp add: catalog_ok_iff ids_distinct_def)
  ultimately show "ids_distinct p'"
    using catalog_change_others [OF change] fresh(3) by (simp add: ids_distinct_def catalog_ok_iff)
qed

lemma ids_distinct_subscription: "sub_change b p p' \<Longrightarrow> fresh_rows p p' \<Longrightarrow> subs_inv p \<Longrightarrow> ids_distinct p \<Longrightarrow> ids_distinct p'"
  using sub_change_others [of b p p'] sub_ids_change [of b p p'] by (simp add: ids_distinct_def)

lemma pro_call_state:
  assumes "session_at (rest_view metadata r) metadata now t" and "pro_view metadata t = Some p'" and "pro_inv p'" and "ids_distinct p'"
    and "state_view metadata r = Some s" and "settings_inv s"
  shows "\<exists>s'. session metadata now t \<and> state_view metadata t = Some s' \<and> demo_ok s'"
proof -
  obtain s' where "session metadata now t" "state_view metadata t = Some s'" "demo_inv s'"
    using pro_step_state [OF assms(1-3,5,6)] by blast
  with assms(2,4) show ?thesis by (auto simp: demo_ok_def pro_view_def)
qed

lemma demo_call_keeps:
  assumes "with_fresh_ids metadata (demo_call metadata) r t" and "session metadata now r" and "state_view metadata r = Some s" and "demo_ok s"
    and "md_locale metadata \<in> {None, Some ''en'', Some ''es''}"
  shows "\<exists>s'. session metadata now t \<and> state_view metadata t = Some s' \<and> demo_ok s'"
proof -
  obtain p where p: "ds_pro s = Some p" "pro_inv p" "ids_distinct p" and set: "settings_inv s"
    using assms(4) by (auto simp: demo_ok_def demo_inv_def)
  have inv: "clients_inv p" "catalog_inv p" "subs_inv p" using p(2) by (simp_all add: pro_inv_def)
  have at: "session_at (rest_view metadata r) metadata now r" and view: "pro_view metadata r = Some p"
    using assms(2,3) p(1) by (simp_all add: session_at_def pro_view_def)
  have fresh: "fresh_rows p p'" if "pro_view metadata t = Some p'" for p'
    using assms(1) view that by (simp add: with_fresh_ids_def)
  from assms(1) have "demo_call metadata r t" by (simp add: with_fresh_ids_def)
  then show ?thesis
  proof cases
    case call_client
    from client_step_refines [OF call_client at view] obtain p' where p': "client_change p p'"
      "session_at (rest_view metadata r) metadata now t" "pro_view metadata t = Some p'" by blast
    from p'(2,3) pro_inv_client [OF p'(1) p(2)] ids_distinct_client [OF p'(1) fresh [OF p'(3)] inv(1) p(3)] assms(3) set
    show ?thesis by (rule pro_call_state)
  next
    case call_catalog
    from catalog_step_refines [OF call_catalog at view] obtain p' where p': "catalog_change p p'"
      "session_at (rest_view metadata r) metadata now t" "pro_view metadata t = Some p'" by blast
    note rows = fresh [OF p'(3)]
    from p'(2,3) pro_inv_catalog [OF p'(1) fresh_rows_plans [OF p'(1) rows inv(2)] p(2)]
      ids_distinct_catalog [OF p'(1) rows inv(2) p(3)] assms(3) set
    show ?thesis by (rule pro_call_state)
  next
    case call_subscription
    from sub_step_refines [OF call_subscription at view] obtain p' where p': "sub_change True p p'"
      "session_at (rest_view metadata r) metadata now t" "pro_view metadata t = Some p'" by blast
    from p'(2,3) pro_inv_subscription [OF p'(1) p(2)] ids_distinct_subscription [OF p'(1) fresh [OF p'(3)] inv(3) p(3)] assms(3) set
    show ?thesis by (rule pro_call_state)
  next
    case call_settings
    from settings_step_refines [OF call_settings assms(2,3) set assms(5)] obtain s' where s': "settings_change metadata s s'"
      "session metadata now t" "state_view metadata t = Some s'" by blast
    then show ?thesis
      using settings_inv_change [OF s'(1) set assms(5)] settings_change_pro [OF s'(1)] p by (auto simp: demo_ok_def demo_inv_def)
  qed
qed

lemma demo_inv_baseline:
  assumes "baseline_state Pro metadata = Inr s" and "metadata_ok metadata" and "md_plan metadata = Pro"
  shows "demo_inv s"
proof -
  have dates: "baseline_dates metadata" and l: "md_locale metadata \<in> {None, Some ''en'', Some ''es''}"
    using assms(2,3) by (auto simp: metadata_ok_def)
  have "pro_inv (baseline_lists metadata)"
    by (simp add: pro_inv_def baseline_refs_ok plan_ids_baseline clients_inv_baseline catalog_inv_baseline subs_inv_baseline dates)
  moreover have "ds_pro s = Some (baseline_lists metadata)"
    using baseline_state_works [OF dates] assms(1) by (metis Inr_inject TenantPlan.distinct(1))
  ultimately show ?thesis using settings_inv_baseline [OF assms(1) l] by (simp add: demo_inv_def)
qed

lemma demo_ok_baseline:
  assumes "baseline_state Pro metadata = Inr s" and "metadata_ok metadata" and "md_plan metadata = Pro"
  shows "demo_ok s"
proof -
  have dates: "baseline_dates metadata" using assms(2,3) by (auto simp: metadata_ok_def)
  have "ds_pro s = Some (baseline_lists metadata)"
    using baseline_state_works [OF dates] assms(1) by (metis Inr_inject TenantPlan.distinct(1))
  then show ?thesis using demo_inv_baseline [OF assms] baseline_ids_distinct by (simp add: demo_ok_def)
qed

section \<open>Properties\<close>

text \<open>
  C32. The demo stays consistent. Run any sequence of calls of the four services in which each created client, service, plan or
  subscription gets an identifier that none of its kind has (the code makes it from the millisecond). Then the workspace keeps its
  references, identifiers without repetition, well-formed clients with distinct user names and phone numbers, valid names, icons and
  prices with no name twice up to case among the services or the plans of one service, valid subscriptions, and valid
  settings. Not part of it: renewals can leave two active subscriptions of one client, service and address
  (\<open>renew_can_duplicate\<close>).
\<close>

theorem demo_stays_consistent:
  assumes "(with_fresh_ids metadata (demo_call metadata))\<^sup>*\<^sup>* r t" and "session metadata now r" and "state_view metadata r = Some s"
    and "demo_ok s" and "md_locale metadata \<in> {None, Some ''en'', Some ''es''}"
  shows "\<exists>s' p'. session metadata now t \<and> state_view metadata t = Some s' \<and> settings_inv s' \<and> ds_pro s' = Some p' \<and>
    refs_ok p' \<and> ids_distinct p' \<and> clients_ok p' \<and> catalog_ok p' \<and> subs_inv p'"
proof -
  have "\<exists>s'. session metadata now t \<and> state_view metadata t = Some s' \<and> demo_ok s'"
    using assms(1-4)
  proof (induction rule: rtranclp_induct)
    case (step y z)
    then show ?case using demo_call_keeps [OF step(2) _ _ _ assms(5)] by blast
  qed blast
  then show ?thesis
    by (auto simp: demo_ok_def demo_inv_def pro_inv_def clients_ok_iff catalog_ok_iff ids_distinct_def)
qed

theorem demo_stays_consistent_witness:
  "\<exists>r x t s p. sub_create sample_metadata 0 sample_payload r = (Inr x, t) \<and> state_view sample_metadata t = Some s \<and>
     ds_pro s = Some p \<and> refs_ok p \<and> ids_distinct p \<and> subs_inv p"
proof -
  have m: "metadata_ok sample_metadata" unfolding metadata_ok_def by code_simp
  have pro: "md_plan sample_metadata = Pro" and l: "md_locale sample_metadata \<in> {None, Some ''en'', Some ''es''}"
    by (simp_all add: sample_metadata_def)
  obtain r s where r: "session sample_metadata 0 r" "baseline_state Pro sample_metadata = Inr s" "state_view sample_metadata r = Some s"
    using sample_state by blast
  have ok: "demo_ok s" by (rule demo_ok_baseline [OF r(2) m pro])
  have p: "ds_pro s = Some (baseline_lists sample_metadata)"
    using baseline_state_works [OF sample_dates] r(2) by (metis Inr_inject TenantPlan.distinct(1))
  have at: "session_at (rest_view sample_metadata r) sample_metadata 0 r" "pro_view sample_metadata r = Some (baseline_lists sample_metadata)"
    using r p by (simp_all add: session_at_def pro_view_def)
  obtain v where v: "sub_create_check sample_metadata 0 sample_payload (baseline_lists sample_metadata) = Inr v"
    using sample_create by blast
  obtain y t where run: "sub_create sample_metadata 0 sample_payload r = (y, t)" by fastforce
  then have "sub_step sample_metadata True r t"
    by (rule sub_step.intros(3)) (simp add: max_time_def)
  then have step: "demo_call sample_metadata r t" by (rule call_subscription)
  from sub_transact_result [OF run [unfolded sub_create_def] at] v have y: "y = Inr (publicSubscription v)"
    and t: "pro_view sample_metadata t = Some (add_subscription v (baseline_lists sample_metadata))" by simp_all
  have "with_fresh_ids sample_metadata (demo_call sample_metadata) r t"
    using step t at(2) sample_new_id [OF v] by (simp add: with_fresh_ids_def fresh_rows_def)
  from demo_stays_consistent [OF r_into_rtranclp [where r = "with_fresh_ids sample_metadata (demo_call sample_metadata)", OF this] r(1,3) ok l]
    run [unfolded y]
  show ?thesis by blast
qed

text \<open>
  C33. A fresh demo is consistent: without a stored workspace, on a working storage and with metadata of a
  running Pro demo, the first call creates the baseline, returns its clients, and leaves a workspace with every
  invariant of the services.
\<close>

theorem fresh_demo_consistent:
  assumes "session metadata now r" and "metadata_ok metadata" and "md_plan metadata = Pro" and "item r (repo_key r) = None"
    and "\<not> time_le (parse_js_date (Some (timestampOrNull (md_expiresAt metadata)))) (Date_parse (md_serverTime metadata))"
  shows "\<exists>t s. client_list metadata now r = (Inr (clients (baseline_lists metadata)), t) \<and> session metadata now t \<and>
    state_view metadata t = Some s \<and> demo_inv s"
proof -
  obtain t s where t: "require_pro (DemoClientError ''client_update_failed'' ''invalid_demo_workspace'') metadata now r = (Inr (baseline_lists metadata), t)"
    "session metadata now t" "baseline_state Pro metadata = Inr s" "state_view metadata t = Some s"
    using require_fresh [OF assms] by blast
  then have "client_list metadata now r = (Inr (clients (baseline_lists metadata)), t)"
    by (simp add: client_list_def query_def client_requireState_def abind_def alift_def)
  with t demo_inv_baseline [OF t(3) assms(2,3)] show ?thesis by blast
qed

theorem fresh_demo_consistent_witness:
  "\<exists>t s. client_list sample_metadata 0 sample_repo = (Inr (clients (baseline_lists sample_metadata)), t) \<and>
     state_view sample_metadata t = Some s \<and> demo_inv s"
proof -
  have "session sample_metadata 0 sample_repo"
    unfolding session_def using sample_repo_ready
    by (simp add: sample_repo_def created_repo) (simp add: sample_metadata_def max_time_def)
  moreover have "metadata_ok sample_metadata" unfolding metadata_ok_def by code_simp
  moreover have "md_plan sample_metadata = Pro" by (simp add: sample_metadata_def)
  moreover have "item sample_repo (repo_key sample_repo) = None" by code_simp
  moreover have "\<not> time_le (parse_js_date (Some (timestampOrNull (md_expiresAt sample_metadata)))) (Date_parse (md_serverTime sample_metadata))"
    by code_simp
  ultimately show ?thesis using fresh_demo_consistent by blast
qed

end
