(* ===== verification/ApiRequests.thy ===== *)
theory ApiRequests
  imports DemoSession
begin

text \<open>
  The requests that the production data source sends (\<open>features/admin/services/*-api.ts\<close> and
  \<open>features/help/services/help-api.ts\<close>): method, path and body of every call. A payload is sent as the
  JSON object of its present properties. The reply of the server is data that the wrappers return
  as it is, except that the mailbox call reads status 404 as \<open>null\<close>. Errors are JavaScript values, as the
  HTTP client throws them.
\<close>

datatype http_method = GET | POST | PUT | PATCH | DELETE

datatype api_request = Request http_method string "js option"

abbreviation api_get :: "string \<Rightarrow> api_request" where
  "api_get path \<equiv> Request GET path None"

section \<open>Payloads\<close>

definition client_create_js :: "ClientCreate \<Rightarrow> js" where
  "client_create_js p = JObj ([(''full_name'', JStr (ccr_full_name p)), (''local_username'', JStr (ccr_local_username p))] @
     js_member ''phone'' JStr (ccr_phone p) @ [(''password'', JStr (ccr_password p))])"

definition client_update_js :: "ClientUpdate \<Rightarrow> js" where
  "client_update_js p = JObj (js_member ''full_name'' JStr (cup_full_name p) @
     js_member ''local_username'' JStr (cup_local_username p) @ js_member ''phone'' JStr (cup_phone p))"

definition service_create_js :: "ServiceCreate \<Rightarrow> js" where
  "service_create_js p = JObj ([(''name'', JStr (scr_name p))] @ js_member ''icon'' js_nullable (scr_icon p))"

definition service_update_js :: "ServiceUpdate \<Rightarrow> js" where
  "service_update_js p = JObj (js_member ''name'' JStr (sup_name p) @ js_member ''icon'' js_nullable (sup_icon p))"

definition plan_create_js :: "PlanCreate \<Rightarrow> js" where
  "plan_create_js p = JObj ([(''name'', JStr (pcr_name p))] @ js_member ''price'' js_nullable (pcr_price p))"

definition plan_update_js :: "PlanUpdate \<Rightarrow> js" where
  "plan_update_js p = JObj (js_member ''name'' JStr (pup_name p) @ js_member ''price'' js_nullable (pup_price p))"

definition subscription_create_js :: "SubscriptionCreate \<Rightarrow> js" where
  "subscription_create_js p = JObj ([(''client_id'', JStr (sc_client_id p)), (''service_id'', JStr (sc_service_id p)),
     (''plan_id'', JStr (sc_plan_id p)), (''streaming_email'', JStr (sc_streaming_email p))] @
     js_member ''streaming_password'' JStr (sc_streaming_password p) @ js_member ''profile_name'' JStr (sc_profile_name p) @
     js_member ''profile_pin'' JStr (sc_profile_pin p) @
     [(''duration_type'', JStr (sc_duration_type p)), (''starts_at'', JStr (sc_starts_at p))] @
     js_member ''expires_at'' JStr (sc_expires_at p))"

definition subscription_update_js :: "SubscriptionUpdate \<Rightarrow> js" where
  "subscription_update_js p = JObj (js_member ''client_id'' JStr (sx_client_id p) @ js_member ''service_id'' JStr (sx_service_id p) @
     js_member ''plan_id'' JStr (sx_plan_id p) @ js_member ''streaming_email'' JStr (sx_streaming_email p) @
     js_member ''streaming_password'' JStr (sx_streaming_password p) @ js_member ''profile_name'' JStr (sx_profile_name p) @
     js_member ''profile_pin'' JStr (sx_profile_pin p) @ js_member ''duration_type'' JStr (sx_duration_type p) @
     js_member ''starts_at'' JStr (sx_starts_at p) @ js_member ''expires_at'' JStr (sx_expires_at p))"

definition profile_update_js :: "ProfileUpdate \<Rightarrow> js" where
  "profile_update_js p = JObj (js_member ''full_name'' JStr (pu_full_name p) @ js_member ''email'' JStr (pu_email p) @
     js_member ''phone'' JStr (pu_phone p) @ js_member ''name'' JStr (pu_name p))"

definition tenant_update_js :: "TenantSettingsUpdate \<Rightarrow> js" where
  "tenant_update_js p = JObj (js_member ''locale'' JStr (tu_locale p) @ js_member ''timezone'' JStr (tu_timezone p) @
     js_member ''country'' JStr (tu_country p) @ js_member ''currency'' JStr (tu_currency p))"

definition reminder_update_js :: "ReminderSettingsUpdate \<Rightarrow> js" where
  "reminder_update_js p = JObj (js_member ''warning_days'' (\<lambda>ds. JArr (map JNum ds)) (ru_warning_days p) @
     js_member ''reminder_time'' JStr (ru_reminder_time p) @ js_member ''recipient_mode'' JStr (ru_recipient_mode p) @
     js_member ''reminders_enabled'' JBool (ru_reminders_enabled p) @
     js_member ''custom_message_tenant'' js_nullable (ru_custom_message_tenant p) @
     js_member ''custom_message_client'' js_nullable (ru_custom_message_client p))"

section \<open>Query strings\<close>

text \<open>
  \<open>URLSearchParams.toString()\<close>: letters, digits and \<open>*-._\<close> stand for themselves, a
  space is \<open>+\<close>, everything else is the UTF-8 bytes in percent notation.
\<close>

definition upper_hex :: "nat \<Rightarrow> char" where
  "upper_hex d = (if d < 10 then char_of (48 + d) else char_of (55 + d))"

definition percent :: "nat \<Rightarrow> string" where
  "percent b = CHR ''%'' # [upper_hex (b div 16), upper_hex (b mod 16)]"

definition form_char :: "char \<Rightarrow> string" where
  "form_char c = (if is_digit c \<or> is_lower_az c \<or> is_upper_az c \<or> c \<in> {CHR ''*'', CHR ''-'', CHR ''.'', CHR ''_''} then [c]
     else if c = CHR '' '' then ''+''
     else if code c < 128 then percent (code c)
     else percent (192 + code c div 64) @ percent (128 + code c mod 64))"

definition form_encode :: "(string \<times> string) list \<Rightarrow> string" where
  "form_encode kvs = join ''&'' (map (\<lambda>(k, v). concat (map form_char k) @ ''='' @ concat (map form_char v)) kvs)"

text \<open>\<open>if (v) params.set(k, v)\<close>.\<close>

definition param :: "string \<Rightarrow> string option \<Rightarrow> (string \<times> string) list" where
  "param k v = (if falsy v then [] else [(k, the v)])"

section \<open>Clients\<close>

definition listClients_api :: api_request where
  "listClients_api = api_get ''/clients''"

definition createClient_api :: "ClientCreate \<Rightarrow> api_request" where
  "createClient_api payload = Request POST ''/clients'' (Some (client_create_js payload))"

definition updateClient_api :: "string \<Rightarrow> ClientUpdate \<Rightarrow> api_request" where
  "updateClient_api cid payload = Request PUT (''/clients/'' @ cid) (Some (client_update_js payload))"

definition deactivateClient_api :: "string \<Rightarrow> api_request" where
  "deactivateClient_api cid = Request PATCH (''/clients/'' @ cid @ ''/deactivate'') None"

definition activateClient_api :: "string \<Rightarrow> api_request" where
  "activateClient_api cid = Request PATCH (''/clients/'' @ cid @ ''/activate'') None"

definition deleteClient_api :: "string \<Rightarrow> api_request" where
  "deleteClient_api cid = Request DELETE (''/clients/'' @ cid) None"

section \<open>Catalog\<close>

definition listServices_api :: api_request where
  "listServices_api = api_get ''/catalog/services''"

definition createService_api :: "ServiceCreate \<Rightarrow> api_request" where
  "createService_api payload = Request POST ''/catalog/services'' (Some (service_create_js payload))"

definition updateService_api :: "string \<Rightarrow> ServiceUpdate \<Rightarrow> api_request" where
  "updateService_api sid payload = Request PUT (''/catalog/services/'' @ sid) (Some (service_update_js payload))"

definition getServiceDeletePreview_api :: "string \<Rightarrow> nat \<Rightarrow> nat \<Rightarrow> api_request" where
  "getServiceDeletePreview_api sid page pageSize = api_get (''/catalog/services/'' @ sid @ ''/delete-preview?page='' @
     nat_to_string page @ ''&page_size='' @ nat_to_string pageSize)"

definition bool_text :: "bool \<Rightarrow> string" where
  "bool_text b = (if b then ''true'' else ''false'')"

definition deleteService_api :: "string \<Rightarrow> bool \<Rightarrow> api_request" where
  "deleteService_api sid confirm = Request DELETE (''/catalog/services/'' @ sid @ ''?confirm='' @ bool_text confirm) None"

definition listPlans_api :: "string \<Rightarrow> api_request" where
  "listPlans_api sid = api_get (''/catalog/services/'' @ sid @ ''/plans'')"

definition createPlan_api :: "string \<Rightarrow> PlanCreate \<Rightarrow> api_request" where
  "createPlan_api sid payload = Request POST (''/catalog/services/'' @ sid @ ''/plans'') (Some (plan_create_js payload))"

definition updatePlan_api :: "string \<Rightarrow> string \<Rightarrow> PlanUpdate \<Rightarrow> api_request" where
  "updatePlan_api sid pid payload = Request PUT (''/catalog/services/'' @ sid @ ''/plans/'' @ pid) (Some (plan_update_js payload))"

definition getPlanDeletePreview_api :: "string \<Rightarrow> string \<Rightarrow> nat \<Rightarrow> nat \<Rightarrow> api_request" where
  "getPlanDeletePreview_api sid pid page pageSize = api_get (''/catalog/services/'' @ sid @ ''/plans/'' @ pid @
     ''/delete-preview?page='' @ nat_to_string page @ ''&page_size='' @ nat_to_string pageSize)"

definition deletePlan_api :: "string \<Rightarrow> string \<Rightarrow> bool \<Rightarrow> api_request" where
  "deletePlan_api sid pid confirm = Request DELETE (''/catalog/services/'' @ sid @ ''/plans/'' @ pid @ ''?confirm='' @ bool_text confirm) None"

section \<open>Subscriptions\<close>

definition listSubscriptions_api :: "SubscriptionFilters \<Rightarrow> api_request" where
  "listSubscriptions_api filters =
    (let qs = form_encode (param ''status'' (sf_status filters) @ param ''client_id'' (sf_client_id filters) @
       param ''service_id'' (sf_service_id filters) @ param ''quick_filter'' (sf_quick_filter filters)) in
     api_get (''/subscriptions'' @ (if qs = [] then [] else ''?'' @ qs)))"

definition getSubscription_api :: "string \<Rightarrow> api_request" where
  "getSubscription_api sid = api_get (''/subscriptions/'' @ sid)"

definition createSubscription_api :: "SubscriptionCreate \<Rightarrow> api_request" where
  "createSubscription_api payload = Request POST ''/subscriptions'' (Some (subscription_create_js payload))"

definition updateSubscription_api :: "string \<Rightarrow> SubscriptionUpdate \<Rightarrow> api_request" where
  "updateSubscription_api sid payload = Request PUT (''/subscriptions/'' @ sid) (Some (subscription_update_js payload))"

definition revealCredentials_api :: "string \<Rightarrow> api_request" where
  "revealCredentials_api sid = api_get (''/subscriptions/'' @ sid @ ''/reveal'')"

definition cancelSubscription_api :: "string \<Rightarrow> api_request" where
  "cancelSubscription_api sid = Request POST (''/subscriptions/'' @ sid @ ''/cancel'') None"

definition truthy_member :: "string \<Rightarrow> string option \<Rightarrow> (string \<times> js) list" where
  "truthy_member k v = (if falsy v then [] else [(k, JStr (the v))])"

definition renewSubscription_api :: "string \<Rightarrow> string \<Rightarrow> string option \<Rightarrow> api_request" where
  "renewSubscription_api sid durationType expiresAt = Request POST (''/subscriptions/'' @ sid @ ''/renew'')
     (Some (JObj ([(''duration_type'', JStr durationType)] @ truthy_member ''expires_at'' expiresAt)))"

definition reactivateSubscription_api :: "string \<Rightarrow> string option \<Rightarrow> string option \<Rightarrow> string option \<Rightarrow> api_request" where
  "reactivateSubscription_api sid durationType startsAt expiresAt = Request POST (''/subscriptions/'' @ sid @ ''/reactivate'')
     (Some (JObj ([(''duration_type'', JStr (nullish durationType ''1_month''))] @
       truthy_member ''starts_at'' startsAt @ truthy_member ''expires_at'' expiresAt)))"

section \<open>Settings\<close>

definition getProfile_api :: api_request where
  "getProfile_api = api_get ''/me''"

definition updateProfile_api :: "ProfileUpdate \<Rightarrow> api_request" where
  "updateProfile_api payload = Request PUT ''/me'' (Some (profile_update_js payload))"

definition getReminderSettings_api :: api_request where
  "getReminderSettings_api = api_get ''/subscription-settings''"

definition updateReminderSettings_api :: "ReminderSettingsUpdate \<Rightarrow> api_request" where
  "updateReminderSettings_api payload = Request PUT ''/subscription-settings'' (Some (reminder_update_js payload))"

definition getTenantSettings_api :: api_request where
  "getTenantSettings_api = api_get ''/tenant-settings''"

definition updateTenantSettings_api :: "TenantSettingsUpdate \<Rightarrow> api_request" where
  "updateTenantSettings_api payload = Request PUT ''/tenant-settings'' (Some (tenant_update_js payload))"

definition getTimezones_api :: api_request where
  "getTimezones_api = api_get ''/tenant-settings/timezones''"

definition getCurrencies_api :: api_request where
  "getCurrencies_api = api_get ''/tenant-settings/currencies''"

definition getMailbox_api :: api_request where
  "getMailbox_api = api_get ''/tenant/mailbox/''"

text \<open>\<open>err?.response?.status === n\<close>.\<close>

definition error_status :: "js \<Rightarrow> js option" where
  "error_status err = Option.bind (jget err ''response'') (\<lambda>response. jget response ''status'')"

definition getMailbox_reply :: "js + js \<Rightarrow> js + js" where
  "getMailbox_reply reply = (case reply of Inr data \<Rightarrow> Inr data
     | Inl err \<Rightarrow> if error_status err = Some (JNum 404) then Inr JNull else Inl err)"

definition getPublicApiKey_api :: api_request where
  "getPublicApiKey_api = api_get ''/public-api-key''"

definition savePublicApiKeyOrigins_api :: "string list \<Rightarrow> api_request" where
  "savePublicApiKeyOrigins_api origins = Request PUT ''/public-api-key'' (Some (JObj [(''allowed_origins'', JArr (map JStr origins))]))"

definition regeneratePublicApiKey_api :: api_request where
  "regeneratePublicApiKey_api = Request POST ''/public-api-key/regenerate'' None"

definition revokePublicApiKey_api :: api_request where
  "revokePublicApiKey_api = Request DELETE ''/public-api-key'' None"

definition getTenantCodeServices_api :: api_request where
  "getTenantCodeServices_api = api_get ''/code-services/tenants/current''"

definition updateTenantCodeServices_api :: "string list \<Rightarrow> api_request" where
  "updateTenantCodeServices_api serviceKeys =
     Request PUT ''/code-services/tenants/current'' (Some (JObj [(''service_keys'', JArr (map JStr serviceKeys))]))"

definition listAccessBlocks_api :: api_request where
  "listAccessBlocks_api = api_get ''/access-control/blocks''"

definition createAccessBlock_api :: "string \<Rightarrow> api_request" where
  "createAccessBlock_api phone = Request POST ''/access-control/blocks'' (Some (JObj [(''phone'', JStr phone)]))"

definition deleteAccessBlock_api :: "string \<Rightarrow> api_request" where
  "deleteAccessBlock_api bid = Request DELETE (''/access-control/blocks/'' @ bid) None"

section \<open>Dashboard and orientation\<close>

definition getTenantDashboard_api :: api_request where
  "getTenantDashboard_api = api_get ''/dashboard''"

definition getUnseenHelpTour_api :: api_request where
  "getUnseenHelpTour_api = api_get ''/help/tour''"

definition replayHelpTour_api :: "string option \<Rightarrow> api_request" where
  "replayHelpTour_api releaseId =
     api_get (if falsy releaseId then ''/help/tour/replay'' else ''/help/tour/'' @ the releaseId @ ''/replay'')"

definition acknowledgeHelpTour_api :: "string \<Rightarrow> string \<Rightarrow> api_request" where
  "acknowledgeHelpTour_api releaseId tourStatus =
     Request POST (''/help/tour/'' @ releaseId @ ''/acknowledge'') (Some (JObj [(''status'', JStr tourStatus)]))"

end
