(* ===== verification/DataSource.thy ===== *)
theory DataSource
  imports ApiRequests
begin

text \<open>
  The data source (\<open>lib/data-source.ts\<close>): one adapter for production, whose operations are requests
  to the server, and one for the demo, whose operations run on the workspace. The operations of the
  adapter are the constructors of \<open>data_op\<close>; running one yields the requests it sent and what it did to the
  repository. The replies of the server are a parameter. The main results: in demo mode no data
  operation sends a request (the orientation tour excepted), in production mode none touches a
  workspace, and the two deletion previews of a client agree.
\<close>

section \<open>The adapter\<close>

datatype DataSourceMode = Production | Demo

record DataSourceContext =
  dc_tenantId :: "string option"
  dc_tenantPlan :: "TenantPlan option"
  dc_demo :: "DemoAuthMetadata option"

text \<open>
  The storage inside a held repository is the browser's: an operation starts by attaching the storage as it is then.
\<close>

record DataSourceAdapter =
  ad_mode :: DataSourceMode
  ad_context :: DataSourceContext
  ad_workspace :: "DemoWorkspaceRepository option"

definition defaultStorage :: "Browser \<Rightarrow> StorageLike" where
  "defaultStorage b = nullish (getBrowserStorage b) unavailableStorage"

definition store_back :: "Browser \<Rightarrow> StorageLike \<Rightarrow> Browser" where
  "store_back b st = (case getBrowserStorage b of None \<Rightarrow> b | Some _ \<Rightarrow> Inr (Some st))"

text \<open>
  Creating the demo adapter ensures the workspace; a storage failure is kept in the state of the repository,
  any other error is thrown.
\<close>

definition createDataSource ::
  "DataSourceContext \<Rightarrow> DemoWorkspaceRepository option \<Rightarrow> int \<Rightarrow> Browser \<Rightarrow> (demo_error + DataSourceAdapter) \<times> Browser" where
  "createDataSource context existingWorkspace now b = (case dc_demo context of
     None \<Rightarrow> (Inr \<lparr> ad_mode = Production, ad_context = context, ad_workspace = None \<rparr>, b)
   | Some demo \<Rightarrow>
      (let workspace = (case existingWorkspace of
             Some w \<Rightarrow> w\<lparr>storage := defaultStorage b\<rparr>
           | None \<Rightarrow> createDemoWorkspaceRepository (md_tenantId demo) (defaultStorage b));
           adapter = (\<lambda>w. \<lparr> ad_mode = Demo, ad_context = context, ad_workspace = Some w \<rparr>)
       in (case ensure demo (Some createDemoBaseline) now workspace of
         (Inr _, w) \<Rightarrow> (Inr (adapter w), store_back b (storage w))
       | (Inl (StorageError s), w) \<Rightarrow> (Inr (adapter w), store_back b (storage w))
       | (Inl err, w) \<Rightarrow> (Inl err, store_back b (storage w)))))"

section \<open>The dashboard of the demo\<close>

record TenantDashboardResponse =
  td_message :: string
  td_full_name :: string
  td_tenant_plan :: TenantPlan
  td_mailbox_status :: string
  td_enabled_code_services :: "string list"
  td_access_control_count :: nat
  td_active_clients :: "nat option"
  td_catalog_services :: "nat option"
  td_active_subscriptions :: "nat option"
  td_subscriptions_expiring_soon :: "nat option"
  td_reminders_enabled :: "bool option"

definition DEMO_EXPIRING_WINDOW_DAYS :: int where
  "DEMO_EXPIRING_WINDOW_DAYS = 7"

definition MILLISECONDS_PER_DAY :: int where
  "MILLISECONDS_PER_DAY = 86400000"

text \<open>Comparisons with an invalid date are false.\<close>

definition expires_soon :: "DemoAuthMetadata \<Rightarrow> DemoSubscriptionRelation \<Rightarrow> bool" where
  "expires_soon demo u = (let reference = Date_parse (md_serverTime demo);
       expiringEnd = map_option (\<lambda>t. t + DEMO_EXPIRING_WINDOW_DAYS * MILLISECONDS_PER_DAY) reference;
       expiresAt = Date_parse (su_expires_at u) in
     time_le reference expiresAt \<and> time_le expiresAt expiringEnd)"

definition demo_dashboard_of :: "DemoAuthMetadata \<Rightarrow> DemoWorkspaceState \<Rightarrow> ProLists option \<Rightarrow> TenantDashboardResponse" where
  "demo_dashboard_of demo starter pro =
    (let activeSubscriptions = (case pro of None \<Rightarrow> [] | Some p \<Rightarrow> filter (\<lambda>u. su_status u = ''active'') (subscriptions p)) in \<lparr>
       td_message = ''Demo dashboard'',
       td_full_name = pf_business_name (ds_profile starter),
       td_tenant_plan = md_plan demo,
       td_mailbox_status = ''connected'',
       td_enabled_code_services = map cs_name (filter cs_enabled (ds_code_services starter)),
       td_access_control_count = length (ds_blocked_identities starter),
       td_active_clients = map_option (\<lambda>p. length (filter cl_is_active (clients p))) pro,
       td_catalog_services = map_option (\<lambda>p. length (services p)) pro,
       td_active_subscriptions = map_option (\<lambda>_. length activeSubscriptions) pro,
       td_subscriptions_expiring_soon = map_option (\<lambda>_. length (filter (expires_soon demo) activeSubscriptions)) pro,
       td_reminders_enabled = Some (nullish (map_option rs_reminders_enabled (ds_reminder_settings starter)) False) \<rparr>)"

definition demo_dashboard :: "DemoAuthMetadata \<Rightarrow> int \<Rightarrow> TenantDashboardResponse repo_act" where
  "demo_dashboard demo now =
     abind (ensure demo (Some createDemoBaseline) now) (\<lambda>envelope.
     let planSpecific = the (jget envelope ''plan_specific'') in
     abind (alift (checked readStarterDemoState (PlainError ''invalid_demo_workspace'') planSpecific)) (\<lambda>starter.
     abind (alift (if md_plan demo = Pro then readProDemoState planSpecific else Inr None)) (\<lambda>pro.
     areturn (demo_dashboard_of demo starter (Option.bind pro ds_pro)))))"

section \<open>The production preview of a client\<close>

definition production_preview :: "string \<Rightarrow> Client list \<Rightarrow> Subscription list \<Rightarrow> demo_error + DeletePreview" where
  "production_preview cid cs subs =
     ebind (not_found (find_by cl_id cid cs) (PlainError ''client_not_found'')) (\<lambda>client.
     let activeSubscriptions = filter (\<lambda>s. sb_status s = ''active'') subs in
     Inr \<lparr> dp_target_type = ''client'',
       dp_target_id = cid,
       dp_target_name = cl_full_name client,
       dp_affected_plan_count = 0,
       dp_active_subscription_count = length activeSubscriptions,
       dp_historical_subscription_count = length subs - length activeSubscriptions,
       dp_total_subscription_count = length subs,
       dp_active_subscriptions = map (\<lambda>s. \<lparr>
         dr_id = sb_id s,
         dr_streaming_email = sb_streaming_email s,
         dr_client_name = Some (cl_full_name client),
         dr_client_phone = cl_phone client,
         dr_service_name = [],
         dr_plan_name = [],
         dr_expires_at = sb_expires_at s \<rparr>) activeSubscriptions,
       dp_page = 1,
       dp_page_size = 10,
       dp_total_items = length activeSubscriptions,
       dp_total_pages = page_count (length activeSubscriptions) 10,
       dp_has_next = False,
       dp_note = ''frontend.catalog.delete_preview_note'' \<rparr>)"

section \<open>Operations\<close>

datatype data_op =
    DashboardLoad
  | LoadProfile | UpdateProfile ProfileUpdate
  | LoadReminderSettings | UpdateReminderSettings ReminderSettingsUpdate
  | LoadTenantSettings | UpdateTenantSettings TenantSettingsUpdate
  | LoadTimezoneOptions | LoadCurrencyOptions | LoadMailbox
  | LoadPublicApiKey | SavePublicApiKeyOrigins "string list" | RegeneratePublicApiKey | RevokePublicApiKey
  | LoadCodeServices | UpdateCodeServices "string list"
  | ListAccessBlocks | CreateAccessBlock string | DeleteAccessBlock string
  | ListClients | CreateClient ClientCreate | UpdateClient string ClientUpdate
  | DeactivateClient string | ActivateClient string | PreviewClient string | DeleteClient string
  | ListServices | CreateService ServiceCreate | UpdateService string ServiceUpdate
  | PreviewService string | DeleteService string
  | ListPlans string | CreatePlan string PlanCreate | UpdatePlan string string PlanUpdate
  | PreviewPlan string string | DeletePlan string string
  | ListSubscriptions SubscriptionFilters | GetSubscription string | CreateSubscription SubscriptionCreate
  | UpdateSubscription string SubscriptionUpdate | RevealSubscription string | CancelSubscription string
  | RenewSubscription string string "string option"
  | ReactivateSubscription string "string option" "string option" "string option"
  | UnseenTour | ReplayTour "string option" | AcknowledgeTour string string

text \<open>The requests of the production adapter.\<close>

definition production_requests :: "data_op \<Rightarrow> api_request list" where
  "production_requests call = (case call of
     DashboardLoad \<Rightarrow> [getTenantDashboard_api]
   | LoadProfile \<Rightarrow> [getProfile_api] | UpdateProfile p \<Rightarrow> [updateProfile_api p]
   | LoadReminderSettings \<Rightarrow> [getReminderSettings_api] | UpdateReminderSettings p \<Rightarrow> [updateReminderSettings_api p]
   | LoadTenantSettings \<Rightarrow> [getTenantSettings_api] | UpdateTenantSettings p \<Rightarrow> [updateTenantSettings_api p]
   | LoadTimezoneOptions \<Rightarrow> [getTimezones_api] | LoadCurrencyOptions \<Rightarrow> [getCurrencies_api] | LoadMailbox \<Rightarrow> [getMailbox_api]
   | LoadPublicApiKey \<Rightarrow> [getPublicApiKey_api] | SavePublicApiKeyOrigins xs \<Rightarrow> [savePublicApiKeyOrigins_api xs]
   | RegeneratePublicApiKey \<Rightarrow> [regeneratePublicApiKey_api] | RevokePublicApiKey \<Rightarrow> [revokePublicApiKey_api]
   | LoadCodeServices \<Rightarrow> [getTenantCodeServices_api] | UpdateCodeServices ks \<Rightarrow> [updateTenantCodeServices_api ks]
   | ListAccessBlocks \<Rightarrow> [listAccessBlocks_api] | CreateAccessBlock ph \<Rightarrow> [createAccessBlock_api ph]
   | DeleteAccessBlock k \<Rightarrow> [deleteAccessBlock_api k]
   | ListClients \<Rightarrow> [listClients_api] | CreateClient p \<Rightarrow> [createClient_api p] | UpdateClient k p \<Rightarrow> [updateClient_api k p]
   | DeactivateClient k \<Rightarrow> [deactivateClient_api k] | ActivateClient k \<Rightarrow> [activateClient_api k]
   | PreviewClient k \<Rightarrow> [listClients_api, listSubscriptions_api
       \<lparr>sf_status = None, sf_client_id = Some k, sf_service_id = None, sf_quick_filter = None\<rparr>]
   | DeleteClient k \<Rightarrow> [deleteClient_api k]
   | ListServices \<Rightarrow> [listServices_api] | CreateService p \<Rightarrow> [createService_api p] | UpdateService k p \<Rightarrow> [updateService_api k p]
   | PreviewService k \<Rightarrow> [getServiceDeletePreview_api k 1 10] | DeleteService k \<Rightarrow> [deleteService_api k True]
   | ListPlans k \<Rightarrow> [listPlans_api k] | CreatePlan k p \<Rightarrow> [createPlan_api k p] | UpdatePlan k q p \<Rightarrow> [updatePlan_api k q p]
   | PreviewPlan k q \<Rightarrow> [getPlanDeletePreview_api k q 1 10] | DeletePlan k q \<Rightarrow> [deletePlan_api k q True]
   | ListSubscriptions f \<Rightarrow> [listSubscriptions_api f] | GetSubscription k \<Rightarrow> [getSubscription_api k]
   | CreateSubscription p \<Rightarrow> [createSubscription_api p] | UpdateSubscription k p \<Rightarrow> [updateSubscription_api k p]
   | RevealSubscription k \<Rightarrow> [revealCredentials_api k] | CancelSubscription k \<Rightarrow> [cancelSubscription_api k]
   | RenewSubscription k d e \<Rightarrow> [renewSubscription_api k d e]
   | ReactivateSubscription k d s e \<Rightarrow> [reactivateSubscription_api k d s e]
   | UnseenTour \<Rightarrow> [getUnseenHelpTour_api] | ReplayTour k \<Rightarrow> [replayHelpTour_api k]
   | AcknowledgeTour k st \<Rightarrow> [acknowledgeHelpTour_api k st])"

text \<open>
  What the surroundings of the demo provide: translations, time zones, collation, the catalog of currencies, the
  clock, and the replies of the server.
\<close>

record surroundings =
  en_tr :: "string \<Rightarrow> string"
  en_valid_tz :: "string \<Rightarrow> bool"
  en_long_offset :: "string \<Rightarrow> string option"
  en_supported :: "string list option"
  en_catalog :: currency_catalog
  en_collate_base :: "string comparison"
  en_collate :: "string comparison"
  en_now :: int
  en_server :: "api_request \<Rightarrow> js + js"

definition ignore :: "('s, 'e, 'a) act \<Rightarrow> ('s, 'e, unit) act" where
  "ignore m = abind m (\<lambda>_. areturn ())"

text \<open>The data operations of the demo adapter, their results dropped; the tour is below.\<close>

definition demo_run :: "surroundings \<Rightarrow> DemoAuthMetadata \<Rightarrow> data_op \<Rightarrow> unit repo_act" where
  "demo_run en demo call = (let now = en_now en in case call of
     DashboardLoad \<Rightarrow> ignore (demo_dashboard demo now)
   | LoadProfile \<Rightarrow> ignore (loadProfile demo now) | UpdateProfile p \<Rightarrow> ignore (updateProfile demo now p)
   | LoadReminderSettings \<Rightarrow> ignore (loadReminderSettings demo now)
   | UpdateReminderSettings p \<Rightarrow> ignore (updateReminderSettings (en_tr en) demo now p)
   | LoadTenantSettings \<Rightarrow> ignore (loadTenantSettings demo now)
   | UpdateTenantSettings p \<Rightarrow> ignore (updateTenantSettings (en_tr en) (en_valid_tz en) (en_catalog en) demo now p)
   | LoadTimezoneOptions \<Rightarrow> ignore (loadTimezoneOptions (en_supported en) (en_long_offset en))
   | LoadCurrencyOptions \<Rightarrow> ignore (loadCurrencyOptions (en_catalog en)) | LoadMailbox \<Rightarrow> ignore (loadMailbox demo)
   | LoadPublicApiKey \<Rightarrow> ignore loadPublicApiKey | SavePublicApiKeyOrigins xs \<Rightarrow> ignore savePublicApiKeyOrigins
   | RegeneratePublicApiKey \<Rightarrow> ignore regeneratePublicApiKey | RevokePublicApiKey \<Rightarrow> revokePublicApiKey
   | LoadCodeServices \<Rightarrow> ignore (loadCodeServices demo now) | UpdateCodeServices ks \<Rightarrow> ignore (updateCodeServices demo now ks)
   | ListAccessBlocks \<Rightarrow> ignore (listAccessBlocks demo now) | CreateAccessBlock ph \<Rightarrow> ignore (createAccessBlock demo now ph)
   | DeleteAccessBlock k \<Rightarrow> deleteAccessBlock now k
   | ListClients \<Rightarrow> ignore (client_list demo now) | CreateClient p \<Rightarrow> ignore (client_create demo now p)
   | UpdateClient k p \<Rightarrow> ignore (client_update demo now k p)
   | DeactivateClient k \<Rightarrow> ignore (client_deactivate demo now k) | ActivateClient k \<Rightarrow> ignore (client_activate demo now k)
   | PreviewClient k \<Rightarrow> ignore (client_getDeletePreview demo now k) | DeleteClient k \<Rightarrow> client_delete demo now k
   | ListServices \<Rightarrow> ignore (listServices (en_collate_base en) (en_collate en) demo now)
   | CreateService p \<Rightarrow> ignore (createService demo now p) | UpdateService k p \<Rightarrow> ignore (updateService demo now k p)
   | PreviewService k \<Rightarrow> ignore (getServiceDeletePreview demo now k) | DeleteService k \<Rightarrow> deleteService demo now k
   | ListPlans k \<Rightarrow> ignore (listPlans (en_collate_base en) (en_collate en) demo now k)
   | CreatePlan k p \<Rightarrow> ignore (createPlan demo now k p) | UpdatePlan k q p \<Rightarrow> ignore (updatePlan demo now k q p)
   | PreviewPlan k q \<Rightarrow> ignore (getPlanDeletePreview demo now k q) | DeletePlan k q \<Rightarrow> deletePlan demo now k q
   | ListSubscriptions f \<Rightarrow> ignore (sub_list (en_collate en) demo now f) | GetSubscription k \<Rightarrow> ignore (sub_get demo now k)
   | CreateSubscription p \<Rightarrow> ignore (sub_create demo now p) | UpdateSubscription k p \<Rightarrow> ignore (sub_update demo now k p)
   | RevealSubscription k \<Rightarrow> ignore (sub_reveal demo now k) | CancelSubscription k \<Rightarrow> ignore (sub_cancel demo now k)
   | RenewSubscription k d e \<Rightarrow> ignore (sub_renew demo now k d e)
   | ReactivateSubscription k d s e \<Rightarrow> ignore (sub_reactivate demo now k d s e)
   | UnseenTour \<Rightarrow> areturn () | ReplayTour k \<Rightarrow> areturn ()
   | AcknowledgeTour k st \<Rightarrow> abind (saveTourState [(k, JStr st)] now) (\<lambda>_. ignore (alift (iso_now now))))"

text \<open>
  A run: the repository (in demo mode) and the requests sent so far. An error is the demo's or what the
  server answered.
\<close>

type_synonym 'a data_act = "(DemoWorkspaceRepository option \<times> api_request list, demo_error + js, 'a) act"

definition on_workspace :: "unit repo_act \<Rightarrow> unit data_act" where
  "on_workspace m w = (case fst w of
     None \<Rightarrow> (Inr (), w)
   | Some r \<Rightarrow> (case m r of (Inl e, r') \<Rightarrow> (Inl (Inl e), (Some r', snd w)) | (Inr _, r') \<Rightarrow> (Inr (), (Some r', snd w))))"

definition send :: "surroundings \<Rightarrow> api_request \<Rightarrow> js data_act" where
  "send en request w = (case en_server en request of
     Inl err \<Rightarrow> (Inl (Inr err), (fst w, snd w @ [request]))
   | Inr data \<Rightarrow> (Inr data, (fst w, snd w @ [request])))"

text \<open>
  A production operation sends its requests (\<open>Promise.all\<close> sends all of them) and fails with the first failure;
  the deletion preview of a client also fails when the reply has no such client.
\<close>

definition reply :: "surroundings \<Rightarrow> data_op \<Rightarrow> api_request \<Rightarrow> js + js" where
  "reply en call request =
     (if call = LoadMailbox then getMailbox_reply (en_server en request) else en_server en request)"

fun first_error :: "('e + 'a) list \<Rightarrow> 'e option" where
  "first_error [] = None"
| "first_error (Inl e # rs) = Some e"
| "first_error (Inr a # rs) = first_error rs"

definition lists_client :: "string \<Rightarrow> js + js \<Rightarrow> bool" where
  "lists_client cid r = (case r of Inr (JArr entries) \<Rightarrow> list_ex (\<lambda>c. jget c ''id'' = Some (JStr cid)) entries | _ \<Rightarrow> False)"

definition production_run :: "surroundings \<Rightarrow> data_op \<Rightarrow> unit data_act" where
  "production_run en call w =
    (let requests = production_requests call in
     (case first_error (map (reply en call) requests) of
        Some err \<Rightarrow> Inl (Inr err)
      | None \<Rightarrow> (case call of
          PreviewClient cid \<Rightarrow> if lists_client cid (en_server en listClients_api) then Inr () else Inl (Inl (PlainError ''client_not_found''))
        | _ \<Rightarrow> Inr ()),
      (fst w, snd w @ requests)))"

definition demo_unseen :: "surroundings \<Rightarrow> unit data_act" where
  "demo_unseen en = abind (send en getUnseenHelpTour_api) (\<lambda>release.
     on_workspace (abind read (\<lambda>envelope.
       let status = Option.bind (Option.bind envelope (\<lambda>e. jget e ''tour_state'')) (\<lambda>tour. jget tour (str_at ''release_id'' release)) in
       if status = Some (JStr ''completed'') \<or> status = Some (JStr ''skipped'')
       then athrow (PlainError ''help_tour_already_acknowledged'') else areturn ())))"

definition run_op :: "surroundings \<Rightarrow> DataSourceAdapter \<Rightarrow> data_op \<Rightarrow> unit data_act" where
  "run_op en adapter call = (case (ad_mode adapter, dc_demo (ad_context adapter)) of
     (Demo, Some demo) \<Rightarrow> (case call of
        UnseenTour \<Rightarrow> demo_unseen en
      | ReplayTour k \<Rightarrow> ignore (send en (replayHelpTour_api k))
      | _ \<Rightarrow> on_workspace (demo_run en demo call))
   | _ \<Rightarrow> production_run en call)"

text \<open>Operations one after the other; each caller handles its own error.\<close>

primrec run_ops :: "DataSourceAdapter \<Rightarrow> (surroundings \<times> data_op) list \<Rightarrow>
    DemoWorkspaceRepository option \<times> api_request list \<Rightarrow> DemoWorkspaceRepository option \<times> api_request list" where
  "run_ops adapter [] w = w"
| "run_ops adapter (c # cs) w = run_ops adapter cs (snd (run_op (fst c) adapter (snd c) w))"

section \<open>Separation of the two modes\<close>

definition tour_requests :: "data_op \<Rightarrow> api_request list" where
  "tour_requests call = (case call of UnseenTour \<Rightarrow> [getUnseenHelpTour_api] | ReplayTour k \<Rightarrow> [replayHelpTour_api k] | _ \<Rightarrow> [])"

lemma send_sends: "snd (snd (send en q w)) = snd w @ [q]"
  by (simp add: send_def split: sum.splits)

lemma on_workspace_sends: "snd (snd (on_workspace m w)) = snd w"
  by (auto simp: on_workspace_def split: option.splits sum.splits prod.splits)

lemma abind_on_workspace_sends:
  "snd (snd (abind m (\<lambda>a. on_workspace (f a)) w)) = snd (snd (m w))"
  using on_workspace_sends [of "f _"] by (auto simp: abind_def split: prod.splits sum.splits)

lemma ignore_sends: "snd (ignore m w) = snd (m w)"
  by (auto simp: ignore_def abind_def areturn_def split: prod.splits sum.splits)

lemma demo_run_op_sends:
  assumes "ad_mode adapter = Demo" and "dc_demo (ad_context adapter) = Some demo"
  shows "snd (snd (run_op en adapter call w)) = snd w @ tour_requests call"
  using assms by (simp add: run_op_def tour_requests_def demo_unseen_def abind_on_workspace_sends on_workspace_sends
    ignore_sends send_sends split: data_op.splits)

lemma production_run_op:
  assumes "ad_mode adapter = Production"
  shows "snd (run_op en adapter call w) = (fst w, snd w @ production_requests call)"
  using assms by (simp add: run_op_def production_run_def Let_def)

lemma demo_run_ops_send:
  assumes "ad_mode adapter = Demo" and "dc_demo (ad_context adapter) = Some demo"
  shows "snd (run_ops adapter calls w) = snd w @ concat (map (tour_requests \<circ> snd) calls)"
  by (induction calls arbitrary: w) (simp_all add: demo_run_op_sends [OF assms])

lemma production_run_ops:
  assumes "ad_mode adapter = Production"
  shows "run_ops adapter calls w = (fst w, snd w @ concat (map (production_requests \<circ> snd) calls))"
  by (induction calls arbitrary: w) (simp_all add: production_run_op [OF assms])

lemma createDataSource_context:
  assumes "createDataSource context existing now b = (Inr adapter, b')"
  shows "ad_context adapter = context \<and> (ad_mode adapter = Demo \<longleftrightarrow> dc_demo context \<noteq> None) \<and>
    (ad_workspace adapter = None \<longleftrightarrow> dc_demo context = None)"
  using assms by (auto simp: createDataSource_def Let_def split: option.splits prod.splits sum.splits demo_error.splits)

lemma demo_run_op_workspace:
  assumes "ad_mode adapter = Demo" and "dc_demo (ad_context adapter) = Some demo" and "fst w \<noteq> None"
  shows "fst (snd (run_op en adapter call w)) \<noteq> None"
proof -
  have on: "fst (snd (on_workspace m v)) \<noteq> None" if "fst v \<noteq> None" for m v
    using that by (auto simp: on_workspace_def split: option.splits prod.splits sum.splits)
  have send: "fst (snd (send en q v)) = fst v" for q v
    by (simp add: send_def split: sum.splits)
  have seq: "fst (snd (abind (send en q) (\<lambda>a. on_workspace (f a)) w)) \<noteq> None" for q f
    using assms(3) send [of q w] on by (auto simp: abind_def split: prod.splits sum.splits)
  show ?thesis
    using assms on [OF assms(3)] seq
    by (simp add: run_op_def demo_unseen_def ignore_sends send split: data_op.splits)
qed

lemma demo_run_ops_workspace:
  assumes "ad_mode adapter = Demo" and "dc_demo (ad_context adapter) = Some demo" and "fst w \<noteq> None"
  shows "fst (run_ops adapter calls w) \<noteq> None"
  using assms(3) by (induction calls arbitrary: w) (simp_all del: not_None_eq add: demo_run_op_workspace [OF assms(1,2)])

section \<open>Properties\<close>

text \<open>
  The server's interface as a table, written apart from the wrappers: method, path segments, query (\<open>None\<close>: any
  query) and body of each operation's requests. The demo has one only for reading the orientation tour.
\<close>

type_synonym rest_call = "http_method \<times> string list \<times> string option \<times> js option"

definition rest_client :: "data_op \<Rightarrow> rest_call list" where
  "rest_client call = (case call of
     ListClients \<Rightarrow> [(GET, [''clients''], Some [], None)]
   | CreateClient p \<Rightarrow> [(POST, [''clients''], Some [], Some (client_create_js p))]
   | UpdateClient k p \<Rightarrow> [(PUT, [''clients'', k], Some [], Some (client_update_js p))]
   | DeactivateClient k \<Rightarrow> [(PATCH, [''clients'', k, ''deactivate''], Some [], None)]
   | ActivateClient k \<Rightarrow> [(PATCH, [''clients'', k, ''activate''], Some [], None)]
   | PreviewClient k \<Rightarrow> [(GET, [''clients''], Some [], None), (GET, [''subscriptions''], None, None)]
   | DeleteClient k \<Rightarrow> [(DELETE, [''clients'', k], Some [], None)]
   | ListSubscriptions f \<Rightarrow> [(GET, [''subscriptions''], None, None)]
   | GetSubscription k \<Rightarrow> [(GET, [''subscriptions'', k], Some [], None)]
   | CreateSubscription p \<Rightarrow> [(POST, [''subscriptions''], Some [], Some (subscription_create_js p))]
   | UpdateSubscription k p \<Rightarrow> [(PUT, [''subscriptions'', k], Some [], Some (subscription_update_js p))]
   | RevealSubscription k \<Rightarrow> [(GET, [''subscriptions'', k, ''reveal''], Some [], None)]
   | CancelSubscription k \<Rightarrow> [(POST, [''subscriptions'', k, ''cancel''], Some [], None)]
   | RenewSubscription k d e \<Rightarrow> [(POST, [''subscriptions'', k, ''renew''], Some [],
       Some (JObj ((''duration_type'', JStr d) # truthy_member ''expires_at'' e)))]
   | ReactivateSubscription k d st e \<Rightarrow> [(POST, [''subscriptions'', k, ''reactivate''], Some [],
       Some (JObj ((''duration_type'', JStr (case d of None \<Rightarrow> ''1_month'' | Some x \<Rightarrow> x)) #
         truthy_member ''starts_at'' st @ truthy_member ''expires_at'' e)))]
   | _ \<Rightarrow> [])"

definition rest_catalog :: "data_op \<Rightarrow> rest_call list" where
  "rest_catalog call = (case call of
     ListServices \<Rightarrow> [(GET, [''catalog'', ''services''], Some [], None)]
   | CreateService p \<Rightarrow> [(POST, [''catalog'', ''services''], Some [], Some (service_create_js p))]
   | UpdateService k p \<Rightarrow> [(PUT, [''catalog'', ''services'', k], Some [], Some (service_update_js p))]
   | PreviewService k \<Rightarrow> [(GET, [''catalog'', ''services'', k, ''delete-preview''], Some ''?page=1&page_size=10'', None)]
   | DeleteService k \<Rightarrow> [(DELETE, [''catalog'', ''services'', k], Some ''?confirm=true'', None)]
   | ListPlans k \<Rightarrow> [(GET, [''catalog'', ''services'', k, ''plans''], Some [], None)]
   | CreatePlan k p \<Rightarrow> [(POST, [''catalog'', ''services'', k, ''plans''], Some [], Some (plan_create_js p))]
   | UpdatePlan k q p \<Rightarrow> [(PUT, [''catalog'', ''services'', k, ''plans'', q], Some [], Some (plan_update_js p))]
   | PreviewPlan k q \<Rightarrow> [(GET, [''catalog'', ''services'', k, ''plans'', q, ''delete-preview''], Some ''?page=1&page_size=10'', None)]
   | DeletePlan k q \<Rightarrow> [(DELETE, [''catalog'', ''services'', k, ''plans'', q], Some ''?confirm=true'', None)]
   | _ \<Rightarrow> [])"

definition rest_settings :: "data_op \<Rightarrow> rest_call list" where
  "rest_settings call = (case call of
     DashboardLoad \<Rightarrow> [(GET, [''dashboard''], Some [], None)]
   | LoadProfile \<Rightarrow> [(GET, [''me''], Some [], None)]
   | UpdateProfile p \<Rightarrow> [(PUT, [''me''], Some [], Some (profile_update_js p))]
   | LoadReminderSettings \<Rightarrow> [(GET, [''subscription-settings''], Some [], None)]
   | UpdateReminderSettings p \<Rightarrow> [(PUT, [''subscription-settings''], Some [], Some (reminder_update_js p))]
   | LoadTenantSettings \<Rightarrow> [(GET, [''tenant-settings''], Some [], None)]
   | UpdateTenantSettings p \<Rightarrow> [(PUT, [''tenant-settings''], Some [], Some (tenant_update_js p))]
   | LoadTimezoneOptions \<Rightarrow> [(GET, [''tenant-settings'', ''timezones''], Some [], None)]
   | LoadCurrencyOptions \<Rightarrow> [(GET, [''tenant-settings'', ''currencies''], Some [], None)]
   | LoadMailbox \<Rightarrow> [(GET, [''tenant'', ''mailbox'', []], Some [], None)]
   | LoadPublicApiKey \<Rightarrow> [(GET, [''public-api-key''], Some [], None)]
   | SavePublicApiKeyOrigins xs \<Rightarrow> [(PUT, [''public-api-key''], Some [], Some (JObj [(''allowed_origins'', JArr (map JStr xs))]))]
   | RegeneratePublicApiKey \<Rightarrow> [(POST, [''public-api-key'', ''regenerate''], Some [], None)]
   | RevokePublicApiKey \<Rightarrow> [(DELETE, [''public-api-key''], Some [], None)]
   | LoadCodeServices \<Rightarrow> [(GET, [''code-services'', ''tenants'', ''current''], Some [], None)]
   | UpdateCodeServices ks \<Rightarrow> [(PUT, [''code-services'', ''tenants'', ''current''], Some [],
       Some (JObj [(''service_keys'', JArr (map JStr ks))]))]
   | ListAccessBlocks \<Rightarrow> [(GET, [''access-control'', ''blocks''], Some [], None)]
   | CreateAccessBlock ph \<Rightarrow> [(POST, [''access-control'', ''blocks''], Some [], Some (JObj [(''phone'', JStr ph)]))]
   | DeleteAccessBlock k \<Rightarrow> [(DELETE, [''access-control'', ''blocks'', k], Some [], None)]
   | _ \<Rightarrow> [])"

definition rest_tour_reads :: "data_op \<Rightarrow> rest_call list" where
  "rest_tour_reads call = (case call of
     UnseenTour \<Rightarrow> [(GET, [''help'', ''tour''], Some [], None)]
   | ReplayTour k \<Rightarrow> [(GET, [''help'', ''tour''] @ (case k of None \<Rightarrow> [] | Some r \<Rightarrow> if r = [] then [] else [r]) @ [''replay''],
       Some [], None)]
   | _ \<Rightarrow> [])"

definition rest_calls :: "data_op \<Rightarrow> rest_call list" where
  "rest_calls call = rest_client call @ rest_catalog call @ rest_settings call @ rest_tour_reads call @
    (case call of AcknowledgeTour k st \<Rightarrow> [(POST, [''help'', ''tour'', k, ''acknowledge''], Some [], Some (JObj [(''status'', JStr st)]))]
     | _ \<Rightarrow> [])"

definition carries_out :: "rest_call \<Rightarrow> api_request \<Rightarrow> bool" where
  "carries_out c request = (case (c, request) of ((m, segments, qs, b), Request m' path b') \<Rightarrow>
     m' = m \<and> b' = b \<and> (let stem = concat (map (\<lambda>seg. CHR ''/'' # seg) segments) in
       case qs of Some q \<Rightarrow> path = stem @ q
       | None \<Rightarrow> take (length stem) path = stem \<and> take 1 (drop (length stem) path) \<in> {[], ''?''}))"

lemmas api_defs = getTenantDashboard_api_def getProfile_api_def updateProfile_api_def getReminderSettings_api_def
  updateReminderSettings_api_def getTenantSettings_api_def updateTenantSettings_api_def getTimezones_api_def getCurrencies_api_def
  getMailbox_api_def getPublicApiKey_api_def savePublicApiKeyOrigins_api_def regeneratePublicApiKey_api_def
  revokePublicApiKey_api_def getTenantCodeServices_api_def updateTenantCodeServices_api_def listAccessBlocks_api_def
  createAccessBlock_api_def deleteAccessBlock_api_def listClients_api_def createClient_api_def updateClient_api_def
  deactivateClient_api_def activateClient_api_def deleteClient_api_def listServices_api_def createService_api_def
  updateService_api_def getServiceDeletePreview_api_def deleteService_api_def listPlans_api_def createPlan_api_def
  updatePlan_api_def getPlanDeletePreview_api_def deletePlan_api_def listSubscriptions_api_def getSubscription_api_def
  createSubscription_api_def updateSubscription_api_def revealCredentials_api_def cancelSubscription_api_def
  renewSubscription_api_def reactivateSubscription_api_def getUnseenHelpTour_api_def replayHelpTour_api_def acknowledgeHelpTour_api_def

lemma query_numbers: "nat_to_string 1 = ''1''" "nat_to_string 10 = ''10''"
  by code_simp+

lemma requests_carried_out: "list_all2 carries_out (rest_calls call) (production_requests call)"
  by (cases call)
    (simp_all add: rest_calls_def rest_client_def rest_catalog_def rest_settings_def rest_tour_reads_def
      production_requests_def api_defs carries_out_def Let_def bool_text_def query_numbers query_numbers(1) [unfolded One_nat_def]
      falsy_def nullish_def split: option.split)

lemma tour_reads_carried_out: "list_all2 carries_out (rest_tour_reads call) (tour_requests call)"
  by (cases call)
    (simp_all add: rest_tour_reads_def tour_requests_def api_defs carries_out_def Let_def falsy_def split: option.split)

lemma list_all2_concat_map:
  "(\<And>x. list_all2 P (f x) (g x)) \<Longrightarrow> list_all2 P (concat (map f xs)) (concat (map g xs))"
  by (induction xs) (simp_all add: list_all2_appendI)


definition sample_surroundings :: surroundings where
  "sample_surroundings = \<lparr> en_tr = (\<lambda>k. k), en_valid_tz = (\<lambda>_. True), en_long_offset = (\<lambda>_. None), en_supported = None,
     en_catalog = \<lparr>catalogCountries = [], catalogCurrencies = []\<rparr>, en_collate_base = (\<lambda>_ _. 0), en_collate = (\<lambda>_ _. 0), en_now = 0,
     en_server = (\<lambda>_. Inl (JObj [(''response'', JObj [(''status'', JNum 404)])])) \<rparr>"

definition sample_production :: DataSourceContext where
  "sample_production = \<lparr>dc_tenantId = Some ''t'', dc_tenantPlan = Some Pro, dc_demo = None\<rparr>"

definition sample_demo :: DataSourceContext where
  "sample_demo = \<lparr>dc_tenantId = Some ''t1'', dc_tenantPlan = Some Pro, dc_demo = Some sample_metadata\<rparr>"

definition sample_calls :: "(surroundings \<times> data_op) list" where
  "sample_calls = [(sample_surroundings, ListClients), (sample_surroundings, DeleteClient ''7''), (sample_surroundings, UnseenTour)]"


definition blank_row :: "DeleteSubscriptionRow \<Rightarrow> DeleteSubscriptionRow" where
  "blank_row row = row\<lparr>dr_service_name := [], dr_plan_name := []\<rparr>"

definition subscriptions_of :: "string \<Rightarrow> ProLists \<Rightarrow> Subscription list" where
  "subscriptions_of cid p = map publicSubscription (filter (\<lambda>u. su_client_id u = cid) (subscriptions p))"

text \<open>
  C35. The two previews of the deletion of a client agree. Production computes it in the browser from the list of
  clients and the list of the client's subscriptions; the demo computes it from the workspace. On the same data they are
  the same, except that production leaves the names of service and plan blank in the rows; and for an
  unknown client production fails with \<open>client_not_found\<close>.
\<close>

theorem client_previews_agree:
  "production_preview cid (clients p) (subscriptions_of cid p) = (case find_by cl_id cid (clients p) of
     None \<Rightarrow> Inl (PlainError ''client_not_found'')
   | Some client \<Rightarrow> (let demo = clientDeletePreview p client in
       Inr (demo\<lparr>dp_active_subscriptions := map blank_row (dp_active_subscriptions demo)\<rparr>)))"
proof (cases "find_by cl_id cid (clients p)")
  case None
  then show ?thesis by (simp add: production_preview_def not_found_def ebind_def)
next
  case (Some client)
  have cid: "cid = cl_id client" using find_by_SomeD [OF Some] by simp
  let ?related = "filter (\<lambda>u. su_client_id u = cl_id client) (subscriptions p)"
  have active: "filter (\<lambda>s. sb_status s = ''active'') (subscriptions_of cid p) =
      map publicSubscription (filter (\<lambda>u. su_status u = ''active'') ?related)"
    unfolding cid subscriptions_of_def by (simp only: filter_map comp_def) (simp only: publicSubscription_def Subscription.simps)
  have total: "length (subscriptions_of cid p) = length ?related"
    unfolding cid subscriptions_of_def by (simp only: length_map)
  show ?thesis
    unfolding production_preview_def active total Some
    by (simp only: not_found_def option.case ebind_Inr clientDeletePreview_def Let_def cid length_map map_map comp_def
      publicSubscription_def blank_row_def Subscription.simps DeletePreview.simps DeletePreview.update_convs DeleteSubscriptionRow.simps)
qed

end
