(* ===== verification/I18n.thy ===== *)
theory I18n
  imports Storage
begin

text \<open>
  The two translation tables: the one of the signed-in application (\<open>i18n/index.ts\<close>), loaded from the server, and the one of
  the public pages (\<open>i18n/public.ts\<close>), built in and kept per locale in the browser's storage. Both put parameters
  into a text by one global replacement per parameter. The main results: on texts whose parameters are plain, the
  replacements one after the other do what one simultaneous substitution does, and a locale that was set is the one the next page loads.
\<close>

section \<open>Replacing a parameter\<close>

text \<open>
  The replacement string of \<open>replace\<close> with a pattern without groups: \<open>$$\<close>, \<open>$&\<close>, the text before and the text
  after the match; any other use of \<open>$\<close> stands for itself. \<open>before\<close> is the part already passed.
\<close>

fun expand_replacement :: "string \<Rightarrow> string \<Rightarrow> string \<Rightarrow> string \<Rightarrow> string" where
  "expand_replacement before matched after [] = []"
| "expand_replacement before matched after [c] = [c]"
| "expand_replacement before matched after (c # d # r) =
     (if c = CHR ''$'' \<and> d = CHR ''$'' then CHR ''$'' # expand_replacement before matched after r
      else if c = CHR ''$'' \<and> d = CHR ''&'' then matched @ expand_replacement before matched after r
      else if c = CHR ''$'' \<and> d = CHR 0x60 then before @ expand_replacement before matched after r
      else if c = CHR ''$'' \<and> d = CHR 0x27 then after @ expand_replacement before matched after r
      else c # expand_replacement before matched after (d # r))"

text \<open>All matches of a non-empty \<open>needle\<close>, from left to right.\<close>

function replace_from :: "string \<Rightarrow> string \<Rightarrow> string \<Rightarrow> string \<Rightarrow> string" where
  "replace_from needle replacement before s =
     (if s = [] then []
      else if needle \<noteq> [] \<and> js_startsWith needle s
      then (let after = drop (length needle) s in
        expand_replacement before needle after replacement @ replace_from needle replacement (before @ needle) after)
      else hd s # replace_from needle replacement (before @ [hd s]) (tl s))"
  by pat_completeness auto
termination by (relation "measure (\<lambda>(needle, replacement, before, s). length s)") auto

declare replace_from.simps [simp del]

definition replace_all :: "string \<Rightarrow> string \<Rightarrow> string \<Rightarrow> string" where
  "replace_all needle replacement s = replace_from needle replacement [] s"

text \<open>
  \<open>new RegExp(`\\{${k}\\}`, "g")\<close> for a name of word characters, as all the sources' are: the pattern matches the name in braces.
\<close>

definition placeholder :: "string \<Rightarrow> string" where
  "placeholder k = CHR ''{'' # k @ ''}''"

definition replace_params :: "(string \<times> string) list \<Rightarrow> string \<Rightarrow> string" where
  "replace_params params value = foldl (\<lambda>v (k, x). replace_all (placeholder k) x v) value params"

section \<open>The table of the application\<close>

text \<open>\<open>i18n_waiting\<close> are the promises of \<open>waitForCatalog\<close>, by number; \<open>i18n_resolved\<close> those that were resolved.\<close>

record I18n =
  i18n_catalog :: "(string \<times> string) list"
  i18n_currentLocale :: string
  i18n_ready :: bool
  i18n_waiting :: "nat list"
  i18n_resolved :: "nat list"

definition initial_i18n :: I18n where
  "initial_i18n = \<lparr> i18n_catalog = [], i18n_currentLocale = ''en'', i18n_ready = False, i18n_waiting = [], i18n_resolved = [] \<rparr>"

record CatalogReply =
  cr_catalog :: "(string \<times> string) list option"
  cr_locale :: "string option"

text \<open>\<open>loadCatalog\<close> with the answer of the server; \<open>None\<close> is a request that failed.\<close>

definition loadCatalog :: "CatalogReply option \<Rightarrow> I18n \<Rightarrow> I18n" where
  "loadCatalog answer s =
    (let s1 = (case answer of None \<Rightarrow> s
         | Some data \<Rightarrow> s\<lparr>i18n_catalog := nullish (cr_catalog data) [],
             i18n_currentLocale := (if falsy (cr_locale data) then ''en'' else the (cr_locale data))\<rparr>)
     in s1\<lparr>i18n_ready := True, i18n_resolved := i18n_resolved s1 @ i18n_waiting s1, i18n_waiting := []\<rparr>)"

definition isCatalogReady :: "I18n \<Rightarrow> bool" where
  "isCatalogReady s = i18n_ready s"

definition waitForCatalog :: "nat \<Rightarrow> I18n \<Rightarrow> I18n" where
  "waitForCatalog n s = (if i18n_ready s then s\<lparr>i18n_resolved := i18n_resolved s @ [n]\<rparr>
     else s\<lparr>i18n_waiting := i18n_waiting s @ [n]\<rparr>)"

text \<open>\<open>t\<close>. An entry that is the empty string is falsy.\<close>

definition translate :: "(string \<times> string) list \<Rightarrow> string \<Rightarrow> (string \<times> string) list \<Rightarrow> string" where
  "translate catalog key params =
    (let value = (if falsy (map_of catalog key) then key else the (map_of catalog key)) in replace_params params value)"

definition getLocale :: "I18n \<Rightarrow> string" where
  "getLocale s = i18n_currentLocale s"

section \<open>The table of the public pages\<close>

datatype Locale = En | Es

definition locale_string :: "Locale \<Rightarrow> string" where
  "locale_string l = (case l of En \<Rightarrow> ''en'' | Es \<Rightarrow> ''es'')"

definition public_STORAGE_KEY :: string where
  "public_STORAGE_KEY = ''publicLocale''"

definition DEFAULT_LOCALE :: Locale where
  "DEFAULT_LOCALE = En"

record PublicI18n =
  pub_currentLocale :: Locale
  pub_listeners :: "nat list"

definition public_loadFromStorage :: "Browser \<Rightarrow> Locale \<times> Browser" where
  "public_loadFromStorage b = (case readBrowserStorage public_STORAGE_KEY b of (stored, b') \<Rightarrow>
     (if stored = Some ''en'' then En else if stored = Some ''es'' then Es else DEFAULT_LOCALE, b'))"

definition public_init :: "Browser \<Rightarrow> PublicI18n \<times> Browser" where
  "public_init b = (case public_loadFromStorage b of (l, b') \<Rightarrow> (\<lparr> pub_currentLocale = l, pub_listeners = [] \<rparr>, b'))"

definition public_getLocale :: "PublicI18n \<Rightarrow> Locale" where
  "public_getLocale s = pub_currentLocale s"

text \<open>The result has the listeners that were called, in order.\<close>

definition setLocale :: "Locale \<Rightarrow> PublicI18n \<times> Browser \<Rightarrow> nat list \<times> PublicI18n \<times> Browser" where
  "setLocale value w = (case w of (s, b) \<Rightarrow>
     (pub_listeners s, s\<lparr>pub_currentLocale := value\<rparr>, snd (writeBrowserStorage public_STORAGE_KEY (locale_string value) b)))"

definition subscribeLocale :: "nat \<Rightarrow> PublicI18n \<Rightarrow> PublicI18n" where
  "subscribeLocale fn s = (if fn \<in> set (pub_listeners s) then s else s\<lparr>pub_listeners := pub_listeners s @ [fn]\<rparr>)"

definition unsubscribeLocale :: "nat \<Rightarrow> PublicI18n \<Rightarrow> PublicI18n" where
  "unsubscribeLocale fn s = s\<lparr>pub_listeners := filter (\<lambda>f. f \<noteq> fn) (pub_listeners s)\<rparr>"

text \<open>The two tables of \<open>public.json\<close> are an argument; a missing key is its own text.\<close>

definition public_t :: "(Locale \<Rightarrow> string \<Rightarrow> string option) \<Rightarrow> PublicI18n \<Rightarrow> string \<Rightarrow> (string \<times> string) list \<Rightarrow> string" where
  "public_t tables s key params =
    (let template = (case tables (pub_currentLocale s) key of None \<Rightarrow> tables DEFAULT_LOCALE key | Some x \<Rightarrow> Some x) in
     case template of None \<Rightarrow> key | Some x \<Rightarrow> replace_params params x)"

section \<open>Replacing is substituting\<close>

text \<open>
  A text as its author means it: literal stretches and references to parameters.
\<close>

datatype piece = Lit string | Ref string

definition piece_text :: "piece \<Rightarrow> string" where
  "piece_text p = (case p of Lit s \<Rightarrow> s | Ref k \<Rightarrow> placeholder k)"

definition template_text :: "piece list \<Rightarrow> string" where
  "template_text ps = concat (map piece_text ps)"

definition brace_free :: "string \<Rightarrow> bool" where
  "brace_free s \<longleftrightarrow> list_all (\<lambda>c. c \<noteq> CHR ''{'' \<and> c \<noteq> CHR ''}'') s"

definition piece_ok :: "piece \<Rightarrow> bool" where
  "piece_ok p = (case p of Lit s \<Rightarrow> brace_free s | Ref k \<Rightarrow> brace_free k)"

text \<open>A value that is inserted as it is, and cannot be taken for a reference.\<close>

definition plain_value :: "string \<Rightarrow> bool" where
  "plain_value x \<longleftrightarrow> brace_free x \<and> CHR ''$'' \<notin> set x"

definition substitute :: "(string \<times> string) list \<Rightarrow> piece list \<Rightarrow> string" where
  "substitute params ps = concat (map (\<lambda>p. case p of Lit s \<Rightarrow> s
     | Ref k \<Rightarrow> (case map_of params k of None \<Rightarrow> placeholder k | Some x \<Rightarrow> x)) ps)"

lemma expand_plain: "CHR ''$'' \<notin> set r \<Longrightarrow> expand_replacement before matched after r = r"
  by (induction before matched after r rule: expand_replacement.induct) auto

lemma startsWith_placeholder_iff: "js_startsWith (placeholder k) s \<longleftrightarrow> (\<exists>r. s = placeholder k @ r)"
  by (simp add: js_startsWith_iff)

lemma replace_from_Nil [simp]: "replace_from needle x before [] = []"
  by (subst replace_from.simps) simp

lemma replace_from_hit:
  "needle \<noteq> [] \<Longrightarrow> CHR ''$'' \<notin> set x \<Longrightarrow>
     replace_from needle x before (needle @ r) = x @ replace_from needle x (before @ needle) r"
  by (subst replace_from.simps) (auto simp: expand_plain js_startsWith_iff Let_def)

lemma replace_from_miss:
  "\<not> js_startsWith needle (c # s) \<Longrightarrow> replace_from needle x before (c # s) = c # replace_from needle x (before @ [c]) s"
  by (subst replace_from.simps) simp

text \<open>A stretch in which no match can start is passed over.\<close>

lemma replace_from_skip:
  assumes "\<And>c. c \<in> set s \<Longrightarrow> c \<noteq> CHR ''{''"
  shows "replace_from (placeholder k) x before (s @ r) = s @ replace_from (placeholder k) x (before @ s) r"
  using assms
proof (induction s arbitrary: before)
  case (Cons c s)
  then have "\<not> js_startsWith (placeholder k) (c # s @ r)" by (auto simp: placeholder_def js_startsWith_iff)
  then show ?case using Cons by (simp add: replace_from_miss)
qed simp

lemma brace_end_unique:
  assumes "brace_free a" and "brace_free b" and "a @ CHR ''}'' # r = b @ CHR ''}'' # q"
  shows "a = b"
  using assms
proof (induction a arbitrary: b)
  case Nil
  then show ?case by (cases b) (auto simp: brace_free_def)
next
  case (Cons c a)
  then show ?case by (cases b) (auto simp: brace_free_def)
qed

lemma other_reference_skipped:
  assumes "brace_free j" and "brace_free k" and "j \<noteq> k"
  shows "replace_from (placeholder k) x before (placeholder j @ r) =
    placeholder j @ replace_from (placeholder k) x (before @ placeholder j) r"
proof -
  have "j @ CHR ''}'' # r \<noteq> k @ CHR ''}'' # q" for q
    using brace_end_unique [OF assms(1,2)] assms(3) by blast
  then have "\<not> js_startsWith (placeholder k) (CHR ''{'' # (j @ ''}'') @ r)"
    by (simp add: placeholder_def js_startsWith_iff)
  moreover have "c \<noteq> CHR ''{''" if "c \<in> set (j @ ''}'')" for c
    using assms(1) that by (auto simp: brace_free_def list_all_iff)
  ultimately show ?thesis
    using replace_from_skip [of "j @ ''}''" k x "before @ ''{''" r] by (simp add: placeholder_def replace_from_miss)
qed

definition subst_one :: "string \<Rightarrow> string \<Rightarrow> piece \<Rightarrow> piece" where
  "subst_one k x p = (if p = Ref k then Lit x else p)"

lemma template_text_Cons: "template_text (p # ps) = piece_text p @ template_text ps"
  by (simp add: template_text_def)

lemma replace_from_template:
  assumes "list_all piece_ok ps" and "brace_free k" and "CHR ''$'' \<notin> set x"
  shows "replace_from (placeholder k) x before (template_text ps) = template_text (map (subst_one k x) ps)"
  using assms(1)
proof (induction ps arbitrary: before)
  case Nil
  then show ?case by (simp add: template_text_def)
next
  case (Cons p ps)
  show ?case
  proof (cases p)
    case (Lit s)
    then have "\<And>c. c \<in> set s \<Longrightarrow> c \<noteq> CHR ''{''" using Cons.prems by (auto simp: piece_ok_def brace_free_def list_all_iff)
    then show ?thesis using Lit Cons
      by (simp add: template_text_Cons piece_text_def subst_one_def replace_from_skip)
  next
    case (Ref j)
    then have j: "brace_free j" using Cons.prems by (simp add: piece_ok_def)
    show ?thesis
    proof (cases "j = k")
      case True
      moreover have "placeholder k \<noteq> []" by (simp add: placeholder_def)
      ultimately show ?thesis using Ref Cons assms(3)
        by (simp add: template_text_Cons piece_text_def subst_one_def replace_from_hit)
    next
      case False
      then show ?thesis using Ref Cons other_reference_skipped [OF j assms(2) False]
        by (simp add: template_text_Cons piece_text_def subst_one_def)
    qed
  qed
qed

lemma subst_one_ok: "list_all piece_ok ps \<Longrightarrow> plain_value x \<Longrightarrow> list_all piece_ok (map (subst_one k x) ps)"
  by (auto simp: list_all_iff subst_one_def piece_ok_def plain_value_def)

lemma substitute_one:
  "plain_value x \<Longrightarrow> k \<notin> fst ` set params \<Longrightarrow>
     substitute params (map (subst_one k x) ps) = substitute ((k, x) # params) ps"
  by (induction ps) (auto simp: substitute_def subst_one_def split: piece.splits)

lemma substitute_none: "substitute [] ps = template_text ps"
  by (auto simp: substitute_def template_text_def piece_text_def intro!: arg_cong [where f = concat] split: piece.split)

lemma replace_params_template:
  assumes "list_all piece_ok ps" and "list_all (\<lambda>(k, x). brace_free k \<and> plain_value x) params" and "distinct (map fst params)"
  shows "replace_params params (template_text ps) = substitute params ps"
  using assms
proof (induction params arbitrary: ps)
  case Nil
  then show ?case by (simp add: replace_params_def substitute_none)
next
  case (Cons a params)
  obtain k x where a: "a = (k, x)" by fastforce
  have k: "brace_free k" "plain_value x" using Cons.prems(2) a by auto
  then have step: "replace_all (placeholder k) x (template_text ps) = template_text (map (subst_one k x) ps)"
    using replace_from_template [OF Cons.prems(1) k(1)] by (simp add: replace_all_def plain_value_def)
  have "replace_params (a # params) (template_text ps) = replace_params params (template_text (map (subst_one k x) ps))"
    by (simp add: replace_params_def a step)
  also have "\<dots> = substitute params (map (subst_one k x) ps)"
    using Cons.IH [OF subst_one_ok [OF Cons.prems(1) k(2)]] Cons.prems by simp
  also have "\<dots> = substitute (a # params) ps"
    using substitute_one [OF k(2)] Cons.prems(3) a by simp
  finally show ?case .
qed

text \<open>
  Values that are not plain are not inserted as they are: a later parameter is looked for inside an earlier one, and
  \<open>$\<close> is an instruction to \<open>replace\<close>.
\<close>

lemma parameters_leak:
  "replace_params [(''email'', ''{status}@x.io''), (''status'', ''active'')] ''{email} {status}'' = ''active@x.io active''"
  "replace_params [(''name'', ''US$$'')] ''{name}'' = ''US$''"
  "replace_params [(''name'', ''A$&B'')] ''{name}'' = ''A{name}B''"
  by code_simp+

section \<open>Waiting and locales\<close>

lemma loadCatalog_ready: "isCatalogReady (loadCatalog answer s) \<and> i18n_waiting (loadCatalog answer s) = []"
  by (simp add: loadCatalog_def isCatalogReady_def Let_def)

text \<open>No promise is lost: each one is resolved or still waits, in the order they were made, and none waits once the table is there.\<close>

definition waiting_inv :: "I18n \<Rightarrow> bool" where
  "waiting_inv s \<longleftrightarrow> (i18n_ready s \<longrightarrow> i18n_waiting s = [])"

lemma waiters_kept:
  "waiting_inv (loadCatalog answer s) \<and> i18n_resolved (loadCatalog answer s) @ i18n_waiting (loadCatalog answer s) = i18n_resolved s @ i18n_waiting s"
  "waiting_inv s \<Longrightarrow> waiting_inv (waitForCatalog n s) \<and>
     i18n_resolved (waitForCatalog n s) @ i18n_waiting (waitForCatalog n s) = i18n_resolved s @ i18n_waiting s @ [n]"
  by (auto simp: loadCatalog_def waitForCatalog_def waiting_inv_def Let_def split: option.split)

text \<open>A finding: the comment in \<open>loadCatalog\<close> says that on a failure the table stays empty; it stays what it was.\<close>

lemma failed_load_keeps_catalog: "i18n_catalog (loadCatalog None s) = i18n_catalog s"
  by (simp add: loadCatalog_def Let_def)

lemma public_locale_survives:
  assumes "working st"
  shows "fst (public_loadFromStorage (snd (snd (setLocale l (s, Inr (Some st)))))) = l"
  using assms by (cases l)
    (simp_all add: setLocale_def public_loadFromStorage_def writeBrowserStorage_def readBrowserStorage_def getBrowserStorage_def
      put_storage_def working_calls locale_string_def)

lemma listeners_distinct:
  "distinct (pub_listeners s) \<Longrightarrow> distinct (pub_listeners (subscribeLocale f s)) \<and> distinct (pub_listeners (unsubscribeLocale f s))"
  by (auto simp: subscribeLocale_def unsubscribeLocale_def)

end
