(* ===== verification/ChatLog.thy ===== *)
theory ChatLog
  imports JsText
begin

text \<open>
  The message log that the chat machines of the demo simulator share: each machine keeps a list
  of messages, appends to it with an identifier one above the last one, and shows it with the
  identifiers as React keys. The locale \<open>chat_machine\<close> is the interface a machine offers to
  the log: every step either appends messages or starts a new log. Its lemmas show that the
  identifiers of every log a machine can produce are 1, 2, 3, ...
\<close>

datatype chat_role = Bot | User

record chat_message =
  msg_id :: nat
  msg_role :: chat_role
  msg_text :: string

definition nextMessageId :: "chat_message list \<Rightarrow> nat" where
  "nextMessageId messages = (if messages = [] then 1 else msg_id (last messages) + 1)"

definition push_message :: "chat_message list \<Rightarrow> chat_role \<Rightarrow> string \<Rightarrow> chat_message list" where
  "push_message messages r t =
     messages @ [\<lparr>msg_id = nextMessageId messages, msg_role = r, msg_text = t\<rparr>]"

fun push_all :: "chat_message list \<Rightarrow> (chat_role \<times> string) list \<Rightarrow> chat_message list" where
  "push_all messages [] = messages"
| "push_all messages ((r, t) # rts) = push_all (push_message messages r t) rts"

definition numbered :: "chat_message list \<Rightarrow> bool" where
  "numbered messages \<longleftrightarrow> map msg_id messages = [1..<Suc (length messages)]"

definition chat_run :: "('s \<Rightarrow> 'e \<Rightarrow> 's) \<Rightarrow> 's \<Rightarrow> 'e list \<Rightarrow> 's" where
  "chat_run step s es = foldl step s es"

lemma chat_run_simps [simp]:
  "chat_run step s [] = s"
  "chat_run step s (e # es) = chat_run step (step s e) es"
  by (simp_all add: chat_run_def)

lemma chat_run_append: "chat_run step s (es @ fs) = chat_run step (chat_run step s es) fs"
  by (simp add: chat_run_def)

lemma numbered_Nil [simp]: "numbered []"
  by (simp add: numbered_def)

lemma push_message_not_Nil [simp]: "push_message ms r t \<noteq> []"
  by (simp add: push_message_def)

lemma numbered_last:
  assumes "numbered ms" and "ms \<noteq> []"
  shows "msg_id (last ms) = length ms"
proof -
  have "last (map msg_id ms) = msg_id (last ms)" using assms(2) by (simp add: last_map)
  moreover have "last (map msg_id ms) = length ms"
    using assms by (cases ms) (simp_all add: numbered_def)
  ultimately show ?thesis by simp
qed

lemma numbered_nextMessageId: "numbered ms \<Longrightarrow> nextMessageId ms = Suc (length ms)"
  by (simp add: nextMessageId_def numbered_last)

lemma numbered_push_message [simp]: "numbered ms \<Longrightarrow> numbered (push_message ms r t)"
  by (simp add: push_message_def numbered_nextMessageId) (simp add: numbered_def)

lemma numbered_push_all: "numbered ms \<Longrightarrow> numbered (push_all ms rts)"
  by (induction ms rts rule: push_all.induct) auto

lemma push_all_not_Nil: "ms \<noteq> [] \<or> rts \<noteq> [] \<Longrightarrow> push_all ms rts \<noteq> []"
  by (induction ms rts rule: push_all.induct) auto

lemma numbered_distinct: "numbered ms \<Longrightarrow> distinct (map msg_id ms)"
  by (simp add: numbered_def)

lemma numbered_nth: "numbered ms \<Longrightarrow> i < length ms \<Longrightarrow> msg_id (ms ! i) = Suc i"
proof -
  assume n: "numbered ms" and i: "i < length ms"
  then have "map msg_id ms ! i = [1..<Suc (length ms)] ! i" by (simp add: numbered_def)
  with i show ?thesis by (simp del: upt_Suc)
qed

text \<open>\<open>extends_log old new\<close>: the new log is the old one with messages appended, or a fresh log.\<close>

definition extends_log :: "chat_message list \<Rightarrow> chat_message list \<Rightarrow> bool" where
  "extends_log old new \<longleftrightarrow> (\<exists>rts. new = push_all old rts \<or> (rts \<noteq> [] \<and> new = push_all [] rts))"

lemma extends_log_refl [chat_simps, intro]: "extends_log old old"
  unfolding extends_log_def by (rule exI [of _ "[]"]) simp

lemma extends_log_push [chat_simps]: "extends_log old (push_message old r t)"
  unfolding extends_log_def by (rule exI [of _ "[(r, t)]"]) simp

lemma extends_log_push2 [chat_simps]: "extends_log old (push_message (push_message old r t) r' t')"
  unfolding extends_log_def by (rule exI [of _ "[(r, t), (r', t')]"]) simp

lemma extends_log_fresh [chat_simps]: "extends_log old (push_message [] r t)"
  unfolding extends_log_def by (rule exI [of _ "[(r, t)]"]) simp

lemma extends_log_fresh2 [chat_simps]: "extends_log old (push_message (push_message [] r t) r' t')"
  unfolding extends_log_def by (rule exI [of _ "[(r, t), (r', t')]"]) simp

lemma extends_log_numbered: "extends_log old new \<Longrightarrow> numbered old \<Longrightarrow> numbered new"
  unfolding extends_log_def by (auto intro: numbered_push_all)

lemma extends_log_not_Nil: "extends_log old new \<Longrightarrow> old \<noteq> [] \<Longrightarrow> new \<noteq> []"
  unfolding extends_log_def using push_all_not_Nil by metis

locale chat_machine =
  fixes log_of :: "'s \<Rightarrow> chat_message list"
    and start :: "'s \<Rightarrow> bool"
    and step :: "'s \<Rightarrow> 'e \<Rightarrow> 's"
  assumes start_log: "start s \<Longrightarrow> numbered (log_of s) \<and> log_of s \<noteq> []"
    and step_log: "extends_log (log_of s) (log_of (step s e))"
begin

lemma run_numbered:
  "numbered (log_of s) \<Longrightarrow> log_of s \<noteq> [] \<Longrightarrow>
     numbered (log_of (chat_run step s es)) \<and> log_of (chat_run step s es) \<noteq> []"
proof (induction es arbitrary: s)
  case (Cons e es)
  from step_log Cons.prems(1) have "numbered (log_of (step s e))"
    by (rule extends_log_numbered)
  moreover from step_log Cons.prems(2) have "log_of (step s e) \<noteq> []"
    by (rule extends_log_not_Nil)
  ultimately show ?case by (simp add: Cons.IH)
qed simp

lemma reachable_numbered:
  "start s \<Longrightarrow> numbered (log_of (chat_run step s es)) \<and> log_of (chat_run step s es) \<noteq> []"
  using run_numbered start_log by blast

lemma reachable_ids:
  assumes "start s"
  shows "map msg_id (log_of (chat_run step s es)) = [1..<Suc (length (log_of (chat_run step s es)))]"
  using reachable_numbered [OF assms] by (simp add: numbered_def)

end

end
