(* ===== verification/ConsoleText.thy ===== *)
theory ConsoleText
  imports DataSource I18n ChatLog
begin

text \<open>
  What the consoles of the Pro demo share (\<open>features/demo/components/*-console-experience.tsx\<close>): the world a console acts on, the way
  it asks the data source and reports a failure, the texts it composes, lists shown four at a time and the choice of an entry
  by number. A console runs in demo mode only, where every operation of the data source settles without leaving the
  microtask queue: no event and no timer falls inside a handler, so a handler is one step.
\<close>

section \<open>The world of a console\<close>

text \<open>What a console tells its surroundings: its three callbacks and the caches of \<open>store/catalog.ts\<close> it invalidates.\<close>

datatype console_call = OnBack | OnCancel | OnChanged | InvalidateClients | InvalidateServices | InvalidatePlans

text \<open>\<open>cw_console\<close> is the state of its own; \<open>cw_ops\<close> is a ghost, the operations asked so far.\<close>

record 's console_world =
  cw_console :: 's
  cw_messages :: "chat_message list"
  cw_busy :: bool
  cw_loading :: bool
  cw_loadError :: bool
  cw_repo :: DemoWorkspaceRepository
  cw_calls :: "console_call list"
  cw_ops :: "data_op list"

text \<open>
  The table of translations, the metadata of the demo, the surroundings of the data source, the clock (the time of the
  n-th operation), \<open>Intl.DateTimeFormat\<close> with \<open>dateStyle: "medium"\<close>, and what the engine's \<open>Date\<close> makes of a text that
  is not an ISO date.
\<close>

record console_env =
  ce_catalog :: "(string \<times> string) list"
  ce_demo :: DemoAuthMetadata
  ce_around :: surroundings
  ce_clock :: "nat \<Rightarrow> int"
  ce_format :: "int \<Rightarrow> string"
  ce_legacy :: "string \<Rightarrow> int option"

type_synonym ('s, 'a) console_act = "('s console_world, demo_error, 'a) act"

text \<open>Steps in the order they are written.\<close>

definition seq :: "('w \<Rightarrow> 'w) list \<Rightarrow> 'w \<Rightarrow> 'w" where
  "seq fs w = foldl (\<lambda>v f. f v) w fs"

lemma seq_simps [simp]: "seq [] w = w" "seq (f # fs) w = seq fs (f w)"
  by (simp_all add: seq_def)

definition setc :: "('s \<Rightarrow> 's) \<Rightarrow> 's console_world \<Rightarrow> 's console_world" where
  "setc f w = w\<lparr>cw_console := f (cw_console w)\<rparr>"

definition append_message :: "chat_message list \<Rightarrow> chat_role \<Rightarrow> string \<Rightarrow> chat_message list" where
  "append_message current role txt = current @ [\<lparr>msg_id = length current + 1, msg_role = role, msg_text = txt\<rparr>]"

definition say :: "chat_role \<Rightarrow> string \<Rightarrow> 's console_world \<Rightarrow> 's console_world" where
  "say role txt w = w\<lparr>cw_messages := append_message (cw_messages w) role txt\<rparr>"

definition bot :: "string \<Rightarrow> 's console_world \<Rightarrow> 's console_world" where
  "bot txt w = say Bot txt w"

definition tell :: "console_call list \<Rightarrow> 's console_world \<Rightarrow> 's console_world" where
  "tell cs w = w\<lparr>cw_calls := cw_calls w @ cs\<rparr>"

definition setBusy :: "bool \<Rightarrow> 's console_world \<Rightarrow> 's console_world" where
  "setBusy b w = w\<lparr>cw_busy := b\<rparr>"

definition adone :: "('w \<Rightarrow> 'w) \<Rightarrow> ('w, 'e, unit) act" where
  "adone f w = (Inr (), f w)"

text \<open>\<open>try { await m } catch (error) { onError }\<close>, and the same between \<open>setBusy(true)\<close> and \<open>setBusy(false)\<close>.\<close>

definition attempt :: "('w, 'e, unit) act \<Rightarrow> ('e \<Rightarrow> 'w \<Rightarrow> 'w) \<Rightarrow> 'w \<Rightarrow> 'w" where
  "attempt m onError w = (case m w of (Inl e, w') \<Rightarrow> onError e w' | (Inr _, w') \<Rightarrow> w')"

definition with_busy :: "('s, unit) console_act \<Rightarrow> (demo_error \<Rightarrow> 's console_world \<Rightarrow> 's console_world) \<Rightarrow> 's console_world \<Rightarrow> 's console_world" where
  "with_busy m onError w = setBusy False (attempt m onError (setBusy True w))"

text \<open>\<open>Promise.all(xs.map(f))\<close>: all calls are made, the first failure is the result.\<close>

fun all_of :: "('x \<Rightarrow> ('w, 'e, 'a) act) \<Rightarrow> 'x list \<Rightarrow> ('w, 'e, 'a list) act" where
  "all_of f [] w = (Inr [], w)"
| "all_of f (x # xs) w = (case f x w of (r, w1) \<Rightarrow>
     (case all_of f xs w1 of (rs, w2) \<Rightarrow> (ebind r (\<lambda>y. ebind rs (\<lambda>ys. Inr (y # ys))), w2)))"

section \<open>Asking the data source\<close>

definition ask :: "console_env \<Rightarrow> data_op \<Rightarrow> (int \<Rightarrow> 'a repo_act) \<Rightarrow> ('s, 'a) console_act" where
  "ask ce call run w = (case run (ce_clock ce (length (cw_ops w))) (cw_repo w) of
     (r, repo) \<Rightarrow> (r, w\<lparr>cw_repo := repo, cw_ops := cw_ops w @ [call]\<rparr>))"

definition ask_clients :: "console_env \<Rightarrow> ('s, Client list) console_act" where
  "ask_clients ce = ask ce ListClients (client_list (ce_demo ce))"

definition ask_createClient :: "console_env \<Rightarrow> ClientCreate \<Rightarrow> ('s, Client) console_act" where
  "ask_createClient ce p = ask ce (CreateClient p) (\<lambda>now. client_create (ce_demo ce) now p)"

definition ask_updateClient :: "console_env \<Rightarrow> string \<Rightarrow> ClientUpdate \<Rightarrow> ('s, Client) console_act" where
  "ask_updateClient ce k p = ask ce (UpdateClient k p) (\<lambda>now. client_update (ce_demo ce) now k p)"

definition ask_activate :: "console_env \<Rightarrow> string \<Rightarrow> ('s, Client) console_act" where
  "ask_activate ce k = ask ce (ActivateClient k) (\<lambda>now. client_activate (ce_demo ce) now k)"

definition ask_deactivate :: "console_env \<Rightarrow> string \<Rightarrow> ('s, Client) console_act" where
  "ask_deactivate ce k = ask ce (DeactivateClient k) (\<lambda>now. client_deactivate (ce_demo ce) now k)"

definition ask_clientPreview :: "console_env \<Rightarrow> string \<Rightarrow> ('s, DeletePreview) console_act" where
  "ask_clientPreview ce k = ask ce (PreviewClient k) (\<lambda>now. client_getDeletePreview (ce_demo ce) now k)"

definition ask_deleteClient :: "console_env \<Rightarrow> string \<Rightarrow> ('s, unit) console_act" where
  "ask_deleteClient ce k = ask ce (DeleteClient k) (\<lambda>now. client_delete (ce_demo ce) now k)"

definition ask_services :: "console_env \<Rightarrow> ('s, Service list) console_act" where
  "ask_services ce = ask ce ListServices (listServices (en_collate_base (ce_around ce)) (en_collate (ce_around ce)) (ce_demo ce))"

definition ask_createService :: "console_env \<Rightarrow> ServiceCreate \<Rightarrow> ('s, Service) console_act" where
  "ask_createService ce p = ask ce (CreateService p) (\<lambda>now. createService (ce_demo ce) now p)"

definition ask_updateService :: "console_env \<Rightarrow> string \<Rightarrow> ServiceUpdate \<Rightarrow> ('s, Service) console_act" where
  "ask_updateService ce k p = ask ce (UpdateService k p) (\<lambda>now. updateService (ce_demo ce) now k p)"

definition ask_servicePreview :: "console_env \<Rightarrow> string \<Rightarrow> ('s, DeletePreview) console_act" where
  "ask_servicePreview ce k = ask ce (PreviewService k) (\<lambda>now. getServiceDeletePreview (ce_demo ce) now k)"

definition ask_deleteService :: "console_env \<Rightarrow> string \<Rightarrow> ('s, unit) console_act" where
  "ask_deleteService ce k = ask ce (DeleteService k) (\<lambda>now. deleteService (ce_demo ce) now k)"

definition ask_plans :: "console_env \<Rightarrow> string \<Rightarrow> ('s, Plan list) console_act" where
  "ask_plans ce k = ask ce (ListPlans k) (\<lambda>now. listPlans (en_collate_base (ce_around ce)) (en_collate (ce_around ce)) (ce_demo ce) now k)"

definition ask_createPlan :: "console_env \<Rightarrow> string \<Rightarrow> PlanCreate \<Rightarrow> ('s, Plan) console_act" where
  "ask_createPlan ce k p = ask ce (CreatePlan k p) (\<lambda>now. createPlan (ce_demo ce) now k p)"

definition ask_updatePlan :: "console_env \<Rightarrow> string \<Rightarrow> string \<Rightarrow> PlanUpdate \<Rightarrow> ('s, Plan) console_act" where
  "ask_updatePlan ce k q p = ask ce (UpdatePlan k q p) (\<lambda>now. updatePlan (ce_demo ce) now k q p)"

definition ask_planPreview :: "console_env \<Rightarrow> string \<Rightarrow> string \<Rightarrow> ('s, DeletePreview) console_act" where
  "ask_planPreview ce k q = ask ce (PreviewPlan k q) (\<lambda>now. getPlanDeletePreview (ce_demo ce) now k q)"

definition ask_deletePlan :: "console_env \<Rightarrow> string \<Rightarrow> string \<Rightarrow> ('s, unit) console_act" where
  "ask_deletePlan ce k q = ask ce (DeletePlan k q) (\<lambda>now. deletePlan (ce_demo ce) now k q)"

definition no_filters :: SubscriptionFilters where
  "no_filters = \<lparr>sf_status = None, sf_client_id = None, sf_service_id = None, sf_quick_filter = None\<rparr>"

definition ask_subscriptions :: "console_env \<Rightarrow> ('s, Subscription list) console_act" where
  "ask_subscriptions ce = ask ce (ListSubscriptions no_filters) (\<lambda>now. sub_list (en_collate (ce_around ce)) (ce_demo ce) now no_filters)"

definition ask_createSubscription :: "console_env \<Rightarrow> SubscriptionCreate \<Rightarrow> ('s, Subscription) console_act" where
  "ask_createSubscription ce p = ask ce (CreateSubscription p) (\<lambda>now. sub_create (ce_demo ce) now p)"

definition ask_updateSubscription :: "console_env \<Rightarrow> string \<Rightarrow> SubscriptionUpdate \<Rightarrow> ('s, Subscription) console_act" where
  "ask_updateSubscription ce k p = ask ce (UpdateSubscription k p) (\<lambda>now. sub_update (ce_demo ce) now k p)"

definition ask_reveal :: "console_env \<Rightarrow> string \<Rightarrow> ('s, RevealCredentials) console_act" where
  "ask_reveal ce k = ask ce (RevealSubscription k) (\<lambda>now. sub_reveal (ce_demo ce) now k)"

definition ask_cancel :: "console_env \<Rightarrow> string \<Rightarrow> ('s, Subscription) console_act" where
  "ask_cancel ce k = ask ce (CancelSubscription k) (\<lambda>now. sub_cancel (ce_demo ce) now k)"

definition ask_renew :: "console_env \<Rightarrow> string \<Rightarrow> string \<Rightarrow> string option \<Rightarrow> ('s, Subscription) console_act" where
  "ask_renew ce k d e = ask ce (RenewSubscription k d e) (\<lambda>now. sub_renew (ce_demo ce) now k d e)"

definition ask_reactivate :: "console_env \<Rightarrow> string \<Rightarrow> string option \<Rightarrow> string option \<Rightarrow> string option \<Rightarrow> ('s, Subscription) console_act" where
  "ask_reactivate ce k d st e = ask ce (ReactivateSubscription k d st e) (\<lambda>now. sub_reactivate (ce_demo ce) now k d st e)"

definition ask_profile :: "console_env \<Rightarrow> ('s, Profile) console_act" where
  "ask_profile ce = ask ce LoadProfile (loadProfile (ce_demo ce))"

definition ask_updateProfile :: "console_env \<Rightarrow> ProfileUpdate \<Rightarrow> ('s, Profile) console_act" where
  "ask_updateProfile ce p = ask ce (UpdateProfile p) (\<lambda>now. updateProfile (ce_demo ce) now p)"

definition ask_codeServices :: "console_env \<Rightarrow> ('s, string \<times> TenantCodeService list) console_act" where
  "ask_codeServices ce = ask ce LoadCodeServices (loadCodeServices (ce_demo ce))"

definition ask_blocks :: "console_env \<Rightarrow> ('s, AccessControlBlock list) console_act" where
  "ask_blocks ce = ask ce ListAccessBlocks (listAccessBlocks (ce_demo ce))"

definition ask_createBlock :: "console_env \<Rightarrow> string \<Rightarrow> ('s, AccessControlBlock) console_act" where
  "ask_createBlock ce ph = ask ce (CreateAccessBlock ph) (\<lambda>now. createAccessBlock (ce_demo ce) now ph)"

definition ask_deleteBlock :: "console_env \<Rightarrow> string \<Rightarrow> ('s, unit) console_act" where
  "ask_deleteBlock ce k = ask ce (DeleteAccessBlock k) (\<lambda>now. deleteAccessBlock now k)"

lemmas ask_defs = ask_profile_def ask_updateProfile_def ask_codeServices_def ask_blocks_def ask_createBlock_def ask_deleteBlock_def
  ask_subscriptions_def ask_createSubscription_def ask_updateSubscription_def ask_reveal_def ask_cancel_def ask_renew_def
  ask_reactivate_def ask_clients_def ask_createClient_def ask_updateClient_def ask_activate_def ask_deactivate_def
  ask_clientPreview_def ask_deleteClient_def ask_services_def ask_createService_def ask_updateService_def
  ask_servicePreview_def ask_deleteService_def ask_plans_def ask_createPlan_def ask_updatePlan_def ask_planPreview_def ask_deletePlan_def

section \<open>Texts\<close>

definition tr :: "console_env \<Rightarrow> string \<Rightarrow> (string \<times> string) list \<Rightarrow> string" where
  "tr ce key params = translate (ce_catalog ce) key params"

text \<open>\<open>t("frontend.demo_simulator.\<dots>")\<close>, the prefix of most keys.\<close>

definition sim :: "console_env \<Rightarrow> string \<Rightarrow> (string \<times> string) list \<Rightarrow> string" where
  "sim ce key params = tr ce (''frontend.demo_simulator.'' @ key) params"

definition nl :: string where
  "nl = [CHR 0x0A]"

text \<open>The em dash lies outside Latin-1; the control character 151, which no text uses, stands for it.\<close>

definition EM_DASH :: string where
  "EM_DASH = [CHR 0x97]"

definition parse_date :: "console_env \<Rightarrow> string \<Rightarrow> int option" where
  "parse_date ce txt = (case Date_parse txt of Some time \<Rightarrow> Some time | None \<Rightarrow> ce_legacy ce txt)"

definition formatDate :: "console_env \<Rightarrow> string \<Rightarrow> string" where
  "formatDate ce value = (case parse_date ce value of None \<Rightarrow> value | Some time \<Rightarrow> ce_format ce time)"

definition storage_code :: "DemoWorkspaceStorageState \<Rightarrow> string" where
  "storage_code s = (if s = Quota_exceeded then ''demo_workspace_quota_exceeded'' else ''demo_workspace_storage_unavailable'')"

text \<open>\<open>errorCode\<close>: the code of an error that has one, else the message.\<close>

definition errorCode :: "demo_error \<Rightarrow> string option" where
  "errorCode err = (case err of
     StorageError s \<Rightarrow> Some (storage_code s)
   | PlainError message \<Rightarrow> Some message
   | DomainError cls kind message \<Rightarrow> Some kind
   | RangeError \<Rightarrow> Some ''Invalid time value''
   | OffType \<Rightarrow> None)"

definition error_text :: "demo_error \<Rightarrow> string" where
  "error_text err = (case err of DomainError cls kind message \<Rightarrow> message | _ \<Rightarrow> (case errorCode err of None \<Rightarrow> [] | Some m \<Rightarrow> m))"

text \<open>\<open>errorMessage\<close> with the table of the console.\<close>

definition message_for :: "console_env \<Rightarrow> (string \<times> string) list \<Rightarrow> demo_error \<Rightarrow> string" where
  "message_for ce keys err = (case errorCode err of None \<Rightarrow> sim ce ''operation_error'' []
   | Some c \<Rightarrow> (case map_of keys c of None \<Rightarrow> sim ce ''operation_error'' [] | Some k \<Rightarrow> tr ce k []))"

section \<open>Lists and choices\<close>

definition CONSOLE_PAGE_SIZE :: nat where
  "CONSOLE_PAGE_SIZE = 4"

definition console_totalPages :: "'a list \<Rightarrow> nat" where
  "console_totalPages xs = page_count (length xs) CONSOLE_PAGE_SIZE"

definition page_slice :: "nat \<Rightarrow> 'a list \<Rightarrow> 'a list" where
  "page_slice page xs = slice (page * CONSOLE_PAGE_SIZE) ((page + 1) * CONSOLE_PAGE_SIZE) xs"

text \<open>The entry with the number typed, counted from the start of the page.\<close>

definition chosen :: "nat \<Rightarrow> 'a list \<Rightarrow> string \<Rightarrow> 'a option" where
  "chosen page xs txt = (case parseInt txt of None \<Rightarrow> None
   | Some n \<Rightarrow> if n > 0 then js_at xs (page * CONSOLE_PAGE_SIZE + nat n - 1) else None)"

text \<open>The entry with the number typed, counted from one.\<close>

definition selectedFrom :: "'a list \<Rightarrow> string \<Rightarrow> 'a option" where
  "selectedFrom xs txt = (case parseInt txt of None \<Rightarrow> None | Some n \<Rightarrow> if n - 1 \<ge> 0 then js_at xs (nat (n - 1)) else None)"

text \<open>\<open>/^confirm(ar)?$/i\<close>.\<close>

definition confirms :: "string \<Rightarrow> bool" where
  "confirms txt \<longleftrightarrow> toLowerCase txt \<in> {''confirm'', ''confirmar''}"

definition skips :: "string \<Rightarrow> bool" where
  "skips txt \<longleftrightarrow> toLowerCase txt \<in> {''-'', ''skip'', ''none''}"

text \<open>
  A text looked up in an object literal also finds what the object inherits: a table of choices indexed by what was typed has these entries
  too, all of them functions or objects and none with an entry of its own at \<open>0\<close> or \<open>1\<close>.
\<close>

definition object_names :: "string list" where
  "object_names = [''constructor'', ''__defineGetter__'', ''__defineSetter__'', ''hasOwnProperty'', ''__lookupGetter__'', ''__lookupSetter__'',
     ''isPrototypeOf'', ''propertyIsEnumerable'', ''toString'', ''valueOf'', ''__proto__'', ''toLocaleString'']"

definition inherited :: "string \<Rightarrow> bool" where
  "inherited txt \<longleftrightarrow> txt \<in> set object_names"

text \<open>The lines that end a list.\<close>

definition back_cancel :: "console_env \<Rightarrow> string list" where
  "back_cancel ce = [''9. '' @ sim ce ''back'' [], ''0. '' @ sim ce ''cancel'' []]"

definition next_line :: "console_env \<Rightarrow> bool \<Rightarrow> string list" where
  "next_line ce has_more = (if has_more then [''8. '' @ sim ce ''next'' []] else [])"

section \<open>Lemmas\<close>

lemma chosen_in: "chosen page xs txt = Some x \<Longrightarrow> x \<in> set xs"
  by (auto simp: chosen_def split: option.splits if_splits dest: js_at_SomeD)

lemma numbered_append [simp]: "numbered ms \<Longrightarrow> numbered (append_message ms r txt)"
  by (simp add: numbered_def append_message_def)

text \<open>What the small steps do to each part of the world.\<close>

lemma world_steps [simp]:
  "cw_console (setc f w) = f (cw_console w)" "cw_messages (setc f w) = cw_messages w" "cw_busy (setc f w) = cw_busy w"
  "cw_repo (setc f w) = cw_repo w" "cw_calls (setc f w) = cw_calls w" "cw_ops (setc f w) = cw_ops w"
  "cw_loading (setc f w) = cw_loading w" "cw_loadError (setc f w) = cw_loadError w"
  "cw_console (say role x w) = cw_console w" "cw_messages (say role x w) = append_message (cw_messages w) role x"
  "cw_busy (say role x w) = cw_busy w" "cw_repo (say role x w) = cw_repo w" "cw_calls (say role x w) = cw_calls w"
  "cw_ops (say role x w) = cw_ops w" "cw_loading (say role x w) = cw_loading w" "cw_loadError (say role x w) = cw_loadError w"
  "cw_console (bot x w) = cw_console w" "cw_messages (bot x w) = append_message (cw_messages w) Bot x"
  "cw_busy (bot x w) = cw_busy w" "cw_repo (bot x w) = cw_repo w" "cw_calls (bot x w) = cw_calls w"
  "cw_ops (bot x w) = cw_ops w" "cw_loading (bot x w) = cw_loading w" "cw_loadError (bot x w) = cw_loadError w"
  by (simp_all add: setc_def say_def bot_def)

lemma world_steps2 [simp]:
  "cw_console (tell cs w) = cw_console w" "cw_messages (tell cs w) = cw_messages w" "cw_busy (tell cs w) = cw_busy w"
  "cw_repo (tell cs w) = cw_repo w" "cw_calls (tell cs w) = cw_calls w @ cs" "cw_ops (tell cs w) = cw_ops w"
  "cw_loading (tell cs w) = cw_loading w" "cw_loadError (tell cs w) = cw_loadError w"
  "cw_console (setBusy b w) = cw_console w" "cw_messages (setBusy b w) = cw_messages w" "cw_busy (setBusy b w) = b"
  "cw_repo (setBusy b w) = cw_repo w" "cw_calls (setBusy b w) = cw_calls w" "cw_ops (setBusy b w) = cw_ops w"
  "cw_loading (setBusy b w) = cw_loading w" "cw_loadError (setBusy b w) = cw_loadError w"
  by (simp_all add: tell_def setBusy_def)

definition ready_for_input :: "'s console_world \<Rightarrow> bool" where
  "ready_for_input w \<longleftrightarrow> \<not> cw_busy w \<and> \<not> cw_loading w \<and> \<not> cw_loadError w"

section \<open>Effects of a handler\<close>

text \<open>
  A handler is judged by what it does to the workspace and by what it asks: a predicate of the two is kept by every small step, and by
  a composition when each request in it keeps it.
\<close>

definition on_data :: "(DemoWorkspaceRepository \<Rightarrow> data_op list \<Rightarrow> bool) \<Rightarrow> 's console_world \<Rightarrow> bool" where
  "on_data J w \<longleftrightarrow> J (cw_repo w) (cw_ops w)"

definition keeps :: "('w \<Rightarrow> bool) \<Rightarrow> ('w \<Rightarrow> 'w) \<Rightarrow> bool" where
  "keeps I f \<longleftrightarrow> (\<forall>w. I w \<longrightarrow> I (f w))"

definition act_keeps :: "('w \<Rightarrow> bool) \<Rightarrow> ('w, 'e, 'a) act \<Rightarrow> bool" where
  "act_keeps I m \<longleftrightarrow> (\<forall>w. I w \<longrightarrow> I (snd (m w)))"

lemma on_data_steps [simp]:
  "on_data J (setc f w) = on_data J w" "on_data J (say role x w) = on_data J w" "on_data J (bot x w) = on_data J w"
  "on_data J (tell cs w) = on_data J w" "on_data J (setBusy b w) = on_data J w"
  by (simp_all add: on_data_def)

lemma keepsI: "(\<And>w. I w \<Longrightarrow> I (f w)) \<Longrightarrow> keeps I f"
  by (simp add: keeps_def)

lemma keepsD: "keeps I f \<Longrightarrow> I w \<Longrightarrow> I (f w)"
  by (simp add: keeps_def)

lemma keeps_seq: "list_all (keeps I) fs \<Longrightarrow> keeps I (seq fs)"
proof (rule keepsI)
  fix w
  assume "list_all (keeps I) fs" and "I w"
  then show "I (seq fs w)" by (induction fs arbitrary: w) (simp_all add: keepsD)
qed

lemma keeps_small [simp]:
  "keeps (on_data J) (setc f)" "keeps (on_data J) (say role x)" "keeps (on_data J) (bot x)" "keeps (on_data J) (tell cs)"
  "keeps (on_data J) (setBusy b)" "keeps (on_data J) id"
  by (simp_all add: keeps_def)

lemma act_keeps_bind: "act_keeps I m \<Longrightarrow> (\<And>a. act_keeps I (f a)) \<Longrightarrow> act_keeps I (abind m f)"
  unfolding act_keeps_def abind_def by (simp split: prod.split sum.split) fastforce

lemma act_keeps_then: "act_keeps I m \<Longrightarrow> act_keeps I n \<Longrightarrow> act_keeps I (athen m n)"
  unfolding athen_def by (rule act_keeps_bind)

lemma act_keeps_adone: "keeps I f \<Longrightarrow> act_keeps I (adone f)"
  by (simp add: act_keeps_def keeps_def adone_def)

lemma act_keeps_alift: "act_keeps I (alift x)"
  by (simp add: act_keeps_def alift_def)

lemma act_keeps_all_of:
  assumes "\<And>x. act_keeps I (f x)"
  shows "act_keeps I (all_of f xs)"
proof -
  have "I w \<Longrightarrow> I (snd (all_of f xs w))" for w
  proof (induction xs arbitrary: w)
    case (Cons x xs)
    then have "I (snd (f x w))" using assms by (simp add: act_keeps_def)
    then show ?case using Cons.IH [of "snd (f x w)"] by (simp add: case_prod_beta)
  qed simp
  then show ?thesis by (simp add: act_keeps_def)
qed

lemma keeps_attempt: "act_keeps I m \<Longrightarrow> (\<And>e. keeps I (h e)) \<Longrightarrow> keeps I (attempt m h)"
  unfolding keeps_def act_keeps_def attempt_def by (simp split: prod.split sum.split) fastforce

lemma keeps_with_busy:
  assumes "act_keeps (on_data J) m" and "\<And>e. keeps (on_data J) (h e)"
  shows "on_data J w \<Longrightarrow> on_data J (with_busy m h w)"
  using keepsD [OF keeps_attempt [OF assms], of "setBusy True w"] by (simp add: with_busy_def)

section \<open>Requests\<close>

text \<open>A request does to the workspace what the operation of the data source does.\<close>

definition runs :: "console_env \<Rightarrow> data_op \<Rightarrow> (int \<Rightarrow> 'a repo_act) \<Rightarrow> bool" where
  "runs ce call run \<longleftrightarrow> (\<forall>now r. snd (run now r) = snd (demo_run ((ce_around ce)\<lparr>en_now := now\<rparr>) (ce_demo ce) call r))"

lemma snd_ignore [simp]: "snd (ignore m r) = snd (m r)"
  by (simp add: ignore_def abind_def areturn_def split: prod.split sum.split)

lemma runs_client [simp]:
  "runs ce ListClients (client_list (ce_demo ce))"
  "runs ce (CreateClient p) (\<lambda>now. client_create (ce_demo ce) now p)"
  "runs ce (UpdateClient k cu) (\<lambda>now. client_update (ce_demo ce) now k cu)"
  "runs ce (ActivateClient k) (\<lambda>now. client_activate (ce_demo ce) now k)"
  "runs ce (DeactivateClient k) (\<lambda>now. client_deactivate (ce_demo ce) now k)"
  "runs ce (PreviewClient k) (\<lambda>now. client_getDeletePreview (ce_demo ce) now k)"
  "runs ce (DeleteClient k) (\<lambda>now. client_delete (ce_demo ce) now k)"
  by (simp_all add: runs_def demo_run_def Let_def)

lemma runs_catalog [simp]:
  "runs ce ListServices (listServices (en_collate_base (ce_around ce)) (en_collate (ce_around ce)) (ce_demo ce))"
  "runs ce (CreateService sp) (\<lambda>now. createService (ce_demo ce) now sp)"
  "runs ce (UpdateService k su) (\<lambda>now. updateService (ce_demo ce) now k su)"
  "runs ce (PreviewService k) (\<lambda>now. getServiceDeletePreview (ce_demo ce) now k)"
  "runs ce (DeleteService k) (\<lambda>now. deleteService (ce_demo ce) now k)"
  "runs ce (ListPlans k) (\<lambda>now. listPlans (en_collate_base (ce_around ce)) (en_collate (ce_around ce)) (ce_demo ce) now k)"
  "runs ce (CreatePlan k pp) (\<lambda>now. createPlan (ce_demo ce) now k pp)"
  "runs ce (UpdatePlan k q pu) (\<lambda>now. updatePlan (ce_demo ce) now k q pu)"
  "runs ce (PreviewPlan k q) (\<lambda>now. getPlanDeletePreview (ce_demo ce) now k q)"
  "runs ce (DeletePlan k q) (\<lambda>now. deletePlan (ce_demo ce) now k q)"
  by (simp_all add: runs_def demo_run_def Let_def)

lemma runs_subscriptions [simp]:
  "runs ce (ListSubscriptions f) (\<lambda>now. sub_list (en_collate (ce_around ce)) (ce_demo ce) now f)"
  "runs ce (CreateSubscription sc) (\<lambda>now. sub_create (ce_demo ce) now sc)"
  "runs ce (UpdateSubscription k sx) (\<lambda>now. sub_update (ce_demo ce) now k sx)"
  "runs ce (RevealSubscription k) (\<lambda>now. sub_reveal (ce_demo ce) now k)"
  "runs ce (CancelSubscription k) (\<lambda>now. sub_cancel (ce_demo ce) now k)"
  "runs ce (RenewSubscription k d e) (\<lambda>now. sub_renew (ce_demo ce) now k d e)"
  "runs ce (ReactivateSubscription k od os oe) (\<lambda>now. sub_reactivate (ce_demo ce) now k od os oe)"
  by (simp_all add: runs_def demo_run_def Let_def)

lemma runs_settings [simp]:
  "runs ce LoadProfile (loadProfile (ce_demo ce))"
  "runs ce (UpdateProfile pu) (\<lambda>now. updateProfile (ce_demo ce) now pu)"
  "runs ce LoadCodeServices (loadCodeServices (ce_demo ce))"
  "runs ce ListAccessBlocks (listAccessBlocks (ce_demo ce))"
  "runs ce (CreateAccessBlock ph) (\<lambda>now. createAccessBlock (ce_demo ce) now ph)"
  "runs ce (DeleteAccessBlock k) (\<lambda>now. deleteAccessBlock now k)"
  by (simp_all add: runs_def demo_run_def Let_def)

text \<open>
  The interface between a console and what is proved of the data source: a predicate of the workspace and the operations
  asked that the allowed operations keep. A console whose requests are all allowed keeps it.
\<close>

locale data_closed =
  fixes ce :: console_env
    and J :: "DemoWorkspaceRepository \<Rightarrow> data_op list \<Rightarrow> bool"
    and allowed :: "data_op \<Rightarrow> bool"
  assumes closed: "allowed call \<Longrightarrow> now \<in> range (ce_clock ce) \<Longrightarrow> J r ops \<Longrightarrow>
    J (snd (demo_run ((ce_around ce)\<lparr>en_now := now\<rparr>) (ce_demo ce) call r)) (ops @ [call])"
begin

lemma keeps_ask:
  assumes "runs ce call run" and "allowed call"
  shows "act_keeps (on_data J) (ask ce call run)"
  using closed [OF assms(2)] assms(1) unfolding act_keeps_def ask_def on_data_def runs_def by (simp add: case_prod_beta)

text \<open>A request whose reply is processed by something that asks nothing, and one followed by a reload.\<close>

lemma keeps_question:
  assumes "runs ce call run" and "allowed call" and "\<And>x. keeps (on_data J) (f x)" and "\<And>e. keeps (on_data J) (h e)"
    and "on_data J w"
  shows "on_data J (with_busy (abind (ask ce call run) (\<lambda>x. adone (f x))) h w)"
  by (intro keeps_with_busy act_keeps_bind keeps_ask act_keeps_adone assms)

end

text \<open>The requests made since \<open>old\<close>, all of them in \<open>A\<close>.\<close>

definition asked :: "data_op list \<Rightarrow> (data_op \<Rightarrow> bool) \<Rightarrow> DemoWorkspaceRepository \<Rightarrow> data_op list \<Rightarrow> bool" where
  "asked old A r ops \<longleftrightarrow> (\<exists>new. ops = old @ new \<and> list_all A new)"

lemma asked_refl [simp]: "asked ops A r ops"
  by (simp add: asked_def)

lemma asked_new: "asked old A r ops \<Longrightarrow> call \<in> set (drop (length old) ops) \<Longrightarrow> A call"
  by (auto simp: asked_def list_all_iff)

interpretation asked: data_closed ce "asked old A" A for ce old A
  by unfold_locales (auto simp: asked_def)

text \<open>A workspace in order.\<close>

definition workspace_ok :: "console_env \<Rightarrow> DemoWorkspaceRepository \<Rightarrow> bool" where
  "workspace_ok ce r \<longleftrightarrow> (\<forall>n. \<bar>ce_clock ce n\<bar> \<le> max_time) \<and> md_locale (ce_demo ce) \<in> {None, Some ''en'', Some ''es''} \<and>
     (\<exists>now s. session (ce_demo ce) now r \<and> state_view (ce_demo ce) r = Some s \<and> demo_inv s)"

text \<open>
  The operations that keep it whatever the clock says: all the consoles use but the creation of plans, whose identifiers come
  from the clock.
\<close>

definition orderly :: "data_op \<Rightarrow> bool" where
  "orderly call \<longleftrightarrow> (case call of
     ListClients \<Rightarrow> True | CreateClient p \<Rightarrow> True | UpdateClient k p \<Rightarrow> True | DeactivateClient k \<Rightarrow> True | ActivateClient k \<Rightarrow> True
   | PreviewClient k \<Rightarrow> True | DeleteClient k \<Rightarrow> True
   | ListServices \<Rightarrow> True | CreateService p \<Rightarrow> True | UpdateService k p \<Rightarrow> True | PreviewService k \<Rightarrow> True | DeleteService k \<Rightarrow> True
   | ListPlans k \<Rightarrow> True | UpdatePlan k q p \<Rightarrow> True | PreviewPlan k q \<Rightarrow> True | DeletePlan k q \<Rightarrow> True
   | ListSubscriptions f \<Rightarrow> True | CreateSubscription p \<Rightarrow> True | UpdateSubscription k p \<Rightarrow> True | RevealSubscription k \<Rightarrow> True
   | CancelSubscription k \<Rightarrow> True | RenewSubscription k d e \<Rightarrow> True | ReactivateSubscription k d st e \<Rightarrow> True
   | LoadProfile \<Rightarrow> True | UpdateProfile p \<Rightarrow> True | LoadCodeServices \<Rightarrow> True
   | ListAccessBlocks \<Rightarrow> True | CreateAccessBlock ph \<Rightarrow> True | DeleteAccessBlock k \<Rightarrow> True
   | _ \<Rightarrow> False)"

text \<open>No operation on the catalog but the creation of a plan makes a plan.\<close>

lemma catalog_step_fresh:
  assumes "session_at rest m now r" and "pro_view m r = Some p" and "catalog_inv p" and "pro_view m t = Some p'"
  shows "listServices cb c m now r = (x1, t) \<Longrightarrow> new_plans_fresh p p'"
    and "createService m now payload r = (x2, t) \<Longrightarrow> new_plans_fresh p p'"
    and "updateService m now sid changes r = (x2, t) \<Longrightarrow> new_plans_fresh p p'"
    and "getServiceDeletePreview m now sid r = (x3, t) \<Longrightarrow> new_plans_fresh p p'"
    and "deleteService m now sid r = (x4, t) \<Longrightarrow> new_plans_fresh p p'"
    and "listPlans cb c m now sid r = (x5, t) \<Longrightarrow> new_plans_fresh p p'"
    and "updatePlan m now sid pid alter r = (x6, t) \<Longrightarrow> new_plans_fresh p p'"
    and "getPlanDeletePreview m now sid pid r = (x3, t) \<Longrightarrow> new_plans_fresh p p'"
    and "deletePlan m now sid pid r = (x4, t) \<Longrightarrow> new_plans_fresh p p'"
proof -
  note same = cat.query_result [OF _ assms(1,2)]
  show "listServices cb c m now r = (x1, t) \<Longrightarrow> new_plans_fresh p p'"
    using same [of _ x1 t] assms(4) by (auto simp: listServices_def intro: fresh_if_fewer)
  show "getServiceDeletePreview m now sid r = (x3, t) \<Longrightarrow> new_plans_fresh p p'"
    using same [of _ x3 t] assms(4) by (auto simp: getServiceDeletePreview_def intro: fresh_if_fewer)
  show "listPlans cb c m now sid r = (x5, t) \<Longrightarrow> new_plans_fresh p p'"
    using same [of _ x5 t] assms(4) by (auto simp: listPlans_def intro: fresh_if_fewer)
  show "getPlanDeletePreview m now sid pid r = (x3, t) \<Longrightarrow> new_plans_fresh p p'"
    using same [of _ x3 t] assms(4) by (auto simp: getPlanDeletePreview_def intro: fresh_if_fewer)
  show "createService m now payload r = (x2, t) \<Longrightarrow> new_plans_fresh p p'"
    using createService_result [OF _ assms(1,2), of payload x2 t] assms(4)
    by (auto intro!: fresh_if_fewer simp: add_service_def split: sum.splits)
  show "updateService m now sid changes r = (x2, t) \<Longrightarrow> new_plans_fresh p p'"
    using updateService_result [OF _ assms(1,2), of sid changes x2 t] assms(4)
    by (auto intro!: fresh_if_fewer simp: replace_service_def split: sum.splits)
  show "deleteService m now sid r = (x4, t) \<Longrightarrow> new_plans_fresh p p'"
    using deleteService_result [OF _ assms(1,2), of sid x4 t] assms(4)
    by (auto intro!: fresh_if_fewer simp: delete_service_def split: sum.splits)
  show "deletePlan m now sid pid r = (x4, t) \<Longrightarrow> new_plans_fresh p p'"
    using deletePlan_result [OF _ assms(1,2), of sid pid x4 t] assms(4)
    by (auto intro!: fresh_if_fewer simp: delete_plan_def remove_by_def split: sum.splits)
  show "updatePlan m now sid pid alter r = (x6, t) \<Longrightarrow> new_plans_fresh p p'"
    using updatePlan_result [OF _ assms(1,2), of sid pid alter x6 t] assms(3,4)
    by (cases x6) (auto dest!: sym [of "Inr _"] intro: fresh_replaced fresh_if_fewer)
qed

lemma orderly_step:
  assumes call: "orderly call" and now: "\<bar>now\<bar> \<le> max_time"
    and at: "session_at rest (ce_demo ce) now r" and view: "pro_view (ce_demo ce) r = Some p" and inv: "catalog_inv p"
  shows "demo_step (ce_demo ce) r (snd (demo_run ((ce_around ce)\<lparr>en_now := now\<rparr>) (ce_demo ce) call r))"
proof -
  let ?m = "ce_demo ce"
  note client = demo_client [OF client_step.intros(1) [OF surjective_pairing now]] demo_client [OF client_step.intros(2) [OF surjective_pairing now]]
    demo_client [OF client_step.intros(3) [OF surjective_pairing now]] demo_client [OF client_step.intros(4) [OF surjective_pairing now]]
    demo_client [OF client_step.intros(5) [OF surjective_pairing now]] demo_client [OF client_step.intros(6) [OF surjective_pairing now]]
    demo_client [OF client_step.intros(7) [OF surjective_pairing now]]
  note sub = sub_step.intros(1-6) [where restores = True, OF surjective_pairing now] sub_step.intros(7,8) [where restores = True, OF TrueI surjective_pairing now]
  note settings = settings_step.intros [OF surjective_pairing now]
  have catalog: "demo_step ?m r (snd x)"
    if "catalog_step ?m r (snd x)" "\<And>p'. pro_view ?m (snd x) = Some p' \<Longrightarrow> new_plans_fresh p p'" for x :: "'b \<times> DemoWorkspaceRepository"
    by (rule demo_catalog [OF that(1)]) (use view that(2) in simp)
  note cat_intros = catalog_step.intros [OF surjective_pairing now]
  note fresh = catalog_step_fresh [OF at view inv _ surjective_pairing]
  show ?thesis
    using call by (cases call)
      (simp_all add: orderly_def demo_run_def Let_def client sub settings demo_subscription demo_settings cat_intros fresh catalog)
qed

text \<open>A run that asked only such operations leaves the workspace in order.\<close>

interpretation workspace: data_closed ce "\<lambda>r ops. list_all orderly ops \<longrightarrow> workspace_ok ce r" "\<lambda>_. True" for ce
proof (unfold_locales, rule impI)
  fix call now r and ops :: "data_op list"
  assume n: "now \<in> range (ce_clock ce)" and r: "list_all orderly ops \<longrightarrow> workspace_ok ce r" and all: "list_all orderly (ops @ [call])"
  then have ok: "workspace_ok ce r" and call: "orderly call" by simp_all
  obtain now0 s where s: "session (ce_demo ce) now0 r" "state_view (ce_demo ce) r = Some s" "demo_inv s"
    using ok by (auto simp: workspace_ok_def)
  obtain p where p: "ds_pro s = Some p" "catalog_inv p" using s(3) by (auto simp: demo_inv_def pro_inv_def)
  have now: "\<bar>now\<bar> \<le> max_time" using n ok by (auto simp: workspace_ok_def)
  have "session_at (rest_view (ce_demo ce) r) (ce_demo ce) now r" "pro_view (ce_demo ce) r = Some p"
    using session_now [OF s(1) now] s(2) p(1) by (simp_all add: session_at_def pro_view_iff)
  from orderly_step [OF call now this p(2)] ok s show "workspace_ok ce (snd (demo_run ((ce_around ce)\<lparr>en_now := now\<rparr>) (ce_demo ce) call r))"
    unfolding workspace_ok_def using demo_step_keeps by blast
qed

text \<open>A console that asks nothing else leaves it in order.\<close>

interpretation in_order: data_closed ce "\<lambda>r ops. workspace_ok ce r" orderly for ce
  by unfold_locales (use workspace.closed [where ops = "[]"] in auto)

section \<open>Reading a workspace in order\<close>

text \<open>A workspace in which a console can read the lists \<open>p\<close>.\<close>

definition serves :: "console_env \<Rightarrow> ProLists \<Rightarrow> DemoWorkspaceRepository \<Rightarrow> bool" where
  "serves ce p r \<longleftrightarrow> (\<exists>rest. \<forall>n. session_at rest (ce_demo ce) (ce_clock ce n) r) \<and> pro_view (ce_demo ce) r = Some p"

lemma workspace_serves:
  assumes "workspace_ok ce r"
  shows "\<exists>p. serves ce p r \<and> pro_inv p"
proof -
  obtain now s where s: "session (ce_demo ce) now r" "state_view (ce_demo ce) r = Some s" "demo_inv s"
    using assms by (auto simp: workspace_ok_def)
  obtain p where p: "ds_pro s = Some p" "pro_inv p" using s(3) by (auto simp: demo_inv_def)
  have "session (ce_demo ce) (ce_clock ce n) r" for n using assms session_now [OF s(1)] by (simp add: workspace_ok_def)
  with s p show ?thesis by (auto simp: serves_def session_at_def pro_view_iff)
qed

text \<open>What a request changes: the workspace and the ghost.\<close>

definition moved :: "'s console_world \<Rightarrow> 's console_world \<Rightarrow> bool" where
  "moved w v \<longleftrightarrow> v = w\<lparr>cw_repo := cw_repo v, cw_ops := cw_ops v\<rparr>"

lemma moved_refl [simp]: "moved w w"
  by (simp add: moved_def)

lemma moved_trans: "moved w v \<Longrightarrow> moved v u \<Longrightarrow> moved w u"
  by (cases w; cases v; cases u) (simp add: moved_def)

lemma movedD: "moved w v \<Longrightarrow> cw_console v = cw_console w \<and> cw_messages v = cw_messages w \<and> cw_busy v = cw_busy w \<and>
    cw_loading v = cw_loading w \<and> cw_loadError v = cw_loadError w \<and> cw_calls v = cw_calls w"
  by (cases w; cases v) (simp add: moved_def)

text \<open>A query answers from the lists, and leaves them as they are.\<close>

lemma ask_query:
  assumes "serves ce p (cw_repo w)"
  shows "\<exists>v. ask ce call (\<lambda>now. query (require_pro err (ce_demo ce) now) q) w = (q p, v) \<and> moved w v \<and> serves ce p (cw_repo v)"
proof -
  obtain rest where s: "\<And>n. session_at rest (ce_demo ce) (ce_clock ce n) (cw_repo w)" "pro_view (ce_demo ce) (cw_repo w) = Some p"
    using assms by (auto simp: serves_def)
  then obtain r where r: "query (require_pro err (ce_demo ce) (ce_clock ce (length (cw_ops w)))) q (cw_repo w) = (q p, r)"
    "session_at rest (ce_demo ce) (ce_clock ce (length (cw_ops w))) r" "pro_view (ce_demo ce) r = Some p"
    using pro.query_refines [OF s(1,2)] by blast
  then have "session_at rest (ce_demo ce) (ce_clock ce n) r" for n
    using s(1) [of n] by (auto simp: session_at_def session_def)
  with r show ?thesis by (auto simp: ask_def serves_def moved_def)
qed

definition services_shown :: "console_env \<Rightarrow> ProLists \<Rightarrow> Service list" where
  "services_shown ce p = sortByName (en_collate_base (ce_around ce)) (en_collate (ce_around ce)) sv_name sv_created_at (services p)"

definition plans_shown :: "console_env \<Rightarrow> ProLists \<Rightarrow> string \<Rightarrow> Plan list" where
  "plans_shown ce p sid = sortByName (en_collate_base (ce_around ce)) (en_collate (ce_around ce)) pl_name pl_created_at
     (filter (\<lambda>q. pl_service_id q = sid) (plans p))"

definition subscriptions_shown :: "console_env \<Rightarrow> ProLists \<Rightarrow> Subscription list" where
  "subscriptions_shown ce p = js_sort (\<lambda>a b. en_collate (ce_around ce) (sb_expires_at a) (sb_expires_at b)) (map publicSubscription (subscriptions p))"

lemma filter_throws_all: "filter_throws (\<lambda>u. Inr True) us = Inr us"
  by (induction us) simp_all

lemma ask_lists:
  assumes "serves ce p (cw_repo w)"
  shows "\<exists>v. ask_clients ce w = (Inr (clients p), v) \<and> moved w v \<and> serves ce p (cw_repo v)"
    and "\<exists>v. ask_services ce w = (Inr (services_shown ce p), v) \<and> moved w v \<and> serves ce p (cw_repo v)"
    and "sid \<in> sv_id ` set (services p) \<Longrightarrow> \<exists>v. ask_plans ce sid w = (Inr (plans_shown ce p sid), v) \<and> moved w v \<and> serves ce p (cw_repo v)"
    and "Date_parse (md_serverTime (ce_demo ce)) = Some t \<Longrightarrow>
      \<exists>v. ask_subscriptions ce w = (Inr (subscriptions_shown ce p), v) \<and> moved w v \<and> serves ce p (cw_repo v)"
proof -
  note q = ask_query [OF assms]
  let ?cb = "en_collate_base (ce_around ce)" and ?c = "en_collate (ce_around ce)"
  show "\<exists>v. ask_clients ce w = (Inr (clients p), v) \<and> moved w v \<and> serves ce p (cw_repo v)"
    using q [of ListClients _ "\<lambda>state. Inr (clients state)"] by (simp add: ask_clients_def client_list_def [abs_def] client_requireState_def)
  show "\<exists>v. ask_services ce w = (Inr (services_shown ce p), v) \<and> moved w v \<and> serves ce p (cw_repo v)"
    using q [of ListServices _ "\<lambda>state. Inr (sortByName ?cb ?c sv_name sv_created_at (services state))"]
    by (simp add: ask_services_def listServices_def [abs_def] catalog_requireState_def services_shown_def)
  show "\<exists>v. ask_plans ce sid w = (Inr (plans_shown ce p sid), v) \<and> moved w v \<and> serves ce p (cw_repo v)"
    if "sid \<in> sv_id ` set (services p)"
  proof -
    have "list_ex (\<lambda>v. sv_id v = sid) (services p)" using that by (auto simp: list_ex_iff)
    then show ?thesis
      using q [of "ListPlans sid" _ "\<lambda>state. ebind (throw_if (\<not> list_ex (\<lambda>v. sv_id v = sid) (services state)) service_not_found)
        (\<lambda>_. Inr (sortByName ?cb ?c pl_name pl_created_at (filter (\<lambda>q. pl_service_id q = sid) (plans state))))"]
      by (simp add: ask_plans_def listPlans_def [abs_def] catalog_requireState_def throw_if_def plans_shown_def)
  qed
  show "\<exists>v. ask_subscriptions ce w = (Inr (subscriptions_shown ce p), v) \<and> moved w v \<and> serves ce p (cw_repo v)"
    if "Date_parse (md_serverTime (ce_demo ce)) = Some t"
  proof -
    let ?q = "\<lambda>state. filtered ?c (subscriptions state) no_filters (md_serverTime (ce_demo ce))"
    have "?q p = Inr (subscriptions_shown ce p)"
      by (simp add: filtered_def parseDate_def that not_found_def no_filters_def falsy_def Let_def filter_throws_all subscriptions_shown_def)
    then show ?thesis using q [of "ListSubscriptions no_filters" "subscription_error ''invalid_demo_workspace''" ?q]
      by (simp add: ask_subscriptions_def sub_list_def [abs_def] sub_requireState_def)
  qed
qed

lemma ask_all_plans:
  assumes "serves ce p (cw_repo w)" and "set vs \<subseteq> set (services p)"
  shows "\<exists>v. all_of (\<lambda>v. ask_plans ce (sv_id v)) vs w = (Inr (map (\<lambda>v. plans_shown ce p (sv_id v)) vs), v) \<and> moved w v \<and> serves ce p (cw_repo v)"
  using assms
proof (induction vs arbitrary: w)
  case (Cons v vs)
  have "sv_id v \<in> sv_id ` set (services p)" using Cons.prems(2) by simp
  from ask_lists(3) [OF Cons.prems(1) this] obtain u where u: "ask_plans ce (sv_id v) w = (Inr (plans_shown ce p (sv_id v)), u)"
    "moved w u" "serves ce p (cw_repo u)" by blast
  with Cons.IH [of u] Cons.prems(2) moved_trans [OF u(2)] show ?case by auto
qed simp

lemma shown_sets [simp]:
  "mset (services_shown ce p) = mset (services p)" "set (services_shown ce p) = set (services p)"
  "set (plans_shown ce p sid) = {q \<in> set (plans p). pl_service_id q = sid}"
  "mset (subscriptions_shown ce p) = image_mset publicSubscription (mset (subscriptions p))"
  by (simp_all add: services_shown_def plans_shown_def subscriptions_shown_def sortByName_def)

section \<open>An example\<close>

definition sample_env :: console_env where
  "sample_env = \<lparr> ce_catalog = [], ce_demo = sample_metadata, ce_around = sample_surroundings, ce_clock = (\<lambda>n. 0), ce_format = (\<lambda>n. []), ce_legacy = (\<lambda>x. None) \<rparr>"

text \<open>The workspace of the baseline is in order.\<close>

lemma sample_serves: "\<exists>r s. workspace_ok sample_env r \<and> serves sample_env (baseline_lists sample_metadata) r \<and>
    baseline_state Pro sample_metadata = Inr s \<and> state_view sample_metadata r = Some s"
proof -
  obtain r s where r: "session sample_metadata 0 r" "baseline_state Pro sample_metadata = Inr s" "state_view sample_metadata r = Some s"
    "pro_view sample_metadata r = Some (baseline_lists sample_metadata)"
    using sample_state by blast
  have m: "metadata_ok sample_metadata" unfolding metadata_ok_def by code_simp
  have pro: "md_plan sample_metadata = Pro" "md_locale sample_metadata \<in> {None, Some ''en'', Some ''es''}"
    by (simp_all add: sample_metadata_def)
  have "workspace_ok sample_env r"
    using r demo_inv_baseline [OF r(2) m pro(1)] pro(2) by (auto simp: workspace_ok_def sample_env_def max_time_def)
  moreover have "serves sample_env (baseline_lists sample_metadata) r" using r(1,4) by (simp add: serves_def sample_env_def session_at_def)
  ultimately show ?thesis using r(2,3) by blast
qed

end
