(* ===== verification/TenantAdminConsole.thy ===== *)
theory TenantAdminConsole
  imports StepRuns ConsoleText
begin

text \<open>
  The console in which the demo's tenant manages clients, services and plans by numbered messages
  (\<open>features/demo/components/tenant-admin-console-experience.tsx\<close>). Its screens are a state machine over the workspace: each
  message is one step that may ask the data source and answers in the log.
\<close>

section \<open>State\<close>

datatype ta_section = ClientsSection | CatalogSection

datatype ta_screen =
    TA_Menu
  | Client_Select | Client_Detail | Client_Edit_Field | Client_Edit_Value
  | Client_Create_Name | Client_Create_Phone | Client_Create_Username | Client_Create_Password | Client_Create_Confirm
  | Client_Confirm
  | Service_Select | Service_Detail | Service_Create_Name | Service_Edit_Name | Service_Delete_Select | Service_Delete_Confirm
  | Plan_Select | Plan_Detail | Plan_Create_Name | Plan_Edit_Name | Plan_Delete_Select | Plan_Delete_Confirm

datatype ta_confirmation = Confirm_Deactivate | Confirm_Delete_Client | Confirm_Delete_Service | Confirm_Delete_Plan

datatype ta_field = Field_FullName | Field_Phone | Field_Username

record ClientDraft =
  dr_fullName :: string
  dr_phone :: "string option"
  dr_username :: string
  dr_password :: string

record ta_state =
  ta_screen :: ta_screen
  ta_page :: nat
  ta_clients :: "Client list"
  ta_services :: "Service list"
  ta_plans :: "Plan list"
  ta_clientId :: "string option"
  ta_serviceId :: "string option"
  ta_planId :: "string option"
  ta_preview :: "DeletePreview option"
  ta_confirmation :: "ta_confirmation option"
  ta_draft :: ClientDraft
  ta_editField :: "ta_field option"

type_synonym ta_world = "ta_state console_world"

definition initial_ta :: ta_state where
  "initial_ta = \<lparr> ta_screen = TA_Menu, ta_page = 0, ta_clients = [], ta_services = [], ta_plans = [], ta_clientId = None,
     ta_serviceId = None, ta_planId = None, ta_preview = None, ta_confirmation = None,
     ta_draft = \<lparr>dr_fullName = [], dr_phone = None, dr_username = [], dr_password = []\<rparr>, ta_editField = None \<rparr>"

definition ta_world_of :: "DemoWorkspaceRepository \<Rightarrow> ta_world" where
  "ta_world_of r = \<lparr> cw_console = initial_ta, cw_messages = [], cw_busy = False, cw_loading = True, cw_loadError = False,
     cw_repo = r, cw_calls = [], cw_ops = [] \<rparr>"

definition ta_errors :: "(string \<times> string) list" where
  "ta_errors = map (\<lambda>(c, k). (c, ''frontend.demo_simulator.'' @ k)) [
     (''client_local_username_exists'', ''client_error_username''),
     (''phone_already_registered'', ''client_error_phone''),
     (''client_delete_active'', ''client_error_active''),
     (''client_has_subscriptions'', ''client_error_subscriptions''),
     (''client_validation_failed'', ''client_error_validation''),
     (''client_not_found'', ''client_error_not_found''),
     (''service_name_already_exists'', ''catalog_error_duplicate''),
     (''plan_name_already_exists'', ''catalog_error_duplicate''),
     (''catalog_name_required'', ''catalog_error_name''),
     (''catalog_name_too_long'', ''catalog_error_name''),
     (''service_not_found'', ''catalog_error_not_found''),
     (''plan_not_found'', ''catalog_error_not_found''),
     (''invalid_demo_workspace'', ''workspace_error'')]"

definition ta_errorMessage :: "console_env \<Rightarrow> demo_error \<Rightarrow> string" where
  "ta_errorMessage ce err = message_for ce ta_errors err"

definition ta_selectedClient :: "ta_state \<Rightarrow> Client option" where
  "ta_selectedClient s = find (\<lambda>c. Some (cl_id c) = ta_clientId s) (ta_clients s)"

definition selectedService :: "ta_state \<Rightarrow> Service option" where
  "selectedService s = find (\<lambda>v. Some (sv_id v) = ta_serviceId s) (ta_services s)"

definition selectedPlan :: "ta_state \<Rightarrow> Plan option" where
  "selectedPlan s = find (\<lambda>p. Some (pl_id p) = ta_planId s) (ta_plans s)"

definition plans_of :: "ta_state \<Rightarrow> string \<Rightarrow> Plan list" where
  "plans_of s sid = filter (\<lambda>p. pl_service_id p = sid) (ta_plans s)"

section \<open>Texts\<close>

definition ta_title :: "console_env \<Rightarrow> ta_section \<Rightarrow> string" where
  "ta_title ce sec = (case sec of ClientsSection \<Rightarrow> sim ce ''clients_menu'' [] | CatalogSection \<Rightarrow> sim ce ''catalog_menu'' [])"

definition ta_menuText :: "console_env \<Rightarrow> ta_section \<Rightarrow> string" where
  "ta_menuText ce sec = (case sec of
     ClientsSection \<Rightarrow> ta_title ce sec @ nl @ nl @ join nl
       [''1. '' @ sim ce ''clients_view'' [], ''2. '' @ sim ce ''clients_create'' []] @ nl @ nl @ join nl (back_cancel ce)
   | CatalogSection \<Rightarrow> ta_title ce sec @ nl @ nl @ join nl
       [''1. '' @ sim ce ''catalog_view'' [], ''2. '' @ sim ce ''catalog_create_service'' [],
        ''3. '' @ sim ce ''catalog_delete_service'' []] @ nl @ nl @ join nl (back_cancel ce))"

definition active_label :: "console_env \<Rightarrow> bool \<Rightarrow> string" where
  "active_label ce b = (if b then sim ce ''client_active'' [] else sim ce ''client_inactive'' [])"

definition clientListText :: "console_env \<Rightarrow> ta_state \<Rightarrow> nat \<Rightarrow> string" where
  "clientListText ce s nextPage = (let total = console_totalPages (ta_clients s) in join nl (
     [sim ce ''clients_select'' [(''page'', nat_to_string (nextPage + 1)), (''total'', nat_to_string total)]] @
     map_numbered (\<lambda>n c. sim ce ''clients_item'' [(''number'', nat_to_string n), (''name'', cl_full_name c),
       (''status'', active_label ce (cl_is_active c))]) (page_slice nextPage (ta_clients s)) @
     next_line ce (nextPage < total - 1) @ back_cancel ce))"

definition delete_hint :: "console_env \<Rightarrow> bool \<Rightarrow> string list" where
  "delete_hint ce deleting = (if deleting then [nl @ sim ce ''catalog_delete_hint'' []] else [])"

definition serviceListText :: "console_env \<Rightarrow> ta_state \<Rightarrow> nat \<Rightarrow> bool \<Rightarrow> string" where
  "serviceListText ce s nextPage deleting = (let total = console_totalPages (ta_services s) in join nl (
     [sim ce ''services_select'' [(''page'', nat_to_string (nextPage + 1)), (''total'', nat_to_string total)]] @
     map_numbered (\<lambda>n v. sim ce ''services_item'' [(''number'', nat_to_string n), (''name'', sv_name v),
       (''count'', nat_to_string (length (plans_of s (sv_id v))))]) (page_slice nextPage (ta_services s)) @
     next_line ce (nextPage < total - 1) @ back_cancel ce @ delete_hint ce deleting))"

definition planListText :: "console_env \<Rightarrow> ta_state \<Rightarrow> string \<Rightarrow> nat \<Rightarrow> bool \<Rightarrow> string" where
  "planListText ce s sid nextPage deleting = (let ps = plans_of s sid; total = console_totalPages ps in join nl (
     [sim ce ''plans_select'' [(''page'', nat_to_string (nextPage + 1)), (''total'', nat_to_string total)]] @
     map_numbered (\<lambda>n p. nat_to_string n @ ''. '' @ pl_name p) (page_slice nextPage ps) @
     next_line ce (nextPage < total - 1) @ back_cancel ce @ delete_hint ce deleting))"

definition clientDetailText :: "console_env \<Rightarrow> Client \<Rightarrow> string" where
  "clientDetailText ce c = sim ce ''client_detail'' [(''name'', cl_full_name c), (''username'', cl_username c),
     (''phone'', nullish (cl_phone c) (sim ce ''client_phone_missing'' [])), (''status'', active_label ce (cl_is_active c))] @ nl @ nl @
     (if cl_is_active c then sim ce ''client_actions_active'' [] else sim ce ''client_actions_inactive'' [])"

definition serviceDetailText :: "console_env \<Rightarrow> ta_state \<Rightarrow> Service \<Rightarrow> string" where
  "serviceDetailText ce s v = sim ce ''service_detail'' [(''name'', sv_name v), (''plans'', nat_to_string (length (plans_of s (sv_id v))))] @
     nl @ nl @ sim ce ''service_actions'' []"

definition planDetailText :: "console_env \<Rightarrow> Plan \<Rightarrow> string" where
  "planDetailText ce p = sim ce ''plan_detail'' [(''name'', pl_name p)] @ nl @ nl @ sim ce ''plan_actions'' []"

text \<open>The question before the deletion of a service or a plan.\<close>

definition delete_question :: "console_env \<Rightarrow> string \<Rightarrow> DeletePreview \<Rightarrow> string" where
  "delete_question ce type_key pv = sim ce ''catalog_delete_confirm'' [(''type'', sim ce type_key []), (''name'', dp_target_name pv),
     (''plans'', nat_to_string (dp_affected_plan_count pv)), (''active'', nat_to_string (dp_active_subscription_count pv)),
     (''historical'', nat_to_string (dp_historical_subscription_count pv))]"

section \<open>Loading\<close>

definition ta_loadWorkspace :: "console_env \<Rightarrow> ta_section \<Rightarrow> (ta_state, unit) console_act" where
  "ta_loadWorkspace ce sec = (case sec of
     ClientsSection \<Rightarrow> abind (ask_clients ce) (\<lambda>cs. adone (setc (\<lambda>s. s\<lparr>ta_clients := cs\<rparr>)))
   | CatalogSection \<Rightarrow> abind (ask_services ce) (\<lambda>vs. abind (all_of (\<lambda>v. ask_plans ce (sv_id v)) vs) (\<lambda>pss.
       adone (setc (\<lambda>s. s\<lparr>ta_services := vs, ta_plans := concat pss\<rparr>)))))"

text \<open>
  The effect that loads: when the console appears, on a retry, and whenever the store has a new data source. It starts
  the log anew and leaves the screen as it is.
\<close>

definition ta_load :: "console_env \<Rightarrow> ta_section \<Rightarrow> ta_world \<Rightarrow> ta_world" where
  "ta_load ce sec w0 = (let w = w0\<lparr>cw_loading := True, cw_loadError := False\<rparr> in
     (case ta_loadWorkspace ce sec w of
        (Inr _, w') \<Rightarrow> w'\<lparr>cw_messages := [\<lparr>msg_id = 1, msg_role = Bot, msg_text = ta_title ce sec\<rparr>], cw_loading := False\<rparr>
      | (Inl _, w') \<Rightarrow> w'\<lparr>cw_loadError := True, cw_loading := False\<rparr>))"

definition invalidateWorkspaceCaches :: "ta_section \<Rightarrow> ta_world \<Rightarrow> ta_world" where
  "invalidateWorkspaceCaches sec w =
     tell [case sec of ClientsSection \<Rightarrow> InvalidateClients | CatalogSection \<Rightarrow> InvalidateServices, InvalidatePlans, OnChanged] w"

definition ta_refresh :: "console_env \<Rightarrow> ta_section \<Rightarrow> (ta_state, unit) console_act" where
  "ta_refresh ce sec = athen (adone (invalidateWorkspaceCaches sec)) (ta_loadWorkspace ce sec)"

section \<open>Navigation\<close>

definition show_screen :: "ta_screen \<Rightarrow> string \<Rightarrow> ta_world \<Rightarrow> ta_world" where
  "show_screen x txt w = seq [setc (\<lambda>s. s\<lparr>ta_screen := x\<rparr>), bot txt] w"

definition to_menu :: "ta_state \<Rightarrow> ta_state" where
  "to_menu s = s\<lparr>ta_screen := TA_Menu, ta_page := 0, ta_clientId := None, ta_serviceId := None, ta_planId := None,
     ta_confirmation := None, ta_preview := None\<rparr>"

definition goMenu :: "console_env \<Rightarrow> ta_section \<Rightarrow> ta_world \<Rightarrow> ta_world" where
  "goMenu ce sec w = seq [setc to_menu, bot (ta_menuText ce sec)] w"

text \<open>Leaving for the detail of the selected client, service or plan, or for the menu when it is gone.\<close>

definition back_to_client :: "console_env \<Rightarrow> ta_section \<Rightarrow> ta_world \<Rightarrow> ta_world" where
  "back_to_client ce sec w = (case ta_selectedClient (cw_console w) of
     Some c \<Rightarrow> show_screen Client_Detail (clientDetailText ce c) w | None \<Rightarrow> goMenu ce sec w)"

definition clear_question :: "ta_state \<Rightarrow> ta_state" where
  "clear_question s = s\<lparr>ta_preview := None, ta_confirmation := None\<rparr>"

definition service_detail_step :: "console_env \<Rightarrow> ta_section \<Rightarrow> bool \<Rightarrow> ta_world \<Rightarrow> ta_world" where
  "service_detail_step ce sec clears w = (case selectedService (cw_console w) of
     Some v \<Rightarrow> seq [setc (\<lambda>s. s\<lparr>ta_screen := Service_Detail\<rparr>), if clears then setc clear_question else id,
       bot (serviceDetailText ce (cw_console w) v)] w
   | None \<Rightarrow> goMenu ce sec w)"

definition plan_detail_step :: "console_env \<Rightarrow> ta_section \<Rightarrow> ta_world \<Rightarrow> ta_world" where
  "plan_detail_step ce sec w = (case selectedPlan (cw_console w) of
     Some p \<Rightarrow> seq [setc (\<lambda>s. s\<lparr>ta_screen := Plan_Detail\<rparr>), setc clear_question, bot (planDetailText ce p)] w
   | None \<Rightarrow> goMenu ce sec w)"

definition ta_previous :: "(ta_screen \<times> ta_screen \<times> string) list" where
  "ta_previous = [
     (Client_Create_Name, TA_Menu, []),
     (Client_Create_Phone, Client_Create_Name, ''client_create_name_prompt''),
     (Client_Create_Username, Client_Create_Phone, ''client_create_phone_prompt''),
     (Client_Create_Password, Client_Create_Username, ''client_create_username_prompt''),
     (Client_Create_Confirm, Client_Create_Password, ''client_create_password_prompt'')]"

definition back_in_creation :: "console_env \<Rightarrow> ta_section \<Rightarrow> ta_world \<Rightarrow> ta_world" where
  "back_in_creation ce sec w = (case map_of ta_previous (ta_screen (cw_console w)) of
     None \<Rightarrow> w
   | Some (next, prompt) \<Rightarrow> if next = TA_Menu then goMenu ce sec w else show_screen next (sim ce prompt []) w)"

definition goBack :: "console_env \<Rightarrow> ta_section \<Rightarrow> ta_world \<Rightarrow> ta_world" where
  "goBack ce sec w = (let s = cw_console w; page = ta_page s in case ta_screen s of
     TA_Menu \<Rightarrow> tell [OnBack] w
   | Client_Select \<Rightarrow>
       (if page > 0 then seq [setc (\<lambda>s. s\<lparr>ta_page := page - 1\<rparr>), bot (clientListText ce s (page - 1))] w else goMenu ce sec w)
   | Client_Detail \<Rightarrow> seq [setc (\<lambda>s. s\<lparr>ta_screen := Client_Select, ta_page := 0\<rparr>), bot (clientListText ce s 0)] w
   | Client_Edit_Field \<Rightarrow> back_to_client ce sec w
   | Client_Edit_Value \<Rightarrow> show_screen Client_Edit_Field (sim ce ''client_edit_fields'' []) w
   | Client_Confirm \<Rightarrow> back_to_client ce sec (setc (\<lambda>s. s\<lparr>ta_confirmation := None\<rparr>) w)
   | Service_Select \<Rightarrow>
       (if page > 0 then seq [setc (\<lambda>s. s\<lparr>ta_page := page - 1\<rparr>), bot (serviceListText ce s (page - 1) False)] w else goMenu ce sec w)
   | Service_Delete_Select \<Rightarrow>
       (if page > 0 then seq [setc (\<lambda>s. s\<lparr>ta_page := page - 1\<rparr>), bot (serviceListText ce s (page - 1) True)] w else goMenu ce sec w)
   | Service_Detail \<Rightarrow> seq [setc (\<lambda>s. s\<lparr>ta_screen := Service_Select, ta_page := 0\<rparr>), bot (serviceListText ce s 0 False)] w
   | Service_Edit_Name \<Rightarrow> service_detail_step ce sec True w
   | Plan_Select \<Rightarrow> service_detail_step ce sec True w
   | Service_Delete_Confirm \<Rightarrow> service_detail_step ce sec True w
   | Plan_Detail \<Rightarrow> (case selectedService s of
       Some v \<Rightarrow> seq [setc (\<lambda>s. s\<lparr>ta_screen := Plan_Select, ta_page := 0\<rparr>), bot (planListText ce s (sv_id v) page False)] w
     | None \<Rightarrow> goMenu ce sec w)
   | Plan_Edit_Name \<Rightarrow> plan_detail_step ce sec w
   | Plan_Delete_Confirm \<Rightarrow> plan_detail_step ce sec w
   | Plan_Delete_Select \<Rightarrow> service_detail_step ce sec False w
   | Service_Create_Name \<Rightarrow> goMenu ce sec w
   | Plan_Create_Name \<Rightarrow> service_detail_step ce sec False w
   | _ \<Rightarrow> back_in_creation ce sec w)"

section \<open>Messages about clients\<close>

definition ta_invalid :: "console_env \<Rightarrow> ta_world \<Rightarrow> ta_world" where
  "ta_invalid ce w = bot (sim ce ''invalid_navigation'' []) w"

definition ta_fails :: "console_env \<Rightarrow> demo_error \<Rightarrow> ta_world \<Rightarrow> ta_world" where
  "ta_fails ce err w = bot (ta_errorMessage ce err) w"

definition completeMutation :: "console_env \<Rightarrow> ta_section \<Rightarrow> string \<Rightarrow> (ta_state, unit) console_act" where
  "completeMutation ce sec success = abind (ta_refresh ce sec) (\<lambda>_.
     adone (seq [setc to_menu, bot (success @ nl @ nl @ ta_menuText ce sec)]))"

text \<open>A change of the workspace: ask, then complete with what came back.\<close>

definition mutate :: "console_env \<Rightarrow> ta_section \<Rightarrow> (ta_state, 'a) console_act \<Rightarrow> ('a \<Rightarrow> string) \<Rightarrow> (ta_state, unit) console_act" where
  "mutate ce sec request success = abind request (\<lambda>x. completeMutation ce sec (success x))"

definition on_client_menu :: "console_env \<Rightarrow> string \<Rightarrow> ta_world \<Rightarrow> ta_world" where
  "on_client_menu ce txt w = (let s = cw_console w in
     if txt = ''1'' then seq [setc (\<lambda>s. s\<lparr>ta_screen := Client_Select, ta_page := 0\<rparr>),
       bot (if ta_clients s \<noteq> [] then clientListText ce s 0 else sim ce ''clients_empty'' [])] w
     else if txt = ''2'' then show_screen Client_Create_Name (sim ce ''client_create_name_prompt'' []) w
     else ta_invalid ce w)"

definition on_client_select :: "console_env \<Rightarrow> string \<Rightarrow> ta_world \<Rightarrow> ta_world" where
  "on_client_select ce txt w = (let s = cw_console w in
     if txt = ''8'' then
       (let lst = console_totalPages (ta_clients s) - 1 in
        if ta_page s \<ge> lst then bot (sim ce ''no_next_page'' []) w
        else (let next = ta_page s + 1 in seq [setc (\<lambda>s. s\<lparr>ta_page := next\<rparr>), bot (clientListText ce s next)] w))
     else (case chosen (ta_page s) (ta_clients s) txt of
         None \<Rightarrow> ta_invalid ce w
       | Some c \<Rightarrow> seq [setc (\<lambda>s. s\<lparr>ta_clientId := Some (cl_id c), ta_screen := Client_Detail, ta_page := 0\<rparr>),
           bot (clientDetailText ce c)] w))"

definition ask_delete_client_question :: "console_env \<Rightarrow> Client \<Rightarrow> (ta_state, unit) console_act" where
  "ask_delete_client_question ce c = abind (ask_clientPreview ce (cl_id c)) (\<lambda>pv. adone (seq [
     setc (\<lambda>s. s\<lparr>ta_preview := Some pv, ta_confirmation := Some Confirm_Delete_Client, ta_screen := Client_Confirm\<rparr>),
     bot (sim ce ''client_delete_confirm'' [(''name'', cl_full_name c),
       (''active'', nat_to_string (dp_active_subscription_count pv)),
       (''historical'', nat_to_string (dp_historical_subscription_count pv))])]))"

definition on_client_detail :: "console_env \<Rightarrow> ta_section \<Rightarrow> string \<Rightarrow> ta_world \<Rightarrow> ta_world" where
  "on_client_detail ce sec txt w = (case ta_selectedClient (cw_console w) of
     None \<Rightarrow> goMenu ce sec w
   | Some c \<Rightarrow>
      if txt = ''1'' then show_screen Client_Edit_Field (sim ce ''client_edit_fields'' []) w
      else if txt = ''2'' \<and> cl_is_active c then
        seq [setc (\<lambda>s. s\<lparr>ta_confirmation := Some Confirm_Deactivate, ta_screen := Client_Confirm\<rparr>),
          bot (sim ce ''client_deactivate_confirm'' [(''name'', cl_full_name c)])] w
      else if txt = ''2'' then
        with_busy (mutate ce sec (ask_activate ce (cl_id c))
          (\<lambda>u. sim ce ''client_activated'' [(''name'', cl_full_name u)])) (ta_fails ce) w
      else if txt = ''3'' \<and> cl_is_active c then bot (sim ce ''client_error_active'' []) w
      else if txt = ''3'' then with_busy (ask_delete_client_question ce c) (ta_fails ce) w
      else ta_invalid ce w)"

definition ta_fields :: "(string \<times> ta_field \<times> string) list" where
  "ta_fields = [(''1'', Field_FullName, ''client_edit_name_prompt''), (''2'', Field_Phone, ''client_edit_phone_prompt''),
     (''3'', Field_Username, ''client_edit_username_prompt'')]"

text \<open>An inherited entry has no field and no prompt: both are \<open>undefined\<close>, which shows as an empty message.\<close>

definition on_client_edit_field :: "console_env \<Rightarrow> string \<Rightarrow> ta_world \<Rightarrow> ta_world" where
  "on_client_edit_field ce txt w = (case map_of ta_fields txt of
     None \<Rightarrow> if inherited txt then seq [setc (\<lambda>s. s\<lparr>ta_editField := None, ta_screen := Client_Edit_Value\<rparr>), bot []] w
       else ta_invalid ce w
   | Some (field, prompt) \<Rightarrow>
       seq [setc (\<lambda>s. s\<lparr>ta_editField := Some field, ta_screen := Client_Edit_Value\<rparr>), bot (sim ce prompt [])] w)"

definition client_edit_payload :: "ta_field \<Rightarrow> string \<Rightarrow> ClientUpdate" where
  "client_edit_payload field txt = (let none = \<lparr>cup_full_name = None, cup_local_username = None, cup_phone = None\<rparr> in
     case field of
       Field_FullName \<Rightarrow> none\<lparr>cup_full_name := Some txt\<rparr>
     | Field_Username \<Rightarrow> none\<lparr>cup_local_username := Some (toLowerCase txt)\<rparr>
     | Field_Phone \<Rightarrow> none\<lparr>cup_phone := (if txt = EM_DASH then None else Some txt)\<rparr>)"

definition field_name :: "ta_field \<Rightarrow> string" where
  "field_name field = (case field of Field_FullName \<Rightarrow> ''full_name'' | Field_Phone \<Rightarrow> ''phone'' | Field_Username \<Rightarrow> ''local_username'')"

definition on_client_edit_value :: "console_env \<Rightarrow> ta_section \<Rightarrow> string \<Rightarrow> ta_world \<Rightarrow> ta_world" where
  "on_client_edit_value ce sec txt w = (case (ta_editField (cw_console w), ta_clientId (cw_console w)) of
     (Some field, Some cid) \<Rightarrow> if cid = [] then goMenu ce sec w else
       with_busy (mutate ce sec (ask_updateClient ce cid (client_edit_payload field txt))
           (\<lambda>u. sim ce ''client_updated'' [(''name'', cl_full_name u)]))
         (\<lambda>err. bot (ta_errorMessage ce err @ nl @ nl @ sim ce (''client_edit_'' @ field_name field @ ''_prompt'') [])) w
   | _ \<Rightarrow> goMenu ce sec w)"

text \<open>The five steps of the creation of a client.\<close>

definition set_draft :: "(ClientDraft \<Rightarrow> ClientDraft) \<Rightarrow> ta_state \<Rightarrow> ta_state" where
  "set_draft f s = s\<lparr>ta_draft := f (ta_draft s)\<rparr>"

definition on_create_name :: "console_env \<Rightarrow> string \<Rightarrow> ta_world \<Rightarrow> ta_world" where
  "on_create_name ce txt w = (if trim txt = [] then bot (sim ce ''client_error_name'' []) w
     else seq [setc (set_draft (\<lambda>d. d\<lparr>dr_fullName := txt\<rparr>)), show_screen Client_Create_Phone (sim ce ''client_create_phone_prompt'' [])] w)"

definition on_create_phone :: "console_env \<Rightarrow> string \<Rightarrow> ta_world \<Rightarrow> ta_world" where
  "on_create_phone ce txt w =
     seq [setc (set_draft (\<lambda>d. d\<lparr>dr_phone := (if toLowerCase txt = EM_DASH \<or> skips txt then None else Some txt)\<rparr>)),
       show_screen Client_Create_Username (sim ce ''client_create_username_prompt'' [])] w"

definition on_create_username :: "console_env \<Rightarrow> string \<Rightarrow> ta_world \<Rightarrow> ta_world" where
  "on_create_username ce txt w = (if trim txt = [] then bot (sim ce ''client_error_username'' []) w
     else seq [setc (set_draft (\<lambda>d. d\<lparr>dr_username := toLowerCase txt\<rparr>)),
       show_screen Client_Create_Password (sim ce ''client_create_password_prompt'' [])] w)"

definition on_create_password :: "console_env \<Rightarrow> string \<Rightarrow> ta_world \<Rightarrow> ta_world" where
  "on_create_password ce txt w = (if length txt < 6 then bot (sim ce ''client_error_password'' []) w
     else (let d = (ta_draft (cw_console w))\<lparr>dr_password := txt\<rparr> in
       seq [setc (set_draft (\<lambda>_. d)), show_screen Client_Create_Confirm (sim ce ''client_create_confirm''
         [(''name'', dr_fullName d), (''username'', dr_username d),
          (''phone'', nullish (dr_phone d) (sim ce ''client_phone_missing'' []))])] w))"

definition draft_payload :: "ClientDraft \<Rightarrow> ClientCreate" where
  "draft_payload d = \<lparr>ccr_full_name = dr_fullName d, ccr_local_username = dr_username d, ccr_phone = dr_phone d, ccr_password = dr_password d\<rparr>"

text \<open>A creation that failed goes back to the screen of the field at fault.\<close>

definition creation_failed :: "console_env \<Rightarrow> demo_error \<Rightarrow> ta_world \<Rightarrow> ta_world" where
  "creation_failed ce err w = (let c = errorCode err;
       about = (\<lambda>word. c = Some ''client_validation_failed'' \<and> js_includes word (error_text err));
       again = (\<lambda>x prompt. show_screen x (ta_errorMessage ce err @ nl @ nl @ sim ce prompt []) w) in
     if c = Some ''phone_already_registered'' \<or> about ''phone'' then again Client_Create_Phone ''client_create_phone_prompt''
     else if c = Some ''client_local_username_exists'' \<or> about ''username'' then again Client_Create_Username ''client_create_username_prompt''
     else if about ''password'' then again Client_Create_Password ''client_create_password_prompt''
     else if about ''full_name'' then again Client_Create_Name ''client_create_name_prompt''
     else bot (ta_errorMessage ce err) w)"

definition on_create_confirm :: "console_env \<Rightarrow> ta_section \<Rightarrow> string \<Rightarrow> ta_world \<Rightarrow> ta_world" where
  "on_create_confirm ce sec txt w = (if \<not> confirms txt then bot (sim ce ''confirm_reprompt'' []) w
     else with_busy (mutate ce sec (ask_createClient ce (draft_payload (ta_draft (cw_console w))))
         (\<lambda>c. sim ce ''client_created'' [(''name'', cl_full_name c)])) (creation_failed ce) w)"

definition on_client_confirm :: "console_env \<Rightarrow> ta_section \<Rightarrow> string \<Rightarrow> ta_world \<Rightarrow> ta_world" where
  "on_client_confirm ce sec txt w = (let s = cw_console w in case (ta_confirmation s, ta_clientId s) of
     (Some question, Some cid) \<Rightarrow>
       if \<not> confirms txt \<or> cid = [] then bot (sim ce ''confirm_reprompt'' []) w
       else if question = Confirm_Deactivate then
         with_busy (mutate ce sec (ask_deactivate ce cid) (\<lambda>u. sim ce ''client_deactivated'' [(''name'', cl_full_name u)])) (ta_fails ce) w
       else (let name = (case ta_selectedClient s of None \<Rightarrow> [] | Some c \<Rightarrow> cl_full_name c) in
         with_busy (mutate ce sec (ask_deleteClient ce cid) (\<lambda>_. sim ce ''client_deleted'' [(''name'', name)])) (ta_fails ce) w)
   | _ \<Rightarrow> bot (sim ce ''confirm_reprompt'' []) w)"

definition handleClientMessage :: "console_env \<Rightarrow> ta_section \<Rightarrow> string \<Rightarrow> ta_world \<Rightarrow> ta_world" where
  "handleClientMessage ce sec txt w = (case ta_screen (cw_console w) of
     TA_Menu \<Rightarrow> on_client_menu ce txt w
   | Client_Select \<Rightarrow> on_client_select ce txt w
   | Client_Detail \<Rightarrow> on_client_detail ce sec txt w
   | Client_Edit_Field \<Rightarrow> on_client_edit_field ce txt w
   | Client_Edit_Value \<Rightarrow> on_client_edit_value ce sec txt w
   | Client_Create_Name \<Rightarrow> on_create_name ce txt w
   | Client_Create_Phone \<Rightarrow> on_create_phone ce txt w
   | Client_Create_Username \<Rightarrow> on_create_username ce txt w
   | Client_Create_Password \<Rightarrow> on_create_password ce txt w
   | Client_Create_Confirm \<Rightarrow> on_create_confirm ce sec txt w
   | Client_Confirm \<Rightarrow> on_client_confirm ce sec txt w
   | _ \<Rightarrow> w)"

section \<open>Messages about the catalog\<close>

definition on_catalog_menu :: "console_env \<Rightarrow> string \<Rightarrow> ta_world \<Rightarrow> ta_world" where
  "on_catalog_menu ce txt w = (let s = cw_console w in
     if txt = ''1'' then seq [setc (\<lambda>s. s\<lparr>ta_screen := Service_Select, ta_page := 0\<rparr>),
       bot (if ta_services s \<noteq> [] then serviceListText ce s 0 False else sim ce ''catalog_empty'' [])] w
     else if txt = ''2'' then show_screen Service_Create_Name (sim ce ''catalog_create_service_prompt'' []) w
     else if txt = ''3'' then
       (if ta_services s = [] then bot (sim ce ''catalog_empty'' []) w
        else seq [setc (\<lambda>s. s\<lparr>ta_screen := Service_Delete_Select, ta_page := 0\<rparr>), bot (serviceListText ce s 0 True)] w)
     else ta_invalid ce w)"

definition ask_delete_question :: "console_env \<Rightarrow> (ta_state, DeletePreview) console_act \<Rightarrow> ta_confirmation \<Rightarrow> ta_screen \<Rightarrow> string \<Rightarrow> (ta_state, unit) console_act" where
  "ask_delete_question ce request question x type_key = abind request (\<lambda>pv. adone (seq [
     setc (\<lambda>s. s\<lparr>ta_preview := Some pv, ta_confirmation := Some question, ta_screen := x\<rparr>), bot (delete_question ce type_key pv)]))"

definition ask_delete_service_question :: "console_env \<Rightarrow> string \<Rightarrow> ta_world \<Rightarrow> ta_world" where
  "ask_delete_service_question ce sid = with_busy (ask_delete_question ce (ask_servicePreview ce sid)
     Confirm_Delete_Service Service_Delete_Confirm ''service'') (ta_fails ce)"

definition ask_delete_plan_question :: "console_env \<Rightarrow> string \<Rightarrow> string \<Rightarrow> ta_world \<Rightarrow> ta_world" where
  "ask_delete_plan_question ce sid pid = with_busy (ask_delete_question ce (ask_planPreview ce sid pid)
     Confirm_Delete_Plan Plan_Delete_Confirm ''plan'') (ta_fails ce)"

definition on_service_select :: "console_env \<Rightarrow> bool \<Rightarrow> string \<Rightarrow> ta_world \<Rightarrow> ta_world" where
  "on_service_select ce deleting txt w = (let s = cw_console w in
     if txt = ''8'' then
       (let lst = console_totalPages (ta_services s) - 1 in
        if ta_page s \<ge> lst then bot (sim ce ''no_next_page'' []) w
        else (let next = ta_page s + 1 in seq [setc (\<lambda>s. s\<lparr>ta_page := next\<rparr>), bot (serviceListText ce s next deleting)] w))
     else (case chosen (ta_page s) (ta_services s) txt of
         None \<Rightarrow> ta_invalid ce w
       | Some v \<Rightarrow>
          (let w1 = setc (\<lambda>s. s\<lparr>ta_serviceId := Some (sv_id v), ta_page := 0\<rparr>) w in
           if deleting then ask_delete_service_question ce (sv_id v) w1
           else show_screen Service_Detail (serviceDetailText ce s v) w1)))"

definition on_service_detail :: "console_env \<Rightarrow> ta_section \<Rightarrow> string \<Rightarrow> ta_world \<Rightarrow> ta_world" where
  "on_service_detail ce sec txt w = (let s = cw_console w in case selectedService s of
     None \<Rightarrow> goMenu ce sec w
   | Some v \<Rightarrow>
      if txt = ''1'' then show_screen Service_Edit_Name (sim ce ''catalog_edit_service_prompt'' []) w
      else if txt = ''2'' then
        (if plans_of s (sv_id v) = [] then bot (sim ce ''catalog_no_plans'' []) w
         else seq [setc (\<lambda>s. s\<lparr>ta_screen := Plan_Select, ta_page := 0\<rparr>), bot (planListText ce s (sv_id v) (ta_page s) False)] w)
      else if txt = ''3'' then show_screen Plan_Create_Name (sim ce ''catalog_create_plan_prompt'' []) w
      else if txt = ''4'' then
        (if plans_of s (sv_id v) = [] then bot (sim ce ''catalog_no_plans_delete'' []) w
         else seq [setc (\<lambda>s. s\<lparr>ta_screen := Plan_Delete_Select, ta_page := 0\<rparr>), bot (planListText ce s (sv_id v) 0 True)] w)
      else ta_invalid ce w)"

definition ta_createService :: "console_env \<Rightarrow> ta_section \<Rightarrow> string \<Rightarrow> ta_world \<Rightarrow> ta_world" where
  "ta_createService ce sec txt w = (if trim txt = [] then bot (sim ce ''catalog_error_name'' []) w
     else with_busy (mutate ce sec (ask_createService ce \<lparr>scr_name = txt, scr_icon = None\<rparr>)
       (\<lambda>v. sim ce ''catalog_service_created'' [(''name'', sv_name v)])) (ta_fails ce) w)"

definition on_service_edit_name :: "console_env \<Rightarrow> ta_section \<Rightarrow> string \<Rightarrow> ta_world \<Rightarrow> ta_world" where
  "on_service_edit_name ce sec txt w = (if trim txt = [] then bot (sim ce ''catalog_error_name'' []) w
     else with_busy (mutate ce sec (ask_updateService ce (nullish (ta_serviceId (cw_console w)) []) \<lparr>sup_name = Some txt, sup_icon = None\<rparr>)
       (\<lambda>v. sim ce ''catalog_service_renamed'' [(''name'', sv_name v)])) (ta_fails ce) w)"

definition on_plan_select :: "console_env \<Rightarrow> ta_section \<Rightarrow> bool \<Rightarrow> string \<Rightarrow> ta_world \<Rightarrow> ta_world" where
  "on_plan_select ce sec deleting txt w = (let s = cw_console w in case selectedService s of
     None \<Rightarrow> goMenu ce sec w
   | Some v \<Rightarrow> (let ps = plans_of s (sv_id v) in
      if txt = ''8'' then
        (let lst = console_totalPages ps - 1 in
         if ta_page s \<ge> lst then bot (sim ce ''no_next_page'' []) w
         else (let next = ta_page s + 1 in seq [setc (\<lambda>s. s\<lparr>ta_page := next\<rparr>), bot (planListText ce s (sv_id v) next deleting)] w))
      else (case chosen (ta_page s) ps txt of
          None \<Rightarrow> ta_invalid ce w
        | Some p \<Rightarrow>
            if deleting then ask_delete_plan_question ce (sv_id v) (pl_id p) (setc (\<lambda>s. s\<lparr>ta_planId := Some (pl_id p)\<rparr>) w)
            else seq [setc (\<lambda>s. s\<lparr>ta_planId := Some (pl_id p), ta_screen := Plan_Detail, ta_page := 0\<rparr>), bot (planDetailText ce p)] w)))"

definition on_plan_detail :: "console_env \<Rightarrow> ta_section \<Rightarrow> string \<Rightarrow> ta_world \<Rightarrow> ta_world" where
  "on_plan_detail ce sec txt w = (case selectedPlan (cw_console w) of
     None \<Rightarrow> goMenu ce sec w
   | Some p \<Rightarrow>
      if txt = ''1'' then show_screen Plan_Edit_Name (sim ce ''catalog_edit_plan_prompt'' []) w
      else if txt = ''2'' then ask_delete_plan_question ce (pl_service_id p) (pl_id p) w
      else ta_invalid ce w)"

definition on_plan_create_name :: "console_env \<Rightarrow> ta_section \<Rightarrow> string \<Rightarrow> ta_world \<Rightarrow> ta_world" where
  "on_plan_create_name ce sec txt w = (case selectedService (cw_console w) of
     None \<Rightarrow> goMenu ce sec w
   | Some v \<Rightarrow> if trim txt = [] then bot (sim ce ''catalog_error_name'' []) w
     else with_busy (mutate ce sec (ask_createPlan ce (sv_id v) \<lparr>pcr_name = txt, pcr_price = None\<rparr>)
       (\<lambda>p. sim ce ''catalog_plan_created'' [(''name'', pl_name p)])) (ta_fails ce) w)"

definition on_plan_edit_name :: "console_env \<Rightarrow> ta_section \<Rightarrow> string \<Rightarrow> ta_world \<Rightarrow> ta_world" where
  "on_plan_edit_name ce sec txt w = (case selectedPlan (cw_console w) of
     None \<Rightarrow> goMenu ce sec w
   | Some p \<Rightarrow> if trim txt = [] then bot (sim ce ''catalog_error_name'' []) w
     else with_busy (mutate ce sec (ask_updatePlan ce (pl_service_id p) (pl_id p) \<lparr>pup_name = Some txt, pup_price = None\<rparr>)
       (\<lambda>q. sim ce ''catalog_plan_renamed'' [(''name'', pl_name q)])) (ta_fails ce) w)"

definition on_catalog_confirm :: "console_env \<Rightarrow> ta_section \<Rightarrow> string \<Rightarrow> ta_world \<Rightarrow> ta_world" where
  "on_catalog_confirm ce sec txt w = (let s = cw_console w;
       name = (case ta_preview s of None \<Rightarrow> [] | Some pv \<Rightarrow> dp_target_name pv); sid = nullish (ta_serviceId s) [] in
     case ta_confirmation s of
       None \<Rightarrow> bot (sim ce ''catalog_confirm_reprompt'' []) w
     | Some question \<Rightarrow>
         if \<not> confirms txt then bot (sim ce ''catalog_confirm_reprompt'' []) w
         else if question = Confirm_Delete_Service then
           with_busy (mutate ce sec (ask_deleteService ce sid) (\<lambda>_. sim ce ''catalog_service_deleted'' [(''name'', name)])) (ta_fails ce) w
         else
           with_busy (mutate ce sec (ask_deletePlan ce sid (nullish (ta_planId s) []))
             (\<lambda>_. sim ce ''catalog_plan_deleted'' [(''name'', name)])) (ta_fails ce) w)"

definition handleCatalogMessage :: "console_env \<Rightarrow> ta_section \<Rightarrow> string \<Rightarrow> ta_world \<Rightarrow> ta_world" where
  "handleCatalogMessage ce sec txt w = (case ta_screen (cw_console w) of
     TA_Menu \<Rightarrow> on_catalog_menu ce txt w
   | Service_Select \<Rightarrow> on_service_select ce False txt w
   | Service_Delete_Select \<Rightarrow> on_service_select ce True txt w
   | Service_Detail \<Rightarrow> on_service_detail ce sec txt w
   | Service_Create_Name \<Rightarrow> ta_createService ce sec txt w
   | Service_Edit_Name \<Rightarrow> on_service_edit_name ce sec txt w
   | Plan_Select \<Rightarrow> on_plan_select ce sec False txt w
   | Plan_Delete_Select \<Rightarrow> on_plan_select ce sec True txt w
   | Plan_Detail \<Rightarrow> on_plan_detail ce sec txt w
   | Plan_Create_Name \<Rightarrow> on_plan_create_name ce sec txt w
   | Plan_Edit_Name \<Rightarrow> on_plan_edit_name ce sec txt w
   | Service_Delete_Confirm \<Rightarrow> on_catalog_confirm ce sec txt w
   | Plan_Delete_Confirm \<Rightarrow> on_catalog_confirm ce sec txt w
   | _ \<Rightarrow> w)"

text \<open>\<open>handleSubmit\<close> on what was typed. While the console loads or failed to, it shows no input.\<close>

definition ta_submit :: "console_env \<Rightarrow> ta_section \<Rightarrow> string \<Rightarrow> ta_world \<Rightarrow> ta_world" where
  "ta_submit ce sec typed w = (let txt = trim typed in
     if txt = [] \<or> cw_busy w \<or> cw_loading w \<or> cw_loadError w then w
     else (let w1 = say User txt w in
       if txt = ''0'' then tell [OnCancel] w1
       else if txt = ''9'' then goBack ce sec w1
       else if sec = ClientsSection then handleClientMessage ce sec txt w1
       else handleCatalogMessage ce sec txt w1))"

section \<open>What a message asks\<close>

text \<open>Operations that take something away, and the question each of them answers.\<close>

definition destructive :: "data_op \<Rightarrow> bool" where
  "destructive call = (case call of
     DeactivateClient k \<Rightarrow> True | DeleteClient k \<Rightarrow> True | DeleteService k \<Rightarrow> True | DeletePlan k q \<Rightarrow> True | _ \<Rightarrow> False)"

definition answered :: "ta_state \<Rightarrow> data_op \<Rightarrow> bool" where
  "answered s call = (case call of
     DeactivateClient k \<Rightarrow> ta_screen s = Client_Confirm \<and> ta_confirmation s = Some Confirm_Deactivate \<and> ta_clientId s = Some k
   | DeleteClient k \<Rightarrow> ta_screen s = Client_Confirm \<and> ta_confirmation s \<noteq> Some Confirm_Deactivate \<and> ta_confirmation s \<noteq> None \<and> ta_clientId s = Some k
   | DeleteService k \<Rightarrow> ta_screen s \<in> {Service_Delete_Confirm, Plan_Delete_Confirm} \<and> ta_confirmation s = Some Confirm_Delete_Service \<and>
       k = nullish (ta_serviceId s) []
   | DeletePlan k q \<Rightarrow> ta_screen s \<in> {Service_Delete_Confirm, Plan_Delete_Confirm} \<and> ta_confirmation s \<noteq> Some Confirm_Delete_Service \<and>
       ta_confirmation s \<noteq> None \<and> k = nullish (ta_serviceId s) [] \<and> q = nullish (ta_planId s) []
   | _ \<Rightarrow> False)"

lemma harmless_ops [simp]:
  "\<not> destructive ListClients" "\<not> destructive (CreateClient p)" "\<not> destructive (UpdateClient k cu)" "\<not> destructive (ActivateClient k)"
  "\<not> destructive (PreviewClient k)" "\<not> destructive ListServices" "\<not> destructive (CreateService sp)"
  "\<not> destructive (UpdateService k su)" "\<not> destructive (PreviewService k)" "\<not> destructive (ListPlans k)"
  "\<not> destructive (CreatePlan k pp)" "\<not> destructive (UpdatePlan k q pu)" "\<not> destructive (PreviewPlan k q)"
  by (simp_all add: destructive_def)

text \<open>Navigation asks nothing.\<close>

lemma screens_ask [simp]:
  "on_data J (show_screen x txt w) = on_data J w" "on_data J (goMenu ce sec w) = on_data J w" "on_data J (ta_invalid ce w) = on_data J w"
  "on_data J (ta_fails ce err w) = on_data J w"
  by (simp_all add: show_screen_def goMenu_def ta_invalid_def ta_fails_def)

lemma back_steps_ask [simp]:
  "on_data J (back_to_client ce sec w) = on_data J w" "on_data J (service_detail_step ce sec clears w) = on_data J w"
  "on_data J (plan_detail_step ce sec w) = on_data J w" "on_data J (back_in_creation ce sec w) = on_data J w"
  by (simp_all add: back_to_client_def service_detail_step_def plan_detail_step_def back_in_creation_def split: option.split)

lemma back_asks [simp]: "on_data J (goBack ce sec w) = on_data J w"
  by (cases "ta_screen (cw_console w)") (simp_all add: goBack_def Let_def split: option.split)

lemma creation_failed_asks [simp]: "on_data J (creation_failed ce err w) = on_data J w"
  by (simp add: creation_failed_def Let_def)

text \<open>Whatever a message asks, it asks nothing destructive but what a confirmed question is about.\<close>

context data_closed begin

lemma ta_load_keeps:
  assumes "\<And>call. \<not> destructive call \<Longrightarrow> allowed call"
  shows "act_keeps (on_data J) (ta_loadWorkspace ce sec)"
  unfolding ta_loadWorkspace_def ask_defs
  by (cases sec) (simp_all add: act_keeps_bind keeps_ask act_keeps_all_of act_keeps_adone assms)

lemma ta_complete_keeps:
  assumes "\<And>call. \<not> destructive call \<Longrightarrow> allowed call"
  shows "act_keeps (on_data J) (completeMutation ce sec txt)"
  unfolding completeMutation_def ta_refresh_def invalidateWorkspaceCaches_def
  by (intro act_keeps_bind act_keeps_then ta_load_keeps act_keeps_adone keeps_seq assms) (simp_all add: keeps_def)

lemma ta_mutate_keeps:
  assumes "\<And>call. \<not> destructive call \<Longrightarrow> allowed call" and "runs ce call run" and "allowed call"
  shows "act_keeps (on_data J) (mutate ce sec (ask ce call run) success)"
  unfolding mutate_def by (intro act_keeps_bind ta_complete_keeps keeps_ask assms)

lemma busy_mutation:
  assumes "\<And>call. \<not> destructive call \<Longrightarrow> allowed call" and "runs ce call run" and "allowed call"
    and "\<And>err v. on_data J (h err v) = on_data J v" and "on_data J w"
  shows "on_data J (with_busy (mutate ce sec (ask ce call run) success) h w)"
  by (rule keeps_with_busy [OF ta_mutate_keeps [OF assms(1-3)] _ assms(5)]) (simp_all add: keeps_def assms(4))

lemma client_detail_asks:
  assumes A: "\<And>call. \<not> destructive call \<Longrightarrow> allowed call" and w: "on_data J w"
  shows "on_data J (on_client_detail ce sec txt w)"
proof -
  have "on_data J (with_busy (ask_delete_client_question ce c) (ta_fails ce) w)" for c
    unfolding ask_delete_client_question_def ask_clientPreview_def
    by (rule keeps_question) (simp_all add: A w keeps_def)
  then show ?thesis using w by (simp add: on_client_detail_def ask_activate_def busy_mutation A split: option.split)
qed

lemma client_confirm_asks:
  assumes A: "\<And>call. \<not> destructive call \<Longrightarrow> allowed call"
    and confirm: "\<And>call. confirms txt \<Longrightarrow> answered (cw_console w) call \<Longrightarrow> allowed call"
    and w: "on_data J w" and x: "ta_screen (cw_console w) = Client_Confirm"
  shows "on_data J (on_client_confirm ce sec txt w)"
  using w x by (auto simp: on_client_confirm_def ask_deactivate_def ask_deleteClient_def answered_def Let_def
    intro!: busy_mutation [OF A] confirm split: option.split)

lemma client_message_asks:
  assumes A: "\<And>call. \<not> destructive call \<Longrightarrow> allowed call"
    and confirm: "\<And>call. confirms txt \<Longrightarrow> answered (cw_console w) call \<Longrightarrow> allowed call" and w: "on_data J w"
  shows "on_data J (handleClientMessage ce sec txt w)"
proof -
  have "on_data J (on_create_confirm ce sec txt w)" "on_data J (on_client_edit_value ce sec txt w)"
    using w by (simp_all add: on_create_confirm_def ask_createClient_def on_client_edit_value_def ask_updateClient_def
      busy_mutation A split: option.split)
  moreover have "on_data J (on_create_name ce txt w)" "on_data J (on_create_phone ce txt w)"
    "on_data J (on_create_username ce txt w)" "on_data J (on_create_password ce txt w)"
    using w by (simp_all add: on_create_name_def on_create_phone_def on_create_username_def on_create_password_def Let_def)
  ultimately show ?thesis
    using w client_detail_asks [OF A w] client_confirm_asks [OF A confirm w]
    by (cases "ta_screen (cw_console w)")
      (simp_all add: handleClientMessage_def on_client_menu_def on_client_select_def on_client_edit_field_def Let_def
        split: option.split prod.split)
qed

lemma question_asks:
  assumes "\<And>call. \<not> destructive call \<Longrightarrow> allowed call" and "on_data J w"
  shows "on_data J (ask_delete_service_question ce sid w)" "on_data J (ask_delete_plan_question ce sid pid w)"
  unfolding ask_delete_service_question_def ask_delete_plan_question_def ask_delete_question_def ask_servicePreview_def ask_planPreview_def
  by (rule keeps_question; simp add: assms keeps_def)+

lemma catalog_confirm_asks:
  assumes A: "\<And>call. \<not> destructive call \<Longrightarrow> allowed call"
    and confirm: "\<And>call. confirms txt \<Longrightarrow> answered (cw_console w) call \<Longrightarrow> allowed call"
    and w: "on_data J w" and x: "ta_screen (cw_console w) \<in> {Service_Delete_Confirm, Plan_Delete_Confirm}"
  shows "on_data J (on_catalog_confirm ce sec txt w)"
  using w x by (auto simp: on_catalog_confirm_def ask_deleteService_def ask_deletePlan_def answered_def Let_def
    intro!: busy_mutation [OF A] confirm split: option.split)

lemma catalog_message_asks:
  assumes A: "\<And>call. \<not> destructive call \<Longrightarrow> allowed call"
    and confirm: "\<And>call. confirms txt \<Longrightarrow> answered (cw_console w) call \<Longrightarrow> allowed call" and w: "on_data J w"
  shows "on_data J (handleCatalogMessage ce sec txt w)"
proof -
  have "on_data J (ta_createService ce sec txt w)" "on_data J (on_service_edit_name ce sec txt w)"
    "on_data J (on_plan_create_name ce sec txt w)" "on_data J (on_plan_edit_name ce sec txt w)"
    using w by (simp_all add: ta_createService_def ask_createService_def on_service_edit_name_def ask_updateService_def
      on_plan_create_name_def ask_createPlan_def on_plan_edit_name_def ask_updatePlan_def busy_mutation A split: option.split)
  moreover have "on_data J (on_catalog_menu ce txt w)" "on_data J (on_service_select ce deleting txt w)"
    "on_data J (on_service_detail ce sec txt w)" "on_data J (on_plan_select ce sec deleting txt w)"
    "on_data J (on_plan_detail ce sec txt w)" for deleting
    using w by (simp_all add: on_catalog_menu_def on_service_select_def on_service_detail_def on_plan_select_def on_plan_detail_def
      question_asks [OF A] Let_def split: option.split)
  ultimately show ?thesis using w catalog_confirm_asks [OF A confirm w]
    by (cases "ta_screen (cw_console w)") (simp_all add: handleCatalogMessage_def)
qed

lemma submit_asks:
  assumes A: "\<And>call. \<not> destructive call \<Longrightarrow> allowed call"
    and confirm: "\<And>call. confirms (trim typed) \<Longrightarrow> answered (cw_console w) call \<Longrightarrow> allowed call" and w: "on_data J w"
  shows "on_data J (ta_submit ce sec typed w)"
proof -
  have "on_data J (handleClientMessage ce sec (trim typed) (say User (trim typed) w))"
    "on_data J (handleCatalogMessage ce sec (trim typed) (say User (trim typed) w))"
    using w by (intro client_message_asks catalog_message_asks A confirm; simp)+
  then show ?thesis using w by (cases sec) (simp_all add: ta_submit_def Let_def)
qed

lemma ta_reload_asks:
  assumes "\<And>call. \<not> destructive call \<Longrightarrow> allowed call" and "on_data J w"
  shows "on_data J (ta_load ce sec w)"
proof -
  have "on_data J (snd (ta_loadWorkspace ce sec (w\<lparr>cw_loading := True, cw_loadError := False\<rparr>)))"
    using ta_load_keeps [of sec] assms unfolding act_keeps_def by (simp add: on_data_def)
  then show ?thesis
    by (cases "ta_loadWorkspace ce sec (w\<lparr>cw_loading := True, cw_loadError := False\<rparr>)")
      (simp add: ta_load_def Let_def on_data_def split: sum.split)
qed

end

section \<open>Going back\<close>

text \<open>How many times \<open>9\<close> has to be typed to come to the menu.\<close>

definition ta_depth :: "ta_state \<Rightarrow> nat" where
  "ta_depth s = (case ta_screen s of
     TA_Menu \<Rightarrow> 0
   | Client_Select \<Rightarrow> ta_page s + 1 | Client_Detail \<Rightarrow> 2 | Client_Edit_Field \<Rightarrow> 3 | Client_Edit_Value \<Rightarrow> 4 | Client_Confirm \<Rightarrow> 3
   | Client_Create_Name \<Rightarrow> 1 | Client_Create_Phone \<Rightarrow> 2 | Client_Create_Username \<Rightarrow> 3 | Client_Create_Password \<Rightarrow> 4
   | Client_Create_Confirm \<Rightarrow> 5
   | Service_Select \<Rightarrow> ta_page s + 1 | Service_Delete_Select \<Rightarrow> ta_page s + 1 | Service_Detail \<Rightarrow> 2
   | Service_Create_Name \<Rightarrow> 1 | Service_Edit_Name \<Rightarrow> 3 | Service_Delete_Confirm \<Rightarrow> 3
   | Plan_Select \<Rightarrow> 3 | Plan_Delete_Select \<Rightarrow> 3 | Plan_Create_Name \<Rightarrow> 3 | Plan_Detail \<Rightarrow> 4 | Plan_Edit_Name \<Rightarrow> 5 | Plan_Delete_Confirm \<Rightarrow> 5)"

text \<open>A step back asks nothing and calls nothing but \<open>onBack\<close>, and that from the menu only; elsewhere it comes closer to the menu.\<close>

definition steps_back :: "ta_world \<Rightarrow> ta_world \<Rightarrow> bool" where
  "steps_back w v \<longleftrightarrow> ta_depth (cw_console v) < ta_depth (cw_console w) \<and> cw_calls v = cw_calls w \<and> cw_repo v = cw_repo w \<and>
     cw_ops v = cw_ops w \<and> (ready_for_input v \<longleftrightarrow> ready_for_input w)"

lemma to_menu_depth [simp]: "ta_depth (to_menu s) = 0"
  by (simp add: ta_depth_def to_menu_def)

lemma goMenu_back: "0 < ta_depth (cw_console w) \<Longrightarrow> steps_back w (goMenu ce sec w)"
  by (simp add: steps_back_def goMenu_def ready_for_input_def)

lemma detail_steps_back:
  "2 < ta_depth (cw_console w) \<Longrightarrow> steps_back w (back_to_client ce sec w)"
  "2 < ta_depth (cw_console w) \<Longrightarrow> steps_back w (service_detail_step ce sec clears w)"
  "4 < ta_depth (cw_console w) \<Longrightarrow> steps_back w (plan_detail_step ce sec w)"
  by (simp_all add: back_to_client_def service_detail_step_def plan_detail_step_def goMenu_back split: option.split)
    (simp_all add: steps_back_def show_screen_def ready_for_input_def ta_depth_def clear_question_def)

lemma goBack_back:
  assumes "ta_screen (cw_console w) \<noteq> TA_Menu"
  shows "steps_back w (goBack ce sec w)"
proof -
  let ?s = "cw_console w"
  have detail: "ta_screen ?s \<in> {Client_Edit_Field, Service_Edit_Name, Plan_Select, Service_Delete_Confirm, Plan_Delete_Select, Plan_Create_Name, Client_Confirm}
      \<Longrightarrow> 2 < ta_depth ?s" "ta_screen ?s \<in> {Plan_Edit_Name, Plan_Delete_Confirm} \<Longrightarrow> 4 < ta_depth ?s" "0 < ta_depth ?s"
    using assms by (auto simp: ta_depth_def split: ta_screen.split)
  note menu = goMenu_back [OF detail(3), of ce sec]
  have confirm: "steps_back w (back_to_client ce sec (setc (\<lambda>s. s\<lparr>ta_confirmation := None\<rparr>) w))" if "ta_screen ?s = Client_Confirm"
    using detail_steps_back(1) [of "setc (\<lambda>s. s\<lparr>ta_confirmation := None\<rparr>) w" ce sec] that
    by (simp add: steps_back_def ta_depth_def ready_for_input_def)
  show ?thesis
    using assms detail menu confirm
    by (cases "ta_screen ?s")
      (simp_all add: goBack_def Let_def detail_steps_back back_in_creation_def ta_previous_def split: option.split,
       simp_all add: steps_back_def show_screen_def ready_for_input_def ta_depth_def)
qed

lemma submit_9:
  assumes "ready_for_input w"
  shows "ta_submit ce sec ''9'' w = goBack ce sec (say User ''9'' w)"
proof -
  have "trim ''9'' = ''9''" by code_simp
  then show ?thesis using assms by (simp add: ta_submit_def ready_for_input_def)
qed

lemma backs_out:
  "ready_for_input w \<Longrightarrow> \<exists>n \<le> ta_depth (cw_console w) + 1. \<exists>v. (ta_submit ce sec ''9'' ^^ n) w = v \<and>
     cw_calls v = cw_calls w @ [OnBack] \<and> cw_repo v = cw_repo w \<and> cw_ops v = cw_ops w"
proof (induction "ta_depth (cw_console w)" arbitrary: w rule: less_induct)
  case less
  let ?w = "say User ''9'' w"
  show ?case
  proof (cases "ta_screen (cw_console w) = TA_Menu")
    case True
    then have "ta_submit ce sec ''9'' w = tell [OnBack] ?w"
      using submit_9 [OF less.prems] by (simp add: goBack_def)
    then show ?thesis by (intro exI [of _ "1::nat"]) simp
  next
    case False
    let ?v = "ta_submit ce sec ''9'' w"
    have step: "steps_back w ?v"
      using goBack_back [of ?w ce sec] False submit_9 [OF less.prems] by (simp add: steps_back_def ready_for_input_def)
    then obtain n where n: "n \<le> ta_depth (cw_console ?v) + 1" "cw_calls ((ta_submit ce sec ''9'' ^^ n) ?v) = cw_calls ?v @ [OnBack]"
      "cw_repo ((ta_submit ce sec ''9'' ^^ n) ?v) = cw_repo ?v" "cw_ops ((ta_submit ce sec ''9'' ^^ n) ?v) = cw_ops ?v"
      using less.hyps [of ?v] less.prems by (auto simp: steps_back_def)
    then show ?thesis using step
      by (intro exI [of _ "Suc n"]) (simp add: steps_back_def funpow_swap1)
  qed
qed

lemma ta_depth_bound: "ta_depth s \<le> ta_page s + 5"
  by (simp add: ta_depth_def split: ta_screen.split)

section \<open>What the screens promise\<close>

text \<open>
  Behind the screens of the creation the draft has what was asked before; behind a question there is the preview it was asked from, and it is
  about the selected entry.
\<close>

definition previewed :: "ta_state \<Rightarrow> string option \<Rightarrow> bool" where
  "previewed s k \<longleftrightarrow> (\<exists>pv. ta_preview s = Some pv \<and> k = Some (dp_target_id pv))"

definition screen_ok :: "ta_state \<Rightarrow> bool" where
  "screen_ok s \<longleftrightarrow> (let d = ta_draft s in case ta_screen s of
     Client_Create_Phone \<Rightarrow> dr_fullName d \<noteq> [] | Client_Create_Username \<Rightarrow> dr_fullName d \<noteq> []
   | Client_Create_Password \<Rightarrow> dr_fullName d \<noteq> [] \<and> dr_username d \<noteq> []
   | Client_Create_Confirm \<Rightarrow> dr_fullName d \<noteq> [] \<and> dr_username d \<noteq> [] \<and> 6 \<le> length (dr_password d)
   | Client_Confirm \<Rightarrow> ta_clientId s \<noteq> None \<and>
       (ta_confirmation s = Some Confirm_Deactivate \<or> ta_confirmation s = Some Confirm_Delete_Client \<and> previewed s (ta_clientId s))
   | Service_Delete_Confirm \<Rightarrow> ta_confirmation s = Some Confirm_Delete_Service \<and> previewed s (ta_serviceId s)
   | Plan_Delete_Confirm \<Rightarrow> ta_confirmation s = Some Confirm_Delete_Plan \<and> previewed s (ta_planId s)
   | _ \<Rightarrow> True)"

definition ta_inv :: "ta_world \<Rightarrow> bool" where
  "ta_inv w \<longleftrightarrow> numbered (cw_messages w) \<and> screen_ok (cw_console w)"

text \<open>Together with the draft it started from.\<close>

definition ta_core :: "ClientDraft \<Rightarrow> ta_world \<Rightarrow> bool" where
  "ta_core d w \<longleftrightarrow> ta_inv w \<and> ta_draft (cw_console w) = d"

lemma screen_ok_menu [simp]: "screen_ok (to_menu s)" "ta_draft (to_menu s) = ta_draft s"
  by (simp_all add: screen_ok_def to_menu_def)

lemma screen_ok_lists [simp]:
  "screen_ok (s\<lparr>ta_clients := cs\<rparr>) = screen_ok s" "screen_ok (s\<lparr>ta_services := vs, ta_plans := ps\<rparr>) = screen_ok s"
  "screen_ok (s\<lparr>ta_page := n\<rparr>) = screen_ok s"
  by (cases "ta_screen s"; simp add: screen_ok_def previewed_def)+

lemma ta_inv_steps [simp]:
  "ta_inv w \<Longrightarrow> ta_inv (bot x w)" "ta_inv w \<Longrightarrow> ta_inv (say role x w)"
  "ta_inv (tell cs w) = ta_inv w" "ta_inv (setBusy b w) = ta_inv w" "ta_inv (w\<lparr>cw_repo := r, cw_ops := ops\<rparr>) = ta_inv w"
  by (auto simp: ta_inv_def)

lemma ta_core_steps [simp]:
  "ta_core d w \<Longrightarrow> ta_core d (bot x w)" "ta_core d (tell cs w) = ta_core d w" "ta_core d (setBusy b w) = ta_core d w"
  by (simp_all add: ta_core_def ta_inv_def)

lemma ask_core: "act_keeps (ta_core d) (ask ce call run)"
  by (simp add: act_keeps_def ask_def ta_core_def ta_inv_def split: prod.split)

lemma load_core: "act_keeps (ta_core d) (ta_loadWorkspace ce sec)"
  unfolding ta_loadWorkspace_def ask_defs
  by (cases sec) (simp_all add: act_keeps_bind ask_core act_keeps_all_of act_keeps_adone keeps_def ta_core_def ta_inv_def)

lemma mutation_core:
  assumes "\<And>err v. ta_core d v \<Longrightarrow> ta_inv (h err v)" and "ta_core d w"
  shows "ta_inv (with_busy (mutate ce sec (ask ce call run) success) h w)"
proof -
  have "act_keeps (ta_core d) (mutate ce sec (ask ce call run) success)"
    unfolding mutate_def completeMutation_def ta_refresh_def invalidateWorkspaceCaches_def
    by (intro act_keeps_bind act_keeps_then ask_core load_core act_keeps_adone keeps_seq)
      (auto simp: keeps_def ta_core_def ta_inv_def)
  then have "ta_core d (snd (mutate ce sec (ask ce call run) success (setBusy True w)))"
    using assms(2) by (simp add: act_keeps_def)
  then show ?thesis using assms(1)
    by (cases "mutate ce sec (ask ce call run) success (setBusy True w)") (auto simp: with_busy_def attempt_def ta_core_def split: sum.split)
qed

lemma mutation_inv:
  assumes "\<And>err v. ta_inv v \<Longrightarrow> ta_inv (h err v)" and "ta_inv w"
  shows "ta_inv (with_busy (mutate ce sec (ask ce call run) success) h w)"
  by (rule mutation_core [of "ta_draft (cw_console w)"]) (use assms in \<open>simp_all add: ta_core_def\<close>)

text \<open>A question: the reply decides whether it is asked.\<close>

lemma question_inv:
  assumes "\<And>x r t now v. run now r = (Inr x, t) \<Longrightarrow> cw_console v = cw_console w \<Longrightarrow> cw_messages v = cw_messages w \<Longrightarrow> ta_inv (f x v)"
    and "ta_inv w"
  shows "ta_inv (with_busy (abind (ask ce call run) (\<lambda>x. adone (f x))) (ta_fails ce) w)"
proof -
  obtain x t where run: "run (ce_clock ce (length (cw_ops w))) (cw_repo w) = (x, t)" by fastforce
  show ?thesis
  proof (cases x)
    case (Inl e)
    then show ?thesis using run assms(2)
      by (simp add: with_busy_def attempt_def abind_def ask_def ta_fails_def ta_inv_def setBusy_def)
  next
    case (Inr y)
    let ?v = "(setBusy True w)\<lparr>cw_repo := t, cw_ops := cw_ops w @ [call]\<rparr>"
    have "ta_inv (f y ?v)" by (rule assms(1) [OF run [unfolded Inr]]) simp_all
    then show ?thesis using run Inr by (simp add: with_busy_def attempt_def abind_def ask_def adone_def)
  qed
qed

text \<open>A preview is of what was asked for.\<close>

lemma query_value: "query require q r = (Inr x, t) \<Longrightarrow> \<exists>s. q s = Inr x"
  by (auto simp: query_def abind_def alift_def split: prod.splits sum.splits)

lemma preview_targets:
  "client_getDeletePreview m now k r = (Inr pv, t) \<Longrightarrow> dp_target_id pv = k"
  "getServiceDeletePreview m now k r = (Inr pv, t) \<Longrightarrow> dp_target_id pv = k"
  "getPlanDeletePreview m now k q r = (Inr pv, t) \<Longrightarrow> dp_target_id pv = q"
  unfolding client_getDeletePreview_def getServiceDeletePreview_def getPlanDeletePreview_def
  by (drule query_value, auto simp: ebind_eq_Inr clientDeletePreview_def preview_def Let_def dest!: find_by_SomeD)+

lemma selected_ids:
  "ta_selectedClient s = Some c \<Longrightarrow> ta_clientId s = Some (cl_id c)"
  "selectedService s = Some v \<Longrightarrow> ta_serviceId s = Some (sv_id v)"
  "selectedPlan s = Some p \<Longrightarrow> ta_planId s = Some (pl_id p)"
  by (auto simp: ta_selectedClient_def selectedService_def selectedPlan_def dest!: find_SomeD)

text \<open>The screens that promise nothing.\<close>

definition free_screen :: "ta_screen \<Rightarrow> bool" where
  "free_screen x \<longleftrightarrow> x \<in> {TA_Menu, Client_Select, Client_Detail, Client_Edit_Field, Client_Edit_Value, Client_Create_Name,
     Service_Select, Service_Detail, Service_Create_Name, Service_Edit_Name, Service_Delete_Select, Plan_Select, Plan_Detail,
     Plan_Create_Name, Plan_Edit_Name, Plan_Delete_Select}"

lemma free_screen_ok: "free_screen (ta_screen s) \<Longrightarrow> screen_ok s"
  by (auto simp: free_screen_def screen_ok_def)

lemma free_simps [simp]:
  "free_screen TA_Menu" "free_screen Client_Select" "free_screen Client_Detail" "free_screen Client_Edit_Field" "free_screen Client_Edit_Value"
  "free_screen Client_Create_Name" "free_screen Service_Select" "free_screen Service_Detail" "free_screen Service_Create_Name"
  "free_screen Service_Edit_Name" "free_screen Service_Delete_Select" "free_screen Plan_Select" "free_screen Plan_Detail"
  "free_screen Plan_Create_Name" "free_screen Plan_Edit_Name" "free_screen Plan_Delete_Select"
  by (simp_all add: free_screen_def)

lemma show_free: "free_screen x \<Longrightarrow> ta_inv w \<Longrightarrow> ta_inv (show_screen x txt w)"
  by (simp add: show_screen_def ta_inv_def free_screen_ok)

lemma goMenu_inv [simp]: "ta_inv w \<Longrightarrow> ta_inv (goMenu ce sec w)"
  by (simp add: goMenu_def ta_inv_def)

lemma set_free: "ta_inv w \<Longrightarrow> free_screen (ta_screen (f (cw_console w))) \<Longrightarrow> ta_inv (setc f w)"
  by (simp add: ta_inv_def free_screen_ok)

lemma detail_inv [simp]:
  "ta_inv w \<Longrightarrow> ta_inv (back_to_client ce sec w)" "ta_inv w \<Longrightarrow> ta_inv (service_detail_step ce sec clears w)"
  "ta_inv w \<Longrightarrow> ta_inv (plan_detail_step ce sec w)"
  by (auto simp: back_to_client_def service_detail_step_def plan_detail_step_def show_free set_free clear_question_def split: option.split)

lemma show_inv: "ta_inv w \<Longrightarrow> screen_ok ((cw_console w)\<lparr>ta_screen := x\<rparr>) \<Longrightarrow> ta_inv (show_screen x txt w)"
  by (simp add: show_screen_def ta_inv_def)

lemma ta_invalid_inv [simp]: "ta_inv w \<Longrightarrow> ta_inv (ta_invalid ce w)" "ta_inv w \<Longrightarrow> ta_inv (ta_fails ce err w)"
  by (simp_all add: ta_invalid_def ta_fails_def)

lemma goBack_inv:
  assumes "ta_inv w"
  shows "ta_inv (goBack ce sec w)"
proof -
  have "ta_inv (setc (\<lambda>s. s\<lparr>ta_page := n\<rparr>) w)" for n
    using assms by (simp add: ta_inv_def)
  moreover have "ta_inv (back_to_client ce sec (setc (\<lambda>s. s\<lparr>ta_confirmation := None\<rparr>) w))"
    using assms by (simp add: back_to_client_def show_screen_def goMenu_def ta_inv_def free_screen_ok split: option.split)
  moreover have "ta_inv (back_in_creation ce sec w)"
    using assms by (cases "ta_screen (cw_console w)")
      (auto simp: back_in_creation_def ta_previous_def intro!: show_inv, auto simp: ta_inv_def screen_ok_def Let_def)
  ultimately show ?thesis
    using assms by (cases "ta_screen (cw_console w)")
      (simp_all add: goBack_def Let_def show_free set_free split: option.split)
qed

lemma draft_inv: "ta_inv w \<Longrightarrow> screen_ok ((set_draft f (cw_console w))\<lparr>ta_screen := x\<rparr>) \<Longrightarrow> ta_inv (show_screen x txt (setc (set_draft f) w))"
  by (simp add: show_screen_def ta_inv_def)

lemma creation_failed_inv:
  assumes "ta_inv v" and "dr_fullName (ta_draft (cw_console v)) \<noteq> []" and "dr_username (ta_draft (cw_console v)) \<noteq> []"
  shows "ta_inv (creation_failed ce err v)"
  using assms by (auto simp: creation_failed_def Let_def intro!: show_inv) (simp_all add: screen_ok_def)

lemma client_message_inv:
  assumes "ta_inv w"
  shows "ta_inv (handleClientMessage ce sec txt w)"
proof -
  let ?s = "cw_console w" and ?d = "ta_draft (cw_console w)"
  have question: "ta_inv (with_busy (ask_delete_client_question ce c) (ta_fails ce) w)" if "ta_selectedClient ?s = Some c" for c
    unfolding ask_delete_client_question_def ask_clientPreview_def
    by (rule question_inv [OF _ assms])
      (use assms selected_ids(1) [OF that] in \<open>auto simp: ta_inv_def screen_ok_def previewed_def dest: preview_targets\<close>)
  have "ta_inv (setc (\<lambda>s. s\<lparr>ta_confirmation := Some Confirm_Deactivate, ta_screen := Client_Confirm\<rparr>) w)"
    if "ta_selectedClient ?s = Some c" for c
    using assms selected_ids(1) [OF that] by (simp add: ta_inv_def screen_ok_def)
  then have "ta_inv (on_client_detail ce sec txt w)"
    using assms question by (simp add: on_client_detail_def show_free ask_activate_def mutation_inv split: option.split)
  moreover have "ta_inv (on_client_edit_value ce sec txt w)" "ta_inv (on_client_confirm ce sec txt w)"
    using assms by (auto simp: on_client_edit_value_def on_client_confirm_def ask_updateClient_def ask_deactivate_def ask_deleteClient_def
      Let_def intro!: mutation_inv split: option.split)
  moreover have "ta_inv (on_create_confirm ce sec txt w)" if "ta_screen ?s = Client_Create_Confirm"
  proof -
    have d: "dr_fullName ?d \<noteq> []" "dr_username ?d \<noteq> []" using assms that by (simp_all add: ta_inv_def screen_ok_def Let_def)
    show ?thesis using assms
      by (auto simp: on_create_confirm_def ask_createClient_def intro!: mutation_core [of ?d] creation_failed_inv)
        (use d in \<open>simp_all add: ta_core_def\<close>)
  qed
  moreover have "ta_inv (on_create_name ce txt w)" "ta_screen ?s = Client_Create_Phone \<Longrightarrow> ta_inv (on_create_phone ce txt w)"
    "ta_screen ?s = Client_Create_Username \<Longrightarrow> ta_inv (on_create_username ce txt w)"
    "ta_screen ?s = Client_Create_Password \<Longrightarrow> ta_inv (on_create_password ce txt w)"
    using assms by (auto simp: on_create_name_def on_create_phone_def on_create_username_def on_create_password_def Let_def intro!: draft_inv)
      (auto simp: ta_inv_def screen_ok_def set_draft_def Let_def)
  ultimately show ?thesis using assms
    by (cases "ta_screen ?s")
      (auto simp: handleClientMessage_def on_client_menu_def on_client_select_def on_client_edit_field_def Let_def
        show_free set_free split: option.split prod.split)
qed

lemma catalog_message_inv:
  assumes "ta_inv w"
  shows "ta_inv (handleCatalogMessage ce sec txt w)"
proof -
  let ?s = "cw_console w"
  have service: "ta_inv (ask_delete_service_question ce k v)" if "ta_inv v" "ta_serviceId (cw_console v) = Some k" for k v
    unfolding ask_delete_service_question_def ask_delete_question_def ask_servicePreview_def
    by (rule question_inv [OF _ that(1)]) (use that in \<open>auto simp: ta_inv_def screen_ok_def previewed_def dest: preview_targets\<close>)
  have plan: "ta_inv (ask_delete_plan_question ce k q v)" if "ta_inv v" "ta_planId (cw_console v) = Some q" for k q v
    unfolding ask_delete_plan_question_def ask_delete_question_def ask_planPreview_def
    by (rule question_inv [OF _ that(1)]) (use that in \<open>auto simp: ta_inv_def screen_ok_def previewed_def dest: preview_targets\<close>)
  have "ta_inv (ta_createService ce sec txt w)" "ta_inv (on_service_edit_name ce sec txt w)"
    "ta_inv (on_plan_create_name ce sec txt w)" "ta_inv (on_plan_edit_name ce sec txt w)" "ta_inv (on_catalog_confirm ce sec txt w)"
    using assms by (simp_all add: ta_createService_def ask_createService_def on_service_edit_name_def ask_updateService_def
      on_plan_create_name_def ask_createPlan_def on_plan_edit_name_def ask_updatePlan_def on_catalog_confirm_def ask_deleteService_def
      ask_deletePlan_def Let_def mutation_inv split: option.split)
  moreover have "ta_inv (on_plan_detail ce sec txt w)"
    using assms plan [OF assms] selected_ids(3) [of ?s] by (auto simp: on_plan_detail_def show_free split: option.split)
  moreover have "ta_inv (on_service_select ce deleting txt w)" if "free_screen (ta_screen ?s)" for deleting
    using assms that by (auto simp: on_service_select_def Let_def show_free set_free intro!: service split: option.split)
  moreover have "ta_inv (on_plan_select ce sec deleting txt w)" if "free_screen (ta_screen ?s)" for deleting
    using assms that by (auto simp: on_plan_select_def Let_def set_free intro!: plan split: option.split)
  ultimately show ?thesis using assms
    by (cases "ta_screen ?s")
      (simp_all add: handleCatalogMessage_def on_catalog_menu_def on_service_detail_def Let_def show_free set_free split: option.split)
qed

lemma submit_inv: "ta_inv w \<Longrightarrow> ta_inv (ta_submit ce sec typed w)"
  by (simp add: ta_submit_def Let_def goBack_inv client_message_inv catalog_message_inv)

lemma reload_inv:
  assumes "ta_inv w"
  shows "ta_inv (ta_load ce sec w)"
proof -
  let ?w = "w\<lparr>cw_loading := True, cw_loadError := False\<rparr>"
  have "ta_core (ta_draft (cw_console ?w)) ?w" using assms by (simp add: ta_core_def ta_inv_def)
  then have "ta_inv (snd (ta_loadWorkspace ce sec ?w))"
    using load_core [of "ta_draft (cw_console ?w)" ce sec] unfolding act_keeps_def ta_core_def by blast
  moreover have "numbered [\<lparr>msg_id = 1, msg_role = Bot, msg_text = x\<rparr>]" for x by (simp add: numbered_def)
  ultimately show ?thesis
    by (cases "ta_loadWorkspace ce sec ?w") (simp add: ta_load_def Let_def ta_inv_def split: sum.split)
qed

text \<open>A conversation: messages, and reloads when the store has a new data source.\<close>

inductive ta_step :: "console_env \<Rightarrow> ta_section \<Rightarrow> ta_world \<Rightarrow> ta_world \<Rightarrow> bool" for ce sec where
  ta_submitted: "ta_step ce sec w (ta_submit ce sec typed w)"
| ta_loaded: "ta_step ce sec w (ta_load ce sec w)"

interpretation ta: invariant_run "ta_step ce sec" ta_inv for ce sec
  by unfold_locales (auto elim!: ta_step.cases intro: submit_inv reload_inv)

interpretation ta_workspace: invariant_run "ta_step ce sec" "on_data (\<lambda>r ops. list_all orderly ops \<longrightarrow> workspace_ok ce r)" for ce sec
  by unfold_locales (auto elim!: ta_step.cases intro: workspace.submit_asks workspace.ta_reload_asks)

lemma ta_start_inv: "ta_inv (ta_world_of r)"
  by (simp add: ta_inv_def ta_world_of_def initial_ta_def screen_ok_def)

section \<open>Findings\<close>

text \<open>
  The list of plans. Going back from its second page leaves the page number, so \<open>2\<close> in the detail of the service then shows the list
  of that page under the first page's numbers: \<open>1\<close> opens the first plan, not the first one shown.
\<close>

lemma stale_plan_page:
  assumes "selectedService (cw_console w) = Some v" and "plans_of (cw_console w) (sv_id v) \<noteq> []"
  shows "on_service_detail ce sec ''2'' w = seq [setc (\<lambda>s. s\<lparr>ta_screen := Plan_Select, ta_page := 0\<rparr>),
      bot (planListText ce (cw_console w) (sv_id v) (ta_page (cw_console w)) False)] w"
    and "ta_screen (cw_console w) = Plan_Select \<Longrightarrow> ta_page (cw_console (goBack ce sec w)) = ta_page (cw_console w)"
  using assms by (simp_all add: on_service_detail_def goBack_def service_detail_step_def clear_question_def Let_def)

text \<open>
  A heartbeat replaces the data source, and the console loads again: the log starts anew with the menu, but the screen stays, so the next
  message is taken for an answer to a question that is no longer there.
\<close>

lemma reload_keeps_screen:
  "ta_screen (cw_console (ta_load ce ClientsSection w)) = ta_screen (cw_console w)"
  by (simp add: ta_load_def ta_loadWorkspace_def ask_defs abind_def ask_def adone_def Let_def split: prod.split sum.split)

lemma menu_number_becomes_name:
  assumes "ta_screen (cw_console w) = Client_Create_Name" and "\<not> cw_busy w"
    and "client_list (ce_demo ce) (ce_clock ce (length (cw_ops w))) (cw_repo w) = (Inr cs, r)"
  shows "cw_messages (ta_load ce ClientsSection w) = [\<lparr>msg_id = 1, msg_role = Bot, msg_text = ta_title ce ClientsSection\<rparr>]"
    and "dr_fullName (ta_draft (cw_console (ta_submit ce ClientsSection ''2'' (ta_load ce ClientsSection w)))) = ''2''"
proof -
  have "trim ''2'' = ''2''" by code_simp
  with assms show "cw_messages (ta_load ce ClientsSection w) = [\<lparr>msg_id = 1, msg_role = Bot, msg_text = ta_title ce ClientsSection\<rparr>]"
    "dr_fullName (ta_draft (cw_console (ta_submit ce ClientsSection ''2'' (ta_load ce ClientsSection w)))) = ''2''"
    by (simp_all add: ta_load_def ta_loadWorkspace_def ask_defs abind_def ask_def adone_def setc_def Let_def
      ta_submit_def handleClientMessage_def on_create_name_def show_screen_def set_draft_def)
qed

text \<open>A number beyond the page chooses an entry that is not shown.\<close>

lemma chosen_beyond_page: "4 < length xs \<Longrightarrow> chosen 0 xs ''5'' = Some (xs ! 4) \<and> length (page_slice 0 xs) = 4"
proof -
  have "parseInt ''5'' = Some 5" by code_simp
  then show "4 < length xs \<Longrightarrow> ?thesis" by (simp add: chosen_def page_slice_def CONSOLE_PAGE_SIZE_def length_slice)
qed

text \<open>The dash that should clear a phone number leaves it: an update without the property keeps what there was.\<close>

lemma dash_keeps_phone:
  "update_check now cid (client_edit_payload Field_Phone EM_DASH) p = Inr c \<Longrightarrow>
     \<exists>existing. find_by cl_id cid (clients p) = Some existing \<and> cl_phone c = cl_phone existing"
  by (auto simp: update_check_def client_edit_payload_def ebind_eq_Inr)

section \<open>Properties\<close>

text \<open>
  C17. Back always leads out of the console of clients and catalog: from any screen, with any entries selected, typing \<open>9\<close> at
  most as many times as the page number and six more leaves the console, and on the way asks nothing and changes nothing.
\<close>

theorem back_leads_out:
  assumes "ready_for_input w"
  shows "\<exists>n \<le> ta_page (cw_console w) + 6. let v = (ta_submit ce sec ''9'' ^^ n) w in
    cw_calls v = cw_calls w @ [OnBack] \<and> cw_repo v = cw_repo w \<and> cw_ops v = cw_ops w"
proof -
  obtain n where n: "n \<le> ta_depth (cw_console w) + 1" "cw_calls ((ta_submit ce sec ''9'' ^^ n) w) = cw_calls w @ [OnBack]"
    "cw_repo ((ta_submit ce sec ''9'' ^^ n) w) = cw_repo w" "cw_ops ((ta_submit ce sec ''9'' ^^ n) w) = cw_ops w"
    using backs_out [OF assms] by blast
  have "n \<le> ta_page (cw_console w) + 6" using n(1) ta_depth_bound [of "cw_console w"] by linarith
  with n show ?thesis by (auto simp: Let_def)
qed

theorem back_leads_out_witness:
  "\<exists>n \<le> 8. cw_calls ((ta_submit sample_env ClientsSection ''9'' ^^ n)
     ((ta_world_of sample_repo)\<lparr>cw_loading := False, cw_console := initial_ta\<lparr>ta_screen := Client_Select, ta_page := 2\<rparr>\<rparr>)) = [OnBack]"
proof -
  let ?w = "(ta_world_of sample_repo)\<lparr>cw_loading := False, cw_console := initial_ta\<lparr>ta_screen := Client_Select, ta_page := 2\<rparr>\<rparr>"
  have "ready_for_input ?w" by (simp add: ready_for_input_def ta_world_of_def)
  from back_leads_out [OF this, of sample_env ClientsSection] show ?thesis
    by (auto simp: Let_def ta_world_of_def initial_ta_def)
qed

text \<open>A conversation of four messages that deactivates a client.\<close>

lemma asked_first:
  assumes "cw_ops v = old @ [call]" and "act_keeps (on_data (asked (old @ [call]) (\<lambda>_. True))) m"
  shows "call \<in> set (drop (length old) (cw_ops (snd (m v))))"
proof -
  have "on_data (asked (old @ [call]) (\<lambda>_. True)) (snd (m v))"
    using assms unfolding act_keeps_def by (simp add: on_data_def)
  then show ?thesis by (auto simp: on_data_def asked_def)
qed

lemma mutation_asks_first:
  assumes "\<And>err v. cw_ops (h err v) = cw_ops v"
  shows "call \<in> set (drop (length (cw_ops w)) (cw_ops (with_busy (mutate ce sec (ask ce call run) success) h w)))"
proof -
  have ops: "cw_ops (attempt m h v) = cw_ops (snd (m v))" for v and m :: "(ta_state, unit) console_act"
    using assms by (simp add: attempt_def split: prod.split sum.split)
  obtain x t where run: "run (ce_clock ce (length (cw_ops w))) (cw_repo w) = (x, t)" by fastforce
  let ?v = "(setBusy True w)\<lparr>cw_repo := t, cw_ops := cw_ops w @ [call]\<rparr>"
  have first: "call \<in> set (drop (length (cw_ops w)) (cw_ops (snd (completeMutation ce sec y ?v))))" for y
    by (rule asked_first) (simp_all add: asked.ta_complete_keeps)
  show ?thesis using run first
    by (cases x) (simp_all add: with_busy_def ops mutate_def abind_def ask_def)
qed

lemma confirm_run:
  assumes list: "client_list (ce_demo ce) (ce_clock ce 0) r = (Inr (c # cs), t)" and c: "cl_is_active c" "cl_id c \<noteq> []"
  shows "\<exists>w. (ta_step ce ClientsSection)\<^sup>*\<^sup>* (ta_world_of r) w \<and>
    DeactivateClient (cl_id c) \<in> set (drop (length (cw_ops w)) (cw_ops (ta_submit ce ClientsSection ''confirm'' w)))"
proof -
  let ?w1 = "ta_load ce ClientsSection (ta_world_of r)"
  let ?w2 = "ta_submit ce ClientsSection ''1'' ?w1" let ?w3 = "ta_submit ce ClientsSection ''1'' ?w2"
  let ?w4 = "ta_submit ce ClientsSection ''2'' ?w3"
  have texts: "trim ''1'' = ''1''" "trim ''2'' = ''2''" "trim ''confirm'' = ''confirm''" "parseInt ''1'' = Some 1" "confirms ''confirm''"
    by code_simp+
  have w1: "cw_console ?w1 = initial_ta\<lparr>ta_clients := c # cs\<rparr>" "ready_for_input ?w1"
    using list by (simp_all add: ta_load_def ta_loadWorkspace_def ask_defs abind_def ask_def adone_def setc_def Let_def ta_world_of_def ready_for_input_def)
  then have w2: "cw_console ?w2 = initial_ta\<lparr>ta_clients := c # cs, ta_screen := Client_Select\<rparr>" "ready_for_input ?w2"
    by (simp_all add: ta_submit_def texts ready_for_input_def handleClientMessage_def on_client_menu_def initial_ta_def Let_def)
  then have w3: "cw_console ?w3 = initial_ta\<lparr>ta_clients := c # cs, ta_screen := Client_Detail, ta_clientId := Some (cl_id c)\<rparr>" "ready_for_input ?w3"
    by (simp_all add: ta_submit_def texts ready_for_input_def handleClientMessage_def on_client_select_def initial_ta_def Let_def chosen_def
      console_totalPages_def)
  then have w4: "ta_screen (cw_console ?w4) = Client_Confirm" "ta_clientId (cw_console ?w4) = Some (cl_id c)"
    "ta_confirmation (cw_console ?w4) = Some Confirm_Deactivate" "ready_for_input ?w4"
    using c by (simp_all add: ta_submit_def texts ready_for_input_def handleClientMessage_def on_client_detail_def ta_selectedClient_def initial_ta_def Let_def)
  let ?u = "say User ''confirm'' ?w4"
  have "ta_submit ce ClientsSection ''confirm'' ?w4 = with_busy (mutate ce ClientsSection (ask ce (DeactivateClient (cl_id c)) (\<lambda>now. client_deactivate (ce_demo ce) now (cl_id c)))
      (\<lambda>u. sim ce ''client_deactivated'' [(''name'', cl_full_name u)])) (ta_fails ce) ?u"
    using w4 c by (simp add: ta_submit_def texts ready_for_input_def handleClientMessage_def on_client_confirm_def ask_deactivate_def Let_def)
  then have "DeactivateClient (cl_id c) \<in> set (drop (length (cw_ops ?w4)) (cw_ops (ta_submit ce ClientsSection ''confirm'' ?w4)))"
    using mutation_asks_first [of "ta_fails ce" "DeactivateClient (cl_id c)" ?u] by (simp add: ta_fails_def)
  moreover have "(ta_step ce ClientsSection)\<^sup>*\<^sup>* (ta_world_of r) ?w4"
    by (rule ta.run_four) (rule ta_loaded ta_submitted)+
  ultimately show ?thesis by blast
qed

text \<open>The workspace of the baseline, read by the console.\<close>

lemma sample_clients:
  "\<exists>r cs c t. workspace_ok sample_env r \<and> client_list sample_metadata 0 r = (Inr (c # cs), t) \<and> cl_is_active c \<and> cl_id c \<noteq> []"
proof -
  obtain r where r: "workspace_ok sample_env r" "serves sample_env (baseline_lists sample_metadata) r" using sample_serves by blast
  let ?w = "(ta_world_of r)"
  obtain v where "ask_clients sample_env ?w = (Inr (clients (baseline_lists sample_metadata)), v)"
    using ask_lists(1) [of sample_env "baseline_lists sample_metadata" ?w] r(2) by (auto simp: ta_world_of_def)
  then have "\<exists>t. client_list sample_metadata 0 r = (Inr (clients (baseline_lists sample_metadata)), t)"
    by (simp add: ask_clients_def ask_def sample_env_def ta_world_of_def split: prod.splits)
  moreover have "\<exists>c cs. clients (baseline_lists sample_metadata) = c # cs \<and> cl_is_active c \<and> cl_id c \<noteq> []"
    by (simp add: baseline_lists_def baseline_clients_def client_records_def)
  ultimately show ?thesis using r(1) by metis
qed

text \<open>What a destructive operation may be about: the question on the screen, and the preview it was asked from.\<close>

definition questioned :: "ta_state \<Rightarrow> data_op \<Rightarrow> bool" where
  "questioned s call = (case call of
     DeactivateClient k \<Rightarrow> ta_screen s = Client_Confirm \<and> ta_clientId s = Some k
   | DeleteClient k \<Rightarrow> ta_screen s = Client_Confirm \<and> previewed s (Some k)
   | DeleteService k \<Rightarrow> ta_screen s = Service_Delete_Confirm \<and> previewed s (Some k)
   | DeletePlan k q \<Rightarrow> ta_screen s = Plan_Delete_Confirm \<and> previewed s (Some q)
   | _ \<Rightarrow> False)"

lemma answered_questioned:
  assumes "screen_ok s" and "answered s call"
  shows "questioned s call"
proof (cases call)
  case (DeactivateClient k)
  then show ?thesis using assms by (simp add: answered_def questioned_def)
next
  case (DeleteClient k)
  then show ?thesis using assms by (auto simp: answered_def questioned_def screen_ok_def Let_def)
next
  case (DeleteService k)
  then show ?thesis using assms by (auto simp: answered_def questioned_def screen_ok_def previewed_def Let_def)
next
  case (DeletePlan k q)
  then show ?thesis using assms by (auto simp: answered_def questioned_def screen_ok_def previewed_def Let_def)
qed (use assms in \<open>simp_all add: answered_def\<close>)

text \<open>
  C14. Nothing is taken away unasked: whatever conversation came before, a message makes the console deactivate or delete something only if it is
  the word of confirmation, typed at the screen of the question, and what is deleted is what the preview behind the question was about.
\<close>

theorem only_what_was_confirmed:
  assumes "(ta_step ce sec)\<^sup>*\<^sup>* (ta_world_of r) w" and "call \<in> set (drop (length (cw_ops w)) (cw_ops (ta_submit ce sec typed w)))"
    and "destructive call"
  shows "confirms (trim typed) \<and> questioned (cw_console w) call"
proof -
  let ?A = "\<lambda>call. \<not> destructive call \<or> confirms (trim typed) \<and> answered (cw_console w) call"
  have "on_data (asked (cw_ops w) ?A) (ta_submit ce sec typed w)"
    by (rule asked.submit_asks) (simp_all add: on_data_def)
  then have "?A call" using assms(2) unfolding on_data_def by (rule asked_new)
  moreover have "screen_ok (cw_console w)" using ta.inv_run [OF assms(1) ta_start_inv] by (simp add: ta_inv_def)
  ultimately show ?thesis using assms(3) answered_questioned by blast
qed

theorem only_what_was_confirmed_witness:
  "\<exists>r w call. (ta_step sample_env ClientsSection)\<^sup>*\<^sup>* (ta_world_of r) w \<and> destructive call \<and>
     call \<in> set (drop (length (cw_ops w)) (cw_ops (ta_submit sample_env ClientsSection ''confirm'' w))) \<and> questioned (cw_console w) call"
proof -
  obtain r cs c t where "client_list sample_metadata 0 r = (Inr (c # cs), t)" "cl_is_active c" "cl_id c \<noteq> []"
    using sample_clients by blast
  then obtain w where w: "(ta_step sample_env ClientsSection)\<^sup>*\<^sup>* (ta_world_of r) w"
    "DeactivateClient (cl_id c) \<in> set (drop (length (cw_ops w)) (cw_ops (ta_submit sample_env ClientsSection ''confirm'' w)))"
    using confirm_run [of sample_env r c cs t] by (auto simp: sample_env_def)
  moreover have "destructive (DeactivateClient (cl_id c))" by (simp add: destructive_def)
  ultimately show ?thesis using only_what_was_confirmed [OF w] by blast
qed

text \<open>
  A conversation keeps the workspace in order: whatever is typed into the console, with reloads in between, and as long as no
  plan was created, the workspace has the consistency the data services promise; and the log has its messages numbered from one.
\<close>

theorem conversation_keeps_order:
  assumes "(ta_step ce sec)\<^sup>*\<^sup>* (ta_world_of r) w" and "workspace_ok ce r" and "list_all orderly (cw_ops w)"
  shows "workspace_ok ce (cw_repo w) \<and> map msg_id (cw_messages w) = [1..<Suc (length (cw_messages w))]"
proof -
  have "on_data (\<lambda>r ops. list_all orderly ops \<longrightarrow> workspace_ok ce r) (ta_world_of r)"
    using assms(2) by (simp add: on_data_def ta_world_of_def)
  from ta_workspace.inv_run [OF assms(1) this] ta.inv_run [OF assms(1) ta_start_inv] assms(3) show ?thesis
    by (simp add: on_data_def ta_inv_def numbered_def)
qed

theorem conversation_keeps_order_witness:
  "\<exists>r w. (ta_step sample_env ClientsSection)\<^sup>*\<^sup>* (ta_world_of r) w \<and> w = ta_load sample_env ClientsSection (ta_world_of r) \<and>
     workspace_ok sample_env (cw_repo w)"
proof -
  obtain r cs c t where r: "workspace_ok sample_env r" "client_list sample_metadata 0 r = (Inr (c # cs), t)"
    using sample_clients by blast
  let ?w = "ta_load sample_env ClientsSection (ta_world_of r)"
  have run: "(ta_step sample_env ClientsSection)\<^sup>*\<^sup>* (ta_world_of r) ?w" by (rule r_into_rtranclp) (rule ta_loaded)
  have "cw_ops ?w = [ListClients]"
    using r(2) by (simp add: ta_load_def ta_loadWorkspace_def ask_defs abind_def ask_def adone_def Let_def ta_world_of_def sample_env_def)
  then have "list_all orderly (cw_ops ?w)" by (simp add: orderly_def)
  from conversation_keeps_order [OF run r(1) this] run show ?thesis by blast
qed

end
