(* ===== verification/SubscriptionConsole.thy ===== *)
theory SubscriptionConsole
  imports StepRuns ConsoleText
begin

text \<open>
  The console in which the demo's tenant manages subscriptions (\<open>features/demo/components/subscription-console-experience.tsx\<close>):
  listing by status, creating in ten questions, editing field by field, revealing, cancelling, renewing and reactivating. The main results:
  what it asks the data source to create is complete, it cancels only what was confirmed, and it never asks to change a PIN, although its
  menu offers it.
\<close>

section \<open>State\<close>

definition DURATION_TYPES :: "string list" where
  "DURATION_TYPES = [''1_month'', ''3_months'', ''6_months'', ''9_months'', ''1_year'', ''custom'']"

text \<open>\<open>No_Status\<close> stands for what is no filter at all, see \<open>filter_choice\<close>; \<open>SC_Crashed\<close> for a page that threw.\<close>

datatype sc_filter = All_Statuses | Only_Active | Only_Expired | Only_Cancelled | No_Status

datatype sc_screen =
    SC_Menu | SC_Filter | SC_List | SC_Detail
  | Create_Client | Create_Service | Create_Plan | Create_Email | Create_Password | Create_Profile | Create_Pin | Create_Duration
  | Create_Start | Create_Expiry | Create_Confirm
  | Edit_Fields | Edit_Value | Edit_Duration | Edit_Duration_Expiry | Edit_Client | Edit_Service | Edit_Plan | Edit_Service_Plan
  | Cancel_Confirm | Renew_Duration | Renew_Expiry | Reactivate_Duration | Reactivate_Expiry | SC_Crashed

record CreateDraft =
  cd_client_id :: "string option"
  cd_service_id :: "string option"
  cd_plan_id :: "string option"
  cd_streaming_email :: "string option"
  cd_streaming_password :: "string option"
  cd_profile_name :: "string option"
  cd_profile_pin :: "string option"
  cd_duration_type :: "string option"
  cd_starts_at :: "string option"
  cd_expires_at :: "string option"

definition no_draft :: CreateDraft where
  "no_draft = \<lparr> cd_client_id = None, cd_service_id = None, cd_plan_id = None, cd_streaming_email = None, cd_streaming_password = None,
     cd_profile_name = None, cd_profile_pin = None, cd_duration_type = None, cd_starts_at = None, cd_expires_at = None \<rparr>"

definition no_update :: SubscriptionUpdate where
  "no_update = \<lparr> sx_client_id = None, sx_service_id = None, sx_plan_id = None, sx_streaming_email = None, sx_streaming_password = None,
     sx_profile_name = None, sx_profile_pin = None, sx_duration_type = None, sx_starts_at = None, sx_expires_at = None \<rparr>"

record sc_state =
  sc_screen :: sc_screen
  sc_filter :: sc_filter
  sc_page :: nat
  sc_clients :: "Client list"
  sc_services :: "Service list"
  sc_plans :: "Plan list"
  sc_subscriptions :: "Subscription list"
  sc_selectedId :: "string option"
  sc_draft :: CreateDraft
  sc_editPayload :: SubscriptionUpdate
  sc_editField :: "string option"
  sc_lifecycleDuration :: "string option"

type_synonym sc_world = "sc_state console_world"

definition initial_sc :: sc_state where
  "initial_sc = \<lparr> sc_screen = SC_Menu, sc_filter = All_Statuses, sc_page = 0, sc_clients = [], sc_services = [], sc_plans = [],
     sc_subscriptions = [], sc_selectedId = None, sc_draft = no_draft, sc_editPayload = no_update, sc_editField = None,
     sc_lifecycleDuration = None \<rparr>"

definition sc_world_of :: "DemoWorkspaceRepository \<Rightarrow> sc_world" where
  "sc_world_of r = \<lparr> cw_console = initial_sc, cw_messages = [], cw_busy = False, cw_loading = True, cw_loadError = False,
     cw_repo = r, cw_calls = [], cw_ops = [] \<rparr>"

definition sc_errors :: "(string \<times> string) list" where
  "sc_errors = map (\<lambda>(c, k). (c, ''frontend.subscriptions.'' @ k)) [
     (''subscription_validation_failed'', ''error_validation''),
     (''subscription_invalid_relationship'', ''error_relationship''),
     (''subscription_invalid_duration'', ''error_duration''),
     (''subscription_pin_requires_profile'', ''error_pin_requires_profile''),
     (''subscription_invalid_dates'', ''error_dates''),
     (''subscription_duplicate'', ''error_duplicate''),
     (''subscription_not_found'', ''error_not_found''),
     (''invalid_demo_workspace'', ''error_load'')]"

definition sc_errorMessage :: "console_env \<Rightarrow> demo_error \<Rightarrow> string" where
  "sc_errorMessage ce err = message_for ce sc_errors err"

definition sc_selected :: "sc_state \<Rightarrow> Subscription option" where
  "sc_selected s = find (\<lambda>u. Some (sb_id u) = sc_selectedId s) (sc_subscriptions s)"

definition sc_plans_of :: "sc_state \<Rightarrow> string \<Rightarrow> Plan list" where
  "sc_plans_of s sid = filter (\<lambda>p. pl_service_id p = sid) (sc_plans s)"

text \<open>\<open>/^\d{4}-\d{2}-\d{2}$/\<close>.\<close>

definition day_pattern :: "string \<Rightarrow> bool" where
  "day_pattern txt \<longleftrightarrow> length txt = 10 \<and> list_all is_digit (take 4 txt) \<and> txt ! 4 = CHR ''-'' \<and>
     list_all is_digit (take 2 (drop 5 txt)) \<and> txt ! 7 = CHR ''-'' \<and> list_all is_digit (drop 8 txt)"

definition normalizeDate :: "console_env \<Rightarrow> string \<Rightarrow> demo_error + string" where
  "normalizeDate ce value = (let trimmed = trim value in
     if day_pattern trimmed then Inr (trimmed @ ''T00:00:00.000Z'')
     else (case parse_date ce trimmed of
         None \<Rightarrow> Inl (PlainError ''subscription_invalid_dates'')
       | Some time \<Rightarrow> iso_now time))"

section \<open>Texts\<close>

definition sub :: "console_env \<Rightarrow> string \<Rightarrow> string" where
  "sub ce key = tr ce (''frontend.subscriptions.'' @ key) []"

definition sc_menuText :: "console_env \<Rightarrow> string" where
  "sc_menuText ce = join nl ([sim ce ''subscriptions_menu'' [], ''1. '' @ sim ce ''subscriptions_view'' [],
     ''2. '' @ sim ce ''subscriptions_filter'' [], ''3. '' @ sim ce ''subscriptions_create'' []] @ back_cancel ce)"

definition filterText :: "console_env \<Rightarrow> string" where
  "filterText ce = join nl ([sim ce ''subscriptions_filter_prompt'' [], ''1. '' @ sub ce ''all_statuses'', ''2. '' @ sub ce ''status_active'',
     ''3. '' @ sub ce ''status_expired'', ''4. '' @ sub ce ''status_cancelled''] @ back_cancel ce)"

definition filter_status :: "sc_filter \<Rightarrow> string" where
  "filter_status f = (case f of
     All_Statuses \<Rightarrow> ''all'' | Only_Active \<Rightarrow> ''active'' | Only_Expired \<Rightarrow> ''expired'' | Only_Cancelled \<Rightarrow> ''cancelled'' | No_Status \<Rightarrow> [])"

definition filteredSubscriptions :: "sc_state \<Rightarrow> sc_filter \<Rightarrow> Subscription list" where
  "filteredSubscriptions s f = filter (\<lambda>u. f = All_Statuses \<or> f \<noteq> No_Status \<and> sb_status u = filter_status f) (sc_subscriptions s)"

definition statusLabel :: "console_env \<Rightarrow> string \<Rightarrow> string" where
  "statusLabel ce status = (if status = ''active'' then sub ce ''status_active''
     else if status = ''expired'' then sub ce ''status_expired'' else sub ce ''status_cancelled'')"

text \<open>The names of what a subscription refers to, through a \<open>Map\<close> that keeps the last entry of an identifier.\<close>

definition client_name :: "console_env \<Rightarrow> sc_state \<Rightarrow> Subscription \<Rightarrow> string" where
  "client_name ce s u = (case js_map (map (\<lambda>c. (cl_id c, c)) (sc_clients s)) (sb_client_id u) of
     None \<Rightarrow> sim ce ''unknown_client'' [] | Some c \<Rightarrow> cl_full_name c)"

definition service_name :: "console_env \<Rightarrow> sc_state \<Rightarrow> Subscription \<Rightarrow> string" where
  "service_name ce s u = (case js_map (map (\<lambda>v. (sv_id v, v)) (sc_services s)) (sb_service_id u) of
     None \<Rightarrow> sim ce ''unknown_service'' [] | Some v \<Rightarrow> sv_name v)"

definition plan_name :: "console_env \<Rightarrow> sc_state \<Rightarrow> Subscription \<Rightarrow> string" where
  "plan_name ce s u = (case js_map (map (\<lambda>p. (pl_id p, p)) (sc_plans s)) (sb_plan_id u) of
     None \<Rightarrow> sim ce ''unknown_plan'' [] | Some p \<Rightarrow> pl_name p)"

definition sc_listText :: "console_env \<Rightarrow> sc_state \<Rightarrow> nat \<Rightarrow> sc_filter \<Rightarrow> string" where
  "sc_listText ce s nextPage f = (let records = filteredSubscriptions s f; pages = console_totalPages records in join nl (
     [sim ce ''subscriptions_select'' [(''page'', nat_to_string (nextPage + 1)), (''total'', nat_to_string pages)]] @
     map_numbered (\<lambda>n u. sim ce ''subscription_item'' [(''number'', nat_to_string n), (''client'', client_name ce s u),
       (''service'', service_name ce s u), (''email'', sb_streaming_email u), (''status'', statusLabel ce (sb_status u)),
       (''expires'', formatDate ce (sb_expires_at u))]) (page_slice nextPage records) @
     next_line ce (nextPage < pages - 1) @ back_cancel ce))"

definition sc_detailText :: "console_env \<Rightarrow> sc_state \<Rightarrow> Subscription \<Rightarrow> string" where
  "sc_detailText ce s u = join nl ([
     sim ce ''subscription_detail'' [(''client'', client_name ce s u), (''service'', service_name ce s u), (''plan'', plan_name ce s u),
       (''email'', sb_streaming_email u), (''status'', statusLabel ce (sb_status u)), (''starts'', formatDate ce (sb_starts_at u)),
       (''expires'', formatDate ce (sb_expires_at u))],
     [],
     ''1. '' @ sim ce ''subscription_edit_action'' [],
     ''2. '' @ sim ce ''subscription_reveal_action'' [],
     ''3. '' @ (if sb_status u = ''active'' then sim ce ''subscription_cancel_action'' [] else sim ce ''subscription_reactivate_action'' []),
     ''4. '' @ sim ce ''subscription_renew_action'' []] @ back_cancel ce)"

definition numbered_choices :: "console_env \<Rightarrow> string \<Rightarrow> string list \<Rightarrow> string" where
  "numbered_choices ce title names = join nl ([title] @ map_numbered (\<lambda>n x. nat_to_string n @ ''. '' @ x) names @ back_cancel ce)"

definition clientChoices :: "console_env \<Rightarrow> sc_state \<Rightarrow> string" where
  "clientChoices ce s = numbered_choices ce (sim ce ''subscription_choose_client'' []) (map cl_full_name (sc_clients s))"

definition serviceChoices :: "console_env \<Rightarrow> sc_state \<Rightarrow> string" where
  "serviceChoices ce s = numbered_choices ce (sim ce ''subscription_choose_service'' []) (map sv_name (sc_services s))"

definition planChoices :: "console_env \<Rightarrow> sc_state \<Rightarrow> string \<Rightarrow> string" where
  "planChoices ce s sid = numbered_choices ce (sim ce ''subscription_choose_plan'' []) (map pl_name (sc_plans_of s sid))"

definition durationChoices :: "console_env \<Rightarrow> string" where
  "durationChoices ce = numbered_choices ce (sim ce ''subscription_choose_duration'' []) (map (\<lambda>d. sub ce (''duration_'' @ d)) DURATION_TYPES)"

definition editFieldsText :: "console_env \<Rightarrow> string" where
  "editFieldsText ce = join nl [sim ce ''subscription_edit_fields'' [], ''1. '' @ sub ce ''email'', ''2. '' @ sub ce ''client'',
     ''3. '' @ sub ce ''service'', ''4. '' @ sub ce ''plan'', ''5. '' @ sub ce ''duration'', ''6. '' @ sub ce ''start_date'',
     ''7. '' @ sub ce ''end_date'', ''8. '' @ sub ce ''profile_name'', ''9. '' @ sub ce ''pin'', ''0. '' @ sim ce ''cancel'' []]"

section \<open>Loading\<close>

definition sc_loadWorkspace :: "console_env \<Rightarrow> (sc_state, unit) console_act" where
  "sc_loadWorkspace ce w0 =
    (case ask_clients ce w0 of (rc, w1) \<Rightarrow> (case ask_services ce w1 of (rv, w2) \<Rightarrow> (case ask_subscriptions ce w2 of (ru, w3) \<Rightarrow>
       abind (alift (ebind rc (\<lambda>cs. ebind rv (\<lambda>vs. ebind ru (\<lambda>us. Inr (cs, vs, us)))))) (\<lambda>(cs, vs, us).
       abind (all_of (\<lambda>v. ask_plans ce (sv_id v)) vs) (\<lambda>pss.
       adone (setc (\<lambda>s. s\<lparr>sc_clients := cs, sc_services := vs, sc_plans := concat pss, sc_subscriptions := us\<rparr>)))) w3)))"

definition sc_load :: "console_env \<Rightarrow> sc_world \<Rightarrow> sc_world" where
  "sc_load ce w0 = (let w = w0\<lparr>cw_loading := True, cw_loadError := False\<rparr> in
     (case sc_loadWorkspace ce w of
        (Inr _, w') \<Rightarrow> w'\<lparr>cw_messages := [\<lparr>msg_id = 1, msg_role = Bot, msg_text = sc_menuText ce\<rparr>], cw_loading := False\<rparr>
      | (Inl _, w') \<Rightarrow> w'\<lparr>cw_loadError := True, cw_loading := False\<rparr>))"

definition sc_refresh :: "console_env \<Rightarrow> (sc_state, unit) console_act" where
  "sc_refresh ce = athen (sc_loadWorkspace ce) (adone (tell [OnChanged]))"

section \<open>Navigation\<close>

definition promptFor :: "sc_screen \<Rightarrow> string \<Rightarrow> sc_world \<Rightarrow> sc_world" where
  "promptFor x txt w = seq [setc (\<lambda>s. s\<lparr>sc_screen := x\<rparr>), bot txt] w"

definition clearSelection :: "sc_state \<Rightarrow> sc_state" where
  "clearSelection s = s\<lparr>sc_selectedId := None, sc_page := 0, sc_editPayload := no_update, sc_editField := None\<rparr>"

definition sc_goMenu :: "console_env \<Rightarrow> sc_world \<Rightarrow> sc_world" where
  "sc_goMenu ce w = seq [setc clearSelection, promptFor SC_Menu (sc_menuText ce)] w"

definition sc_goList :: "console_env \<Rightarrow> sc_world \<Rightarrow> sc_world" where
  "sc_goList ce w = (let s = cw_console w in
     seq [setc (\<lambda>s. s\<lparr>sc_screen := SC_List, sc_page := 0\<rparr>), bot (sc_listText ce s 0 (sc_filter s))] w)"

definition sc_invalid :: "console_env \<Rightarrow> sc_world \<Rightarrow> sc_world" where
  "sc_invalid ce w = bot (sim ce ''invalid_navigation'' []) w"

definition sc_fails :: "console_env \<Rightarrow> demo_error \<Rightarrow> sc_world \<Rightarrow> sc_world" where
  "sc_fails ce err w = bot (sc_errorMessage ce err) w"

section \<open>Requests\<close>

text \<open>\<open>createDraft as SubscriptionCreate\<close>, once the required fields are there.\<close>

definition complete_draft :: "CreateDraft \<Rightarrow> bool" where
  "complete_draft d \<longleftrightarrow> \<not> falsy (cd_client_id d) \<and> \<not> falsy (cd_service_id d) \<and> \<not> falsy (cd_plan_id d) \<and> \<not> falsy (cd_streaming_email d) \<and>
     \<not> falsy (cd_duration_type d) \<and> \<not> falsy (cd_starts_at d)"

definition draft_subscription :: "CreateDraft \<Rightarrow> SubscriptionCreate" where
  "draft_subscription d = \<lparr> sc_client_id = the (cd_client_id d), sc_service_id = the (cd_service_id d), sc_plan_id = the (cd_plan_id d),
     sc_streaming_email = the (cd_streaming_email d), sc_streaming_password = cd_streaming_password d, sc_profile_name = cd_profile_name d,
     sc_profile_pin = cd_profile_pin d, sc_duration_type = the (cd_duration_type d), sc_starts_at = the (cd_starts_at d),
     sc_expires_at = cd_expires_at d \<rparr>"

definition saveCreate :: "console_env \<Rightarrow> sc_world \<Rightarrow> sc_world" where
  "saveCreate ce w = (let d = sc_draft (cw_console w) in
     if \<not> complete_draft d then bot (sub ce ''error_validation'') w
     else with_busy (abind (ask_createSubscription ce (draft_subscription d)) (\<lambda>created.
         athen (adone (setc (\<lambda>s. s\<lparr>sc_draft := no_draft\<rparr>))) (athen (sc_refresh ce) (adone (promptFor SC_Menu
           (sim ce ''subscription_created'' [(''email'', sb_streaming_email created)] @ nl @ nl @ sc_menuText ce))))))
       (\<lambda>err. bot (sc_errorMessage ce err @ nl @ nl @ sim ce ''subscription_create_retry'' [])) w)"

definition saveEdit :: "console_env \<Rightarrow> SubscriptionUpdate \<Rightarrow> sc_world \<Rightarrow> sc_world" where
  "saveEdit ce payload w = (let s = cw_console w in
     if falsy (sc_selectedId s) then sc_goMenu ce w
     else with_busy (abind (ask_updateSubscription ce (the (sc_selectedId s)) payload) (\<lambda>updated.
         athen (sc_refresh ce) (adone (seq [setc (\<lambda>s. s\<lparr>sc_screen := SC_Detail, sc_editPayload := no_update\<rparr>),
           bot (sim ce ''subscription_updated'' [(''email'', sb_streaming_email updated)]), bot (sc_detailText ce s updated)]))))
       (\<lambda>err. bot (sc_errorMessage ce err @ nl @ nl @ sim ce ''subscription_edit_retry'' [])) w)"

datatype sc_action = Do_Cancel | Do_Renew | Do_Reactivate

definition successByAction :: "sc_action \<Rightarrow> string" where
  "successByAction a = (case a of Do_Cancel \<Rightarrow> ''cancelled'' | Do_Renew \<Rightarrow> ''renewed'' | Do_Reactivate \<Rightarrow> ''reactivated'')"

definition lifecycle_request :: "console_env \<Rightarrow> sc_action \<Rightarrow> string \<Rightarrow> string option \<Rightarrow> string option \<Rightarrow> (sc_state, Subscription) console_act" where
  "lifecycle_request ce a k duration expiresAt = (case a of
     Do_Cancel \<Rightarrow> ask_cancel ce k
   | Do_Renew \<Rightarrow> ask_renew ce k (nullish duration ''1_month'') expiresAt
   | Do_Reactivate \<Rightarrow> ask_reactivate ce k (Some (nullish duration ''1_month'')) None expiresAt)"

definition lifecycle :: "console_env \<Rightarrow> sc_action \<Rightarrow> string option \<Rightarrow> string option \<Rightarrow> sc_world \<Rightarrow> sc_world" where
  "lifecycle ce a duration expiresAt w = (let s = cw_console w in
     if falsy (sc_selectedId s) then sc_goMenu ce w
     else with_busy (abind (lifecycle_request ce a (the (sc_selectedId s)) duration expiresAt) (\<lambda>updated.
         athen (sc_refresh ce) (adone (seq [setc (\<lambda>s. s\<lparr>sc_screen := SC_Detail\<rparr>),
           bot (sim ce (''subscription_'' @ successByAction a) [(''email'', sb_streaming_email updated)]), bot (sc_detailText ce s updated)]))))
       (sc_fails ce) w)"

definition reveal :: "console_env \<Rightarrow> sc_world \<Rightarrow> sc_world" where
  "reveal ce w = (let s = cw_console w in
     if falsy (sc_selectedId s) then sc_goMenu ce w
     else with_busy (abind (ask_reveal ce (the (sc_selectedId s))) (\<lambda>cr. adone (bot (sim ce ''subscription_revealed''
         [(''password'', nullish (rc_streaming_password cr) (sub ce ''no_password'')),
          (''pin'', nullish (rc_profile_pin cr) (sim ce ''subscription_no_pin'' []))]))))
       (sc_fails ce) w)"

section \<open>Creating\<close>

definition set_sc_draft :: "(CreateDraft \<Rightarrow> CreateDraft) \<Rightarrow> sc_state \<Rightarrow> sc_state" where
  "set_sc_draft f s = s\<lparr>sc_draft := f (sc_draft s)\<rparr>"

definition skipped :: "string \<Rightarrow> string option" where
  "skipped txt = (if skips txt then None else Some txt)"

definition duration_choice :: "string \<Rightarrow> string option" where
  "duration_choice txt = selectedFrom DURATION_TYPES txt"

definition on_create_client :: "console_env \<Rightarrow> string \<Rightarrow> sc_world \<Rightarrow> sc_world" where
  "on_create_client ce txt w = (let s = cw_console w in
     case selectedFrom (sc_clients s) txt of None \<Rightarrow> sc_invalid ce w
     | Some c \<Rightarrow> seq [setc (set_sc_draft (\<lambda>d. d\<lparr>cd_client_id := Some (cl_id c)\<rparr>)), promptFor Create_Service (serviceChoices ce s)] w)"

definition on_create_service :: "console_env \<Rightarrow> string \<Rightarrow> sc_world \<Rightarrow> sc_world" where
  "on_create_service ce txt w = (let s = cw_console w in
     case selectedFrom (sc_services s) txt of None \<Rightarrow> sc_invalid ce w
     | Some v \<Rightarrow> seq [setc (set_sc_draft (\<lambda>d. d\<lparr>cd_service_id := Some (sv_id v)\<rparr>)), promptFor Create_Plan (planChoices ce s (sv_id v))] w)"

definition on_create_plan :: "console_env \<Rightarrow> string \<Rightarrow> sc_world \<Rightarrow> sc_world" where
  "on_create_plan ce txt w = (let s = cw_console w; sid = cd_service_id (sc_draft s) in
     case (if falsy sid then None else selectedFrom (sc_plans_of s (the sid)) txt) of None \<Rightarrow> sc_invalid ce w
     | Some p \<Rightarrow> seq [setc (set_sc_draft (\<lambda>d. d\<lparr>cd_plan_id := Some (pl_id p)\<rparr>)),
         promptFor Create_Email (sim ce ''subscription_email_prompt'' [])] w)"

definition on_create_email :: "console_env \<Rightarrow> string \<Rightarrow> sc_world \<Rightarrow> sc_world" where
  "on_create_email ce txt w = (if trim txt = [] then bot (sub ce ''error_validation'') w
     else seq [setc (set_sc_draft (\<lambda>d. d\<lparr>cd_streaming_email := Some (trim txt)\<rparr>)),
       promptFor Create_Password (sim ce ''subscription_password_prompt'' [])] w)"

definition on_create_secret :: "console_env \<Rightarrow> string \<Rightarrow> sc_world \<Rightarrow> sc_world" where
  "on_create_secret ce txt w = seq [setc (set_sc_draft (\<lambda>d. d\<lparr>cd_streaming_password := skipped txt\<rparr>)),
     promptFor Create_Profile (sim ce ''subscription_profile_prompt'' [])] w"

definition on_create_profile :: "console_env \<Rightarrow> string \<Rightarrow> sc_world \<Rightarrow> sc_world" where
  "on_create_profile ce txt w = seq [setc (set_sc_draft (\<lambda>d. d\<lparr>cd_profile_name := skipped txt\<rparr>)),
     promptFor Create_Pin (sim ce ''subscription_pin_prompt'' [])] w"

definition on_create_pin :: "console_env \<Rightarrow> string \<Rightarrow> sc_world \<Rightarrow> sc_world" where
  "on_create_pin ce txt w = seq [setc (set_sc_draft (\<lambda>d. d\<lparr>cd_profile_pin := skipped txt\<rparr>)), promptFor Create_Duration (durationChoices ce)] w"

definition on_create_duration :: "console_env \<Rightarrow> string \<Rightarrow> sc_world \<Rightarrow> sc_world" where
  "on_create_duration ce txt w = (case duration_choice txt of None \<Rightarrow> sc_invalid ce w
     | Some d \<Rightarrow> seq [setc (set_sc_draft (\<lambda>dr. dr\<lparr>cd_duration_type := Some d\<rparr>)),
         promptFor Create_Start (sim ce ''subscription_start_prompt'' [])] w)"

definition on_create_start :: "console_env \<Rightarrow> string \<Rightarrow> sc_world \<Rightarrow> sc_world" where
  "on_create_start ce txt w = (case normalizeDate ce txt of Inl err \<Rightarrow> sc_fails ce err w
     | Inr startsAt \<Rightarrow> seq [setc (set_sc_draft (\<lambda>d. d\<lparr>cd_starts_at := Some startsAt\<rparr>)),
         (if cd_duration_type (sc_draft (cw_console w)) = Some ''custom'' then promptFor Create_Expiry (sim ce ''subscription_expiry_prompt'' [])
          else promptFor Create_Confirm (sim ce ''subscription_create_confirm'' []))] w)"

definition on_create_expiry :: "console_env \<Rightarrow> string \<Rightarrow> sc_world \<Rightarrow> sc_world" where
  "on_create_expiry ce txt w = (case normalizeDate ce txt of Inl err \<Rightarrow> sc_fails ce err w
     | Inr expiresAt \<Rightarrow> seq [setc (set_sc_draft (\<lambda>d. d\<lparr>cd_expires_at := Some expiresAt\<rparr>)),
         promptFor Create_Confirm (sim ce ''subscription_create_confirm'' [])] w)"

definition on_creation_confirm :: "console_env \<Rightarrow> string \<Rightarrow> sc_world \<Rightarrow> sc_world" where
  "on_creation_confirm ce txt w = (if \<not> confirms txt then bot (sim ce ''confirm_reprompt'' []) w else saveCreate ce w)"

definition handleCreate :: "console_env \<Rightarrow> string \<Rightarrow> sc_world \<Rightarrow> sc_world" where
  "handleCreate ce txt w = (case sc_screen (cw_console w) of
     Create_Client \<Rightarrow> on_create_client ce txt w
   | Create_Service \<Rightarrow> on_create_service ce txt w
   | Create_Plan \<Rightarrow> on_create_plan ce txt w
   | Create_Email \<Rightarrow> on_create_email ce txt w
   | Create_Password \<Rightarrow> on_create_secret ce txt w
   | Create_Profile \<Rightarrow> on_create_profile ce txt w
   | Create_Pin \<Rightarrow> on_create_pin ce txt w
   | Create_Duration \<Rightarrow> on_create_duration ce txt w
   | Create_Start \<Rightarrow> on_create_start ce txt w
   | Create_Expiry \<Rightarrow> on_create_expiry ce txt w
   | Create_Confirm \<Rightarrow> on_creation_confirm ce txt w
   | _ \<Rightarrow> w)"

section \<open>Editing\<close>

text \<open>The table of prompts: the field and the text that asks for it.\<close>

definition sc_prompts :: "console_env \<Rightarrow> (string \<times> string \<times> string) list" where
  "sc_prompts ce = [(''1'', ''streaming_email'', sim ce ''subscription_email_prompt'' []), (''5'', ''duration_type'', durationChoices ce),
     (''6'', ''starts_at'', sim ce ''subscription_start_prompt'' []), (''7'', ''expires_at'', sim ce ''subscription_expiry_prompt'' []),
     (''8'', ''profile_name'', sim ce ''subscription_profile_prompt'' []), (''9'', ''profile_pin'', sim ce ''subscription_pin_prompt'' [])]"

definition on_edit_fields :: "console_env \<Rightarrow> Subscription \<Rightarrow> string \<Rightarrow> sc_world \<Rightarrow> sc_world" where
  "on_edit_fields ce u txt w = (let s = cw_console w in
     if txt = ''2'' then promptFor Edit_Client (clientChoices ce s) w
     else if txt = ''3'' then promptFor Edit_Service (serviceChoices ce s) w
     else if txt = ''4'' then promptFor Edit_Plan (planChoices ce s (sb_service_id u)) w
     else if txt = ''5'' then promptFor Edit_Duration (durationChoices ce) w
     else (case map_of (sc_prompts ce) txt of
         Some (field, prompt) \<Rightarrow> seq [setc (\<lambda>s. s\<lparr>sc_editField := Some field, sc_screen := Edit_Value\<rparr>), bot prompt] w
       | None \<Rightarrow> if inherited txt then seq [setc (\<lambda>s. s\<lparr>sc_editField := None, sc_screen := Edit_Value\<rparr>), bot []] w
           else sc_invalid ce w))"

definition on_edit_client :: "console_env \<Rightarrow> string \<Rightarrow> sc_world \<Rightarrow> sc_world" where
  "on_edit_client ce txt w = (case selectedFrom (sc_clients (cw_console w)) txt of None \<Rightarrow> sc_invalid ce w
     | Some c \<Rightarrow> saveEdit ce (no_update\<lparr>sx_client_id := Some (cl_id c)\<rparr>) w)"

definition on_edit_service :: "console_env \<Rightarrow> string \<Rightarrow> sc_world \<Rightarrow> sc_world" where
  "on_edit_service ce txt w = (let s = cw_console w in
     case selectedFrom (sc_services s) txt of None \<Rightarrow> sc_invalid ce w
     | Some v \<Rightarrow> seq [setc (\<lambda>s. s\<lparr>sc_editPayload := no_update\<lparr>sx_service_id := Some (sv_id v)\<rparr>, sc_screen := Edit_Service_Plan\<rparr>),
         bot (planChoices ce s (sv_id v))] w)"

definition on_edit_service_plan :: "console_env \<Rightarrow> string \<Rightarrow> sc_world \<Rightarrow> sc_world" where
  "on_edit_service_plan ce txt w = (let s = cw_console w; sid = sx_service_id (sc_editPayload s) in
     case (if falsy sid then None else selectedFrom (sc_plans_of s (the sid)) txt) of None \<Rightarrow> sc_invalid ce w
     | Some p \<Rightarrow> saveEdit ce (no_update\<lparr>sx_service_id := sid, sx_plan_id := Some (pl_id p)\<rparr>) w)"

definition on_edit_plan :: "console_env \<Rightarrow> Subscription \<Rightarrow> string \<Rightarrow> sc_world \<Rightarrow> sc_world" where
  "on_edit_plan ce u txt w = (case selectedFrom (sc_plans_of (cw_console w) (sb_service_id u)) txt of None \<Rightarrow> sc_invalid ce w
     | Some p \<Rightarrow> saveEdit ce (no_update\<lparr>sx_plan_id := Some (pl_id p)\<rparr>) w)"

definition on_edit_duration :: "console_env \<Rightarrow> string \<Rightarrow> sc_world \<Rightarrow> sc_world" where
  "on_edit_duration ce txt w = (case duration_choice txt of None \<Rightarrow> sc_invalid ce w
     | Some d \<Rightarrow> if d = ''custom'' then promptFor Edit_Duration_Expiry (sim ce ''subscription_expiry_prompt'' []) w
         else saveEdit ce (no_update\<lparr>sx_duration_type := Some d\<rparr>) w)"

definition on_edit_duration_expiry :: "console_env \<Rightarrow> string \<Rightarrow> sc_world \<Rightarrow> sc_world" where
  "on_edit_duration_expiry ce txt w = (case normalizeDate ce txt of Inl err \<Rightarrow> sc_fails ce err w
     | Inr expiresAt \<Rightarrow> saveEdit ce (no_update\<lparr>sx_duration_type := Some ''custom'', sx_expires_at := Some expiresAt\<rparr>) w)"

text \<open>\<open>{ [editField]: value }\<close>, for the fields the prompts have.\<close>

definition field_update :: "string \<Rightarrow> string \<Rightarrow> SubscriptionUpdate" where
  "field_update field v = (
     if field = ''streaming_email'' then no_update\<lparr>sx_streaming_email := Some v\<rparr>
     else if field = ''duration_type'' then no_update\<lparr>sx_duration_type := Some v\<rparr>
     else if field = ''starts_at'' then no_update\<lparr>sx_starts_at := Some v\<rparr>
     else if field = ''expires_at'' then no_update\<lparr>sx_expires_at := Some v\<rparr>
     else if field = ''profile_name'' then no_update\<lparr>sx_profile_name := Some v\<rparr>
     else if field = ''profile_pin'' then no_update\<lparr>sx_profile_pin := Some v\<rparr>
     else no_update)"

definition ends_with :: "string \<Rightarrow> string \<Rightarrow> bool" where
  "ends_with txt tail \<longleftrightarrow> length tail \<le> length txt \<and> drop (length txt - length tail) txt = tail"

definition field_value :: "console_env \<Rightarrow> string \<Rightarrow> string \<Rightarrow> demo_error + string" where
  "field_value ce field txt = (if ends_with field ''_at'' then normalizeDate ce txt else Inr (if skips txt then [] else txt))"

definition on_edit_value :: "console_env \<Rightarrow> string \<Rightarrow> sc_world \<Rightarrow> sc_world" where
  "on_edit_value ce txt w = (case sc_editField (cw_console w) of
     None \<Rightarrow> sc_goMenu ce w
   | Some field \<Rightarrow> if field = [] then sc_goMenu ce w
       else (case field_value ce field txt of Inl err \<Rightarrow> sc_fails ce err w | Inr v \<Rightarrow> saveEdit ce (field_update field v) w))"

definition handleEdit :: "console_env \<Rightarrow> string \<Rightarrow> sc_world \<Rightarrow> sc_world" where
  "handleEdit ce txt w = (case sc_selected (cw_console w) of None \<Rightarrow> sc_goMenu ce w
   | Some u \<Rightarrow> (case sc_screen (cw_console w) of
       Edit_Fields \<Rightarrow> on_edit_fields ce u txt w
     | Edit_Client \<Rightarrow> on_edit_client ce txt w
     | Edit_Service \<Rightarrow> on_edit_service ce txt w
     | Edit_Service_Plan \<Rightarrow> on_edit_service_plan ce txt w
     | Edit_Plan \<Rightarrow> on_edit_plan ce u txt w
     | Edit_Duration \<Rightarrow> on_edit_duration ce txt w
     | Edit_Duration_Expiry \<Rightarrow> on_edit_duration_expiry ce txt w
     | Edit_Value \<Rightarrow> on_edit_value ce txt w
     | _ \<Rightarrow> w))"

section \<open>Messages\<close>

definition on_sc_menu :: "console_env \<Rightarrow> string \<Rightarrow> sc_world \<Rightarrow> sc_world" where
  "on_sc_menu ce txt w = (
     if txt = ''1'' then sc_goList ce w
     else if txt = ''2'' then promptFor SC_Filter (filterText ce) w
     else if txt = ''3'' then seq [setc (set_sc_draft (\<lambda>d. no_draft)), promptFor Create_Client (clientChoices ce (cw_console w))] w
     else sc_invalid ce w)"

text \<open>
  The table of filters. An inherited function becomes the updater of \<open>setFilter\<close>, called without \<open>this\<close>: \<open>constructor\<close>, \<open>toString\<close> and
  \<open>isPrototypeOf\<close> return a value that is no status, and \<open>__proto__\<close> is such a value itself; the others throw while the component renders,
  and the page is gone.
\<close>

definition filter_choice :: "string \<Rightarrow> sc_filter option" where
  "filter_choice txt = (case map_of [(''1'', All_Statuses), (''2'', Only_Active), (''3'', Only_Expired), (''4'', Only_Cancelled)] txt of
     Some f \<Rightarrow> Some f | None \<Rightarrow> if inherited txt then Some No_Status else None)"

definition throws_as_updater :: "string \<Rightarrow> bool" where
  "throws_as_updater txt \<longleftrightarrow> inherited txt \<and> txt \<notin> {''constructor'', ''toString'', ''isPrototypeOf'', ''__proto__''}"

definition on_filter :: "console_env \<Rightarrow> string \<Rightarrow> sc_world \<Rightarrow> sc_world" where
  "on_filter ce txt w = (let s = cw_console w in
     case filter_choice txt of None \<Rightarrow> sc_invalid ce w
     | Some f \<Rightarrow> seq [setc (\<lambda>s. s\<lparr>sc_filter := f, sc_page := 0, sc_screen := (if throws_as_updater txt then SC_Crashed else SC_List)\<rparr>),
         bot (sc_listText ce s 0 f)] w)"

definition on_sc_list :: "console_env \<Rightarrow> string \<Rightarrow> sc_world \<Rightarrow> sc_world" where
  "on_sc_list ce txt w = (let s = cw_console w; records = filteredSubscriptions s (sc_filter s) in
     if txt = ''8'' then
       (if console_totalPages records - 1 \<le> sc_page s then bot (sim ce ''no_next_page'' []) w
        else seq [setc (\<lambda>s'. s'\<lparr>sc_page := sc_page s + 1\<rparr>), bot (sc_listText ce s (sc_page s + 1) (sc_filter s))] w)
     else (case selectedFrom (page_slice (sc_page s) records) txt of None \<Rightarrow> sc_invalid ce w
       | Some u \<Rightarrow> seq [setc (\<lambda>s. s\<lparr>sc_selectedId := Some (sb_id u), sc_screen := SC_Detail\<rparr>), bot (sc_detailText ce s u)] w))"

definition on_sc_detail :: "console_env \<Rightarrow> string \<Rightarrow> sc_world \<Rightarrow> sc_world" where
  "on_sc_detail ce txt w = (case sc_selected (cw_console w) of None \<Rightarrow> sc_goMenu ce w
   | Some u \<Rightarrow>
       if txt = ''1'' then promptFor Edit_Fields (editFieldsText ce) w
       else if txt = ''2'' then reveal ce w
       else if txt = ''3'' then
         (if sb_status u = ''active'' then promptFor Cancel_Confirm (sim ce ''subscription_cancel_confirm'' [(''email'', sb_streaming_email u)]) w
          else promptFor Reactivate_Duration (durationChoices ce) w)
       else if txt = ''4'' then promptFor Renew_Duration (durationChoices ce) w
       else sc_invalid ce w)"

definition on_cancel_confirm :: "console_env \<Rightarrow> string \<Rightarrow> sc_world \<Rightarrow> sc_world" where
  "on_cancel_confirm ce txt w = (if \<not> confirms txt then bot (sim ce ''confirm_reprompt'' []) w else lifecycle ce Do_Cancel None None w)"

definition on_lifecycle_duration :: "console_env \<Rightarrow> sc_action \<Rightarrow> string \<Rightarrow> sc_world \<Rightarrow> sc_world" where
  "on_lifecycle_duration ce a txt w = (case duration_choice txt of None \<Rightarrow> sc_invalid ce w
     | Some d \<Rightarrow> if d = ''custom'' then seq [setc (\<lambda>s. s\<lparr>sc_lifecycleDuration := Some d,
           sc_screen := (if a = Do_Renew then Renew_Expiry else Reactivate_Expiry)\<rparr>), bot (sim ce ''subscription_expiry_prompt'' [])] w
         else lifecycle ce a (Some d) None w)"

definition on_lifecycle_expiry :: "console_env \<Rightarrow> sc_action \<Rightarrow> string \<Rightarrow> sc_world \<Rightarrow> sc_world" where
  "on_lifecycle_expiry ce a txt w = (case normalizeDate ce txt of Inl err \<Rightarrow> sc_fails ce err w
     | Inr expiresAt \<Rightarrow> lifecycle ce a (Some (nullish (sc_lifecycleDuration (cw_console w)) ''custom'')) (Some expiresAt) w)"

definition edit_screen :: "sc_screen \<Rightarrow> bool" where
  "edit_screen x \<longleftrightarrow> x \<in> {Edit_Fields, Edit_Value, Edit_Duration, Edit_Duration_Expiry, Edit_Client, Edit_Service, Edit_Plan, Edit_Service_Plan}"

definition create_screen :: "sc_screen \<Rightarrow> bool" where
  "create_screen x \<longleftrightarrow> x \<in> {Create_Client, Create_Service, Create_Plan, Create_Email, Create_Password, Create_Profile, Create_Pin,
     Create_Duration, Create_Start, Create_Expiry, Create_Confirm}"

definition sc_handleText :: "console_env \<Rightarrow> string \<Rightarrow> sc_world \<Rightarrow> sc_world" where
  "sc_handleText ce txt w = (case sc_screen (cw_console w) of
     SC_Menu \<Rightarrow> on_sc_menu ce txt w
   | SC_Filter \<Rightarrow> on_filter ce txt w
   | SC_List \<Rightarrow> on_sc_list ce txt w
   | SC_Detail \<Rightarrow> on_sc_detail ce txt w
   | Cancel_Confirm \<Rightarrow> on_cancel_confirm ce txt w
   | Renew_Duration \<Rightarrow> on_lifecycle_duration ce Do_Renew txt w
   | Reactivate_Duration \<Rightarrow> on_lifecycle_duration ce Do_Reactivate txt w
   | Renew_Expiry \<Rightarrow> on_lifecycle_expiry ce Do_Renew txt w
   | Reactivate_Expiry \<Rightarrow> on_lifecycle_expiry ce Do_Reactivate txt w
   | x \<Rightarrow> if edit_screen x then handleEdit ce txt w else handleCreate ce txt w)"

text \<open>\<open>9\<close>, where it goes back; elsewhere it is text like any other.\<close>

definition sc_back :: "console_env \<Rightarrow> sc_world \<Rightarrow> sc_world" where
  "sc_back ce w = (let s = cw_console w; x = sc_screen s in
     if x = SC_Menu then tell [OnBack] w
     else if x = SC_List \<or> x = SC_Filter then sc_goMenu ce w
     else if x = SC_Detail then sc_goList ce w
     else if create_screen x then sc_goMenu ce w
     else if edit_screen x then
       (case sc_selected s of Some u \<Rightarrow> promptFor SC_Detail (sc_detailText ce s u) w | None \<Rightarrow> sc_goMenu ce w)
     else sc_handleText ce ''9'' w)"

definition sc_submit :: "console_env \<Rightarrow> string \<Rightarrow> sc_world \<Rightarrow> sc_world" where
  "sc_submit ce typed w = (let txt = trim typed in
     if txt = [] \<or> cw_busy w \<or> cw_loading w \<or> cw_loadError w \<or> sc_screen (cw_console w) = SC_Crashed then w
     else let v = say User txt w in
       if txt = ''0'' then tell [OnCancel] v else if txt = ''9'' then sc_back ce v else sc_handleText ce txt v)"

text \<open>A conversation: messages, and reloads when the store has a new data source; a page that is gone does nothing any more.\<close>

inductive sc_step :: "console_env \<Rightarrow> sc_world \<Rightarrow> sc_world \<Rightarrow> bool" for ce where
  sc_submitted: "sc_step ce w (sc_submit ce typed w)"
| sc_loaded: "sc_screen (cw_console w) \<noteq> SC_Crashed \<Longrightarrow> sc_step ce w (sc_load ce w)"

section \<open>What a message asks\<close>

definition only_reads :: "data_op \<Rightarrow> bool" where
  "only_reads call \<longleftrightarrow> (case call of ListClients \<Rightarrow> True | ListServices \<Rightarrow> True | ListPlans k \<Rightarrow> True | ListSubscriptions f \<Rightarrow> True | _ \<Rightarrow> False)"

lemma only_reads_simps [simp]: "only_reads ListClients" "only_reads ListServices" "only_reads (ListPlans k)" "only_reads (ListSubscriptions f)"
  by (simp_all add: only_reads_def)

text \<open>What a console in state \<open>s\<close> may ask on the message \<open>txt\<close>, beside reading the lists again.\<close>

definition sc_may :: "sc_state \<Rightarrow> string \<Rightarrow> data_op \<Rightarrow> bool" where
  "sc_may s txt call \<longleftrightarrow> only_reads call \<or> (case call of
     CreateSubscription p \<Rightarrow> sc_screen s = Create_Confirm \<and> confirms txt \<and> complete_draft (sc_draft s) \<and> p = draft_subscription (sc_draft s)
   | UpdateSubscription k p \<Rightarrow> edit_screen (sc_screen s) \<and> sc_selectedId s = Some k \<and> sx_profile_pin p = None \<and> sx_streaming_password p = None
   | RevealSubscription k \<Rightarrow> sc_screen s = SC_Detail \<and> txt = ''2'' \<and> sc_selectedId s = Some k
   | CancelSubscription k \<Rightarrow> sc_screen s = Cancel_Confirm \<and> confirms txt \<and> sc_selectedId s = Some k
   | RenewSubscription k d e \<Rightarrow> sc_selectedId s = Some k \<and> d \<in> set DURATION_TYPES \<and>
       sc_screen s = (if d = ''custom'' then Renew_Expiry else Renew_Duration) \<and> (e = None \<longleftrightarrow> d \<noteq> ''custom'')
   | ReactivateSubscription k d st e \<Rightarrow> sc_selectedId s = Some k \<and> st = None \<and> (\<exists>x \<in> set DURATION_TYPES. d = Some x \<and>
       sc_screen s = (if x = ''custom'' then Reactivate_Expiry else Reactivate_Duration) \<and> (e = None \<longleftrightarrow> x \<noteq> ''custom''))
   | _ \<Rightarrow> False)"

lemma sc_navigation_asks [simp]:
  "on_data J (promptFor x txt w) = on_data J w" "on_data J (sc_goMenu ce w) = on_data J w" "on_data J (sc_goList ce w) = on_data J w"
  "on_data J (sc_invalid ce w) = on_data J w" "on_data J (sc_fails ce err w) = on_data J w"
  by (simp_all add: promptFor_def sc_goMenu_def sc_goList_def sc_invalid_def sc_fails_def Let_def)

text \<open>The fields that can be edited, and the duration of a renewal under way.\<close>

definition edit_ok :: "sc_state \<Rightarrow> bool" where
  "edit_ok s \<longleftrightarrow> sc_editField s \<in> {None, Some ''streaming_email'', Some ''starts_at'', Some ''expires_at'', Some ''profile_name''} \<and>
     sc_lifecycleDuration s \<in> {None, Some ''custom''}"

lemma duration_choiceD: "duration_choice txt = Some d \<Longrightarrow> d \<in> set DURATION_TYPES"
  by (auto simp: duration_choice_def selectedFrom_def split: option.splits if_splits dest: js_at_SomeD)

lemma custom_duration [simp]: "''custom'' \<in> set DURATION_TYPES"
  by (simp add: DURATION_TYPES_def)

lemma field_update_plain:
  assumes "edit_ok s" and "sc_editField s = Some field"
  shows "sx_profile_pin (field_update field v) = None \<and> sx_streaming_password (field_update field v) = None"
  using assms by (auto simp: edit_ok_def field_update_def no_update_def)

text \<open>A reload keeps what its requests keep.\<close>

lemma sc_load_act:
  assumes "act_keeps I (ask_clients ce)" "act_keeps I (ask_services ce)" "act_keeps I (ask_subscriptions ce)" "\<And>k. act_keeps I (ask_plans ce k)"
    and "\<And>cs vs ps us. keeps I (setc (\<lambda>s. s\<lparr>sc_clients := cs, sc_services := vs, sc_plans := ps, sc_subscriptions := us\<rparr>))"
  shows "act_keeps I (sc_loadWorkspace ce)"
proof -
  have rest: "act_keeps I (abind (alift x) (\<lambda>(cs, vs, us). abind (all_of (\<lambda>v. ask_plans ce (sv_id v)) vs) (\<lambda>pss.
       adone (setc (\<lambda>s. s\<lparr>sc_clients := cs, sc_services := vs, sc_plans := concat pss, sc_subscriptions := us\<rparr>)))))" for x
    by (simp add: act_keeps_bind act_keeps_alift act_keeps_all_of act_keeps_adone assms split: prod.split)
  show ?thesis
    proof (unfold act_keeps_def, intro allI impI)
    fix w assume w: "I w"
    obtain rc w1 rv w2 ru w3 where steps: "ask_clients ce w = (rc, w1)" "ask_services ce w1 = (rv, w2)" "ask_subscriptions ce w2 = (ru, w3)"
      by (metis surj_pair)
    have "I w1" "I w2" "I w3" using assms(1-3) w steps unfolding act_keeps_def by (metis snd_conv)+
    then show "I (snd (sc_loadWorkspace ce w))" using rest by (simp add: sc_loadWorkspace_def steps act_keeps_def)
  qed
qed

lemma sc_refresh_act:
  assumes "act_keeps I (sc_loadWorkspace ce)" and "keeps I (tell [OnChanged])"
  shows "act_keeps I (sc_refresh ce)"
  unfolding sc_refresh_def by (intro act_keeps_then act_keeps_adone assms)

context data_closed begin

lemma sc_load_keeps: "(\<And>call. only_reads call \<Longrightarrow> allowed call) \<Longrightarrow> act_keeps (on_data J) (sc_loadWorkspace ce)"
  by (rule sc_load_act) (simp_all add: ask_defs keeps_ask)

lemma sc_refresh_keeps: "(\<And>call. only_reads call \<Longrightarrow> allowed call) \<Longrightarrow> act_keeps (on_data J) (sc_refresh ce)"
  by (simp add: sc_refresh_act sc_load_keeps)

text \<open>A mutation, followed by a reload and by what says so.\<close>

lemma sc_mutation:
  assumes "\<And>call. only_reads call \<Longrightarrow> allowed call" and "runs ce call run" and "allowed call" and "\<And>x. keeps (on_data J) (f x)"
    and "\<And>e. keeps (on_data J) (h e)" and "on_data J w"
  shows "on_data J (with_busy (abind (ask ce call run) (\<lambda>x. athen (sc_refresh ce) (adone (f x)))) h w)"
proof (rule keeps_with_busy)
  show "act_keeps (on_data J) (abind (ask ce call run) (\<lambda>x. athen (sc_refresh ce) (adone (f x))))"
    by (intro act_keeps_bind act_keeps_then keeps_ask act_keeps_adone sc_refresh_keeps) (use assms in auto)
qed (use assms in auto)

lemma sc_mutation_after:
  assumes "\<And>call. only_reads call \<Longrightarrow> allowed call" and "runs ce call run" and "allowed call" and "\<And>x. keeps (on_data J) (f x)"
    and "\<And>e. keeps (on_data J) (h e)" and "on_data J w"
  shows "on_data J (with_busy (abind (ask ce call run) (\<lambda>x. athen (adone (setc g)) (athen (sc_refresh ce) (adone (f x))))) h w)"
proof (rule keeps_with_busy)
  show "act_keeps (on_data J) (abind (ask ce call run) (\<lambda>x. athen (adone (setc g)) (athen (sc_refresh ce) (adone (f x)))))"
    by (intro act_keeps_bind act_keeps_then keeps_ask act_keeps_adone sc_refresh_keeps) (use assms in auto)
qed (use assms in auto)

lemma saveCreate_asks:
  assumes "\<And>call. only_reads call \<Longrightarrow> allowed call" and "on_data J w"
    and "complete_draft (sc_draft (cw_console w)) \<Longrightarrow> allowed (CreateSubscription (draft_subscription (sc_draft (cw_console w))))"
  shows "on_data J (saveCreate ce w)"
  using assms by (simp add: saveCreate_def Let_def ask_createSubscription_def sc_mutation_after keeps_def)

lemma saveEdit_asks:
  assumes "\<And>call. only_reads call \<Longrightarrow> allowed call" and "on_data J w"
    and "\<And>k. sc_selectedId (cw_console w) = Some k \<Longrightarrow> allowed (UpdateSubscription k payload)"
  shows "on_data J (saveEdit ce payload w)"
  using assms by (auto simp: saveEdit_def Let_def ask_updateSubscription_def falsy_def keeps_def intro!: sc_mutation split: option.split)

lemma lifecycle_asks:
  assumes "\<And>call. only_reads call \<Longrightarrow> allowed call" and "on_data J w"
    and "\<And>k. sc_selectedId (cw_console w) = Some k \<Longrightarrow> allowed (case a of Do_Cancel \<Rightarrow> CancelSubscription k
      | Do_Renew \<Rightarrow> RenewSubscription k (nullish d ''1_month'') e | Do_Reactivate \<Rightarrow> ReactivateSubscription k (Some (nullish d ''1_month'')) None e)"
  shows "on_data J (lifecycle ce a d e w)"
  using assms by (cases a) (auto simp: lifecycle_def Let_def lifecycle_request_def ask_cancel_def ask_renew_def ask_reactivate_def
    falsy_def keeps_def intro!: sc_mutation split: option.split)

lemma reveal_asks:
  assumes "on_data J w" and "\<And>k. sc_selectedId (cw_console w) = Some k \<Longrightarrow> allowed (RevealSubscription k)"
  shows "on_data J (reveal ce w)"
  using assms by (auto simp: reveal_def Let_def ask_reveal_def falsy_def keeps_def intro!: keeps_question split: option.split)

end

context data_closed begin

lemma sc_create_asks:
  assumes A: "\<And>call. sc_may (cw_console w) txt call \<Longrightarrow> allowed call" and w: "on_data J w" and x: "create_screen (sc_screen (cw_console w))"
  shows "on_data J (handleCreate ce txt w)"
proof -
  have reads: "\<And>call. only_reads call \<Longrightarrow> allowed call" by (rule A) (simp add: sc_may_def)
  have "on_data J (on_creation_confirm ce txt w)" if "sc_screen (cw_console w) = Create_Confirm"
    using w that by (auto simp: on_creation_confirm_def sc_may_def intro!: saveCreate_asks [OF reads w] A)
  then show ?thesis using w x
    by (cases "sc_screen (cw_console w)")
      (simp_all add: handleCreate_def on_create_client_def on_create_service_def on_create_plan_def on_create_email_def on_create_secret_def
        on_create_profile_def on_create_pin_def on_create_duration_def on_create_start_def on_create_expiry_def Let_def
        split: option.split sum.split)
qed

lemma sc_edit_asks:
  assumes A: "\<And>call. sc_may (cw_console w) txt call \<Longrightarrow> allowed call" and w: "on_data J w"
    and x: "edit_screen (sc_screen (cw_console w))" and ok: "edit_ok (cw_console w)"
  shows "on_data J (handleEdit ce txt w)"
proof -
  have reads: "\<And>call. only_reads call \<Longrightarrow> allowed call" by (rule A) (simp add: sc_may_def)
  have save: "on_data J (saveEdit ce p w)" if "sx_profile_pin p = None" "sx_streaming_password p = None" for p
    by (rule saveEdit_asks [OF reads w], simp, rule A) (use x that in \<open>simp add: sc_may_def\<close>)
  have "on_data J (on_edit_value ce txt w)"
    using w by (auto simp: on_edit_value_def split: option.split sum.split intro!: save dest: field_update_plain [OF ok])
  moreover have "on_data J (on_edit_client ce txt w)" "on_data J (on_edit_service_plan ce txt w)" "on_data J (on_edit_plan ce u txt w)"
    "on_data J (on_edit_duration ce txt w)" "on_data J (on_edit_duration_expiry ce txt w)" for u
    using w by (auto simp: on_edit_client_def on_edit_service_plan_def on_edit_plan_def on_edit_duration_def on_edit_duration_expiry_def
      no_update_def Let_def split: option.split sum.split intro!: save)
  ultimately show ?thesis using w x
    by (cases "sc_screen (cw_console w)")
      (simp_all add: handleEdit_def on_edit_fields_def on_edit_service_def Let_def split: option.split)
qed

lemma sc_text_asks:
  assumes A: "\<And>call. sc_may (cw_console w) txt call \<Longrightarrow> allowed call" and w: "on_data J w" and ok: "edit_ok (cw_console w)"
  shows "on_data J (sc_handleText ce txt w)"
proof -
  let ?s = "cw_console w"
  have reads: "\<And>call. only_reads call \<Longrightarrow> allowed call" by (rule A) (simp add: sc_may_def)
  have "on_data J (on_sc_detail ce txt w)" if "sc_screen ?s = SC_Detail"
    using w that by (auto simp: on_sc_detail_def sc_may_def intro!: reveal_asks A split: option.split)
  moreover have "on_data J (on_cancel_confirm ce txt w)" if "sc_screen ?s = Cancel_Confirm"
    using w that by (auto simp: on_cancel_confirm_def sc_may_def intro!: lifecycle_asks [OF reads] A)
  moreover have "on_data J (on_lifecycle_duration ce Do_Renew txt w)" if "sc_screen ?s = Renew_Duration"
    using w that by (auto simp: on_lifecycle_duration_def sc_may_def nullish_def intro!: lifecycle_asks [OF reads] A
      dest: duration_choiceD split: option.split)
  moreover have "on_data J (on_lifecycle_duration ce Do_Reactivate txt w)" if "sc_screen ?s = Reactivate_Duration"
    using w that by (auto simp: on_lifecycle_duration_def sc_may_def nullish_def intro!: lifecycle_asks [OF reads] A
      dest: duration_choiceD split: option.split)
  moreover have "on_data J (on_lifecycle_expiry ce Do_Renew txt w)" if "sc_screen ?s = Renew_Expiry"
    using w that ok by (auto simp: on_lifecycle_expiry_def sc_may_def edit_ok_def nullish_def intro!: lifecycle_asks [OF reads] A split: sum.split option.split)
  moreover have "on_data J (on_lifecycle_expiry ce Do_Reactivate txt w)" if "sc_screen ?s = Reactivate_Expiry"
    using w that ok by (auto simp: on_lifecycle_expiry_def sc_may_def edit_ok_def nullish_def intro!: lifecycle_asks [OF reads] A split: sum.split option.split)
  moreover have "on_data J (on_sc_menu ce txt w)" "on_data J (on_filter ce txt w)" "on_data J (on_sc_list ce txt w)"
    using w by (simp_all add: on_sc_menu_def on_filter_def on_sc_list_def Let_def split: option.split)
  moreover have "create_screen (sc_screen ?s) \<Longrightarrow> on_data J (handleCreate ce txt w)"
    "edit_screen (sc_screen ?s) \<Longrightarrow> on_data J (handleEdit ce txt w)" "sc_screen ?s = SC_Crashed \<Longrightarrow> on_data J (handleCreate ce txt w)"
    using sc_create_asks [OF A w] sc_edit_asks [OF A w _ ok] w by (simp_all add: handleCreate_def)
  ultimately show ?thesis
    by (cases "sc_screen ?s") (simp_all add: sc_handleText_def edit_screen_def create_screen_def)
qed

lemma sc_submit_asks:
  assumes A: "\<And>call. sc_may (cw_console w) (trim typed) call \<Longrightarrow> allowed call" and w: "on_data J w" and ok: "edit_ok (cw_console w)"
  shows "on_data J (sc_submit ce typed w)"
proof -
  let ?v = "say User (trim typed) w"
  have handled: "on_data J (sc_handleText ce (trim typed) ?v)"
    by (rule sc_text_asks) (use A w ok in simp_all)
  have "on_data J (sc_back ce (say User ''9'' w))" if "trim typed = ''9''"
    using w handled that by (auto simp: sc_back_def Let_def split: option.split)
  then show ?thesis using w handled by (simp add: sc_submit_def Let_def)
qed

lemma sc_reload_asks:
  assumes "\<And>call. only_reads call \<Longrightarrow> allowed call" and "on_data J w"
  shows "on_data J (sc_load ce w)"
proof -
  let ?w = "w\<lparr>cw_loading := True, cw_loadError := False\<rparr>"
  have "on_data J (snd (sc_loadWorkspace ce ?w))"
    using sc_load_keeps assms unfolding act_keeps_def by (simp add: on_data_def)
  then show ?thesis
    by (cases "sc_loadWorkspace ce ?w") (simp add: sc_load_def Let_def on_data_def split: sum.split)
qed

end

section \<open>What the screens promise\<close>

text \<open>A duration in the draft is one of the list, and there is an expiry date exactly when it is the custom one: asked for, and kept.\<close>

definition draft_ok :: "sc_state \<Rightarrow> bool" where
  "draft_ok s \<longleftrightarrow> (let d = sc_draft s; x = sc_screen s in
     cd_duration_type d \<in> insert None (Some ` set DURATION_TYPES) \<and>
     (cd_expires_at d \<noteq> None \<longrightarrow> cd_duration_type d = Some ''custom'') \<and>
     (create_screen x \<and> x \<noteq> Create_Confirm \<and> x \<noteq> Create_Expiry \<longrightarrow> cd_expires_at d = None) \<and>
     (x = Create_Expiry \<longrightarrow> cd_duration_type d = Some ''custom'') \<and>
     (x = Create_Confirm \<and> cd_duration_type d = Some ''custom'' \<longrightarrow> cd_expires_at d \<noteq> None))"

definition sc_inv :: "sc_world \<Rightarrow> bool" where
  "sc_inv w \<longleftrightarrow> numbered (cw_messages w) \<and> edit_ok (cw_console w) \<and> draft_ok (cw_console w)"

lemma create_screen_simps [simp]:
  "create_screen Create_Client" "create_screen Create_Service" "create_screen Create_Plan" "create_screen Create_Email"
  "create_screen Create_Password" "create_screen Create_Profile" "create_screen Create_Pin" "create_screen Create_Duration"
  "create_screen Create_Start" "create_screen Create_Expiry" "create_screen Create_Confirm"
  "\<not> create_screen SC_Menu" "\<not> create_screen SC_Filter" "\<not> create_screen SC_List" "\<not> create_screen SC_Detail"
  "\<not> create_screen Edit_Fields" "\<not> create_screen Edit_Value" "\<not> create_screen Edit_Duration" "\<not> create_screen Edit_Duration_Expiry"
  "\<not> create_screen Edit_Client" "\<not> create_screen Edit_Service" "\<not> create_screen Edit_Plan" "\<not> create_screen Edit_Service_Plan"
  "\<not> create_screen Cancel_Confirm" "\<not> create_screen Renew_Duration" "\<not> create_screen Renew_Expiry"
  "\<not> create_screen Reactivate_Duration" "\<not> create_screen Reactivate_Expiry" "\<not> create_screen SC_Crashed"
  by (simp_all add: create_screen_def)

lemma edit_ok_same [simp]:
  "edit_ok (s\<lparr>sc_screen := x\<rparr>) = edit_ok s" "edit_ok (s\<lparr>sc_page := n\<rparr>) = edit_ok s" "edit_ok (s\<lparr>sc_filter := f\<rparr>) = edit_ok s"
  "edit_ok (s\<lparr>sc_draft := d\<rparr>) = edit_ok s" "edit_ok (s\<lparr>sc_selectedId := k\<rparr>) = edit_ok s" "edit_ok (s\<lparr>sc_editPayload := p\<rparr>) = edit_ok s"
  "edit_ok (s\<lparr>sc_clients := cs, sc_services := vs, sc_plans := ps, sc_subscriptions := us\<rparr>) = edit_ok s"
  by (simp_all add: edit_ok_def)

lemma draft_ok_same [simp]:
  "draft_ok (s\<lparr>sc_page := n\<rparr>) = draft_ok s" "draft_ok (s\<lparr>sc_filter := f\<rparr>) = draft_ok s" "draft_ok (s\<lparr>sc_selectedId := k\<rparr>) = draft_ok s"
  "draft_ok (s\<lparr>sc_editPayload := p\<rparr>) = draft_ok s" "draft_ok (s\<lparr>sc_editField := ef\<rparr>) = draft_ok s"
  "draft_ok (s\<lparr>sc_lifecycleDuration := ld\<rparr>) = draft_ok s"
  "draft_ok (s\<lparr>sc_clients := cs, sc_services := vs, sc_plans := ps, sc_subscriptions := us\<rparr>) = draft_ok s"
  by (simp_all add: draft_ok_def)

lemma draft_ok_left: "draft_ok s \<Longrightarrow> \<not> create_screen x \<Longrightarrow> draft_ok (s\<lparr>sc_screen := x\<rparr>)"
  by (auto simp: draft_ok_def Let_def)

lemma draft_ok_emptied [simp]: "draft_ok s \<Longrightarrow> draft_ok (s\<lparr>sc_draft := no_draft\<rparr>) \<or> sc_screen s = Create_Expiry"
  by (auto simp: draft_ok_def Let_def no_draft_def)

lemma sc_inv_steps [simp]:
  "sc_inv w \<Longrightarrow> sc_inv (bot x w)" "sc_inv w \<Longrightarrow> sc_inv (say role x w)" "sc_inv (tell cs w) = sc_inv w" "sc_inv (setBusy b w) = sc_inv w"
  "sc_inv w \<Longrightarrow> sc_inv (sc_invalid ce w)" "sc_inv w \<Longrightarrow> sc_inv (sc_fails ce err w)"
  by (auto simp: sc_inv_def sc_invalid_def sc_fails_def)

lemma sc_inv_set: "sc_inv w \<Longrightarrow> edit_ok (f (cw_console w)) \<Longrightarrow> draft_ok (f (cw_console w)) \<Longrightarrow> sc_inv (setc f w)"
  by (simp add: sc_inv_def)

lemma sc_inv_prompt [simp]: "sc_inv w \<Longrightarrow> \<not> create_screen x \<Longrightarrow> sc_inv (promptFor x txt w)"
  by (simp add: promptFor_def sc_inv_def draft_ok_left)

lemma sc_inv_menu [simp]: "sc_inv w \<Longrightarrow> sc_inv (sc_goMenu ce w)" "sc_inv w \<Longrightarrow> sc_inv (sc_goList ce w)"
  by (auto simp: sc_goMenu_def sc_goList_def clearSelection_def Let_def sc_inv_def promptFor_def draft_ok_left)
    (auto simp: edit_ok_def)

text \<open>Requests.\<close>

lemma sc_ask_inv: "act_keeps sc_inv (ask ce call run)"
  by (simp add: act_keeps_def ask_def sc_inv_def split: prod.split)

lemma sc_load_inv: "act_keeps sc_inv (sc_loadWorkspace ce)" "act_keeps sc_inv (sc_refresh ce)"
proof -
  show "act_keeps sc_inv (sc_loadWorkspace ce)"
    by (rule sc_load_act) (simp_all add: ask_defs sc_ask_inv keeps_def sc_inv_def)
  then show "act_keeps sc_inv (sc_refresh ce)" by (rule sc_refresh_act) (simp add: keeps_def)
qed

lemma sc_busy_inv:
  assumes "act_keeps sc_inv m" and "\<And>e. keeps sc_inv (h e)" and "sc_inv w"
  shows "sc_inv (with_busy m h w)"
  using keepsD [OF keeps_attempt [OF assms(1,2)], of "setBusy True w"] assms(3) by (simp add: with_busy_def)

lemma sc_requests_inv [simp]:
  "sc_inv w \<Longrightarrow> sc_inv (saveEdit ce p w)" "sc_inv w \<Longrightarrow> sc_inv (lifecycle ce a d e w)" "sc_inv w \<Longrightarrow> sc_inv (reveal ce w)"
proof -
  assume w: "sc_inv w"
  have detail: "sc_inv (setc (\<lambda>s. s\<lparr>sc_screen := SC_Detail\<rparr>) v)" "sc_inv (setc (\<lambda>s. s\<lparr>sc_screen := SC_Detail, sc_editPayload := p\<rparr>) v)"
    if "sc_inv v" for v p
    using that by (simp_all add: sc_inv_def draft_ok_left)
  show "sc_inv (saveEdit ce p w)" unfolding saveEdit_def Let_def ask_defs
    using w by (auto intro!: sc_busy_inv act_keeps_bind act_keeps_then sc_ask_inv sc_load_inv act_keeps_adone simp: keeps_def detail)
  show "sc_inv (lifecycle ce a d e w)" unfolding lifecycle_def Let_def
    using w by (cases a) (auto intro!: sc_busy_inv act_keeps_bind act_keeps_then sc_ask_inv sc_load_inv act_keeps_adone
      simp: keeps_def detail lifecycle_request_def ask_defs)
  show "sc_inv (reveal ce w)" unfolding reveal_def Let_def ask_defs
    using w by (auto intro!: sc_busy_inv act_keeps_bind sc_ask_inv act_keeps_adone simp: keeps_def)
qed

lemma saveCreate_inv:
  assumes "sc_inv w" and "sc_screen (cw_console w) = Create_Confirm"
  shows "sc_inv (saveCreate ce w)"
proof -
  let ?I = "\<lambda>w. sc_inv w \<and> sc_screen (cw_console w) = Create_Confirm"
  have ask: "act_keeps ?I (ask ce call run)" for call and run :: "int \<Rightarrow> 'b repo_act"
    by (simp add: act_keeps_def ask_def sc_inv_def split: prod.split)
  have clear: "sc_inv (setc (\<lambda>s. s\<lparr>sc_draft := no_draft\<rparr>) v)" if "sc_inv v" "sc_screen (cw_console v) = Create_Confirm" for v
    using that draft_ok_emptied [of "cw_console v"] by (auto simp: sc_inv_def)
  have tail: "act_keeps sc_inv (athen (sc_refresh ce) (adone (promptFor SC_Menu x)))" for x
    by (intro act_keeps_then sc_load_inv act_keeps_adone) (simp add: keeps_def)
  have "sc_inv (snd (abind (ask ce call run) (\<lambda>x. athen (adone (setc (\<lambda>s. s\<lparr>sc_draft := no_draft\<rparr>)))
      (athen (sc_refresh ce) (adone (promptFor SC_Menu (f x))))) v))" if "?I v" for call v f and run :: "int \<Rightarrow> Subscription repo_act"
  proof -
    obtain x t where x: "ask ce call run v = (x, t)" by fastforce
    then have "?I t" using ask [of call run] that unfolding act_keeps_def by (metis snd_conv)
    then show ?thesis using x tail clear unfolding act_keeps_def by (cases x) (simp_all add: abind_def athen_def adone_def)
  qed
  then show ?thesis
    using assms unfolding saveCreate_def Let_def with_busy_def attempt_def ask_createSubscription_def
    by (auto split: prod.split sum.split) (metis snd_conv sc_inv_steps(1,4) world_steps2(9))+
qed

text \<open>Messages.\<close>

lemma draft_step:
  assumes "sc_inv w" and "draft_ok ((set_sc_draft f (cw_console w))\<lparr>sc_screen := x\<rparr>)"
  shows "sc_inv (promptFor x txt (setc (set_sc_draft f) w))"
  using assms by (simp add: promptFor_def sc_inv_def set_sc_draft_def)

lemma sc_create_inv:
  assumes "sc_inv w"
  shows "sc_inv (handleCreate ce txt w)"
proof -
  let ?s = "cw_console w"
  have ok: "draft_ok ?s" using assms by (simp add: sc_inv_def)
  have "sc_screen ?s = Create_Client \<Longrightarrow> sc_inv (on_create_client ce txt w)"
    "sc_screen ?s = Create_Service \<Longrightarrow> sc_inv (on_create_service ce txt w)"
    "sc_screen ?s = Create_Plan \<Longrightarrow> sc_inv (on_create_plan ce txt w)"
    using assms ok by (auto simp: on_create_client_def on_create_service_def on_create_plan_def Let_def intro!: draft_step split: option.split)
      (auto simp: draft_ok_def set_sc_draft_def Let_def)
  moreover have "sc_screen ?s = Create_Email \<Longrightarrow> sc_inv (on_create_email ce txt w)"
    "sc_screen ?s = Create_Password \<Longrightarrow> sc_inv (on_create_secret ce txt w)"
    "sc_screen ?s = Create_Profile \<Longrightarrow> sc_inv (on_create_profile ce txt w)"
    "sc_screen ?s = Create_Pin \<Longrightarrow> sc_inv (on_create_pin ce txt w)"
    using assms ok by (auto simp: on_create_email_def on_create_secret_def on_create_profile_def on_create_pin_def intro!: draft_step)
      (auto simp: draft_ok_def set_sc_draft_def Let_def)
  moreover have "sc_screen ?s = Create_Duration \<Longrightarrow> sc_inv (on_create_duration ce txt w)"
    using assms ok by (auto simp: on_create_duration_def intro!: draft_step split: option.split)
      (auto simp: draft_ok_def set_sc_draft_def Let_def dest: duration_choiceD)
  moreover have "sc_screen ?s = Create_Start \<Longrightarrow> sc_inv (on_create_start ce txt w)"
    "sc_screen ?s = Create_Expiry \<Longrightarrow> sc_inv (on_create_expiry ce txt w)"
    using assms ok by (auto simp: on_create_start_def on_create_expiry_def intro!: draft_step split: sum.split)
      (auto simp: draft_ok_def set_sc_draft_def Let_def)
  moreover have "sc_screen ?s = Create_Confirm \<Longrightarrow> sc_inv (on_creation_confirm ce txt w)"
    using assms by (simp add: on_creation_confirm_def saveCreate_inv)
  ultimately show ?thesis using assms by (cases "sc_screen ?s") (simp_all add: handleCreate_def)
qed

lemma sc_edit_inv:
  assumes "sc_inv w" and "txt \<noteq> ''9''"
  shows "sc_inv (handleEdit ce txt w)"
proof -
  have "sc_inv (on_edit_fields ce u txt w)" for u
    using assms by (auto simp: on_edit_fields_def sc_prompts_def Let_def intro!: sc_inv_set split: option.split)
      (auto simp: edit_ok_def sc_inv_def draft_ok_left)
  moreover have "sc_inv (on_edit_service ce txt w)"
    using assms(1) by (auto simp: on_edit_service_def Let_def intro!: sc_inv_set split: option.split) (auto simp: sc_inv_def draft_ok_left)
  ultimately show ?thesis using assms(1)
    by (cases "sc_screen (cw_console w)")
      (simp_all add: handleEdit_def on_edit_client_def on_edit_service_plan_def on_edit_plan_def on_edit_duration_def
        on_edit_duration_expiry_def on_edit_value_def Let_def split: option.split sum.split)
qed

lemma sc_text_inv:
  assumes "sc_inv w" and "edit_screen (sc_screen (cw_console w)) \<Longrightarrow> txt \<noteq> ''9''"
  shows "sc_inv (sc_handleText ce txt w)"
proof -
  let ?s = "cw_console w"
  have "sc_inv (on_sc_menu ce txt w)"
    using assms(1) by (auto simp: on_sc_menu_def intro!: draft_step) (simp add: draft_ok_def set_sc_draft_def no_draft_def)
  moreover have "sc_inv (on_filter ce txt w)" "sc_inv (on_sc_list ce txt w)"
    using assms(1) by (auto simp: on_filter_def on_sc_list_def Let_def intro!: sc_inv_set split: option.split)
      (auto simp: sc_inv_def draft_ok_left)
  moreover have "sc_inv (on_sc_detail ce txt w)" "sc_inv (on_cancel_confirm ce txt w)" "sc_inv (on_lifecycle_expiry ce a txt w)" for a
    using assms(1) by (simp_all add: on_sc_detail_def on_cancel_confirm_def on_lifecycle_expiry_def split: option.split sum.split)
  moreover have "sc_inv (on_lifecycle_duration ce a txt w)" for a
    using assms(1) by (auto simp: on_lifecycle_duration_def intro!: sc_inv_set split: option.split)
      (auto simp: sc_inv_def draft_ok_left edit_ok_def)
  moreover have "sc_inv (handleCreate ce txt w)" using assms(1) by (rule sc_create_inv)
  moreover have "edit_screen (sc_screen ?s) \<Longrightarrow> sc_inv (handleEdit ce txt w)" using assms by (simp add: sc_edit_inv)
  ultimately show ?thesis by (cases "sc_screen ?s") (simp_all add: sc_handleText_def edit_screen_def)
qed

lemma sc_submit_inv:
  assumes "sc_inv w"
  shows "sc_inv (sc_submit ce typed w)"
proof -
  have nine: "sc_inv (sc_back ce v)" if "sc_inv v" for v
    using that sc_text_inv [OF that, of "''9''" ce] by (auto simp: sc_back_def Let_def split: option.split)
  show ?thesis
    using assms nine [of "say User ''9'' w"] sc_text_inv [of "say User (trim typed) w" "trim typed" ce]
    by (simp add: sc_submit_def Let_def)
qed

lemma sc_reload_inv:
  assumes "sc_inv w"
  shows "sc_inv (sc_load ce w)"
proof -
  let ?w = "w\<lparr>cw_loading := True, cw_loadError := False\<rparr>"
  have "sc_inv ?w" using assms by (simp add: sc_inv_def)
  then have "sc_inv (snd (sc_loadWorkspace ce ?w))" using sc_load_inv(1) unfolding act_keeps_def by blast
  moreover have "numbered [\<lparr>msg_id = 1, msg_role = Bot, msg_text = x\<rparr>]" for x by (simp add: numbered_def)
  ultimately show ?thesis
    by (cases "sc_loadWorkspace ce ?w") (simp add: sc_load_def Let_def sc_inv_def split: sum.split)
qed

interpretation sc: invariant_run "sc_step ce" sc_inv for ce
  by unfold_locales (auto elim!: sc_step.cases intro: sc_submit_inv sc_reload_inv)

lemma sc_inv_edit: "sc_inv w \<Longrightarrow> edit_ok (cw_console w)"
  by (simp add: sc_inv_def)

text \<open>The order of the workspace, together with the invariant of the screens.\<close>

definition sc_orderly :: "console_env \<Rightarrow> sc_world \<Rightarrow> bool" where
  "sc_orderly ce w \<longleftrightarrow> sc_inv w \<and> on_data (\<lambda>r ops. workspace_ok ce r) w"

lemma sc_may_orderly: "sc_may s txt call \<Longrightarrow> orderly call"
  by (cases call) (simp_all add: sc_may_def orderly_def only_reads_def)

lemma only_reads_orderly: "only_reads call \<Longrightarrow> orderly call"
  by (cases call) (simp_all add: orderly_def only_reads_def)

interpretation sc_workspace: invariant_run "sc_step ce" "sc_orderly ce" for ce
  by unfold_locales (auto elim!: sc_step.cases simp: sc_orderly_def
    intro: sc_submit_inv sc_reload_inv in_order.sc_submit_asks in_order.sc_reload_asks sc_inv_edit sc_may_orderly only_reads_orderly)

lemma sc_start_inv: "sc_inv (sc_world_of r)"
  by (simp add: sc_inv_def sc_world_of_def initial_sc_def edit_ok_def draft_ok_def no_draft_def numbered_def)

section \<open>What is shown\<close>

text \<open>The lists on the screen are those of the workspace.\<close>

definition mirrors :: "ProLists \<Rightarrow> sc_state \<Rightarrow> bool" where
  "mirrors p s \<longleftrightarrow> sc_clients s = clients p \<and> mset (sc_services s) = mset (services p) \<and> set (sc_plans s) = set (plans p) \<and>
     mset (sc_subscriptions s) = image_mset publicSubscription (mset (subscriptions p))"

lemma sc_load_mirrors:
  assumes "serves ce p (cw_repo w)" and "plan_refs p" and "Date_parse (md_serverTime (ce_demo ce)) = Some t"
  shows "\<exists>ps v. sc_loadWorkspace ce w = (Inr (), setc (\<lambda>s. s\<lparr>sc_clients := clients p, sc_services := services_shown ce p, sc_plans := ps,
      sc_subscriptions := subscriptions_shown ce p\<rparr>) v) \<and> set ps = set (plans p) \<and> moved w v \<and> serves ce p (cw_repo v)"
proof -
  obtain w1 where w1: "ask_clients ce w = (Inr (clients p), w1)" "moved w w1" "serves ce p (cw_repo w1)"
    using ask_lists(1) [OF assms(1)] by blast
  obtain w2 where w2: "ask_services ce w1 = (Inr (services_shown ce p), w2)" "moved w1 w2" "serves ce p (cw_repo w2)"
    using ask_lists(2) [OF w1(3)] by blast
  obtain w3 where w3: "ask_subscriptions ce w2 = (Inr (subscriptions_shown ce p), w3)" "moved w2 w3" "serves ce p (cw_repo w3)"
    using ask_lists(4) [OF w2(3) assms(3)] by blast
  obtain w4 where w4: "all_of (\<lambda>v. ask_plans ce (sv_id v)) (services_shown ce p) w3 = (Inr (map (\<lambda>v. plans_shown ce p (sv_id v)) (services_shown ce p)), w4)"
    "moved w3 w4" "serves ce p (cw_repo w4)"
    using ask_all_plans [OF w3(3), of "services_shown ce p"] by auto
  let ?ps = "concat (map (\<lambda>v. plans_shown ce p (sv_id v)) (services_shown ce p))"
  have "set ?ps = set (plans p)" using assms(2) by (auto simp: plan_refs_def)
  moreover have "moved w w4" using w1(2) w2(2) w3(2) w4(2) moved_trans by blast
  moreover have "sc_loadWorkspace ce w = (Inr (), setc (\<lambda>s. s\<lparr>sc_clients := clients p, sc_services := services_shown ce p, sc_plans := ?ps,
      sc_subscriptions := subscriptions_shown ce p\<rparr>) w4)"
    by (simp add: sc_loadWorkspace_def w1(1) w2(1) w3(1) abind_def alift_def w4(1) adone_def)
  ultimately show ?thesis using w4(3) by blast
qed

lemma sc_loads:
  assumes "serves ce p (cw_repo w)" and "plan_refs p" and "Date_parse (md_serverTime (ce_demo ce)) = Some t"
  shows "\<exists>ps. cw_console (sc_load ce w) = (cw_console w)\<lparr>sc_clients := clients p, sc_services := services_shown ce p, sc_plans := ps,
      sc_subscriptions := subscriptions_shown ce p\<rparr> \<and> set ps = set (plans p)"
    and "cw_busy (sc_load ce w) = cw_busy w" "\<not> cw_loading (sc_load ce w)" "\<not> cw_loadError (sc_load ce w)"
    and "cw_messages (sc_load ce w) = [\<lparr>msg_id = 1, msg_role = Bot, msg_text = sc_menuText ce\<rparr>]"
    and "pro_view (ce_demo ce) (cw_repo (sc_load ce w)) = Some p"
proof -
  let ?w = "w\<lparr>cw_loading := True, cw_loadError := False\<rparr>"
  obtain ps v where v: "sc_loadWorkspace ce ?w = (Inr (), setc (\<lambda>s. s\<lparr>sc_clients := clients p, sc_services := services_shown ce p, sc_plans := ps,
      sc_subscriptions := subscriptions_shown ce p\<rparr>) v)" "set ps = set (plans p)" "moved ?w v" "serves ce p (cw_repo v)"
    using sc_load_mirrors [of ce p ?w t] assms by auto
  note same = movedD [OF v(3)]
  show "\<exists>ps. cw_console (sc_load ce w) = (cw_console w)\<lparr>sc_clients := clients p, sc_services := services_shown ce p, sc_plans := ps,
      sc_subscriptions := subscriptions_shown ce p\<rparr> \<and> set ps = set (plans p)"
    using v(1,2) same by (auto simp: sc_load_def)
  show "cw_busy (sc_load ce w) = cw_busy w" "\<not> cw_loading (sc_load ce w)" "\<not> cw_loadError (sc_load ce w)"
    "cw_messages (sc_load ce w) = [\<lparr>msg_id = 1, msg_role = Bot, msg_text = sc_menuText ce\<rparr>]"
    "pro_view (ce_demo ce) (cw_repo (sc_load ce w)) = Some p"
    using v(1,4) same by (simp_all add: sc_load_def serves_def)
qed

text \<open>A name on the screen is that of the entry referred to.\<close>

definition named :: "console_env \<Rightarrow> sc_state \<Rightarrow> Subscription \<Rightarrow> bool" where
  "named ce s u \<longleftrightarrow> client_name ce s u \<in> cl_full_name ` {c \<in> set (sc_clients s). cl_id c = sb_client_id u} \<and>
     service_name ce s u \<in> sv_name ` {v \<in> set (sc_services s). sv_id v = sb_service_id u} \<and>
     plan_name ce s u \<in> pl_name ` {p \<in> set (sc_plans s). pl_id p = sb_plan_id u}"

lemma js_map_keyed:
  assumes "k \<in> key ` set xs"
  shows "\<exists>x \<in> set xs. key x = k \<and> js_map (map (\<lambda>x. (key x, x)) xs) k = Some x"
proof -
  have "map_of (rev (map (\<lambda>x. (key x, x)) xs)) k \<noteq> None" using assms by (auto simp: map_of_eq_None_iff image_iff)
  then obtain x where x: "map_of (rev (map (\<lambda>x. (key x, x)) xs)) k = Some x" by blast
  then show ?thesis using map_of_SomeD [OF x] by (auto simp: js_map_def)
qed

lemma mirrors_named:
  assumes "mirrors p s" and "refs_ok p" and "u \<in> set (sc_subscriptions s)"
  shows "named ce s u"
proof -
  have "set_mset (mset (sc_subscriptions s)) = publicSubscription ` set (subscriptions p)" using assms(1) by (simp add: mirrors_def)
  then obtain x where x: "x \<in> set (subscriptions p)" "u = publicSubscription x" using assms(3) by auto
  have "subscription_refs p x" using assms(2) x(1) by (simp add: refs_ok_def)
  moreover from this obtain q where "q \<in> set (plans p)" "pl_id q = su_plan_id x" by (auto simp: subscription_refs_def)
  then have "su_plan_id x \<in> pl_id ` set (plans p)" by force
  ultimately have "sb_client_id u \<in> cl_id ` set (sc_clients s)" "sb_service_id u \<in> sv_id ` set (sc_services s)" "sb_plan_id u \<in> pl_id ` set (sc_plans s)"
    using assms(1) x(2) mset_eq_setD [of "sc_services s" "services p"] by (auto simp: subscription_refs_def mirrors_def publicSubscription_def)
  from this [THEN js_map_keyed] show ?thesis by (auto simp: named_def client_name_def service_name_def plan_name_def)
qed

text \<open>A complete request for a subscription.\<close>

definition well_formed :: "SubscriptionCreate \<Rightarrow> bool" where
  "well_formed p \<longleftrightarrow> sc_client_id p \<noteq> [] \<and> sc_service_id p \<noteq> [] \<and> sc_plan_id p \<noteq> [] \<and> sc_streaming_email p \<noteq> [] \<and> sc_starts_at p \<noteq> [] \<and>
     sc_duration_type p \<in> set DURATION_TYPES \<and> (sc_expires_at p = None \<longleftrightarrow> sc_duration_type p \<noteq> ''custom'')"

lemma creation_well_formed:
  assumes "draft_ok s" and "sc_screen s = Create_Confirm" and "complete_draft (sc_draft s)"
  shows "well_formed (draft_subscription (sc_draft s))"
  using assms by (auto simp: draft_ok_def complete_draft_def falsy_def draft_subscription_def well_formed_def Let_def split: option.splits)

definition meant :: "sc_state \<Rightarrow> string \<Rightarrow> data_op \<Rightarrow> bool" where
  "meant s txt call \<longleftrightarrow> sc_may s txt call \<and> (case call of CreateSubscription p \<Rightarrow> well_formed p | _ \<Rightarrow> True)"

lemma may_meant: "draft_ok s \<Longrightarrow> sc_may s txt call \<Longrightarrow> meant s txt call"
  by (cases call) (simp_all add: meant_def, simp add: sc_may_def only_reads_def creation_well_formed)

section \<open>Findings\<close>

text \<open>The ninth field of the edit menu is the PIN, but \<open>9\<close> goes back: the message never reaches the table of prompts.\<close>

lemma pin_not_asked:
  assumes "sc_screen (cw_console w) = Edit_Fields" and "ready_for_input w" and "sc_selected (cw_console w) = Some u"
  shows "map_of (sc_prompts ce) ''9'' = Some (''profile_pin'', sim ce ''subscription_pin_prompt'' [])"
    and "sc_screen (cw_console (sc_submit ce ''9'' w)) = SC_Detail"
proof -
  have "trim ''9'' = ''9''" by code_simp
  then show "sc_screen (cw_console (sc_submit ce ''9'' w)) = SC_Detail"
    using assms by (simp add: sc_submit_def ready_for_input_def sc_back_def promptFor_def edit_screen_def sc_selected_def)
qed (simp add: sc_prompts_def)

text \<open>The list of durations ends with \<open>9. back\<close>; in a renewal and in a reactivation, \<open>9\<close> is answered with "invalid", however often.\<close>

lemma renewal_has_no_way_back:
  assumes "sc_screen (cw_console w) \<in> {Renew_Duration, Reactivate_Duration, Cancel_Confirm}" and "ready_for_input w"
  shows "cw_console ((sc_submit ce ''9'' ^^ n) w) = cw_console w \<and> ready_for_input ((sc_submit ce ''9'' ^^ n) w) \<and>
    cw_calls ((sc_submit ce ''9'' ^^ n) w) = cw_calls w"
proof (induction n)
  case (Suc n)
  have texts: "trim ''9'' = ''9''" "duration_choice ''9'' = None" "\<not> confirms ''9''" by code_simp+
  have step: "\<exists>t. sc_submit ce ''9'' v = bot t (say User ''9'' v)"
    if "sc_screen (cw_console v) \<in> {Renew_Duration, Reactivate_Duration, Cancel_Confirm}" "ready_for_input v" for v
    using that by (elim insertE emptyE; simp add: sc_submit_def texts ready_for_input_def sc_back_def edit_screen_def sc_handleText_def
      on_lifecycle_duration_def on_cancel_confirm_def sc_invalid_def; blast)
  show ?case using step [of "(sc_submit ce ''9'' ^^ n) w"] Suc assms(1) by (auto simp: ready_for_input_def)
qed (use assms(2) in simp)

text \<open>
  When the subscription was created but the lists could not be read again, the console reports a failure and asks to try again, with
  an empty draft: the confirmation then repeated is refused.
\<close>

lemma created_but_not_shown:
  assumes "ask_createSubscription ce (draft_subscription (sc_draft (cw_console w))) (setBusy True w) = (Inr u, v)"
    and "sc_loadWorkspace ce (setc (\<lambda>s. s\<lparr>sc_draft := no_draft\<rparr>) v) = (Inl err, t)" and "complete_draft (sc_draft (cw_console w))"
  shows "saveCreate ce w = setBusy False (bot (sc_errorMessage ce err @ nl @ nl @ sim ce ''subscription_create_retry'' []) t)"
  using assms by (simp add: saveCreate_def with_busy_def attempt_def abind_def athen_def adone_def sc_refresh_def)

text \<open>What the filter makes of a name every object has: an empty list, or no page at all.\<close>

lemma filter_by_inherited_name:
  assumes "sc_screen (cw_console w) = SC_Filter"
  shows "filteredSubscriptions s No_Status = []" and "filter_choice ''constructor'' = Some No_Status"
    and "sc_screen (cw_console (sc_handleText ce ''valueOf'' w)) = SC_Crashed"
proof -
  have "filter_choice ''valueOf'' = Some No_Status" "throws_as_updater ''valueOf''" by code_simp+
  then show "sc_screen (cw_console (sc_handleText ce ''valueOf'' w)) = SC_Crashed"
    using assms by (simp add: sc_handleText_def on_filter_def)
  show "filter_choice ''constructor'' = Some No_Status" by code_simp
qed (simp add: filteredSubscriptions_def)

section \<open>Properties\<close>

text \<open>
  C7. What the console of subscriptions asks is what was meant: whatever conversation came before, a message makes it create a subscription
  only when it confirms a draft that has everything, with a duration of the list and an expiry date exactly for a custom one; cancel only when
  it confirms the question about the selected subscription; renew and reactivate only with a duration of the list, in the same way; and an
  edit never changes a password or a PIN.
\<close>

theorem subscription_requests_meant:
  assumes "(sc_step ce)\<^sup>*\<^sup>* (sc_world_of r) w" and "call \<in> set (drop (length (cw_ops w)) (cw_ops (sc_submit ce typed w)))"
  shows "meant (cw_console w) (trim typed) call"
proof -
  have inv: "sc_inv w" using sc.inv_run [OF assms(1) sc_start_inv] .
  have "on_data (asked (cw_ops w) (sc_may (cw_console w) (trim typed))) (sc_submit ce typed w)"
    by (rule asked.sc_submit_asks) (simp_all add: on_data_def sc_inv_edit [OF inv])
  then have "sc_may (cw_console w) (trim typed) call" using assms(2) unfolding on_data_def by (rule asked_new)
  with inv show ?thesis by (auto simp: sc_inv_def intro: may_meant)
qed

lemma reveal_run:
  assumes r: "serves ce p r" "plan_refs p" "Date_parse (md_serverTime (ce_demo ce)) = Some t"
    and us: "subscriptions_shown ce p = u # us" "sb_id u \<noteq> []"
  shows "\<exists>w. (sc_step ce)\<^sup>*\<^sup>* (sc_world_of r) w \<and>
    RevealSubscription (sb_id u) \<in> set (drop (length (cw_ops w)) (cw_ops (sc_submit ce ''2'' w)))"
proof -
  let ?w1 = "sc_load ce (sc_world_of r)"
  let ?w2 = "sc_submit ce ''1'' ?w1" let ?w3 = "sc_submit ce ''1'' ?w2"
  have texts: "trim ''1'' = ''1''" "trim ''2'' = ''2''" "parseInt ''1'' = Some 1" by code_simp+
  have "serves ce p (cw_repo (sc_world_of r))" using r(1) by (simp add: sc_world_of_def)
  note loads = sc_loads [OF this r(2,3)]
  have w1: "sc_subscriptions (cw_console ?w1) = u # us" "sc_screen (cw_console ?w1) = SC_Menu" "sc_filter (cw_console ?w1) = All_Statuses"
    "ready_for_input ?w1"
    using loads(1) loads(2-4) us(1) by (auto simp: ready_for_input_def sc_world_of_def initial_sc_def)
  then have w2: "sc_subscriptions (cw_console ?w2) = u # us" "sc_screen (cw_console ?w2) = SC_List" "sc_filter (cw_console ?w2) = All_Statuses"
    "sc_page (cw_console ?w2) = 0" "ready_for_input ?w2"
    by (simp_all add: sc_submit_def texts ready_for_input_def sc_handleText_def on_sc_menu_def sc_goList_def Let_def)
  have "selectedFrom (page_slice 0 (u # us)) ''1'' = Some u"
    by (simp add: selectedFrom_def texts page_slice_def slice_def CONSOLE_PAGE_SIZE_def js_at_def)
  then have w3: "sc_subscriptions (cw_console ?w3) = u # us" "sc_screen (cw_console ?w3) = SC_Detail" "sc_selectedId (cw_console ?w3) = Some (sb_id u)"
    "ready_for_input ?w3"
    using w2 by (simp_all add: sc_submit_def texts ready_for_input_def sc_handleText_def on_sc_list_def filteredSubscriptions_def Let_def)
  have "sc_submit ce ''2'' ?w3 = reveal ce (say User ''2'' ?w3)"
    using w3 by (simp add: sc_submit_def texts ready_for_input_def sc_handleText_def on_sc_detail_def sc_selected_def)
  then have "cw_ops (sc_submit ce ''2'' ?w3) = cw_ops ?w3 @ [RevealSubscription (sb_id u)]"
    using w3(3) us(2) by (simp add: reveal_def Let_def falsy_def with_busy_def attempt_def abind_def ask_reveal_def ask_def adone_def sc_fails_def
      split: prod.split sum.split)
  then have "RevealSubscription (sb_id u) \<in> set (drop (length (cw_ops ?w3)) (cw_ops (sc_submit ce ''2'' ?w3)))" by simp
  moreover have "(sc_step ce)\<^sup>*\<^sup>* (sc_world_of r) ?w3"
  proof -
    have "sc_step ce (sc_world_of r) ?w1" by (rule sc_loaded) (simp add: sc_world_of_def initial_sc_def)
    then show ?thesis by (meson sc_submitted rtranclp.rtrancl_into_rtrancl rtranclp.rtrancl_refl)
  qed
  ultimately show ?thesis by blast
qed

lemma sample_subscriptions:
  "plan_refs (baseline_lists sample_metadata)" "\<exists>t. Date_parse (md_serverTime (ce_demo sample_env)) = Some t"
  "\<exists>u us. subscriptions_shown sample_env (baseline_lists sample_metadata) = u # us \<and> sb_id u \<noteq> []"
proof -
  obtain r p where r: "workspace_ok sample_env r" "serves sample_env (baseline_lists sample_metadata) r" using sample_serves by blast
  then obtain p where p: "serves sample_env p r" "pro_inv p" using workspace_serves by blast
  then have "p = baseline_lists sample_metadata" using r(2) by (simp add: serves_def)
  then show "plan_refs (baseline_lists sample_metadata)" using p(2) by (simp add: pro_inv_def refs_ok_def)
  have "Date_parse (md_serverTime sample_metadata) \<noteq> None" by code_simp
  then show "\<exists>t. Date_parse (md_serverTime (ce_demo sample_env)) = Some t" by (simp add: sample_env_def)
  let ?us = "subscriptions_shown sample_env (baseline_lists sample_metadata)"
  have "subscriptions (baseline_lists sample_metadata) \<noteq> []" by (simp add: baseline_lists_def baseline_subscriptions_def subscription_rows_def)
  then have "?us \<noteq> []" by (metis shown_sets(4) image_mset_is_empty_iff mset_zero_iff)
  moreover have "sb_id u \<noteq> []" if "u \<in> set ?us" for u
  proof -
    have "u \<in> publicSubscription ` set (subscriptions (baseline_lists sample_metadata))"
      using that by (simp add: subscriptions_shown_def)
    then show ?thesis by (auto simp: baseline_lists_def baseline_subscriptions_def publicSubscription_def baseline_subscription_def)
  qed
  ultimately show "\<exists>u us. ?us = u # us \<and> sb_id u \<noteq> []" by (cases ?us) auto
qed

theorem subscription_requests_meant_witness:
  "\<exists>r w k. (sc_step sample_env)\<^sup>*\<^sup>* (sc_world_of r) w \<and> meant (cw_console w) ''2'' (RevealSubscription k)"
proof -
  obtain r where r: "serves sample_env (baseline_lists sample_metadata) r" using sample_serves by blast
  obtain t u us where t: "Date_parse (md_serverTime (ce_demo sample_env)) = Some t"
    "subscriptions_shown sample_env (baseline_lists sample_metadata) = u # us" "sb_id u \<noteq> []"
    using sample_subscriptions(2,3) by blast
  obtain w where w: "(sc_step sample_env)\<^sup>*\<^sup>* (sc_world_of r) w"
    "RevealSubscription (sb_id u) \<in> set (drop (length (cw_ops w)) (cw_ops (sc_submit sample_env ''2'' w)))"
    using reveal_run [OF r sample_subscriptions(1) t] by blast
  have "trim ''2'' = ''2''" by code_simp
  with subscription_requests_meant [OF w] w(1) show ?thesis by auto
qed

text \<open>
  Whatever is typed into the console of subscriptions, with reloads in between, the workspace keeps the consistency the data services
  promise, and the log has its messages numbered from one.
\<close>

theorem subscriptions_stay_in_order:
  assumes "(sc_step ce)\<^sup>*\<^sup>* (sc_world_of r) w" and "workspace_ok ce r"
  shows "workspace_ok ce (cw_repo w) \<and> map msg_id (cw_messages w) = [1..<Suc (length (cw_messages w))]"
proof -
  have "sc_orderly ce (sc_world_of r)"
    using assms(2) sc_start_inv by (simp add: sc_orderly_def on_data_def) (simp add: sc_world_of_def)
  from sc_workspace.inv_run [OF assms(1) this] show ?thesis
    by (simp add: sc_orderly_def on_data_def sc_inv_def numbered_def)
qed

theorem subscriptions_stay_in_order_witness:
  "\<exists>r. workspace_ok sample_env (cw_repo (sc_submit sample_env ''1'' (sc_load sample_env (sc_world_of r))))"
proof -
  obtain r where r: "workspace_ok sample_env r" using sample_serves by blast
  let ?w = "sc_load sample_env (sc_world_of r)"
  have "(sc_step sample_env)\<^sup>*\<^sup>* (sc_world_of r) (sc_submit sample_env ''1'' ?w)"
    by (rule sc.run_two [OF sc_loaded sc_submitted]) (simp add: sc_world_of_def initial_sc_def)
  from subscriptions_stay_in_order [OF this r] show ?thesis by blast
qed

text \<open>
  C18. The console shows the workspace: from a workspace in order, a load gives the clients of the workspace in their order, its
  services sorted by name and its subscriptions sorted by expiry, each row as often as it is there, and its plans (as a set, service
  by service); and every subscription on the screen is shown with the names of its client, its service and its plan,
  never as unknown.
\<close>

theorem load_shows_workspace:
  assumes "workspace_ok ce (cw_repo w)" and "Date_parse (md_serverTime (ce_demo ce)) = Some t"
  shows "\<exists>p. pro_view (ce_demo ce) (cw_repo (sc_load ce w)) = Some p \<and> mirrors p (cw_console (sc_load ce w)) \<and>
    sc_services (cw_console (sc_load ce w)) =
      sortByName (en_collate_base (ce_around ce)) (en_collate (ce_around ce)) sv_name sv_created_at (services p) \<and>
    sc_subscriptions (cw_console (sc_load ce w)) =
      js_sort (\<lambda>a b. en_collate (ce_around ce) (sb_expires_at a) (sb_expires_at b)) (map publicSubscription (subscriptions p)) \<and>
    list_all (named ce (cw_console (sc_load ce w))) (sc_subscriptions (cw_console (sc_load ce w)))"
proof -
  obtain p where p: "serves ce p (cw_repo w)" "pro_inv p" using workspace_serves [OF assms(1)] by blast
  have refs: "refs_ok p" "plan_refs p" using p(2) by (simp_all add: pro_inv_def refs_ok_def)
  note loads = sc_loads [OF p(1) refs(2) assms(2)]
  obtain ps where ps: "cw_console (sc_load ce w) = (cw_console w)\<lparr>sc_clients := clients p, sc_services := services_shown ce p, sc_plans := ps,
      sc_subscriptions := subscriptions_shown ce p\<rparr>" "set ps = set (plans p)" using loads(1) by blast
  have shown: "mirrors p (cw_console (sc_load ce w))" unfolding ps(1) mirrors_def by (simp add: ps(2))
  moreover have "list_all (named ce (cw_console (sc_load ce w))) (sc_subscriptions (cw_console (sc_load ce w)))"
    unfolding list_all_iff using mirrors_named [OF shown refs(1)] by blast
  moreover have "sc_services (cw_console (sc_load ce w)) = services_shown ce p"
    "sc_subscriptions (cw_console (sc_load ce w)) = subscriptions_shown ce p" unfolding ps(1) by simp_all
  ultimately show ?thesis using loads(6) unfolding services_shown_def subscriptions_shown_def by blast
qed

theorem load_shows_workspace_witness:
  "\<exists>r p. workspace_ok sample_env r \<and> mirrors p (cw_console (sc_load sample_env (sc_world_of r)))"
proof -
  obtain r where r: "workspace_ok sample_env r" using sample_serves by blast
  obtain t where "Date_parse (md_serverTime (ce_demo sample_env)) = Some t" using sample_subscriptions(2) by blast
  from load_shows_workspace [OF _ this, of "sc_world_of r"] r show ?thesis by (auto simp: sc_world_of_def)
qed

text \<open>
  The number beside a subscription opens it: with the list on the screen, on any page and under any filter, typing the number of a line
  selects the subscription of that line and shows its details.
\<close>

theorem number_opens_shown:
  assumes "ready_for_input w" and "sc_screen (cw_console w) = SC_List"
    and "i < length (page_slice (sc_page (cw_console w)) (filteredSubscriptions (cw_console w) (sc_filter (cw_console w))))"
  shows "let u = page_slice (sc_page (cw_console w)) (filteredSubscriptions (cw_console w) (sc_filter (cw_console w))) ! i;
             v = sc_submit ce (nat_to_string (i + 1)) w in
    sc_screen (cw_console v) = SC_Detail \<and> sc_selectedId (cw_console v) = Some (sb_id u) \<and>
    u = filteredSubscriptions (cw_console w) (sc_filter (cw_console w)) ! (sc_page (cw_console w) * 4 + i) \<and>
    msg_text (last (cw_messages v)) = sc_detailText ce (cw_console w) u"
proof -
  let ?s = "cw_console w"
  let ?us = "filteredSubscriptions ?s (sc_filter ?s)"
  let ?shown = "page_slice (sc_page ?s) ?us"
  have four: "length ?shown \<le> 4" by (simp add: page_slice_def CONSOLE_PAGE_SIZE_def slice_def)
  have number: "nat_to_string (i + 1) \<noteq> ''0''" "nat_to_string (i + 1) \<noteq> ''8''" "nat_to_string (i + 1) \<noteq> ''9''"
    using assms(3) four nat_to_string_eq_0 nat_to_string_eq_8 nat_to_string_eq_9 by auto
  have "selectedFrom ?shown (nat_to_string (i + 1)) = Some (?shown ! i)"
    using assms(3) by (simp add: selectedFrom_def js_at_def)
  then have "sc_submit ce (nat_to_string (i + 1)) w = (let v = say User (nat_to_string (i + 1)) w in
      seq [setc (\<lambda>s. s\<lparr>sc_selectedId := Some (sb_id (?shown ! i)), sc_screen := SC_Detail\<rparr>), bot (sc_detailText ce ?s (?shown ! i))] v)"
    using assms(1,2) number by (simp add: sc_submit_def ready_for_input_def sc_handleText_def on_sc_list_def Let_def)
  moreover have "?shown ! i = ?us ! (sc_page ?s * 4 + i)"
    using assms(3) unfolding page_slice_def by (simp add: slice_nth CONSOLE_PAGE_SIZE_def)
  ultimately show ?thesis by (simp add: Let_def append_message_def)
qed

theorem number_opens_shown_witness:
  "\<exists>u. sc_selectedId (cw_console (sc_submit sample_env (nat_to_string 1) ((sc_world_of sample_repo)\<lparr>cw_loading := False,
     cw_console := initial_sc\<lparr>sc_screen := SC_List, sc_subscriptions := [u]\<rparr>\<rparr>))) = Some (sb_id u)"
proof -
  fix u :: Subscription
  let ?w = "(sc_world_of sample_repo)\<lparr>cw_loading := False, cw_console := initial_sc\<lparr>sc_screen := SC_List, sc_subscriptions := [u]\<rparr>\<rparr>"
  have "ready_for_input ?w" "sc_screen (cw_console ?w) = SC_List" by (simp_all add: ready_for_input_def sc_world_of_def)
  moreover have "page_slice (sc_page (cw_console ?w)) (filteredSubscriptions (cw_console ?w) (sc_filter (cw_console ?w))) = [u]"
    by (simp add: initial_sc_def filteredSubscriptions_def page_slice_def slice_def CONSOLE_PAGE_SIZE_def)
  ultimately show ?thesis using number_opens_shown [of ?w 0 sample_env] by (auto simp: Let_def)
qed

end
