(* ===== verification/Simulator.thy ===== *)
theory Simulator
  imports ChatLog "HOL-Library.Word"
begin

text \<open>
  The access-code conversation of the demo WhatsApp simulator,
  \<^verbatim>\<open>frontend/src/features/demo/services/simulator-machine.ts\<close>: a user asks for a code, picks a
  service by number, gives the mail address, waits for the search and receives a six-digit code.
  The state is the record \<open>SimulatorState\<close>, one definition per function of the file;
  \<open>transitionSimulator\<close> keeps the order of the guards of the source.
\<close>

record SimulatorService =
  sim_service_id :: string
  sim_service_name :: string

text \<open>The texts are parameters; the three optional ones are \<open>None\<close> when absent.\<close>

record SimulatorCopy =
  sim_welcome :: string
  sim_servicePrompt :: "string \<Rightarrow> string"
  sim_emptyServices :: string
  sim_invalidService :: string
  sim_emailPrompt :: "string \<Rightarrow> string"
  sim_invalidEmail :: string
  sim_searching :: string
  sim_codeFound :: "string \<Rightarrow> string \<Rightarrow> string"
  sim_invalidStart :: string
  sim_busy :: string
  sim_cancelled :: "string option"
  sim_back :: "string option"
  sim_invalidNavigation :: "string option"

datatype SimulatorStep = SimIdle | SimService | SimEmail | SimProcessing | SimComplete | SimEmpty

record SimulatorState =
  sim_step :: SimulatorStep
  sim_services :: "SimulatorService list"
  sim_selectedService :: "SimulatorService option"
  sim_email :: "string option"
  sim_code :: "string option"
  sim_messages :: "chat_message list"

datatype SimulatorEvent = SimMessage string | SimProcessingComplete | SimBack | SimReset

section \<open>Operations\<close>

definition sim_appendMessage :: "SimulatorState \<Rightarrow> chat_role \<Rightarrow> string \<Rightarrow> SimulatorState" where
  "sim_appendMessage s r t = s\<lparr>sim_messages := push_message (sim_messages s) r t\<rparr>"

definition normalizeCommand :: "string \<Rightarrow> string" where
  "normalizeCommand v = (let normalized = map strip_accent (toLowerCase (trim v)) in
     if normalized = ''codigo'' then ''code'' else normalized)"

definition formatServices :: "SimulatorService list \<Rightarrow> string" where
  "formatServices services = join (CHR 0x0A # [])
     (map_numbered (\<lambda>n service. nat_to_string n @ ''. '' @ sim_service_name service) services)"

definition isValidSimulatorEmail :: "string \<Rightarrow> bool" where
  "isValidSimulatorEmail v = email_pattern (trim v)"

text \<open>One round of the hash loop: \<open>(hash * 31 + charCode) >>> 0\<close> is 32-bit arithmetic.\<close>

definition hash_step :: "32 word \<Rightarrow> char \<Rightarrow> 32 word" where
  "hash_step hash c = hash * 31 + word_of_nat (code c)"

definition generateFictitiousCode :: "string \<Rightarrow> string \<Rightarrow> string" where
  "generateFictitiousCode serviceId email =
     (let hash = foldl hash_step 7 (serviceId @ '':'' @ toLowerCase email)
      in padStart0 6 (nat_to_string (unat hash mod 1000000)))"

definition createSimulatorState :: "SimulatorService list \<Rightarrow> SimulatorCopy \<Rightarrow> SimulatorState" where
  "createSimulatorState services copy =
     \<lparr>sim_step = SimIdle, sim_services = services, sim_selectedService = None, sim_email = None,
      sim_code = None, sim_messages = [\<lparr>msg_id = 1, msg_role = Bot, msg_text = sim_welcome copy\<rparr>]\<rparr>"

definition sim_backStep :: "SimulatorState \<Rightarrow> SimulatorCopy \<Rightarrow> SimulatorState" where
  "sim_backStep s copy =
     (if sim_step s = SimEmail then
        (sim_appendMessage s Bot (sim_servicePrompt copy (formatServices (sim_services s))))
          \<lparr>sim_step := SimService, sim_selectedService := None, sim_email := None, sim_code := None\<rparr>
      else if sim_step s \<in> {SimService, SimComplete, SimEmpty} then
        (sim_appendMessage s Bot (nullish (sim_back copy) (sim_invalidStart copy)))
          \<lparr>sim_step := SimIdle, sim_selectedService := None, sim_email := None, sim_code := None\<rparr>
      else s)"

definition sim_processingComplete :: "SimulatorState \<Rightarrow> SimulatorCopy \<Rightarrow> SimulatorState" where
  "sim_processingComplete s copy =
     (if sim_step s \<noteq> SimProcessing then s
      else (case sim_selectedService s of
        None \<Rightarrow> s
      | Some service \<Rightarrow>
          (if falsy (sim_email s) then s
           else (let c = generateFictitiousCode (sim_service_id service) (the (sim_email s)) in
             sim_appendMessage (s\<lparr>sim_step := SimComplete, sim_code := Some c\<rparr>) Bot
               (sim_codeFound copy (sim_service_name service) c)))))"

definition sim_onMessage :: "SimulatorState \<Rightarrow> string \<Rightarrow> SimulatorCopy \<Rightarrow> SimulatorState" where
  "sim_onMessage s raw copy =
     (let t = trim raw; withUserMessage = sim_appendMessage s User t in
      if sim_step s = SimProcessing then sim_appendMessage withUserMessage Bot (sim_busy copy)
      else if t = ''0'' then
        (sim_appendMessage withUserMessage Bot (nullish (sim_cancelled copy) (sim_invalidStart copy)))
          \<lparr>sim_step := SimIdle, sim_selectedService := None, sim_email := None, sim_code := None\<rparr>
      else if sim_step s = SimService \<and> t = ''8'' then
        sim_appendMessage withUserMessage Bot (nullish (sim_invalidNavigation copy) (sim_invalidService copy))
      else if sim_step s \<in> {SimIdle, SimComplete, SimEmpty} then
        (if normalizeCommand t \<noteq> ''code'' then
           sim_appendMessage withUserMessage Bot (sim_invalidStart copy)
         else if sim_services s = [] then
           (sim_appendMessage withUserMessage Bot (sim_emptyServices copy))\<lparr>sim_step := SimEmpty\<rparr>
         else
           (sim_appendMessage withUserMessage Bot
              (sim_servicePrompt copy (formatServices (sim_services s))))
             \<lparr>sim_step := SimService, sim_selectedService := None, sim_email := None, sim_code := None\<rparr>)
      else if sim_step s = SimService then
        (case (case parseInt t of None \<Rightarrow> None
               | Some n \<Rightarrow> if n - 1 \<ge> 0 then js_at (sim_services s) (nat (n - 1)) else None) of
           None \<Rightarrow> sim_appendMessage withUserMessage Bot (sim_invalidService copy)
         | Some service \<Rightarrow>
             (sim_appendMessage withUserMessage Bot (sim_emailPrompt copy (sim_service_name service)))
               \<lparr>sim_step := SimEmail, sim_selectedService := Some service, sim_email := None,
                sim_code := None\<rparr>)
      else if sim_step s = SimEmail then
        (if \<not> isValidSimulatorEmail t then
           sim_appendMessage withUserMessage Bot (sim_invalidEmail copy)
         else
           (sim_appendMessage withUserMessage Bot (sim_searching copy))
             \<lparr>sim_step := SimProcessing, sim_email := Some (toLowerCase t), sim_code := None\<rparr>)
      else withUserMessage)"

fun transitionSimulator :: "SimulatorState \<Rightarrow> SimulatorEvent \<Rightarrow> SimulatorCopy \<Rightarrow> SimulatorState" where
  "transitionSimulator s SimReset copy = createSimulatorState (sim_services s) copy"
| "transitionSimulator s SimBack copy = sim_backStep s copy"
| "transitionSimulator s SimProcessingComplete copy = sim_processingComplete s copy"
| "transitionSimulator s (SimMessage raw) copy = sim_onMessage s raw copy"

abbreviation sim_run :: "SimulatorCopy \<Rightarrow> SimulatorState \<Rightarrow> SimulatorEvent list \<Rightarrow> SimulatorState" where
  "sim_run copy \<equiv> chat_run (\<lambda>s e. transitionSimulator s e copy)"

lemmas sim_defs =
  sim_backStep_def sim_processingComplete_def sim_onMessage_def createSimulatorState_def

section \<open>The log\<close>

lemma sim_appendMessage_fields [simp]:
  "sim_step (sim_appendMessage s r t) = sim_step s"
  "sim_services (sim_appendMessage s r t) = sim_services s"
  "sim_selectedService (sim_appendMessage s r t) = sim_selectedService s"
  "sim_email (sim_appendMessage s r t) = sim_email s"
  "sim_code (sim_appendMessage s r t) = sim_code s"
  "sim_messages (sim_appendMessage s r t) = push_message (sim_messages s) r t"
  by (simp_all add: sim_appendMessage_def)

lemma sim_welcome_log: "[\<lparr>msg_id = Suc 0, msg_role = r, msg_text = t\<rparr>] = push_message [] r t"
  by (simp add: push_message_def nextMessageId_def)

lemma transitionSimulator_log:
  "extends_log (sim_messages s) (sim_messages (transitionSimulator s e copy))"
proof (cases e)
  case (SimMessage raw)
  then show ?thesis
    by (auto simp: sim_onMessage_def Let_def chat_simps split: option.splits)
qed (auto simp: sim_defs Let_def sim_welcome_log chat_simps split: option.splits)

interpretation sim_chat: chat_machine sim_messages
  "\<lambda>s. \<exists>services. s = createSimulatorState services copy"
  "\<lambda>s e. transitionSimulator s e copy" for copy
proof
  fix s
  assume "\<exists>services. s = createSimulatorState services copy"
  then show "numbered (sim_messages s) \<and> sim_messages s \<noteq> []"
    by (auto simp: createSimulatorState_def numbered_def)
qed (rule transitionSimulator_log)

section \<open>The invariant\<close>

text \<open>
  What the later steps rely on: from the mail step on, a service of the list is selected; while
  the search runs, the address is a valid, trimmed, lower-case one; after it, the code shown is
  the one computed from the selected service and the address.
\<close>

definition sim_inv :: "SimulatorState \<Rightarrow> bool" where
  "sim_inv s \<longleftrightarrow>
     (sim_step s \<in> {SimEmail, SimProcessing, SimComplete} \<longrightarrow>
        (\<exists>service \<in> set (sim_services s). sim_selectedService s = Some service)) \<and>
     (sim_step s \<in> {SimProcessing, SimComplete} \<longrightarrow>
        (\<exists>email. sim_email s = Some email \<and> isValidSimulatorEmail email \<and> trim email = email \<and>
           toLowerCase email = email)) \<and>
     (sim_step s = SimComplete \<longrightarrow>
        sim_code s = Some (generateFictitiousCode (sim_service_id (the (sim_selectedService s)))
                             (the (sim_email s)))) \<and>
     (sim_step s \<in> {SimService, SimEmail, SimProcessing} \<longrightarrow> sim_code s = None) \<and>
     (sim_step s \<in> {SimService, SimEmail} \<longrightarrow> sim_email s = None) \<and>
     (sim_step s = SimEmpty \<longrightarrow> sim_services s = [])"

lemma isValidSimulatorEmail_lower:
  "isValidSimulatorEmail t \<Longrightarrow> isValidSimulatorEmail (toLowerCase t)"
  by (simp add: isValidSimulatorEmail_def email_pattern_toLowerCase)

lemma isValidSimulatorEmail_not_Nil: "isValidSimulatorEmail e \<Longrightarrow> e \<noteq> []"
  by (auto simp: isValidSimulatorEmail_def email_pattern_def)

lemma sim_inv_create: "sim_inv (createSimulatorState services copy)"
  by (simp add: sim_inv_def createSimulatorState_def)

lemma sim_inv_back: "sim_inv s \<Longrightarrow> sim_inv (sim_backStep s copy)"
  by (auto simp: sim_inv_def sim_backStep_def)

lemma sim_inv_processing: "sim_inv s \<Longrightarrow> sim_inv (sim_processingComplete s copy)"
proof (cases "sim_step s = SimProcessing")
  case True
  assume inv: "sim_inv s"
  from inv True obtain service email where "service \<in> set (sim_services s)"
      "sim_selectedService s = Some service" "sim_email s = Some email"
      "isValidSimulatorEmail email" "trim email = email" "toLowerCase email = email"
    by (auto simp: sim_inv_def)
  with True show ?thesis
    by (simp add: sim_inv_def sim_processingComplete_def Let_def isValidSimulatorEmail_not_Nil)
qed (simp add: sim_processingComplete_def)

lemma sim_inv_onMessage:
  assumes "sim_inv s"
  shows "sim_inv (sim_onMessage s raw copy)"
  using assms
  by (cases "sim_step s")
    (auto simp: sim_inv_def sim_onMessage_def Let_def isValidSimulatorEmail_lower
      split: option.splits dest: js_at_SomeD)

lemma sim_inv_transition: "sim_inv s \<Longrightarrow> sim_inv (transitionSimulator s e copy)"
  by (cases e) (simp_all add: sim_inv_create sim_inv_back sim_inv_processing sim_inv_onMessage)

lemma sim_inv_run: "sim_inv s \<Longrightarrow> sim_inv (sim_run copy s es)"
  by (induction es arbitrary: s) (auto simp: sim_inv_transition)

lemma sim_services_transition [simp]:
  "sim_services (transitionSimulator s e copy) = sim_services s"
  by (cases e) (auto simp: sim_defs Let_def split: option.splits)

lemma sim_step_start:
  assumes "sim_step s = SimIdle" "sim_services s \<noteq> []" "normalizeCommand (trim raw) = ''code''"
    "trim raw \<noteq> ''0''"
  shows "sim_step (sim_onMessage s raw copy) = SimService"
    "sim_services (sim_onMessage s raw copy) = sim_services s"
  using assms by (simp_all add: sim_onMessage_def Let_def)

lemma sim_step_choose:
  assumes "sim_step s = SimService" "k < length (sim_services s)" "k \<noteq> 7"
  shows "sim_step (sim_onMessage s (nat_to_string (k + 1)) copy) = SimEmail"
    "sim_selectedService (sim_onMessage s (nat_to_string (k + 1)) copy) = Some (sim_services s ! k)"
  using assms
  by (simp_all add: sim_onMessage_def Let_def nat_to_string_eq_0 nat_to_string_eq_8)

lemma sim_step_email:
  assumes "sim_step s = SimEmail" "isValidSimulatorEmail raw" "trim raw \<noteq> ''0''"
  shows "sim_step (sim_onMessage s raw copy) = SimProcessing"
    "sim_selectedService (sim_onMessage s raw copy) = sim_selectedService s"
    "sim_email (sim_onMessage s raw copy) = Some (toLowerCase (trim raw))"
  using assms by (simp_all add: sim_onMessage_def Let_def isValidSimulatorEmail_def)

definition sample_simulator_copy :: SimulatorCopy where
  "sample_simulator_copy = \<lparr>sim_welcome = ''Send code'', sim_servicePrompt = (\<lambda>s. ''Which service? '' @ s),
     sim_emptyServices = ''No service'', sim_invalidService = ''Choose a number'',
     sim_emailPrompt = (\<lambda>s. ''Mail for '' @ s), sim_invalidEmail = ''Invalid mail'',
     sim_searching = ''Searching'', sim_codeFound = (\<lambda>s c. s @ '': '' @ c),
     sim_invalidStart = ''Send code to start'', sim_busy = ''Please wait'', sim_cancelled = None,
     sim_back = None, sim_invalidNavigation = None\<rparr>"

section \<open>Properties\<close>

text \<open>
  C1. Every state the simulator reaches, whatever the user types and however the events
  interleave, satisfies the invariant: a service of the list is selected from the mail step on,
  the address under search is valid, and the code shown is the one computed for them.
\<close>

theorem simulator_invariant:
  "sim_inv (sim_run copy (createSimulatorState services copy) es)"
  by (rule sim_inv_run) (rule sim_inv_create)

text \<open>
  The identifiers of the messages shown are 1, 2, 3, ... in every reachable state, so the
  React keys built from them never collide.
\<close>

theorem simulator_message_ids:
  "map msg_id (sim_messages (sim_run copy (createSimulatorState services copy) es)) =
     [1..<Suc (length (sim_messages (sim_run copy (createSimulatorState services copy) es)))]"
  by (rule sim_chat.reachable_ids) blast

text \<open>
  C3. The fictitious code is always exactly six decimal digits, and its value is the 32-bit hash
  of the service and the address modulo a million.
\<close>

theorem fictitious_code_six_digits:
  "length (generateFictitiousCode serviceId email) = 6 \<and>
   list_all is_digit (generateFictitiousCode serviceId email) \<and>
   digits_value (generateFictitiousCode serviceId email) =
     unat (foldl hash_step 7 (serviceId @ '':'' @ toLowerCase email)) mod 1000000"
proof -
  let ?n = "unat (foldl hash_step 7 (serviceId @ '':'' @ toLowerCase email)) mod 1000000"
  have "?n < 10 ^ 6" by simp
  then have "length (nat_to_string ?n) \<le> 6" by (intro length_nat_to_string_less) simp_all
  then show ?thesis
    by (simp add: generateFictitiousCode_def length_padStart0 padStart0_digits nat_to_string_digits)
qed



end
