(* ===== verification/UtilityConsole.thy ===== *)
theory UtilityConsole
  imports StepRuns ConsoleText Simulator
begin

text \<open>
  The smaller consoles of the demo's tenant (\<open>features/demo/components/tenant-utility-console-experience.tsx\<close>): the profile, the blocked
  numbers, the help, and the lookup of an access code, which runs the machine of \<open>Simulator\<close>. The main results: what each may ask the
  data source, and that it leaves the workspace in order; an edited profile and a blocked number come back as they were typed; the
  error under the input of the code lookup says what the machine does, as long as there are at most seven services.
\<close>

section \<open>The profile\<close>

datatype profile_screen = Profile_Menu | Profile_Edit_Fields | Profile_Edit_Value

datatype profile_field = Edit_FullName | Edit_Phone

record profile_state =
  ps_screen :: profile_screen
  ps_profile :: "Profile option"
  ps_field :: "profile_field option"

type_synonym profile_world = "profile_state console_world"

definition profile_world_of :: "DemoWorkspaceRepository \<Rightarrow> profile_world" where
  "profile_world_of r = \<lparr> cw_console = \<lparr>ps_screen = Profile_Menu, ps_profile = None, ps_field = None\<rparr>, cw_messages = [], cw_busy = False,
     cw_loading = True, cw_loadError = False, cw_repo = r, cw_calls = [], cw_ops = [] \<rparr>"

text \<open>A menu: a title, the choices, and the way out.\<close>

definition two_choices :: "console_env \<Rightarrow> string \<Rightarrow> string \<Rightarrow> string \<Rightarrow> string" where
  "two_choices ce title a b = title @ nl @ nl @ ''1. '' @ a @ nl @ ''2. '' @ b @ nl @ nl @ join nl (back_cancel ce)"

definition profileValue :: "string option \<Rightarrow> string" where
  "profileValue v = (if falsy (map_option trim v) then EM_DASH else trim (the v))"

definition profileMenu :: "console_env \<Rightarrow> string" where
  "profileMenu ce = two_choices ce (sim ce ''profile_menu'' []) (sim ce ''profile_view'' []) (sim ce ''profile_edit'' [])"

definition profileDetail :: "console_env \<Rightarrow> Profile \<Rightarrow> string" where
  "profileDetail ce p = sim ce ''profile_detail'' [(''username'', pr_username p),
     (''name'', profileValue (case pr_full_name p of None \<Rightarrow> pr_name p | Some n \<Rightarrow> Some n)), (''phone'', profileValue (pr_phone p))]"

definition editFields :: "console_env \<Rightarrow> string" where
  "editFields ce = two_choices ce (sim ce ''profile_edit_fields'' []) (tr ce ''frontend.profile.full_name'' []) (tr ce ''frontend.profile.phone'' [])"

definition profile_field_name :: "profile_field \<Rightarrow> string" where
  "profile_field_name f = (case f of Edit_FullName \<Rightarrow> ''full_name'' | Edit_Phone \<Rightarrow> ''phone'')"

definition fieldPrompt :: "console_env \<Rightarrow> profile_field \<Rightarrow> string" where
  "fieldPrompt ce f = sim ce (''profile_edit_'' @ profile_field_name f) []"

definition profile_load :: "console_env \<Rightarrow> profile_world \<Rightarrow> profile_world" where
  "profile_load ce w0 = (let w = w0\<lparr>cw_loadError := False\<rparr> in
     (case ask_profile ce w of
        (Inr p, w') \<Rightarrow> (setc (\<lambda>s. s\<lparr>ps_profile := Some p\<rparr>) w')\<lparr>cw_messages := [\<lparr>msg_id = 1, msg_role = Bot, msg_text = profileMenu ce\<rparr>],
          cw_loading := False\<rparr>
      | (Inl _, w') \<Rightarrow> w'\<lparr>cw_loadError := True, cw_loading := False\<rparr>))"

definition goBackFromProfile :: "console_env \<Rightarrow> profile_world \<Rightarrow> profile_world" where
  "goBackFromProfile ce w = (case ps_screen (cw_console w) of
     Profile_Menu \<Rightarrow> tell [OnBack] w
   | Profile_Edit_Fields \<Rightarrow> seq [setc (\<lambda>s. s\<lparr>ps_screen := Profile_Menu\<rparr>), bot (profileMenu ce)] w
   | Profile_Edit_Value \<Rightarrow> seq [setc (\<lambda>s. s\<lparr>ps_screen := Profile_Edit_Fields\<rparr>), bot (editFields ce)] w)"

definition field_payload :: "profile_field \<Rightarrow> string \<Rightarrow> ProfileUpdate" where
  "field_payload f txt = (let none = \<lparr>pu_full_name = None, pu_email = None, pu_phone = None, pu_name = None\<rparr> in
     case f of Edit_FullName \<Rightarrow> none\<lparr>pu_full_name := Some txt\<rparr> | Edit_Phone \<Rightarrow> none\<lparr>pu_phone := Some txt\<rparr>)"

definition on_profile_value :: "console_env \<Rightarrow> string \<Rightarrow> profile_world \<Rightarrow> profile_world" where
  "on_profile_value ce txt w = (case ps_field (cw_console w) of None \<Rightarrow> w
   | Some f \<Rightarrow> with_busy (abind (ask_updateProfile ce (field_payload f txt)) (\<lambda>updated. adone (seq [
         setc (\<lambda>s. s\<lparr>ps_profile := Some updated, ps_screen := Profile_Menu, ps_field := None\<rparr>), tell [OnChanged],
         bot (sim ce ''profile_updated'' [] @ nl @ nl @ profileMenu ce)])))
       (\<lambda>err. seq [bot (sim ce ''profile_error'' []), bot (fieldPrompt ce f)]) w)"

definition on_profile_message :: "console_env \<Rightarrow> Profile \<Rightarrow> string \<Rightarrow> profile_world \<Rightarrow> profile_world" where
  "on_profile_message ce p txt w = (case ps_screen (cw_console w) of
     Profile_Menu \<Rightarrow>
       if txt = ''1'' then bot (profileDetail ce p) w
       else if txt = ''2'' then seq [setc (\<lambda>s. s\<lparr>ps_screen := Profile_Edit_Fields\<rparr>), bot (editFields ce)] w
       else bot (sim ce ''invalid_navigation'' []) w
   | Profile_Edit_Fields \<Rightarrow>
       (case map_of [(''1'', Edit_FullName), (''2'', Edit_Phone)] txt of None \<Rightarrow> bot (sim ce ''invalid_navigation'' []) w
        | Some f \<Rightarrow> seq [setc (\<lambda>s. s\<lparr>ps_field := Some f, ps_screen := Profile_Edit_Value\<rparr>), bot (fieldPrompt ce f)] w)
   | Profile_Edit_Value \<Rightarrow> on_profile_value ce txt w)"

text \<open>The form is there once the profile is loaded, and not after a failure.\<close>

definition profile_submit :: "console_env \<Rightarrow> string \<Rightarrow> profile_world \<Rightarrow> profile_world" where
  "profile_submit ce typed w = (let txt = trim typed in
     if txt = [] \<or> \<not> ready_for_input w then w
     else let v = say User txt w in
       if txt = ''0'' then tell [OnCancel] v
       else if txt = ''9'' then goBackFromProfile ce v
       else (case ps_profile (cw_console v) of None \<Rightarrow> v | Some p \<Rightarrow> on_profile_message ce p txt v))"

section \<open>The blocked numbers\<close>

datatype access_screen = Access_Menu | Access_List | Access_Block

record access_state =
  as_screen :: access_screen
  as_blocks :: "AccessControlBlock list"

type_synonym access_world = "access_state console_world"

definition access_world_of :: "DemoWorkspaceRepository \<Rightarrow> access_world" where
  "access_world_of r = \<lparr> cw_console = \<lparr>as_screen = Access_Menu, as_blocks = []\<rparr>, cw_messages = [], cw_busy = False,
     cw_loading = True, cw_loadError = False, cw_repo = r, cw_calls = [], cw_ops = [] \<rparr>"

definition accessMenu :: "console_env \<Rightarrow> string" where
  "accessMenu ce = two_choices ce (sim ce ''access_control_menu'' []) (sim ce ''access_control_list'' []) (sim ce ''access_control_block'' [])"

definition block_label :: "AccessControlBlock \<Rightarrow> string" where
  "block_label b = (case ab_phone b of Some p \<Rightarrow> p | None \<Rightarrow> nullish (ab_whatsapp_lid b) EM_DASH)"

definition blockList :: "console_env \<Rightarrow> AccessControlBlock list \<Rightarrow> string" where
  "blockList ce bs = (
     if bs = [] then sim ce ''access_control_empty'' [] @ nl @ nl @ join nl (back_cancel ce)
     else sim ce ''access_control_list'' [] @ nl @ nl @ join nl (map_numbered (\<lambda>n b. nat_to_string n @ ''. '' @ block_label b) bs) @ nl @ nl @
       sim ce ''access_control_unblock_prompt'' [] @ nl @ join nl (back_cancel ce))"

definition access_load :: "console_env \<Rightarrow> access_world \<Rightarrow> access_world" where
  "access_load ce w0 = (let w = w0\<lparr>cw_loadError := False\<rparr> in
     (case ask_blocks ce w of
        (Inr bs, w') \<Rightarrow> (setc (\<lambda>s. s\<lparr>as_blocks := bs\<rparr>) w')\<lparr>cw_messages := [\<lparr>msg_id = 1, msg_role = Bot, msg_text = accessMenu ce\<rparr>],
          cw_loading := False\<rparr>
      | (Inl _, w') \<Rightarrow> w'\<lparr>cw_loadError := True, cw_loading := False\<rparr>))"

definition goBackFromAccessControl :: "console_env \<Rightarrow> access_world \<Rightarrow> access_world" where
  "goBackFromAccessControl ce w = (
     if as_screen (cw_console w) = Access_Menu then tell [OnBack] w
     else seq [setc (\<lambda>s. s\<lparr>as_screen := Access_Menu\<rparr>), bot (accessMenu ce)] w)"

definition on_unblock :: "console_env \<Rightarrow> string \<Rightarrow> access_world \<Rightarrow> access_world" where
  "on_unblock ce txt w = (
     case (case parseInt txt of None \<Rightarrow> None
           | Some n \<Rightarrow> if n > 0 then js_at (as_blocks (cw_console w)) (nat n - 1) else None) of
       None \<Rightarrow> bot (sim ce ''invalid_navigation'' []) w
     | Some b \<Rightarrow> with_busy (athen (ask_deleteBlock ce (ab_id b)) (abind (ask_blocks ce) (\<lambda>bs. adone (seq [
           setc (\<lambda>s. s\<lparr>as_blocks := bs\<rparr>), tell [OnChanged], bot (sim ce ''access_control_unblocked'' [] @ nl @ nl @ blockList ce bs)]))))
         (\<lambda>err. bot (sim ce ''access_control_error'' [])) w)"

definition on_block :: "console_env \<Rightarrow> string \<Rightarrow> access_world \<Rightarrow> access_world" where
  "on_block ce txt w = with_busy (abind (ask_createBlock ce txt) (\<lambda>_. abind (ask_blocks ce) (\<lambda>bs. adone (seq [
         setc (\<lambda>s. s\<lparr>as_blocks := bs, as_screen := Access_Menu\<rparr>), tell [OnChanged],
         bot (sim ce ''access_control_blocked'' [] @ nl @ nl @ accessMenu ce)]))))
       (\<lambda>err. seq [bot (if error_text err = ''access_block_duplicate'' then sim ce ''access_control_duplicate'' []
           else sim ce ''access_control_error'' []),
         bot (sim ce ''access_control_block_prompt'' [])]) w"

definition on_access_message :: "console_env \<Rightarrow> string \<Rightarrow> access_world \<Rightarrow> access_world" where
  "on_access_message ce txt w = (case as_screen (cw_console w) of
     Access_Menu \<Rightarrow>
       if txt = ''1'' then seq [setc (\<lambda>s. s\<lparr>as_screen := Access_List\<rparr>), bot (blockList ce (as_blocks (cw_console w)))] w
       else if txt = ''2'' then seq [setc (\<lambda>s. s\<lparr>as_screen := Access_Block\<rparr>), bot (sim ce ''access_control_block_prompt'' [])] w
       else bot (sim ce ''invalid_navigation'' []) w
   | Access_List \<Rightarrow> on_unblock ce txt w
   | Access_Block \<Rightarrow> on_block ce txt w)"

definition access_submit :: "console_env \<Rightarrow> string \<Rightarrow> access_world \<Rightarrow> access_world" where
  "access_submit ce typed w = (let txt = trim typed in
     if txt = [] \<or> \<not> ready_for_input w then w
     else let v = say User txt w in
       if txt = ''0'' then tell [OnCancel] v
       else if txt = ''9'' then goBackFromAccessControl ce v
       else on_access_message ce txt v)"

section \<open>The help\<close>

definition help_messages :: "console_env \<Rightarrow> chat_message list" where
  "help_messages ce = [\<lparr>msg_id = 1, msg_role = Bot, msg_text = sim ce ''help_text'' [] @ nl @ nl @ join nl (back_cancel ce)\<rparr>]"

definition help_submit :: "string \<Rightarrow> console_call list" where
  "help_submit typed = (let txt = trim typed in
     if txt = [] then [] else if txt = ''0'' then [OnCancel] else if txt = ''9'' then [OnBack] else [])"

section \<open>The lookup of an access code\<close>

definition code_copy :: "console_env \<Rightarrow> string \<Rightarrow> SimulatorCopy" where
  "code_copy ce welcome = \<lparr>
     sim_welcome = sim ce welcome [],
     sim_servicePrompt = (\<lambda>services. sim ce ''service_prompt'' [(''services'', services)]),
     sim_emptyServices = sim ce ''empty_services'' [],
     sim_invalidService = sim ce ''invalid_service'' [],
     sim_emailPrompt = (\<lambda>service. sim ce ''email_prompt'' [(''service'', service)]),
     sim_invalidEmail = sim ce ''invalid_email'' [],
     sim_searching = sim ce ''searching'' [],
     sim_codeFound = (\<lambda>service c. sim ce ''code_found'' [(''service'', service), (''code'', c)]),
     sim_invalidStart = sim ce ''invalid_start'' [],
     sim_busy = sim ce ''busy'' [],
     sim_cancelled = Some (sim ce ''cancelled'' []),
     sim_back = Some (sim ce ''back'' []),
     sim_invalidNavigation = Some (sim ce ''invalid_navigation'' []) \<rparr>"

definition createTenantCodeCopy :: "console_env \<Rightarrow> SimulatorCopy" where
  "createTenantCodeCopy ce = code_copy ce ''tenant_access_code_welcome''"

definition selected_services :: "TenantCodeService list \<Rightarrow> SimulatorService list" where
  "selected_services ss = map (\<lambda>s. \<lparr>sim_service_id = tc_service_key s, sim_service_name = tc_label s\<rparr>) (filter tc_is_selected ss)"

text \<open>What is shown under the input.\<close>

definition input_error :: "console_env \<Rightarrow> SimulatorService list \<Rightarrow> SimulatorStep \<Rightarrow> string \<Rightarrow> string option" where
  "input_error ce vs step txt = (
     if step = SimEmail \<and> \<not> isValidSimulatorEmail txt then Some (sim ce ''invalid_email'' [])
     else if step = SimService then
       (case selectedFrom vs txt of Some _ \<Rightarrow> None | None \<Rightarrow> Some (sim ce ''invalid_service'' []))
     else None)"

record lookup_state =
  lk_services :: "SimulatorService list"
  lk_sim :: SimulatorState
  lk_inputError :: "string option"

type_synonym lookup_world = "lookup_state console_world"

definition lookup_world_of :: "console_env \<Rightarrow> DemoWorkspaceRepository \<Rightarrow> lookup_world" where
  "lookup_world_of ce r = \<lparr> cw_console = \<lparr>lk_services = [], lk_sim = createSimulatorState [] (createTenantCodeCopy ce), lk_inputError = None\<rparr>,
     cw_messages = [], cw_busy = False, cw_loading = True, cw_loadError = False, cw_repo = r, cw_calls = [], cw_ops = [] \<rparr>"

definition lookup_load :: "console_env \<Rightarrow> lookup_world \<Rightarrow> lookup_world" where
  "lookup_load ce w0 = (let w = w0\<lparr>cw_loadError := False\<rparr> in
     (case ask_codeServices ce w of
        (Inr (k, ss), w') \<Rightarrow> (setc (\<lambda>s. s\<lparr>lk_services := selected_services ss,
            lk_sim := createSimulatorState (selected_services ss) (createTenantCodeCopy ce)\<rparr>) w')\<lparr>cw_loading := False\<rparr>
      | (Inl _, w') \<Rightarrow> w'\<lparr>cw_loadError := True, cw_loading := False\<rparr>))"

definition lookup_transition :: "console_env \<Rightarrow> SimulatorEvent \<Rightarrow> lookup_state \<Rightarrow> lookup_state" where
  "lookup_transition ce ev s = s\<lparr>lk_sim := transitionSimulator (lk_sim s) ev (createTenantCodeCopy ce)\<rparr>"

text \<open>The timer of the effect, which waits while the step is \<open>processing\<close>.\<close>

definition lookup_timer :: "console_env \<Rightarrow> lookup_world \<Rightarrow> lookup_world" where
  "lookup_timer ce w = (if sim_step (lk_sim (cw_console w)) = SimProcessing then setc (lookup_transition ce SimProcessingComplete) w else w)"

definition lookup_submit :: "console_env \<Rightarrow> string \<Rightarrow> lookup_world \<Rightarrow> lookup_world" where
  "lookup_submit ce typed w = (let txt = trim typed; s = cw_console w; step = sim_step (lk_sim s) in
     if txt = [] \<or> step = SimProcessing \<or> cw_loading w \<or> cw_loadError w then w
     else if txt = ''0'' then tell [OnCancel] w
     else if txt = ''9'' then
       seq [if step = SimEmail then setc (lookup_transition ce SimBack) else tell [OnBack], setc (\<lambda>s. s\<lparr>lk_inputError := None\<rparr>)] w
     else seq [setc (\<lambda>s. s\<lparr>lk_inputError := input_error ce (lk_services s) step txt\<rparr>), setc (lookup_transition ce (SimMessage txt))] w)"

inductive lookup_step :: "console_env \<Rightarrow> lookup_world \<Rightarrow> lookup_world \<Rightarrow> bool" for ce where
  lookup_typed: "lookup_step ce w (lookup_submit ce typed w)"
| lookup_ticked: "lookup_step ce w (lookup_timer ce w)"
| lookup_loaded: "lookup_step ce w (lookup_load ce w)"

inductive profile_step :: "console_env \<Rightarrow> profile_world \<Rightarrow> profile_world \<Rightarrow> bool" for ce where
  profile_typed: "profile_step ce w (profile_submit ce typed w)"
| profile_loaded: "profile_step ce w (profile_load ce w)"

inductive access_step :: "console_env \<Rightarrow> access_world \<Rightarrow> access_world \<Rightarrow> bool" for ce where
  access_typed: "access_step ce w (access_submit ce typed w)"
| access_loaded: "access_step ce w (access_load ce w)"

section \<open>What a message asks\<close>

text \<open>What the consoles may ask: nothing but an edit of the field asked for, and of the numbers the entry shown with the number typed.\<close>

definition profile_may :: "profile_state \<Rightarrow> string \<Rightarrow> data_op \<Rightarrow> bool" where
  "profile_may s txt call \<longleftrightarrow> (case call of
     LoadProfile \<Rightarrow> True
   | UpdateProfile p \<Rightarrow> ps_screen s = Profile_Edit_Value \<and> (\<exists>f. ps_field s = Some f \<and> p = field_payload f txt)
   | _ \<Rightarrow> False)"

definition access_may :: "access_state \<Rightarrow> string \<Rightarrow> data_op \<Rightarrow> bool" where
  "access_may s txt call \<longleftrightarrow> (case call of
     ListAccessBlocks \<Rightarrow> True
   | CreateAccessBlock ph \<Rightarrow> as_screen s = Access_Block \<and> ph = txt
   | DeleteAccessBlock k \<Rightarrow> as_screen s = Access_List \<and> (\<exists>i b. parseInt txt = Some (int i) \<and> 0 < i \<and> i \<le> length (as_blocks s) \<and>
       b = as_blocks s ! (i - 1) \<and> k = ab_id b)
   | _ \<Rightarrow> False)"

context data_closed begin

lemma profile_submit_asks:
  assumes A: "\<And>call. profile_may (cw_console w) (trim typed) call \<Longrightarrow> allowed call" and w: "on_data J w"
  shows "on_data J (profile_submit ce typed w)"
proof -
  let ?v = "say User (trim typed) w"
  have "on_data J (on_profile_value ce (trim typed) ?v)" if "ps_screen (cw_console w) = Profile_Edit_Value"
    using w that by (auto simp: on_profile_value_def ask_updateProfile_def profile_may_def keeps_def intro!: keeps_question A split: option.split)
  then have "on_data J (on_profile_message ce p (trim typed) ?v)" for p
    using w by (cases "ps_screen (cw_console w)") (simp_all add: on_profile_message_def split: option.split)
  moreover have "on_data J (goBackFromProfile ce (say User ''9'' w))"
    using w by (simp add: goBackFromProfile_def split: profile_screen.split)
  ultimately show ?thesis using w by (auto simp: profile_submit_def Let_def split: option.split)
qed

lemma access_submit_asks:
  assumes A: "\<And>call. access_may (cw_console w) (trim typed) call \<Longrightarrow> allowed call" and w: "on_data J w"
  shows "on_data J (access_submit ce typed w)"
proof -
  let ?v = "say User (trim typed) w"
  have reads: "allowed ListAccessBlocks" by (rule A) (simp add: access_may_def)
  have block: "on_data J (on_block ce (trim typed) ?v)" if "as_screen (cw_console w) = Access_Block"
    unfolding on_block_def ask_createBlock_def ask_blocks_def
    by (intro keeps_with_busy act_keeps_bind keeps_ask act_keeps_adone A) (use w that reads in \<open>simp_all add: keeps_def access_may_def\<close>)
  have unblock: "on_data J (on_unblock ce (trim typed) ?v)" if "as_screen (cw_console w) = Access_List"
  proof -
    have "on_data J (with_busy (athen (ask_deleteBlock ce (ab_id b)) (abind (ask_blocks ce) (\<lambda>bs. adone (f bs)))) h ?v)"
      if "parseInt (trim typed) = Some n" "n > 0" "js_at (as_blocks (cw_console w)) (nat n - 1) = Some b"
        "\<And>bs. keeps (on_data J) (f bs)" "\<And>e. keeps (on_data J) (h e)" for n b f h
      unfolding ask_deleteBlock_def ask_blocks_def
    proof (intro keeps_with_busy act_keeps_then act_keeps_bind keeps_ask act_keeps_adone A)
      show "access_may (cw_console w) (trim typed) (DeleteAccessBlock (ab_id b))"
        using that(1-3) \<open>as_screen (cw_console w) = Access_List\<close>
        by (auto simp: access_may_def js_at_def split: if_splits intro!: exI [of _ "nat n"])
    qed (use w that reads in \<open>simp_all add: A access_may_def\<close>)
    then show ?thesis using w by (auto simp: on_unblock_def keeps_def split: option.split)
  qed
  have "on_data J (on_access_message ce (trim typed) ?v)"
    using w block unblock by (cases "as_screen (cw_console w)") (simp_all add: on_access_message_def)
  moreover have "on_data J (goBackFromAccessControl ce (say User ''9'' w))"
    using w by (simp add: goBackFromAccessControl_def)
  ultimately show ?thesis using w by (simp add: access_submit_def Let_def)
qed

lemma profile_load_asks:
  assumes "on_data J w" and "allowed LoadProfile"
  shows "on_data J (profile_load ce w)"
proof -
  have "act_keeps (on_data J) (ask_profile ce)" unfolding ask_profile_def using assms(2) by (simp add: keeps_ask)
  moreover have "on_data J (w\<lparr>cw_loadError := False\<rparr>)" using assms(1) by (simp add: on_data_def)
  ultimately have "on_data J (snd (ask_profile ce (w\<lparr>cw_loadError := False\<rparr>)))" unfolding act_keeps_def by blast
  then show ?thesis
    by (cases "ask_profile ce (w\<lparr>cw_loadError := False\<rparr>)") (simp add: profile_load_def on_data_def setc_def split: sum.split)
qed

lemma access_load_asks:
  assumes "on_data J w" and "allowed ListAccessBlocks"
  shows "on_data J (access_load ce w)"
proof -
  have "act_keeps (on_data J) (ask_blocks ce)" unfolding ask_blocks_def using assms(2) by (simp add: keeps_ask)
  moreover have "on_data J (w\<lparr>cw_loadError := False\<rparr>)" using assms(1) by (simp add: on_data_def)
  ultimately have "on_data J (snd (ask_blocks ce (w\<lparr>cw_loadError := False\<rparr>)))" unfolding act_keeps_def by blast
  then show ?thesis
    by (cases "ask_blocks ce (w\<lparr>cw_loadError := False\<rparr>)") (simp add: access_load_def on_data_def setc_def split: sum.split)
qed

end

section \<open>What the settings answer\<close>

text \<open>A workspace with the state \<open>s\<close>, in order as far as the settings go.\<close>

definition settles :: "console_env \<Rightarrow> DemoWorkspaceState \<Rightarrow> DemoWorkspaceRepository \<Rightarrow> bool" where
  "settles ce s r \<longleftrightarrow> (\<forall>n. session (ce_demo ce) (ce_clock ce n) r) \<and> state_view (ce_demo ce) r = Some s \<and> settings_inv s \<and>
     md_locale (ce_demo ce) \<in> {None, Some ''en'', Some ''es''}"

lemma workspace_settles:
  assumes "workspace_ok ce r"
  shows "\<exists>s. settles ce s r"
proof -
  obtain now s where s: "session (ce_demo ce) now r" "state_view (ce_demo ce) r = Some s" "demo_inv s"
    using assms by (auto simp: workspace_ok_def)
  have "session (ce_demo ce) (ce_clock ce n) r" for n using assms session_now [OF s(1)] by (simp add: workspace_ok_def)
  with s assms show ?thesis by (auto simp: settles_def demo_inv_def workspace_ok_def)
qed

lemma settles_step:
  assumes "settles ce s r" and "session (ce_demo ce) (ce_clock ce n) t" and "state_view (ce_demo ce) t = Some s'" and "settings_inv s'"
  shows "settles ce s' t"
  using assms by (auto simp: settles_def session_def)

lemma ask_settings_query:
  assumes "settles ce s (cw_repo w)"
  shows "\<exists>v. ask ce call (\<lambda>now. query (set_requireState (ce_demo ce) now) q) w = (q s, v) \<and> moved w v \<and> settles ce s (cw_repo v)"
proof -
  let ?n = "length (cw_ops w)"
  obtain t where t: "query (set_requireState (ce_demo ce) (ce_clock ce ?n)) q (cw_repo w) = (q s, t)"
    "session (ce_demo ce) (ce_clock ce ?n) t" "state_view (ce_demo ce) t = Some s"
    using sets.query_refines [of "ce_demo ce" "ce_clock ce ?n" "cw_repo w" s q] assms by (auto simp: settles_def)
  then have "settles ce s t" using settles_step [OF assms t(2,3)] assms by (simp add: settles_def)
  with t(1) show ?thesis by (auto simp: ask_def moved_def)
qed

lemma ask_blocks_lists:
  assumes "settles ce s (cw_repo w)"
  shows "\<exists>v. ask_blocks ce w = (Inr (map (access_block (ce_demo ce)) (ds_blocked_identities s)), v) \<and> moved w v \<and> settles ce s (cw_repo v)"
  using ask_settings_query [OF assms, of ListAccessBlocks "\<lambda>s. Inr (map (access_block (ce_demo ce)) (ds_blocked_identities s))"]
  by (simp add: ask_blocks_def listAccessBlocks_def [abs_def])

lemma ask_createBlock_adds:
  assumes "settles ce s (cw_repo w)" and "trim ph \<noteq> []" and "block_check (ce_demo ce) (ce_clock ce (length (cw_ops w))) (trim ph) s = Inr b"
  shows "\<exists>v. ask_createBlock ce ph w = (Inr (access_block (ce_demo ce) b), v) \<and> moved w v \<and> settles ce (add_block b s) (cw_repo v)"
proof -
  let ?now = "ce_clock ce (length (cw_ops w))"
  obtain x t where run: "createAccessBlock (ce_demo ce) ?now ph (cw_repo w) = (x, t)" by fastforce
  from createAccessBlock_result [OF run] assms have r: "session (ce_demo ce) ?now t" "x = Inr (access_block (ce_demo ce) b)"
    "state_view (ce_demo ce) t = Some (add_block b s)" by (simp_all add: settles_def)
  have "settings_inv (add_block b s)"
    using settings_inv_change [OF settings_block [OF assms(2,3)]] assms(1) by (simp add: settles_def)
  with settles_step [OF assms(1) r(1,3)] run r(2) show ?thesis by (auto simp: ask_createBlock_def ask_def moved_def)
qed

lemma ask_deleteBlock_removes:
  assumes "settles ce s (cw_repo w)"
  shows "\<exists>v. ask_deleteBlock ce k w = (Inr (), v) \<and> moved w v \<and> settles ce (remove_block k s) (cw_repo v)"
proof -
  let ?now = "ce_clock ce (length (cw_ops w))"
  obtain x t where run: "deleteAccessBlock ?now k (cw_repo w) = (x, t)" by fastforce
  have s: "session (ce_demo ce) ?now (cw_repo w)" "state_view (ce_demo ce) (cw_repo w) = Some s" "settings_inv s"
    "md_locale (ce_demo ce) \<in> {None, Some ''en'', Some ''es''}" using assms by (simp_all add: settles_def)
  have "x = Inr () \<and> session (ce_demo ce) ?now t \<and> state_view (ce_demo ce) t = Some (remove_block k s)"
    using settings_update_run [OF run [unfolded deleteAccessBlock_def] s(1,2) settings_unblock s(3,4)] by simp
  moreover have "settings_inv (remove_block k s)" using settings_inv_change [OF settings_unblock s(3,4)] .
  ultimately show ?thesis using settles_step [OF assms] run by (auto simp: ask_deleteBlock_def ask_def moved_def)
qed

text \<open>Blocking and unblocking, on the screen and in the workspace.\<close>

lemma on_block_blocks:
  assumes "settles ce s (cw_repo w)" and "trim ph \<noteq> []" and "block_check (ce_demo ce) (ce_clock ce (length (cw_ops w))) (trim ph) s = Inr b"
  shows "settles ce (add_block b s) (cw_repo (on_block ce ph w))"
    and "cw_console (on_block ce ph w) = \<lparr>as_screen = Access_Menu, as_blocks = map (access_block (ce_demo ce)) (ds_blocked_identities (add_block b s))\<rparr>"
    and "cw_busy (on_block ce ph w) = False" "cw_loading (on_block ce ph w) = cw_loading w" "cw_loadError (on_block ce ph w) = cw_loadError w"
proof -
  let ?w = "setBusy True w"
  obtain v where v: "ask_createBlock ce ph ?w = (Inr (access_block (ce_demo ce) b), v)" "moved ?w v" "settles ce (add_block b s) (cw_repo v)"
    using ask_createBlock_adds [of ce s ?w ph b] assms by auto
  obtain u where u: "ask_blocks ce v = (Inr (map (access_block (ce_demo ce)) (ds_blocked_identities (add_block b s))), u)" "moved v u"
    "settles ce (add_block b s) (cw_repo u)"
    using ask_blocks_lists [OF v(3)] by blast
  note same = movedD [OF moved_trans [OF v(2) u(2)]]
  show "settles ce (add_block b s) (cw_repo (on_block ce ph w))"
    "cw_console (on_block ce ph w) = \<lparr>as_screen = Access_Menu, as_blocks = map (access_block (ce_demo ce)) (ds_blocked_identities (add_block b s))\<rparr>"
    "cw_busy (on_block ce ph w) = False" "cw_loading (on_block ce ph w) = cw_loading w" "cw_loadError (on_block ce ph w) = cw_loadError w"
    using u(3) same by (simp_all add: on_block_def with_busy_def attempt_def abind_def v(1) u(1) adone_def)
qed

lemma on_unblock_unblocks:
  assumes "settles ce s (cw_repo w)" and "i < length (as_blocks (cw_console w))" and "k = ab_id (as_blocks (cw_console w) ! i)"
  shows "settles ce (remove_block k s) (cw_repo (on_unblock ce (nat_to_string (i + 1)) w))"
    and "as_blocks (cw_console (on_unblock ce (nat_to_string (i + 1)) w)) = map (access_block (ce_demo ce)) (ds_blocked_identities (remove_block k s))"
proof -
  let ?w = "setBusy True w" and ?b = "as_blocks (cw_console w) ! i"
  have chosen: "js_at (as_blocks (cw_console w)) (nat (int (i + 1)) - 1) = Some ?b"
    using assms(2) by (simp only: nat_int js_at_def) simp
  have select: "on_unblock ce (nat_to_string (i + 1)) w = with_busy (athen (ask_deleteBlock ce (ab_id ?b)) (abind (ask_blocks ce) (\<lambda>bs. adone (seq [
      setc (\<lambda>s. s\<lparr>as_blocks := bs\<rparr>), tell [OnChanged], bot (sim ce ''access_control_unblocked'' [] @ nl @ nl @ blockList ce bs)]))))
    (\<lambda>err. bot (sim ce ''access_control_error'' [])) w"
    unfolding on_unblock_def parseInt_nat_to_string option.case using chosen by simp
  have "settles ce s (cw_repo ?w)" using assms(1) by simp
  from ask_deleteBlock_removes [OF this, of k] obtain v where v: "ask_deleteBlock ce k ?w = (Inr (), v)" "moved ?w v" "settles ce (remove_block k s) (cw_repo v)"
    by blast
  obtain u where u: "ask_blocks ce v = (Inr (map (access_block (ce_demo ce)) (ds_blocked_identities (remove_block k s))), u)"
    "moved v u" "settles ce (remove_block k s) (cw_repo u)"
    using ask_blocks_lists [OF v(3)] by blast
  show "settles ce (remove_block k s) (cw_repo (on_unblock ce (nat_to_string (i + 1)) w))"
    "as_blocks (cw_console (on_unblock ce (nat_to_string (i + 1)) w)) = map (access_block (ce_demo ce)) (ds_blocked_identities (remove_block k s))"
    using u(3) unfolding select by (simp_all add: with_busy_def attempt_def athen_def abind_def v(1) [unfolded assms(3)]
      u(1) [unfolded assms(3)] adone_def assms(3))
qed

section \<open>Conversations\<close>

lemma profile_may_orderly: "profile_may s txt call \<Longrightarrow> orderly call"
  by (cases call) (simp_all add: profile_may_def orderly_def)

lemma access_may_orderly: "access_may s txt call \<Longrightarrow> orderly call"
  by (cases call) (simp_all add: access_may_def orderly_def)

lemma loads_orderly [simp]: "orderly LoadProfile" "orderly ListAccessBlocks"
  by (simp_all add: orderly_def)

interpretation profile: invariant_run "profile_step ce" "on_data (\<lambda>r ops. workspace_ok ce r)" for ce
  by unfold_locales (auto elim!: profile_step.cases intro: in_order.profile_submit_asks in_order.profile_load_asks profile_may_orderly)

interpretation access: invariant_run "access_step ce" "on_data (\<lambda>r ops. workspace_ok ce r)" for ce
  by unfold_locales (auto elim!: access_step.cases intro: in_order.access_submit_asks in_order.access_load_asks access_may_orderly)

lemma profile_conversation_in_order:
  "(profile_step ce)\<^sup>*\<^sup>* (profile_world_of r) w \<Longrightarrow> workspace_ok ce r \<Longrightarrow> workspace_ok ce (cw_repo w)"
  using profile.inv_run [of ce "profile_world_of r" w] by (simp add: on_data_def profile_world_of_def)

lemma access_conversation_in_order:
  "(access_step ce)\<^sup>*\<^sup>* (access_world_of r) w \<Longrightarrow> workspace_ok ce r \<Longrightarrow> workspace_ok ce (cw_repo w)"
  using access.inv_run [of ce "access_world_of r" w] by (simp add: on_data_def access_world_of_def)

text \<open>The services the lookup offers are those of its machine.\<close>

definition lookup_inv :: "lookup_world \<Rightarrow> bool" where
  "lookup_inv w \<longleftrightarrow> sim_services (lk_sim (cw_console w)) = lk_services (cw_console w) \<and> sim_inv (lk_sim (cw_console w))"

lemma lookup_transition_inv:
  "sim_services (lk_sim (lookup_transition ce ev s)) = sim_services (lk_sim s)" "lk_services (lookup_transition ce ev s) = lk_services s"
  "sim_inv (lk_sim s) \<Longrightarrow> sim_inv (lk_sim (lookup_transition ce ev s))"
  by (simp_all add: lookup_transition_def sim_inv_transition)

lemma created_services: "sim_services (createSimulatorState vs copy) = vs"
  by (simp add: createSimulatorState_def)

interpretation lookup: invariant_run "lookup_step ce" lookup_inv for ce
proof (unfold_locales, elim lookup_step.cases)
  fix w v w' typed
  assume "v = lookup_submit ce typed w'" "w = w'" "lookup_inv w"
  then show "lookup_inv v" by (simp add: lookup_submit_def Let_def lookup_inv_def lookup_transition_inv)
next
  fix w v w'
  assume "v = lookup_timer ce w'" "w = w'" "lookup_inv w"
  then show "lookup_inv v" by (simp add: lookup_timer_def lookup_inv_def lookup_transition_inv)
next
  fix w v w'
  assume v: "v = lookup_load ce w'" "w = w'" "lookup_inv w"
  have "cw_console (snd (ask_codeServices ce u)) = cw_console u" for u :: lookup_world
    by (simp add: ask_codeServices_def ask_def split: prod.split)
  then have "cw_console x = cw_console w" if "ask_codeServices ce (w\<lparr>cw_loadError := False\<rparr>) = (y, x)" for x y
    using that by (metis snd_conv console_world.select_convs(1) console_world.surjective console_world.update_convs(5))
  then show "lookup_inv v" using v
    by (cases "ask_codeServices ce (w\<lparr>cw_loadError := False\<rparr>)")
      (auto simp: lookup_load_def lookup_inv_def sim_inv_create created_services split: sum.split)
qed

section \<open>Findings\<close>

text \<open>All blocked numbers are on one list, but \<open>9\<close> goes back: the ninth cannot be unblocked.\<close>

lemma ninth_stays_blocked:
  assumes "as_screen (cw_console w) = Access_List" and "ready_for_input w"
  shows "cw_repo (access_submit ce ''9'' w) = cw_repo w" and "as_screen (cw_console (access_submit ce ''9'' w)) = Access_Menu"
proof -
  have "trim ''9'' = ''9''" by code_simp
  then show "cw_repo (access_submit ce ''9'' w) = cw_repo w" "as_screen (cw_console (access_submit ce ''9'' w)) = Access_Menu"
    using assms by (simp_all add: access_submit_def goBackFromAccessControl_def)
qed

text \<open>The eighth service of the lookup: the machine takes \<open>8\<close> for "next page" and refuses it, and no error appears under the input.\<close>

lemma eighth_service_refused:
  assumes "sim_step (lk_sim (cw_console w)) = SimService" and "8 \<le> length (lk_services (cw_console w))" and "ready_for_input w"
  shows "lk_inputError (cw_console (lookup_submit ce ''8'' w)) = None"
    and "sim_step (lk_sim (cw_console (lookup_submit ce ''8'' w))) = SimService"
proof -
  have texts: "trim ''8'' = ''8''" "parseInt ''8'' = Some 8" by code_simp+
  show "lk_inputError (cw_console (lookup_submit ce ''8'' w)) = None" "sim_step (lk_sim (cw_console (lookup_submit ce ''8'' w))) = SimService"
    using assms by (simp_all add: lookup_submit_def texts ready_for_input_def input_error_def selectedFrom_def js_at_def lookup_transition_def
      sim_onMessage_def sim_appendMessage_def Let_def)
qed

text \<open>A message that is none of the keys.\<close>

lemma access_message:
  assumes "ready_for_input w" and "trim typed \<notin> {[], ''0'', ''9''}"
  shows "access_submit ce typed w = on_access_message ce (trim typed) (say User (trim typed) w)"
  using assms by (simp add: access_submit_def Let_def)

section \<open>Properties\<close>

text \<open>
  C31. A number blocked is on the list, and unblocking it undoes the blocking: typed at the prompt, a number that is not blocked yet becomes the
  last of the list shown; typing its place in that list leaves the list and the whole state of the workspace as they were before. The ninth place
  is excepted, see \<open>ninth_stays_blocked\<close>, and so is an identifier made in the same millisecond as another.
\<close>

theorem block_round_trip:
  assumes "settles ce s (cw_repo w)" and "as_screen (cw_console w) = Access_Block" and "ready_for_input w"
    and "trim typed \<notin> {[], ''0'', ''9''}" and "trim typed \<notin> bi_phone ` set (ds_blocked_identities s)"
    and "''blocked-'' @ md_tenantId (ce_demo ce) @ ''-'' @ int_to_string (ce_clock ce (length (cw_ops w))) \<notin> bi_id ` set (ds_blocked_identities s)"
    and "length (ds_blocked_identities s) \<noteq> 8"
  shows "let v = access_submit ce typed w;
             u = access_submit ce (nat_to_string (length (ds_blocked_identities s) + 1)) (access_submit ce ''1'' v) in
    map ab_phone (as_blocks (cw_console v)) = map (\<lambda>b. Some (bi_phone b)) (ds_blocked_identities s) @ [Some (trim typed)] \<and>
    state_view (ce_demo ce) (cw_repo u) = Some s \<and> as_blocks (cw_console u) = map (access_block (ce_demo ce)) (ds_blocked_identities s)"
proof -
  let ?bs = "ds_blocked_identities s" and ?m = "ce_demo ce"
  let ?b = "\<lparr>bi_id = ''blocked-'' @ md_tenantId ?m @ ''-'' @ int_to_string (ce_clock ce (length (cw_ops w))), bi_phone = trim typed\<rparr>"
  let ?w = "say User (trim typed) w" and ?v = "access_submit ce typed w" and ?t = "access_submit ce ''1'' (access_submit ce typed w)"
  let ?number = "nat_to_string (length ?bs + 1)"
  have one: "trim ''1'' = ''1''" by code_simp
  have "trim (trim typed) = trim typed" by simp
  then have check: "block_check ?m (ce_clock ce (length (cw_ops ?w))) (trim (trim typed)) s = Inr ?b"
    using assms(5) by (force simp: block_check_def throw_if_def list_ex_iff)
  have v: "?v = on_block ce (trim typed) ?w" using access_message [OF assms(3,4)] assms(2) by (simp add: on_access_message_def)
  have "settles ce s (cw_repo ?w)" "trim (trim typed) \<noteq> []" using assms(1,4) by simp_all
  note block = on_block_blocks [OF this check, folded v]
  have ready: "ready_for_input ?v" using block(3-5) assms(3) by (simp add: ready_for_input_def)
  have t: "?t = bot (blockList ce (as_blocks (cw_console ?v))) (setc (\<lambda>s. s\<lparr>as_screen := Access_List\<rparr>) (say User ''1'' ?v))"
    using access_message [OF ready, of "''1''"] block(2) by (simp add: one on_access_message_def)
  have number: "?number \<noteq> ''0''" "?number \<noteq> ''9''" using assms(7) nat_to_string_eq_0 nat_to_string_eq_9 by auto
  have "ready_for_input ?t" using ready unfolding t by (simp add: ready_for_input_def)
  then have u: "access_submit ce ?number ?t = on_unblock ce ?number (say User ?number ?t)"
    using access_message [of ?t ?number] number t by (simp add: on_access_message_def)
  have len: "length ?bs < length (as_blocks (cw_console (say User ?number ?t)))" "ab_id (as_blocks (cw_console (say User ?number ?t)) ! length ?bs) = bi_id ?b"
    using t block(2) by (simp_all add: add_block_def nth_append access_block_def)
  have "settles ce (add_block ?b s) (cw_repo (say User ?number ?t))" using t block(1) by simp
  note unblock = on_unblock_unblocks [OF this len(1) len(2) [symmetric], folded u]
  have "\<forall>x \<in> set ?bs. bi_id x \<noteq> bi_id ?b" using assms(6) by (metis DemoBlockedIdentity.select_convs(1) imageI)
  then have "remove_by bi_id (bi_id ?b) (?bs @ [?b]) = ?bs" by (simp add: remove_by_def)
  then have back_again: "remove_block (bi_id ?b) (add_block ?b s) = s" by (simp add: remove_block_def add_block_def)
  show ?thesis
    using unblock block(2) unfolding back_again by (simp add: Let_def settles_def add_block_def access_block_def)
qed

lemma sample_blocks:
  "\<exists>r s. settles sample_env s r \<and> length (ds_blocked_identities s) < 8 \<and>
     ''12025550199'' \<notin> bi_phone ` set (ds_blocked_identities s) \<and> ''blocked-t1-0'' \<notin> bi_id ` set (ds_blocked_identities s)"
proof -
  obtain r s where r: "workspace_ok sample_env r" "baseline_state Pro sample_metadata = Inr s" "state_view sample_metadata r = Some s"
    using sample_serves by blast
  obtain s' where s': "settles sample_env s' r" using workspace_settles [OF r(1)] by blast
  then have "s' = s" using r(3) by (simp add: settles_def sample_env_def)
  moreover have "(case baseline_state Pro sample_metadata of Inl e \<Rightarrow> False | Inr s \<Rightarrow> length (ds_blocked_identities s) < 8 \<and>
     ''12025550199'' \<notin> bi_phone ` set (ds_blocked_identities s) \<and> ''blocked-t1-0'' \<notin> bi_id ` set (ds_blocked_identities s))" by code_simp
  ultimately show ?thesis using s' r(2) by auto
qed

theorem block_round_trip_witness:
  "\<exists>r s. settles sample_env s r \<and> (let v = access_submit sample_env ''12025550199'' ((access_world_of r)\<lparr>cw_loading := False,
       cw_console := \<lparr>as_screen = Access_Block, as_blocks = []\<rparr>\<rparr>) in
     map ab_phone (as_blocks (cw_console v)) = map (\<lambda>b. Some (bi_phone b)) (ds_blocked_identities s) @ [Some ''12025550199''])"
proof -
  obtain r s where s: "settles sample_env s r" "length (ds_blocked_identities s) < 8"
    "''12025550199'' \<notin> bi_phone ` set (ds_blocked_identities s)" "''blocked-t1-0'' \<notin> bi_id ` set (ds_blocked_identities s)"
    using sample_blocks by blast
  let ?w = "(access_world_of r)\<lparr>cw_loading := False, cw_console := \<lparr>as_screen = Access_Block, as_blocks = []\<rparr>\<rparr>"
  have t: "trim ''12025550199'' = ''12025550199''" by code_simp
  have id: "''blocked-'' @ md_tenantId (ce_demo sample_env) @ ''-'' @ int_to_string (ce_clock sample_env (length (cw_ops ?w))) = ''blocked-t1-0''"
    by (simp add: sample_env_def sample_metadata_def) code_simp
  have "settles sample_env s (cw_repo ?w)" "as_screen (cw_console ?w) = Access_Block" "ready_for_input ?w"
    "trim ''12025550199'' \<notin> {[], ''0'', ''9''}" "trim ''12025550199'' \<notin> bi_phone ` set (ds_blocked_identities s)"
    "length (ds_blocked_identities s) \<noteq> 8"
    using s by (simp_all add: access_world_of_def ready_for_input_def t)
  from block_round_trip [OF this(1-5) _ this(6)] id s(4) have "let v = access_submit sample_env ''12025550199'' ?w in
     map ab_phone (as_blocks (cw_console v)) = map (\<lambda>b. Some (bi_phone b)) (ds_blocked_identities s) @ [Some ''12025550199'']"
    by (simp add: Let_def t)
  with s(1) show ?thesis by blast
qed

text \<open>
  What is shown under the input of the code lookup is true: with at most seven services, a message typed for a service or for an address
  leaves no error exactly when the machine goes on to the next step.
\<close>

theorem lookup_error_tells:
  assumes "(lookup_step ce)\<^sup>*\<^sup>* (lookup_world_of ce r) w" and "ready_for_input w" and "length (lk_services (cw_console w)) \<le> 7"
    and "sim_step (lk_sim (cw_console w)) \<in> {SimService, SimEmail}" and "trim typed \<notin> {[], ''0'', ''9''}"
  shows "lk_inputError (cw_console (lookup_submit ce typed w)) = None \<longleftrightarrow>
    sim_step (lk_sim (cw_console (lookup_submit ce typed w))) \<noteq> sim_step (lk_sim (cw_console w))"
proof -
  let ?s = "lk_sim (cw_console w)"
  have "lookup_inv (lookup_world_of ce r)"
    by (simp add: lookup_inv_def lookup_world_of_def created_services sim_inv_create)
  then have services: "sim_services ?s = lk_services (cw_console w)"
    using lookup.inv_run [OF assms(1)] by (simp add: lookup_inv_def)
  have eight: "parseInt ''8'' = Some 8" by code_simp
  have none: "selectedFrom (lk_services (cw_console w)) ''8'' = None" using assms(3) by (simp add: selectedFrom_def eight js_at_def)
  have submit: "cw_console (lookup_submit ce typed w) = lookup_transition ce (SimMessage (trim typed))
      ((cw_console w)\<lparr>lk_inputError := input_error ce (lk_services (cw_console w)) (sim_step ?s) (trim typed)\<rparr>)"
    using assms(2,4,5) by (auto simp: lookup_submit_def ready_for_input_def Let_def)
  show ?thesis
  proof (cases "sim_step ?s = SimService")
    case True
    show ?thesis
    proof (cases "trim typed = ''8''")
      case True
      have "trim ''8'' = ''8''" by code_simp
      with True show ?thesis using \<open>sim_step ?s = SimService\<close> none unfolding submit
        by (simp add: lookup_transition_def input_error_def sim_onMessage_def sim_appendMessage_def Let_def)
    next
      case False
      then show ?thesis using \<open>sim_step ?s = SimService\<close> assms(5) unfolding submit
        by (auto simp: lookup_transition_def input_error_def sim_onMessage_def sim_appendMessage_def Let_def services selectedFrom_def
          dest!: js_at_SomeD split: option.split)
    qed
  next
    case False
    then have "sim_step ?s = SimEmail" using assms(4) by simp
    then show ?thesis using assms(5) unfolding submit
      by (simp add: lookup_transition_def input_error_def sim_onMessage_def sim_appendMessage_def Let_def)
  qed
qed

lemma sample_services:
  "\<exists>r s. settles sample_env s r \<and> filter cs_enabled (ds_code_services s) \<noteq> [] \<and> length (filter cs_enabled (ds_code_services s)) \<le> 7"
proof -
  obtain r s where r: "workspace_ok sample_env r" "baseline_state Pro sample_metadata = Inr s" "state_view sample_metadata r = Some s"
    using sample_serves by blast
  obtain s' where s': "settles sample_env s' r" using workspace_settles [OF r(1)] by blast
  then have "s' = s" using r(3) by (simp add: settles_def sample_env_def)
  moreover have "(case baseline_state Pro sample_metadata of Inl e \<Rightarrow> False | Inr s \<Rightarrow> length (filter cs_enabled (ds_code_services s)) \<noteq> 0 \<and>
     length (filter cs_enabled (ds_code_services s)) \<le> 7)" by code_simp
  ultimately show ?thesis using s' r(2) by auto
qed

lemma lookup_loads:
  assumes "settles ce s (cw_repo w)"
  shows "lk_services (cw_console (lookup_load ce w)) = selected_services (map code_service_view (ds_code_services s))"
    and "lk_sim (cw_console (lookup_load ce w)) = createSimulatorState (selected_services (map code_service_view (ds_code_services s))) (createTenantCodeCopy ce)"
    and "cw_busy (lookup_load ce w) = cw_busy w" "\<not> cw_loading (lookup_load ce w)" "\<not> cw_loadError (lookup_load ce w)"
proof -
  let ?w = "w\<lparr>cw_loadError := False\<rparr>"
  have "settles ce s (cw_repo ?w)" using assms by simp
  from ask_settings_query [OF this, of LoadCodeServices "\<lambda>s. Inr (md_tenantId (ce_demo ce), map code_service_view (ds_code_services s))"]
  obtain v where v: "ask_codeServices ce ?w = (Inr (md_tenantId (ce_demo ce), map code_service_view (ds_code_services s)), v)" "moved ?w v"
    by (auto simp: ask_codeServices_def loadCodeServices_def [abs_def])
  note same = movedD [OF v(2)]
  show "lk_services (cw_console (lookup_load ce w)) = selected_services (map code_service_view (ds_code_services s))"
    "lk_sim (cw_console (lookup_load ce w)) = createSimulatorState (selected_services (map code_service_view (ds_code_services s))) (createTenantCodeCopy ce)"
    "cw_busy (lookup_load ce w) = cw_busy w" "\<not> cw_loading (lookup_load ce w)" "\<not> cw_loadError (lookup_load ce w)"
    using same by (simp_all add: lookup_load_def v(1))
qed

theorem lookup_error_tells_witness:
  "\<exists>r w. (lookup_step sample_env)\<^sup>*\<^sup>* (lookup_world_of sample_env r) w \<and> sim_step (lk_sim (cw_console w)) = SimService \<and>
     (lk_inputError (cw_console (lookup_submit sample_env ''1'' w)) = None \<longleftrightarrow>
       sim_step (lk_sim (cw_console (lookup_submit sample_env ''1'' w))) \<noteq> SimService)"
proof -
  obtain r s where s: "settles sample_env s r" "filter cs_enabled (ds_code_services s) \<noteq> []" "length (filter cs_enabled (ds_code_services s)) \<le> 7"
    using sample_services by blast
  let ?start = "lookup_world_of sample_env r"
  let ?loaded = "lookup_load sample_env ?start"
  let ?w = "lookup_submit sample_env ''code'' ?loaded"
  have "settles sample_env s (cw_repo ?start)" using s(1) by (simp add: lookup_world_of_def)
  note l = lookup_loads [OF this]
  have texts: "trim ''code'' = ''code''" "normalizeCommand ''code'' = ''code''" "trim ''1'' = ''1''" by code_simp+
  have view: "tc_is_selected (code_service_view c) = cs_enabled c" for c by (simp add: code_service_view_def)
  have vs: "selected_services (map code_service_view (ds_code_services s)) \<noteq> []"
    "length (selected_services (map code_service_view (ds_code_services s))) \<le> 7"
    using s(2,3) by (simp_all add: selected_services_def filter_map o_def view)
  have ready: "\<not> cw_loading ?loaded" "\<not> cw_loadError ?loaded" "\<not> cw_busy ?loaded" using l(3-5) by (simp_all add: lookup_world_of_def)
  have w: "sim_step (lk_sim (cw_console ?w)) = SimService" "lk_services (cw_console ?w) = selected_services (map code_service_view (ds_code_services s))"
    "ready_for_input ?w"
    using l(1,2) ready vs(1) by (simp_all add: lookup_submit_def texts ready_for_input_def lookup_transition_def createSimulatorState_def
      sim_onMessage_def sim_appendMessage_def Let_def)
  have run: "(lookup_step sample_env)\<^sup>*\<^sup>* ?start ?w" by (rule lookup.run_two [OF lookup_loaded lookup_typed])
  have "length (lk_services (cw_console ?w)) \<le> 7" "sim_step (lk_sim (cw_console ?w)) \<in> {SimService, SimEmail}" "trim ''1'' \<notin> {[], ''0'', ''9''}"
    using w vs(2) texts by simp_all
  note tells = lookup_error_tells [OF run w(3) this, unfolded w(1)]
  show ?thesis by (intro exI conjI) (rule run w(1) tells)+
qed

end
