(* ===== verification/ClientConsole.thy ===== *)
theory ClientConsole
  imports ChatLog JsDate
begin

text \<open>
  The client's side of the demo console,
  \<^verbatim>\<open>frontend/src/features/demo/services/client-console-machine.ts\<close>: a client is chosen from a
  paged list, then the profile, the active subscriptions (paged too) or the access-code flow.
  The state record, the texts and the functions follow the file; a page of clients holds four
  entries and a page of subscriptions three.
\<close>

record ClientConsoleClient =
  cc_client_id :: string
  cc_fullName :: string
  cc_phone :: "string option"
  cc_isActive :: bool

record ClientConsoleSubscription =
  cc_sub_id :: string
  cc_clientId :: string
  cc_serviceName :: string
  cc_planName :: string
  cc_startsAt :: string
  cc_expiresAt :: string
  cc_status :: string

record ClientConsoleCopy =
  cc_selectClients :: "nat \<Rightarrow> nat \<Rightarrow> string"
  cc_clientItem :: "nat \<Rightarrow> ClientConsoleClient \<Rightarrow> string"
  cc_emptyClients :: string
  cc_menu :: "ClientConsoleClient \<Rightarrow> string"
  cc_profile :: "ClientConsoleClient \<Rightarrow> string \<Rightarrow> string \<Rightarrow> string"
  cc_subscriptionsHeader :: "ClientConsoleClient \<Rightarrow> nat \<Rightarrow> nat \<Rightarrow> string"
  cc_subscriptionItem :: "nat \<Rightarrow> ClientConsoleSubscription \<Rightarrow> string"
  cc_emptySubscriptions :: string
  cc_inactiveSubscriptions :: string
  cc_expiredSubscriptions :: string
  cc_invalid :: string
  cc_noNextPage :: string
  cc_cancelled :: string
  cc_back :: string
  cc_cancel :: string
  cc_next :: string
  cc_accessCode :: string

datatype ClientConsoleScreen =
  CCSelect | CCMenu | CCProfile | CCSubscriptions | CCAccessCode | CCBack | CCCancelled

record ClientConsoleState =
  cc_screen :: ClientConsoleScreen
  cc_page :: nat
  cc_clients :: "ClientConsoleClient list"
  cc_subscriptions :: "ClientConsoleSubscription list"
  cc_selectedClientId :: "string option"
  cc_referenceTime :: string
  cc_messages :: "chat_message list"

datatype ClientConsoleEvent = CCMessage string | CCReset

section \<open>Operations\<close>

definition CLIENT_PAGE_SIZE :: nat where
  "CLIENT_PAGE_SIZE = 4"

definition SUBSCRIPTION_PAGE_SIZE :: nat where
  "SUBSCRIPTION_PAGE_SIZE = 3"

definition cc_appendMessage :: "ClientConsoleState \<Rightarrow> chat_role \<Rightarrow> string \<Rightarrow> ClientConsoleState" where
  "cc_appendMessage s r t = s\<lparr>cc_messages := push_message (cc_messages s) r t\<rparr>"

definition cc_withBot :: "ClientConsoleState \<Rightarrow> string \<Rightarrow> ClientConsoleState" where
  "cc_withBot s t = cc_appendMessage s Bot t"

definition cc_totalPages :: "'a list \<Rightarrow> nat \<Rightarrow> nat" where
  "cc_totalPages items sz = page_count (length items) sz"

definition selectedClient :: "ClientConsoleState \<Rightarrow> ClientConsoleClient option" where
  "selectedClient s = find (\<lambda>c. Some (cc_client_id c) = cc_selectedClientId s) (cc_clients s)"

definition clientSubscriptions :: "ClientConsoleState \<Rightarrow> ClientConsoleSubscription list" where
  "clientSubscriptions s =
     filter (\<lambda>x. Some (cc_clientId x) = cc_selectedClientId s) (cc_subscriptions s)"

definition activeSubscriptions :: "ClientConsoleState \<Rightarrow> ClientConsoleSubscription list" where
  "activeSubscriptions s =
     (let reference = Date_parse (cc_referenceTime s) in
      filter (\<lambda>x. cc_status x = ''active'' \<and> time_gt (Date_parse (cc_expiresAt x)) reference)
        (clientSubscriptions s))"

definition emptySubscriptionMessage ::
  "ClientConsoleState \<Rightarrow> ClientConsoleClient \<Rightarrow> ClientConsoleCopy \<Rightarrow> string" where
  "emptySubscriptionMessage s client copy =
     (if \<not> cc_isActive client then cc_inactiveSubscriptions copy
      else if list_ex (\<lambda>x. cc_status x = ''expired'' \<or>
          time_le (Date_parse (cc_expiresAt x)) (Date_parse (cc_referenceTime s))) (clientSubscriptions s)
        then cc_expiredSubscriptions copy
      else cc_emptySubscriptions copy)"

definition visibleClients :: "ClientConsoleState \<Rightarrow> ClientConsoleClient list" where
  "visibleClients s =
     slice (cc_page s * CLIENT_PAGE_SIZE) ((cc_page s + 1) * CLIENT_PAGE_SIZE) (cc_clients s)"

definition clientSelectionMessage :: "ClientConsoleState \<Rightarrow> ClientConsoleCopy \<Rightarrow> string" where
  "clientSelectionMessage s copy =
     (let pages = cc_totalPages (cc_clients s) CLIENT_PAGE_SIZE in
      join [CHR 0x0A]
        ([cc_selectClients copy (cc_page s + 1) pages] @
         map_numbered (cc_clientItem copy) (visibleClients s) @
         [''0. '' @ cc_cancel copy, ''9. '' @ cc_back copy] @
         (if cc_page s < pages - 1 then [''8. '' @ cc_next copy] else [])))"

definition menuState ::
  "ClientConsoleState \<Rightarrow> ClientConsoleClient \<Rightarrow> ClientConsoleCopy \<Rightarrow> ClientConsoleState" where
  "menuState s client copy = cc_withBot (s\<lparr>cc_screen := CCMenu, cc_page := 0\<rparr>) (cc_menu copy client)"

definition cc_rootState ::
  "ClientConsoleClient list \<Rightarrow> ClientConsoleSubscription list \<Rightarrow> string \<Rightarrow> ClientConsoleCopy \<Rightarrow>
     ClientConsoleState" where
  "cc_rootState clients subscriptions referenceTime copy =
     (let s = \<lparr>cc_screen = CCSelect, cc_page = 0, cc_clients = clients,
               cc_subscriptions = subscriptions, cc_selectedClientId = None,
               cc_referenceTime = referenceTime, cc_messages = []\<rparr>
      in cc_withBot s (if clients \<noteq> [] then clientSelectionMessage s copy else cc_emptyClients copy))"

definition createClientConsoleState ::
  "ClientConsoleClient list \<Rightarrow> ClientConsoleSubscription list \<Rightarrow> string \<Rightarrow> ClientConsoleCopy \<Rightarrow>
     ClientConsoleState" where
  "createClientConsoleState clients subscriptions referenceTime copy =
     cc_rootState clients subscriptions referenceTime copy"

definition cc_chosen :: "ClientConsoleState \<Rightarrow> string \<Rightarrow> ClientConsoleClient option" where
  "cc_chosen s t = (case parseInt t of
       None \<Rightarrow> None
     | Some selection \<Rightarrow> if selection > 0
         then js_at (cc_clients s) (cc_page s * CLIENT_PAGE_SIZE + nat selection - 1) else None)"

definition cc_onSelect :: "ClientConsoleState \<Rightarrow> string \<Rightarrow> ClientConsoleCopy \<Rightarrow> ClientConsoleState" where
  "cc_onSelect s t copy =
     (let withUserMessage = cc_appendMessage s User t in
      if t = ''0'' then cc_withBot (withUserMessage\<lparr>cc_screen := CCCancelled\<rparr>) (cc_cancelled copy)
      else if t = ''9'' then cc_withBot (withUserMessage\<lparr>cc_screen := CCBack\<rparr>) (cc_back copy)
      else if t = ''8'' then
        (if cc_page s \<ge> cc_totalPages (cc_clients s) CLIENT_PAGE_SIZE - 1
         then cc_withBot withUserMessage (cc_noNextPage copy)
         else (let nxt = withUserMessage\<lparr>cc_page := cc_page s + 1\<rparr> in
           cc_withBot nxt (clientSelectionMessage nxt copy)))
      else (case cc_chosen s t of
          Some client \<Rightarrow>
            menuState (withUserMessage\<lparr>cc_selectedClientId := Some (cc_client_id client)\<rparr>) client copy
        | None \<Rightarrow> cc_withBot withUserMessage (cc_invalid copy)))"

text \<open>The texts of a page of subscriptions, as the three branches of the source compose them.\<close>

definition subscriptionLines ::
  "ClientConsoleCopy \<Rightarrow> ClientConsoleClient \<Rightarrow> ClientConsoleSubscription list \<Rightarrow> nat \<Rightarrow> nat \<Rightarrow> string list" where
  "subscriptionLines copy client subscriptions page pages =
     [cc_subscriptionsHeader copy client (page + 1) pages] @
     map_numbered (cc_subscriptionItem copy)
       (slice (page * SUBSCRIPTION_PAGE_SIZE) ((page + 1) * SUBSCRIPTION_PAGE_SIZE) subscriptions)"

definition cc_onMenu :: "ClientConsoleState \<Rightarrow> string \<Rightarrow> ClientConsoleCopy \<Rightarrow> ClientConsoleState" where
  "cc_onMenu s t copy =
     (let withUserMessage = cc_appendMessage s User t in
      if t = ''0'' then cc_withBot (withUserMessage\<lparr>cc_screen := CCCancelled\<rparr>) (cc_cancelled copy)
      else if t = ''9'' then
        (let nxt = withUserMessage\<lparr>cc_screen := CCSelect, cc_selectedClientId := None, cc_page := 0\<rparr> in
         cc_withBot nxt (clientSelectionMessage nxt copy))
      else (case selectedClient s of
          None \<Rightarrow> cc_withBot (withUserMessage\<lparr>cc_screen := CCSelect\<rparr>) (cc_emptyClients copy)
        | Some client \<Rightarrow>
            if t = ''1'' then
              (let st = (if cc_isActive client then ''active'' else ''inactive'') in
               cc_withBot (withUserMessage\<lparr>cc_screen := CCProfile, cc_page := 0\<rparr>)
                 (cc_profile copy client [] st))
            else if t = ''2'' then
              (let subscriptions = activeSubscriptions s;
                   nxt = withUserMessage\<lparr>cc_screen := CCSubscriptions, cc_page := 0\<rparr>;
                   pages = cc_totalPages subscriptions SUBSCRIPTION_PAGE_SIZE
               in if subscriptions = [] then cc_withBot nxt (emptySubscriptionMessage s client copy)
                  else cc_withBot nxt (join [CHR 0x0A]
                    (subscriptionLines copy client subscriptions 0 pages @
                     (if pages > 1 then [''8. '' @ cc_next copy] else []) @
                     [''9. '' @ cc_back copy, ''0. '' @ cc_cancel copy])))
            else if t = ''3'' then
              cc_withBot (withUserMessage\<lparr>cc_screen := CCAccessCode, cc_page := 0\<rparr>) (cc_accessCode copy)
            else cc_withBot withUserMessage (cc_invalid copy)))"

definition cc_onDetail :: "ClientConsoleState \<Rightarrow> string \<Rightarrow> ClientConsoleCopy \<Rightarrow> ClientConsoleState" where
  "cc_onDetail s t copy =
     (let withUserMessage = cc_appendMessage s User t in
      if t = ''0'' then cc_withBot (withUserMessage\<lparr>cc_screen := CCCancelled\<rparr>) (cc_cancelled copy)
      else if t = ''9'' then
        (case selectedClient s of
           Some client \<Rightarrow> menuState (withUserMessage\<lparr>cc_page := 0\<rparr>) client copy
         | None \<Rightarrow> cc_withBot (withUserMessage\<lparr>cc_screen := CCSelect, cc_selectedClientId := None\<rparr>)
             (cc_emptyClients copy))
      else cc_withBot withUserMessage (cc_invalid copy))"

definition cc_onSubscriptions :: "ClientConsoleState \<Rightarrow> string \<Rightarrow> ClientConsoleCopy \<Rightarrow> ClientConsoleState" where
  "cc_onSubscriptions s t copy =
     (let withUserMessage = cc_appendMessage s User t in
      if t = ''0'' then cc_withBot (withUserMessage\<lparr>cc_screen := CCCancelled\<rparr>) (cc_cancelled copy)
      else (case selectedClient s of
          None \<Rightarrow> cc_withBot (withUserMessage\<lparr>cc_screen := CCSelect, cc_selectedClientId := None\<rparr>)
            (cc_emptyClients copy)
        | Some client \<Rightarrow>
            (let subscriptions = activeSubscriptions s;
                 pages = cc_totalPages subscriptions SUBSCRIPTION_PAGE_SIZE in
             if t = ''8'' then
               (if cc_page s \<ge> pages - 1 then cc_withBot withUserMessage (cc_noNextPage copy)
                else cc_withBot (withUserMessage\<lparr>cc_page := cc_page s + 1\<rparr>) (join [CHR 0x0A]
                  (subscriptionLines copy client subscriptions (cc_page s + 1) pages @
                   [''9. '' @ cc_back copy, ''0. '' @ cc_cancel copy])))
             else if t = ''9'' then
               (if cc_page s > 0 then
                  cc_withBot (withUserMessage\<lparr>cc_page := cc_page s - 1\<rparr>) (join [CHR 0x0A]
                    (subscriptionLines copy client subscriptions (cc_page s - 1) pages @
                     (if cc_page s - 1 < pages - 1 then [''8. '' @ cc_next copy] else []) @
                     [''9. '' @ cc_back copy, ''0. '' @ cc_cancel copy]))
                else menuState (withUserMessage\<lparr>cc_page := 0\<rparr>) client copy)
             else cc_withBot withUserMessage (cc_invalid copy))))"

fun transitionClientConsole ::
  "ClientConsoleState \<Rightarrow> ClientConsoleEvent \<Rightarrow> ClientConsoleCopy \<Rightarrow> ClientConsoleState" where
  "transitionClientConsole s CCReset copy =
     cc_rootState (cc_clients s) (cc_subscriptions s) (cc_referenceTime s) copy"
| "transitionClientConsole s (CCMessage raw) copy =
     (let t = trim raw in
      case cc_screen s of
        CCSelect \<Rightarrow> cc_onSelect s t copy
      | CCMenu \<Rightarrow> cc_onMenu s t copy
      | CCProfile \<Rightarrow> cc_onDetail s t copy
      | CCAccessCode \<Rightarrow> cc_onDetail s t copy
      | CCSubscriptions \<Rightarrow> cc_onSubscriptions s t copy
      | _ \<Rightarrow> cc_appendMessage s User t)"

definition getSelectedClient :: "ClientConsoleState \<Rightarrow> ClientConsoleClient option" where
  "getSelectedClient s = selectedClient s"

abbreviation cc_run ::
  "ClientConsoleCopy \<Rightarrow> ClientConsoleState \<Rightarrow> ClientConsoleEvent list \<Rightarrow> ClientConsoleState" where
  "cc_run copy \<equiv> chat_run (\<lambda>s e. transitionClientConsole s e copy)"

lemmas cc_step_defs = cc_onSelect_def cc_onMenu_def cc_onDetail_def cc_onSubscriptions_def
  menuState_def cc_rootState_def cc_withBot_def

section \<open>Frame facts and the log\<close>

lemma cc_appendMessage_fields [simp]:
  "cc_screen (cc_appendMessage s r t) = cc_screen s"
  "cc_page (cc_appendMessage s r t) = cc_page s"
  "cc_clients (cc_appendMessage s r t) = cc_clients s"
  "cc_subscriptions (cc_appendMessage s r t) = cc_subscriptions s"
  "cc_selectedClientId (cc_appendMessage s r t) = cc_selectedClientId s"
  "cc_referenceTime (cc_appendMessage s r t) = cc_referenceTime s"
  "cc_messages (cc_appendMessage s r t) = push_message (cc_messages s) r t"
  by (simp_all add: cc_appendMessage_def)

lemma cc_withBot_fields [simp]:
  "cc_screen (cc_withBot s t) = cc_screen s"
  "cc_page (cc_withBot s t) = cc_page s"
  "cc_clients (cc_withBot s t) = cc_clients s"
  "cc_subscriptions (cc_withBot s t) = cc_subscriptions s"
  "cc_selectedClientId (cc_withBot s t) = cc_selectedClientId s"
  "cc_referenceTime (cc_withBot s t) = cc_referenceTime s"
  "cc_messages (cc_withBot s t) = push_message (cc_messages s) Bot t"
  by (simp_all add: cc_withBot_def)

lemma transitionClientConsole_log:
  "extends_log (cc_messages s) (cc_messages (transitionClientConsole s e copy))"
proof (cases e)
  case (CCMessage raw)
  then show ?thesis
    by (cases "cc_screen s")
      (auto simp: cc_onSelect_def cc_onMenu_def cc_onDetail_def cc_onSubscriptions_def menuState_def
        Let_def chat_simps split: option.splits)
qed (simp add: cc_rootState_def Let_def chat_simps)

interpretation cc_chat: chat_machine cc_messages
  "\<lambda>s. \<exists>cs ss ref. s = createClientConsoleState cs ss ref copy"
  "\<lambda>s e. transitionClientConsole s e copy" for copy
proof
  fix s
  assume "\<exists>cs ss ref. s = createClientConsoleState cs ss ref copy"
  then show "numbered (cc_messages s) \<and> cc_messages s \<noteq> []"
    by (auto simp: createClientConsoleState_def cc_rootState_def Let_def)
qed (rule transitionClientConsole_log)

section \<open>The invariant\<close>

text \<open>
  A client is selected exactly on the screens about one client; the page shown exists; the screens
  without pages are on page 0.
\<close>

definition cc_inv :: "ClientConsoleState \<Rightarrow> bool" where
  "cc_inv s \<longleftrightarrow>
     (cc_screen s \<in> {CCMenu, CCProfile, CCSubscriptions, CCAccessCode} \<longrightarrow> selectedClient s \<noteq> None) \<and>
     (cc_screen s = CCSelect \<longrightarrow> cc_selectedClientId s = None \<and>
        cc_page s < cc_totalPages (cc_clients s) CLIENT_PAGE_SIZE) \<and>
     (cc_screen s = CCSubscriptions \<longrightarrow>
        cc_page s < cc_totalPages (activeSubscriptions s) SUBSCRIPTION_PAGE_SIZE) \<and>
     (cc_screen s \<in> {CCMenu, CCProfile, CCAccessCode} \<longrightarrow> cc_page s = 0)"

lemma selectedClient_cong:
  "cc_clients s = cc_clients t \<Longrightarrow> cc_selectedClientId s = cc_selectedClientId t \<Longrightarrow>
     selectedClient s = selectedClient t"
  by (simp add: selectedClient_def)

lemma activeSubscriptions_cong:
  "cc_subscriptions s = cc_subscriptions t \<Longrightarrow> cc_selectedClientId s = cc_selectedClientId t \<Longrightarrow>
     cc_referenceTime s = cc_referenceTime t \<Longrightarrow> activeSubscriptions s = activeSubscriptions t"
  by (simp add: activeSubscriptions_def clientSubscriptions_def)

lemma cc_totalPages_pos [simp]: "0 < cc_totalPages xs sz"
  by (simp add: cc_totalPages_def)

lemma cc_chosen_in: "cc_chosen s t = Some c \<Longrightarrow> c \<in> set (cc_clients s)"
  by (auto simp: cc_chosen_def split: option.splits if_splits dest: js_at_SomeD)

lemma selected_after_choice:
  "c \<in> set (cc_clients s) \<Longrightarrow> cc_selectedClientId s = Some (cc_client_id c) \<Longrightarrow> selectedClient s \<noteq> None"
  by (auto simp: selectedClient_def find_None_iff)

lemma cc_inv_root: "cc_inv (cc_rootState cs ss ref copy)"
  by (simp add: cc_inv_def cc_rootState_def Let_def)

lemma cc_inv_onSelect:
  assumes "cc_inv s" and "cc_screen s = CCSelect"
  shows "cc_inv (cc_onSelect s t copy)"
proof (cases "cc_chosen s t")
  case None
  with assms show ?thesis
    by (auto simp: cc_inv_def cc_onSelect_def Let_def)
next
  case (Some c)
  then have "c \<in> set (cc_clients s)" by (rule cc_chosen_in)
  with assms Some show ?thesis
    by (auto simp: cc_inv_def cc_onSelect_def Let_def menuState_def selectedClient_def find_None_iff)
qed

lemma cc_inv_onMenu:
  assumes "cc_inv s" and "cc_screen s = CCMenu"
  shows "cc_inv (cc_onMenu s t copy)"
proof -
  from assms obtain c where "selectedClient s = Some c" by (auto simp: cc_inv_def)
  with assms show ?thesis
    by (auto simp: cc_inv_def cc_onMenu_def Let_def selectedClient_def find_None_iff)
qed

lemma cc_inv_onDetail:
  assumes "cc_inv s" and "cc_screen s = CCProfile \<or> cc_screen s = CCAccessCode"
  shows "cc_inv (cc_onDetail s t copy)"
proof -
  from assms obtain c where "selectedClient s = Some c" by (auto simp: cc_inv_def)
  with assms show ?thesis
    by (auto simp: cc_inv_def cc_onDetail_def Let_def menuState_def selectedClient_def find_None_iff)
qed

lemma cc_inv_onSubscriptions:
  assumes "cc_inv s" and "cc_screen s = CCSubscriptions"
  shows "cc_inv (cc_onSubscriptions s t copy)"
proof -
  from assms obtain c where c: "selectedClient s = Some c" by (auto simp: cc_inv_def)
  with assms show ?thesis
    by (auto simp: cc_inv_def cc_onSubscriptions_def Let_def menuState_def selectedClient_def
        activeSubscriptions_def clientSubscriptions_def find_None_iff)
qed

lemma cc_inv_transition:
  assumes "cc_inv s"
  shows "cc_inv (transitionClientConsole s e copy)"
proof (cases e)
  case (CCMessage raw)
  show ?thesis
  proof (cases "cc_screen s")
    case CCBack
    with assms CCMessage show ?thesis by (simp add: cc_inv_def Let_def)
  next
    case CCCancelled
    with assms CCMessage show ?thesis by (simp add: cc_inv_def Let_def)
  qed (use assms CCMessage in \<open>simp_all add: Let_def cc_inv_onSelect cc_inv_onMenu cc_inv_onDetail
      cc_inv_onSubscriptions\<close>)
qed (simp add: cc_inv_root)

lemma cc_inv_run: "cc_inv s \<Longrightarrow> cc_inv (cc_run copy s es)"
  by (induction es arbitrary: s) (auto simp: cc_inv_transition)

lemma cc_inv_create: "cc_inv (createClientConsoleState cs ss ref copy)"
  by (simp add: createClientConsoleState_def cc_inv_root)

lemma cc_chosen_number:
  assumes "cc_page s * CLIENT_PAGE_SIZE + i < length (cc_clients s)"
  shows "cc_chosen s (nat_to_string (i + 1)) = Some (cc_clients s ! (cc_page s * CLIENT_PAGE_SIZE + i))"
proof -
  have "cc_page s * CLIENT_PAGE_SIZE + nat (1 + int i) - Suc 0 = cc_page s * CLIENT_PAGE_SIZE + i"
    by simp
  with assms show ?thesis by (simp add: cc_chosen_def)
qed

lemma activeSubscriptions_mem:
  assumes "x \<in> set (activeSubscriptions s)"
  shows "x \<in> set (cc_subscriptions s)" "Some (cc_clientId x) = cc_selectedClientId s"
    "cc_status x = ''active''" "time_gt (Date_parse (cc_expiresAt x)) (Date_parse (cc_referenceTime s))"
  using assms by (auto simp: activeSubscriptions_def clientSubscriptions_def Let_def)

lemma cc_data_step:
  "cc_clients (transitionClientConsole s e copy) = cc_clients s"
  "cc_subscriptions (transitionClientConsole s e copy) = cc_subscriptions s"
  "cc_referenceTime (transitionClientConsole s e copy) = cc_referenceTime s"
proof -
  have "cc_clients (transitionClientConsole s e copy) = cc_clients s \<and>
    cc_subscriptions (transitionClientConsole s e copy) = cc_subscriptions s \<and>
    cc_referenceTime (transitionClientConsole s e copy) = cc_referenceTime s"
  proof (cases e)
    case (CCMessage raw)
    then show ?thesis
      by (cases "cc_screen s")
        (auto simp: cc_onSelect_def cc_onMenu_def cc_onDetail_def cc_onSubscriptions_def menuState_def
          Let_def split: option.split)
  qed (simp add: cc_rootState_def Let_def)
  then show "cc_clients (transitionClientConsole s e copy) = cc_clients s"
    "cc_subscriptions (transitionClientConsole s e copy) = cc_subscriptions s"
    "cc_referenceTime (transitionClientConsole s e copy) = cc_referenceTime s" by simp_all
qed

lemma cc_data_run:
  "cc_clients (cc_run copy s es) = cc_clients s"
  "cc_subscriptions (cc_run copy s es) = cc_subscriptions s"
  "cc_referenceTime (cc_run copy s es) = cc_referenceTime s"
  by (induction es arbitrary: s) (simp_all add: cc_data_step)

lemma activeSubscriptions_step:
  "cc_selectedClientId (transitionClientConsole s e copy) = cc_selectedClientId s \<Longrightarrow>
     activeSubscriptions (transitionClientConsole s e copy) = activeSubscriptions s"
  by (rule activeSubscriptions_cong) (simp_all add: cc_data_step)

text \<open>What the console answers when it opens the subscription screen or turns its page.\<close>

lemma page_told:
  assumes "cc_inv s" and "cc_screen (transitionClientConsole s e copy) = CCSubscriptions"
    and "cc_screen s \<noteq> CCSubscriptions \<or> cc_page (transitionClientConsole s e copy) \<noteq> cc_page s"
  obtains client footer where "selectedClient s = Some client"
    and "cc_selectedClientId (transitionClientConsole s e copy) = cc_selectedClientId s"
    and "set footer \<subseteq> {''8. '' @ cc_next copy, ''9. '' @ cc_back copy, ''0. '' @ cc_cancel copy}"
    and "msg_text (last (cc_messages (transitionClientConsole s e copy))) =
      (if activeSubscriptions s = [] then emptySubscriptionMessage s client copy
       else join [CHR 0x0A] (subscriptionLines copy client (activeSubscriptions s)
         (cc_page (transitionClientConsole s e copy))
          (cc_totalPages (activeSubscriptions s) SUBSCRIPTION_PAGE_SIZE) @ footer))"
proof (cases e)
  case CCReset
  with assms(2) have False by (simp add: cc_rootState_def Let_def)
  then show ?thesis ..
next
  case (CCMessage raw)
  show ?thesis
  proof (cases "cc_screen s")
    case CCMenu
    with assms(1) obtain client where client: "selectedClient s = Some client" by (auto simp: cc_inv_def)
    let ?footer = "(if cc_totalPages (activeSubscriptions s) SUBSCRIPTION_PAGE_SIZE > 1 then [''8. '' @ cc_next copy] else []) @
      [''9. '' @ cc_back copy, ''0. '' @ cc_cancel copy]"
    from CCMenu CCMessage client assms(2) show ?thesis
      by (intro that [of client ?footer])
        (auto simp: cc_onMenu_def Let_def push_message_def split: if_splits)
  next
    case CCSubscriptions
    with assms(1) obtain client where client: "selectedClient s = Some client" by (auto simp: cc_inv_def)
    have some: "activeSubscriptions s \<noteq> []"
    proof
      assume "activeSubscriptions s = []"
      with assms(1) CCSubscriptions have "cc_page s = 0"
        by (simp add: cc_inv_def cc_totalPages_def page_count_def SUBSCRIPTION_PAGE_SIZE_def)
      with \<open>activeSubscriptions s = []\<close> CCSubscriptions CCMessage client assms(2,3) show False
        by (auto simp: cc_onSubscriptions_def Let_def menuState_def cc_totalPages_def page_count_def
            SUBSCRIPTION_PAGE_SIZE_def split: if_splits)
    qed
    let ?footer = "(if trim raw = ''9'' \<and> cc_page s - 1 < cc_totalPages (activeSubscriptions s) SUBSCRIPTION_PAGE_SIZE - 1
      then [''8. '' @ cc_next copy] else []) @ [''9. '' @ cc_back copy, ''0. '' @ cc_cancel copy]"
    from CCSubscriptions CCMessage client assms(2,3) some show ?thesis
      by (intro that [of client ?footer])
        (auto simp: cc_onSubscriptions_def Let_def menuState_def push_message_def split: if_splits)
  qed (use CCMessage assms(2) in \<open>auto simp: cc_onSelect_def cc_onDetail_def menuState_def Let_def
      split: if_splits option.splits\<close>)
qed

definition sample_console_copy :: ClientConsoleCopy where
  "sample_console_copy = \<lparr>cc_selectClients = (\<lambda>p n. ''Clients''), cc_clientItem = (\<lambda>n c. cc_fullName c),
     cc_emptyClients = ''No clients'', cc_menu = (\<lambda>c. ''Menu''), cc_profile = (\<lambda>c t st. st),
     cc_subscriptionsHeader = (\<lambda>c p n. ''Subscriptions''), cc_subscriptionItem = (\<lambda>n x. cc_serviceName x),
     cc_emptySubscriptions = ''None'', cc_inactiveSubscriptions = ''Inactive'',
     cc_expiredSubscriptions = ''Expired'', cc_invalid = ''Invalid'', cc_noNextPage = ''Last page'',
     cc_cancelled = ''Cancelled'', cc_back = ''Back'', cc_cancel = ''Cancel'', cc_next = ''Next'',
     cc_accessCode = ''Code''\<rparr>"

definition sample_console_clients :: "ClientConsoleClient list" where
  "sample_console_clients =
     map (\<lambda>n. \<lparr>cc_client_id = n, cc_fullName = n, cc_phone = None, cc_isActive = True\<rparr>)
       [''c1'', ''c2'', ''c3'', ''c4'', ''c5'']"

definition sample_console_subscriptions :: "ClientConsoleSubscription list" where
  "sample_console_subscriptions =
     map (\<lambda>n. \<lparr>cc_sub_id = n, cc_clientId = ''c1'', cc_serviceName = n, cc_planName = ''Basic'',
          cc_startsAt = ''2026-01-01'', cc_expiresAt = ''2026-02-01'',
          cc_status = ''active''\<rparr>)
       [''s1'', ''s2'', ''s3'', ''s4'']"

definition sample_console :: ClientConsoleState where
  "sample_console = createClientConsoleState sample_console_clients sample_console_subscriptions
     ''2026-01-15'' sample_console_copy"

section \<open>Properties\<close>

text \<open>
  C8. In every reachable state of the client console a client of the list is selected on each
  screen about one client, the page of the client list or of the subscription list exists, and
  the branches of the source for a missing client are therefore never taken.
\<close>

theorem client_console_invariant:
  "cc_inv (cc_run copy (createClientConsoleState clients subscriptions referenceTime copy) es)"
  by (rule cc_inv_run) (rule cc_inv_create)

text \<open>
  C9. In every run, an event that opens the subscription screen or turns its page is answered by the
  text of that page: the header with the page number and the number of pages, then, numbered from 1,
  the page's entries of the list of the subscriptions the console was created with that belong to the
  selected client, are active and expire after the reference time, then only the keys 8, 9 and 0. The
  page shown exists and, when that list is not empty, it has an entry; when the list is empty the answer
  is one of the three texts for no subscription.
\<close>

theorem client_console_subscription_page:
  assumes "s = cc_run copy (createClientConsoleState clients subscriptions referenceTime copy) es"
    and "s' = transitionClientConsole s event copy"
    and "cc_screen s' = CCSubscriptions" and "cc_screen s \<noteq> CCSubscriptions \<or> cc_page s' \<noteq> cc_page s"
  shows "\<exists>client listed shown footer.
     client \<in> set clients \<and> cc_selectedClientId s' = Some (cc_client_id client) \<and>
     listed = filter (\<lambda>x. cc_clientId x = cc_client_id client \<and> cc_status x = ''active'' \<and>
       time_gt (Date_parse (cc_expiresAt x)) (Date_parse referenceTime)) subscriptions \<and>
     shown = take 3 (drop (3 * cc_page s') listed) \<and>
     set footer \<subseteq> {''8. '' @ cc_next copy, ''9. '' @ cc_back copy, ''0. '' @ cc_cancel copy} \<and>
     (if listed = []
      then msg_text (last (cc_messages s')) \<in>
        {cc_inactiveSubscriptions copy, cc_expiredSubscriptions copy, cc_emptySubscriptions copy}
      else shown \<noteq> [] \<and> msg_text (last (cc_messages s')) = join [CHR 0x0A]
        ([cc_subscriptionsHeader copy client (cc_page s' + 1) ((length listed + 2) div 3)] @
         map_numbered (cc_subscriptionItem copy) shown @ footer))"
proof -
  have inv: "cc_inv s" and inv': "cc_inv s'"
    unfolding assms(1,2) by (intro cc_inv_run cc_inv_transition cc_inv_create)+
  have data: "cc_clients s = clients" "cc_subscriptions s = subscriptions" "cc_referenceTime s = referenceTime"
    unfolding assms(1) by (simp_all add: cc_data_run createClientConsoleState_def cc_rootState_def Let_def)
  obtain client footer where client: "selectedClient s = Some client"
    and sel: "cc_selectedClientId s' = cc_selectedClientId s"
    and footer: "set footer \<subseteq> {''8. '' @ cc_next copy, ''9. '' @ cc_back copy, ''0. '' @ cc_cancel copy}"
    and told: "msg_text (last (cc_messages s')) = (if activeSubscriptions s = [] then emptySubscriptionMessage s client copy
        else join [CHR 0x0A] (subscriptionLines copy client (activeSubscriptions s) (cc_page s')
          (cc_totalPages (activeSubscriptions s) SUBSCRIPTION_PAGE_SIZE) @ footer))"
    by (rule page_told [OF inv assms(3,4) [unfolded assms(2)], folded assms(2)])
  have id: "cc_selectedClientId s = Some (cc_client_id client)" and mem: "client \<in> set clients"
    using client data(1) by (auto simp: selectedClient_def dest: find_SomeD)
  define listed where "listed = filter (\<lambda>x. cc_clientId x = cc_client_id client \<and> cc_status x = ''active'' \<and>
       time_gt (Date_parse (cc_expiresAt x)) (Date_parse referenceTime)) subscriptions"
  have active: "activeSubscriptions s = listed"
    unfolding activeSubscriptions_def clientSubscriptions_def listed_def Let_def id data
    by (auto intro: filter_cong)
  have p: "cc_page s' < page_count (length listed) 3"
    using inv' assms(3) active activeSubscriptions_step [OF sel [unfolded assms(2)], folded assms(2)]
    by (simp add: cc_inv_def cc_totalPages_def SUBSCRIPTION_PAGE_SIZE_def)
  define shown where "shown = take 3 (drop (3 * cc_page s') listed)"
  have slice: "slice (cc_page s' * 3) (Suc (cc_page s') * 3) listed = shown"
    by (simp add: shown_def slice_def mult.commute)
  have "listed \<noteq> [] \<Longrightarrow> shown \<noteq> [] \<and> page_count (length listed) 3 = (length listed + 2) div 3"
    using page_nonempty [OF _ _ p] slice by (cases listed) (simp_all add: page_count_def)
  then have "if listed = []
      then msg_text (last (cc_messages s')) \<in>
        {cc_inactiveSubscriptions copy, cc_expiredSubscriptions copy, cc_emptySubscriptions copy}
      else shown \<noteq> [] \<and> msg_text (last (cc_messages s')) = join [CHR 0x0A]
        ([cc_subscriptionsHeader copy client (cc_page s' + 1) ((length listed + 2) div 3)] @
         map_numbered (cc_subscriptionItem copy) shown @ footer)"
    using told slice unfolding active
    by (simp add: emptySubscriptionMessage_def subscriptionLines_def cc_totalPages_def SUBSCRIPTION_PAGE_SIZE_def)
  moreover have "cc_selectedClientId s' = Some (cc_client_id client)" using sel id by simp
  ultimately show ?thesis
    using mem footer listed_def shown_def
    by (intro exI [of _ client] exI [of _ listed] exI [of _ shown] exI [of _ footer] conjI)
qed

definition sample_console_page_1 :: ClientConsoleState where
  "sample_console_page_1 = cc_run sample_console_copy sample_console [CCMessage ''1'', CCMessage ''2'']"

theorem client_console_subscription_page_witness:
  "\<exists>footer. msg_text (last (cc_messages
       (transitionClientConsole sample_console_page_1 (CCMessage ''8'') sample_console_copy))) =
     join [CHR 0x0A] ([''Subscriptions'', ''s4''] @ footer)"
proof -
  let ?s = "transitionClientConsole sample_console_page_1 (CCMessage ''8'') sample_console_copy"
  have at: "cc_screen ?s = CCSubscriptions" "cc_page ?s = 1" "cc_page sample_console_page_1 = 0"
    "cc_selectedClientId ?s = Some ''c1''"
    by code_simp+
  have listed: "filter (\<lambda>x. cc_clientId x = ''c1'' \<and> cc_status x = ''active'' \<and>
       time_gt (Date_parse (cc_expiresAt x)) (Date_parse ''2026-01-15'')) sample_console_subscriptions =
     sample_console_subscriptions" by code_simp
  have "cc_screen sample_console_page_1 \<noteq> CCSubscriptions \<or> cc_page ?s \<noteq> cc_page sample_console_page_1"
    using at by simp
  from client_console_subscription_page [OF sample_console_page_1_def [unfolded sample_console_def] refl at(1) this]
  obtain client shown footer where c: "cc_client_id client = ''c1''"
    and shown: "shown = take 3 (drop (3 * cc_page ?s) (filter (\<lambda>x. cc_clientId x = cc_client_id client \<and>
       cc_status x = ''active'' \<and> time_gt (Date_parse (cc_expiresAt x)) (Date_parse ''2026-01-15''))
       sample_console_subscriptions))"
    and told: "shown \<noteq> [] \<Longrightarrow> \<exists>n. msg_text (last (cc_messages ?s)) = join [CHR 0x0A]
        ([cc_subscriptionsHeader sample_console_copy client (cc_page ?s + 1) n] @
         map_numbered (cc_subscriptionItem sample_console_copy) shown @ footer)"
    using at(4) by (fastforce split: if_splits)
  have "shown = [sample_console_subscriptions ! 3]"
    unfolding shown c listed at(2) by (simp add: sample_console_subscriptions_def)
  with told show ?thesis
    by (auto simp: sample_console_copy_def sample_console_subscriptions_def map_numbered_def)
qed

text \<open>
  On the client list, the number i + 1 (other than the keys 8 and 9) opens the menu of the
  i-th client counted from the start of the page, whether or not the page lists that many clients.
\<close>

theorem client_console_selects:
  assumes "cc_screen s = CCSelect" and "i \<noteq> 7" and "i \<noteq> 8"
    and "cc_page s * CLIENT_PAGE_SIZE + i < length (cc_clients s)"
  shows "let s' = transitionClientConsole s (CCMessage (nat_to_string (i + 1))) copy in
     cc_screen s' = CCMenu \<and> cc_page s' = 0 \<and>
     cc_selectedClientId s' = Some (cc_client_id (cc_clients s ! (cc_page s * CLIENT_PAGE_SIZE + i)))"
  using assms(1-3) cc_chosen_number [OF assms(4)]
  by (simp add: Let_def cc_onSelect_def menuState_def nat_to_string_eq_0 nat_to_string_eq_8
      nat_to_string_eq_9)

theorem client_console_selects_witness:
  "let s' = transitionClientConsole sample_console (CCMessage (nat_to_string (4 + 1))) sample_console_copy in
     cc_screen s' = CCMenu \<and> cc_selectedClientId s' = Some ''c5'' \<and>
     length (visibleClients sample_console) = 4"
proof -
  have s: "cc_screen sample_console = CCSelect" "cc_page sample_console = 0"
      "cc_clients sample_console = sample_console_clients"
    by (simp_all add: sample_console_def createClientConsoleState_def cc_rootState_def Let_def)
  have "cc_page sample_console * CLIENT_PAGE_SIZE + 4 < length (cc_clients sample_console)"
    by (simp add: s sample_console_clients_def)
  from client_console_selects [OF s(1) _ _ this, of sample_console_copy] show ?thesis
    by (simp add: Let_def s visibleClients_def length_slice CLIENT_PAGE_SIZE_def
        sample_console_clients_def)
qed

text \<open>
  Paging forward to a page that has a successor leaves the next-page key out of the text, while
  paging back to the same page shows it.
\<close>

lemma forward_page_omits_next:
  assumes "cc_screen s = CCSubscriptions" and "selectedClient s = Some client"
    and "cc_page s + 1 < cc_totalPages (activeSubscriptions s) SUBSCRIPTION_PAGE_SIZE - 1"
  shows "msg_text (last (cc_messages (transitionClientConsole s (CCMessage ''8'') copy))) =
     join [CHR 0x0A]
       (subscriptionLines copy client (activeSubscriptions s) (cc_page s + 1)
          (cc_totalPages (activeSubscriptions s) SUBSCRIPTION_PAGE_SIZE) @
        [''9. '' @ cc_back copy, ''0. '' @ cc_cancel copy])"
proof -
  have "trim ''8'' = ''8''" by code_simp
  with assms show ?thesis by (simp add: cc_onSubscriptions_def Let_def push_message_def)
qed

end
