(* ===== verification/ClientExperience.thy ===== *)
theory ClientExperience
  imports UtilityConsole ClientConsole
begin

text \<open>
  The client's side of the Pro demo (\<open>features/demo/components/client-console-experience.tsx\<close>): what the component reads from the
  workspace for the machine of \<open>ClientConsole\<close>, the texts it gives it, and the request of an access code inside it, which runs the machine of
  \<open>Simulator\<close> and hands back and cancel to the console around it.
\<close>

section \<open>Texts\<close>

definition client_status :: "console_env \<Rightarrow> bool \<Rightarrow> string" where
  "client_status ce is_active = (if is_active then sim ce ''client_active'' [] else sim ce ''client_inactive'' [])"

definition createClientConsoleCopy :: "console_env \<Rightarrow> string \<Rightarrow> ClientConsoleCopy" where
  "createClientConsoleCopy ce tenantName = \<lparr>
     cc_selectClients = (\<lambda>page total. sim ce ''client_select'' [(''page'', nat_to_string page), (''total'', nat_to_string total)]),
     cc_clientItem = (\<lambda>n c. sim ce ''client_item'' [(''number'', nat_to_string n), (''name'', cc_fullName c),
       (''status'', client_status ce (cc_isActive c))]),
     cc_emptyClients = sim ce ''client_empty'' [],
     cc_menu = (\<lambda>c. sim ce ''client_menu_detail'' [(''name'', cc_fullName c)]),
     cc_profile = (\<lambda>c unused status. sim ce ''client_profile'' [(''name'', cc_fullName c), (''provider'', tenantName),
       (''phone'', nullish (cc_phone c) (sim ce ''client_phone_missing'' [])), (''status'', client_status ce (status = ''active''))]),
     cc_subscriptionsHeader = (\<lambda>c page total. sim ce ''client_subscriptions'' [(''name'', cc_fullName c), (''page'', nat_to_string page),
       (''total'', nat_to_string total)]),
     cc_subscriptionItem = (\<lambda>n u. sim ce ''client_subscription_item'' [(''number'', nat_to_string n), (''service'', cc_serviceName u),
       (''plan'', cc_planName u), (''starts'', formatDate ce (cc_startsAt u)), (''expires'', formatDate ce (cc_expiresAt u))]),
     cc_emptySubscriptions = sim ce ''client_subscriptions_empty'' [],
     cc_inactiveSubscriptions = sim ce ''client_subscriptions_inactive'' [],
     cc_expiredSubscriptions = sim ce ''client_subscriptions_expired'' [],
     cc_invalid = sim ce ''invalid_navigation'' [],
     cc_noNextPage = sim ce ''no_next_page'' [],
     cc_cancelled = sim ce ''cancelled'' [],
     cc_back = sim ce ''back'' [],
     cc_cancel = sim ce ''cancel'' [],
     cc_next = sim ce ''next'' [],
     cc_accessCode = sim ce ''client_access_code_selected'' [] \<rparr>"

definition createClientCodeCopy :: "console_env \<Rightarrow> SimulatorCopy" where
  "createClientCodeCopy ce = code_copy ce ''client_access_code_welcome''"

section \<open>State\<close>

text \<open>\<open>cx_code\<close> is the state of the component that requests a code, there while the console's screen is \<open>access-code\<close>.\<close>

record code_state =
  co_sim :: SimulatorState
  co_inputError :: "string option"

record cx_state =
  cx_tenantName :: string
  cx_services :: "SimulatorService list"
  cx_state :: ClientConsoleState
  cx_code :: code_state

type_synonym cx_world = "cx_state console_world"

definition mounted_code :: "console_env \<Rightarrow> SimulatorService list \<Rightarrow> code_state" where
  "mounted_code ce vs = \<lparr>co_sim = createSimulatorState vs (createClientCodeCopy ce), co_inputError = None\<rparr>"

definition initial_cx :: "console_env \<Rightarrow> cx_state" where
  "initial_cx ce = \<lparr> cx_tenantName = md_name (ce_demo ce), cx_services = [],
     cx_state = createClientConsoleState [] [] (md_serverTime (ce_demo ce)) (createClientConsoleCopy ce (md_name (ce_demo ce))),
     cx_code = mounted_code ce [] \<rparr>"

definition cx_world_of :: "console_env \<Rightarrow> DemoWorkspaceRepository \<Rightarrow> cx_world" where
  "cx_world_of ce r = \<lparr> cw_console = initial_cx ce, cw_messages = [], cw_busy = False, cw_loading = True, cw_loadError = False,
     cw_repo = r, cw_calls = [], cw_ops = [] \<rparr>"

section \<open>Loading\<close>

definition client_record :: "Client \<Rightarrow> ClientConsoleClient" where
  "client_record c = \<lparr> cc_client_id = cl_id c, cc_fullName = cl_full_name c, cc_phone = cl_phone c, cc_isActive = cl_is_active c \<rparr>"

definition subscription_record :: "console_env \<Rightarrow> (string \<Rightarrow> string option) \<Rightarrow> (string \<Rightarrow> string option) \<Rightarrow> Subscription \<Rightarrow> ClientConsoleSubscription" where
  "subscription_record ce serviceNames planNames u = \<lparr> cc_sub_id = sb_id u, cc_clientId = sb_client_id u,
     cc_serviceName = nullish (serviceNames (sb_service_id u)) (sim ce ''unknown_service'' []),
     cc_planName = nullish (planNames (sb_plan_id u)) (sim ce ''unknown_plan'' []),
     cc_startsAt = sb_starts_at u, cc_expiresAt = sb_expires_at u, cc_status = sb_status u \<rparr>"

definition cx_loaded :: "console_env \<Rightarrow> Client list \<Rightarrow> Subscription list \<Rightarrow> Service list \<Rightarrow> Profile \<Rightarrow> TenantCodeService list \<Rightarrow> Plan list \<Rightarrow> cx_state \<Rightarrow> cx_state" where
  "cx_loaded ce cs us vs profile codes ps s =
    (let serviceNames = js_map (map (\<lambda>v. (sv_id v, sv_name v)) vs);
         planNames = js_map (map (\<lambda>p. (pl_id p, pl_name p)) ps);
         profileName = nullish (pr_tenant_name profile) (md_name (ce_demo ce)) in
     s\<lparr>cx_tenantName := profileName, cx_services := selected_services codes,
       cx_state := createClientConsoleState (map client_record cs) (map (subscription_record ce serviceNames planNames) us)
         (md_serverTime (ce_demo ce)) (createClientConsoleCopy ce profileName)\<rparr>)"

definition cx_loadWorkspace :: "console_env \<Rightarrow> (cx_state, unit) console_act" where
  "cx_loadWorkspace ce w0 =
    (case ask_clients ce w0 of (rc, w1) \<Rightarrow> (case ask_subscriptions ce w1 of (ru, w2) \<Rightarrow> (case ask_services ce w2 of (rv, w3) \<Rightarrow>
     (case ask_profile ce w3 of (rp, w4) \<Rightarrow> (case ask_codeServices ce w4 of (rk, w5) \<Rightarrow>
       abind (alift (ebind rc (\<lambda>cs. ebind ru (\<lambda>us. ebind rv (\<lambda>vs. ebind rp (\<lambda>p. ebind rk (\<lambda>(k, codes). Inr (cs, us, vs, p, codes)))))))) (\<lambda>(cs, us, vs, p, codes).
       abind (all_of (\<lambda>v. ask_plans ce (sv_id v)) vs) (\<lambda>pss.
       adone (setc (cx_loaded ce cs us vs p codes (concat pss))))) w5)))))"

definition cx_load :: "console_env \<Rightarrow> cx_world \<Rightarrow> cx_world" where
  "cx_load ce w0 = (let w = w0\<lparr>cw_loading := True, cw_loadError := False\<rparr> in
     (case cx_loadWorkspace ce w of
        (Inr _, w') \<Rightarrow> w'\<lparr>cw_loading := False\<rparr>
      | (Inl _, w') \<Rightarrow> w'\<lparr>cw_loadError := True, cw_loading := False\<rparr>))"

section \<open>Messages\<close>

text \<open>A transition of the console, the effect that tells the callbacks, and the component for codes that its screen mounts.\<close>

definition cx_transition :: "console_env \<Rightarrow> string \<Rightarrow> cx_world \<Rightarrow> cx_world" where
  "cx_transition ce txt w = (let s = cw_console w;
       next_state = transitionClientConsole (cx_state s) (CCMessage txt) (createClientConsoleCopy ce (cx_tenantName s));
       mounts = (cc_screen next_state = CCAccessCode \<and> cc_screen (cx_state s) \<noteq> CCAccessCode) in
     seq [setc (\<lambda>s. s\<lparr>cx_state := next_state, cx_code := (if mounts then mounted_code ce (cx_services s) else cx_code s)\<rparr>),
       tell (if cc_screen next_state = CCBack then [OnBack] else if cc_screen next_state = CCCancelled then [OnCancel] else [])] w)"

definition cx_submit :: "console_env \<Rightarrow> string \<Rightarrow> cx_world \<Rightarrow> cx_world" where
  "cx_submit ce typed w = (let txt = trim typed in if txt = [] then w else cx_transition ce txt w)"

definition set_code :: "console_env \<Rightarrow> SimulatorEvent \<Rightarrow> cx_state \<Rightarrow> cx_state" where
  "set_code ce ev s = s\<lparr>cx_code := (cx_code s)\<lparr>co_sim := transitionSimulator (co_sim (cx_code s)) ev (createClientCodeCopy ce)\<rparr>\<rparr>"

definition set_code_error :: "string option \<Rightarrow> cx_state \<Rightarrow> cx_state" where
  "set_code_error err s = s\<lparr>cx_code := (cx_code s)\<lparr>co_inputError := err\<rparr>\<rparr>"

text \<open>\<open>ClientCodeExperience\<close>: its \<open>onBack\<close> sends \<open>9\<close> to the console, its \<open>onCancel\<close> is the console's.\<close>

definition cx_code_submit :: "console_env \<Rightarrow> string \<Rightarrow> cx_world \<Rightarrow> cx_world" where
  "cx_code_submit ce typed w = (let txt = trim typed; m = co_sim (cx_code (cw_console w)) in
     if txt = [] then w
     else if txt = ''0'' then tell [OnCancel] w
     else if txt = ''9'' then
       (if sim_step m = SimEmail then seq [setc (set_code ce SimBack), setc (set_code_error None)] w
        else seq [cx_transition ce ''9'', setc (set_code_error None)] w)
     else seq [setc (set_code_error (input_error ce (sim_services m) (sim_step m) txt)), setc (set_code ce (SimMessage txt))] w)"

definition cx_code_timer :: "console_env \<Rightarrow> cx_world \<Rightarrow> cx_world" where
  "cx_code_timer ce w = (if sim_step (co_sim (cx_code (cw_console w))) = SimProcessing then setc (set_code ce SimProcessingComplete) w else w)"

text \<open>What is on the screen takes the input.\<close>

definition cx_input :: "console_env \<Rightarrow> string \<Rightarrow> cx_world \<Rightarrow> cx_world" where
  "cx_input ce typed w = (if cw_loading w \<or> cw_loadError w then w
     else if cc_screen (cx_state (cw_console w)) = CCAccessCode then cx_code_submit ce typed w else cx_submit ce typed w)"

definition cx_tick :: "console_env \<Rightarrow> cx_world \<Rightarrow> cx_world" where
  "cx_tick ce w = (if \<not> cw_loading w \<and> \<not> cw_loadError w \<and> cc_screen (cx_state (cw_console w)) = CCAccessCode then cx_code_timer ce w else w)"

inductive cx_step :: "console_env \<Rightarrow> cx_world \<Rightarrow> cx_world \<Rightarrow> bool" for ce where
  cx_typed: "cx_step ce w (cx_input ce typed w)"
| cx_ticked: "cx_step ce w (cx_tick ce w)"
| cx_loads: "cx_step ce w (cx_load ce w)"

section \<open>A console that only reads\<close>

definition queries :: "data_op \<Rightarrow> bool" where
  "queries call \<longleftrightarrow> (case call of ListClients \<Rightarrow> True | ListSubscriptions f \<Rightarrow> True | ListServices \<Rightarrow> True | ListPlans k \<Rightarrow> True
     | LoadProfile \<Rightarrow> True | LoadCodeServices \<Rightarrow> True | _ \<Rightarrow> False)"

text \<open>The workspace has exactly the state \<open>s\<close>.\<close>

definition holds_state :: "console_env \<Rightarrow> DemoWorkspaceState \<Rightarrow> DemoWorkspaceRepository \<Rightarrow> bool" where
  "holds_state ce s r \<longleftrightarrow> (\<forall>n. session (ce_demo ce) (ce_clock ce n) r) \<and> state_view (ce_demo ce) r = Some s \<and> ds_pro s \<noteq> None"

lemma holds_same_session:
  "holds_state ce s r \<Longrightarrow> session (ce_demo ce) now t \<Longrightarrow> state_view (ce_demo ce) t = Some s \<Longrightarrow> holds_state ce s t"
  by (auto simp: holds_state_def session_def)

lemma reading_pro:
  assumes "holds_state ce s r" and "now \<in> range (ce_clock ce)"
  shows "holds_state ce s (snd (query (require_pro err (ce_demo ce) now) q r))"
proof -
  obtain p where p: "ds_pro s = Some p" using assms(1) by (auto simp: holds_state_def)
  have r: "session_at (rest_view (ce_demo ce) r) (ce_demo ce) now r" "pro_view (ce_demo ce) r = Some p"
    using assms p by (auto simp: holds_state_def session_at_def pro_view_iff)
  from pro.query_refines [OF this, of err q] obtain t where t: "query (require_pro err (ce_demo ce) now) q r = (q p, t)"
    "session_at (rest_view (ce_demo ce) r) (ce_demo ce) now t" "pro_view (ce_demo ce) t = Some p" by blast
  have "state_view (ce_demo ce) r = Some s" using assms(1) by (simp add: holds_state_def)
  from pro_step_result [OF t(2,3) this] have "state_view (ce_demo ce) t = Some s" using p by (cases s) simp
  then show ?thesis using holds_same_session [OF assms(1), of now t] t by (simp add: session_at_def)
qed

lemma reading_settings:
  assumes "holds_state ce s r" and "now \<in> range (ce_clock ce)"
  shows "holds_state ce s (snd (query (set_requireState (ce_demo ce) now) q r))"
proof -
  have "session (ce_demo ce) now r" "state_view (ce_demo ce) r = Some s" using assms by (auto simp: holds_state_def)
  from sets.query_refines [OF this, of q] obtain t where "query (set_requireState (ce_demo ce) now) q r = (q s, t)"
    "session (ce_demo ce) now t" "state_view (ce_demo ce) t = Some s" by blast
  then show ?thesis using holds_same_session [OF assms(1)] by simp
qed

interpretation reading: data_closed ce "\<lambda>r ops. holds_state ce s r" queries for ce s
proof
  fix call now r and ops :: "data_op list"
  assume q: "queries call" and n: "now \<in> range (ce_clock ce)" and r: "holds_state ce s r"
  show "holds_state ce s (snd (demo_run ((ce_around ce)\<lparr>en_now := now\<rparr>) (ce_demo ce) call r))"
    using q
    by (cases call) (simp_all add: reading_pro [OF r n] reading_settings [OF r n] queries_def demo_run_def Let_def client_list_def client_requireState_def listServices_def
      catalog_requireState_def listPlans_def sub_list_def sub_requireState_def loadProfile_def loadCodeServices_def)
qed

text \<open>A load keeps what its requests keep.\<close>

context data_closed begin

lemma cx_load_keeps:
  assumes "\<And>call. queries call \<Longrightarrow> allowed call"
  shows "act_keeps (on_data J) (cx_loadWorkspace ce)"
proof -
  have ask: "act_keeps (on_data J) (ask_clients ce)" "act_keeps (on_data J) (ask_subscriptions ce)" "act_keeps (on_data J) (ask_services ce)"
    "act_keeps (on_data J) (ask_profile ce)" "act_keeps (on_data J) (ask_codeServices ce)" "act_keeps (on_data J) (ask_plans ce k)" for k
    unfolding ask_defs by (simp_all add: keeps_ask assms queries_def)
  have rest: "act_keeps (on_data J) (abind (alift x) (\<lambda>(cs, us, vs, p, codes). abind (all_of (\<lambda>v. ask_plans ce (sv_id v)) vs) (\<lambda>pss.
       adone (setc (cx_loaded ce cs us vs p codes (concat pss))))))" for x
    by (simp add: act_keeps_bind act_keeps_alift act_keeps_all_of act_keeps_adone ask(6) split: prod.split)
  show ?thesis
  proof (unfold act_keeps_def, intro allI impI)
    fix w :: cx_world
    assume w: "on_data J w"
    obtain rc w1 ru w2 rv w3 rp w4 rk w5 where steps: "ask_clients ce w = (rc, w1)" "ask_subscriptions ce w1 = (ru, w2)"
      "ask_services ce w2 = (rv, w3)" "ask_profile ce w3 = (rp, w4)" "ask_codeServices ce w4 = (rk, w5)"
      by (metis surj_pair)
    have "on_data J w1" "on_data J w2" "on_data J w3" "on_data J w4" "on_data J w5"
      using ask(1-5) w steps unfolding act_keeps_def by (metis snd_conv)+
    then show "on_data J (snd (cx_loadWorkspace ce w))" using rest by (simp add: cx_loadWorkspace_def steps act_keeps_def)
  qed
qed

lemma cx_reload_asks:
  assumes "\<And>call. queries call \<Longrightarrow> allowed call" and "on_data J w"
  shows "on_data J (cx_load ce w)"
proof -
  let ?w = "w\<lparr>cw_loading := True, cw_loadError := False\<rparr>"
  have "on_data J ?w" using assms(2) by (simp add: on_data_def)
  then have "on_data J (snd (cx_loadWorkspace ce ?w))" using cx_load_keeps assms(1) unfolding act_keeps_def by blast
  then show ?thesis
    by (cases "cx_loadWorkspace ce ?w") (simp add: cx_load_def Let_def on_data_def split: sum.split)
qed

end

text \<open>Input and timers ask nothing.\<close>

lemma cx_input_asks [simp]: "on_data J (cx_input ce typed w) = on_data J w" "on_data J (cx_tick ce w) = on_data J w"
  by (simp_all add: cx_input_def cx_submit_def cx_code_submit_def cx_transition_def cx_tick_def cx_code_timer_def Let_def)

interpretation cx_reading: invariant_run "cx_step ce" "on_data (\<lambda>r ops. holds_state ce s r)" for ce s
  by unfold_locales (auto elim!: cx_step.cases intro: reading.cx_reload_asks)

text \<open>The machine of the console is in a reachable state.\<close>

definition cx_inv :: "cx_world \<Rightarrow> bool" where
  "cx_inv w \<longleftrightarrow> cc_inv (cx_state (cw_console w)) \<and> sim_inv (co_sim (cx_code (cw_console w)))"

lemma cx_transition_inv: "cx_inv w \<Longrightarrow> cx_inv (cx_transition ce txt w)"
  by (simp add: cx_transition_def cx_inv_def Let_def cc_inv_transition mounted_code_def sim_inv_create del: transitionClientConsole.simps)

lemma set_code_inv: "cx_inv w \<Longrightarrow> cx_inv (setc (set_code ce ev) w)" "cx_inv w \<Longrightarrow> cx_inv (setc (set_code_error err) w)"
  "cx_inv (tell cs w) = cx_inv w"
  by (simp_all add: cx_inv_def set_code_def set_code_error_def sim_inv_transition)

lemma cx_ask_inv: "act_keeps cx_inv (ask ce call run)"
  by (simp add: act_keeps_def ask_def cx_inv_def split: prod.split)

lemma cx_load_console: "cx_inv w \<Longrightarrow> cx_inv (cx_load ce w)"
proof -
  assume w: "cx_inv w"
  let ?w = "w\<lparr>cw_loading := True, cw_loadError := False\<rparr>"
  have load: "keeps cx_inv (setc (cx_loaded ce cs us vs p codes ps))" for cs us vs p codes ps
    by (simp add: keeps_def cx_inv_def cx_loaded_def Let_def cc_inv_create)
  have rest: "act_keeps cx_inv (abind (alift x) (\<lambda>(cs, us, vs, p, codes). abind (all_of (\<lambda>v. ask_plans ce (sv_id v)) vs) (\<lambda>pss.
       adone (setc (cx_loaded ce cs us vs p codes (concat pss))))))" for x
    by (simp add: act_keeps_bind act_keeps_alift act_keeps_all_of act_keeps_adone ask_plans_def cx_ask_inv load split: prod.split)
  obtain rc w1 ru w2 rv w3 rp w4 rk w5 where steps: "ask_clients ce ?w = (rc, w1)" "ask_subscriptions ce w1 = (ru, w2)"
    "ask_services ce w2 = (rv, w3)" "ask_profile ce w3 = (rp, w4)" "ask_codeServices ce w4 = (rk, w5)" by (metis surj_pair)
  have "cx_inv ?w" using w by (simp add: cx_inv_def)
  then have "cx_inv w1" "cx_inv w2" "cx_inv w3" "cx_inv w4" "cx_inv w5"
    using cx_ask_inv steps unfolding act_keeps_def ask_defs by (metis snd_conv)+
  then have "cx_inv (snd (cx_loadWorkspace ce ?w))" using rest by (simp add: cx_loadWorkspace_def steps act_keeps_def)
  then show "cx_inv (cx_load ce w)"
    by (cases "cx_loadWorkspace ce ?w") (simp add: cx_load_def Let_def cx_inv_def split: sum.split)
qed

interpretation cx: invariant_run "cx_step ce" cx_inv for ce
  by unfold_locales (auto elim!: cx_step.cases intro: cx_load_console
    simp: cx_input_def cx_submit_def cx_code_submit_def cx_tick_def cx_code_timer_def Let_def cx_transition_inv set_code_inv)

lemma cx_start_inv: "cx_inv (cx_world_of ce r)"
  by (simp add: cx_inv_def cx_world_of_def initial_cx_def cc_inv_create mounted_code_def sim_inv_create)

section \<open>Properties\<close>

text \<open>
  C22. A client only reads: whatever is typed into the client's side of the demo, with reloads and timers in between, the state of the
  workspace stays exactly as it was, and the machines behind the screen keep their invariants, \<open>cc_inv\<close> and \<open>sim_inv\<close>.
\<close>

theorem client_reads_only:
  assumes "(cx_step ce)\<^sup>*\<^sup>* (cx_world_of ce r) w" and "workspace_ok ce r" and "state_view (ce_demo ce) r = Some s"
  shows "state_view (ce_demo ce) (cw_repo w) = Some s \<and> cx_inv w"
proof -
  obtain now s' where s': "session (ce_demo ce) now r" "state_view (ce_demo ce) r = Some s'" "demo_inv s'"
    using assms(2) by (auto simp: workspace_ok_def)
  have "session (ce_demo ce) (ce_clock ce n) r" for n using assms(2) session_now [OF s'(1)] by (simp add: workspace_ok_def)
  then have "on_data (\<lambda>r ops. holds_state ce s r) (cx_world_of ce r)"
    using s' assms(3) by (auto simp: on_data_def cx_world_of_def holds_state_def demo_inv_def)
  from cx_reading.inv_run [OF assms(1) this] cx.inv_run [OF assms(1) cx_start_inv] show ?thesis
    by (simp add: on_data_def holds_state_def)
qed

theorem client_reads_only_witness:
  "\<exists>r s. state_view sample_metadata r = Some s \<and>
     state_view sample_metadata (cw_repo (cx_input sample_env ''1'' (cx_load sample_env (cx_world_of sample_env r)))) = Some s"
proof -
  obtain r s where r: "workspace_ok sample_env r" "state_view sample_metadata r = Some s" using sample_serves by blast
  have m: "ce_demo sample_env = sample_metadata" by (simp add: sample_env_def)
  have "(cx_step sample_env)\<^sup>*\<^sup>* (cx_world_of sample_env r) (cx_input sample_env ''1'' (cx_load sample_env (cx_world_of sample_env r)))"
    by (rule cx.run_two [OF cx_loads cx_typed])
  from client_reads_only [OF this r(1), of s] r(2) show ?thesis unfolding m by blast
qed

end
