(* ===== verification/ProSimulator.thy ===== *)
theory ProSimulator
  imports ChatLog
begin

text \<open>
  The menu console of the Pro demo,
  \<^verbatim>\<open>frontend/src/features/demo/services/pro-simulator-machine.ts\<close>: the user chooses between
  requesting a code and operating the console, then a role, then pages through the role's menu.
  \<open>0\<close> cancels, \<open>9\<close> goes back and \<open>8\<close> shows the next page. Page sizes are natural numbers;
  the claims about pages ask for a size above 0, since the source divides by it.
\<close>

record ProSimulatorMenuItem =
  pro_item_id :: string
  pro_item_label :: string

record ProSimulatorCopy =
  pro_welcome :: string
  pro_requestMode :: string
  pro_operationMode :: string
  pro_rolePrompt :: string
  pro_tenantAdminRole :: string
  pro_clientRole :: string
  pro_tenantAdminMenu :: "nat \<Rightarrow> nat \<Rightarrow> string"
  pro_clientMenu :: "nat \<Rightarrow> nat \<Rightarrow> string"
  pro_unavailable :: string
  pro_invalid :: string
  pro_noNextPage :: string
  pro_cancelled :: string
  pro_cancel :: string
  pro_back :: string
  pro_next :: string

datatype ProSimulatorMode = ProRequest | ProOperation

datatype ProSimulatorRole = ProTenantAdmin | ProClient

datatype ProSimulatorScreen = ProModeScreen | ProRoleScreen | ProMenuScreen

record ProSimulatorState =
  pro_screen :: ProSimulatorScreen
  pro_mode :: "ProSimulatorMode option"
  pro_role :: "ProSimulatorRole option"
  pro_page :: nat
  pro_tenantAdminPageSize :: nat
  pro_tenantAdminItems :: "ProSimulatorMenuItem list"
  pro_clientItems :: "ProSimulatorMenuItem list"
  pro_messages :: "chat_message list"

datatype ProSimulatorEvent = ProMessage string | ProSelectMode ProSimulatorMode | ProReset

section \<open>Operations\<close>

definition PAGE_SIZE :: nat where
  "PAGE_SIZE = 4"

definition pro_appendMessage :: "ProSimulatorState \<Rightarrow> chat_role \<Rightarrow> string \<Rightarrow> ProSimulatorState" where
  "pro_appendMessage s r t = s\<lparr>pro_messages := push_message (pro_messages s) r t\<rparr>"

definition menuItems :: "ProSimulatorState \<Rightarrow> ProSimulatorMenuItem list" where
  "menuItems s = (if pro_role s = Some ProClient then pro_clientItems s else pro_tenantAdminItems s)"

definition pageSize :: "ProSimulatorState \<Rightarrow> nat" where
  "pageSize s = (if pro_role s = Some ProClient then PAGE_SIZE else pro_tenantAdminPageSize s)"

definition totalPages :: "ProSimulatorState \<Rightarrow> nat" where
  "totalPages s = page_count (length (menuItems s)) (pageSize s)"

definition visibleItems :: "ProSimulatorState \<Rightarrow> ProSimulatorMenuItem list" where
  "visibleItems s = (let start = pro_page s * pageSize s in slice start (start + pageSize s) (menuItems s))"

definition menuMessage :: "ProSimulatorState \<Rightarrow> ProSimulatorCopy \<Rightarrow> string" where
  "menuMessage s copy =
     (let title = (if pro_role s = Some ProClient
            then pro_clientMenu copy (pro_page s + 1) (totalPages s)
            else pro_tenantAdminMenu copy (pro_page s + 1) (totalPages s))
      in join [CHR 0x0A]
        ([title] @
         map_numbered (\<lambda>n item. nat_to_string n @ ''. '' @ pro_item_label item) (visibleItems s) @
         [''0. '' @ pro_cancel copy, ''9. '' @ pro_back copy] @
         (if pro_page s < totalPages s - 1 then [''8. '' @ pro_next copy] else [])))"

definition modeMessage :: "ProSimulatorCopy \<Rightarrow> string" where
  "modeMessage copy = join [CHR 0x0A]
     [pro_welcome copy, ''1. '' @ pro_requestMode copy, ''2. '' @ pro_operationMode copy,
      ''0. '' @ pro_cancel copy]"

definition roleMessage :: "ProSimulatorCopy \<Rightarrow> string" where
  "roleMessage copy = join [CHR 0x0A]
     [pro_rolePrompt copy, ''1. '' @ pro_tenantAdminRole copy, ''2. '' @ pro_clientRole copy,
      ''0. '' @ pro_cancel copy, ''9. '' @ pro_back copy]"

definition pro_withBot :: "ProSimulatorState \<Rightarrow> string \<Rightarrow> ProSimulatorState" where
  "pro_withBot s t = pro_appendMessage s Bot t"

definition pro_rootState ::
  "ProSimulatorMenuItem list \<Rightarrow> ProSimulatorMenuItem list \<Rightarrow> ProSimulatorCopy \<Rightarrow> nat \<Rightarrow> ProSimulatorState" where
  "pro_rootState tenantAdminItems clientItems copy tenantAdminPageSize =
     pro_withBot
       \<lparr>pro_screen = ProModeScreen, pro_mode = None, pro_role = None, pro_page = 0,
        pro_tenantAdminPageSize = tenantAdminPageSize, pro_tenantAdminItems = tenantAdminItems,
        pro_clientItems = clientItems, pro_messages = []\<rparr>
       (modeMessage copy)"

definition chooseMode ::
  "ProSimulatorState \<Rightarrow> ProSimulatorMode \<Rightarrow> ProSimulatorCopy \<Rightarrow> ProSimulatorState" where
  "chooseMode s mode copy =
     (if mode = ProRequest then
        pro_withBot (s\<lparr>pro_screen := ProModeScreen, pro_mode := Some mode, pro_role := None, pro_page := 0\<rparr>)
          (pro_requestMode copy)
      else
        pro_withBot (s\<lparr>pro_screen := ProRoleScreen, pro_mode := Some mode, pro_role := None, pro_page := 0\<rparr>)
          (roleMessage copy))"

definition createProSimulatorState ::
  "ProSimulatorMenuItem list \<Rightarrow> ProSimulatorMenuItem list \<Rightarrow> ProSimulatorCopy \<Rightarrow> nat \<Rightarrow> ProSimulatorState" where
  "createProSimulatorState tenantAdminItems clientItems copy tenantAdminPageSize =
     pro_rootState tenantAdminItems clientItems copy tenantAdminPageSize"

text \<open>The root state with the menus of the current one, which every cancel and back returns to.\<close>

definition pro_restart :: "ProSimulatorState \<Rightarrow> ProSimulatorCopy \<Rightarrow> ProSimulatorState" where
  "pro_restart s copy =
     pro_rootState (pro_tenantAdminItems s) (pro_clientItems s) copy (pro_tenantAdminPageSize s)"

definition pro_onMode :: "ProSimulatorState \<Rightarrow> string \<Rightarrow> ProSimulatorCopy \<Rightarrow> ProSimulatorState" where
  "pro_onMode s t copy =
     (let withUserMessage = pro_appendMessage s User t in
      if t = ''0'' then pro_withBot (pro_restart s copy) (pro_cancelled copy)
      else if t = ''1'' then chooseMode withUserMessage ProRequest copy
      else if t = ''2'' then chooseMode withUserMessage ProOperation copy
      else pro_withBot withUserMessage (pro_invalid copy))"

definition pro_onRole :: "ProSimulatorState \<Rightarrow> string \<Rightarrow> ProSimulatorCopy \<Rightarrow> ProSimulatorState" where
  "pro_onRole s t copy =
     (let withUserMessage = pro_appendMessage s User t in
      if t = ''0'' then pro_withBot (pro_restart s copy) (pro_cancelled copy)
      else if t = ''9'' then pro_withBot (pro_restart s copy) (modeMessage copy)
      else if t = ''1'' \<or> t = ''2'' then
        (let role = (if t = ''1'' then ProTenantAdmin else ProClient);
             nxt = withUserMessage\<lparr>pro_screen := ProMenuScreen, pro_role := Some role, pro_page := 0\<rparr>
         in pro_withBot nxt (menuMessage nxt copy))
      else pro_withBot withUserMessage (pro_invalid copy))"

definition pro_selected :: "ProSimulatorState \<Rightarrow> string \<Rightarrow> ProSimulatorMenuItem option" where
  "pro_selected s t = (case parseInt t of
       None \<Rightarrow> None
     | Some selection \<Rightarrow> if selection > 0
         then js_at (menuItems s) (pro_page s * pageSize s + nat selection - 1) else None)"

definition pro_onMenu :: "ProSimulatorState \<Rightarrow> string \<Rightarrow> ProSimulatorCopy \<Rightarrow> ProSimulatorState" where
  "pro_onMenu s t copy =
     (let withUserMessage = pro_appendMessage s User t in
      if t = ''0'' then pro_withBot (pro_restart s copy) (pro_cancelled copy)
      else if t = ''9'' then
        (if pro_page s > 0 then
           (let nxt = withUserMessage\<lparr>pro_page := pro_page s - 1\<rparr> in pro_withBot nxt (menuMessage nxt copy))
         else
           pro_withBot (withUserMessage\<lparr>pro_screen := ProRoleScreen, pro_role := None, pro_page := 0\<rparr>)
             (roleMessage copy))
      else if t = ''8'' then
        (if pro_page s \<ge> totalPages s - 1 then pro_withBot withUserMessage (pro_noNextPage copy)
         else
           (let nxt = withUserMessage\<lparr>pro_page := pro_page s + 1\<rparr> in pro_withBot nxt (menuMessage nxt copy)))
      else
        (case pro_selected s t of
           Some _ \<Rightarrow> pro_withBot withUserMessage (pro_unavailable copy)
         | None \<Rightarrow> pro_withBot withUserMessage (pro_invalid copy)))"

fun transitionProSimulator ::
  "ProSimulatorState \<Rightarrow> ProSimulatorEvent \<Rightarrow> ProSimulatorCopy \<Rightarrow> ProSimulatorState" where
  "transitionProSimulator s ProReset copy = pro_restart s copy"
| "transitionProSimulator s (ProSelectMode mode) copy = chooseMode s mode copy"
| "transitionProSimulator s (ProMessage raw) copy =
     (let t = trim raw in
      case pro_screen s of
        ProModeScreen \<Rightarrow> pro_onMode s t copy
      | ProRoleScreen \<Rightarrow> pro_onRole s t copy
      | ProMenuScreen \<Rightarrow> pro_onMenu s t copy)"

abbreviation pro_run ::
  "ProSimulatorCopy \<Rightarrow> ProSimulatorState \<Rightarrow> ProSimulatorEvent list \<Rightarrow> ProSimulatorState" where
  "pro_run copy \<equiv> chat_run (\<lambda>s e. transitionProSimulator s e copy)"

lemmas pro_step_defs = pro_onMode_def pro_onRole_def pro_onMenu_def chooseMode_def pro_restart_def
  pro_rootState_def pro_withBot_def

section \<open>Frame facts\<close>

lemma pro_appendMessage_fields [simp]:
  "pro_screen (pro_appendMessage s r t) = pro_screen s"
  "pro_mode (pro_appendMessage s r t) = pro_mode s"
  "pro_role (pro_appendMessage s r t) = pro_role s"
  "pro_page (pro_appendMessage s r t) = pro_page s"
  "pro_tenantAdminPageSize (pro_appendMessage s r t) = pro_tenantAdminPageSize s"
  "pro_tenantAdminItems (pro_appendMessage s r t) = pro_tenantAdminItems s"
  "pro_clientItems (pro_appendMessage s r t) = pro_clientItems s"
  "pro_messages (pro_appendMessage s r t) = push_message (pro_messages s) r t"
  by (simp_all add: pro_appendMessage_def)

lemma menuItems_appendMessage [simp]: "menuItems (pro_appendMessage s r t) = menuItems s"
  by (simp add: menuItems_def)

lemma pageSize_appendMessage [simp]: "pageSize (pro_appendMessage s r t) = pageSize s"
  by (simp add: pageSize_def)

lemma totalPages_appendMessage [simp]: "totalPages (pro_appendMessage s r t) = totalPages s"
  by (simp add: totalPages_def)

lemma totalPages_update_page [simp]: "totalPages (s\<lparr>pro_page := p\<rparr>) = totalPages s"
  by (simp add: totalPages_def menuItems_def pageSize_def)

lemma transitionProSimulator_log:
  "extends_log (pro_messages s) (pro_messages (transitionProSimulator s e copy))"
proof (cases e)
  case (ProMessage raw)
  then show ?thesis
    by (cases "pro_screen s")
      (auto simp: pro_step_defs Let_def chat_simps split: option.splits)
qed (auto simp: pro_step_defs chat_simps)

interpretation pro_chat: chat_machine pro_messages
  "\<lambda>s. \<exists>ta ci sz. s = createProSimulatorState ta ci copy sz"
  "\<lambda>s e. transitionProSimulator s e copy" for copy
proof
  fix s
  assume "\<exists>ta ci sz. s = createProSimulatorState ta ci copy sz"
  then show "numbered (pro_messages s) \<and> pro_messages s \<noteq> []"
    by (auto simp: createProSimulatorState_def pro_rootState_def pro_withBot_def)
qed (rule transitionProSimulator_log)

section \<open>The invariant\<close>

text \<open>
  The menu screen has a role and shows an existing page; the other screens have neither role nor
  page; the role and menu screens are reached in operation mode only.
\<close>

definition pro_inv :: "ProSimulatorState \<Rightarrow> bool" where
  "pro_inv s \<longleftrightarrow>
     (if pro_screen s = ProMenuScreen then pro_role s \<noteq> None \<and> pro_page s < totalPages s
      else pro_role s = None \<and> pro_page s = 0) \<and>
     (pro_screen s \<noteq> ProModeScreen \<longrightarrow> pro_mode s = Some ProOperation) \<and>
     (pro_screen s = ProModeScreen \<longrightarrow> pro_mode s \<noteq> Some ProOperation)"

lemma totalPages_pos [simp]: "0 < totalPages s"
  by (simp add: totalPages_def)

lemma pro_inv_restart: "pro_inv (pro_restart s copy)"
  by (simp add: pro_inv_def pro_restart_def pro_rootState_def pro_withBot_def)

lemma pro_inv_chooseMode: "pro_inv (chooseMode s mode copy)"
  by (cases mode) (simp_all add: pro_inv_def chooseMode_def pro_withBot_def)

lemma pro_inv_withBot [simp]: "pro_inv (pro_withBot s t) = pro_inv s"
  by (simp add: pro_inv_def pro_withBot_def)

lemma pro_inv_appendMessage [simp]: "pro_inv (pro_appendMessage s r t) = pro_inv s"
  by (simp add: pro_inv_def)

lemma pro_inv_onMode: "pro_inv s \<Longrightarrow> pro_inv (pro_onMode s t copy)"
  by (simp add: pro_onMode_def Let_def pro_inv_restart pro_inv_chooseMode)

lemma pro_inv_onRole:
  "pro_inv s \<Longrightarrow> pro_screen s = ProRoleScreen \<Longrightarrow> pro_inv (pro_onRole s t copy)"
  by (simp add: pro_onRole_def Let_def pro_inv_restart) (simp add: pro_inv_def)

lemma pro_inv_onMenu:
  "pro_inv s \<Longrightarrow> pro_screen s = ProMenuScreen \<Longrightarrow> pro_inv (pro_onMenu s t copy)"
  by (auto simp: pro_onMenu_def Let_def pro_inv_restart split: option.splits) (auto simp: pro_inv_def)

lemma pro_inv_transition: "pro_inv s \<Longrightarrow> pro_inv (transitionProSimulator s e copy)"
proof (cases e)
  case (ProMessage raw)
  assume "pro_inv s"
  with ProMessage show ?thesis
    by (cases "pro_screen s") (simp_all add: Let_def pro_inv_onMode pro_inv_onRole pro_inv_onMenu)
qed (simp_all add: pro_inv_chooseMode pro_inv_restart)

lemma pro_inv_run: "pro_inv s \<Longrightarrow> pro_inv (pro_run copy s es)"
  by (induction es arbitrary: s) (auto simp: pro_inv_transition)

lemma pro_inv_create: "pro_inv (createProSimulatorState ta ci copy sz)"
  by (simp add: createProSimulatorState_def pro_rootState_def pro_withBot_def pro_inv_def)

lemma visibleItems_page:
  "visibleItems (s\<lparr>pro_page := p\<rparr>) = slice (p * pageSize s) (p * pageSize s + pageSize s) (menuItems s)"
  by (simp add: visibleItems_def menuItems_def pageSize_def Let_def)

lemma pro_selected_visible:
  assumes "i < length (visibleItems s)"
  shows "pro_selected s (nat_to_string (i + 1)) = Some (visibleItems s ! i)"
proof -
  let ?a = "pro_page s * pageSize s"
  have v: "visibleItems s = slice ?a (?a + pageSize s) (menuItems s)"
    by (simp add: visibleItems_def Let_def)
  have "?a + i < length (menuItems s)" "visibleItems s ! i = menuItems s ! (?a + i)"
    using slice_bound slice_nth assms unfolding v by blast+
  moreover have "?a + nat (1 + int i) - Suc 0 = ?a + i" by simp
  ultimately show ?thesis by (simp add: pro_selected_def del: nat_to_string.simps)
qed

definition sample_pro_copy :: ProSimulatorCopy where
  "sample_pro_copy = \<lparr>pro_welcome = ''Hi'', pro_requestMode = ''Request'', pro_operationMode = ''Operate'',
     pro_rolePrompt = ''Role?'', pro_tenantAdminRole = ''Admin'', pro_clientRole = ''Client'',
     pro_tenantAdminMenu = (\<lambda>p n. ''Admin menu''), pro_clientMenu = (\<lambda>p n. ''Client menu''),
     pro_unavailable = ''Not in the demo'', pro_invalid = ''Invalid'', pro_noNextPage = ''Last page'',
     pro_cancelled = ''Cancelled'', pro_cancel = ''Cancel'', pro_back = ''Back'', pro_next = ''Next''\<rparr>"

definition sample_pro_items :: "ProSimulatorMenuItem list" where
  "sample_pro_items = map (\<lambda>n. \<lparr>pro_item_id = n, pro_item_label = n\<rparr>)
     [''clients'', ''catalog'', ''plans'', ''subscriptions'', ''settings'', ''mailbox'', ''codes'', ''help'']"

section \<open>Properties\<close>

text \<open>
  C5. Every reachable state of the Pro console is well formed: the menu screen always has a role
  and an existing page of that role's menu, the other screens have neither, and role and menu are
  reached in operation mode only.
\<close>

theorem pro_simulator_invariant:
  assumes "0 < sz"
  shows "pro_inv (pro_run copy (createProSimulatorState ta ci copy sz) es)"
  by (rule pro_inv_run) (rule pro_inv_create)

theorem pro_simulator_invariant_witness:
  "pro_inv (pro_run sample_pro_copy (createProSimulatorState sample_pro_items [] sample_pro_copy 7)
     [ProMessage ''2'', ProMessage ''1'', ProMessage ''8'', ProMessage ''x''])"
  by (rule pro_simulator_invariant) simp

text \<open>
  The pages of a menu partition it: shown one after the other, the pages from the first to the
  last list every item of the role's menu exactly once and in order.
\<close>

theorem pro_menu_pages_cover:
  assumes "0 < pageSize s"
  shows "concat (map (\<lambda>p. visibleItems (s\<lparr>pro_page := p\<rparr>)) [0..<totalPages s]) = menuItems s"
  unfolding visibleItems_page totalPages_def by (rule pages_cover [OF assms])

theorem pro_menu_pages_cover_witness:
  "let s = createProSimulatorState sample_pro_items [] sample_pro_copy 7 in
   concat (map (\<lambda>p. visibleItems (s\<lparr>pro_page := p\<rparr>)) [0..<totalPages s]) = menuItems s"
  unfolding Let_def
  by (rule pro_menu_pages_cover)
    (simp add: pageSize_def createProSimulatorState_def pro_rootState_def pro_withBot_def)

text \<open>
  With a page of at most seven entries, as the simulator uses, the numbers shown never collide
  with the navigation keys: typing the number of any entry of the page is answered as a choice of
  exactly that entry, and the console stays on the page.
\<close>

theorem pro_menu_numbers_selectable:
  assumes "pro_screen s = ProMenuScreen" and "pageSize s \<le> 7" and "i < length (visibleItems s)"
  shows "pro_selected s (nat_to_string (i + 1)) = Some (visibleItems s ! i) \<and>
     transitionProSimulator s (ProMessage (nat_to_string (i + 1))) copy =
       pro_withBot (pro_appendMessage s User (nat_to_string (i + 1))) (pro_unavailable copy)"
proof -
  have "i < 7"
    using assms(2,3) slice_bound [of i] by (fastforce simp: visibleItems_def Let_def)
  then have "nat_to_string (i + 1) \<noteq> ''0''" "nat_to_string (i + 1) \<noteq> ''8''" "nat_to_string (i + 1) \<noteq> ''9''"
    by (simp_all add: nat_to_string_eq_0 nat_to_string_eq_8 nat_to_string_eq_9)
  then show ?thesis
    using assms(1) pro_selected_visible [OF assms(3)] by (simp add: pro_onMenu_def Let_def)
qed

definition sample_pro_menu :: ProSimulatorState where
  "sample_pro_menu = (createProSimulatorState sample_pro_items [] sample_pro_copy 7)
     \<lparr>pro_screen := ProMenuScreen, pro_mode := Some ProOperation, pro_role := Some ProTenantAdmin\<rparr>"

theorem pro_menu_numbers_selectable_witness:
  "transitionProSimulator sample_pro_menu (ProMessage (nat_to_string (6 + 1))) sample_pro_copy =
     pro_withBot (pro_appendMessage sample_pro_menu User (nat_to_string (6 + 1))) ''Not in the demo''"
proof -
  have "pro_screen sample_pro_menu = ProMenuScreen" "pageSize sample_pro_menu \<le> 7"
    "6 < length (visibleItems sample_pro_menu)"
    by (simp_all add: sample_pro_menu_def sample_pro_items_def pageSize_def visibleItems_def
        menuItems_def slice_def createProSimulatorState_def pro_rootState_def pro_withBot_def Let_def)
  from pro_menu_numbers_selectable [OF this, of sample_pro_copy] show ?thesis
    by (simp add: sample_pro_copy_def)
qed

end
