(* ===== verification/ExportStore.thy ===== *)
theory ExportStore
  imports ApiRequests StepRuns
begin

text \<open>
  The store behind the data export page (\<open>features/admin/stores/export-store.ts\<close>, with the
  requests of \<open>settings-api.ts\<close>): asynchronous handlers that run up to their \<open>await\<close>, replies that resume
  them in any order, and an interval timer. The world has the state of the store, the intervals alive in the browser,
  and the handlers that wait. The main result: however calls, replies and ticks interleave, no interval
  is ever leaked, and polling runs while the job can still change and stops when it cannot.
\<close>

section \<open>Jobs\<close>

datatype ExportJobStatus = Pending | Processing | Ready | Failed | Cancelled

record PreviousReadyInfo =
  pr_id :: string
  pr_ready_at :: "string option"
  pr_artifact_size_bytes :: "int option"
  pr_expires_at :: "string option"

text \<open>Optional and nullable members are both options.\<close>

record ExportJobStatusResponse =
  ej_id :: string
  ej_tenant_id :: "string option"
  ej_status :: ExportJobStatus
  ej_created_at :: string
  ej_ready_at :: "string option"
  ej_expires_at :: "string option"
  ej_artifact_size_bytes :: "int option"
  ej_error_code :: "string option"
  ej_error_detail :: "string option"
  ej_attempt :: int
  ej_max_attempts :: int
  ej_attempts :: "int option"
  ej_failed_at :: "string option"
  ej_cooldown_until :: "string option"
  ej_actor_role :: "string option"
  ej_replaced_job_id :: "string option"
  ej_replacement_job_id :: "string option"
  ej_previous_ready :: "PreviousReadyInfo option"

record ExportDownloadResponse =
  ed_download_url :: string
  ed_expires_in :: int

section \<open>Requests\<close>

definition requestExport_api :: api_request where
  "requestExport_api = Request POST ''/me/export'' None"

definition getExportStatus_api :: api_request where
  "getExportStatus_api = api_get ''/me/export''"

definition getExportDownloadUrl_api :: api_request where
  "getExportDownloadUrl_api = api_get ''/me/export/download''"

definition cancelExport_api :: api_request where
  "cancelExport_api = Request POST ''/me/export/cancel'' None"

text \<open>A status reply: an error, or the job. The wrapper reads status 204 of an error as no job.\<close>

definition getExportStatus_reply :: "js + ExportJobStatusResponse option \<Rightarrow> js + ExportJobStatusResponse option" where
  "getExportStatus_reply reply = (case reply of
     Inr data \<Rightarrow> Inr data
   | Inl err \<Rightarrow> if error_status err = Some (JNum 204) then Inr None else Inl err)"

section \<open>The store\<close>

record ExportState =
  ex_job :: "ExportJobStatusResponse option"
  ex_pollTimer :: "nat option"
  ex_requesting :: bool
  ex_statusLoading :: bool
  ex_downloadLoading :: bool
  ex_cancelling :: bool
  ex_downloadUrl :: "string option"
  ex_error :: "js option"

definition initial_export :: ExportState where
  "initial_export = \<lparr> ex_job = None, ex_pollTimer = None, ex_requesting = False, ex_statusLoading = False,
     ex_downloadLoading = False, ex_cancelling = False, ex_downloadUrl = None, ex_error = None \<rparr>"

definition isPollable :: "ExportJobStatus \<Rightarrow> bool" where
  "isPollable st = (st = Pending \<or> st = Processing)"

text \<open>\<open>error?.response?.data?.detail\<close>, and the message made of it; \<open>t\<close> is the translation.\<close>

definition error_detail :: "js \<Rightarrow> js option" where
  "error_detail err = Option.bind (Option.bind (jget err ''response'') (\<lambda>r. jget r ''data'')) (\<lambda>d. jget d ''detail'')"

definition getExportError :: "(string \<Rightarrow> string) \<Rightarrow> js \<Rightarrow> string \<Rightarrow> js" where
  "getExportError t err fallbackKey = (let detail = error_detail err in
     if detail = Some (JStr ''No ready export available'') then JStr (t ''frontend.my_account.data_error_no_ready'')
     else if js_truthy detail then the detail else JStr (t fallbackKey))"

text \<open>
  Handlers waiting for a reply: a status refresh (which \<open>cancelExport\<close> may be waiting for), a
  request, a cancellation, a download; and the rest of \<open>cancelExport\<close> once its refresh is done.
\<close>

datatype waiting = WaitStatus bool | WaitRequest | WaitCancel | WaitDownload | CancelDone

record ExportWorld =
  w_state :: ExportState
  w_live :: "nat list"
  w_next :: nat
  w_waiting :: "waiting list"

definition new_world :: ExportWorld where
  "new_world = \<lparr> w_state = initial_export, w_live = [], w_next = 0, w_waiting = [] \<rparr>"

definition set_state :: "(ExportState \<Rightarrow> ExportState) \<Rightarrow> ExportWorld \<Rightarrow> ExportWorld" where
  "set_state f w = w\<lparr>w_state := f (w_state w)\<rparr>"

definition wait_for :: "waiting \<Rightarrow> ExportWorld \<Rightarrow> ExportWorld" where
  "wait_for h w = w\<lparr>w_waiting := w_waiting w @ [h]\<rparr>"

definition startPolling :: "ExportWorld \<Rightarrow> ExportWorld" where
  "startPolling w = (if ex_pollTimer (w_state w) \<noteq> None then w
     else set_state (\<lambda>s. s\<lparr>ex_pollTimer := Some (w_next w)\<rparr>) (w\<lparr>w_live := w_live w @ [w_next w], w_next := w_next w + 1\<rparr>))"

definition stopPolling :: "ExportWorld \<Rightarrow> ExportWorld" where
  "stopPolling w = (case ex_pollTimer (w_state w) of
     None \<Rightarrow> w
   | Some timer \<Rightarrow> set_state (\<lambda>s. s\<lparr>ex_pollTimer := None\<rparr>) (w\<lparr>w_live := removeAll timer (w_live w)\<rparr>))"

definition refreshStatus :: "bool \<Rightarrow> ExportWorld \<Rightarrow> ExportWorld" where
  "refreshStatus for_cancel w =
     wait_for (WaitStatus for_cancel) (set_state (\<lambda>s. s\<lparr>ex_statusLoading := True, ex_error := None\<rparr>) w)"

text \<open>The rest of \<open>refreshStatus\<close>; the cancellation that waits for it goes on afterwards.\<close>

definition status_reply :: "(string \<Rightarrow> string) \<Rightarrow> js + ExportJobStatusResponse option \<Rightarrow> ExportWorld \<Rightarrow> ExportWorld" where
  "status_reply t reply w = (case getExportStatus_reply reply of
     Inr None \<Rightarrow> set_state (\<lambda>s. s\<lparr>ex_job := None, ex_statusLoading := False, ex_downloadUrl := None\<rparr>) w
   | Inr (Some result) \<Rightarrow>
       (let w1 = set_state (\<lambda>s. s\<lparr>ex_job := Some result, ex_statusLoading := False, ex_error := None\<rparr>) w in
        if isPollable (ej_status result) then startPolling w1 else stopPolling w1)
   | Inl err \<Rightarrow> set_state (\<lambda>s. s\<lparr>ex_error := Some (getExportError t err ''frontend.my_account.data_error_status''), ex_statusLoading := False\<rparr>) w)"

definition requestExport :: "ExportWorld \<Rightarrow> ExportWorld" where
  "requestExport w =
     wait_for WaitRequest (set_state (\<lambda>s. s\<lparr>ex_requesting := True, ex_error := None, ex_downloadUrl := None\<rparr>) w)"

definition request_reply :: "(string \<Rightarrow> string) \<Rightarrow> js + ExportJobStatusResponse \<Rightarrow> ExportWorld \<Rightarrow> ExportWorld" where
  "request_reply t reply w = (case reply of
     Inr result \<Rightarrow> (let w1 = set_state (\<lambda>s. s\<lparr>ex_job := Some result, ex_requesting := False, ex_error := None\<rparr>) w in
        if isPollable (ej_status result) then startPolling w1 else w1)
   | Inl err \<Rightarrow> set_state (\<lambda>s. s\<lparr>ex_error := Some (getExportError t err ''frontend.my_account.data_error_request''), ex_requesting := False\<rparr>) w)"

definition cancelExport :: "ExportWorld \<Rightarrow> ExportWorld" where
  "cancelExport w = wait_for WaitCancel (set_state (\<lambda>s. s\<lparr>ex_cancelling := True, ex_error := None\<rparr>) w)"

definition cancel_reply :: "(string \<Rightarrow> string) \<Rightarrow> js + js \<Rightarrow> ExportWorld \<Rightarrow> ExportWorld" where
  "cancel_reply t reply w = (case reply of
     Inr _ \<Rightarrow> refreshStatus True w
   | Inl err \<Rightarrow> set_state (\<lambda>s. s\<lparr>ex_error := Some (getExportError t err ''frontend.my_account.data_error_cancel''), ex_cancelling := False\<rparr>) w)"

definition cancel_done :: "ExportWorld \<Rightarrow> ExportWorld" where
  "cancel_done = set_state (\<lambda>s. s\<lparr>ex_cancelling := False, ex_error := None\<rparr>)"

definition download :: "ExportWorld \<Rightarrow> ExportWorld" where
  "download w = wait_for WaitDownload (set_state (\<lambda>s. s\<lparr>ex_downloadLoading := True, ex_error := None\<rparr>) w)"

text \<open>The value is what the promise of \<open>download\<close> resolves to.\<close>

definition download_reply :: "(string \<Rightarrow> string) \<Rightarrow> js + ExportDownloadResponse \<Rightarrow> ExportWorld \<Rightarrow> string option \<times> ExportWorld" where
  "download_reply t reply w = (case reply of
     Inr result \<Rightarrow> (Some (ed_download_url result),
        set_state (\<lambda>s. s\<lparr>ex_downloadUrl := Some (ed_download_url result), ex_downloadLoading := False\<rparr>) w)
   | Inl err \<Rightarrow> (None, set_state (\<lambda>s. s\<lparr>ex_error := Some (getExportError t err ''frontend.my_account.data_error_download''),
        ex_downloadLoading := False, ex_downloadUrl := None\<rparr>) w))"

text \<open>The callback of the interval.\<close>

definition poll_tick :: "ExportWorld \<Rightarrow> ExportWorld" where
  "poll_tick w = (case ex_job (w_state w) of
     None \<Rightarrow> stopPolling w
   | Some job \<Rightarrow> if \<not> isPollable (ej_status job) then stopPolling w else refreshStatus False w)"

definition export_reset :: "ExportWorld \<Rightarrow> ExportWorld" where
  "export_reset w = set_state (\<lambda>_. initial_export) (stopPolling w)"

section \<open>Steps\<close>

definition take_waiting :: "nat \<Rightarrow> ExportWorld \<Rightarrow> ExportWorld" where
  "take_waiting i w = w\<lparr>w_waiting := take i (w_waiting w) @ drop (Suc i) (w_waiting w)\<rparr>"

text \<open>
  A step is a call of the page, the reply to any waiting handler, or a tick of any live interval. Replies come in
  any order; a finished refresh queues the rest of the cancellation that waits for it.
\<close>

inductive export_step :: "ExportWorld \<Rightarrow> ExportWorld \<Rightarrow> bool" where
  call_refresh: "export_step w (refreshStatus False w)"
| call_request: "export_step w (requestExport w)"
| call_cancel: "export_step w (cancelExport w)"
| call_download: "export_step w (download w)"
| call_reset: "export_step w (export_reset w)"
| tick: "k \<in> set (w_live w) \<Longrightarrow> export_step w (poll_tick w)"
| reply_status: "i < length (w_waiting w) \<Longrightarrow> w_waiting w ! i = WaitStatus c \<Longrightarrow>
    export_step w ((if c then wait_for CancelDone else id) (status_reply t reply (take_waiting i w)))"
| reply_request: "i < length (w_waiting w) \<Longrightarrow> w_waiting w ! i = WaitRequest \<Longrightarrow>
    export_step w (request_reply t reply' (take_waiting i w))"
| reply_cancel: "i < length (w_waiting w) \<Longrightarrow> w_waiting w ! i = WaitCancel \<Longrightarrow>
    export_step w (cancel_reply t reply'' (take_waiting i w))"
| reply_download: "i < length (w_waiting w) \<Longrightarrow> w_waiting w ! i = WaitDownload \<Longrightarrow>
    export_step w (snd (download_reply t url (take_waiting i w)))"
| resume_cancel: "i < length (w_waiting w) \<Longrightarrow> w_waiting w ! i = CancelDone \<Longrightarrow>
    export_step w (cancel_done (take_waiting i w))"

section \<open>Timers\<close>

text \<open>The intervals alive are the one that the store knows.\<close>

definition timers_ok :: "ExportWorld \<Rightarrow> bool" where
  "timers_ok w \<longleftrightarrow> w_live w = (case ex_pollTimer (w_state w) of None \<Rightarrow> [] | Some k \<Rightarrow> [k])"

text \<open>A job that can still change is being polled.\<close>

definition polled :: "ExportWorld \<Rightarrow> bool" where
  "polled w \<longleftrightarrow> (case ex_job (w_state w) of None \<Rightarrow> True | Some job \<Rightarrow> isPollable (ej_status job) \<longrightarrow> w_live w \<noteq> [])"

named_theorems export_ops
lemmas [export_ops] = set_state_def wait_for_def take_waiting_def refreshStatus_def requestExport_def cancelExport_def
  download_def cancel_done_def export_reset_def initial_export_def

lemma set_state_fields [simp]:
  "w_live (set_state f w) = w_live w" "w_waiting (set_state f w) = w_waiting w" "w_state (set_state f w) = f (w_state w)"
  by (simp_all add: set_state_def)

lemma startPolling_fields [simp]:
  "ex_job (w_state (startPolling w)) = ex_job (w_state w)"
  "timers_ok w \<Longrightarrow> timers_ok (startPolling w) \<and> w_live (startPolling w) \<noteq> []"
  by (auto simp: startPolling_def timers_ok_def set_state_def split: option.splits)

lemma stopPolling_fields [simp]:
  "ex_job (w_state (stopPolling w)) = ex_job (w_state w)"
  "timers_ok w \<Longrightarrow> timers_ok (stopPolling w) \<and> w_live (stopPolling w) = []"
  by (auto simp: stopPolling_def timers_ok_def set_state_def split: option.splits)

definition export_inv :: "ExportWorld \<Rightarrow> bool" where
  "export_inv w \<longleftrightarrow> timers_ok w \<and> polled w"

text \<open>An update that keeps job and timer keeps the invariant, and so does taking or adding a waiting handler.\<close>

lemma export_inv_state:
  assumes "export_inv w" and "\<And>s. ex_pollTimer (f s) = ex_pollTimer s" and "\<And>s. ex_job (f s) = ex_job s \<or> ex_job (f s) = None"
  shows "export_inv (set_state f w)"
  using assms(1) assms(2,3) [of "w_state w"]
  by (auto simp: export_inv_def timers_ok_def polled_def split: option.splits)

lemma export_inv_waiting [simp]: "export_inv (w\<lparr>w_waiting := hs\<rparr>) = export_inv w"
  by (simp add: export_inv_def timers_ok_def polled_def split: option.splits)

lemma export_inv_start: "timers_ok w \<Longrightarrow> export_inv (startPolling w)"
  by (simp add: export_inv_def polled_def split: option.splits)

lemma export_inv_stop: "timers_ok w \<Longrightarrow> ex_job (w_state w) = None \<or> (\<exists>job. ex_job (w_state w) = Some job \<and> \<not> isPollable (ej_status job)) \<Longrightarrow>
    export_inv (stopPolling w)"
  by (auto simp: export_inv_def polled_def)

lemma timers_ok_state: "timers_ok w \<Longrightarrow> (\<And>s. ex_pollTimer (f s) = ex_pollTimer s) \<Longrightarrow> timers_ok (set_state f w)"
  by (simp add: timers_ok_def)

lemma timers_ok_inv: "export_inv w \<Longrightarrow> timers_ok w"
  by (simp add: export_inv_def)

lemma export_inv_handlers:
  assumes "export_inv w"
  shows "export_inv (refreshStatus c w)" and "export_inv (requestExport w)" and "export_inv (cancelExport w)"
    and "export_inv (download w)" and "export_inv (cancel_done w)" and "export_inv (cancel_reply t r w)"
    and "export_inv (snd (download_reply t d w))" and "export_inv (take_waiting i w)" and "export_inv (wait_for h w)"
  using export_inv_state [OF assms]
  by (auto simp: refreshStatus_def requestExport_def cancelExport_def download_def cancel_done_def cancel_reply_def
    download_reply_def take_waiting_def wait_for_def assms split: sum.splits)

lemma export_inv_reset:
  assumes "export_inv w"
  shows "export_inv (export_reset w)"
proof -
  have "w_live (stopPolling w) = []" using stopPolling_fields(2) assms by (blast intro: timers_ok_inv)
  then show ?thesis by (simp add: export_reset_def export_inv_def timers_ok_def polled_def initial_export_def)
qed

lemma export_inv_tick: "export_inv w \<Longrightarrow> export_inv (poll_tick w)"
  by (auto simp: poll_tick_def timers_ok_inv intro: export_inv_stop export_inv_handlers split: option.splits)

lemma export_inv_status:
  assumes "export_inv w"
  shows "export_inv (status_reply t r w)"
proof (cases "getExportStatus_reply r")
  case (Inl err)
  then show ?thesis by (auto simp: status_reply_def intro: export_inv_state assms)
next
  case (Inr job)
  have "timers_ok (set_state f w)" if "\<And>s. ex_pollTimer (f s) = ex_pollTimer s" for f
    using that timers_ok_inv [OF assms] by (simp add: timers_ok_state)
  with Inr show ?thesis
    by (cases job) (auto simp: status_reply_def Let_def intro: export_inv_start export_inv_stop export_inv_state assms)
qed

lemma export_inv_request:
  assumes "export_inv w"
  shows "export_inv (request_reply t r w)"
proof (cases r)
  case (Inr result)
  have ok: "timers_ok (set_state (\<lambda>s. s\<lparr>ex_job := Some result, ex_requesting := False, ex_error := None\<rparr>) w)"
    using assms by (auto intro: timers_ok_state timers_ok_inv)
  with Inr show ?thesis
    by (auto simp: request_reply_def Let_def export_inv_def polled_def intro: export_inv_start)
qed (auto simp: request_reply_def intro: export_inv_state assms)

lemma export_inv_step: "export_step w v \<Longrightarrow> export_inv w \<Longrightarrow> export_inv v"
  by (induction rule: export_step.induct)
    (auto intro!: export_inv_handlers export_inv_reset export_inv_tick export_inv_status export_inv_request)

interpretation export: invariant_run export_step export_inv
  by unfold_locales (rule export_inv_step)

lemma export_inv_start_world: "export_inv new_world"
  by (simp add: export_inv_def timers_ok_def polled_def new_world_def initial_export_def)

text \<open>A finding: the end of a cancellation erases the error that its own refresh reported.\<close>

lemma cancel_hides_refresh_error:
  "ex_error (w_state (cancel_done (status_reply t (Inl err) (cancel_reply t (Inr data) w)))) = None"
  by (simp add: cancel_done_def)

section \<open>Properties\<close>

text \<open>
  C37. Polling neither leaks nor stalls. However the calls of the page, the replies to waiting handlers (errors
  included) and the ticks interleave: at most one interval is alive and it is the one the store would clear; while the job is
  pending or processing, an interval is alive; when there is no such job, the next tick clears it; and a status reply
  with a finished job clears it at once.
\<close>

theorem export_polling:
  assumes "export_step\<^sup>*\<^sup>* new_world w"
  shows "w_live w = (case ex_pollTimer (w_state w) of None \<Rightarrow> [] | Some k \<Rightarrow> [k]) \<and>
    (case ex_job (w_state w) of
       None \<Rightarrow> w_live (poll_tick w) = []
     | Some job \<Rightarrow> if isPollable (ej_status job) then w_live w \<noteq> [] else w_live (poll_tick w) = []) \<and>
    (\<forall>t job. \<not> isPollable (ej_status job) \<longrightarrow> w_live (status_reply t (Inr (Some job)) w) = [])"
proof -
  have inv: "export_inv w" using assms export_inv_start_world by (rule export.inv_run)
  have stop: "w_live (stopPolling v) = []" if "timers_ok v" for v using that by simp
  have "w_live (status_reply t (Inr (Some job)) w) = []" if "\<not> isPollable (ej_status job)" for t job
    using that inv by (simp add: status_reply_def getExportStatus_reply_def Let_def stop timers_ok_state timers_ok_inv)
  with inv show ?thesis
    by (auto simp: export_inv_def timers_ok_def polled_def poll_tick_def stop timers_ok_inv split: option.splits)
qed

definition sample_job :: ExportJobStatusResponse where
  "sample_job = \<lparr> ej_id = ''j1'', ej_tenant_id = None, ej_status = Processing, ej_created_at = ''2026-01-01T00:00:00Z'',
     ej_ready_at = None, ej_expires_at = None, ej_artifact_size_bytes = None, ej_error_code = None, ej_error_detail = None,
     ej_attempt = 1, ej_max_attempts = 3, ej_attempts = None, ej_failed_at = None, ej_cooldown_until = None,
     ej_actor_role = None, ej_replaced_job_id = None, ej_replacement_job_id = None, ej_previous_ready = None \<rparr>"

theorem export_polling_witness:
  "w_live (request_reply (\<lambda>k. k) (Inr sample_job) (take_waiting 0 (requestExport new_world))) = [0]"
proof -
  let ?w = "request_reply (\<lambda>k. k) (Inr sample_job) (take_waiting 0 (requestExport new_world))"
  have "export_step new_world (requestExport new_world)" by (rule call_request)
  moreover have "export_step (requestExport new_world) ?w"
    by (rule reply_request) (simp_all add: requestExport_def wait_for_def new_world_def set_state_def)
  ultimately have "export_step\<^sup>*\<^sup>* new_world ?w" by (rule export.run_two)
  from export_polling [OF this] show ?thesis
    by (simp add: request_reply_def sample_job_def isPollable_def startPolling_def take_waiting_def requestExport_def
      wait_for_def set_state_def new_world_def initial_export_def)
qed

end
