(* ===== verification/SettingsStore.thy ===== *)
theory SettingsStore
  imports ExportStore
begin

text \<open>
  The caches of the application (\<open>store/settings.ts\<close> and \<open>store/catalog.ts\<close>): asynchronous loads
  that are joined while one is in flight, updates, and the clearing at a change of session. Values are the
  JSON data of the replies. The six resources of the settings store have the same fields, kept here as one cell each.
  The main result: with the epoch check, no reply to a load of an earlier session ever
  fills the cache of the current one.
\<close>

section \<open>Settings\<close>

datatype resource = ReminderSettingsR | TenantSettingsR | TimezonesR | CurrencyOptionsR | MailboxR | PublicApiKeyR

text \<open>
  Promises are numbered. \<open>c_origin\<close> is a ghost: the epoch in which the request of the value was sent.
\<close>

record cell =
  c_value :: js
  c_loaded :: bool
  c_inFlight :: "nat option"
  c_origin :: nat

record SettingsState =
  ss_cells :: "resource \<Rightarrow> cell"
  ss_loadError :: "string option"
  ss_epoch :: nat

definition empty_value :: "resource \<Rightarrow> js" where
  "empty_value r = (if r = TimezonesR then JArr [] else JNull)"

definition empty_cell :: "nat \<Rightarrow> resource \<Rightarrow> cell" where
  "empty_cell epoch r = \<lparr> c_value = empty_value r, c_loaded = False, c_inFlight = None, c_origin = epoch \<rparr>"

definition initial_settings :: SettingsState where
  "initial_settings = \<lparr> ss_cells = empty_cell 0, ss_loadError = None, ss_epoch = 0 \<rparr>"

definition put_cell :: "resource \<Rightarrow> (cell \<Rightarrow> cell) \<Rightarrow> SettingsState \<Rightarrow> SettingsState" where
  "put_cell r f s = s\<lparr>ss_cells := (ss_cells s)(r := f (ss_cells s r))\<rparr>"

definition clearSettingsCache :: "SettingsState \<Rightarrow> SettingsState" where
  "clearSettingsCache s = \<lparr> ss_cells = empty_cell (ss_epoch s + 1), ss_loadError = None, ss_epoch = ss_epoch s + 1 \<rparr>"

text \<open>The text of an error: \<open>detail\<close> when it is a string, the joined messages when it is an array.\<close>

definition item_message :: "js \<Rightarrow> string" where
  "item_message entry = (case jget entry ''msg'' of Some (JStr m) \<Rightarrow> if m = [] then ''Unknown error'' else m | _ \<Rightarrow> ''Unknown error'')"

definition settings_error :: "js \<Rightarrow> string \<Rightarrow> string" where
  "settings_error err fallback = (case error_detail err of
     Some (JStr detail) \<Rightarrow> detail
   | Some (JArr entries) \<Rightarrow> join ''; '' (map item_message entries)
   | _ \<Rightarrow> fallback)"

text \<open>The resources whose failed load is reported and thrown; the others fall back to their empty value.\<close>

definition load_failure_text :: "resource \<Rightarrow> string option" where
  "load_failure_text r = (case r of
     ReminderSettingsR \<Rightarrow> Some ''Failed to load reminder settings''
   | TenantSettingsR \<Rightarrow> Some ''Failed to load tenant settings''
   | PublicApiKeyR \<Rightarrow> Some ''Failed to load public API key''
   | _ \<Rightarrow> None)"

text \<open>The end of a load: what the promise settles to, and the state.\<close>

definition load_success :: "resource \<Rightarrow> nat \<Rightarrow> js \<Rightarrow> SettingsState \<Rightarrow> js \<times> SettingsState" where
  "load_success r epoch data s =
     (if ss_epoch s \<noteq> epoch then (empty_value r, s)
      else (data, (if load_failure_text r = None then id else (\<lambda>s. s\<lparr>ss_loadError := None\<rparr>))
        (put_cell r (\<lambda>c. \<lparr> c_value = data, c_loaded = True, c_inFlight = None, c_origin = epoch \<rparr>) s)))"

definition load_failure :: "resource \<Rightarrow> js \<Rightarrow> SettingsState \<Rightarrow> (js + js) \<times> SettingsState" where
  "load_failure r err s = (case load_failure_text r of
     Some fallback \<Rightarrow> (Inl err, put_cell r (\<lambda>c. c\<lparr>c_inFlight := None\<rparr>) (s\<lparr>ss_loadError := Some (settings_error err fallback)\<rparr>))
   | None \<Rightarrow> (Inr (empty_value r), put_cell r (\<lambda>c. c\<lparr>c_value := empty_value r, c_loaded := False, c_inFlight := None\<rparr>) s))"

text \<open>The end of an update; a failed update changes nothing. A revoked key is \<open>null\<close>.\<close>

definition update_success :: "resource \<Rightarrow> nat \<Rightarrow> js \<Rightarrow> SettingsState \<Rightarrow> SettingsState" where
  "update_success r sent data = put_cell r (\<lambda>c. \<lparr> c_value = data, c_loaded = True,
     c_inFlight = (if r = PublicApiKeyR then None else c_inFlight c), c_origin = sent \<rparr>)"

text \<open>The world: the store, the next promise, and the handlers that wait, each with the epoch in which it began.\<close>

datatype settings_handler = Loading nat resource nat | Updating resource nat

record SettingsWorld =
  sw_state :: SettingsState
  sw_next :: nat
  sw_waiting :: "settings_handler list"

text \<open>A load returns the cached value, joins the promise in flight, or sends a request.\<close>

definition load_setting :: "resource \<Rightarrow> SettingsWorld \<Rightarrow> (js + nat) \<times> SettingsWorld" where
  "load_setting r w = (let c = ss_cells (sw_state w) r in
     if c_loaded c then (Inl (c_value c), w)
     else (case c_inFlight c of
        Some promise \<Rightarrow> (Inr promise, w)
      | None \<Rightarrow> (Inr (sw_next w), \<lparr> sw_state = put_cell r (\<lambda>c. c\<lparr>c_inFlight := Some (sw_next w)\<rparr>) (sw_state w),
          sw_next = sw_next w + 1,
          sw_waiting = sw_waiting w @ [Loading (sw_next w) r (ss_epoch (sw_state w))] \<rparr>)))"

definition send_update :: "resource \<Rightarrow> SettingsWorld \<Rightarrow> SettingsWorld" where
  "send_update r w = w\<lparr>sw_waiting := sw_waiting w @ [Updating r (ss_epoch (sw_state w))]\<rparr>"

definition without :: "nat \<Rightarrow> 'a list \<Rightarrow> 'a list" where
  "without i xs = take i xs @ drop (Suc i) xs"

definition handler_reply :: "settings_handler \<Rightarrow> js + js \<Rightarrow> SettingsState \<Rightarrow> SettingsState" where
  "handler_reply h reply s = (case (h, reply) of
     (Loading promise r epoch, Inr data) \<Rightarrow> snd (load_success r epoch data s)
   | (Loading promise r epoch, Inl err) \<Rightarrow> snd (load_failure r err s)
   | (Updating r sent, Inr data) \<Rightarrow> update_success r sent data s
   | (Updating r sent, Inl err) \<Rightarrow> s)"

definition settle :: "nat \<Rightarrow> js + js \<Rightarrow> SettingsWorld \<Rightarrow> SettingsWorld" where
  "settle i reply w = w\<lparr>sw_state := handler_reply (sw_waiting w ! i) reply (sw_state w), sw_waiting := without i (sw_waiting w)\<rparr>"

definition timely :: "settings_handler \<Rightarrow> nat \<Rightarrow> bool" where
  "timely h epoch = (case h of Loading promise r e \<Rightarrow> True | Updating r sent \<Rightarrow> sent = epoch)"

text \<open>
  Steps: any load, any update, the clearing of the cache, and the reply to any waiting handler. The flag says whether
  replies to updates of an earlier session may arrive.
\<close>

inductive settings_store_step :: "bool \<Rightarrow> SettingsWorld \<Rightarrow> SettingsWorld \<Rightarrow> bool" for late where
  step_load: "settings_store_step late w (snd (load_setting r w))"
| step_update: "settings_store_step late w (send_update r w)"
| step_clear: "settings_store_step late w (w\<lparr>sw_state := clearSettingsCache (sw_state w)\<rparr>)"
| step_reply: "i < length (sw_waiting w) \<Longrightarrow> late \<or> timely (sw_waiting w ! i) (ss_epoch (sw_state w)) \<Longrightarrow>
    settings_store_step late w (settle i reply w)"

definition new_settings_world :: SettingsWorld where
  "new_settings_world = \<lparr> sw_state = initial_settings, sw_next = 0, sw_waiting = [] \<rparr>"

section \<open>Provenance\<close>

definition fresh_cells :: "SettingsWorld \<Rightarrow> bool" where
  "fresh_cells w \<longleftrightarrow> (\<forall>r. let c = ss_cells (sw_state w) r in
     (c_loaded c \<longrightarrow> c_origin c = ss_epoch (sw_state w)) \<and> (\<not> c_loaded c \<longrightarrow> c_value c = empty_value r) \<and>
     (\<forall>promise. c_inFlight c = Some promise \<longrightarrow> Loading promise r (ss_epoch (sw_state w)) \<in> set (sw_waiting w)))"

lemma without_split: "i < length xs \<Longrightarrow> xs = take i xs @ [xs ! i] @ drop (Suc i) xs"
  by (simp add: id_take_nth_drop)

lemma in_without:
  assumes "i < length hs" and "h \<in> set hs" and "h \<noteq> hs ! i"
  shows "h \<in> set (without i hs)"
proof -
  have "set hs = set (take i hs @ [hs ! i] @ drop (Suc i) hs)"
    using assms(1) by (simp only: append_Cons append_Nil id_take_nth_drop [symmetric])
  with assms(2,3) show ?thesis by (auto simp: without_def)
qed

lemma put_cell_fields [simp]:
  "ss_epoch (put_cell r f s) = ss_epoch s"
  "ss_cells (put_cell r f s) = (ss_cells s)(r := f (ss_cells s r))"
  by (simp_all add: put_cell_def)

text \<open>The cell of one resource, seen from the handlers that wait.\<close>

definition cell_ok :: "nat \<Rightarrow> settings_handler list \<Rightarrow> resource \<Rightarrow> cell \<Rightarrow> bool" where
  "cell_ok epoch hs r c \<longleftrightarrow> (c_loaded c \<longrightarrow> c_origin c = epoch) \<and> (\<not> c_loaded c \<longrightarrow> c_value c = empty_value r) \<and>
     (\<forall>promise. c_inFlight c = Some promise \<longrightarrow> Loading promise r epoch \<in> set hs)"

lemma fresh_cells_iff:
  "fresh_cells w \<longleftrightarrow> (\<forall>r. cell_ok (ss_epoch (sw_state w)) (sw_waiting w) r (ss_cells (sw_state w) r))"
  by (simp add: fresh_cells_def cell_ok_def Let_def)

lemma empty_cell_ok: "cell_ok epoch hs r (empty_cell epoch r)"
  by (simp add: cell_ok_def empty_cell_def)

lemma handler_reply_epoch: "ss_epoch (handler_reply h reply s) = ss_epoch s"
  by (auto simp: handler_reply_def load_success_def load_failure_def update_success_def
    split: settings_handler.splits sum.splits option.splits)

lemma handler_reply_cell:
  assumes "cell_ok (ss_epoch s) hs r (ss_cells s r)" and "timely h (ss_epoch s)"
    and "\<And>h'. h' \<in> set hs \<Longrightarrow> h' \<noteq> h \<Longrightarrow> h' \<in> set hs'"
  shows "cell_ok (ss_epoch s) hs' r (ss_cells (handler_reply h reply s) r)"
proof (cases h)
  case (Loading promise q e)
  with assms show ?thesis
    by (cases reply; cases "r = q")
      (auto simp: handler_reply_def load_success_def load_failure_def cell_ok_def split: option.splits)
next
  case (Updating q e)
  with assms show ?thesis
    by (cases reply; cases "r = q") (auto simp: handler_reply_def update_success_def cell_ok_def timely_def)
qed

lemma load_setting_cells:
  assumes "fresh_cells w"
  shows "fresh_cells (snd (load_setting r w))"
proof (cases "\<not> c_loaded (ss_cells (sw_state w) r) \<and> c_inFlight (ss_cells (sw_state w) r) = None")
  case True
  with assms show ?thesis by (auto simp: fresh_cells_iff cell_ok_def load_setting_def Let_def)
next
  case False
  then have "snd (load_setting r w) = w" by (auto simp: load_setting_def Let_def split: option.splits)
  with assms show ?thesis by simp
qed

lemma fresh_cells_step: "settings_store_step False w v \<Longrightarrow> fresh_cells w \<Longrightarrow> fresh_cells v"
proof (induction rule: settings_store_step.induct)
  case (step_load w r)
  then show ?case by (simp add: load_setting_cells)
next
  case (step_update w r)
  then show ?case by (auto simp: fresh_cells_iff cell_ok_def send_update_def)
next
  case (step_clear w)
  then show ?case by (simp add: fresh_cells_iff clearSettingsCache_def empty_cell_ok)
next
  case (step_reply i w reply)
  then show ?case
    unfolding fresh_cells_iff settle_def
    by (auto simp: handler_reply_epoch intro!: handler_reply_cell intro: in_without)
qed

interpretation settings_cache: invariant_run "settings_store_step False" fresh_cells
  by unfold_locales (rule fresh_cells_step)

lemma fresh_cells_start: "fresh_cells new_settings_world"
  by (simp add: fresh_cells_iff new_settings_world_def initial_settings_def empty_cell_ok)

text \<open>A finding: the reply to an update of an earlier session does fill the cache of the current one.\<close>

lemma late_update_installs:
  "\<exists>w. (settings_store_step True)\<^sup>*\<^sup>* new_settings_world w \<and> c_loaded (ss_cells (sw_state w) TenantSettingsR) \<and>
     c_origin (ss_cells (sw_state w) TenantSettingsR) = 0 \<and> ss_epoch (sw_state w) = 1"
proof -
  let ?w1 = "send_update TenantSettingsR new_settings_world"
  let ?w2 = "?w1\<lparr>sw_state := clearSettingsCache (sw_state ?w1)\<rparr>"
  let ?w3 = "settle 0 (Inr (JObj [])) ?w2"
  have "settings_store_step True new_settings_world ?w1" by (rule step_update)
  moreover have "settings_store_step True ?w1 ?w2" by (rule step_clear)
  moreover have "settings_store_step True ?w2 ?w3"
    by (rule step_reply) (simp_all add: send_update_def)
  ultimately have "(settings_store_step True)\<^sup>*\<^sup>* new_settings_world ?w3" by (meson converse_rtranclp_into_rtranclp rtranclp.rtrancl_refl)
  then show ?thesis
    by (intro exI [of _ ?w3]) (simp add: settle_def send_update_def handler_reply_def update_success_def clearSettingsCache_def
      new_settings_world_def initial_settings_def put_cell_def)
qed

section \<open>Properties\<close>

text \<open>
  C38. The settings cache never crosses sessions. However loads, updates, clearings and replies interleave, as long as
  no update is answered after the session that sent it: a resource that counts as loaded holds data requested in the
  current session, one that does not holds its empty value, and a promise in flight is one whose load of the current session is
  still waiting, so a caller that joins it is never answered with data of an earlier session. Replies to loads of
  an earlier session may arrive at any time.
\<close>

theorem settings_cache_fresh:
  assumes "(settings_store_step False)\<^sup>*\<^sup>* new_settings_world w"
  shows "let c = ss_cells (sw_state w) r; epoch = ss_epoch (sw_state w) in
    (if c_loaded c then c_origin c = epoch else c_value c = empty_value r) \<and>
    (case c_inFlight c of None \<Rightarrow> True | Some promise \<Rightarrow> Loading promise r epoch \<in> set (sw_waiting w))"
proof -
  have "fresh_cells w"
    using assms fresh_cells_start by (rule settings_cache.inv_run)
  then have "cell_ok (ss_epoch (sw_state w)) (sw_waiting w) r (ss_cells (sw_state w) r)" by (simp add: fresh_cells_iff)
  then show ?thesis by (simp add: cell_ok_def Let_def split: option.splits)
qed

theorem settings_cache_fresh_witness:
  "\<exists>w. (settings_store_step False)\<^sup>*\<^sup>* new_settings_world w \<and> ss_epoch (sw_state w) = 1 \<and> sw_waiting w \<noteq> [] \<and>
     Loading 1 MailboxR 1 \<in> set (sw_waiting w) \<and> \<not> c_loaded (ss_cells (sw_state w) MailboxR)"
proof -
  let ?w1 = "snd (load_setting MailboxR new_settings_world)"
  let ?w2 = "?w1\<lparr>sw_state := clearSettingsCache (sw_state ?w1)\<rparr>"
  let ?w3 = "snd (load_setting MailboxR ?w2)"
  let ?w4 = "settle 0 (Inr (JStr ''old'')) ?w3"
  note run = load_setting_def new_settings_world_def initial_settings_def clearSettingsCache_def put_cell_def empty_cell_def
    settle_def without_def handler_reply_def load_success_def
  have "settings_store_step False new_settings_world ?w1" by (rule step_load)
  moreover have "settings_store_step False ?w1 ?w2" by (rule step_clear)
  moreover have "settings_store_step False ?w2 ?w3" by (rule step_load)
  moreover have "settings_store_step False ?w3 ?w4" by (rule step_reply) (simp_all add: run timely_def)
  ultimately have reach: "(settings_store_step False)\<^sup>*\<^sup>* new_settings_world ?w4" by (rule settings_cache.run_four)
  have "Loading 1 MailboxR 1 \<in> set (sw_waiting ?w4)"
    using settings_cache_fresh [OF reach, of MailboxR] by (simp add: run)
  with reach show ?thesis
    by (intro exI [of _ ?w4]) (simp add: run)
qed

end
