(* ===== verification/CatalogStore.thy ===== *)
theory CatalogStore
  imports SettingsStore
begin

text \<open>
  The cache of services, plans and clients (\<open>store/catalog.ts\<close>). Lists are the JSON data of the replies.
  The main results: between two clearings at most one request for the services and one for the clients is under way,
  and the promise in flight is that request. There is no epoch check here: a reply to a request sent before a clearing fills
  the cache again.
\<close>

record CatalogState =
  ca_services :: "js list"
  ca_plans :: "(string \<times> js list) list"
  ca_clients :: "js list"
  ca_servicesLoaded :: bool
  ca_clientsLoaded :: bool
  ca_servicesInFlight :: "nat option"
  ca_clientsInFlight :: "nat option"
  ca_loadError :: "js option"

definition initial_catalog :: CatalogState where
  "initial_catalog = \<lparr> ca_services = [], ca_plans = [], ca_clients = [], ca_servicesLoaded = False, ca_clientsLoaded = False,
     ca_servicesInFlight = None, ca_clientsInFlight = None, ca_loadError = None \<rparr>"

text \<open>\<open>error?.response?.data?.detail || fallback\<close>.\<close>

definition catalog_error :: "js \<Rightarrow> string \<Rightarrow> js" where
  "catalog_error err fallback = (let detail = error_detail err in if js_truthy detail then the detail else JStr fallback)"

datatype catalog_handler = LoadingServices nat | LoadingClients nat | LoadingPlans string

record CatalogWorld =
  cw_state :: CatalogState
  cw_next :: nat
  cw_waiting :: "catalog_handler list"

definition new_catalog_world :: CatalogWorld where
  "new_catalog_world = \<lparr> cw_state = initial_catalog, cw_next = 0, cw_waiting = [] \<rparr>"

text \<open>A load returns the cached list or a promise: the one in flight, or a new one.\<close>

definition loadServices :: "CatalogWorld \<Rightarrow> (js list + nat) \<times> CatalogWorld" where
  "loadServices w = (let s = cw_state w in
     if ca_servicesLoaded s \<and> ca_services s \<noteq> [] then (Inl (ca_services s), w)
     else (case ca_servicesInFlight s of
        Some promise \<Rightarrow> (Inr promise, w)
      | None \<Rightarrow> (Inr (cw_next w), \<lparr> cw_state = s\<lparr>ca_servicesInFlight := Some (cw_next w)\<rparr>, cw_next = cw_next w + 1,
          cw_waiting = cw_waiting w @ [LoadingServices (cw_next w)] \<rparr>)))"

definition services_reply :: "js + js list \<Rightarrow> CatalogState \<Rightarrow> CatalogState" where
  "services_reply reply s = (case reply of
     Inr data \<Rightarrow> s\<lparr>ca_services := data, ca_servicesLoaded := True, ca_loadError := None, ca_servicesInFlight := None\<rparr>
   | Inl err \<Rightarrow> s\<lparr>ca_loadError := Some (catalog_error err ''Failed to load services''), ca_servicesInFlight := None\<rparr>)"

text \<open>Plans are cached per service and not joined; an empty list of plans is cached too.\<close>

definition loadPlans :: "string \<Rightarrow> CatalogWorld \<Rightarrow> js list option \<times> CatalogWorld" where
  "loadPlans serviceId w = (case map_of (ca_plans (cw_state w)) serviceId of
     Some cached \<Rightarrow> (Some cached, w)
   | None \<Rightarrow> (None, w\<lparr>cw_waiting := cw_waiting w @ [LoadingPlans serviceId]\<rparr>))"

definition plans_reply :: "string \<Rightarrow> js + js list \<Rightarrow> CatalogState \<Rightarrow> CatalogState" where
  "plans_reply serviceId reply s = (case reply of
     Inr data \<Rightarrow> s\<lparr>ca_plans := obj_set serviceId data (ca_plans s)\<rparr>
   | Inl err \<Rightarrow> s\<lparr>ca_loadError := Some (catalog_error err ''Failed to load plans'')\<rparr>)"

definition loadClients :: "CatalogWorld \<Rightarrow> (js list + nat) \<times> CatalogWorld" where
  "loadClients w = (let s = cw_state w in
     if ca_clientsLoaded s \<and> ca_clients s \<noteq> [] then (Inl (ca_clients s), w)
     else (case ca_clientsInFlight s of
        Some promise \<Rightarrow> (Inr promise, w)
      | None \<Rightarrow> (Inr (cw_next w), \<lparr> cw_state = s\<lparr>ca_clientsInFlight := Some (cw_next w)\<rparr>, cw_next = cw_next w + 1,
          cw_waiting = cw_waiting w @ [LoadingClients (cw_next w)] \<rparr>)))"

definition clients_reply :: "js + js list \<Rightarrow> CatalogState \<Rightarrow> CatalogState" where
  "clients_reply reply s = (case reply of
     Inr data \<Rightarrow> s\<lparr>ca_clients := data, ca_clientsLoaded := True, ca_clientsInFlight := None\<rparr>
   | Inl err \<Rightarrow> s\<lparr>ca_loadError := Some (catalog_error err ''Failed to load clients''), ca_clientsInFlight := None\<rparr>)"

definition invalidateServices :: "CatalogState \<Rightarrow> CatalogState" where
  "invalidateServices s = s\<lparr>ca_services := [], ca_servicesLoaded := False, ca_plans := []\<rparr>"

definition invalidatePlans :: "string option \<Rightarrow> CatalogState \<Rightarrow> CatalogState" where
  "invalidatePlans serviceId s = s\<lparr>ca_plans := (if falsy serviceId then [] else del_item (the serviceId) (ca_plans s))\<rparr>"

definition invalidateClients :: "CatalogState \<Rightarrow> CatalogState" where
  "invalidateClients s = s\<lparr>ca_clients := [], ca_clientsLoaded := False\<rparr>"

definition clearAll :: "CatalogState \<Rightarrow> CatalogState" where
  "clearAll s = initial_catalog"

definition catalog_reply :: "catalog_handler \<Rightarrow> js + js list \<Rightarrow> CatalogState \<Rightarrow> CatalogState" where
  "catalog_reply h reply = (case h of
     LoadingServices promise \<Rightarrow> services_reply reply
   | LoadingClients promise \<Rightarrow> clients_reply reply
   | LoadingPlans serviceId \<Rightarrow> plans_reply serviceId reply)"

definition catalog_settle :: "nat \<Rightarrow> js + js list \<Rightarrow> CatalogWorld \<Rightarrow> CatalogWorld" where
  "catalog_settle i reply w = w\<lparr>cw_state := catalog_reply (cw_waiting w ! i) reply (cw_state w), cw_waiting := without i (cw_waiting w)\<rparr>"

text \<open>The steps of one session; \<open>clearAll\<close> is the end of it.\<close>

inductive catalog_store_step :: "CatalogWorld \<Rightarrow> CatalogWorld \<Rightarrow> bool" where
  load_services: "catalog_store_step w (snd (loadServices w))"
| load_plans: "catalog_store_step w (snd (loadPlans k w))"
| load_clients: "catalog_store_step w (snd (loadClients w))"
| invalidate_services: "catalog_store_step w (w\<lparr>cw_state := invalidateServices (cw_state w)\<rparr>)"
| invalidate_plans: "catalog_store_step w (w\<lparr>cw_state := invalidatePlans k' (cw_state w)\<rparr>)"
| invalidate_clients: "catalog_store_step w (w\<lparr>cw_state := invalidateClients (cw_state w)\<rparr>)"
| reply: "i < length (cw_waiting w) \<Longrightarrow> catalog_store_step w (catalog_settle i r w)"

section \<open>One request at a time\<close>

definition service_loads :: "catalog_handler list \<Rightarrow> nat list" where
  "service_loads hs = concat (map (\<lambda>h. case h of LoadingServices n \<Rightarrow> [n] | _ \<Rightarrow> []) hs)"

definition client_loads :: "catalog_handler list \<Rightarrow> nat list" where
  "client_loads hs = concat (map (\<lambda>h. case h of LoadingClients n \<Rightarrow> [n] | _ \<Rightarrow> []) hs)"

definition one_request :: "CatalogWorld \<Rightarrow> bool" where
  "one_request w \<longleftrightarrow> service_loads (cw_waiting w) = (case ca_servicesInFlight (cw_state w) of None \<Rightarrow> [] | Some n \<Rightarrow> [n]) \<and>
     client_loads (cw_waiting w) = (case ca_clientsInFlight (cw_state w) of None \<Rightarrow> [] | Some n \<Rightarrow> [n])"

lemma loads_simps [simp]:
  "service_loads (xs @ ys) = service_loads xs @ service_loads ys"
  "client_loads (xs @ ys) = client_loads xs @ client_loads ys"
  "service_loads [h] = (case h of LoadingServices n \<Rightarrow> [n] | _ \<Rightarrow> [])"
  "client_loads [h] = (case h of LoadingClients n \<Rightarrow> [n] | _ \<Rightarrow> [])"
  "service_loads [] = []" "client_loads [] = []"
  by (simp_all add: service_loads_def client_loads_def)

lemma append3_Nil_single:
  "xs @ ys @ zs = (case v of None \<Rightarrow> [] | Some n \<Rightarrow> [n]) \<Longrightarrow> ys \<noteq> [] \<Longrightarrow> xs @ zs = []"
  by (cases v; cases xs; cases ys) auto

lemma one_request_reply:
  assumes "one_request w" and "i < length (cw_waiting w)"
  shows "one_request (catalog_settle i r w)"
proof -
  let ?h = "cw_waiting w ! i" and ?a = "take i (cw_waiting w)" and ?b = "drop (Suc i) (cw_waiting w)"
  have "cw_waiting w = ?a @ [?h] @ ?b" using assms(2) by (rule without_split)
  then have parts: "service_loads (cw_waiting w) = service_loads ?a @ service_loads [?h] @ service_loads ?b"
    "client_loads (cw_waiting w) = client_loads ?a @ client_loads [?h] @ client_loads ?b"
    by (metis loads_simps(1), metis loads_simps(2))
  show ?thesis
  proof (cases ?h)
    case (LoadingServices n)
    then have "service_loads ?a @ [n] @ service_loads ?b = (case ca_servicesInFlight (cw_state w) of None \<Rightarrow> [] | Some n \<Rightarrow> [n])"
      using assms(1) parts(1) by (simp add: one_request_def)
    then have "service_loads ?a @ service_loads ?b = []" by (rule append3_Nil_single) simp
    with LoadingServices assms(1) parts show ?thesis
      by (auto simp: one_request_def catalog_settle_def catalog_reply_def services_reply_def without_def split: sum.splits)
  next
    case (LoadingClients n)
    then have "client_loads ?a @ [n] @ client_loads ?b = (case ca_clientsInFlight (cw_state w) of None \<Rightarrow> [] | Some n \<Rightarrow> [n])"
      using assms(1) parts(2) by (simp add: one_request_def)
    then have "client_loads ?a @ client_loads ?b = []" by (rule append3_Nil_single) simp
    with LoadingClients assms(1) parts show ?thesis
      by (auto simp: one_request_def catalog_settle_def catalog_reply_def clients_reply_def without_def split: sum.splits)
  next
    case (LoadingPlans k)
    with assms(1) parts show ?thesis
      by (auto simp: one_request_def catalog_settle_def catalog_reply_def plans_reply_def without_def split: sum.splits)
  qed
qed

lemma one_request_step: "catalog_store_step w v \<Longrightarrow> one_request w \<Longrightarrow> one_request v"
proof (induction rule: catalog_store_step.induct)
  case (reply i w r)
  then show ?case by (simp add: one_request_reply)
qed (auto simp: one_request_def loadServices_def loadPlans_def loadClients_def invalidateServices_def invalidatePlans_def
  invalidateClients_def Let_def split: option.splits)

interpretation catalog_cache: invariant_run catalog_store_step one_request
  by unfold_locales (rule one_request_step)

lemma one_request_start: "one_request new_catalog_world"
  by (simp add: one_request_def new_catalog_world_def initial_catalog_def)

lemma catalog_loads_joined: "catalog_store_step\<^sup>*\<^sup>* new_catalog_world w \<Longrightarrow> one_request w"
  by (rule catalog_cache.inv_run) (assumption, rule one_request_start)

text \<open>A finding: data requested before \<open>clearAll\<close> fills the cache after it.\<close>

lemma cleared_catalog_refilled:
  "let w1 = snd (loadClients new_catalog_world); w2 = w1\<lparr>cw_state := clearAll (cw_state w1)\<rparr>;
       w3 = catalog_settle 0 (Inr [JStr ''old tenant'']) w2
   in ca_clients (cw_state w3) = [JStr ''old tenant''] \<and> ca_clientsLoaded (cw_state w3)"
  by (simp add: loadClients_def new_catalog_world_def initial_catalog_def clearAll_def catalog_settle_def catalog_reply_def
    clients_reply_def without_def)

end
