(* ===== verification/AuthStore.thy ===== *)
theory AuthStore
  imports DataSource CatalogStore
begin

text \<open>
  The session (\<open>store/auth.ts\<close>, \<open>auth-api.ts\<close> and the interceptors of \<open>lib/api.ts\<close>): what a
  login, refresh, heartbeat, logout and change of tenant do to the state of the store, to the browser storage, to the caches and
  to the data source. Each asynchronous action is the part before its request and the part that
  handles the reply, so that replies may arrive in any order. The main results: the data source always belongs to the
  session of the store, a saved session is what a reload finds, and the end of a session leaves nothing of it behind.
\<close>

section \<open>Replies of the server\<close>

record UserInfo =
  u_id :: string
  u_role :: string
  u_username :: string

text \<open>A number is kept as its JSON value.\<close>

record TokenResponse =
  tr_access_token :: string
  tr_refresh_token :: string
  tr_token_type :: string
  tr_user :: UserInfo
  tr_active_tenant_id :: "string option"
  tr_tenant_plan :: "TenantPlan option"
  tr_is_demo :: bool
  tr_demo_tenant_id :: "string option"
  tr_demo_name :: "string option"
  tr_demo_status :: "DemoTenantStatus option"
  tr_demo_activated_at :: "string option"
  tr_demo_expires_at :: "string option"
  tr_demo_credentials_version :: "js option"
  tr_demo_locale :: "string option"
  tr_server_time :: string

record DemoHeartbeatResponse =
  hb_is_demo :: bool
  hb_demo_tenant_id :: "string option"
  hb_demo_name :: "string option"
  hb_tenant_plan :: "TenantPlan option"
  hb_demo_status :: "DemoTenantStatus option"
  hb_demo_activated_at :: "string option"
  hb_demo_expires_at :: "string option"
  hb_demo_credentials_version :: "js option"
  hb_demo_locale :: "string option"
  hb_server_time :: string

datatype AuthFailureCode = DemoEnded | DemoCredentialsReplaced

text \<open>A property is read from an object only; anything else has no detail.\<close>

definition getErrorDetail :: "js \<Rightarrow> js option" where
  "getErrorDetail err = (case jget err ''response'' of None \<Rightarrow> None
     | Some response \<Rightarrow> (case jget response ''data'' of None \<Rightarrow> None | Some data \<Rightarrow> jget data ''detail''))"

definition getAuthFailureCode :: "js \<Rightarrow> AuthFailureCode option" where
  "getAuthFailureCode err = (let detail = getErrorDetail err in
     if detail = Some (JStr ''demo_ended'') then Some DemoEnded
     else if detail = Some (JStr ''demo_credentials_replaced'') then Some DemoCredentialsReplaced else None)"

definition loginApi :: "string \<Rightarrow> string \<Rightarrow> api_request" where
  "loginApi username password = Request POST ''/auth/login'' (Some (JObj [(''username'', JStr username), (''password'', JStr password)]))"

definition logoutApi :: "string option \<Rightarrow> api_request" where
  "logoutApi refreshToken = Request POST ''/auth/logout'' (Some (JObj [(''refresh_token'', js_nullable refreshToken)]))"

definition refreshApi :: "string \<Rightarrow> api_request" where
  "refreshApi refreshToken = Request POST ''/auth/refresh'' (Some (JObj [(''refresh_token'', JStr refreshToken)]))"

definition heartbeatApi :: api_request where
  "heartbeatApi = Request POST ''/auth/heartbeat'' None"

definition switchTenantApi :: "string option \<Rightarrow> api_request" where
  "switchTenantApi tid = Request POST ''/auth/switch-tenant'' (Some (JObj [(''tenant_id'', js_nullable tid)]))"

section \<open>The state\<close>

datatype AuthOutcome = Anonymous | Authenticated | LoggedOut | AuthenticationFailed | Lifecycle AuthFailureCode

text \<open>
  The user is the JSON value that was saved (\<open>JNull\<close> for none), role and name what it says.
\<close>

record AuthState =
  au_token :: "string option"
  au_refreshToken :: "string option"
  au_user :: js
  au_activeTenantId :: "string option"
  au_tenantPlan :: "TenantPlan option"
  au_demo :: "DemoAuthMetadata option"
  au_dataSource :: DataSourceAdapter
  au_authOutcome :: AuthOutcome
  au_planDowngraded :: bool
  au_isMasterSupportContext :: bool
  au_isAuthenticated :: bool
  au_role :: js
  au_username :: js

definition user_js :: "UserInfo \<Rightarrow> js" where
  "user_js u = JObj [(''id'', JStr (u_id u)), (''role'', JStr (u_role u)), (''username'', JStr (u_username u))]"

definition parseTenantPlan :: "string option \<Rightarrow> TenantPlan option" where
  "parseTenantPlan v = (if v = Some ''starter'' then Some Starter else if v = Some ''pro'' then Some Pro else None)"

definition status_string :: "DemoTenantStatus \<Rightarrow> string" where
  "status_string st = (case st of DemoTenantStatus.Pending \<Rightarrow> ''pending'' | Active \<Rightarrow> ''active'' | Expired \<Rightarrow> ''expired'')"

definition parse_status :: "js option \<Rightarrow> DemoTenantStatus option" where
  "parse_status v = (if v = Some (JStr ''pending'') then Some DemoTenantStatus.Pending
     else if v = Some (JStr ''active'') then Some Active
     else if v = Some (JStr ''expired'') then Some Expired else None)"

section \<open>Demo metadata\<close>

definition metadata_js :: "DemoAuthMetadata \<Rightarrow> js" where
  "metadata_js m = JObj ([(''tenantId'', JStr (md_tenantId m)), (''name'', JStr (md_name m)),
     (''plan'', JStr (plan_string (md_plan m))), (''status'', JStr (status_string (md_status m))),
     (''activatedAt'', js_nullable (md_activatedAt m)), (''expiresAt'', js_nullable (md_expiresAt m)),
     (''credentialVersion'', md_credentialVersion m)] @ js_member ''locale'' JStr (md_locale m) @
     [(''serverTime'', JStr (md_serverTime m))])"

definition string_or_null :: "js option \<Rightarrow> string option option" where
  "string_or_null v = (case v of Some JNull \<Rightarrow> Some None | Some (JStr s) \<Rightarrow> Some (Some s) | _ \<Rightarrow> None)"

definition is_number :: "js option \<Rightarrow> bool" where
  "is_number v = (case v of Some (JNum i) \<Rightarrow> True | Some (JDec m k) \<Rightarrow> True | _ \<Rightarrow> False)"

definition locale_of :: "string option \<Rightarrow> string option" where
  "locale_of v = Some (if v = Some ''es'' then ''es'' else ''en'')"

text \<open>The saved metadata, when it has every property with its type.\<close>

definition metadata_of_js :: "js \<Rightarrow> DemoAuthMetadata option" where
  "metadata_of_js v =
    (case (jget v ''tenantId'', jget v ''name'', plan_of_js (jget v ''plan''), parse_status (jget v ''status''),
           string_or_null (jget v ''activatedAt''), string_or_null (jget v ''expiresAt''), jget v ''serverTime'') of
       (Some (JStr tid), Some (JStr name), Some plan, Some st, Some activated, Some expires, Some (JStr time)) \<Rightarrow>
         if is_number (jget v ''credentialVersion'')
         then Some \<lparr> md_tenantId = tid, md_name = name, md_plan = plan, md_status = st, md_activatedAt = activated,
           md_expiresAt = expires, md_credentialVersion = the (jget v ''credentialVersion''),
           md_locale = Some (if jget v ''locale'' = Some (JStr ''es'') then ''es'' else ''en''), md_serverTime = time \<rparr>
         else None
     | _ \<Rightarrow> None)"

definition loadDemoMetadata :: "Browser \<Rightarrow> DemoAuthMetadata option \<times> Browser" where
  "loadDemoMetadata b = (case readBrowserStorage ''demoMetadata'' b of (raw, b1) \<Rightarrow>
     if falsy raw then (None, b1)
     else (case JSON_parse (the raw) of None \<Rightarrow> (None, b1) | Some v \<Rightarrow> (metadata_of_js v, b1)))"

definition metadataFromToken :: "TokenResponse \<Rightarrow> DemoAuthMetadata option" where
  "metadataFromToken data =
    (let tid = (if tr_demo_tenant_id data \<noteq> None then tr_demo_tenant_id data else tr_active_tenant_id data) in
     if \<not> tr_is_demo data \<or> falsy tid \<or> falsy (tr_demo_name data) then None
     else (case (tr_tenant_plan data, tr_demo_status data, tr_demo_credentials_version data) of
       (Some plan, Some st, Some version) \<Rightarrow> Some \<lparr> md_tenantId = the tid, md_name = the (tr_demo_name data), md_plan = plan,
          md_status = st, md_activatedAt = tr_demo_activated_at data, md_expiresAt = tr_demo_expires_at data,
          md_credentialVersion = version, md_locale = locale_of (tr_demo_locale data), md_serverTime = tr_server_time data \<rparr>
     | _ \<Rightarrow> None))"

definition metadataFromHeartbeat :: "DemoHeartbeatResponse \<Rightarrow> string option \<Rightarrow> DemoAuthMetadata option" where
  "metadataFromHeartbeat data tenant =
    (let tid = (if hb_demo_tenant_id data \<noteq> None then hb_demo_tenant_id data else tenant) in
     if \<not> hb_is_demo data \<or> falsy tid \<or> falsy (hb_demo_name data) then None
     else (case (hb_tenant_plan data, hb_demo_status data, hb_demo_credentials_version data) of
       (Some plan, Some st, Some version) \<Rightarrow> Some \<lparr> md_tenantId = the tid, md_name = the (hb_demo_name data), md_plan = plan,
          md_status = st, md_activatedAt = hb_demo_activated_at data, md_expiresAt = hb_demo_expires_at data,
          md_credentialVersion = version, md_locale = locale_of (hb_demo_locale data), md_serverTime = hb_server_time data \<rparr>
     | _ \<Rightarrow> None))"

text \<open>The error that ends a demo from within the browser.\<close>

definition demoEndedError :: js where
  "demoEndedError = JObj [(''message'', JStr ''demo_ended''),
     (''response'', JObj [(''data'', JObj [(''detail'', JStr ''demo_ended'')])])]"

section \<open>The saved session\<close>

abbreviation put_key :: "string \<Rightarrow> string \<Rightarrow> Browser \<Rightarrow> Browser" where
  "put_key k v b \<equiv> snd (writeBrowserStorage k v b)"

abbreviation drop_key :: "string \<Rightarrow> Browser \<Rightarrow> Browser" where
  "drop_key k b \<equiv> snd (removeBrowserStorage k b)"

text \<open>\<open>if (v) write(k, v) else remove(k)\<close>.\<close>

definition put_or_drop :: "string \<Rightarrow> string option \<Rightarrow> Browser \<Rightarrow> Browser" where
  "put_or_drop k v b = (if falsy v then drop_key k b else put_key k (the v) b)"

definition saveDemoMetadata :: "DemoAuthMetadata option \<Rightarrow> Browser \<Rightarrow> Browser" where
  "saveDemoMetadata demo = put_or_drop ''demoMetadata'' (map_option (\<lambda>d. JSON_stringify (metadata_js d)) demo)"

definition saveTokenData :: "TokenResponse \<Rightarrow> Browser \<Rightarrow> Browser" where
  "saveTokenData data b =
    (let b1 = put_key ''token'' (tr_access_token data) b;
         b2 = put_key ''refreshToken'' (tr_refresh_token data) b1;
         b3 = put_key ''user'' (JSON_stringify (user_js (tr_user data))) b2;
         b4 = put_or_drop ''activeTenantId'' (tr_active_tenant_id data) b3;
         b5 = put_or_drop ''tenantPlan'' (map_option plan_string (tr_tenant_plan data)) b4
     in saveDemoMetadata (metadataFromToken data) b5)"

definition clearTokenData :: "Browser \<Rightarrow> Browser" where
  "clearTokenData b = drop_key ''demoMetadata'' (drop_key ''tenantPlan'' (drop_key ''activeTenantId''
     (drop_key ''user'' (drop_key ''refreshToken'' (drop_key ''token'' b)))))"

record saved_session =
  sv_token :: "string option"
  sv_refreshToken :: "string option"
  sv_user :: js
  sv_activeTenantId :: "string option"
  sv_tenantPlan :: "TenantPlan option"
  sv_demo :: "DemoAuthMetadata option"

text \<open>A user that is no JSON text is removed.\<close>

definition loadFromStorage :: "Browser \<Rightarrow> saved_session \<times> Browser" where
  "loadFromStorage b =
    (case readBrowserStorage ''token'' b of (token, b1) \<Rightarrow>
     case readBrowserStorage ''user'' b1 of (raw, b2) \<Rightarrow>
     case (case JSON_parse (if falsy raw then ''null'' else the raw) of
         Some user \<Rightarrow> (user, b2) | None \<Rightarrow> (JNull, drop_key ''user'' b2)) of (user, b3) \<Rightarrow>
     case readBrowserStorage ''refreshToken'' b3 of (refresh, b4) \<Rightarrow>
     case readBrowserStorage ''activeTenantId'' b4 of (tenant, b5) \<Rightarrow>
     case readBrowserStorage ''tenantPlan'' b5 of (plan, b6) \<Rightarrow>
     case (if falsy token then (None, b6) else loadDemoMetadata b6) of (demo, b7) \<Rightarrow>
       (\<lparr> sv_token = token, sv_refreshToken = refresh, sv_user = user, sv_activeTenantId = tenant,
          sv_tenantPlan = parseTenantPlan plan, sv_demo = demo \<rparr>, b7))"

definition is_master :: "js \<Rightarrow> string option \<Rightarrow> bool" where
  "is_master user tenant = (jget user ''role'' = Some (JStr ''master'') \<and> \<not> falsy tenant)"

definition or_js :: "js option \<Rightarrow> js \<Rightarrow> js" where
  "or_js v d = (if js_truthy v then the v else d)"

text \<open>The state that the store is created with; an error while the data source is created is thrown.\<close>

definition createAuthStore :: "int \<Rightarrow> Browser \<Rightarrow> (demo_error + AuthState) \<times> Browser" where
  "createAuthStore now b = (case loadFromStorage b of (saved, b1) \<Rightarrow>
     case createDataSource \<lparr>dc_tenantId = sv_activeTenantId saved, dc_tenantPlan = sv_tenantPlan saved, dc_demo = sv_demo saved\<rparr> None now b1 of
       (Inl err, b2) \<Rightarrow> (Inl err, b2)
     | (Inr ds, b2) \<Rightarrow> (Inr \<lparr>
         au_token = sv_token saved, au_refreshToken = sv_refreshToken saved, au_user = sv_user saved,
         au_activeTenantId = sv_activeTenantId saved, au_tenantPlan = sv_tenantPlan saved, au_demo = sv_demo saved,
         au_dataSource = ds,
         au_authOutcome = (if falsy (sv_token saved) then Anonymous else Authenticated),
         au_planDowngraded = False,
         au_isMasterSupportContext = is_master (sv_user saved) (sv_activeTenantId saved),
         au_isAuthenticated = (\<not> falsy (sv_token saved)),
         au_role = or_js (jget (sv_user saved) ''role'') JNull,
         au_username = or_js (jget (sv_user saved) ''username'') (JStr []) \<rparr>, b2))"

section \<open>Actions\<close>

text \<open>Everything an action can touch. \<open>aw_location\<close> is where the browser was sent.\<close>

record AuthWorld =
  aw_state :: AuthState
  aw_browser :: Browser
  aw_settings :: SettingsState
  aw_catalog :: CatalogState
  aw_location :: "string option"

type_synonym 'a auth_act = "(AuthWorld, demo_error + js, 'a) act"

definition set_auth :: "(AuthState \<Rightarrow> AuthState) \<Rightarrow> unit auth_act" where
  "set_auth f w = (Inr (), w\<lparr>aw_state := f (aw_state w)\<rparr>)"

definition on_browser :: "(Browser \<Rightarrow> Browser) \<Rightarrow> unit auth_act" where
  "on_browser f w = (Inr (), w\<lparr>aw_browser := f (aw_browser w)\<rparr>)"

text \<open>The caches are emptied.\<close>

definition clear_caches :: "unit auth_act" where
  "clear_caches w = (Inr (), w\<lparr>aw_settings := clearSettingsCache (aw_settings w), aw_catalog := clearAll (aw_catalog w)\<rparr>)"

text \<open>A request carries the saved token.\<close>

definition authorization :: "Browser \<Rightarrow> string option \<times> Browser" where
  "authorization b = (case readBrowserStorage ''token'' b of (token, b') \<Rightarrow>
     (if falsy token then None else Some (''Bearer '' @ the token), b'))"

text \<open>The interceptor of failed responses.\<close>

definition intercept_error :: "js \<Rightarrow> AuthWorld \<Rightarrow> AuthWorld" where
  "intercept_error err w =
     (if error_status err = Some (JNum 401) \<and> getAuthFailureCode err = None
      then w\<lparr>aw_browser := drop_key ''demoMetadata'' (drop_key ''activeTenantId'' (drop_key ''user''
             (drop_key ''refreshToken'' (drop_key ''token'' (aw_browser w))))), aw_location := Some ''/login''\<rparr>
      else w)"

definition api_reply :: "js + 'a \<Rightarrow> 'a auth_act" where
  "api_reply answer w = (case answer of Inr data \<Rightarrow> (Inr data, w) | Inl err \<Rightarrow> (Inl (Inr err), intercept_error err w))"

definition new_data_source :: "DataSourceContext \<Rightarrow> DemoWorkspaceRepository option \<Rightarrow> int \<Rightarrow> DataSourceAdapter auth_act" where
  "new_data_source ctx existing now w = (case createDataSource ctx existing now (aw_browser w) of
     (Inl err, b) \<Rightarrow> (Inl (Inl err), w\<lparr>aw_browser := b\<rparr>)
   | (Inr ds, b) \<Rightarrow> (Inr ds, w\<lparr>aw_browser := b\<rparr>))"

definition stateFromToken :: "TokenResponse \<Rightarrow> DemoAuthMetadata option \<Rightarrow> int \<Rightarrow> (AuthState \<Rightarrow> AuthState) auth_act" where
  "stateFromToken data demo now =
     abind (new_data_source \<lparr>dc_tenantId = tr_active_tenant_id data, dc_tenantPlan = tr_tenant_plan data, dc_demo = demo\<rparr> None now)
       (\<lambda>ds. areturn (\<lambda>s. s\<lparr>
          au_token := Some (tr_access_token data), au_refreshToken := Some (tr_refresh_token data),
          au_user := user_js (tr_user data), au_activeTenantId := tr_active_tenant_id data,
          au_tenantPlan := tr_tenant_plan data, au_demo := demo, au_dataSource := ds,
          au_authOutcome := Authenticated,
          au_isMasterSupportContext := (u_role (tr_user data) = ''master'' \<and> \<not> falsy (tr_active_tenant_id data)),
          au_isAuthenticated := True,
          au_role := JStr (u_role (tr_user data)), au_username := JStr (u_username (tr_user data))\<rparr>))"

text \<open>A production data source is created without touching the storage.\<close>

definition production_source :: DataSourceAdapter where
  "production_source = \<lparr> ad_mode = Production,
     ad_context = \<lparr>dc_tenantId = None, dc_tenantPlan = None, dc_demo = None\<rparr>, ad_workspace = None \<rparr>"

definition anonymousState :: "AuthOutcome \<Rightarrow> AuthState \<Rightarrow> AuthState" where
  "anonymousState outcome s = s\<lparr>
     au_token := None, au_refreshToken := None, au_user := JNull, au_activeTenantId := None, au_tenantPlan := None,
     au_demo := None, au_dataSource := production_source, au_authOutcome := outcome,
     au_isMasterSupportContext := False, au_isAuthenticated := False, au_role := JNull, au_username := JStr []\<rparr>"


text \<open>Translations: the saved locale of the demo first, the default when that fails.\<close>

definition loadCatalogForDataSource :: "(string option \<Rightarrow> js + unit) \<Rightarrow> int \<Rightarrow> unit auth_act" where
  "loadCatalogForDataSource loadCatalog now w =
    (let ds = au_dataSource (aw_state w);
         default = (\<lambda>v. (case loadCatalog None of Inl err \<Rightarrow> (Inl (Inr err), v) | Inr _ \<Rightarrow> (Inr (), v))) in
     case (ad_mode ds, dc_demo (ad_context ds), ad_workspace ds) of
       (Demo, Some demo, Some repo) \<Rightarrow>
         (case loadTenantSettings demo now (repo\<lparr>storage := defaultStorage (aw_browser w)\<rparr>) of (r, repo') \<Rightarrow>
           let v = w\<lparr>aw_browser := store_back (aw_browser w) (storage repo'),
                     aw_state := (aw_state w)\<lparr>au_dataSource := ds\<lparr>ad_workspace := Some repo'\<rparr>\<rparr>\<rparr> in
           (case r of
              Inr settings \<Rightarrow> (case loadCatalog (Some (ts_locale settings)) of Inr _ \<Rightarrow> (Inr (), v) | Inl _ \<Rightarrow> default v)
            | Inl _ \<Rightarrow> default v))
     | _ \<Rightarrow> default w)"

definition login_reply :: "(string option \<Rightarrow> js + unit) \<Rightarrow> int \<Rightarrow> js + TokenResponse \<Rightarrow> TokenResponse auth_act" where
  "login_reply loadCatalog now answer = (case answer of
     Inl err \<Rightarrow> (\<lambda>w. athen (set_auth (\<lambda>s. s\<lparr>au_authOutcome :=
         (case getAuthFailureCode err of Some c \<Rightarrow> Lifecycle c | None \<Rightarrow> AuthenticationFailed)\<rparr>))
       (athrow (Inr err)) (intercept_error err w))
   | Inr data \<Rightarrow> abind aget (\<lambda>w.
       let current = aw_state w;
           planDowngraded = (jget (au_user current) ''id'' = Some (JStr (u_id (tr_user data))) \<and>
             au_activeTenantId current = tr_active_tenant_id data \<and>
             au_tenantPlan current = Some Pro \<and> tr_tenant_plan data = Some Starter) in
       athen (on_browser (saveTokenData data)) (athen clear_caches
       (abind (stateFromToken data (metadataFromToken data) now) (\<lambda>f.
        athen (set_auth (\<lambda>s. (f s)\<lparr>au_planDowngraded := planDowngraded\<rparr>))
       (athen (loadCatalogForDataSource loadCatalog now) (areturn data)))))))"

text \<open>\<open>try ... catch (error)\<close>.\<close>

definition acatch :: "('s, 'e, 'a) act \<Rightarrow> ('e \<Rightarrow> ('s, 'e, 'a) act) \<Rightarrow> ('s, 'e, 'a) act" where
  "acatch m handler s = (case m s of (Inl e, t) \<Rightarrow> handler e t | (Inr a, t) \<Rightarrow> (Inr a, t))"

definition end_session :: "AuthFailureCode \<Rightarrow> unit auth_act" where
  "end_session outcome = abind aget (\<lambda>w.
     let tid = map_option md_tenantId (au_demo (aw_state w)) in
     athen (on_browser (if outcome = DemoEnded \<and> \<not> falsy tid
         then (\<lambda>b. store_back b (snd (clearDemoWorkspace (the tid) (defaultStorage b)))) else id))
     (athen (on_browser clearTokenData)
       (set_auth (anonymousState (Lifecycle outcome)))))"

definition session_failure :: "demo_error + js \<Rightarrow> 'a auth_act" where
  "session_failure e = athen
     (case (case e of Inr err \<Rightarrow> getAuthFailureCode err | Inl _ \<Rightarrow> None) of
        Some outcome \<Rightarrow> end_session outcome
      | None \<Rightarrow> set_auth (\<lambda>s. s\<lparr>au_authOutcome := AuthenticationFailed\<rparr>))
     (athrow e)"

definition refresh_request :: "AuthState \<Rightarrow> demo_error + api_request" where
  "refresh_request s = (if falsy (au_refreshToken s) then Inl (PlainError ''No refresh token available'')
     else Inr (refreshApi (the (au_refreshToken s))))"

definition refresh_reply :: "int \<Rightarrow> js + TokenResponse \<Rightarrow> TokenResponse auth_act" where
  "refresh_reply now answer = acatch (abind (api_reply answer) (\<lambda>data.
     athen (on_browser (saveTokenData data))
     (abind (stateFromToken data (metadataFromToken data) now) (\<lambda>f.
      athen (set_auth (\<lambda>s. (f s)\<lparr>au_planDowngraded := False\<rparr>)) (areturn data))))) session_failure"

text \<open>The demo of the store goes on: the server still answers with that tenant's active demo.\<close>

definition demo_goes_on :: "DemoAuthMetadata option \<Rightarrow> DemoAuthMetadata option \<Rightarrow> bool" where
  "demo_goes_on currentDemo demo = (case currentDemo of None \<Rightarrow> True
     | Some current \<Rightarrow> (case demo of None \<Rightarrow> False | Some d \<Rightarrow> md_tenantId d = md_tenantId current \<and> md_status d = Active))"

definition heartbeat_accept :: "int \<Rightarrow> DemoHeartbeatResponse \<Rightarrow> DemoHeartbeatResponse auth_act" where
  "heartbeat_accept now data = abind aget (\<lambda>w.
     let current = aw_state w;
         tenant = au_activeTenantId current;
         plan = (if hb_tenant_plan data \<noteq> None then hb_tenant_plan data else au_tenantPlan current);
         demo = metadataFromHeartbeat data tenant in
     if \<not> demo_goes_on (au_demo current) demo then athrow (Inr demoEndedError)
     else athen (on_browser (saveDemoMetadata demo))
       (athen (on_browser (case hb_tenant_plan data of None \<Rightarrow> id | Some p \<Rightarrow> put_key ''tenantPlan'' (plan_string p)))
       (abind (new_data_source \<lparr>dc_tenantId = tenant, dc_tenantPlan = plan, dc_demo = demo\<rparr>
          (ad_workspace (au_dataSource current)) now) (\<lambda>ds.
        athen (set_auth (\<lambda>s. s\<lparr>au_demo := demo, au_tenantPlan := plan, au_authOutcome := Authenticated, au_dataSource := ds\<rparr>))
        (areturn data)))))"

definition heartbeat_reply :: "int \<Rightarrow> js + DemoHeartbeatResponse \<Rightarrow> DemoHeartbeatResponse auth_act" where
  "heartbeat_reply now answer = acatch (abind (api_reply answer) (heartbeat_accept now)) session_failure"

definition logout_request :: "Browser \<Rightarrow> api_request \<times> Browser" where
  "logout_request b = (case readBrowserStorage ''refreshToken'' b of (currentRefresh, b') \<Rightarrow> (logoutApi currentRefresh, b'))"

text \<open>Logout is local whatever the server answers.\<close>

definition logout_reply :: "js + unit \<Rightarrow> unit auth_act" where
  "logout_reply answer = athen (acatch (api_reply answer) (\<lambda>_. areturn ()))
     (athen (on_browser clearTokenData) (athen clear_caches
       (set_auth (\<lambda>s. (anonymousState LoggedOut s)\<lparr>au_planDowngraded := False\<rparr>))))"

definition switchTenant_reply :: "int \<Rightarrow> js + TokenResponse \<Rightarrow> TokenResponse auth_act" where
  "switchTenant_reply now answer = abind (api_reply answer) (\<lambda>data.
     athen (on_browser (saveTokenData data)) (athen clear_caches
     (abind (stateFromToken data (metadataFromToken data) now) (\<lambda>f.
      athen (set_auth (\<lambda>s. (f s)\<lparr>au_planDowngraded := False\<rparr>)) (areturn data)))))"

definition setTenantPlan :: "int \<Rightarrow> TenantPlan option \<Rightarrow> unit auth_act" where
  "setTenantPlan now plan = abind aget (\<lambda>w. let current = aw_state w in
     athen (on_browser (put_or_drop ''tenantPlan'' (map_option plan_string plan)))
     (abind (new_data_source \<lparr>dc_tenantId = au_activeTenantId current, dc_tenantPlan = plan, dc_demo = au_demo current\<rparr>
        (ad_workspace (au_dataSource current)) now) (\<lambda>ds.
      set_auth (\<lambda>s. s\<lparr>au_tenantPlan := plan,
        au_planDowngraded := (au_tenantPlan current = Some Pro \<and> plan = Some Starter), au_dataSource := ds\<rparr>))))"

section \<open>Steps\<close>

text \<open>
  Any reply may arrive at any time, whatever was sent before; any other failed request passes the interceptor.
\<close>

inductive auth_step :: "AuthWorld \<Rightarrow> AuthWorld \<Rightarrow> bool" where
  login: "login_reply loadCatalog now answer w = (x, v) \<Longrightarrow> auth_step w v"
| refresh: "refresh_reply now answer w = (x, v) \<Longrightarrow> auth_step w v"
| heartbeat: "heartbeat_reply now answer' w = (y, v) \<Longrightarrow> auth_step w v"
| logout: "logout_reply answer'' w = (z, v) \<Longrightarrow> auth_step w v"
| switch: "switchTenant_reply now answer w = (x, v) \<Longrightarrow> auth_step w v"
| set_plan: "setTenantPlan now plan w = (z, v) \<Longrightarrow> auth_step w v"
| failed_request: "auth_step w (intercept_error err w)"

section \<open>The data source belongs to the session\<close>

definition auth_inv :: "AuthState \<Rightarrow> bool" where
  "auth_inv s \<longleftrightarrow>
     ad_context (au_dataSource s) = \<lparr>dc_tenantId = au_activeTenantId s, dc_tenantPlan = au_tenantPlan s, dc_demo = au_demo s\<rparr> \<and>
     (ad_mode (au_dataSource s) = Demo \<longleftrightarrow> au_demo s \<noteq> None) \<and>
     (ad_workspace (au_dataSource s) = None \<longleftrightarrow> au_demo s = None) \<and>
     (au_isAuthenticated s \<longrightarrow> au_token s \<noteq> None) \<and>
     au_isMasterSupportContext s = is_master (au_user s) (au_activeTenantId s)"


text \<open>Running the parts of an action.\<close>

lemma auth_run [simp]:
  "athen (set_auth f) m w = m (w\<lparr>aw_state := f (aw_state w)\<rparr>)"
  "athen (on_browser g) m w = m (w\<lparr>aw_browser := g (aw_browser w)\<rparr>)"
  "athen clear_caches m w = m (w\<lparr>aw_settings := clearSettingsCache (aw_settings w), aw_catalog := clearAll (aw_catalog w)\<rparr>)"
  "abind aget h w = h w w"
  by (simp_all add: athen_def abind_def set_auth_def on_browser_def clear_caches_def aget_def)

lemma auth_run_data_source:
  "abind (new_data_source c e now) f w = (case createDataSource c e now (aw_browser w) of
     (Inl err, b) \<Rightarrow> (Inl (Inl err), w\<lparr>aw_browser := b\<rparr>) | (Inr ds, b) \<Rightarrow> f ds (w\<lparr>aw_browser := b\<rparr>))"
  by (simp add: abind_def new_data_source_def split: prod.splits sum.splits)

lemma auth_run_reply:
  "abind (api_reply answer) f w = (case answer of Inr data \<Rightarrow> f data w | Inl err \<Rightarrow> (Inl (Inr err), intercept_error err w))"
  by (simp add: abind_def api_reply_def split: sum.splits)

lemma intercept_state [simp]: "aw_state (intercept_error err w) = aw_state w"
  by (simp add: intercept_error_def)

definition keeps_inv :: "'a auth_act \<Rightarrow> bool" where
  "keeps_inv m \<longleftrightarrow> (\<forall>w x v. m w = (x, v) \<longrightarrow> auth_inv (aw_state w) \<longrightarrow> auth_inv (aw_state v))"

lemma keeps_invI: "(\<And>w x v. m w = (x, v) \<Longrightarrow> auth_inv (aw_state w) \<Longrightarrow> auth_inv (aw_state v)) \<Longrightarrow> keeps_inv m"
  unfolding keeps_inv_def by blast

lemma keeps_invD: "keeps_inv m \<Longrightarrow> m w = (x, v) \<Longrightarrow> auth_inv (aw_state w) \<Longrightarrow> auth_inv (aw_state v)"
  unfolding keeps_inv_def by blast

lemma keeps_inv_catch: "keeps_inv m \<Longrightarrow> (\<And>e. keeps_inv (h e)) \<Longrightarrow> keeps_inv (acatch m h)"
  unfolding keeps_inv_def acatch_def by (auto split: prod.splits sum.splits)

lemma is_master_user [simp]: "is_master (user_js u) tenant = (u_role u = ''master'' \<and> \<not> falsy tenant)"
  by (simp add: is_master_def user_js_def)

lemma auth_inv_anonymous: "auth_inv (anonymousState outcome s)"
  by (simp add: auth_inv_def anonymousState_def production_source_def is_master_def)

lemma auth_inv_fields [simp]:
  "auth_inv (s\<lparr>au_planDowngraded := b\<rparr>) = auth_inv s" "auth_inv (s\<lparr>au_authOutcome := x\<rparr>) = auth_inv s"
  by (simp_all add: auth_inv_def)

text \<open>What a fresh data source brings into the state.\<close>

lemma auth_inv_token:
  assumes "createDataSource \<lparr>dc_tenantId = tr_active_tenant_id data, dc_tenantPlan = tr_tenant_plan data, dc_demo = demo\<rparr> e now b = (Inr ds, b')"
  shows "auth_inv (s\<lparr>
    au_token := Some t, au_refreshToken := r, au_user := user_js (tr_user data), au_activeTenantId := tr_active_tenant_id data,
    au_tenantPlan := tr_tenant_plan data, au_demo := demo, au_dataSource := ds, au_authOutcome := x,
    au_isMasterSupportContext := (u_role (tr_user data) = ''master'' \<and> \<not> falsy (tr_active_tenant_id data)),
    au_isAuthenticated := True, au_role := ro, au_username := un\<rparr>)"
  using createDataSource_context [OF assms] by (simp add: auth_inv_def)

lemma auth_inv_source:
  assumes "auth_inv s"
    and "createDataSource \<lparr>dc_tenantId = au_activeTenantId s, dc_tenantPlan = plan, dc_demo = demo\<rparr> e now b = (Inr ds, b')"
  shows "auth_inv (s\<lparr>au_demo := demo, au_tenantPlan := plan, au_authOutcome := x, au_dataSource := ds\<rparr>)"
  using assms(1) createDataSource_context [OF assms(2)] by (simp add: auth_inv_def)

lemma stateFromToken_run:
  "abind (stateFromToken data demo now) g w =
     (case createDataSource \<lparr>dc_tenantId = tr_active_tenant_id data, dc_tenantPlan = tr_tenant_plan data, dc_demo = demo\<rparr> None now (aw_browser w) of
       (Inl err, b) \<Rightarrow> (Inl (Inl err), w\<lparr>aw_browser := b\<rparr>)
     | (Inr ds, b) \<Rightarrow> g (\<lambda>s. s\<lparr>
          au_token := Some (tr_access_token data), au_refreshToken := Some (tr_refresh_token data),
          au_user := user_js (tr_user data), au_activeTenantId := tr_active_tenant_id data,
          au_tenantPlan := tr_tenant_plan data, au_demo := demo, au_dataSource := ds,
          au_authOutcome := Authenticated,
          au_isMasterSupportContext := (u_role (tr_user data) = ''master'' \<and> \<not> falsy (tr_active_tenant_id data)),
          au_isAuthenticated := True,
          au_role := JStr (u_role (tr_user data)), au_username := JStr (u_username (tr_user data))\<rparr>) (w\<lparr>aw_browser := b\<rparr>))"
  by (simp add: stateFromToken_def abind_def new_data_source_def areturn_def split: prod.splits sum.splits)

lemma keeps_inv_end_session: "keeps_inv (end_session outcome)"
  by (rule keeps_invI) (auto simp: end_session_def Let_def set_auth_def auth_inv_anonymous)

lemma keeps_inv_failure: "keeps_inv (session_failure e)"
proof (rule keeps_invI)
  fix w x v
  assume run: "session_failure e w = (x, v)" and inv: "auth_inv (aw_state w)"
  show "auth_inv (aw_state v)"
  proof (cases "case e of Inr err \<Rightarrow> getAuthFailureCode err | Inl _ \<Rightarrow> None")
    case None
    with run inv show ?thesis by (auto simp: session_failure_def athrow_def)
  next
    case (Some outcome)
    obtain y u where "end_session outcome w = (y, u)" by fastforce
    with Some run inv keeps_invD [OF keeps_inv_end_session] show ?thesis
      by (auto simp: session_failure_def athen_def abind_def athrow_def split: sum.splits)
  qed
qed


lemma keeps_inv_translations: "keeps_inv (loadCatalogForDataSource loadCatalog now)"
  by (rule keeps_invI)
    (auto simp: loadCatalogForDataSource_def Let_def auth_inv_def split: DataSourceMode.splits option.splits sum.splits prod.splits)

lemma keeps_inv_login: "keeps_inv (login_reply loadCatalog now answer)"
proof (rule keeps_invI)
  fix w x v
  assume run: "login_reply loadCatalog now answer w = (x, v)" and inv: "auth_inv (aw_state w)"
  have translate: "auth_inv (aw_state v)"
    if "abind (loadCatalogForDataSource loadCatalog now) (\<lambda>_. areturn a) u = (x, v)" "auth_inv (aw_state u)" for u and a :: TokenResponse
    using that keeps_invD [OF keeps_inv_translations] by (auto simp: abind_def areturn_def split: prod.splits sum.splits)
  from run inv show "auth_inv (aw_state v)"
    by (cases answer)
      (auto simp: login_reply_def Let_def athrow_def stateFromToken_run athen_def [of "loadCatalogForDataSource _ _"]
        split: prod.splits sum.splits dest!: translate dest: auth_inv_token)
qed

lemma keeps_inv_refresh: "keeps_inv (refresh_reply now answer)"
  unfolding refresh_reply_def
proof (rule keeps_inv_catch [OF keeps_invI keeps_inv_failure])
  fix w x v
  assume run: "abind (api_reply answer) (\<lambda>data. athen (on_browser (saveTokenData data))
     (abind (stateFromToken data (metadataFromToken data) now) (\<lambda>f.
      athen (set_auth (\<lambda>s. (f s)\<lparr>au_planDowngraded := False\<rparr>)) (areturn data)))) w = (x, v)" and inv: "auth_inv (aw_state w)"
  then show "auth_inv (aw_state v)"
    by (cases answer) (auto simp: auth_run_reply stateFromToken_run areturn_def split: prod.splits sum.splits dest: auth_inv_token)
qed

lemma keeps_inv_switch: "keeps_inv (switchTenant_reply now answer)"
proof (rule keeps_invI)
  fix w x v
  assume "switchTenant_reply now answer w = (x, v)" and "auth_inv (aw_state w)"
  then show "auth_inv (aw_state v)"
    by (cases answer) (auto simp: switchTenant_reply_def auth_run_reply stateFromToken_run areturn_def
      split: prod.splits sum.splits dest: auth_inv_token)
qed

lemma keeps_inv_accept: "keeps_inv (heartbeat_accept now data)"
proof (rule keeps_invI)
  fix w x v
  assume run: "heartbeat_accept now data w = (x, v)" and inv: "auth_inv (aw_state w)"
  define plan where "plan = (if hb_tenant_plan data \<noteq> None then hb_tenant_plan data else au_tenantPlan (aw_state w))"
  define demo where "demo = metadataFromHeartbeat data (au_activeTenantId (aw_state w))"
  define u where "u = w\<lparr>aw_browser := (case hb_tenant_plan data of None \<Rightarrow> id | Some p \<Rightarrow> put_key ''tenantPlan'' (plan_string p))
    (saveDemoMetadata demo (aw_browser w))\<rparr>"
  obtain r b where made: "createDataSource \<lparr>dc_tenantId = au_activeTenantId (aw_state w), dc_tenantPlan = plan, dc_demo = demo\<rparr>
      (ad_workspace (au_dataSource (aw_state w))) now (aw_browser u) = (r, b)"
    by fastforce
  have unfolded: "heartbeat_accept now data w = (if \<not> demo_goes_on (au_demo (aw_state w)) demo then athrow (Inr demoEndedError) w
    else abind (new_data_source \<lparr>dc_tenantId = au_activeTenantId (aw_state w), dc_tenantPlan = plan, dc_demo = demo\<rparr>
        (ad_workspace (au_dataSource (aw_state w))) now) (\<lambda>ds.
      athen (set_auth (\<lambda>s. s\<lparr>au_demo := demo, au_tenantPlan := plan, au_authOutcome := Authenticated, au_dataSource := ds\<rparr>))
        (areturn data)) u)"
    by (simp only: heartbeat_accept_def auth_run Let_def plan_def [symmetric] demo_def [symmetric] if_distrib [of "\<lambda>m. m w"])
      (simp add: u_def)
  show "auth_inv (aw_state v)"
  proof (cases "demo_goes_on (au_demo (aw_state w)) demo")
    case False
    with run unfolded inv show ?thesis by (simp add: athrow_def)
  next
    case True
    show ?thesis
    proof (cases r)
      case (Inl e)
      with True run unfolded made inv show ?thesis by (auto simp: auth_run_data_source u_def)
    next
      case (Inr ds)
      with True run unfolded made have "aw_state v =
          (aw_state w)\<lparr>au_demo := demo, au_tenantPlan := plan, au_authOutcome := Authenticated, au_dataSource := ds\<rparr>"
        by (simp add: auth_run_data_source areturn_def u_def) (metis AuthWorld.select_convs(1) AuthWorld.surjective AuthWorld.update_convs(1,2))
      with auth_inv_source [OF inv made [unfolded Inr]] show ?thesis by simp
    qed
  qed
qed

lemma keeps_inv_heartbeat: "keeps_inv (heartbeat_reply now answer)"
  unfolding heartbeat_reply_def
  by (rule keeps_inv_catch [OF keeps_invI keeps_inv_failure], cases answer)
    (auto simp: auth_run_reply intro: keeps_invD [OF keeps_inv_accept])

lemma logout_run:
  "logout_reply answer w = (let u = (case answer of Inl err \<Rightarrow> intercept_error err w | Inr _ \<Rightarrow> w) in
     (Inr (), u\<lparr>aw_browser := clearTokenData (aw_browser u), aw_settings := clearSettingsCache (aw_settings u),
       aw_catalog := clearAll (aw_catalog u), aw_state := (anonymousState LoggedOut (aw_state u))\<lparr>au_planDowngraded := False\<rparr>\<rparr>))"
  by (cases answer) (simp_all add: logout_reply_def athen_def acatch_def api_reply_def areturn_def abind_def set_auth_def
    on_browser_def clear_caches_def Let_def)

lemma keeps_inv_logout: "keeps_inv (logout_reply answer)"
  by (rule keeps_invI) (auto simp: logout_run Let_def auth_inv_anonymous)

lemma setTenantPlan_run:
  "setTenantPlan now plan w = (let current = aw_state w; u = w\<lparr>aw_browser := put_or_drop ''tenantPlan'' (map_option plan_string plan) (aw_browser w)\<rparr> in
     case createDataSource \<lparr>dc_tenantId = au_activeTenantId current, dc_tenantPlan = plan, dc_demo = au_demo current\<rparr>
       (ad_workspace (au_dataSource current)) now (aw_browser u) of
       (Inl err, b) \<Rightarrow> (Inl (Inl err), u\<lparr>aw_browser := b\<rparr>)
     | (Inr ds, b) \<Rightarrow> (Inr (), u\<lparr>aw_browser := b, aw_state := current\<lparr>au_tenantPlan := plan,
        au_planDowngraded := (au_tenantPlan current = Some Pro \<and> plan = Some Starter), au_dataSource := ds\<rparr>\<rparr>))"
  by (simp only: setTenantPlan_def auth_run Let_def auth_run_data_source)
    (simp add: set_auth_def split: prod.splits sum.splits)

lemma keeps_inv_plan: "keeps_inv (setTenantPlan now plan)"
proof (rule keeps_invI)
  fix w x v
  assume run: "setTenantPlan now plan w = (x, v)" and inv: "auth_inv (aw_state w)"
  obtain r b where made: "createDataSource \<lparr>dc_tenantId = au_activeTenantId (aw_state w), dc_tenantPlan = plan, dc_demo = au_demo (aw_state w)\<rparr>
      (ad_workspace (au_dataSource (aw_state w))) now (put_or_drop ''tenantPlan'' (map_option plan_string plan) (aw_browser w)) = (r, b)"
    by fastforce
  show "auth_inv (aw_state v)"
  proof (cases r)
    case (Inl e)
    with run inv made show ?thesis by (auto simp: setTenantPlan_run)
  next
    case (Inr ds)
    with run made have "aw_state v = (aw_state w)\<lparr>au_tenantPlan := plan,
        au_planDowngraded := (au_tenantPlan (aw_state w) = Some Pro \<and> plan = Some Starter), au_dataSource := ds\<rparr>"
      by (auto simp: setTenantPlan_run Let_def)
    with inv createDataSource_context [OF made [unfolded Inr]] show ?thesis by (simp add: auth_inv_def)
  qed
qed

lemma auth_inv_step: "auth_step w v \<Longrightarrow> auth_inv (aw_state w) \<Longrightarrow> auth_inv (aw_state v)"
proof (induction rule: auth_step.induct)
  case (failed_request w err)
  then show ?case by simp
qed (blast intro: keeps_invD [OF keeps_inv_login] keeps_invD [OF keeps_inv_refresh] keeps_invD [OF keeps_inv_heartbeat]
  keeps_invD [OF keeps_inv_logout] keeps_invD [OF keeps_inv_switch] keeps_invD [OF keeps_inv_plan])+

interpretation session_run: invariant_run auth_step "\<lambda>w. auth_inv (aw_state w)"
  by unfold_locales (rule auth_inv_step)

lemma auth_inv_created:
  assumes "createAuthStore now b = (Inr s, b')"
  shows "auth_inv s"
proof -
  obtain saved b1 where load: "loadFromStorage b = (saved, b1)" by fastforce
  obtain ds where ds: "createDataSource \<lparr>dc_tenantId = sv_activeTenantId saved, dc_tenantPlan = sv_tenantPlan saved, dc_demo = sv_demo saved\<rparr> None now b1 = (Inr ds, b')"
    and s: "s = \<lparr>
         au_token = sv_token saved, au_refreshToken = sv_refreshToken saved, au_user = sv_user saved,
         au_activeTenantId = sv_activeTenantId saved, au_tenantPlan = sv_tenantPlan saved, au_demo = sv_demo saved,
         au_dataSource = ds,
         au_authOutcome = (if falsy (sv_token saved) then Anonymous else Authenticated),
         au_planDowngraded = False,
         au_isMasterSupportContext = is_master (sv_user saved) (sv_activeTenantId saved),
         au_isAuthenticated = (\<not> falsy (sv_token saved)),
         au_role = or_js (jget (sv_user saved) ''role'') JNull,
         au_username = or_js (jget (sv_user saved) ''username'') (JStr []) \<rparr>"
    using assms load by (auto simp: createAuthStore_def split: prod.splits sum.splits)
  then show ?thesis using createDataSource_context [OF ds] by (cases "sv_token saved") (simp_all add: auth_inv_def)
qed

section \<open>A storage that works\<close>

lemma working_browser:
  assumes "working s"
  shows "readBrowserStorage k (Inr (Some s)) = (map_of (items s) k, Inr (Some s))"
    and "put_key k v (Inr (Some s)) = Inr (Some (s\<lparr>items := obj_set k v (items s)\<rparr>))"
    and "drop_key k (Inr (Some s)) = Inr (Some (s\<lparr>items := del_item k (items s)\<rparr>))"
  using working_calls [OF assms]
  by (simp_all add: readBrowserStorage_def writeBrowserStorage_def removeBrowserStorage_def getBrowserStorage_def put_storage_def)

text \<open>A browser with a storage that works and these items.\<close>

definition browser_with :: "(string \<Rightarrow> string option) \<Rightarrow> Browser \<Rightarrow> bool" where
  "browser_with m b \<longleftrightarrow> (\<exists>s. b = Inr (Some s) \<and> working s \<and> map_of (items s) = m)"

lemma browser_with_read: "browser_with m b \<Longrightarrow> readBrowserStorage k b = (m k, b)"
  by (auto simp: browser_with_def working_browser)

lemma browser_with_put: "browser_with m b \<Longrightarrow> browser_with (m(k \<mapsto> v)) (put_key k v b)"
  by (auto simp: browser_with_def working_browser)

lemma browser_with_drop: "browser_with m b \<Longrightarrow> browser_with (m(k := None)) (drop_key k b)"
  by (auto simp: browser_with_def working_browser fun_eq_iff)

lemma browser_with_put_or_drop:
  "browser_with m b \<Longrightarrow> browser_with (m(k := (if falsy v then None else v))) (put_or_drop k v b)"
  by (cases v) (auto simp: put_or_drop_def browser_with_put browser_with_drop)

lemma saveTokenData_browser:
  assumes "browser_with m b"
  shows "browser_with (m(''token'' \<mapsto> tr_access_token data, ''refreshToken'' \<mapsto> tr_refresh_token data,
     ''user'' \<mapsto> JSON_stringify (user_js (tr_user data)),
     ''activeTenantId'' := (if falsy (tr_active_tenant_id data) then None else tr_active_tenant_id data),
     ''tenantPlan'' := map_option plan_string (tr_tenant_plan data),
     ''demoMetadata'' := map_option (\<lambda>d. JSON_stringify (metadata_js d)) (metadataFromToken data)))
    (saveTokenData data b)"
proof -
  have plan: "(if falsy (map_option plan_string p) then None else map_option plan_string p) = map_option plan_string p" for p
    by (cases p) (auto simp: plan_string_def split: TenantPlan.splits)
  have demo: "(if falsy (map_option (\<lambda>d. JSON_stringify (metadata_js d)) d) then None else map_option (\<lambda>d. JSON_stringify (metadata_js d)) d) =
      map_option (\<lambda>d. JSON_stringify (metadata_js d)) d" for d
    by (cases d) (auto simp: JSON_stringify_nonempty)
  show ?thesis
    unfolding saveTokenData_def Let_def saveDemoMetadata_def
    using browser_with_put_or_drop [where k = "''demoMetadata''" and v = "map_option (\<lambda>d. JSON_stringify (metadata_js d)) (metadataFromToken data)", OF
        browser_with_put_or_drop [where k = "''tenantPlan''" and v = "map_option plan_string (tr_tenant_plan data)", OF
          browser_with_put_or_drop [OF browser_with_put [OF browser_with_put [OF browser_with_put [OF assms]]]]]]
    by (simp only: plan demo)
qed

lemma clearTokenData_browser:
  assumes "browser_with m b"
  shows "browser_with (m(''token'' := None, ''refreshToken'' := None, ''user'' := None, ''activeTenantId'' := None,
    ''tenantPlan'' := None, ''demoMetadata'' := None)) (clearTokenData b)"
  unfolding clearTokenData_def by (intro browser_with_drop assms)

section \<open>Reloading a saved session\<close>

definition session_number :: "TokenResponse \<Rightarrow> bool" where
  "session_number data = (case tr_demo_credentials_version data of None \<Rightarrow> True | Some v \<Rightarrow> is_number (Some v) \<and> wf_js v)"

lemma metadata_of_js_js:
  assumes "md_locale m = Some l" and "l \<in> {''en'', ''es''}" and "is_number (Some (md_credentialVersion m))"
  shows "metadata_of_js (metadata_js m) = Some m"
  using assms
  by (cases m; cases "md_plan m"; cases "md_status m"; cases "md_activatedAt m"; cases "md_expiresAt m")
    (auto simp: metadata_of_js_def metadata_js_def js_member_def js_nullable_def plan_string_def status_string_def
      plan_of_js_def parse_status_def string_or_null_def)

lemma metadata_wf: "wf_js (md_credentialVersion m) \<Longrightarrow> wf_js (metadata_js m)"
  by (cases "md_locale m"; cases "md_activatedAt m"; cases "md_expiresAt m")
    (auto simp: metadata_js_def js_member_def js_nullable_def)

lemma metadataFromToken_ok:
  assumes "metadataFromToken data = Some m" and "session_number data"
  shows "\<exists>l \<in> {''en'', ''es''}. md_locale m = Some l" and "is_number (Some (md_credentialVersion m))" and "wf_js (md_credentialVersion m)"
  using assms by (auto simp: metadataFromToken_def session_number_def locale_of_def Let_def split: if_splits option.splits)

lemma user_wf: "wf_js (user_js u)"
  by (simp add: user_js_def)

lemma parse_plan [simp]: "parseTenantPlan (map_option plan_string p) = p"
  by (cases p) (auto simp: parseTenantPlan_def plan_string_def split: TenantPlan.splits)

lemma loadDemoMetadata_saved:
  assumes "browser_with m b" and "m ''demoMetadata'' = map_option (\<lambda>d. JSON_stringify (metadata_js d)) (metadataFromToken data)"
    and "session_number data"
  shows "loadDemoMetadata b = (metadataFromToken data, b)"
proof (cases "metadataFromToken data")
  case None
  with assms show ?thesis by (simp add: loadDemoMetadata_def browser_with_read)
next
  case (Some d)
  note ok = metadataFromToken_ok [OF Some assms(3)]
  have "metadata_of_js (metadata_js d) = Some d" using ok(1,2) metadata_of_js_js by blast
  moreover have "JSON_parse (JSON_stringify (metadata_js d)) = Some (metadata_js d)"
    by (rule JSON_parse_stringify) (rule metadata_wf [OF ok(3)])
  ultimately show ?thesis
    using assms(1,2) Some by (simp add: loadDemoMetadata_def browser_with_read JSON_stringify_nonempty)
qed

text \<open>The keys of a saved session.\<close>

definition session_keys :: "string list" where
  "session_keys = [''token'', ''refreshToken'', ''user'', ''activeTenantId'', ''tenantPlan'', ''demoMetadata'']"

lemma load_without_session:
  assumes "browser_with m b" and "\<forall>k \<in> set session_keys. m k = None"
  shows "loadFromStorage b = (\<lparr>sv_token = None, sv_refreshToken = None, sv_user = JNull, sv_activeTenantId = None,
    sv_tenantPlan = None, sv_demo = None\<rparr>, b)"
proof -
  have "JSON_parse ''null'' = Some JNull" by code_simp
  with assms show ?thesis
    by (simp add: loadFromStorage_def browser_with_read session_keys_def parseTenantPlan_def)
qed

section \<open>The end of a session\<close>

text \<open>The server ends a demo: it says so, or its heartbeat no longer shows the active demo of the session.\<close>

definition session_ends :: "AuthFailureCode \<Rightarrow> AuthWorld \<Rightarrow> AuthWorld \<Rightarrow> bool" where
  "session_ends outcome w v \<longleftrightarrow>
     (\<exists>now err x. getAuthFailureCode err = Some outcome \<and> refresh_reply now (Inl err) w = (x, v)) \<or>
     (\<exists>now err x. getAuthFailureCode err = Some outcome \<and> heartbeat_reply now (Inl err) w = (x, v)) \<or>
     (\<exists>now data x. outcome = DemoEnded \<and> heartbeat_reply now (Inr data) w = (x, v) \<and>
        \<not> demo_goes_on (au_demo (aw_state w)) (metadataFromHeartbeat data (au_activeTenantId (aw_state w))))"

lemma demoEndedError_code [simp]: "getAuthFailureCode demoEndedError = Some DemoEnded"
  by (simp add: getAuthFailureCode_def getErrorDetail_def demoEndedError_def)

lemma session_failure_run:
  assumes "session_failure (Inr err) w = (x, v)" and "getAuthFailureCode err = Some outcome"
  shows "v = snd (end_session outcome w)"
  using assms by (auto simp: session_failure_def athen_def abind_def athrow_def end_session_def aget_def Let_def set_auth_def on_browser_def)

lemma session_ends_run:
  assumes "session_ends outcome w v"
  shows "v = snd (end_session outcome w)"
proof -
  have same: "intercept_error err w = w" if "getAuthFailureCode err = Some outcome" for err
    using that by (simp add: intercept_error_def)
  have stop: "heartbeat_accept now data w = (Inl (Inr demoEndedError), w)"
    if "\<not> demo_goes_on (au_demo (aw_state w)) (metadataFromHeartbeat data (au_activeTenantId (aw_state w)))" for now data
    using that by (simp add: heartbeat_accept_def Let_def athrow_def)
  from assms show ?thesis
    unfolding session_ends_def
  proof (elim disjE exE conjE)
    fix now err x
    assume code: "getAuthFailureCode err = Some outcome" and run: "refresh_reply now (Inl err) w = (x, v)"
    then show ?thesis
      by (auto simp: refresh_reply_def acatch_def auth_run_reply same [OF code] dest: session_failure_run)
  next
    fix now err x
    assume code: "getAuthFailureCode err = Some outcome" and run: "heartbeat_reply now (Inl err) w = (x, v)"
    then show ?thesis
      by (auto simp: heartbeat_reply_def acatch_def auth_run_reply same [OF code] dest: session_failure_run)
  next
    fix now data x
    assume "outcome = DemoEnded" and run: "heartbeat_reply now (Inr data) w = (x, v)"
      and "\<not> demo_goes_on (au_demo (aw_state w)) (metadataFromHeartbeat data (au_activeTenantId (aw_state w)))"
    then show ?thesis
      by (auto simp: heartbeat_reply_def acatch_def auth_run_reply stop dest: session_failure_run)
  qed
qed

text \<open>The workspace that goes with it.\<close>

definition ended_workspace :: "AuthFailureCode \<Rightarrow> AuthState \<Rightarrow> string set" where
  "ended_workspace outcome s = (if outcome = DemoEnded then
     (case au_demo s of Some d \<Rightarrow> if md_tenantId d = [] then {} else {workspaceKey (md_tenantId d)} | None \<Rightarrow> {}) else {})"

lemma clear_workspace_browser:
  assumes "browser_with m b"
  shows "browser_with (m(workspaceKey tid := None)) (store_back b (snd (clearDemoWorkspace tid (defaultStorage b))))"
proof -
  obtain s where s: "b = Inr (Some s)" "working s" "map_of (items s) = m" using assms by (auto simp: browser_with_def)
  then have "store_back b (snd (clearDemoWorkspace tid (defaultStorage b))) = drop_key (workspaceKey tid) b"
    by (simp add: store_back_def defaultStorage_def getBrowserStorage_def clearDemoWorkspace_def working_calls working_browser)
  with browser_with_drop [OF assms] show ?thesis by simp
qed

lemma end_session_browser:
  assumes "browser_with m (aw_browser w)" and "v = snd (end_session outcome w)"
  shows "aw_state v = anonymousState (Lifecycle outcome) (aw_state w)"
    and "browser_with (\<lambda>k. if k \<in> set session_keys \<or> k \<in> ended_workspace outcome (aw_state w) then None else m k) (aw_browser v)"
proof -
  show "aw_state v = anonymousState (Lifecycle outcome) (aw_state w)"
    using assms(2) by (simp add: end_session_def Let_def set_auth_def)
  define b where "b = (if outcome = DemoEnded \<and> \<not> falsy (map_option md_tenantId (au_demo (aw_state w)))
    then store_back (aw_browser w) (snd (clearDemoWorkspace (the (map_option md_tenantId (au_demo (aw_state w)))) (defaultStorage (aw_browser w))))
    else aw_browser w)"
  define n where "n = (\<lambda>k. if k \<in> ended_workspace outcome (aw_state w) then None else m k)"
  have b: "browser_with n b"
  proof (cases "outcome = DemoEnded \<and> \<not> falsy (map_option md_tenantId (au_demo (aw_state w)))")
    case True
    then obtain d where d: "au_demo (aw_state w) = Some d" "md_tenantId d \<noteq> []" "outcome = DemoEnded"
      by (auto simp: not_falsy_iff)
    then have "n = m(workspaceKey (md_tenantId d) := None)" by (auto simp: n_def ended_workspace_def)
    with clear_workspace_browser [OF assms(1)] d show ?thesis by (simp add: b_def)
  next
    case False
    then have "n = m" by (auto simp: n_def ended_workspace_def split: option.splits)
    with assms(1) False show ?thesis by (auto simp: b_def)
  qed
  have "aw_browser v = clearTokenData b"
    using assms(2) by (simp add: end_session_def Let_def set_auth_def b_def if_distrib)
  moreover have "(\<lambda>k. if k \<in> set session_keys \<or> k \<in> ended_workspace outcome (aw_state w) then None else m k) =
      n(''token'' := None, ''refreshToken'' := None, ''user'' := None, ''activeTenantId'' := None, ''tenantPlan'' := None, ''demoMetadata'' := None)"
    by (auto simp: n_def session_keys_def fun_eq_iff)
  ultimately show "browser_with (\<lambda>k. if k \<in> set session_keys \<or> k \<in> ended_workspace outcome (aw_state w) then None else m k) (aw_browser v)"
    using clearTokenData_browser [OF b] by simp
qed

section \<open>Samples for the witnesses\<close>

definition sample_browser :: Browser where
  "sample_browser = Inr (Some \<lparr> items = [(''token'', ''t''), (''demoMetadata'', JSON_stringify (metadata_js sample_metadata)),
     (''trackpal:demo-workspace:t1'', ''x''), (''theme'', ''dark'')], faults = [], enumerable = True, absent = False \<rparr>)"

definition sample_auth :: AuthState where
  "sample_auth = \<lparr> au_token = Some ''t'', au_refreshToken = Some ''r'', au_user = JNull, au_activeTenantId = Some ''t1'',
     au_tenantPlan = Some Pro, au_demo = Some sample_metadata, au_dataSource = production_source, au_authOutcome = Authenticated,
     au_planDowngraded = False, au_isMasterSupportContext = False, au_isAuthenticated = True, au_role = JNull, au_username = JStr [] \<rparr>"

definition sample_auth_world :: AuthWorld where
  "sample_auth_world = \<lparr> aw_state = sample_auth, aw_browser = sample_browser, aw_settings = initial_settings,
     aw_catalog = initial_catalog, aw_location = None \<rparr>"

definition sample_token :: TokenResponse where
  "sample_token = \<lparr> tr_access_token = ''a'', tr_refresh_token = ''r'', tr_token_type = ''bearer'',
     tr_user = \<lparr>u_id = ''1'', u_role = ''tenant'', u_username = ''ana''\<rparr>, tr_active_tenant_id = Some ''t1'',
     tr_tenant_plan = Some Pro, tr_is_demo = True, tr_demo_tenant_id = Some ''t1'', tr_demo_name = Some ''Acme'',
     tr_demo_status = Some Active, tr_demo_activated_at = None, tr_demo_expires_at = None,
     tr_demo_credentials_version = Some (JNum 1), tr_demo_locale = Some ''es'', tr_server_time = ''2026-01-10T00:00:00.000Z'' \<rparr>"

lemma sample_browser_items: "\<exists>m. browser_with m sample_browser \<and> m ''theme'' = Some ''dark''"
  by (simp add: browser_with_def sample_browser_def working_def)

section \<open>Properties\<close>

text \<open>
  C39. The data source always belongs to the session. Start from whatever a reload finds and let replies of logins,
  refreshes, heartbeats, logouts and tenant changes, plan changes and failed requests arrive in any order,
  with any content and any storage failures: the data source is made for exactly the tenant, the plan and the demo of the
  state, it is a demo source with a workspace exactly when the session is a demo, an authenticated session has a
  token, and only a master with a tenant is in support.
\<close>

theorem data_source_of_session:
  assumes "createAuthStore now b = (Inr s, b')" and "aw_state w = s" and "auth_step\<^sup>*\<^sup>* w v" and "t = aw_state v"
  shows "ad_context (au_dataSource t) = \<lparr>dc_tenantId = au_activeTenantId t, dc_tenantPlan = au_tenantPlan t, dc_demo = au_demo t\<rparr> \<and>
    (ad_mode (au_dataSource t) = Demo \<longleftrightarrow> au_demo t \<noteq> None) \<and>
    (ad_workspace (au_dataSource t) = None \<longleftrightarrow> au_demo t = None) \<and>
    (au_isAuthenticated t \<longrightarrow> au_token t \<noteq> None) \<and>
    au_isMasterSupportContext t = is_master (au_user t) (au_activeTenantId t)"
proof -
  have "auth_inv (aw_state v)"
    using session_run.inv_run [OF assms(3)] auth_inv_created [OF assms(1)] assms(2) by simp
  then show ?thesis unfolding assms(4) auth_inv_def .
qed

theorem data_source_of_session_witness:
  "\<exists>s w v. createAuthStore 0 (Inr None) = (Inr s, Inr None) \<and> aw_state w = s \<and> auth_step w v \<and>
     au_demo (aw_state v) = None \<and> ad_workspace (au_dataSource (aw_state v)) = None"
proof -
  have "JSON_parse ''null'' = Some JNull" by code_simp
  then obtain s where s: "createAuthStore 0 (Inr None) = (Inr s, Inr None)"
    by (simp add: createAuthStore_def loadFromStorage_def readBrowserStorage_def getBrowserStorage_def createDataSource_def)
  let ?w = "\<lparr> aw_state = s, aw_browser = Inr None, aw_settings = initial_settings, aw_catalog = initial_catalog, aw_location = None \<rparr>"
  obtain z v where run: "logout_reply (Inr ()) ?w = (z, v)" by fastforce
  then have step: "auth_step ?w v" by (rule auth_step.logout)
  from run have "au_demo (aw_state v) = None" by (auto simp: logout_run anonymousState_def)
  moreover have "ad_workspace (au_dataSource (aw_state v)) = None \<longleftrightarrow> au_demo (aw_state v) = None"
    using data_source_of_session [OF s _ r_into_rtranclp [where r = auth_step, OF step] refl] by simp
  ultimately show ?thesis using s step by (intro exI [of _ s] exI [of _ ?w] exI [of _ v]) simp
qed

text \<open>
  C40. A saved session survives a reload. On a storage that works, whatever it held before, what is read back after
  saving the reply of a login, refresh or change of tenant is exactly that session: tokens, user, tenant, plan and, for a
  demo, its metadata; nothing of an earlier session is left in it, and reading changes nothing.
\<close>

theorem saved_session_reloads:
  assumes "browser_with m b" and "tr_access_token data \<noteq> []" and "tr_active_tenant_id data \<noteq> Some []" and "session_number data"
  shows "loadFromStorage (saveTokenData data b) = (\<lparr>
      sv_token = Some (tr_access_token data), sv_refreshToken = Some (tr_refresh_token data), sv_user = user_js (tr_user data),
      sv_activeTenantId = tr_active_tenant_id data, sv_tenantPlan = tr_tenant_plan data, sv_demo = metadataFromToken data\<rparr>,
    saveTokenData data b)"
proof -
  note saved = saveTokenData_browser [OF assms(1), of data]
  have user: "JSON_parse (JSON_stringify (user_js (tr_user data))) = Some (user_js (tr_user data))"
    by (rule JSON_parse_stringify) (rule user_wf)
  have tenant: "(if falsy (tr_active_tenant_id data) then None else tr_active_tenant_id data) = tr_active_tenant_id data"
    using assms(3) by (cases "tr_active_tenant_id data") auto
  have "loadDemoMetadata (saveTokenData data b) = (metadataFromToken data, saveTokenData data b)"
    by (rule loadDemoMetadata_saved [OF saved _ assms(4)]) simp
  then show ?thesis
    using assms(2) by (simp add: loadFromStorage_def browser_with_read [OF saved] JSON_stringify_nonempty user tenant)
qed

theorem saved_session_reloads_witness:
  "loadFromStorage (saveTokenData sample_token sample_browser) = (\<lparr>
      sv_token = Some ''a'', sv_refreshToken = Some ''r'',
      sv_user = JObj [(''id'', JStr ''1''), (''role'', JStr ''tenant''), (''username'', JStr ''ana'')],
      sv_activeTenantId = Some ''t1'', sv_tenantPlan = Some Pro, sv_demo = Some \<lparr>md_tenantId = ''t1'', md_name = ''Acme'', md_plan = Pro,
        md_status = Active, md_activatedAt = None, md_expiresAt = None, md_credentialVersion = JNum 1, md_locale = Some ''es'',
        md_serverTime = ''2026-01-10T00:00:00.000Z''\<rparr>\<rparr>, saveTokenData sample_token sample_browser)"
proof -
  obtain m where "browser_with m sample_browser" using sample_browser_items by blast
  from saved_session_reloads [OF this, of sample_token] show ?thesis
    by (simp add: sample_token_def session_number_def is_number_def metadataFromToken_def locale_of_def user_js_def)
qed

text \<open>
  C10. The end of a demo session leaves nothing behind. When the server reports the end of the demo or replaced
  credentials to a refresh or a heartbeat, or its heartbeat no longer shows the active demo of the session, then on a storage that works
  every key of the session is gone, with the workspace when the demo has ended; every other key is untouched, the state is
  anonymous with a production data source, and a reload finds no session.
\<close>

theorem session_end_clean:
  assumes "browser_with m (aw_browser w)" and "session_ends outcome w v"
  shows "aw_state v = anonymousState (Lifecycle outcome) (aw_state w) \<and>
    browser_with (\<lambda>k. if k \<in> set session_keys \<or> k \<in> ended_workspace outcome (aw_state w) then None else m k) (aw_browser v) \<and>
    loadFromStorage (aw_browser v) = (\<lparr>sv_token = None, sv_refreshToken = None, sv_user = JNull, sv_activeTenantId = None,
      sv_tenantPlan = None, sv_demo = None\<rparr>, aw_browser v)"
proof -
  note ended = end_session_browser [OF assms(1) session_ends_run [OF assms(2)]]
  have "loadFromStorage (aw_browser v) = (\<lparr>sv_token = None, sv_refreshToken = None, sv_user = JNull, sv_activeTenantId = None,
      sv_tenantPlan = None, sv_demo = None\<rparr>, aw_browser v)"
    by (rule load_without_session [OF ended(2)]) simp
  with ended show ?thesis by blast
qed

theorem session_end_clean_witness:
  "\<exists>v. session_ends DemoEnded sample_auth_world v \<and> au_token (aw_state v) = None \<and>
     fst (readBrowserStorage ''trackpal:demo-workspace:t1'' (aw_browser v)) = None \<and>
     fst (readBrowserStorage ''theme'' (aw_browser v)) = Some ''dark''"
proof -
  obtain m where m: "browser_with m (aw_browser sample_auth_world)" "m ''theme'' = Some ''dark''"
    using sample_browser_items by (auto simp: sample_auth_world_def)
  obtain x v where "refresh_reply 0 (Inl demoEndedError) sample_auth_world = (x, v)" by fastforce
  then have ends: "session_ends DemoEnded sample_auth_world v" unfolding session_ends_def using demoEndedError_code by blast
  have gone: "''trackpal:demo-workspace:t1'' \<in> ended_workspace DemoEnded (aw_state sample_auth_world)"
    "''theme'' \<notin> ended_workspace DemoEnded (aw_state sample_auth_world)"
    by (simp_all add: ended_workspace_def sample_auth_world_def sample_auth_def sample_metadata_def workspaceKey_def DEMO_WORKSPACE_KEY_PREFIX_def)
  from session_end_clean [OF m(1) ends] m(2) gone ends show ?thesis
    by (intro exI [of _ v]) (auto simp: browser_with_read anonymousState_def session_keys_def)
qed

text \<open>A finding: a heartbeat answered after the logout brings the demo back without a token.\<close>

definition sample_heartbeat :: DemoHeartbeatResponse where
  "sample_heartbeat = \<lparr> hb_is_demo = True, hb_demo_tenant_id = Some ''t1'', hb_demo_name = Some ''Acme'',
     hb_tenant_plan = Some Pro, hb_demo_status = Some Active, hb_demo_activated_at = Some ''2026-01-01T00:00:00.000Z'',
     hb_demo_expires_at = Some ''2026-02-01T00:00:00.000Z'', hb_demo_credentials_version = Some (JNum 1), hb_demo_locale = None,
     hb_server_time = ''2026-01-10T00:00:00.000Z'' \<rparr>"

lemma late_heartbeat_revives:
  "let w = snd (logout_reply (Inr ()) (sample_auth_world\<lparr>aw_browser := Inr None\<rparr>));
       v = snd (heartbeat_reply 0 (Inr sample_heartbeat) w)
   in au_token (aw_state v) = None \<and> au_authOutcome (aw_state v) = Authenticated \<and> au_demo (aw_state v) \<noteq> None"
  by code_simp

end
