(* ===== verification/PhoneDemo.thy ===== *)
theory PhoneDemo
  imports TenantAdminConsole SubscriptionConsole ClientExperience ProSimulator AuthStore
begin

text \<open>
  The simulator of the demo as a whole (\<open>features/demo/components/demo-whatsapp-simulator.tsx\<close>): the phone of a Pro demo, whose menu opens the
  consoles of the other theories over one workspace, the phone that requests codes, the one of a Starter demo, and who gets to see them.
  The main results: the consoles open exactly where the menu says, and whatever is typed into the phone and its consoles, the
  workspace stays in order.
\<close>

section \<open>Texts and menus\<close>

definition createSimulatorCopy :: "console_env \<Rightarrow> SimulatorCopy" where
  "createSimulatorCopy ce = (code_copy ce ''welcome'')\<lparr>sim_cancelled := None, sim_back := None, sim_invalidNavigation := None\<rparr>"

definition createProSimulatorCopy :: "console_env \<Rightarrow> ProSimulatorCopy" where
  "createProSimulatorCopy ce = \<lparr>
     pro_welcome = sim ce ''welcome'' [],
     pro_requestMode = sim ce ''mode_request'' [],
     pro_operationMode = sim ce ''mode_operation'' [],
     pro_rolePrompt = sim ce ''role_prompt'' [],
     pro_tenantAdminRole = sim ce ''role_tenant_admin'' [],
     pro_clientRole = sim ce ''role_client'' [],
     pro_tenantAdminMenu = (\<lambda>page total. sim ce ''tenant_menu'' [(''page'', nat_to_string page), (''total'', nat_to_string total)]),
     pro_clientMenu = (\<lambda>page total. sim ce ''client_menu'' [(''page'', nat_to_string page), (''total'', nat_to_string total)]),
     pro_unavailable = sim ce ''operation_unavailable'' [],
     pro_invalid = sim ce ''invalid_navigation'' [],
     pro_noNextPage = sim ce ''no_next_page'' [],
     pro_cancelled = sim ce ''cancelled'' [],
     pro_cancel = sim ce ''cancel'' [],
     pro_back = sim ce ''back'' [],
     pro_next = sim ce ''next'' [] \<rparr>"

definition menu_entry :: "console_env \<Rightarrow> string \<times> string \<Rightarrow> ProSimulatorMenuItem" where
  "menu_entry ce e = \<lparr>pro_item_id = fst e, pro_item_label = sim ce (snd e) []\<rparr>"

definition tenant_menu_items :: "console_env \<Rightarrow> ProSimulatorMenuItem list" where
  "tenant_menu_items ce = map (menu_entry ce) [(''clients'', ''menu_clients''), (''catalog'', ''menu_catalog''), (''profile'', ''menu_profile''),
     (''subscriptions'', ''menu_subscriptions''), (''access-control'', ''menu_access_control''), (''help'', ''menu_help''),
     (''access-code'', ''menu_access_code'')]"

definition client_menu_items :: "console_env \<Rightarrow> ProSimulatorMenuItem list" where
  "client_menu_items ce = map (menu_entry ce) [(''profile'', ''menu_view_profile''), (''subscriptions'', ''menu_active_subscriptions''),
     (''access-code'', ''menu_access_code'')]"

section \<open>The phone and its consoles\<close>

datatype open_console =
    No_Console
  | Client_Open cx_world
  | Admin_Open ta_section ta_world
  | Subscriptions_Open sc_world
  | Profile_Open profile_world
  | Access_Open access_world
  | Help_Open
  | Code_Open lookup_world

record demo_summary =
  sm_clients :: nat
  sm_services :: nat
  sm_subscriptions :: nat
  sm_codeServices :: nat

text \<open>
  \<open>ph_open\<close> is both \<open>clientConsole\<close> and \<open>tenantAdminConsole\<close>, with the state of the component on the screen. The workspace and the
  operations asked are the phone's; a console gets them for a step and gives them back.
\<close>

record phone_state =
  ph_pro :: ProSimulatorState
  ph_open :: open_console
  ph_summary :: demo_summary
  ph_summaryError :: bool

type_synonym phone_world = "phone_state console_world"

definition fresh_pro :: "console_env \<Rightarrow> ProSimulatorState" where
  "fresh_pro ce = transitionProSimulator (createProSimulatorState (tenant_menu_items ce) (client_menu_items ce) (createProSimulatorCopy ce) 7)
     (ProSelectMode ProOperation) (createProSimulatorCopy ce)"

definition fresh_phone :: "console_env \<Rightarrow> phone_state" where
  "fresh_phone ce = \<lparr> ph_pro = fresh_pro ce, ph_open = No_Console,
     ph_summary = \<lparr>sm_clients = 0, sm_services = 0, sm_subscriptions = 0, sm_codeServices = 0\<rparr>, ph_summaryError = False \<rparr>"

definition phone_world_of :: "console_env \<Rightarrow> DemoWorkspaceRepository \<Rightarrow> phone_world" where
  "phone_world_of ce r = \<lparr> cw_console = fresh_phone ce, cw_messages = [], cw_busy = False, cw_loading = False, cw_loadError = False,
     cw_repo = r, cw_calls = [], cw_ops = [] \<rparr>"

definition pro_message :: "console_env \<Rightarrow> string \<Rightarrow> phone_state \<Rightarrow> phone_state" where
  "pro_message ce txt s = s\<lparr>ph_pro := transitionProSimulator (ph_pro s) (ProMessage txt) (createProSimulatorCopy ce)\<rparr>"

text \<open>The effect that counts what is in the workspace.\<close>

definition phone_summary :: "console_env \<Rightarrow> phone_world \<Rightarrow> phone_world" where
  "phone_summary ce w0 =
    (case ask_clients ce w0 of (rc, w1) \<Rightarrow> (case ask_services ce w1 of (rv, w2) \<Rightarrow> (case ask_subscriptions ce w2 of (ru, w3) \<Rightarrow>
     (case ask_codeServices ce w3 of (rk, w4) \<Rightarrow>
       (case ebind rc (\<lambda>cs. ebind rv (\<lambda>vs. ebind ru (\<lambda>us. ebind rk (\<lambda>(k, codes).
            Inr \<lparr>sm_clients = length cs, sm_services = length vs, sm_subscriptions = length us,
              sm_codeServices = length (filter tc_is_selected codes)\<rparr>)))) of
          Inl e \<Rightarrow> setc (\<lambda>s. s\<lparr>ph_summaryError := True\<rparr>) w4
        | Inr sm \<Rightarrow> setc (\<lambda>s. s\<lparr>ph_summary := sm, ph_summaryError := False\<rparr>) w4)))))"

text \<open>A step of the console on the screen.\<close>

definition visit :: "('c console_world \<Rightarrow> 'c console_world) \<Rightarrow> ('c console_world \<Rightarrow> open_console) \<Rightarrow> 'c console_world \<Rightarrow> phone_world \<Rightarrow> console_call list \<times> phone_world" where
  "visit f wrap c w = (let v = f (c\<lparr>cw_repo := cw_repo w, cw_ops := cw_ops w, cw_calls := []\<rparr>) in
     (cw_calls v, (setc (\<lambda>s. s\<lparr>ph_open := wrap v\<rparr>) w)\<lparr>cw_repo := cw_repo v, cw_ops := cw_ops v\<rparr>))"

text \<open>What the phone does on a callback: the client's console tells the machine of going back too.\<close>

definition hear :: "console_env \<Rightarrow> bool \<Rightarrow> console_call \<Rightarrow> phone_world \<Rightarrow> phone_world" where
  "hear ce from_client call w = (case call of
     OnBack \<Rightarrow> setc (\<lambda>s. (if from_client then pro_message ce ''9'' else id) (s\<lparr>ph_open := No_Console\<rparr>)) w
   | OnCancel \<Rightarrow> setc (\<lambda>s. pro_message ce ''0'' (s\<lparr>ph_open := No_Console\<rparr>)) w
   | OnChanged \<Rightarrow> phone_summary ce w
   | _ \<Rightarrow> w)"

fun hear_all :: "console_env \<Rightarrow> bool \<Rightarrow> console_call list \<times> phone_world \<Rightarrow> phone_world" where
  "hear_all ce from_client ([], w) = w"
| "hear_all ce from_client (c # cs, w) = hear_all ce from_client (cs, hear ce from_client c w)"

text \<open>The effect of mounting a console: it loads.\<close>

definition open_client :: "console_env \<Rightarrow> phone_world \<Rightarrow> phone_world" where
  "open_client ce w = hear_all ce True (visit (cx_load ce) Client_Open (cx_world_of ce (cw_repo w)) w)"

definition open_section :: "console_env \<Rightarrow> string \<Rightarrow> phone_world \<Rightarrow> phone_world" where
  "open_section ce k w = (
     if k = ''clients'' then hear_all ce False (visit (ta_load ce ClientsSection) (Admin_Open ClientsSection) (ta_world_of (cw_repo w)) w)
     else if k = ''catalog'' then hear_all ce False (visit (ta_load ce CatalogSection) (Admin_Open CatalogSection) (ta_world_of (cw_repo w)) w)
     else if k = ''subscriptions'' then hear_all ce False (visit (sc_load ce) Subscriptions_Open (sc_world_of (cw_repo w)) w)
     else if k = ''profile'' then hear_all ce False (visit (profile_load ce) Profile_Open (profile_world_of (cw_repo w)) w)
     else if k = ''access-control'' then hear_all ce False (visit (access_load ce) Access_Open (access_world_of (cw_repo w)) w)
     else if k = ''help'' then setc (\<lambda>s. s\<lparr>ph_open := Help_Open\<rparr>) w
     else if k = ''access-code'' then hear_all ce False (visit (lookup_load ce) Code_Open (lookup_world_of ce (cw_repo w)) w)
     else w)"

definition consoleByMenuItem :: "string \<Rightarrow> string option" where
  "consoleByMenuItem k = (if k \<in> {''clients'', ''catalog'', ''subscriptions'', ''profile'', ''access-control'', ''help'', ''access-code''}
     then Some k else None)"

definition selectedItem :: "ProSimulatorState \<Rightarrow> string \<Rightarrow> ProSimulatorMenuItem option" where
  "selectedItem p txt = (case parseInt txt of None \<Rightarrow> None
   | Some n \<Rightarrow> if n > 0 then js_at (pro_tenantAdminItems p) (pro_page p * pro_tenantAdminPageSize p + nat n - 1) else None)"

definition phone_submit :: "console_env \<Rightarrow> string \<Rightarrow> phone_world \<Rightarrow> phone_world" where
  "phone_submit ce typed w = (let txt = trim typed; p = ph_pro (cw_console w) in
     if txt = [] then w
     else if pro_screen p = ProRoleScreen \<and> txt = ''2'' then open_client ce (setc (pro_message ce txt) w)
     else if pro_screen p = ProMenuScreen \<and> pro_role p = Some ProTenantAdmin then
       (case Option.bind (selectedItem p txt) (\<lambda>i. consoleByMenuItem (pro_item_id i)) of
          Some k \<Rightarrow> open_section ce k (setc (pro_message ce txt) w)
        | None \<Rightarrow> setc (pro_message ce txt) w)
     else setc (pro_message ce txt) w)"

text \<open>What is on the screen takes the input.\<close>

definition phone_input :: "console_env \<Rightarrow> string \<Rightarrow> phone_world \<Rightarrow> phone_world" where
  "phone_input ce typed w = (case ph_open (cw_console w) of
     No_Console \<Rightarrow> phone_submit ce typed w
   | Client_Open c \<Rightarrow> hear_all ce True (visit (cx_input ce typed) Client_Open c w)
   | Admin_Open sec c \<Rightarrow> hear_all ce False (visit (ta_submit ce sec typed) (Admin_Open sec) c w)
   | Subscriptions_Open c \<Rightarrow> hear_all ce False (visit (sc_submit ce typed) Subscriptions_Open c w)
   | Profile_Open c \<Rightarrow> hear_all ce False (visit (profile_submit ce typed) Profile_Open c w)
   | Access_Open c \<Rightarrow> hear_all ce False (visit (access_submit ce typed) Access_Open c w)
   | Help_Open \<Rightarrow> hear_all ce False (help_submit typed, w)
   | Code_Open c \<Rightarrow> hear_all ce False (visit (lookup_submit ce typed) Code_Open c w))"

text \<open>The timers of the requests for a code.\<close>

definition phone_tick :: "console_env \<Rightarrow> phone_world \<Rightarrow> phone_world" where
  "phone_tick ce w = (case ph_open (cw_console w) of
     Client_Open c \<Rightarrow> hear_all ce True (visit (cx_tick ce) Client_Open c w)
   | Code_Open c \<Rightarrow> hear_all ce False (visit (lookup_timer ce) Code_Open c w)
   | _ \<Rightarrow> w)"

text \<open>A new data source: the effects that depend on it run again.\<close>

definition phone_reload :: "console_env \<Rightarrow> phone_world \<Rightarrow> phone_world" where
  "phone_reload ce w0 = (let w = phone_summary ce w0 in
     case ph_open (cw_console w) of
       No_Console \<Rightarrow> w
     | Client_Open c \<Rightarrow> hear_all ce True (visit (cx_load ce) Client_Open c w)
     | Admin_Open sec c \<Rightarrow> hear_all ce False (visit (ta_load ce sec) (Admin_Open sec) c w)
     | Subscriptions_Open c \<Rightarrow>
         if sc_screen (cw_console c) = SC_Crashed then w else hear_all ce False (visit (sc_load ce) Subscriptions_Open c w)
     | Profile_Open c \<Rightarrow> hear_all ce False (visit (profile_load ce) Profile_Open c w)
     | Access_Open c \<Rightarrow> hear_all ce False (visit (access_load ce) Access_Open c w)
     | Help_Open \<Rightarrow> w
     | Code_Open c \<Rightarrow> hear_all ce False (visit (lookup_load ce) Code_Open c w))"

text \<open>The button of the phone, which is there while no console is open; and the one of the page, which mounts everything anew.\<close>

definition phone_reset :: "console_env \<Rightarrow> phone_world \<Rightarrow> phone_world" where
  "phone_reset ce w = (if ph_open (cw_console w) = No_Console then setc (\<lambda>s. s\<lparr>ph_pro := fresh_pro ce\<rparr>) w else w)"

definition page_reset :: "console_env \<Rightarrow> phone_world \<Rightarrow> phone_world" where
  "page_reset ce w = phone_summary ce (setc (\<lambda>s. fresh_phone ce) w)"

inductive phone_step :: "console_env \<Rightarrow> phone_world \<Rightarrow> phone_world \<Rightarrow> bool" for ce where
  phone_typed: "phone_step ce w (phone_input ce typed w)"
| phone_ticked: "phone_step ce w (phone_tick ce w)"
| phone_reloaded: "phone_step ce w (phone_reload ce w)"
| phone_restarted: "phone_step ce w (phone_reset ce w)"
| page_restarted: "phone_step ce w (page_reset ce w)"

section \<open>The request of a code, and who sees the simulator\<close>

text \<open>\<open>ProRequestExperience\<close>, and the phone of a Starter demo, which differs in nothing but the page around it.\<close>

record request_state =
  rq_sim :: SimulatorState
  rq_inputError :: "string option"

type_synonym request_world = "request_state console_world"

definition request_world_of :: "console_env \<Rightarrow> DemoWorkspaceRepository \<Rightarrow> request_world" where
  "request_world_of ce r = \<lparr> cw_console = \<lparr>rq_sim = createSimulatorState [] (createSimulatorCopy ce), rq_inputError = None\<rparr>,
     cw_messages = [], cw_busy = False, cw_loading = True, cw_loadError = False, cw_repo = r, cw_calls = [], cw_ops = [] \<rparr>"

definition request_load :: "console_env \<Rightarrow> request_world \<Rightarrow> request_world" where
  "request_load ce w0 = (let w = w0\<lparr>cw_loading := True, cw_loadError := False\<rparr> in
     (case ask_codeServices ce w of
        (Inr (k, ss), w') \<Rightarrow> (setc (\<lambda>s. s\<lparr>rq_sim := createSimulatorState (selected_services ss) (createSimulatorCopy ce)\<rparr>) w')\<lparr>cw_loading := False\<rparr>
      | (Inl _, w') \<Rightarrow> w'\<lparr>cw_loadError := True, cw_loading := False\<rparr>))"

definition request_submit :: "console_env \<Rightarrow> string \<Rightarrow> request_world \<Rightarrow> request_world" where
  "request_submit ce typed w = (let txt = trim typed; m = rq_sim (cw_console w) in
     if txt = [] \<or> sim_step m = SimProcessing \<or> cw_loading w \<or> cw_loadError w then w
     else setc (\<lambda>s. s\<lparr>rq_inputError := input_error ce (sim_services m) (sim_step m) txt,
       rq_sim := transitionSimulator m (SimMessage txt) (createSimulatorCopy ce)\<rparr>) w)"

definition request_timer :: "console_env \<Rightarrow> request_world \<Rightarrow> request_world" where
  "request_timer ce w = (let m = rq_sim (cw_console w) in
     if sim_step m = SimProcessing then setc (\<lambda>s. s\<lparr>rq_sim := transitionSimulator m SimProcessingComplete (createSimulatorCopy ce)\<rparr>) w else w)"

definition request_reset :: "console_env \<Rightarrow> request_world \<Rightarrow> request_world" where
  "request_reset ce w = setc (\<lambda>s. s\<lparr>rq_sim := createSimulatorState (sim_services (rq_sim s)) (createSimulatorCopy ce), rq_inputError := None\<rparr>) w"

text \<open>
  The page around the phone of a Pro demo: a change of the tab and the button of the page give both phones a new key, which mounts
  them anew (\<open>page_reset\<close>, and \<open>request_world_of\<close> with \<open>request_load\<close>).
\<close>

record simulator_view =
  view_mode :: ProSimulatorMode
  view_version :: nat

definition initial_view :: simulator_view where
  "initial_view = \<lparr>view_mode = ProRequest, view_version = 0\<rparr>"

definition handleModeChange :: "ProSimulatorMode \<Rightarrow> simulator_view \<Rightarrow> simulator_view" where
  "handleModeChange mode v = v\<lparr>view_mode := mode, view_version := view_version v + 1\<rparr>"

definition view_reset :: "simulator_view \<Rightarrow> simulator_view" where
  "view_reset v = v\<lparr>view_version := view_version v + 1\<rparr>"

datatype simulator_page = NotFoundPage | ProSimulatorView | StarterView

definition isDemoSimulator :: "AuthState \<Rightarrow> bool" where
  "isDemoSimulator a \<longleftrightarrow> au_isAuthenticated a \<and> au_role a = JStr ''tenant'' \<and> \<not> au_isMasterSupportContext a \<and>
     ad_mode (au_dataSource a) = Demo \<and>
     (case au_demo a of None \<Rightarrow> False | Some d \<Rightarrow> (md_plan d = Starter \<or> md_plan d = Pro) \<and> au_tenantPlan a = Some (md_plan d))"

definition DemoWhatsappSimulator :: "AuthState \<Rightarrow> simulator_page" where
  "DemoWhatsappSimulator a = (if \<not> isDemoSimulator a then NotFoundPage
     else if map_option md_plan (au_demo a) = Some Pro then ProSimulatorView else StarterView)"

section \<open>The machine behind the phone\<close>

definition menus :: "console_env \<Rightarrow> ProSimulatorState \<Rightarrow> bool" where
  "menus ce p \<longleftrightarrow> pro_tenantAdminItems p = tenant_menu_items ce \<and> pro_clientItems p = client_menu_items ce \<and> pro_tenantAdminPageSize p = 7 \<and>
     ProSimulator.pro_inv p"

definition on_client_menu_screen :: "ProSimulatorState \<Rightarrow> bool" where
  "on_client_menu_screen p \<longleftrightarrow> pro_screen p = ProMenuScreen \<and> pro_role p = Some ProClient"

definition on_tenant_menu_screen :: "ProSimulatorState \<Rightarrow> bool" where
  "on_tenant_menu_screen p \<longleftrightarrow> pro_screen p = ProMenuScreen \<and> pro_role p = Some ProTenantAdmin"

lemma menus_kept: "menus ce p \<Longrightarrow> menus ce (transitionProSimulator p (ProMessage txt) copy)"
proof -
  assume p: "menus ce p"
  have "ProSimulator.pro_inv (transitionProSimulator p (ProMessage txt) copy)" using p pro_inv_transition unfolding menus_def by blast
  moreover have "pro_tenantAdminItems (transitionProSimulator p (ProMessage txt) copy) = pro_tenantAdminItems p"
    "pro_clientItems (transitionProSimulator p (ProMessage txt) copy) = pro_clientItems p"
    "pro_tenantAdminPageSize (transitionProSimulator p (ProMessage txt) copy) = pro_tenantAdminPageSize p"
    by (cases "pro_screen p"; simp add: pro_step_defs Let_def split: option.split)+
  ultimately show ?thesis using p by (simp add: menus_def)
qed

lemma menus_page:
  assumes "menus ce p" and "pro_screen p = ProMenuScreen"
  shows "pro_page p = 0"
proof -
  have "totalPages p = 1" using assms(1)
    by (cases "pro_role p = Some ProClient") (simp_all add: totalPages_def page_count_def pageSize_def PAGE_SIZE_def menuItems_def menus_def
      tenant_menu_items_def client_menu_items_def)
  then show ?thesis using assms by (simp add: menus_def ProSimulator.pro_inv_def)
qed

lemma key_leaves_client:
  assumes "menus ce p" and "txt \<in> {''0'', ''9''}"
  shows "\<not> on_client_menu_screen (transitionProSimulator p (ProMessage txt) copy)"
proof -
  have "trim ''0'' = ''0''" "trim ''9'' = ''9''" by code_simp+
  then show ?thesis using assms menus_page [OF assms(1)]
    by (cases "pro_screen p") (auto simp: on_client_menu_screen_def pro_step_defs Let_def)
qed

lemma two_chooses_client:
  assumes "pro_screen p = ProRoleScreen"
  shows "on_client_menu_screen (transitionProSimulator p (ProMessage ''2'') copy)"
proof -
  have "trim ''2'' = ''2''" by code_simp
  then show ?thesis using assms by (simp add: on_client_menu_screen_def pro_step_defs Let_def)
qed

lemma other_not_client:
  assumes "\<not> on_client_menu_screen p" and "\<not> (pro_screen p = ProRoleScreen \<and> trim txt = ''2'')"
  shows "\<not> on_client_menu_screen (transitionProSimulator p (ProMessage txt) copy)"
  using assms by (cases "pro_screen p") (auto simp: on_client_menu_screen_def pro_step_defs Let_def split: option.split)

lemma selected_stays:
  assumes "menus ce p" and "on_tenant_menu_screen p" and "selectedItem p (trim txt) = Some i"
  shows "transitionProSimulator p (ProMessage txt) copy = pro_withBot (pro_appendMessage p User (trim txt)) (pro_unavailable copy)"
    and "on_tenant_menu_screen (transitionProSimulator p (ProMessage txt) copy)"
proof -
  have parse: "parseInt ''0'' = Some 0" "parseInt ''8'' = Some 8" "parseInt ''9'' = Some 9" by code_simp+
  have page: "pro_page p = 0" using menus_page [OF assms(1)] assms(2) by (simp add: on_tenant_menu_screen_def)
  have "trim txt \<notin> {''0'', ''8'', ''9''}"
    using assms(1,3) page by (auto simp: selectedItem_def parse menus_def tenant_menu_items_def js_at_def)
  moreover have menu: "menuItems p = pro_tenantAdminItems p" "pageSize p = pro_tenantAdminPageSize p"
    using assms(2) by (simp_all add: menuItems_def pageSize_def on_tenant_menu_screen_def)
  have "pro_selected p (trim txt) = selectedItem p (trim txt)" unfolding pro_selected_def selectedItem_def menu ..
  ultimately show "transitionProSimulator p (ProMessage txt) copy = pro_withBot (pro_appendMessage p User (trim txt)) (pro_unavailable copy)"
    using assms(2,3) by (simp add: on_tenant_menu_screen_def pro_onMenu_def Let_def)
  then show "on_tenant_menu_screen (transitionProSimulator p (ProMessage txt) copy)"
    using assms(2) by (simp add: on_tenant_menu_screen_def pro_withBot_def)
qed

lemma fresh_pro_ok: "menus ce (fresh_pro ce)" "\<not> on_client_menu_screen (fresh_pro ce)"
proof -
  have "ProSimulator.pro_inv (fresh_pro ce)" unfolding fresh_pro_def by (intro pro_inv_transition pro_inv_create)
  then show "menus ce (fresh_pro ce)" by (simp add: menus_def fresh_pro_def createProSimulatorState_def pro_step_defs)
  show "\<not> on_client_menu_screen (fresh_pro ce)"
    by (simp add: on_client_menu_screen_def fresh_pro_def createProSimulatorState_def pro_step_defs)
qed

section \<open>The phone and its consoles belong together\<close>

declare transitionProSimulator.simps [simp del]

text \<open>
  A console is open where the machine of the phone says so: the client's exactly on the client's menu, the others on the tenant's. Behind
  an open console its own invariant holds.
\<close>

definition console_fits :: "phone_state \<Rightarrow> bool" where
  "console_fits s \<longleftrightarrow> (case ph_open s of
     No_Console \<Rightarrow> \<not> on_client_menu_screen (ph_pro s)
   | Client_Open c \<Rightarrow> on_client_menu_screen (ph_pro s) \<and> cx_inv c
   | Admin_Open sec c \<Rightarrow> on_tenant_menu_screen (ph_pro s) \<and> ta_inv c
   | Subscriptions_Open c \<Rightarrow> on_tenant_menu_screen (ph_pro s) \<and> sc_inv c
   | _ \<Rightarrow> on_tenant_menu_screen (ph_pro s))"

definition phone_inv :: "console_env \<Rightarrow> phone_world \<Rightarrow> bool" where
  "phone_inv ce w \<longleftrightarrow> menus ce (ph_pro (cw_console w)) \<and> console_fits (cw_console w)"

definition hand :: "'c console_world \<Rightarrow> phone_world \<Rightarrow> 'c console_world" where
  "hand c w = c\<lparr>cw_repo := cw_repo w, cw_ops := cw_ops w, cw_calls := []\<rparr>"

lemma handed [simp]: "cw_console (hand c w) = cw_console c" "cw_messages (hand c w) = cw_messages c" "on_data J (hand c w) = on_data J w"
  by (simp_all add: hand_def on_data_def)

lemma handed_inv [simp]: "ta_inv (hand c w) = ta_inv c" "sc_inv (hand d w) = sc_inv d" "cx_inv (hand e w) = cx_inv e"
  by (simp_all add: ta_inv_def sc_inv_def cx_inv_def)

lemma visit_parts:
  "cw_console (snd (visit f wrap c w)) = (cw_console w)\<lparr>ph_open := wrap (f (hand c w))\<rparr>"
  "on_data J (snd (visit f wrap c w)) = on_data J (f (hand c w))"
  "fst (visit f wrap c w) = cw_calls (f (hand c w))"
  by (simp_all add: visit_def hand_def Let_def on_data_def)

lemma tenant_not_client: "on_tenant_menu_screen p \<Longrightarrow> \<not> on_client_menu_screen p"
  by (simp add: on_tenant_menu_screen_def on_client_menu_screen_def)

text \<open>The summary touches nothing but itself.\<close>

definition same_screen :: "phone_state \<Rightarrow> phone_state \<Rightarrow> bool" where
  "same_screen s t \<longleftrightarrow> ph_pro t = ph_pro s \<and> ph_open t = ph_open s"

lemma same_screen_fits: "same_screen s t \<Longrightarrow> console_fits t = console_fits s"
  by (cases "ph_open s") (simp_all add: same_screen_def console_fits_def)

lemma ask_console: "cw_console (snd (ask ce call run w)) = cw_console w"
  by (simp add: ask_def split: prod.split)

lemma summary_same: "same_screen (cw_console w) (cw_console (phone_summary ce w))"
proof -
  obtain rc w1 rv w2 ru w3 rk w4 where steps: "ask_clients ce w = (rc, w1)" "ask_services ce w1 = (rv, w2)"
    "ask_subscriptions ce w2 = (ru, w3)" "ask_codeServices ce w3 = (rk, w4)" by (metis surj_pair)
  have "cw_console w4 = cw_console w" using ask_console steps unfolding ask_defs by (metis snd_conv)
  then show ?thesis by (simp add: phone_summary_def steps same_screen_def split: sum.split)
qed

lemma summary_inv [simp]: "phone_inv ce (phone_summary ce w) = phone_inv ce w"
  "ph_pro (cw_console (phone_summary ce w)) = ph_pro (cw_console w)" "ph_open (cw_console (phone_summary ce w)) = ph_open (cw_console w)"
  using summary_same [of w ce] same_screen_fits [OF summary_same [of w ce]] by (simp_all add: same_screen_def phone_inv_def)

text \<open>What a console says is heard, and the phone still fits.\<close>

lemmas nine_leaves_client = key_leaves_client [of _ _ "''9''", simplified]
lemmas zero_leaves_client = key_leaves_client [of _ _ "''0''", simplified]

lemma hear_inv:
  assumes "phone_inv ce w" and "from_client \<or> \<not> on_client_menu_screen (ph_pro (cw_console w))"
  shows "phone_inv ce (hear ce from_client call w) \<and> (from_client \<or> \<not> on_client_menu_screen (ph_pro (cw_console (hear ce from_client call w))))"
proof -
  have m: "menus ce (ph_pro (cw_console w))" using assms(1) by (simp add: phone_inv_def)
  note left = nine_leaves_client [OF m] zero_leaves_client [OF m] menus_kept [OF m]
  show ?thesis
  proof (cases call)
    case OnBack
    then show ?thesis using assms left m by (cases from_client) (simp_all add: hear_def phone_inv_def pro_message_def console_fits_def)
  next
    case OnCancel
    then show ?thesis using left by (simp add: hear_def phone_inv_def pro_message_def console_fits_def)
  qed (use assms in \<open>simp_all add: hear_def\<close>)
qed

lemma hear_all_inv:
  "phone_inv ce w \<Longrightarrow> from_client \<or> \<not> on_client_menu_screen (ph_pro (cw_console w)) \<Longrightarrow> phone_inv ce (hear_all ce from_client (cs, w))"
proof (induction cs arbitrary: w)
  case (Cons c cs)
  then show ?case using hear_inv [OF Cons.prems] by simp
qed simp

lemma heard_visit:
  assumes "phone_inv ce w" and "console_fits ((cw_console w)\<lparr>ph_open := wrap (f (hand c w))\<rparr>)"
    and "from_client \<or> \<not> on_client_menu_screen (ph_pro (cw_console w))"
  shows "phone_inv ce (hear_all ce from_client (visit f wrap c w))"
proof -
  have "phone_inv ce (snd (visit f wrap c w))" using assms by (simp add: phone_inv_def visit_parts)
  from hear_all_inv [OF this, of from_client "fst (visit f wrap c w)"] assms(3) show ?thesis by (simp add: visit_parts(1))
qed

lemma open_client_inv:
  assumes "menus ce (ph_pro (cw_console w))" and "on_client_menu_screen (ph_pro (cw_console w))"
  shows "phone_inv ce (open_client ce w)"
proof -
  let ?v = "snd (visit (cx_load ce) Client_Open (cx_world_of ce (cw_repo w)) w)"
  have "phone_inv ce ?v"
    using assms by (simp add: phone_inv_def visit_parts console_fits_def cx_load_console cx_start_inv)
  from hear_all_inv [OF this, of True "fst (visit (cx_load ce) Client_Open (cx_world_of ce (cw_repo w)) w)"]
  show ?thesis by (simp add: open_client_def)
qed

lemma opened_inv:
  assumes "phone_inv ce w" and "on_tenant_menu_screen (ph_pro (cw_console w))"
    and "console_fits ((cw_console w)\<lparr>ph_open := wrap (f (hand c w))\<rparr>)"
  shows "phone_inv ce (hear_all ce False (visit f wrap c w))"
  by (rule heard_visit [OF assms(1), where f = f and wrap = wrap and c = c, OF assms(3)]) (simp add: tenant_not_client [OF assms(2)])

lemma open_section_inv:
  assumes "phone_inv ce w" and "on_tenant_menu_screen (ph_pro (cw_console w))"
  shows "phone_inv ce (open_section ce k w)"
proof -
  note opened = opened_inv [OF assms]
  have "phone_inv ce (hear_all ce False (visit (ta_load ce sec) (Admin_Open sec) (ta_world_of (cw_repo w)) w))" for sec
    by (rule opened) (simp add: console_fits_def assms(2) reload_inv ta_start_inv)
  moreover have "phone_inv ce (hear_all ce False (visit (sc_load ce) Subscriptions_Open (sc_world_of (cw_repo w)) w))"
    by (rule opened) (simp add: console_fits_def assms(2) sc_reload_inv sc_start_inv)
  moreover have "phone_inv ce (hear_all ce False (visit (profile_load ce) Profile_Open (profile_world_of (cw_repo w)) w))"
    "phone_inv ce (hear_all ce False (visit (access_load ce) Access_Open (access_world_of (cw_repo w)) w))"
    "phone_inv ce (hear_all ce False (visit (lookup_load ce) Code_Open (lookup_world_of ce (cw_repo w)) w))"
    by (rule opened, simp add: console_fits_def assms(2))+
  moreover have "phone_inv ce (setc (\<lambda>s. s\<lparr>ph_open := Help_Open\<rparr>) w)"
    using assms by (simp add: phone_inv_def console_fits_def)
  ultimately show ?thesis using assms(1) by (simp only: open_section_def if_split) simp
qed

lemma message_inv:
  assumes "phone_inv ce w" and "ph_open (cw_console w) = No_Console" and "\<not> (pro_screen (ph_pro (cw_console w)) = ProRoleScreen \<and> trim txt = ''2'')"
  shows "phone_inv ce (setc (pro_message ce txt) w)"
  using assms other_not_client by (simp add: phone_inv_def pro_message_def menus_kept console_fits_def)

lemma submit_phone_inv:
  assumes "phone_inv ce w" and "ph_open (cw_console w) = No_Console"
  shows "phone_inv ce (phone_submit ce typed w)"
proof -
  let ?p = "ph_pro (cw_console w)" and ?txt = "trim typed"
  have p: "menus ce ?p" using assms(1) by (simp add: phone_inv_def)
  have client: "phone_inv ce (open_client ce (setc (pro_message ce ''2'') w))" if "pro_screen ?p = ProRoleScreen"
    using that p by (intro open_client_inv) (simp_all add: pro_message_def menus_kept two_chooses_client)
  have section_open: "phone_inv ce (open_section ce k (setc (pro_message ce ?txt) w))"
    if "on_tenant_menu_screen ?p" "selectedItem ?p ?txt = Some i" for k i
  proof (rule open_section_inv)
    show "phone_inv ce (setc (pro_message ce ?txt) w)"
      using message_inv [OF assms, of ?txt] that(1) by (simp add: on_tenant_menu_screen_def)
    show "on_tenant_menu_screen (ph_pro (cw_console (setc (pro_message ce ?txt) w)))"
      using selected_stays(2) [OF p that(1), of ?txt] that(2) by (simp add: pro_message_def)
  qed
  have chosen: "\<exists>i. selectedItem ?p ?txt = Some i" if "Option.bind (selectedItem ?p ?txt) (\<lambda>i. consoleByMenuItem (pro_item_id i)) = Some k" for k
    using that by (cases "selectedItem ?p ?txt") simp_all
  show ?thesis
    using assms client section_open chosen message_inv [OF assms, of ?txt]
    by (auto simp: phone_submit_def Let_def on_tenant_menu_screen_def split: option.split)
qed

section \<open>Every step\<close>

lemma open_on_tenant:
  assumes "phone_inv ce w" and "\<And>c. ph_open (cw_console w) \<noteq> Client_Open c"
  shows "\<not> on_client_menu_screen (ph_pro (cw_console w))"
  using assms tenant_not_client unfolding phone_inv_def console_fits_def by (cases "ph_open (cw_console w)") auto

text \<open>A console that keeps its own invariant keeps that of the phone.\<close>

lemma client_visited:
  assumes "phone_inv ce w" and "ph_open (cw_console w) = Client_Open c" and "\<And>v. cx_inv v \<Longrightarrow> cx_inv (f v)"
  shows "phone_inv ce (hear_all ce True (visit f Client_Open c w))"
  by (rule heard_visit [where f = f and wrap = Client_Open and c = c, OF assms(1)])
    (use assms in \<open>simp_all add: phone_inv_def console_fits_def\<close>)

lemma admin_visited:
  assumes "phone_inv ce w" and "ph_open (cw_console w) = Admin_Open sec c" and "\<And>v. ta_inv v \<Longrightarrow> ta_inv (f v)"
  shows "phone_inv ce (hear_all ce False (visit f (Admin_Open sec) c w))"
  by (rule opened_inv [where f = f and wrap = "Admin_Open sec" and c = c, OF assms(1)])
    (use assms in \<open>simp_all add: phone_inv_def console_fits_def\<close>)

lemma subscriptions_visited:
  assumes "phone_inv ce w" and "ph_open (cw_console w) = Subscriptions_Open c" and "\<And>v. sc_inv v \<Longrightarrow> sc_inv (f v)"
  shows "phone_inv ce (hear_all ce False (visit f Subscriptions_Open c w))"
  by (rule opened_inv [where f = f and wrap = Subscriptions_Open and c = c, OF assms(1)])
    (use assms in \<open>simp_all add: phone_inv_def console_fits_def\<close>)

lemma profile_visited:
  assumes "phone_inv ce w" and "ph_open (cw_console w) = Profile_Open c"
  shows "phone_inv ce (hear_all ce False (visit f Profile_Open d w))"
  by (rule opened_inv [where f = f and wrap = Profile_Open and c = d, OF assms(1)])
    (use assms in \<open>simp_all add: phone_inv_def console_fits_def\<close>)

lemma access_visited:
  assumes "phone_inv ce w" and "ph_open (cw_console w) = Access_Open c"
  shows "phone_inv ce (hear_all ce False (visit f Access_Open d w))"
  by (rule opened_inv [where f = f and wrap = Access_Open and c = d, OF assms(1)])
    (use assms in \<open>simp_all add: phone_inv_def console_fits_def\<close>)

lemma code_visited:
  assumes "phone_inv ce w" and "ph_open (cw_console w) = Code_Open c"
  shows "phone_inv ce (hear_all ce False (visit f Code_Open d w))"
  by (rule opened_inv [where f = f and wrap = Code_Open and c = d, OF assms(1)])
    (use assms in \<open>simp_all add: phone_inv_def console_fits_def\<close>)

lemmas visited = client_visited admin_visited subscriptions_visited profile_visited access_visited code_visited

lemma phone_input_inv:
  assumes "phone_inv ce w"
  shows "phone_inv ce (phone_input ce typed w)"
proof (cases "ph_open (cw_console w)")
  case No_Console
  then show ?thesis using submit_phone_inv [OF assms] by (simp add: phone_input_def)
next
  case Help_Open
  then show ?thesis using hear_all_inv [OF assms, of False] open_on_tenant [OF assms] by (simp add: phone_input_def)
qed (simp_all add: phone_input_def visited [OF assms] cx.inv_step [OF cx_typed] submit_inv sc_submit_inv)

lemma phone_tick_inv:
  assumes "phone_inv ce w"
  shows "phone_inv ce (phone_tick ce w)"
  by (cases "ph_open (cw_console w)") (simp_all add: phone_tick_def assms visited [OF assms] cx.inv_step [OF cx_ticked])

lemma phone_reload_inv:
  assumes "phone_inv ce w"
  shows "phone_inv ce (phone_reload ce w)"
proof -
  let ?w = "phone_summary ce w"
  have "phone_inv ce ?w" using assms by simp
  note visited [OF this]
  then show ?thesis
    by (cases "ph_open (cw_console w)") (simp_all add: phone_reload_def Let_def assms cx_load_console reload_inv sc_reload_inv)
qed

lemma fresh_phone_inv: "cw_console w = fresh_phone ce \<Longrightarrow> phone_inv ce w"
  by (simp add: phone_inv_def fresh_phone_def console_fits_def fresh_pro_ok)

lemma phone_reset_inv: "phone_inv ce w \<Longrightarrow> phone_inv ce (phone_reset ce w)"
  by (simp add: phone_reset_def phone_inv_def console_fits_def fresh_pro_ok)

interpretation phone: invariant_run "phone_step ce" "phone_inv ce" for ce
  by unfold_locales (auto elim!: phone_step.cases intro: phone_input_inv phone_tick_inv phone_reload_inv phone_reset_inv
    simp: page_reset_def fresh_phone_inv)

section \<open>What reaches the workspace\<close>

lemma visit_asks:
  "(\<And>v. on_data J v \<Longrightarrow> on_data J (f v)) \<Longrightarrow> on_data J w \<Longrightarrow> on_data J (snd (visit f wrap c w))"
  by (simp add: visit_parts)

context data_closed begin

lemma summary_asks:
  assumes "\<And>call. allowed call" and "on_data J w"
  shows "on_data J (phone_summary ce w)"
proof -
  obtain rc w1 rv w2 ru w3 rk w4 where steps: "ask_clients ce w = (rc, w1)" "ask_services ce w1 = (rv, w2)"
    "ask_subscriptions ce w2 = (ru, w3)" "ask_codeServices ce w3 = (rk, w4)" by (metis surj_pair)
  have "act_keeps (on_data J) (ask_clients ce :: (phone_state, Client list) console_act)"
    "act_keeps (on_data J) (ask_services ce :: (phone_state, Service list) console_act)"
    "act_keeps (on_data J) (ask_subscriptions ce :: (phone_state, Subscription list) console_act)"
    "act_keeps (on_data J) (ask_codeServices ce :: (phone_state, string \<times> TenantCodeService list) console_act)"
    unfolding ask_defs by (simp_all add: assms(1) keeps_ask)
  then have "on_data J w4" using steps assms(2) unfolding act_keeps_def by (metis snd_conv)
  then show ?thesis by (simp add: phone_summary_def steps split: sum.split)
qed

lemma hear_all_asks:
  assumes "\<And>call. allowed call"
  shows "on_data J w \<Longrightarrow> on_data J (hear_all ce from_client (cs, w))"
proof (induction cs arbitrary: w)
  case (Cons c cs)
  then show ?case by (cases c) (simp_all add: hear_def summary_asks assms)
qed simp

lemma heard_asks:
  assumes "\<And>call. allowed call" and "\<And>v. on_data J v \<Longrightarrow> on_data J (f v)" and "on_data J w"
  shows "on_data J (hear_all ce from_client (visit f wrap c w))"
  using hear_all_asks [OF assms(1), of "snd (visit f wrap c w)" from_client "fst (visit f wrap c w)"] visit_asks [OF assms(2,3)] by simp

lemma lookup_load_asks:
  assumes "\<And>call. allowed call" and "on_data J w"
  shows "on_data J (lookup_load ce w)"
proof -
  have "act_keeps (on_data J) (ask_codeServices ce :: (lookup_state, string \<times> TenantCodeService list) console_act)"
    unfolding ask_codeServices_def by (simp add: assms(1) keeps_ask)
  moreover have "on_data J (w\<lparr>cw_loadError := False\<rparr>)" using assms(2) by (simp add: on_data_def)
  ultimately have "on_data J (snd (ask_codeServices ce (w\<lparr>cw_loadError := False\<rparr>)))" unfolding act_keeps_def by blast
  then show ?thesis
    by (cases "ask_codeServices ce (w\<lparr>cw_loadError := False\<rparr>)") (simp add: lookup_load_def on_data_def setc_def split: sum.split)
qed

lemma mounted_asks:
  assumes all: "\<And>call. allowed call" and "on_data J w"
  shows "on_data J (open_client ce w)" and "on_data J (open_section ce k w)"
proof -
  note loaded = heard_asks [where ?f = "ta_load ce sec" for sec, OF all ta_reload_asks [OF all]]
    heard_asks [where ?f = "sc_load ce", OF all sc_reload_asks [OF all]] heard_asks [where ?f = "profile_load ce", OF all profile_load_asks [OF _ all]]
    heard_asks [where ?f = "access_load ce", OF all access_load_asks [OF _ all]] heard_asks [where ?f = "lookup_load ce", OF all lookup_load_asks [OF all]]
  show "on_data J (open_client ce w)" unfolding open_client_def by (rule heard_asks [OF all cx_reload_asks [OF all] assms(2)])
  show "on_data J (open_section ce k w)" using assms(2) loaded by (simp add: open_section_def)
qed

lemma submitted_asks:
  assumes all: "\<And>call. allowed call" and "on_data J w"
  shows "on_data J (phone_submit ce typed w)"
  using assms(2) by (simp add: phone_submit_def Let_def mounted_asks all split: option.split)

lemma phone_input_asks:
  assumes all: "\<And>call. allowed call" and w: "on_data J w" and fits: "phone_inv ce w"
  shows "on_data J (phone_input ce typed w)"
proof -
  have typed_in: "on_data J (hear_all ce b (visit (cx_input ce typed) Client_Open c w))"
    "on_data J (hear_all ce b (visit (ta_submit ce sec typed) (Admin_Open sec) d w))"
    "on_data J (hear_all ce b (visit (profile_submit ce typed) Profile_Open e w))"
    "on_data J (hear_all ce b (visit (access_submit ce typed) Access_Open f w))"
    "on_data J (hear_all ce b (visit (lookup_submit ce typed) Code_Open g w))" for b c sec d e f g
    by (rule heard_asks; simp add: all w submit_asks profile_submit_asks access_submit_asks lookup_submit_def Let_def)+
  have "on_data J (hear_all ce b (visit (sc_submit ce typed) Subscriptions_Open c w))" if "ph_open (cw_console w) = Subscriptions_Open c" for b c
  proof -
    have "sc_inv (hand c w)" using fits that by (simp add: phone_inv_def console_fits_def)
    then have "on_data J (sc_submit ce typed (hand c w))" using w by (intro sc_submit_asks) (simp_all add: all sc_inv_edit)
    then have "on_data J (snd (visit (sc_submit ce typed) Subscriptions_Open c w))" by (simp add: visit_parts)
    from hear_all_asks [OF all this, of b "fst (visit (sc_submit ce typed) Subscriptions_Open c w)"] show ?thesis by simp
  qed
  then show ?thesis using typed_in w
    by (cases "ph_open (cw_console w)") (simp_all add: phone_input_def submitted_asks all hear_all_asks)
qed

lemma phone_tick_asks:
  assumes all: "\<And>call. allowed call" and w: "on_data J w"
  shows "on_data J (phone_tick ce w)"
proof -
  have "on_data J (hear_all ce b (visit (cx_tick ce) Client_Open c w))" "on_data J (hear_all ce b (visit (lookup_timer ce) Code_Open g w))" for b c g
    by (rule heard_asks; simp add: all w lookup_timer_def)+
  then show ?thesis using w by (cases "ph_open (cw_console w)") (simp_all add: phone_tick_def)
qed

lemma phone_reload_asks:
  assumes all: "\<And>call. allowed call" and w: "on_data J w"
  shows "on_data J (phone_reload ce w)"
proof -
  let ?w = "phone_summary ce w"
  have v: "on_data J ?w" using summary_asks [OF assms] .
  have "on_data J (hear_all ce b (visit (cx_load ce) Client_Open c ?w))"
    "on_data J (hear_all ce b (visit (ta_load ce sec) (Admin_Open sec) d ?w))"
    "on_data J (hear_all ce b (visit (sc_load ce) Subscriptions_Open h ?w))"
    "on_data J (hear_all ce b (visit (profile_load ce) Profile_Open e ?w))"
    "on_data J (hear_all ce b (visit (access_load ce) Access_Open f ?w))"
    "on_data J (hear_all ce b (visit (lookup_load ce) Code_Open g ?w))" for b c sec d e f g h
    by (rule heard_asks; simp add: all v cx_reload_asks ta_reload_asks sc_reload_asks profile_load_asks access_load_asks lookup_load_asks)+
  with v show ?thesis by (cases "ph_open (cw_console w)") (simp_all add: phone_reload_def Let_def)
qed

lemma phone_step_asks:
  assumes all: "\<And>call. allowed call" and "on_data J w" and "phone_inv ce w" and "phone_step ce w v"
  shows "on_data J v"
  using assms(4)
proof cases
  case page_restarted
  then show ?thesis using assms(2) by (simp add: page_reset_def summary_asks all)
qed (use assms(2,3) in \<open>simp_all add: phone_input_asks phone_tick_asks phone_reload_asks phone_reset_def all\<close>)

end

interpretation phone_workspace: invariant_run "phone_step ce"
    "\<lambda>w. phone_inv ce w \<and> on_data (\<lambda>r ops. list_all orderly ops \<longrightarrow> workspace_ok ce r) w" for ce
  by unfold_locales (blast intro: phone.inv_step workspace.phone_step_asks)

section \<open>The console of an entry\<close>

definition console_shown :: "open_console \<Rightarrow> string option" where
  "console_shown c = (case c of
     No_Console \<Rightarrow> None
   | Client_Open _ \<Rightarrow> None
   | Admin_Open ClientsSection _ \<Rightarrow> Some ''clients''
   | Admin_Open CatalogSection _ \<Rightarrow> Some ''catalog''
   | Subscriptions_Open _ \<Rightarrow> Some ''subscriptions''
   | Profile_Open _ \<Rightarrow> Some ''profile''
   | Access_Open _ \<Rightarrow> Some ''access-control''
   | Help_Open \<Rightarrow> Some ''help''
   | Code_Open _ \<Rightarrow> Some ''access-code'')"

text \<open>A load calls nothing back.\<close>

definition called :: "console_call list \<Rightarrow> 's console_world \<Rightarrow> bool" where
  "called cs w \<longleftrightarrow> cw_calls w = cs"

lemma ask_calls: "act_keeps (called cs) (ask ce call run)"
  by (simp add: act_keeps_def called_def ask_def split: prod.split)

lemma set_calls: "keeps (called cs) (setc f)"
  by (simp add: keeps_def called_def)

lemma lists_call:
  "act_keeps (called cs) (ta_loadWorkspace ce sec)" "act_keeps (called cs) (sc_loadWorkspace ce)"
proof -
  show "act_keeps (called cs) (ta_loadWorkspace ce sec)"
    unfolding ta_loadWorkspace_def ask_defs
    by (cases sec) (simp_all add: act_keeps_bind ask_calls act_keeps_all_of act_keeps_adone set_calls)
  show "act_keeps (called cs) (sc_loadWorkspace ce)"
    by (rule sc_load_act) (simp_all add: ask_defs ask_calls set_calls)
qed

lemma load_calls:
  "cw_calls (ta_load ce sec wa) = cw_calls wa" "cw_calls (sc_load ce ws) = cw_calls ws" "cw_calls (profile_load ce wp) = cw_calls wp"
  "cw_calls (access_load ce wb) = cw_calls wb" "cw_calls (lookup_load ce wl) = cw_calls wl"
proof -
  let ?wa = "wa\<lparr>cw_loading := True, cw_loadError := False\<rparr>" and ?ws = "ws\<lparr>cw_loading := True, cw_loadError := False\<rparr>"
  have "cw_calls (snd (ta_loadWorkspace ce sec ?wa)) = cw_calls wa" "cw_calls (snd (sc_loadWorkspace ce ?ws)) = cw_calls ws"
    using lists_call unfolding act_keeps_def called_def by fastforce+
  note calls = this
  show "cw_calls (ta_load ce sec wa) = cw_calls wa"
    using calls(1) by (cases "ta_loadWorkspace ce sec ?wa") (simp add: ta_load_def Let_def split: sum.split)
  show "cw_calls (sc_load ce ws) = cw_calls ws"
    using calls(2) by (cases "sc_loadWorkspace ce ?ws") (simp add: sc_load_def Let_def split: sum.split)
qed (simp_all add: profile_load_def access_load_def lookup_load_def ask_defs ask_def setc_def Let_def split: prod.split sum.split)

lemma visit_shows:
  assumes "cw_calls (f (hand c w)) = []"
  shows "ph_open (cw_console (hear_all ce b (visit f wrap c w))) = wrap (f (hand c w))"
proof -
  have "visit f wrap c w = ([], snd (visit f wrap c w))" using assms visit_parts(3) [of f wrap c w] by (metis surjective_pairing)
  then have "hear_all ce b (visit f wrap c w) = snd (visit f wrap c w)" by (metis hear_all.simps(1))
  then show ?thesis by (simp add: visit_parts)
qed

lemma hand_calls [simp]: "cw_calls (hand c w) = []"
  by (simp add: hand_def)

lemma section_shows:
  assumes "consoleByMenuItem k = Some k"
  shows "console_shown (ph_open (cw_console (open_section ce k w))) = Some k"
  using assms by (auto simp: consoleByMenuItem_def open_section_def visit_shows load_calls console_shown_def split: if_splits)

section \<open>Properties\<close>

text \<open>
  C6. The simulator as a whole keeps the workspace in order: whatever is typed into the phone and the consoles it opens, with timers, reloads
  and restarts in between, and as long as no plan was created, the workspace has the consistency the data services promise; and a console is on
  the screen only where the menu machine behind it says so, the client's on the client's menu and the others on the tenant's, in a state
  that satisfies its own invariant.
\<close>

theorem demo_stays_in_order:
  assumes "(phone_step ce)\<^sup>*\<^sup>* (phone_world_of ce r) w" and "workspace_ok ce r"
  shows "console_fits (cw_console w) \<and> (list_all orderly (cw_ops w) \<longrightarrow> workspace_ok ce (cw_repo w))"
proof -
  have "phone_inv ce (phone_world_of ce r)" by (simp add: fresh_phone_inv phone_world_of_def)
  moreover have "on_data (\<lambda>r ops. list_all orderly ops \<longrightarrow> workspace_ok ce r) (phone_world_of ce r)"
    using assms(2) by (simp add: on_data_def phone_world_of_def)
  ultimately show ?thesis using phone_workspace.inv_run [OF assms(1)] by (simp add: phone_inv_def on_data_def)
qed

lemma phone_runs:
  shows "(phone_step ce)\<^sup>*\<^sup>* (phone_world_of ce r) (phone_input ce ''2'' (phone_world_of ce r))"
    and "(phone_step ce)\<^sup>*\<^sup>* (phone_world_of ce r) (phone_input ce ''1'' (phone_world_of ce r))"
  by (rule r_into_rtranclp, rule phone_typed)+

theorem demo_stays_in_order_witness:
  "\<exists>r w. workspace_ok sample_env r \<and> (phone_step sample_env)\<^sup>*\<^sup>* (phone_world_of sample_env r) w \<and> console_fits (cw_console w) \<and>
     (list_all orderly (cw_ops w) \<longrightarrow> workspace_ok sample_env (cw_repo w))"
proof -
  obtain r where r: "workspace_ok sample_env r" using sample_serves by blast
  show ?thesis using demo_stays_in_order [OF phone_runs(1) r] r phone_runs(1) by blast
qed

text \<open>
  C25. The tenant's menu opens what it shows: after any conversation, with the tenant's menu on the screen and no console open, the number beside
  an entry opens the console of that entry.
\<close>

theorem menu_opens_what_it_shows:
  assumes "(phone_step ce)\<^sup>*\<^sup>* (phone_world_of ce r) w" and "ph_open (cw_console w) = No_Console"
    and "on_tenant_menu_screen (ph_pro (cw_console w))" and "i < length (tenant_menu_items ce)"
  shows "console_shown (ph_open (cw_console (phone_input ce (nat_to_string (i + 1)) w))) = Some (pro_item_id (tenant_menu_items ce ! i))"
proof -
  let ?p = "ph_pro (cw_console w)" and ?e = "tenant_menu_items ce ! i"
  have "phone_inv ce (phone_world_of ce r)" by (simp add: fresh_phone_inv phone_world_of_def)
  then have p: "menus ce ?p" using phone.inv_run [OF assms(1)] by (simp add: phone_inv_def)
  have page: "pro_page ?p = 0" using menus_page [OF p] assms(3) by (simp add: on_tenant_menu_screen_def)
  have "nat (1 + int i) - Suc 0 = i" by linarith
  then have "selectedItem ?p (nat_to_string (i + 1)) = Some ?e"
    using p assms(4) by (simp add: selectedItem_def page menus_def js_at_def)
  moreover have "consoleByMenuItem (pro_item_id ?e) = Some (pro_item_id ?e)"
    using assms(4) by (auto simp: tenant_menu_items_def menu_entry_def consoleByMenuItem_def less_Suc_eq numeral_eq_Suc)
  ultimately show ?thesis
    using assms(2,3) by (simp add: phone_input_def phone_submit_def on_tenant_menu_screen_def Let_def section_shows)
qed

lemma one_opens_menu:
  "ph_open (cw_console (phone_input ce ''1'' (phone_world_of ce r))) = No_Console"
  "on_tenant_menu_screen (ph_pro (cw_console (phone_input ce ''1'' (phone_world_of ce r))))"
proof -
  have "trim ''1'' = ''1''" by code_simp
  moreover have "pro_screen (fresh_pro ce) = ProRoleScreen"
    by (simp add: fresh_pro_def createProSimulatorState_def transitionProSimulator.simps pro_step_defs)
  ultimately show "ph_open (cw_console (phone_input ce ''1'' (phone_world_of ce r))) = No_Console"
    "on_tenant_menu_screen (ph_pro (cw_console (phone_input ce ''1'' (phone_world_of ce r))))"
    by (simp_all add: phone_input_def phone_world_of_def fresh_phone_def phone_submit_def pro_message_def on_tenant_menu_screen_def
      transitionProSimulator.simps pro_step_defs Let_def)
qed

theorem menu_opens_what_it_shows_witness:
  "\<exists>w. (phone_step sample_env)\<^sup>*\<^sup>* (phone_world_of sample_env sample_repo) w \<and>
     console_shown (ph_open (cw_console (phone_input sample_env (nat_to_string (3 + 1)) w))) = Some ''subscriptions''"
proof -
  let ?w = "phone_input sample_env ''1'' (phone_world_of sample_env sample_repo)"
  have "3 < length (tenant_menu_items sample_env)" "pro_item_id (tenant_menu_items sample_env ! 3) = ''subscriptions''"
    by (simp_all add: tenant_menu_items_def menu_entry_def numeral_eq_Suc)
  then show ?thesis
    using menu_opens_what_it_shows [OF phone_runs(2) one_opens_menu, of 3 sample_env sample_repo] phone_runs(2) [of sample_env sample_repo] by metis
qed

text \<open>
  Choosing an entry makes the machine answer that the operation is not available yet, although the console opens: it is the last
  message on the phone when the console is left.
\<close>

lemma opened_but_unavailable:
  assumes "menus ce (ph_pro (cw_console w))" and "on_tenant_menu_screen (ph_pro (cw_console w))"
    and "selectedItem (ph_pro (cw_console w)) (trim typed) = Some i"
  shows "msg_text (last (pro_messages (ph_pro (pro_message ce typed (cw_console w))))) = sim ce ''operation_unavailable'' []"
  by (simp add: pro_message_def selected_stays(1) [OF assms] pro_withBot_def pro_appendMessage_def createProSimulatorCopy_def push_message_def)

end
