(* ===== verification/HelpNavigation.thy ===== *)
theory HelpNavigation
  imports JsText
begin

text \<open>
  Where a help article may send its reader (\<open>features/help/safe-navigation.ts\<close> and
  \<open>features/admin/settings-categories.ts\<close>). The article names a route, a settings category and a
  tab as free text; \<open>resolveSafeHelpNavigation\<close> turns them into one of the known destinations or refuses. A
  missing and a \<open>null\<close> tab are the same to the code. The main result is an exact description of what is accepted.
\<close>

definition SETTINGS_CATEGORY_IDS :: "string list" where
  "SETTINGS_CATEGORY_IDS = [''reminders'', ''public-api'', ''code-services'', ''mailbox'', ''access-control'',
     ''my-account'', ''whatsapp-link'']"

definition isSettingsCategoryId :: "string \<Rightarrow> bool" where
  "isSettingsCategoryId v = (v \<in> set SETTINGS_CATEGORY_IDS)"

record HelpSafeNavigation =
  hn_route :: string
  hn_settings_category :: "string option"
  hn_tab :: "string option"

datatype help_audience = TenantAudience | ClientAudience

text \<open>\<open>{ to, search }\<close>; the members of \<open>search\<close> in order, none when the property is missing.\<close>

record SafeHelpDestination =
  hd_to :: string
  hd_search :: "(string \<times> string) list"

definition plain_destination :: "string \<Rightarrow> SafeHelpDestination" where
  "plain_destination route = \<lparr> hd_to = route, hd_search = [] \<rparr>"

definition settings_destination :: "HelpSafeNavigation \<Rightarrow> SafeHelpDestination option" where
  "settings_destination navigation =
     (if hn_settings_category navigation = Some ''profile''
      then Some \<lparr> hd_to = ''/admin/settings'', hd_search = [(''category'', ''my-account'')] \<rparr>
      else if hn_settings_category navigation = Some ''my-account'' \<and> hn_tab navigation = Some ''regional''
      then Some \<lparr> hd_to = ''/admin/settings'', hd_search = [(''category'', ''my-account''), (''tab'', ''regional'')] \<rparr>
      else (case hn_settings_category navigation of
          None \<Rightarrow> Some (plain_destination ''/admin/settings'')
        | Some category \<Rightarrow> if isSettingsCategoryId category
            then Some \<lparr> hd_to = ''/admin/settings'', hd_search = [(''category'', category)] \<rparr> else None))"

definition resolveSafeHelpNavigation :: "HelpSafeNavigation \<Rightarrow> help_audience \<Rightarrow> SafeHelpDestination option" where
  "resolveSafeHelpNavigation navigation audience =
    (let isClientRoute = js_startsWith ''/client/'' (hn_route navigation);
         route = hn_route navigation; bare = (hn_settings_category navigation = None) in
     if (audience = ClientAudience \<and> \<not> isClientRoute) \<or> (audience = TenantAudience \<and> isClientRoute) then None
     else if route = ''/admin/dashboard'' \<and> bare then Some (plain_destination ''/admin/dashboard'')
     else if route = ''/client/dashboard'' \<and> bare then Some (plain_destination ''/client/dashboard'')
     else if route = ''/client/profile'' \<and> bare then Some (plain_destination ''/client/profile'')
     else if route = ''/client/help'' \<and> bare then Some (plain_destination ''/client/help'')
     else if bare \<and> route = ''/admin/clients'' then Some (plain_destination ''/admin/clients'')
     else if bare \<and> route = ''/admin/catalog'' then Some (plain_destination ''/admin/catalog'')
     else if bare \<and> route = ''/admin/subscriptions'' then Some (plain_destination ''/admin/subscriptions'')
     else if route = ''/admin/settings'' \<and> settings_destination navigation \<noteq> None then settings_destination navigation
     else if route = ''/admin/help'' \<and> bare then Some (plain_destination ''/admin/help'')
     else None)"

section \<open>What is accepted\<close>

definition routes_of :: "help_audience \<Rightarrow> string list" where
  "routes_of audience = (case audience of
     TenantAudience \<Rightarrow> [''/admin/dashboard'', ''/admin/clients'', ''/admin/catalog'', ''/admin/subscriptions'', ''/admin/settings'', ''/admin/help'']
   | ClientAudience \<Rightarrow> [''/client/dashboard'', ''/client/profile'', ''/client/help''])"

definition category_accepted :: "HelpSafeNavigation \<Rightarrow> bool" where
  "category_accepted navigation = (case hn_settings_category navigation of None \<Rightarrow> True
     | Some c \<Rightarrow> hn_route navigation = ''/admin/settings'' \<and> (c = ''profile'' \<or> isSettingsCategoryId c))"

definition known_searches :: "(string \<times> string) list list" where
  "known_searches = [[], [(''category'', ''my-account''), (''tab'', ''regional'')]] @ map (\<lambda>c. [(''category'', c)]) SETTINGS_CATEGORY_IDS"

lemma known_searches_iff:
  "search \<in> set known_searches \<longleftrightarrow> search = [] \<or> search = [(''category'', ''my-account''), (''tab'', ''regional'')] \<or>
     (\<exists>c. isSettingsCategoryId c \<and> search = [(''category'', c)])"
  by (auto simp: known_searches_def isSettingsCategoryId_def)

lemma settings_destination_SomeD:
  assumes "settings_destination navigation = Some d"
  shows "hd_to d = ''/admin/settings''" and "hd_search d \<in> set known_searches"
    and "case hn_settings_category navigation of None \<Rightarrow> True | Some c \<Rightarrow> c = ''profile'' \<or> isSettingsCategoryId c"
proof -
  have account: "isSettingsCategoryId ''my-account''"
    by (simp add: isSettingsCategoryId_def SETTINGS_CATEGORY_IDS_def)
  show "hd_to d = ''/admin/settings''"
    using assms by (auto simp: settings_destination_def plain_destination_def split: if_splits option.splits)
  show "case hn_settings_category navigation of None \<Rightarrow> True | Some c \<Rightarrow> c = ''profile'' \<or> isSettingsCategoryId c"
    using assms account by (auto simp: settings_destination_def split: if_splits option.splits)
  show "hd_search d \<in> set known_searches"
    using assms account
    by (auto simp: known_searches_iff settings_destination_def plain_destination_def split: if_splits option.splits)
qed

lemma settings_destination_None:
  "settings_destination navigation = None \<longleftrightarrow>
     (\<exists>c. hn_settings_category navigation = Some c \<and> c \<noteq> ''profile'' \<and> \<not> isSettingsCategoryId c)"
  by (auto simp: settings_destination_def isSettingsCategoryId_def SETTINGS_CATEGORY_IDS_def split: option.splits)

lemma resolve_cases:
  assumes "resolveSafeHelpNavigation navigation audience = Some d"
  shows "(hn_settings_category navigation = None \<and> hn_route navigation \<noteq> ''/admin/settings'' \<and>
      hn_route navigation \<in> set (routes_of audience) \<and> d = plain_destination (hn_route navigation)) \<or>
    (audience = TenantAudience \<and> hn_route navigation = ''/admin/settings'' \<and> settings_destination navigation = Some d)"
  using assms by (cases audience) (auto simp: resolveSafeHelpNavigation_def routes_of_def Let_def split: if_splits)

lemma resolve_accepted:
  assumes "hn_route navigation \<in> set (routes_of audience)" and "category_accepted navigation"
  shows "resolveSafeHelpNavigation navigation audience \<noteq> None"
  using assms settings_destination_None [of navigation] unfolding routes_of_def
  by (cases audience; simp; elim disjE)
    (simp_all add: resolveSafeHelpNavigation_def Let_def category_accepted_def split: option.splits, auto)

text \<open>
  C36. Help navigation is safe and complete. A reader is sent somewhere exactly when the article names a route of
  the reader's own part of the application and, for the settings only, a known category; the destination is
  then that very route, and its search parameters are a known category, with a tab only for the regional settings of the
  account. In particular no article leads a tenant to a client page, a client to an administration page, or anyone
  outside the application.
\<close>

theorem help_navigation_exact:
  "case resolveSafeHelpNavigation navigation audience of
     None \<Rightarrow> \<not> (hn_route navigation \<in> set (routes_of audience) \<and> category_accepted navigation)
   | Some d \<Rightarrow> hd_to d = hn_route navigation \<and> hn_route navigation \<in> set (routes_of audience) \<and> category_accepted navigation \<and>
       hd_search d \<in> set known_searches"
proof (cases "resolveSafeHelpNavigation navigation audience")
  case None
  with resolve_accepted [of navigation audience] show ?thesis by auto
next
  case (Some d)
  from resolve_cases [OF Some] show ?thesis
  proof (elim disjE conjE)
    assume "hn_settings_category navigation = None" "hn_route navigation \<in> set (routes_of audience)"
      "d = plain_destination (hn_route navigation)"
    with Some show ?thesis by (simp add: category_accepted_def plain_destination_def known_searches_iff)
  next
    assume "audience = TenantAudience" "hn_route navigation = ''/admin/settings''" "settings_destination navigation = Some d"
    with Some settings_destination_SomeD [of navigation d] show ?thesis
      by (auto simp: category_accepted_def routes_of_def split: option.splits)
  qed
qed

end
