(* ===== verification/LinkPolling.thy ===== *)
theory LinkPolling
  imports StepRuns ApiRequests
begin

text \<open>
  Waiting for a WhatsApp link (\<open>features/admin/hooks/use-whatsapp-link-polling.ts\<close>): a hook that asks for the status at an
  interval until the link is connected, a timeout fires or it is stopped. Its references and timers are the state; what
  React does to it (running the effect and its clean-up) and what the timers and replies do are the steps. The main
  result: \<open>onConnected\<close> is called at most once per activation, and after it, after a stop and after unmounting no callback is called.
\<close>

record WhatsAppLinkStatus =
  wl_connected :: bool
  wl_phone :: "string option"
  wl_instance_name :: string

text \<open>The requests of \<open>whatsapp-link-api.ts\<close>; the hook sends the first.\<close>

definition getWhatsAppLinkStatus_api :: api_request where
  "getWhatsAppLinkStatus_api = api_get ''/tenant/whatsapp-link/status''"

definition requestPairingCode_api :: api_request where
  "requestPairingCode_api = Request POST ''/tenant/whatsapp-link/pair'' (Some (JObj []))"

definition getQRCode_api :: api_request where
  "getQRCode_api = api_get ''/tenant/whatsapp-link/qr''"

definition disconnectWhatsApp_api :: api_request where
  "disconnectWhatsApp_api = Request POST ''/tenant/whatsapp-link/disconnect'' None"

datatype polling_callback = OnStatus WhatsAppLinkStatus | OnConnected WhatsAppLinkStatus | OnTimeout | OnError

text \<open>
  \<open>lp_called\<close> is a ghost: the callbacks since the hook was last activated, latest first. \<open>lp_waiting\<close> counts
  the requests without a reply.
\<close>

record LinkPolling =
  lp_isPolling :: bool
  lp_elapsedMs :: int
  lp_interval :: bool
  lp_timeout :: bool
  lp_elapsedRef :: int
  lp_mounted :: bool
  lp_calledConnected :: bool
  lp_stopped :: bool
  lp_waiting :: nat
  lp_called :: "polling_callback list"

definition initial_polling :: LinkPolling where
  "initial_polling = \<lparr> lp_isPolling = False, lp_elapsedMs = 0, lp_interval = False, lp_timeout = False, lp_elapsedRef = 0,
     lp_mounted = True, lp_calledConnected = False, lp_stopped = False, lp_waiting = 0, lp_called = [] \<rparr>"

definition clearTimers :: "LinkPolling \<Rightarrow> LinkPolling" where
  "clearTimers s = s\<lparr>lp_interval := False, lp_timeout := False\<rparr>"

definition stop_polling :: "LinkPolling \<Rightarrow> LinkPolling" where
  "stop_polling s = (clearTimers (s\<lparr>lp_stopped := True\<rparr>))\<lparr>lp_isPolling := False\<rparr>"

definition callback :: "polling_callback \<Rightarrow> LinkPolling \<Rightarrow> LinkPolling" where
  "callback c s = s\<lparr>lp_called := c # lp_called s\<rparr>"

text \<open>A poll up to its request, and the rest of it.\<close>

definition poll :: "LinkPolling \<Rightarrow> LinkPolling" where
  "poll s = (if lp_stopped s \<or> \<not> lp_mounted s then s else s\<lparr>lp_waiting := lp_waiting s + 1\<rparr>)"

definition poll_reply :: "WhatsAppLinkStatus option \<Rightarrow> LinkPolling \<Rightarrow> LinkPolling" where
  "poll_reply answer s0 = (let s = s0\<lparr>lp_waiting := lp_waiting s0 - 1\<rparr> in
     if lp_stopped s \<or> \<not> lp_mounted s then s
     else (case answer of
        None \<Rightarrow> callback OnError s
      | Some status \<Rightarrow>
          (let s1 = callback (OnStatus status) s in
           if wl_connected status \<and> \<not> lp_calledConnected s1
           then stop_polling (callback (OnConnected status) (s1\<lparr>lp_calledConnected := True\<rparr>))
           else s1)))"

text \<open>The effect for \<open>enabled\<close>; the first poll is at once.\<close>

definition start_effect :: "LinkPolling \<Rightarrow> LinkPolling" where
  "start_effect s = (poll (s\<lparr>lp_stopped := False, lp_calledConnected := False, lp_elapsedRef := 0, lp_elapsedMs := 0,
     lp_isPolling := True, lp_called := []\<rparr>))\<lparr>lp_interval := True, lp_timeout := True\<rparr>"

definition interval_tick :: "int \<Rightarrow> LinkPolling \<Rightarrow> LinkPolling" where
  "interval_tick intervalMs s = (let e = lp_elapsedRef s + intervalMs in poll (s\<lparr>lp_elapsedRef := e, lp_elapsedMs := e\<rparr>))"

definition timeout_fires :: "LinkPolling \<Rightarrow> LinkPolling" where
  "timeout_fires s = (if \<not> lp_stopped s \<and> lp_mounted s
     then callback OnTimeout ((clearTimers s)\<lparr>lp_isPolling := False\<rparr>) else s\<lparr>lp_timeout := False\<rparr>)"

definition unmount :: "LinkPolling \<Rightarrow> LinkPolling" where
  "unmount s = clearTimers (s\<lparr>lp_mounted := False\<rparr>)"

text \<open>
  React runs the clean-up of the last effect, which clears the timers, before the next effect; nothing but replies
  comes after unmounting.
\<close>

inductive polling_step :: "int \<Rightarrow> LinkPolling \<Rightarrow> LinkPolling \<Rightarrow> bool" for intervalMs where
  enabled: "lp_mounted s \<Longrightarrow> polling_step intervalMs s (start_effect (clearTimers s))"
| disabled: "lp_mounted s \<Longrightarrow> polling_step intervalMs s (stop_polling (clearTimers s))"
| stopped: "polling_step intervalMs s (stop_polling s)"
| ticked: "lp_interval s \<Longrightarrow> polling_step intervalMs s (interval_tick intervalMs s)"
| timed_out: "lp_timeout s \<Longrightarrow> polling_step intervalMs s (timeout_fires s)"
| replied: "0 < lp_waiting s \<Longrightarrow> polling_step intervalMs s (poll_reply answer s)"
| unmounted: "polling_step intervalMs s (unmount s)"

lemmas polling_ops = clearTimers_def stop_polling_def callback_def poll_def poll_reply_def start_effect_def interval_tick_def
  timeout_fires_def unmount_def

section \<open>Callbacks\<close>

definition is_connected_call :: "polling_callback \<Rightarrow> bool" where
  "is_connected_call c = (case c of OnConnected st \<Rightarrow> True | _ \<Rightarrow> False)"

definition polling_inv :: "LinkPolling \<Rightarrow> bool" where
  "polling_inv s \<longleftrightarrow>
     (if lp_calledConnected s
      then lp_stopped s \<and> (\<exists>status rest. lp_called s = OnConnected status # OnStatus status # rest \<and> wl_connected status \<and>
        \<not> list_ex is_connected_call rest)
      else \<not> list_ex is_connected_call (lp_called s)) \<and>
     (lp_stopped s \<or> \<not> lp_mounted s \<longrightarrow> \<not> lp_interval s \<and> \<not> lp_timeout s) \<and>
     (lp_interval s \<longleftrightarrow> lp_timeout s)"

lemma polling_inv_step: "polling_step i s t \<Longrightarrow> polling_inv s \<Longrightarrow> polling_inv t"
proof (induction rule: polling_step.induct)
  case (replied s answer)
  then show ?case
    by (cases answer) (auto simp: polling_ops polling_inv_def is_connected_call_def Let_def)
qed (auto simp: polling_ops polling_inv_def is_connected_call_def Let_def)

interpretation link: invariant_run "polling_step i" polling_inv
  by unfold_locales (rule polling_inv_step)

lemma polling_start: "polling_inv initial_polling"
  by (simp add: polling_inv_def initial_polling_def)

text \<open>Once stopped or unmounted, nothing that still arrives calls back or sends a request.\<close>

lemma quiet_after_stop:
  assumes "lp_stopped s \<or> \<not> lp_mounted s"
  shows "lp_called (poll_reply answer s) = lp_called s" and "lp_called (timeout_fires s) = lp_called s"
    and "lp_called (interval_tick i s) = lp_called s" and "lp_waiting (interval_tick i s) = lp_waiting s"
proof -
  have off: "(lp_stopped s \<or> \<not> lp_mounted s) = True" "(\<not> lp_stopped s \<and> lp_mounted s) = False" using assms by blast+
  show "lp_called (poll_reply answer s) = lp_called s" by (simp add: poll_reply_def off)
  show "lp_called (timeout_fires s) = lp_called s" by (simp add: timeout_fires_def off)
  show "lp_called (interval_tick i s) = lp_called s" by (simp add: interval_tick_def poll_def off Let_def)
  show "lp_waiting (interval_tick i s) = lp_waiting s" by (simp add: interval_tick_def poll_def off Let_def)
qed

lemma connected_once:
  assumes "(polling_step i)\<^sup>*\<^sup>* initial_polling s"
  shows "length (filter is_connected_call (lp_called s)) \<le> 1"
    and "list_ex is_connected_call (lp_called s) \<Longrightarrow> lp_stopped s \<and> is_connected_call (hd (lp_called s))"
proof -
  have inv: "polling_inv s" using link.inv_run [OF assms] polling_start by blast
  show "length (filter is_connected_call (lp_called s)) \<le> 1"
    using inv by (auto simp: polling_inv_def is_connected_call_def list_ex_iff filter_False split: if_splits)
  show "list_ex is_connected_call (lp_called s) \<Longrightarrow> lp_stopped s \<and> is_connected_call (hd (lp_called s))"
    using inv by (auto simp: polling_inv_def is_connected_call_def split: if_splits)
qed

text \<open>A finding: the timeout does not stop the hook, so a late reply still calls \<open>onConnected\<close> after \<open>onTimeout\<close>.\<close>

lemma connected_after_timeout:
  "lp_called (poll_reply (Some \<lparr>wl_connected = True, wl_phone = None, wl_instance_name = ''a''\<rparr>) (timeout_fires (start_effect initial_polling))) =
     [OnConnected \<lparr>wl_connected = True, wl_phone = None, wl_instance_name = ''a''\<rparr>,
      OnStatus \<lparr>wl_connected = True, wl_phone = None, wl_instance_name = ''a''\<rparr>, OnTimeout]"
  by (simp add: polling_ops initial_polling_def)

end
