(* ===== verification/DemoHooks.thy ===== *)
theory DemoHooks
  imports StepRuns DemoWorkspace
begin

text \<open>
  The two hooks of the demo banner: the countdown (\<open>features/demo/hooks/use-countdown.ts\<close>) and the heartbeat
  (\<open>use-demo-heartbeat.ts\<close>). Their state is the state and the references of the hook; running an effect or its clean-up, the
  interval, the window events and the settling of requests are the steps. The main results: the countdown shows the seconds left, never below
  zero, and never more than one heartbeat of the current demo is under way.
\<close>

section \<open>Countdown\<close>

text \<open>An invalid date gives 0.\<close>

definition diffSeconds :: "string \<Rightarrow> string \<Rightarrow> int" where
  "diffSeconds expiresAt serverTime = (case (Date_parse expiresAt, Date_parse serverTime) of
     (Some exp, Some now) \<Rightarrow> max 0 ((exp - now) div 1000)
   | _ \<Rightarrow> 0)"

definition countdown_start :: "string option \<Rightarrow> string option \<Rightarrow> int" where
  "countdown_start expiresAt serverTime =
     (if falsy expiresAt \<or> falsy serverTime then 0 else diffSeconds (the expiresAt) (the serverTime))"

definition countdown_tick :: "int \<Rightarrow> int" where
  "countdown_tick prev = max 0 (prev - 1)"

lemma countdown_start_nonneg: "0 \<le> countdown_start e t"
  by (auto simp: countdown_start_def diffSeconds_def split: option.splits)

text \<open>After \<open>n\<close> seconds it shows what is left, and stays at zero.\<close>

lemma countdown_after: "(countdown_tick ^^ n) (countdown_start e t) = max 0 (countdown_start e t - int n)"
proof (induction n)
  case 0
  then show ?case using countdown_start_nonneg [of e t] by simp
qed (auto simp: countdown_tick_def)

section \<open>Heartbeat\<close>

text \<open>
  \<open>hh_waiting\<close> are the requests without a reply, each with the generation it belongs to. \<open>hh_inFlight\<close> says whether the
  reference to the request in flight is set.
\<close>

record HeartbeatHook =
  hh_tenant :: "string option"
  hh_status :: "DemoTenantStatus option"
  hh_authenticated :: bool
  hh_failures :: nat
  hh_isActive :: bool
  hh_generation :: nat
  hh_inFlight :: bool
  hh_waiting :: "nat list"

definition CONSECUTIVE_FAILURES_BEFORE_PAUSE :: nat where
  "CONSECUTIVE_FAILURES_BEFORE_PAUSE = 2"

definition isPaused :: "HeartbeatHook \<Rightarrow> bool" where
  "isPaused h = (hh_failures h \<ge> CONSECUTIVE_FAILURES_BEFORE_PAUSE)"

definition demo_is_live :: "HeartbeatHook \<Rightarrow> bool" where
  "demo_is_live h = (\<not> falsy (hh_tenant h) \<and> hh_status h = Some Active \<and> hh_authenticated h)"

definition runHeartbeat :: "HeartbeatHook \<Rightarrow> HeartbeatHook" where
  "runHeartbeat h = (if \<not> hh_isActive h \<or> \<not> demo_is_live h \<or> hh_inFlight h then h
     else h\<lparr>hh_inFlight := True, hh_waiting := hh_waiting h @ [hh_generation h]\<rparr>)"

text \<open>The rest of a heartbeat, for the request of generation \<open>g\<close>.\<close>

definition heartbeat_settles :: "bool \<Rightarrow> nat \<Rightarrow> HeartbeatHook \<Rightarrow> HeartbeatHook" where
  "heartbeat_settles ok g h =
    (let h1 = (if \<not> hh_isActive h \<or> g \<noteq> hh_generation h then h
         else h\<lparr>hh_failures := (if ok then 0 else hh_failures h + 1)\<rparr>)
     in if g = hh_generation h1 then h1\<lparr>hh_inFlight := False\<rparr> else h1)"

definition heartbeat_cleanup :: "HeartbeatHook \<Rightarrow> HeartbeatHook" where
  "heartbeat_cleanup h = h\<lparr>hh_generation := hh_generation h + 1, hh_isActive := False, hh_inFlight := False\<rparr>"

definition heartbeat_effect :: "HeartbeatHook \<Rightarrow> HeartbeatHook" where
  "heartbeat_effect h = (let h1 = h\<lparr>hh_generation := hh_generation h + 1, hh_inFlight := False,
       hh_isActive := demo_is_live h, hh_failures := 0\<rparr>
     in if hh_isActive h1 then runHeartbeat h1 else h1)"

definition new_hook :: "string option \<Rightarrow> DemoTenantStatus option \<Rightarrow> bool \<Rightarrow> HeartbeatHook" where
  "new_hook tid st auth = \<lparr> hh_tenant = tid, hh_status = st, hh_authenticated = auth, hh_failures = 0, hh_isActive = False,
     hh_generation = 0, hh_inFlight = False, hh_waiting = [] \<rparr>"

text \<open>
  The store changes the demo, and the effect is run again after its clean-up; the interval, a focus, a visible page or a retry run a
  heartbeat; a request settles, in any order; the hook is unmounted.
\<close>

definition drop_nth :: "nat \<Rightarrow> 'a list \<Rightarrow> 'a list" where
  "drop_nth i xs = take i xs @ drop (Suc i) xs"

inductive heartbeat_step :: "HeartbeatHook \<Rightarrow> HeartbeatHook \<Rightarrow> bool" where
  demo_changes: "heartbeat_step h (heartbeat_effect ((heartbeat_cleanup h)\<lparr>hh_tenant := tid, hh_status := st, hh_authenticated := auth\<rparr>))"
| beats: "heartbeat_step h (runHeartbeat h)"
| settles: "i < length (hh_waiting h) \<Longrightarrow>
    heartbeat_step h (heartbeat_settles ok (hh_waiting h ! i) (h\<lparr>hh_waiting := drop_nth i (hh_waiting h)\<rparr>))"
| unmounts: "heartbeat_step h (heartbeat_cleanup h)"

definition current_requests :: "HeartbeatHook \<Rightarrow> nat list" where
  "current_requests h = filter (\<lambda>g. g = hh_generation h) (hh_waiting h)"

definition heartbeat_inv :: "HeartbeatHook \<Rightarrow> bool" where
  "heartbeat_inv h \<longleftrightarrow> length (current_requests h) = (if hh_inFlight h then 1 else 0) \<and>
     (\<forall>g \<in> set (hh_waiting h). g \<le> hh_generation h) \<and> (hh_inFlight h \<longrightarrow> hh_isActive h)"

lemma later_generation:
  assumes "\<forall>g \<in> set gs. g \<le> (n::nat)" and "n < k"
  shows "filter (\<lambda>g. g = k) gs = []"
  using assms by (induction gs) auto

lemma set_drop_nth: "set (drop_nth i xs) \<subseteq> set xs"
  by (auto simp: drop_nth_def dest: in_set_takeD in_set_dropD)

lemma filter_drop_nth:
  assumes "i < length xs"
  shows "length (filter P xs) = length (filter P (drop_nth i xs)) + (if P (xs ! i) then 1 else 0)"
proof -
  have "filter P xs = filter P (take i xs @ [xs ! i] @ drop (Suc i) xs)"
    using assms by (simp only: append_Cons append_Nil id_take_nth_drop [symmetric])
  then show ?thesis by (simp add: drop_nth_def)
qed

lemma heartbeat_inv_run: "heartbeat_inv h \<Longrightarrow> heartbeat_inv (runHeartbeat h)"
  by (auto simp: heartbeat_inv_def runHeartbeat_def current_requests_def)

lemma heartbeat_inv_cleanup:
  assumes "heartbeat_inv h"
  shows "heartbeat_inv (heartbeat_cleanup h)"
  using assms later_generation [of "hh_waiting h" "hh_generation h" "Suc (hh_generation h)"]
  by (auto simp: heartbeat_inv_def heartbeat_cleanup_def current_requests_def)

lemma heartbeat_inv_effect:
  assumes "heartbeat_inv h"
  shows "heartbeat_inv (heartbeat_effect h)"
proof -
  have "heartbeat_inv (h\<lparr>hh_generation := hh_generation h + 1, hh_inFlight := False, hh_isActive := b, hh_failures := 0\<rparr>)" for b
    using assms later_generation [of "hh_waiting h" "hh_generation h" "Suc (hh_generation h)"]
    by (auto simp: heartbeat_inv_def current_requests_def)
  then show ?thesis by (simp add: heartbeat_effect_def Let_def heartbeat_inv_run)
qed

lemma heartbeat_inv_settles:
  assumes "heartbeat_inv h" and "i < length (hh_waiting h)"
  shows "heartbeat_inv (heartbeat_settles ok (hh_waiting h ! i) (h\<lparr>hh_waiting := drop_nth i (hh_waiting h)\<rparr>))"
  using assms filter_drop_nth [OF assms(2), of "\<lambda>g. g = hh_generation h"] set_drop_nth [of i "hh_waiting h"]
  by (auto simp: heartbeat_inv_def heartbeat_settles_def current_requests_def Let_def split: if_splits)

lemma heartbeat_inv_step: "heartbeat_step h k \<Longrightarrow> heartbeat_inv h \<Longrightarrow> heartbeat_inv k"
proof (induction rule: heartbeat_step.induct)
  case (demo_changes h auth st tid)
  then have "heartbeat_inv ((heartbeat_cleanup h)\<lparr>hh_tenant := tid, hh_status := st, hh_authenticated := auth\<rparr>)"
    using heartbeat_inv_cleanup [of h] by (simp add: heartbeat_inv_def current_requests_def)
  then show ?case by (rule heartbeat_inv_effect)
qed (simp_all add: heartbeat_inv_run heartbeat_inv_cleanup heartbeat_inv_settles)

interpretation heartbeats: invariant_run heartbeat_step heartbeat_inv
  by unfold_locales (rule heartbeat_inv_step)

lemma one_heartbeat:
  assumes "heartbeat_step\<^sup>*\<^sup>* (new_hook tid st auth) h"
  shows "length (current_requests h) \<le> 1" and "hh_inFlight h \<longleftrightarrow> current_requests h \<noteq> []"
proof -
  have "heartbeat_inv (new_hook tid st auth)" by (simp add: heartbeat_inv_def new_hook_def current_requests_def)
  with heartbeats.inv_run [OF assms] have "heartbeat_inv h" .
  then show "length (current_requests h) \<le> 1" and "hh_inFlight h \<longleftrightarrow> current_requests h \<noteq> []"
    by (auto simp: heartbeat_inv_def split: if_splits)
qed

end
