(* ===== verification/AddressBook.thy ===== *)
theory AddressBook
  imports DemoClients
begin

text \<open>
  What the clients service promises, written without the code: an address book, a map from
  identifiers to entries, and for each call the conditions under which it is accepted and what it does to the book.
  The conditions are restated in other terms than the code's: words for the cleaning of a name, the whole text for the
  characters of a phone number, quantifiers for uniqueness. The main result is that the service
  (\<open>demo-client-crud.ts\<close> on the JSON workspace in the browser storage) refines the book call by call.
\<close>

section \<open>The address book\<close>

record entry =
  en_name :: string
  en_user :: string
  en_phone :: "string option"
  en_active :: bool

type_synonym book = "string \<rightharpoonup> entry"

datatype client_call =
    Create_client ClientCreate
  | Update_client string ClientUpdate
  | Set_active string bool
  | Delete_client string

text \<open>A name has letters, digits and spaces, starts and ends with neither space nor blank, and is kept as its words.\<close>

definition name_accepted :: "string \<Rightarrow> bool" where
  "name_accepted n \<longleftrightarrow> n \<noteq> [] \<and> hd n \<noteq> CHR '' '' \<and> last n \<noteq> CHR '' '' \<and>
     (\<forall>c \<in> set n. is_letter c \<or> is_number_char c \<or> c = CHR '' '')"

definition words :: "string \<Rightarrow> string list" where
  "words n = filter (\<lambda>w. w \<noteq> []) (split_on (CHR '' '') n)"

definition user_accepted :: "string \<Rightarrow> bool" where
  "user_accepted u \<longleftrightarrow> u \<noteq> [] \<and> length u \<le> 94 \<and> is_lower_az (hd u) \<and>
     (\<forall>c \<in> set u. is_lower_az c \<or> is_digit c \<or> c = CHR ''_'')"

text \<open>A phone number is none when blank; otherwise its digits, 7 to 15 of them, among spaces and punctuation.\<close>

definition phone_blank :: "string option \<Rightarrow> bool" where
  "phone_blank v \<longleftrightarrow> (\<forall>s. v = Some s \<longrightarrow> (\<forall>c \<in> set s. is_space c))"

definition phone_accepted :: "string option \<Rightarrow> bool" where
  "phone_accepted v \<longleftrightarrow> (\<forall>s. v = Some s \<longrightarrow> (\<forall>c \<in> set s. is_space c) \<or>
     (\<forall>c \<in> set s. is_digit c \<or> is_space c \<or> c \<in> set ''+().-'') \<and> length (filter is_digit s) \<in> {7..15})"

definition phone_of :: "string option \<Rightarrow> string option" where
  "phone_of v = (if phone_blank v then None else map_option (filter is_digit) v)"

text \<open>No other entry has the user name, and none the phone number, if there is one.\<close>

definition unused :: "book \<Rightarrow> string set \<Rightarrow> string \<Rightarrow> string option \<Rightarrow> bool" where
  "unused b except user phone \<longleftrightarrow> (\<forall>cid e. b cid = Some e \<longrightarrow> cid \<notin> except \<longrightarrow>
     en_user e \<noteq> user \<and> (phone \<noteq> None \<longrightarrow> en_phone e \<noteq> phone))"

definition next_id :: "string \<Rightarrow> int \<Rightarrow> book \<Rightarrow> string" where
  "next_id tenant now b = ''client-'' @ tenant @ ''-'' @ nat_to_string (card (dom b) + 1) @ ''-'' @ int_to_string now"

definition created_entry :: "ClientCreate \<Rightarrow> entry" where
  "created_entry p = \<lparr> en_name = join '' '' (words (ccr_full_name p)), en_user = ccr_local_username p,
     en_phone = phone_of (ccr_phone p), en_active = True \<rparr>"

definition updated_entry :: "ClientUpdate \<Rightarrow> entry \<Rightarrow> entry" where
  "updated_entry ch e = e\<lparr>
     en_name := (case cup_full_name ch of None \<Rightarrow> en_name e | Some n \<Rightarrow> join '' '' (words n)),
     en_user := (case cup_local_username ch of None \<Rightarrow> en_user e | Some u \<Rightarrow> u),
     en_phone := (if cup_phone ch = None then en_phone e else phone_of (cup_phone ch))\<rparr>"

text \<open>Whether the book accepts a call, the identifier it concerns, and the book afterwards.\<close>

fun accepts :: "book \<Rightarrow> client_call \<Rightarrow> bool" where
  "accepts b (Create_client p) \<longleftrightarrow> name_accepted (ccr_full_name p) \<and> user_accepted (ccr_local_username p) \<and>
     phone_accepted (ccr_phone p) \<and> 6 \<le> length (ccr_password p) \<and>
     unused b {} (ccr_local_username p) (phone_of (ccr_phone p))"
| "accepts b (Update_client cid ch) \<longleftrightarrow> (\<exists>e. b cid = Some e \<and>
     (\<forall>n. cup_full_name ch = Some n \<longrightarrow> name_accepted n) \<and> (\<forall>u. cup_local_username ch = Some u \<longrightarrow> user_accepted u) \<and>
     phone_accepted (cup_phone ch) \<and>
     unused b {cid} (en_user (updated_entry ch e)) (en_phone (updated_entry ch e)))"
| "accepts b (Set_active cid f) \<longleftrightarrow> cid \<in> dom b"
| "accepts b (Delete_client cid) \<longleftrightarrow> (\<exists>e. b cid = Some e \<and> \<not> en_active e)"

fun concerns :: "string \<Rightarrow> int \<Rightarrow> book \<Rightarrow> client_call \<Rightarrow> string" where
  "concerns tenant now b (Create_client p) = next_id tenant now b"
| "concerns tenant now b (Update_client cid ch) = cid"
| "concerns tenant now b (Set_active cid f) = cid"
| "concerns tenant now b (Delete_client cid) = cid"

fun outcome :: "book \<Rightarrow> string \<Rightarrow> client_call \<Rightarrow> entry option" where
  "outcome b cid (Create_client p) = Some (created_entry p)"
| "outcome b cid (Update_client _ ch) = map_option (updated_entry ch) (b cid)"
| "outcome b cid (Set_active _ f) = map_option (\<lambda>e. e\<lparr>en_active := f\<rparr>) (b cid)"
| "outcome b cid (Delete_client _) = None"

definition book_step :: "string \<Rightarrow> int \<times> client_call \<Rightarrow> book \<Rightarrow> string option \<times> book" where
  "book_step tenant c b = (let cid = concerns tenant (fst c) b (snd c) in
     if accepts b (snd c) then (Some cid, b(cid := outcome b cid (snd c))) else (None, b))"

primrec book_run :: "string \<Rightarrow> (int \<times> client_call) list \<Rightarrow> book \<Rightarrow> string option list \<times> book" where
  "book_run tenant [] b = ([], b)"
| "book_run tenant (c # cs) b =
     (let (x, b') = book_step tenant c b; (xs, b'') = book_run tenant cs b' in (x # xs, b''))"

text \<open>The calls in which no creation that is accepted gets an identifier that is taken.\<close>

primrec ids_fresh :: "string \<Rightarrow> (int \<times> client_call) list \<Rightarrow> book \<Rightarrow> bool" where
  "ids_fresh tenant [] b \<longleftrightarrow> True"
| "ids_fresh tenant (c # cs) b \<longleftrightarrow>
     (case snd c of Create_client p \<Rightarrow> accepts b (snd c) \<longrightarrow> next_id tenant (fst c) b \<notin> dom b | _ \<Rightarrow> True) \<and>
     ids_fresh tenant cs (snd (book_step tenant c b))"

section \<open>The service, called\<close>

text \<open>What a call yields: the identifier of the client it returned, or none when it threw.\<close>

definition returned :: "('e + 'a) \<times> 'r \<Rightarrow> ('a \<Rightarrow> string) \<Rightarrow> string option \<times> 'r" where
  "returned x f = (case fst x of Inl e \<Rightarrow> None | Inr a \<Rightarrow> Some (f a), snd x)"

fun service_step :: "DemoAuthMetadata \<Rightarrow> int \<times> client_call \<Rightarrow> DemoWorkspaceRepository \<Rightarrow> string option \<times> DemoWorkspaceRepository" where
  "service_step metadata (now, Create_client p) r = returned (client_create metadata now p r) cl_id"
| "service_step metadata (now, Update_client cid ch) r = returned (client_update metadata now cid ch r) cl_id"
| "service_step metadata (now, Set_active cid f) r =
     returned (if f then client_activate metadata now cid r else client_deactivate metadata now cid r) cl_id"
| "service_step metadata (now, Delete_client cid) r = returned (client_delete metadata now cid r) (\<lambda>_. cid)"

primrec service_run :: "DemoAuthMetadata \<Rightarrow> (int \<times> client_call) list \<Rightarrow> DemoWorkspaceRepository \<Rightarrow>
    string option list \<times> DemoWorkspaceRepository" where
  "service_run metadata [] r = ([], r)"
| "service_run metadata (c # cs) r =
     (let (x, r') = service_step metadata c r; (xs, r'') = service_run metadata cs r' in (x # xs, r''))"

section \<open>The book of a list of clients\<close>

definition entry_of :: "Client \<Rightarrow> entry" where
  "entry_of c = \<lparr> en_name = cl_full_name c, en_user = localUsername c, en_phone = cl_phone c, en_active = cl_is_active c \<rparr>"

definition book_of :: "Client list \<Rightarrow> book" where
  "book_of cs = map_of (map (\<lambda>c. (cl_id c, entry_of c)) cs)"

lemma book_of_find: "book_of cs cid = map_option entry_of (find_by cl_id cid cs)"
  by (induction cs) (auto simp: book_of_def find_by_def)

lemma dom_book_of: "dom (book_of cs) = cl_id ` set cs"
  by (auto simp: book_of_def dom_map_of_conv_image_fst image_image)

lemma card_book_of: "distinct (map cl_id cs) \<Longrightarrow> card (dom (book_of cs)) = length cs"
  by (metis dom_book_of distinct_card length_map list.set_map)

lemma book_of_member: "distinct (map cl_id cs) \<Longrightarrow> book_of cs cid = Some e \<longleftrightarrow> (\<exists>c \<in> set cs. cl_id c = cid \<and> entry_of c = e)"
  unfolding book_of_find using find_by_unique [of cl_id cs] find_by_SomeD [of cl_id cid cs] by fastforce

lemma book_of_add:
  assumes "cl_id c \<notin> cl_id ` set cs"
  shows "book_of (cs @ [c]) = (book_of cs)(cl_id c := Some (entry_of c))"
proof
  fix k
  show "book_of (cs @ [c]) k = ((book_of cs)(cl_id c := Some (entry_of c))) k"
    using assms by (induction cs) (auto simp: book_of_def)
qed

lemma book_of_replace:
  "cl_id c = cid \<Longrightarrow> cid \<in> cl_id ` set cs \<Longrightarrow> book_of (replace_by cl_id cid c cs) = (book_of cs)(cid := Some (entry_of c))"
  by (rule ext) (simp add: book_of_find find_by_replace_by)

lemma book_of_remove: "book_of (remove_by cl_id cid cs) = (book_of cs)(cid := None)"
  by (rule ext) (simp add: book_of_find find_by_remove_by)

section \<open>The checks of the code are the conditions of the book\<close>

lemma split_all_empty: "\<forall>w \<in> set (split_on c s). w = [] \<Longrightarrow> set s \<subseteq> {c}"
proof (induction s)
  case (Cons x s)
  then show ?case by (cases "split_on c s") (auto split: if_splits)
qed simp

lemma words_nonempty: "s \<noteq> [] \<Longrightarrow> last s \<noteq> CHR '' '' \<Longrightarrow> words s \<noteq> []"
proof
  assume "s \<noteq> []" "last s \<noteq> CHR '' ''" "words s = []"
  then have "\<forall>w \<in> set (split_on (CHR '' '') s). w = []" by (simp add: words_def filter_empty_conv)
  then have "set s \<subseteq> {CHR '' ''}" by (rule split_all_empty)
  with \<open>s \<noteq> []\<close> \<open>last s \<noteq> CHR '' ''\<close> show False using last_in_set by fastforce
qed

lemma words_space: "words (CHR '' '' # s) = words s"
  by (simp add: words_def)

lemma words_char:
  assumes "c \<noteq> CHR '' ''" and "d \<noteq> CHR '' ''"
  obtains w ws where "words (d # s) = (d # w) # ws" and "words (c # d # s) = (c # d # w) # ws"
  using assms that by (cases "split_on (CHR '' '') s") (auto simp: words_def)

lemma collapse_words:
  "s = [] \<or> last s \<noteq> CHR '' '' \<Longrightarrow> collapse_spaces s =
     (if s \<noteq> [] \<and> hd s = CHR '' '' then CHR '' '' # join '' '' (words s) else join '' '' (words s))"
proof (induction s rule: collapse_spaces.induct)
  case (3 c d s)
  show ?case
  proof (cases "c = CHR '' ''")
    case True
    with 3 show ?thesis by (auto simp: words_space)
  next
    case c: False
    show ?thesis
    proof (cases "d = CHR '' ''")
      case True
      with 3(3) have "s \<noteq> []" "last s \<noteq> CHR '' ''" by (auto split: if_splits)
      then obtain w ws where s: "words s = w # ws" using words_nonempty by (cases "words s") auto
      have "words (c # d # s) = [c] # words s" using c True by (simp add: words_def)
      with 3 c True s show ?thesis by (simp add: words_space)
    next
      case False
      obtain w ws where "words (d # s) = (d # w) # ws" "words (c # d # s) = (c # d # w) # ws"
        using words_char [OF c False] by blast
      with 3 c False show ?thesis by (cases ws) simp_all
    qed
  qed
qed (auto simp: words_def)

lemma name_char_space: "name_char c \<Longrightarrow> is_space c \<Longrightarrow> c = CHR '' ''"
  by (auto simp: name_char_def char_class_defs)

lemma trim_iff: "trim s = s \<longleftrightarrow> trimmed s"
  by (metis trim_conv trimmed_trim)

lemma validateFullName_accepts:
  "validateFullName n = (if name_accepted n then Inr (join '' '' (words n))
     else Inl (projl (validateFullName n))) \<and> (\<not> name_accepted n \<longrightarrow> isl (validateFullName n))"
proof (cases "n = []")
  case False
  have space: "is_space (CHR '' '')" by code_simp
  show ?thesis
  proof (cases "list_all name_char n")
    case True
    then have "is_space c \<longleftrightarrow> c = CHR '' ''" if "c \<in> set n" for c
      using that name_char_space space by (auto simp: list_all_iff)
    with False have "trim n = n \<longleftrightarrow> hd n \<noteq> CHR '' '' \<and> last n \<noteq> CHR '' ''"
      by (simp add: trim_iff trimmed_def)
    with True False collapse_words [of n] show ?thesis
      by (auto simp: validateFullName_def name_accepted_def list_all_iff name_char_def)
  next
    case no: False
    then have "\<not> name_accepted n" by (auto simp: name_accepted_def list_all_iff name_char_def)
    with no show ?thesis by (auto simp: validateFullName_def)
  qed
qed (simp add: validateFullName_def name_accepted_def)

lemma validateFullName_Inr: "validateFullName n = Inr m \<longleftrightarrow> name_accepted n \<and> m = join '' '' (words n)"
  using validateFullName_accepts [of n] by (auto split: if_splits)

lemma user_char_not_space: "is_lower_az c \<or> is_digit c \<or> c = CHR ''_'' \<Longrightarrow> \<not> is_space c"
  by (auto simp: char_class_defs)

lemma validateLocalUsername_Inr: "validateLocalUsername u = Inr m \<longleftrightarrow> user_accepted u \<and> m = u"
proof (cases u)
  case (Cons c t)
  have "local_username_pattern u \<longleftrightarrow> is_lower_az c \<and> (\<forall>d \<in> set u. is_lower_az d \<or> is_digit d \<or> d = CHR ''_'')"
    by (auto simp: Cons local_username_pattern_def list_all_iff)
  moreover from this have "trim u = u" if "local_username_pattern u"
    using that user_char_not_space by (auto simp: trim_iff trimmed_def Cons)
  ultimately show ?thesis
    by (auto simp: validateLocalUsername_def user_accepted_def Cons)
qed (simp add: validateLocalUsername_def user_accepted_def)

lemma trim_parts: "\<exists>a b. s = a @ trim s @ b \<and> list_all is_space a \<and> list_all is_space b"
proof (intro exI conjI)
  let ?t = "dropWhile is_space s" and ?u = "takeWhile is_space (rev (dropWhile is_space s))"
  have "rev ?t = ?u @ dropWhile is_space (rev ?t)" by simp
  then have "?t = trim s @ rev ?u" unfolding trim_def by (metis rev_append rev_rev_ident)
  then show "s = takeWhile is_space s @ trim s @ rev ?u" by (metis takeWhile_dropWhile_id)
  show "list_all is_space (takeWhile is_space s)" "list_all is_space (rev ?u)"
    by (auto simp: list_all_iff dest: set_takeWhileD)
qed

lemma trim_blank: "trim s = [] \<longleftrightarrow> (\<forall>c \<in> set s. is_space c)"
proof
  assume "trim s = []"
  then show "\<forall>c \<in> set s. is_space c" using trim_parts [of s] by (auto simp: list_all_iff)
next
  assume all: "\<forall>c \<in> set s. is_space c"
  have "set (trim s) \<subseteq> set s" using trim_parts [of s] by (metis Un_iff set_append subsetI)
  with all trimmed_trim [of s] show "trim s = []"
    by (metis hd_in_set subsetD trimmed_def)
qed

lemma trim_phone:
  "list_all phone_char (trim s) = list_all phone_char s" "filter is_digit (trim s) = filter is_digit s"
proof -
  obtain a b where s: "s = a @ trim s @ b" "list_all is_space a" "list_all is_space b" using trim_parts by blast
  have "list_all phone_char a" "list_all phone_char b"
    using s(2,3) by (auto simp: list_all_iff phone_char_def)
  then show "list_all phone_char (trim s) = list_all phone_char s" by (subst (2) s(1)) simp
  have "filter is_digit a = []" "filter is_digit b = []"
    using s(2,3) digit_not_space by (auto simp: list_all_iff filter_empty_conv)
  then show "filter is_digit (trim s) = filter is_digit s" by (subst (2) s(1)) simp
qed

lemma phone_char_at: "list_all phone_char s \<Longrightarrow> \<not> js_includes ''@lid'' s"
proof
  assume all: "list_all phone_char s" and "js_includes ''@lid'' s"
  then have "CHR ''@'' \<in> set s" by (auto simp: js_includes_iff)
  with all have "phone_char (CHR ''@'')" by (auto simp: list_all_iff)
  moreover have "\<not> phone_char (CHR ''@'')" by code_simp
  ultimately show False by simp
qed

lemma normalizePhone_Inr: "normalizePhone v = Inr w \<longleftrightarrow> phone_accepted v \<and> w = phone_of v"
proof (cases v)
  case (Some s)
  have "(\<forall>c \<in> set s. is_digit c \<or> is_space c \<or> c \<in> set ''+().-'') \<longleftrightarrow> list_all phone_char s"
    by (auto simp: list_all_iff phone_char_def)
  with phone_char_at [of "trim s"] show ?thesis
    by (auto simp: Some normalizePhone_def Let_def trim_blank trim_phone phone_accepted_def phone_of_def phone_blank_def)
qed (auto simp: normalizePhone_def phone_accepted_def phone_of_def phone_blank_def)

lemma phone_of_ok: "phone_accepted v \<Longrightarrow> phone_ok (phone_of v)"
  using normalizePhone_ok [of v "phone_of v"] by (simp add: normalizePhone_Inr)

lemma assertUnique_unused:
  assumes "distinct (map cl_id cs)" and "phone_ok phone"
  shows "(\<exists>u. assertUnique cs user phone ex = Inr u) \<longleftrightarrow> unused (book_of cs) (set_option ex) user phone"
proof -
  have "unused (book_of cs) (set_option ex) user phone \<longleftrightarrow> (\<forall>c \<in> set cs. Some (cl_id c) \<noteq> ex \<longrightarrow>
      localUsername c \<noteq> user \<and> (phone \<noteq> None \<longrightarrow> cl_phone c \<noteq> phone))"
    unfolding unused_def book_of_member [OF assms(1)] by (cases ex) (fastforce simp: entry_of_def)+
  then show ?thesis
    using phone_ok_falsy [OF assms(2)] by (auto simp: assertUnique_def ebind_eq_Inr throw_if_def list_ex_iff)
qed

section \<open>Every operation refines its call\<close>

lemma create_accepted:
  assumes "clients_ok p" and "\<bar>now\<bar> \<le> max_time"
  shows "case ebind (create_payload payload) (\<lambda>parts. create_check metadata now parts p) of
      Inl e \<Rightarrow> \<not> accepts (book_of (clients p)) (Create_client payload)
    | Inr c \<Rightarrow> accepts (book_of (clients p)) (Create_client payload) \<and>
        cl_id c = next_id (md_tenantId metadata) now (book_of (clients p)) \<and> entry_of c = created_entry payload"
proof -
  let ?b = "book_of (clients p)" and ?ph = "phone_of (ccr_phone payload)" and ?u = "ccr_local_username payload"
  have ids: "distinct (map cl_id (clients p))" using assms(1) by (simp add: clients_ok_def)
  obtain ts where ts: "iso_now now = Inr ts" using iso_now_works [OF assms(2)] by blast
  let ?valid = "name_accepted (ccr_full_name payload) \<and> user_accepted ?u \<and> phone_accepted (ccr_phone payload) \<and>
    6 \<le> length (ccr_password payload)"
  have payload: "create_payload payload = Inr parts \<longleftrightarrow> ?valid \<and>
      parts = (join '' '' (words (ccr_full_name payload)), ?u, ?ph)" for parts
    by (auto simp: create_payload_def ebind_eq_Inr validateFullName_Inr validateLocalUsername_Inr normalizePhone_Inr throw_if_def)
  have unique: "(\<exists>v. assertUnique (clients p) ?u ?ph None = Inr v) \<longleftrightarrow> unused ?b {} ?u ?ph" if ?valid
    using assertUnique_unused [OF ids phone_of_ok, of _ ?u None] that by simp
  show ?thesis
  proof (cases "ebind (create_payload payload) (\<lambda>parts. create_check metadata now parts p)")
    case (Inl e)
    have "\<not> unused ?b {} ?u ?ph" if v: ?valid
    proof
      assume "unused ?b {} ?u ?ph"
      with unique v obtain w where "assertUnique (clients p) ?u ?ph None = Inr w" by blast
      moreover have "create_payload payload = Inr (join '' '' (words (ccr_full_name payload)), ?u, ?ph)"
        using v payload by blast
      ultimately show False using Inl ts by (simp add: create_check_def)
    qed
    with Inl show ?thesis by auto
  next
    case (Inr c)
    then have v: ?valid and c: "create_check metadata now (join '' '' (words (ccr_full_name payload)), ?u, ?ph) p = Inr c"
      by (auto simp: ebind_eq_Inr payload)
    from c obtain w where w: "assertUnique (clients p) ?u ?ph None = Inr w" by (auto simp: create_check_def ebind_eq_Inr)
    with unique v have "unused ?b {} ?u ?ph" by blast
    moreover have "cl_username c = canonicalUsername ?u" using c w ts by (auto simp: create_check_def Let_def)
    then have "localUsername c = ?u" by (rule localUsername_canonical)
    ultimately show ?thesis
      using v c w ts Inr by (auto simp: create_check_def Let_def next_id_def card_book_of [OF ids] entry_of_def created_entry_def)
  qed
qed

lemma update_accepted:
  assumes "clients_ok p" and "\<bar>now\<bar> \<le> max_time"
  shows "case update_check now cid ch p of
      Inl e \<Rightarrow> \<not> accepts (book_of (clients p)) (Update_client cid ch)
    | Inr c \<Rightarrow> accepts (book_of (clients p)) (Update_client cid ch) \<and> cl_id c = cid \<and>
        Some (entry_of c) = map_option (updated_entry ch) (book_of (clients p) cid)"
proof (cases "find_by cl_id cid (clients p)")
  case None
  then show ?thesis by (simp add: update_check_def not_found_def book_of_find)
next
  case (Some e)
  have e: "e \<in> set (clients p)" "cl_id e = cid" using find_by_SomeD [OF Some] by auto
  have ids: "distinct (map cl_id (clients p))" using assms(1) by (simp add: clients_ok_def)
  have wf: "client_wf e" using assms(1) e(1) by (simp add: clients_ok_def list_all_iff)
  obtain ts where ts: "iso_now now = Inr ts" using iso_now_works [OF assms(2)] by blast
  have at: "book_of (clients p) cid = Some (entry_of e)" by (simp add: book_of_find Some)
  let ?u = "updated_entry ch (entry_of e)"
  have name: "(case cup_full_name ch of None \<Rightarrow> Inr (cl_full_name e) | Some v \<Rightarrow> validateFullName v) = Inr n \<longleftrightarrow>
      (\<forall>v. cup_full_name ch = Some v \<longrightarrow> name_accepted v) \<and> n = en_name ?u" for n
    by (cases "cup_full_name ch") (auto simp: validateFullName_Inr updated_entry_def entry_of_def)
  have user: "(case cup_local_username ch of None \<Rightarrow> Inr (localUsername e) | Some v \<Rightarrow> validateLocalUsername v) = Inr l \<longleftrightarrow>
      (\<forall>v. cup_local_username ch = Some v \<longrightarrow> user_accepted v) \<and> l = en_user ?u" for l
    by (cases "cup_local_username ch") (auto simp: validateLocalUsername_Inr updated_entry_def entry_of_def)
  have phone: "(case cup_phone ch of None \<Rightarrow> Inr (cl_phone e) | Some v \<Rightarrow> normalizePhone (Some v)) = Inr q \<longleftrightarrow>
      phone_accepted (cup_phone ch) \<and> q = en_phone ?u" for q
    by (cases "cup_phone ch") (auto simp: normalizePhone_Inr updated_entry_def entry_of_def phone_accepted_def)
  have "phone_ok (en_phone ?u)" if "phone_accepted (cup_phone ch)"
    using that wf phone_of_ok by (cases "cup_phone ch") (simp_all add: updated_entry_def entry_of_def client_wf_def)
  then have unique: "(\<exists>v. assertUnique (clients p) (en_user ?u) (en_phone ?u) (Some cid) = Inr v) \<longleftrightarrow>
      unused (book_of (clients p)) {cid} (en_user ?u) (en_phone ?u)" if "phone_accepted (cup_phone ch)"
    using that assertUnique_unused [OF ids, of "en_phone ?u" "en_user ?u" "Some cid"] by simp
  have result: "update_check now cid ch p = Inr c \<longleftrightarrow> accepts (book_of (clients p)) (Update_client cid ch) \<and>
      c = e\<lparr>cl_full_name := en_name ?u, cl_username := canonicalUsername (en_user ?u), cl_phone := en_phone ?u, cl_updated_at := ts\<rparr>" for c
  proof -
    have run: "update_check now cid ch p =
      ebind (case cup_full_name ch of None \<Rightarrow> Inr (cl_full_name e) | Some v \<Rightarrow> validateFullName v) (\<lambda>fullName.
      ebind (case cup_local_username ch of None \<Rightarrow> Inr (localUsername e) | Some v \<Rightarrow> validateLocalUsername v) (\<lambda>local.
      ebind (case cup_phone ch of None \<Rightarrow> Inr (cl_phone e) | Some v \<Rightarrow> normalizePhone (Some v)) (\<lambda>phone.
      ebind (assertUnique (clients p) local phone (Some cid)) (\<lambda>_.
        Inr (e\<lparr>cl_full_name := fullName, cl_username := canonicalUsername local, cl_phone := phone, cl_updated_at := ts\<rparr>)))))"
      by (simp add: update_check_def Some not_found_def ts)
    show ?thesis
      unfolding run ebind_eq_Inr name user phone accepts.simps at using unique by auto
  qed
  show ?thesis
  proof (cases "update_check now cid ch p")
    case (Inl err)
    with result show ?thesis by auto
  next
    case (Inr c)
    with result have c: "c = e\<lparr>cl_full_name := en_name ?u, cl_username := canonicalUsername (en_user ?u), cl_phone := en_phone ?u, cl_updated_at := ts\<rparr>"
      and acc: "accepts (book_of (clients p)) (Update_client cid ch)" by blast+
    have "localUsername c = en_user ?u" by (rule localUsername_canonical) (simp add: c)
    then have "entry_of c = ?u" by (simp add: entry_of_def) (simp add: c updated_entry_def entry_of_def)
    with acc Inr at e(2) show ?thesis by (simp add: c)
  qed
qed

lemma active_accepted:
  assumes "\<bar>now\<bar> \<le> max_time"
  shows "case active_check cid f now p of
      Inl e \<Rightarrow> cid \<notin> dom (book_of (clients p))
    | Inr c \<Rightarrow> cid \<in> dom (book_of (clients p)) \<and> cl_id c = cid \<and>
        Some (entry_of c) = map_option (\<lambda>e. e\<lparr>en_active := f\<rparr>) (book_of (clients p) cid)"
proof -
  obtain ts where "iso_now now = Inr ts" using iso_now_works [OF assms] by blast
  then show ?thesis
    by (cases "find_by cl_id cid (clients p)")
      (auto simp: active_check_def not_found_def book_of_find domIff entry_of_def localUsername_def dest: find_by_SomeD)
qed

lemma delete_accepted:
  "(case delete_check cid p of Inl e \<Rightarrow> False | Inr u \<Rightarrow> True) \<longleftrightarrow> accepts (book_of (clients p)) (Delete_client cid)"
  by (cases "find_by cl_id cid (clients p)")
    (auto simp: delete_check_def not_found_def book_of_find throw_if_def entry_of_def)

lemma service_step_refines:
  assumes "session_at rest metadata now0 r" and "pro_view metadata r = Some p" and "clients_ok p"
    and "\<bar>fst c\<bar> \<le> max_time" and "ids_fresh (md_tenantId metadata) [c] (book_of (clients p))"
    and "service_step metadata c r = (x, t)"
  shows "\<exists>p'. session_at rest metadata now0 t \<and> pro_view metadata t = Some p' \<and> clients_ok p' \<and>
    services p' = services p \<and> plans p' = plans p \<and>
    book_step (md_tenantId metadata) c (book_of (clients p)) = (x, book_of (clients p'))"
proof -
  obtain now call where c: "c = (now, call)" by (cases c)
  have now: "\<bar>now\<bar> \<le> max_time" using assms(4) by (simp add: c)
  have at: "session_at rest metadata now r" using assms(1) now by (rule session_at_now)
  have same: "session_at rest metadata now t \<Longrightarrow> session_at rest metadata now0 t"
    using assms(1) by (simp add: session_at_def session_def)
  have ids: "distinct (map cl_id (clients p))" using assms(3) by (simp add: clients_ok_def)
  have fewer: "length ys \<le> length (clients p) \<Longrightarrow> fresh_rows p (p\<lparr>clients := ys, subscriptions := filter P (subscriptions p)\<rparr>)" for ys P
    by (auto simp: fresh_rows_def intro!: new_id_length) (metis Suc_n_not_le_n length_filter_le)
  have changed: "clients_ok (replace_client cid d p)" if "client_change p (replace_client cid d p)" for cid d
    using clients_ok_change [OF that _ assms(3)] by (simp add: fresh_rows_def replace_client_def new_id_length)
  let ?b = "book_of (clients p)" and ?tenant = "md_tenantId metadata"
  have refused: ?thesis if "session_at rest metadata now t" "pro_view metadata t = Some p" "\<not> accepts ?b call" "x = None"
    using that same assms(3) by (intro exI [of _ p]) (simp add: book_step_def Let_def c)
  have accepted: ?thesis
    if "session_at rest metadata now t" "pro_view metadata t = Some p'" "clients_ok p'" "services p' = services p" "plans p' = plans p"
      "accepts ?b call" "x = Some cid" "cid = concerns ?tenant now ?b call" "book_of (clients p') = ?b(cid := outcome ?b cid call)"
    for p' cid
    using that same by (intro exI [of _ p']) (simp add: book_step_def Let_def c)
  show ?thesis
  proof (cases call)
    case (Create_client payload)
    obtain y where y: "client_create metadata now payload r = (y, t)" "x = (case y of Inl e \<Rightarrow> None | Inr d \<Rightarrow> Some (cl_id d))"
      using assms(6) by (cases "client_create metadata now payload r") (simp add: c Create_client returned_def)
    note res = client_create_result [OF y(1) at assms(2)]
    note acc = create_accepted [OF assms(3) now, of payload metadata, folded res [THEN conjunct1]]
    show ?thesis
    proof (cases y)
      case (Inl e)
      show ?thesis by (rule refused) (use res [THEN conjunct2] acc y(2) in \<open>simp_all add: Inl Create_client del: accepts.simps\<close>)
    next
      case (Inr d)
      with acc have d: "accepts ?b call" "cl_id d = next_id ?tenant now ?b" "entry_of d = created_entry payload"
        by (simp_all add: Create_client del: accepts.simps)
      with assms(5) have new: "cl_id d \<notin> cl_id ` set (clients p)"
        by (simp add: c Create_client dom_book_of del: accepts.simps)
      then have "fresh_rows p (add_client d p)" by (simp add: fresh_rows_def add_client_def)
      moreover have "client_change p (add_client d p)"
        using res [THEN conjunct1, symmetric] by (auto simp: Inr ebind_eq_Inr intro: change_add)
      ultimately have ok: "clients_ok (add_client d p)" using clients_ok_change assms(3) by blast
      have "book_of (clients (add_client d p)) = ?b(cl_id d := outcome ?b (cl_id d) call)"
        using new d(3) by (simp add: add_client_def book_of_add Create_client)
      with d(1,2) ok show ?thesis
        by (intro accepted [of "add_client d p" "cl_id d"]) (use res [THEN conjunct2] y(2) in \<open>simp_all add: Inr Create_client\<close>)
    qed
  next
    case (Update_client cid ch)
    obtain y where y: "client_update metadata now cid ch r = (y, t)" "x = (case y of Inl e \<Rightarrow> None | Inr d \<Rightarrow> Some (cl_id d))"
      using assms(6) by (cases "client_update metadata now cid ch r") (simp add: c Update_client returned_def)
    note res = client_update_result [OF y(1) at assms(2)]
    note acc = update_accepted [OF assms(3) now, of cid ch, folded res [THEN conjunct1]]
    show ?thesis
    proof (cases y)
      case (Inl e)
      show ?thesis by (rule refused) (use res [THEN conjunct2] acc y(2) in \<open>simp_all add: Inl Update_client del: accepts.simps\<close>)
    next
      case (Inr d)
      with acc have d: "accepts ?b call" "cl_id d = cid" "Some (entry_of d) = map_option (updated_entry ch) (?b cid)"
        by (simp_all add: Update_client del: accepts.simps)
      then have mem: "cid \<in> cl_id ` set (clients p)" by (metis dom_book_of domIff map_option_is_None option.distinct(1))
      have ok: "clients_ok (replace_client cid d p)"
        using res [THEN conjunct1] by (intro changed change_update) (simp add: Inr)
      have "book_of (clients (replace_client cid d p)) = ?b(cid := outcome ?b cid call)"
        using mem d(2) by (simp add: replace_client_def book_of_replace Update_client d(3) [symmetric])
      with d(1,2) ok show ?thesis
        by (intro accepted [of "replace_client cid d p" cid]) (use res [THEN conjunct2] y(2) in \<open>simp_all add: Inr Update_client\<close>)
    qed
  next
    case (Set_active cid f)
    obtain y where y: "client_setActive metadata now cid f r = (y, t)" "x = (case y of Inl e \<Rightarrow> None | Inr d \<Rightarrow> Some (cl_id d))"
      using assms(6) by (cases "client_setActive metadata now cid f r"; cases f)
        (simp_all add: c Set_active returned_def client_activate_def client_deactivate_def)
    note res = client_setActive_result [OF y(1) at assms(2)]
    note acc = active_accepted [OF now, where cid = cid and f = f and p = p, folded res [THEN conjunct1]]
    show ?thesis
    proof (cases y)
      case (Inl e)
      show ?thesis by (rule refused) (use res [THEN conjunct2] acc y(2) in \<open>simp_all add: Inl Set_active\<close>)
    next
      case (Inr d)
      with acc have d: "accepts ?b call" "cl_id d = cid" "Some (entry_of d) = map_option (\<lambda>e. e\<lparr>en_active := f\<rparr>) (?b cid)"
        and mem: "cid \<in> cl_id ` set (clients p)" by (simp_all add: Set_active flip: dom_book_of)
      have ok: "clients_ok (replace_client cid d p)"
        using res [THEN conjunct1] by (intro changed change_active) (simp add: Inr)
      have "book_of (clients (replace_client cid d p)) = ?b(cid := outcome ?b cid call)"
        using mem d(2) by (simp add: replace_client_def book_of_replace Set_active d(3) [symmetric])
      with d(1,2) ok show ?thesis
        by (intro accepted [of "replace_client cid d p" cid]) (use res [THEN conjunct2] y(2) in \<open>simp_all add: Inr Set_active\<close>)
    qed
  next
    case (Delete_client cid)
    obtain y where y: "client_delete metadata now cid r = (y, t)" "x = (case y of Inl e \<Rightarrow> None | Inr d \<Rightarrow> Some cid)"
      using assms(6) by (cases "client_delete metadata now cid r") (simp add: c Delete_client returned_def)
    note res = client_delete_result [OF y(1) at assms(2)]
    note acc = delete_accepted [of cid p, folded res [THEN conjunct1]]
    show ?thesis
    proof (cases y)
      case (Inl e)
      show ?thesis by (rule refused) (use res [THEN conjunct2] acc y(2) in \<open>simp_all add: Inl Delete_client del: accepts.simps\<close>)
    next
      case (Inr d)
      have ok: "clients_ok (delete_client cid p)"
        by (rule clients_ok_change [OF change_delete _ assms(3)])
          (use res [THEN conjunct1] fewer in \<open>simp_all add: Inr delete_client_def remove_by_def\<close>)
      have "book_of (clients (delete_client cid p)) = ?b(cid := outcome ?b cid call)"
        by (simp add: delete_client_def book_of_remove Delete_client)
      moreover have "accepts ?b call" using acc by (simp add: Inr Delete_client del: accepts.simps)
      ultimately show ?thesis
        using ok by (intro accepted [of "delete_client cid p" cid]) (use res [THEN conjunct2] y(2) in \<open>simp_all add: Inr Delete_client\<close>)
    qed
  qed
qed

section \<open>Properties\<close>

text \<open>
  C2. The clients service refines the address book, call by call. Take any sequence of creations, updates,
  activations, deactivations and deletions, each at its own time, from a session whose clients are in order, in which no accepted
  creation gets an identifier that is taken (two creations within one millisecond, see
  \<open>twin_clients_share_username\<close>). Run on the JSON workspace in the browser storage, the service returns a
  client exactly for the calls that the book accepts, with the identifier the book gives, and leaves exactly the clients that the book has;
  the services and plans stay as they were.
\<close>

theorem clients_refine_book:
  assumes "session_at rest metadata now r" and "pro_view metadata r = Some p" and "clients_ok p"
    and "\<forall>c \<in> set calls. \<bar>fst c\<bar> \<le> max_time"
    and "ids_fresh (md_tenantId metadata) calls (book_of (clients p))"
    and "service_run metadata calls r = (xs, t)"
  shows "\<exists>p'. session_at rest metadata now t \<and> pro_view metadata t = Some p' \<and> clients_ok p' \<and>
    services p' = services p \<and> plans p' = plans p \<and>
    book_run (md_tenantId metadata) calls (book_of (clients p)) = (xs, book_of (clients p'))"
  using assms
proof (induction calls arbitrary: r p xs)
  case (Cons c cs)
  obtain x u where x: "service_step metadata c r = (x, u)" by fastforce
  obtain ys where ys: "service_run metadata cs u = (ys, t)" "xs = x # ys"
    using Cons.prems(6) by (auto simp: x split: prod.splits)
  have c: "\<bar>fst c\<bar> \<le> max_time" "ids_fresh (md_tenantId metadata) [c] (book_of (clients p))"
    using Cons.prems(4,5) by simp_all
  obtain q where q: "session_at rest metadata now u" "pro_view metadata u = Some q" "clients_ok q"
    "services q = services p" "plans q = plans p"
    "book_step (md_tenantId metadata) c (book_of (clients p)) = (x, book_of (clients q))"
    using service_step_refines [OF Cons.prems(1-3) c x] by blast
  from Cons.IH [OF q(1-3) _ _ ys(1)] Cons.prems(4,5) q(4-6) ys(2) show ?case by auto
qed simp

text \<open>A run that creates a client, and is refused its deletion while it is active and the creation of a second one of that name.\<close>

definition sample_client :: ClientCreate where
  "sample_client = \<lparr>ccr_full_name = ''Ana  Diaz'', ccr_local_username = ''ana'', ccr_phone = None, ccr_password = ''secret''\<rparr>"

definition sample_client_calls :: "(int \<times> client_call) list" where
  "sample_client_calls = [(0, Create_client sample_client), (1, Delete_client ''client-t1-6-0''), (2, Create_client sample_client)]"

definition sample_book :: book where
  "sample_book = book_of (baseline_clients sample_metadata)"

lemma sample_ids: "distinct (map cl_id (baseline_clients sample_metadata))"
  using clients_ok_baseline [of sample_metadata] by (simp add: clients_ok_def baseline_lists_def)

lemma sample_book_next: "next_id ''t1'' 0 sample_book = ''client-t1-6-0''" and sample_book_new: "sample_book ''client-t1-6-0'' = None"
proof -
  have "length (baseline_clients sample_metadata) = 5" by code_simp
  then show "next_id ''t1'' 0 sample_book = ''client-t1-6-0''"
    by (simp add: next_id_def sample_book_def card_book_of [OF sample_ids]) code_simp
  have "find_by cl_id ''client-t1-6-0'' (baseline_clients sample_metadata) = None" by code_simp
  then show "sample_book ''client-t1-6-0'' = None" by (simp add: sample_book_def book_of_find)
qed

lemma sample_accepted: "accepts sample_book (Create_client sample_client)"
proof -
  have "name_accepted (ccr_full_name sample_client)" "user_accepted (ccr_local_username sample_client)"
    "6 \<le> length (ccr_password sample_client)" unfolding name_accepted_def user_accepted_def by code_simp+
  moreover have "assertUnique (baseline_clients sample_metadata) ''ana'' None None = Inr ()" by code_simp
  then have "unused sample_book {} ''ana'' None"
    using assertUnique_unused [OF sample_ids, of None "''ana''" None] by (simp add: sample_book_def phone_ok_def)
  ultimately show ?thesis by (simp add: sample_client_def phone_accepted_def phone_of_def phone_blank_def)
qed

lemma sample_book_run:
  "book_run ''t1'' sample_client_calls sample_book =
     ([Some ''client-t1-6-0'', None, None], sample_book(''client-t1-6-0'' \<mapsto> created_entry sample_client))"
  "ids_fresh ''t1'' sample_client_calls sample_book"
proof -
  let ?b = "sample_book(''client-t1-6-0'' \<mapsto> created_entry sample_client)"
  have first: "book_step ''t1'' (0, Create_client sample_client) sample_book = (Some ''client-t1-6-0'', ?b)"
    using sample_accepted by (simp add: book_step_def sample_book_next Let_def del: accepts.simps)
  have "\<not> accepts ?b (Delete_client ''client-t1-6-0'')"
    by (simp add: created_entry_def)
  then have second: "book_step ''t1'' (1, Delete_client ''client-t1-6-0'') ?b = (None, ?b)"
    by (simp add: book_step_def del: accepts.simps)
  have "en_user (created_entry sample_client) = ccr_local_username sample_client" by (simp add: created_entry_def)
  then have taken: "\<not> accepts ?b (Create_client sample_client)"
    by (auto simp: unused_def)
  then have third: "book_step ''t1'' (2, Create_client sample_client) ?b = (None, ?b)"
    by (simp add: book_step_def del: accepts.simps)
  show "book_run ''t1'' sample_client_calls sample_book = ([Some ''client-t1-6-0'', None, None], ?b)"
    by (simp add: sample_client_calls_def first second third)
  show "ids_fresh ''t1'' sample_client_calls sample_book"
    using taken by (simp add: sample_client_calls_def first second sample_book_next sample_book_new domIff del: accepts.simps)
qed

theorem clients_refine_book_witness:
  "\<exists>r t p. service_run sample_metadata sample_client_calls r = ([Some ''client-t1-6-0'', None, None], t) \<and>
     pro_view sample_metadata t = Some p \<and>
     book_of (clients p) = sample_book(''client-t1-6-0'' \<mapsto> created_entry sample_client)"
proof -
  obtain r rest where r: "session_at rest sample_metadata 0 r" "pro_view sample_metadata r = Some (baseline_lists sample_metadata)"
    using sample_session by blast
  obtain xs t where run: "service_run sample_metadata sample_client_calls r = (xs, t)" by fastforce
  have tenant: "md_tenantId sample_metadata = ''t1''" by (simp add: sample_metadata_def)
  have book: "book_of (clients (baseline_lists sample_metadata)) = sample_book" by (simp add: sample_book_def baseline_lists_def)
  have times: "\<forall>c \<in> set sample_client_calls. \<bar>fst c\<bar> \<le> max_time" by (simp add: sample_client_calls_def max_time_def)
  have fresh: "ids_fresh (md_tenantId sample_metadata) sample_client_calls (book_of (clients (baseline_lists sample_metadata)))"
    unfolding tenant book by (rule sample_book_run)
  from clients_refine_book [OF r clients_ok_baseline times fresh run] obtain p where
    "pro_view sample_metadata t = Some p" "book_run ''t1'' sample_client_calls sample_book = (xs, book_of (clients p))"
    unfolding tenant book by blast
  with run sample_book_run(1) show ?thesis by auto
qed

end
