(* ===== verification/Spec2Isabelle.thy ===== *)
theory Spec2Isabelle
  imports PhoneDemo HelpNavigation LinkPolling DemoHooks AddressBook
begin

text \<open>
  TrackPal: a verification library of the logic of its web application (\<open>src/frontend/src\<close>).

  THE PROGRAM. TrackPal is a multi-tenant service for resellers of streaming subscriptions. Its web
  application talks to a server in production; in a demo it runs the same pages over a workspace kept in the browser
  storage, with chat simulators of the bots. The application logic consists of chat machines, the demo workspace and the four
  data services over it, the data source that chooses between server and workspace, and the stores of the
  session and of its caches. Pages read stores and data source and call their operations; the session store creates the
  data source and clears the caches; the data source hands the workspace to the demo services; the services read and update the
  envelope of the workspace; the workspace is text under one key of the browser storage. The simulator of the demo is a
  phone: the machine of its menu opens consoles, conversations whose messages are translated texts and which ask the data source.

  THEORIES, from the bottom.
  \<^item> \<open>TpPrelude\<close>: errors as sums, state-passing actions (\<open>act\<close>) with a specification
    predicate (\<open>act_spec\<close>), lists with unique keys, pages. \<open>JsText\<close>, \<open>JsNumber\<close>, \<open>JsDate\<close>,
    \<open>JsSort\<close>: what the sources use of JavaScript strings, \<open>Number\<close>, \<open>Date\<close> and \<open>sort\<close>.
    \<open>Json\<close>: JavaScript values and JSON; printing and parsing invert each other.
  \<^item> \<open>Storage\<close> (\<open>lib/browser-storage.ts\<close>): the storage with a list of faults, which says of each coming call
    whether it throws. Theorems for every such list hold however the storage fails.
  \<^item> \<open>ChatLog\<close>, \<open>Simulator\<close>, \<open>ProSimulator\<close>, \<open>ClientConsole\<close> (\<open>features/demo/services/*-machine.ts\<close>): the
    three chat machines, one transition function each; invariants of all reachable states, the code, the menus and the pages.
  \<^item> \<open>IconReference\<close>, \<open>DemoWorkspace\<close> (\<open>demo-workspace.ts\<close>): validation, migration and the repository with its error
    states; isolation of other keys along labelled runs (an entry goes at the clean-up of an \<open>ensure\<close> whose server time it has outlived),
    no secrets, validity of what is handed out, read-back, migration, error reports.
  \<^item> \<open>DemoBaseline\<close> (\<open>demo-baseline.ts\<close>): the initial data and the readers of a stored state.
    \<open>DemoStore\<close>: the interface of the services to the workspace as the locale \<open>demo_store\<close> (require a valid state, update it, read
    it back), interpreted on the repository for both plans; and the view of the storage as plain records.
    \<open>FreshIds\<close>: the steps in which no creation makes an identifier that is there already.
  \<^item> \<open>DemoClients\<close>, \<open>DemoCatalog\<close>, \<open>DemoSubscriptions\<close>, \<open>DemoSettings\<close> (\<open>demo-client-crud.ts\<close>, \<open>demo-catalog.ts\<close>,
    \<open>demo-subscriptions.ts\<close>, \<open>demo-settings.ts\<close>): every operation as a check followed by a change; each is an
    interpretation of the locale. \<open>AddressBook\<close>: what the clients service promises, written without the code as a map from
    identifiers to entries, and the proof that the service refines it call by call. \<open>DemoSession\<close>: the services together and
    the composed invariant.
  \<^item> \<open>ApiRequests\<close> (the \<open>*-api.ts\<close> wrappers) and \<open>DataSource\<close> (\<open>lib/data-source.ts\<close>): the requests of production, both adapters
    with every operation, and the separation of the two modes against a table of requests written apart from the code.
  \<^item> \<open>ExportStore\<close>, \<open>SettingsStore\<close>, \<open>CatalogStore\<close> (\<open>features/admin/stores/export-store.ts\<close>, \<open>store/settings.ts\<close>,
    \<open>store/catalog.ts\<close>): asynchronous handlers cut at their \<open>await\<close>, with step relations in which replies and timers interleave freely. \<open>StepRuns\<close>: the locale \<open>invariant_run\<close>
    of a store with an invariant, interpreted on each of them.
  \<^item> \<open>LinkPolling\<close> (\<open>use-whatsapp-link-polling.ts\<close>) and \<open>DemoHooks\<close> (\<open>use-countdown.ts\<close>, \<open>use-demo-heartbeat.ts\<close>): the hooks with
    timers, as the steps that effects, timers and replies make.
  \<^item> \<open>AuthStore\<close> (\<open>store/auth.ts\<close>, \<open>auth-api.ts\<close>, \<open>lib/api.ts\<close>): the session. \<open>HelpNavigation\<close>
    (\<open>features/help/safe-navigation.ts\<close>): the destinations that help may lead to.

  \<^item> \<open>I18n\<close> (\<open>i18n/index.ts\<close>, \<open>i18n/public.ts\<close>): the catalogs and the filling in of parameters. \<open>ConsoleText\<close>: what the consoles
    share, with the locale \<open>data_closed\<close>, the interface between a console and the data source (a predicate of the
    workspace that the allowed operations keep), interpreted on the workspace in order, on the requests made and on queries.
  \<^item> \<open>TenantAdminConsole\<close>, \<open>SubscriptionConsole\<close>, \<open>UtilityConsole\<close>, \<open>ClientExperience\<close> (\<open>features/demo/components/*-console-experience.tsx\<close>):
    the consoles, one definition per screen; what a message may ask, what a screen promises, and the way back.
  \<^item> \<open>PhoneDemo\<close> (\<open>demo-whatsapp-simulator.tsx\<close>): the phone with its machine and the console on the screen; the composition of
    machine, consoles, data source and workspace.

  CORRESPONDENCE. Definitions have the names of the sources, with a prefix where two sources share a name
  (\<open>sim_\<close>, \<open>pro_\<close>, \<open>cc_\<close>, \<open>client_\<close>, \<open>sub_\<close>, \<open>set_\<close>, \<open>ta_\<close>, \<open>sc_\<close>, \<open>cx_\<close>, \<open>public_\<close>; \<open>_api\<close> for requests, \<open>_reply\<close> for
  the part of a handler after its request). Interfaces are records, unions are datatypes, \<open>null\<close> and \<open>undefined\<close> are
  \<open>None\<close> (values of type \<open>unknown\<close> are JSON values, where \<open>JNull\<close> is not \<open>None\<close>), a thrown error is \<open>Inl\<close>, and an object
  that is mutated is a state passed through. An \<open>if\<close> or early return of the source is a branch here. A handler
  that reads a parameter or environment (clock, translations, collation, time zones, currencies, replies of the server)
  takes it as an argument.

  WHAT THE LEMMAS SHOW. Each theory proves the laws of its operations, then the invariant of its steps, then the properties
  marked C1 to C40: invariants of the chat machines (C1, C5, C8), what they show (C3, C4, C9), the workspace (C11 to C13, C15, C16, C19),
  the services (C20, C21, C23, C24, C26 to C30), the clients as an address book (C2), their composition (C32, C33), the data source (C34, C35), help (C36), the stores
  (C37, C38), the session (C39, C40, C10), the consoles (C7, C14, C17, C18, C22, C31) and the phone as the composition of
  them all (C6, C25). Lemmas with \<open>A finding\<close> above them, or named in the list of findings, show behaviour that the code
  hardly means; each is listed with the development.

  BOUNDS AND FUEL. The JSON parser has fuel: twice the length of the text plus one is used and proved to be enough
  (\<open>JSON_parse_fuel\<close>). The hash of the simulator is computed on 32-bit words. Dates are milliseconds within the range of
  ECMAScript (\<open>max_time\<close>); outside it an error is thrown, as there. Everything else is structural recursion and total.

  IDENTIFIERS. New rows are named after the clock, so two creations in one millisecond can share an identifier; a check that
  skips the row with the identifier being changed then skips both. Uniqueness (C20, C23, C27, C32) is of the rows in the list and holds for
  sequences in which every identifier made is new (\<open>with_fresh_ids\<close>); \<open>twin_clients_share_username\<close>, \<open>twin_services_share_name\<close> and
  \<open>twin_creations_duplicate\<close> are sequences of the code's own operations that break it otherwise.

  SIMPLIFICATIONS. Characters are those below 256, so one character is one UTF-16 unit. Numbers read from JSON
  are integers or decimal fractions without rounding. The clock is read once per call. Stored data that passes the checks of the code but not
  the types it is cast to is the error \<open>OffType\<close>. Metadata read from the storage drops properties that its type does not name.
  In the demo every operation of the data source settles without leaving the microtask queue, so a console handles a message in one
  step; what the phone does on a callback (its summary included, which only reads) follows that step. A console that is unmounted takes nothing
  more. The em dash of the consoles is a character of its own below 256. Of the engine's \<open>Date\<close> beyond ISO texts and of \<open>Intl.DateTimeFormat\<close>
  the consoles use what a parameter gives.
  The email pattern, case mapping and white space are those of the characters above.

  NOT MODELLED. The JSX of pages and consoles, layouts and routes (presentation; the scheduling of effects is that of the step relations), the icon search
  (a third-party service), request wrappers without logic, the pages of the administration, the Python server, the worker and the
  automation workflows (the other side of the requests), and vendored scripts under \<open>.agents\<close>.
\<close>

end
